(* ===== verification/Rust_Str.thy ===== *)
theory Rust_Str
  imports Prelude
begin

text \<open>
  The parts of Rust's \<open>str\<close> and \<open>char\<close> API that the program uses. A \<open>&str\<close> is the list of
  its UTF-8 bytes, each byte a \<open>char\<close> of HOL; \<open>byte\<close> is the numeric value. White space is the
  Unicode property \<open>White_Space\<close> (\<open>char::is_whitespace\<close>), recognised on its UTF-8 encodings.
\<close>

section \<open>Bytes and ASCII classes\<close>

definition byte :: "char \<Rightarrow> nat" where
  "byte c = of_char c"

definition is_ascii :: "char \<Rightarrow> bool" where
  "is_ascii c \<longleftrightarrow> byte c < 128"

definition is_digit :: "char \<Rightarrow> bool" where
  "is_digit c \<longleftrightarrow> 48 \<le> byte c \<and> byte c \<le> 57"

definition is_upper :: "char \<Rightarrow> bool" where
  "is_upper c \<longleftrightarrow> 65 \<le> byte c \<and> byte c \<le> 90"

definition is_lower :: "char \<Rightarrow> bool" where
  "is_lower c \<longleftrightarrow> 97 \<le> byte c \<and> byte c \<le> 122"

definition is_alnum :: "char \<Rightarrow> bool" where
  "is_alnum c \<longleftrightarrow> is_digit c \<or> is_upper c \<or> is_lower c"

definition is_lower_hex :: "char \<Rightarrow> bool" where
  "is_lower_hex c \<longleftrightarrow> is_digit c \<or> (97 \<le> byte c \<and> byte c \<le> 102)"

definition is_hexdigit :: "char \<Rightarrow> bool" where
  "is_hexdigit c \<longleftrightarrow> is_lower_hex c \<or> (65 \<le> byte c \<and> byte c \<le> 70)"

definition is_ascii_ws :: "char \<Rightarrow> bool" where
  "is_ascii_ws c \<longleftrightarrow> byte c \<in> {9, 10, 12, 13, 32}"

definition is_ascii_control :: "char \<Rightarrow> bool" where
  "is_ascii_control c \<longleftrightarrow> byte c < 32 \<or> byte c = 127"

definition lower_char :: "char \<Rightarrow> char" where
  "lower_char c = (if is_upper c then char_of (byte c + 32) else c)"

definition ascii_lower :: "string \<Rightarrow> string" where
  "ascii_lower s = map lower_char s"

definition eq_ignore_case :: "string \<Rightarrow> string \<Rightarrow> bool" where
  "eq_ignore_case s t \<longleftrightarrow> ascii_lower s = ascii_lower t"

lemma byte_bound: "byte c < 256"
proof -
  have "byte c = byte (char_of (byte c))" by (simp add: byte_def)
  also have "\<dots> < 256" unfolding byte_def [of "char_of (byte c)"] by (simp add: of_char_of)
  finally show ?thesis .
qed

lemma byte_char_of [simp]: "byte (char_of n) = n mod 256"
  by (simp add: byte_def)

lemma byte_inject [simp]: "byte c = byte d \<longleftrightarrow> c = d"
  by (simp add: byte_def)

lemma char_of_eq: "char_of (n::nat) = c \<longleftrightarrow> byte c = n mod 256"
  by (metis byte_char_of byte_inject)

lemma lower_char_idem [simp]: "lower_char (lower_char c) = lower_char c"
  by (auto simp: lower_char_def is_upper_def)

lemma ascii_lower_idem [simp]: "ascii_lower (ascii_lower s) = ascii_lower s"
  by (simp add: ascii_lower_def)

lemma length_ascii_lower [simp]: "length (ascii_lower s) = length s"
  by (simp add: ascii_lower_def)

lemma ascii_lower_append [simp]: "ascii_lower (s @ t) = ascii_lower s @ ascii_lower t"
  by (simp add: ascii_lower_def)

lemma eq_ignore_case_refl [simp]: "eq_ignore_case s s"
  by (simp add: eq_ignore_case_def)

lemma is_lower_hex_lower_char: "is_hexdigit c \<Longrightarrow> is_lower_hex (lower_char c)"
  by (auto simp: is_hexdigit_def is_lower_hex_def lower_char_def is_upper_def is_digit_def)

lemma lower_char_lower_hex [simp]: "is_lower_hex c \<Longrightarrow> lower_char c = c"
  by (auto simp: is_lower_hex_def lower_char_def is_upper_def is_digit_def)

lemma lower_hex_hexdigit [simp]: "is_lower_hex c \<Longrightarrow> is_hexdigit c"
  by (simp add: is_hexdigit_def)

lemma ascii_lower_lower_hex: "list_all is_lower_hex s \<Longrightarrow> ascii_lower s = s"
  by (induction s) (auto simp: ascii_lower_def)

lemma lower_hex_ascii_lower: "list_all is_hexdigit s \<Longrightarrow> list_all is_lower_hex (ascii_lower s)"
  by (induction s) (auto simp: ascii_lower_def is_lower_hex_lower_char)

section \<open>Characters and white space\<close>

text \<open>A continuation byte \<open>10xxxxxx\<close> is not a character boundary.\<close>

definition is_continuation :: "char \<Rightarrow> bool" where
  "is_continuation c \<longleftrightarrow> 128 \<le> byte c \<and> byte c < 192"

definition is_char_boundary :: "string \<Rightarrow> nat \<Rightarrow> bool" where
  "is_char_boundary s n \<longleftrightarrow>
     n = 0 \<or> n = length s \<or> (n < length s \<and> \<not> is_continuation (s ! n))"

text \<open>\<open>s.get(..n)\<close> and \<open>s.get(n..)\<close>: \<open>None\<close> out of range or inside a character.\<close>

definition str_get_prefix :: "nat \<Rightarrow> string \<Rightarrow> string option" where
  "str_get_prefix n s = (if is_char_boundary s n then Some (take n s) else None)"

definition str_get_suffix :: "nat \<Rightarrow> string \<Rightarrow> string option" where
  "str_get_suffix n s = (if is_char_boundary s n then Some (drop n s) else None)"

text \<open>
  White space by encoded length: one byte (ASCII), two bytes (U+0085, U+00A0) and three bytes
  (U+1680, U+2000 to U+200A, U+2028, U+2029, U+202F, U+205F, U+3000).
\<close>

definition ws1 :: "char \<Rightarrow> bool" where
  "ws1 a \<longleftrightarrow> byte a \<in> {9, 10, 11, 12, 13, 32}"

definition ws2 :: "char \<Rightarrow> char \<Rightarrow> bool" where
  "ws2 a b \<longleftrightarrow> byte a = 194 \<and> byte b \<in> {133, 160}"

definition ws3 :: "char \<Rightarrow> char \<Rightarrow> char \<Rightarrow> bool" where
  "ws3 a b c \<longleftrightarrow>
     (byte a = 225 \<and> byte b = 154 \<and> byte c = 128)
   \<or> (byte a = 226 \<and> byte b = 128 \<and> (128 \<le> byte c \<and> byte c \<le> 138 \<or> byte c \<in> {168, 169, 175}))
   \<or> (byte a = 226 \<and> byte b = 129 \<and> byte c = 159)
   \<or> (byte a = 227 \<and> byte b = 128 \<and> byte c = 128)"

text \<open>The number of bytes of the white-space character a string starts with (0: none).\<close>

definition ws_len :: "string \<Rightarrow> nat" where
  "ws_len s = (case s of
       [] \<Rightarrow> 0
     | a # s' \<Rightarrow> if ws1 a then 1 else (case s' of
           [] \<Rightarrow> 0
         | b # s'' \<Rightarrow> if ws2 a b then 2 else (case s'' of
               [] \<Rightarrow> 0
             | c # _ \<Rightarrow> if ws3 a b c then 3 else 0)))"

text \<open>The number of bytes of the white-space character a string ends with (0: none).\<close>

definition ws_len_end :: "string \<Rightarrow> nat" where
  "ws_len_end s =
     (if 1 \<le> length s \<and> ws_len (drop (length s - 1) s) = 1 then 1
      else if 2 \<le> length s \<and> ws_len (drop (length s - 2) s) = 2 then 2
      else if 3 \<le> length s \<and> ws_len (drop (length s - 3) s) = 3 then 3
      else 0)"

lemma ws_len_le: "ws_len s \<le> length s"
  by (auto simp: ws_len_def split: list.splits)

lemma ws_len_end_le: "ws_len_end s \<le> length s"
  by (auto simp: ws_len_end_def)

function trim_start :: "string \<Rightarrow> string" where
  "trim_start s = (if ws_len s = 0 then s else trim_start (drop (ws_len s) s))"
  by auto
termination
proof (relation "measure length")
  fix s assume "ws_len s \<noteq> 0"
  then show "(drop (ws_len s) s, s) \<in> measure length"
    using ws_len_le [of s] by auto
qed simp

function trim_end :: "string \<Rightarrow> string" where
  "trim_end s = (if ws_len_end s = 0 then s else trim_end (take (length s - ws_len_end s) s))"
  by auto
termination
proof (relation "measure length")
  fix s assume "ws_len_end s \<noteq> 0"
  then show "(take (length s - ws_len_end s) s, s) \<in> measure length"
    using ws_len_end_le [of s] by auto
qed simp

declare trim_start.simps [simp del] trim_end.simps [simp del]

definition trim :: "string \<Rightarrow> string" where
  "trim s = trim_end (trim_start s)"

definition is_blank :: "string \<Rightarrow> bool" where
  "is_blank s \<longleftrightarrow> trim s = []"

text \<open>An ASCII byte that is not white space: trimming stops at it from either side.\<close>

definition is_solid :: "char \<Rightarrow> bool" where
  "is_solid c \<longleftrightarrow> is_ascii c \<and> \<not> ws1 c"

lemma solid_alnum [simp]: "is_alnum c \<Longrightarrow> is_solid c"
  by (auto simp: is_alnum_def is_digit_def is_upper_def is_lower_def is_solid_def is_ascii_def ws1_def)

lemma solid_lower_hex [simp]: "is_lower_hex c \<Longrightarrow> is_solid c"
  by (auto simp: is_lower_hex_def is_digit_def is_solid_def is_ascii_def ws1_def)

lemma solid_digit [simp]: "is_digit c \<Longrightarrow> is_solid c"
  by (auto simp: is_digit_def is_solid_def is_ascii_def ws1_def)

lemma ws_len_solid: "is_solid c \<Longrightarrow> ws_len (c # s) = 0"
  by (auto simp: ws_len_def is_solid_def is_ascii_def ws2_def ws3_def split: list.splits)

lemma ws_len_pos_last:
  "ws_len s = length s \<Longrightarrow> s \<noteq> [] \<Longrightarrow> \<not> is_solid (last s)"
  by (auto simp: ws_len_def is_solid_def is_ascii_def ws2_def ws3_def split: list.splits if_splits)

lemma ws_len_end_solid:
  assumes "is_solid (last s)"
  shows "ws_len_end s = 0"
proof -
  have "ws_len (drop (length s - n) s) \<noteq> n" if "1 \<le> n" "n \<le> length s" for n
  proof
    assume eq: "ws_len (drop (length s - n) s) = n"
    have "length (drop (length s - n) s) = n" "drop (length s - n) s \<noteq> []"
      using that by auto
    then show False
      using ws_len_pos_last [of "drop (length s - n) s"] eq assms that by (simp add: last_drop)
  qed
  then show ?thesis by (auto simp: ws_len_end_def)
qed

lemma trim_start_solid [simp]: "is_solid c \<Longrightarrow> trim_start (c # s) = c # s"
  by (simp add: trim_start.simps ws_len_solid)

lemma trim_end_solid: "is_solid (last s) \<Longrightarrow> trim_end s = s"
  by (simp add: trim_end.simps ws_len_end_solid)

lemma trim_solid_both:
  assumes "s \<noteq> []" "is_solid (hd s)" "is_solid (last s)"
  shows "trim s = s"
  using assms by (cases s) (simp_all add: trim_def trim_end_solid)

lemma trim_solid_all: "list_all is_solid s \<Longrightarrow> trim s = s"
proof (cases "s = []")
  case True
  then show ?thesis by (simp add: trim_def trim_start.simps trim_end.simps ws_len_def ws_len_end_def)
next
  case False
  assume "list_all is_solid s"
  then show ?thesis
    using False by (intro trim_solid_both) (auto simp: list_all_iff)
qed

lemma trim_end_keeps_head: "is_solid c \<Longrightarrow> \<exists>t. trim_end (c # s) = c # t"
proof (induction "c # s" arbitrary: s rule: trim_end.induct)
  case (1 s)
  show ?case
  proof (cases "ws_len_end (c # s) = 0")
    case True
    then show ?thesis by (simp add: trim_end.simps)
  next
    case False
    have "ws_len_end (c # s) < length (c # s)"
    proof (rule ccontr)
      assume "\<not> ws_len_end (c # s) < length (c # s)"
      then have "ws_len_end (c # s) = length (c # s)"
        using ws_len_end_le [of "c # s"] by simp
      then have "ws_len (c # s) \<noteq> 0"
        by (auto simp: ws_len_end_def split: if_splits)
      then show False using ws_len_solid [OF 1(2)] by simp
    qed
    then obtain t where "take (length (c # s) - ws_len_end (c # s)) (c # s) = c # t"
      by (cases "length (c # s) - ws_len_end (c # s)") auto
    then show ?thesis
      using 1(1) [OF False] 1(2) False by (subst trim_end.simps) simp
  qed
qed

text \<open>Trimming leaves no white space at either end, so it is idempotent.\<close>

lemma ws_len_trim_start [simp]: "ws_len (trim_start s) = 0"
proof (induction s rule: trim_start.induct)
  case (1 s)
  then show ?case by (subst trim_start.simps) auto
qed

lemma ws_len_end_trim_end [simp]: "ws_len_end (trim_end s) = 0"
proof (induction s rule: trim_end.induct)
  case (1 s)
  then show ?case by (subst trim_end.simps) auto
qed

lemma trim_end_take: "\<exists>n. trim_end s = take n s"
proof (induction s rule: trim_end.induct)
  case (1 s)
  show ?case
  proof (cases "ws_len_end s = 0")
    case True
    then show ?thesis by (intro exI [of _ "length s"]) (simp add: trim_end.simps)
  next
    case False
    then obtain n where "trim_end (take (length s - ws_len_end s) s) = take n (take (length s - ws_len_end s) s)"
      using 1 by blast
    then show ?thesis using False by (subst trim_end.simps) (auto simp: take_take)
  qed
qed

lemma ws_len_take: "ws_len s = 0 \<Longrightarrow> ws_len (take n s) = 0"
  by (auto simp: ws_len_def take_Cons' split: list.splits if_splits)

lemma trim_trim [simp]: "trim (trim s) = trim s"
proof -
  obtain n where n: "trim s = take n (trim_start s)"
    using trim_end_take by (auto simp: trim_def)
  have "trim_start (trim s) = trim s"
    by (subst trim_start.simps) (simp add: n ws_len_take)
  then show ?thesis
    by (simp add: trim_def [of "trim s"]) (subst trim_end.simps, simp add: trim_def)
qed

lemma not_blank_solid: "is_solid c \<Longrightarrow> \<not> is_blank (c # s)"
  using trim_end_keeps_head [of c s] by (auto simp: is_blank_def trim_def)

section \<open>Splitting\<close>

fun split_once :: "char \<Rightarrow> string \<Rightarrow> (string \<times> string) option" where
  "split_once c [] = None"
| "split_once c (x # s) =
     (if x = c then Some ([], s) else map_option (\<lambda>(a, b). (x # a, b)) (split_once c s))"

fun split_on :: "char \<Rightarrow> string \<Rightarrow> string list" where
  "split_on c [] = [[]]"
| "split_on c (x # s) =
     (if x = c then [] # split_on c s
      else (case split_on c s of [] \<Rightarrow> [[x]] | p # ps \<Rightarrow> (x # p) # ps))"

definition strip_prefix :: "string \<Rightarrow> string \<Rightarrow> string option" where
  "strip_prefix p s = (if take (length p) s = p then Some (drop (length p) s) else None)"

definition strip_suffix :: "string \<Rightarrow> string \<Rightarrow> string option" where
  "strip_suffix p s = map_option rev (strip_prefix (rev p) (rev s))"

definition starts_with :: "string \<Rightarrow> string \<Rightarrow> bool" where
  "starts_with p s \<longleftrightarrow> take (length p) s = p"

definition ends_with :: "string \<Rightarrow> string \<Rightarrow> bool" where
  "ends_with p s \<longleftrightarrow> starts_with (rev p) (rev s)"

lemma split_once_None [simp]: "split_once c s = None \<longleftrightarrow> c \<notin> set s"
  by (induction s) auto

lemma split_once_absent [simp]: "c \<notin> set s \<Longrightarrow> split_once c s = None"
  by simp

lemma split_once_Some: "split_once c s = Some (a, b) \<longleftrightarrow> s = a @ c # b \<and> c \<notin> set a"
proof (induction s arbitrary: a)
  case (Cons x s)
  then show ?case by (cases a) auto
qed simp

lemma split_once_append [simp]: "c \<notin> set a \<Longrightarrow> split_once c (a @ c # b) = Some (a, b)"
  by (simp add: split_once_Some)

lemma strip_prefix_Some [simp]: "strip_prefix p s = Some t \<longleftrightarrow> s = p @ t"
  by (auto simp: strip_prefix_def) (metis append_take_drop_id)

lemma strip_prefix_append [simp]: "strip_prefix p (p @ s) = Some s"
  by simp

lemma strip_suffix_Some [simp]: "strip_suffix p s = Some t \<longleftrightarrow> s = t @ p"
  by (auto simp: strip_suffix_def) (metis rev_append rev_rev_ident)+

lemma starts_with_iff: "starts_with p s \<longleftrightarrow> (\<exists>t. s = p @ t)"
  unfolding starts_with_def by (metis append_eq_conv_conj append_take_drop_id)

lemma split_on_not_Nil [simp]: "split_on c s \<noteq> []"
  by (induction s) (auto split: list.splits)

lemma split_on_no_sep: "c \<notin> set s \<Longrightarrow> split_on c s = [s]"
  by (induction s) auto

lemma split_on_append: "c \<notin> set a \<Longrightarrow> split_on c (a @ c # s) = a # split_on c s"
  by (induction a) auto

lemma split_on_sep_free: "p \<in> set (split_on c s) \<Longrightarrow> c \<notin> set p"
  by (induction s arbitrary: p) (auto split: if_splits list.splits)

lemma split_on_set: "x \<in> set s \<Longrightarrow> x = c \<or> (\<exists>p \<in> set (split_on c s). x \<in> set p)"
  by (induction s) (auto split: list.splits)

section \<open>Lines\<close>

text \<open>
  \<open>str::lines\<close>: a line ends at LF, and one CR directly before that LF is dropped; a last line
  without a terminator is kept as it is.
\<close>

abbreviation LF :: char where "LF \<equiv> CHR 0x0A"
abbreviation CR :: char where "CR \<equiv> CHR 0x0D"

definition strip_cr :: "string \<Rightarrow> string" where
  "strip_cr l = (case strip_suffix [CR] l of None \<Rightarrow> l | Some l' \<Rightarrow> l')"

function str_lines :: "string \<Rightarrow> string list" where
  "str_lines s =
     (if s = [] then []
      else case split_once LF s of
          None \<Rightarrow> [s]
        | Some (l, rest) \<Rightarrow> strip_cr l # str_lines rest)"
  by auto
termination
  by (relation "measure length") (auto simp: split_once_Some)

declare str_lines.simps [simp del]

lemma strip_cr_id: "CR \<notin> set l \<Longrightarrow> strip_cr l = l"
  by (auto simp: strip_cr_def split: option.splits)

lemma str_lines_Nil [simp]: "str_lines [] = []"
  by (simp add: str_lines.simps)

lemma str_lines_line:
  "LF \<notin> set l \<Longrightarrow> CR \<notin> set l \<Longrightarrow> str_lines (l @ LF # s) = l # str_lines s"
  by (subst str_lines.simps) (simp add: strip_cr_id)

lemma str_lines_concat:
  "list_all (\<lambda>l. LF \<notin> set l \<and> CR \<notin> set l) ls \<Longrightarrow>
     str_lines (concat (map (\<lambda>l. l @ [LF]) ls)) = ls"
  by (induction ls) (auto simp: str_lines_line)

lemma str_lines_no_lf: "l \<in> set (str_lines s) \<Longrightarrow> LF \<notin> set l"
proof (induction s rule: str_lines.induct)
  case (1 s)
  have cr: "LF \<notin> set (strip_cr a)" if "LF \<notin> set a" for a
    using that by (auto simp: strip_cr_def split: option.splits)
  show ?case
  proof (cases "split_once LF s")
    case None
    then show ?thesis using 1(2) by (simp add: str_lines.simps [of s] split: if_splits)
  next
    case (Some ab)
    obtain a b where ab: "ab = (a, b)" by (cases ab)
    then have s: "s = a @ LF # b" "LF \<notin> set a" using Some by (auto simp: split_once_Some)
    then have "str_lines s = strip_cr a # str_lines b"
      by (subst str_lines.simps) simp
    then have "l = strip_cr a \<or> l \<in> set (str_lines b)"
      using 1(2) by simp
    then show ?thesis using 1(1) [OF _ Some ab [symmetric]] s cr by auto
  qed
qed

section \<open>Decimal integers\<close>

datatype parse_int_error = IntEmpty | InvalidDigit | PosOverflow

definition digit_val :: "char \<Rightarrow> nat" where
  "digit_val c = byte c - 48"

definition digit_char :: "nat \<Rightarrow> char" where
  "digit_char d = char_of (48 + d)"

text \<open>The digit loop of \<open>uN::from_str_radix(_, 10)\<close>; \<open>bound\<close> is \<open>uN::MAX\<close>.\<close>

fun parse_digits :: "nat \<Rightarrow> nat \<Rightarrow> string \<Rightarrow> parse_int_error + nat" where
  "parse_digits bound acc [] = Inr acc"
| "parse_digits bound acc (c # cs) =
     (if \<not> is_digit c then Inl InvalidDigit
      else if bound < 10 * acc + digit_val c then Inl PosOverflow
      else parse_digits bound (10 * acc + digit_val c) cs)"

fun parse_uint :: "nat \<Rightarrow> string \<Rightarrow> parse_int_error + nat" where
  "parse_uint bound [] = Inl IntEmpty"
| "parse_uint bound (c # cs) =
     (if cs = [] \<and> (c = CHR ''+'' \<or> c = CHR ''-'') then Inl InvalidDigit
      else if c = CHR ''+'' then parse_digits bound 0 cs
      else parse_digits bound 0 (c # cs))"

definition u64_max :: nat where
  "u64_max = 2 ^ 64 - 1"

definition parse_u64 :: "string \<Rightarrow> parse_int_error + u64" where
  "parse_u64 s = map_res of_nat (parse_uint u64_max s)"

fun nat_dec :: "nat \<Rightarrow> string" where
  "nat_dec n = (if n < 10 then [digit_char n] else nat_dec (n div 10) @ [digit_char (n mod 10)])"

declare nat_dec.simps [simp del]

lemma digit_char_digit [simp]: "d < 10 \<Longrightarrow> is_digit (digit_char d)"
  by (simp add: is_digit_def digit_char_def)

lemma digit_val_char [simp]: "d < 10 \<Longrightarrow> digit_val (digit_char d) = d"
  by (simp add: digit_val_def digit_char_def)

lemma nat_dec_digits: "list_all is_digit (nat_dec n)"
  by (induction n rule: nat_dec.induct) (subst nat_dec.simps, simp)

lemma nat_dec_not_Nil [simp]: "nat_dec n \<noteq> []"
  by (subst nat_dec.simps) simp

lemma parse_digits_append:
  "parse_digits bound acc (s @ t) = bind_res (parse_digits bound acc s) (\<lambda>a. parse_digits bound a t)"
  by (induction s arbitrary: acc) auto

lemma parse_digits_nat_dec: "n \<le> bound \<Longrightarrow> parse_digits bound 0 (nat_dec n) = Inr n"
proof (induction n rule: nat_dec.induct)
  case (1 n)
  show ?case
  proof (cases "n < 10")
    case True
    then show ?thesis using 1(2) by (simp add: nat_dec.simps [of n])
  next
    case False
    then show ?thesis
      using 1 by (subst nat_dec.simps) (simp add: parse_digits_append)
  qed
qed

lemma parse_uint_nat_dec: "n \<le> bound \<Longrightarrow> parse_uint bound (nat_dec n) = Inr n"
proof -
  assume n: "n \<le> bound"
  obtain c cs where c: "nat_dec n = c # cs" by (cases "nat_dec n") auto
  then have "is_digit c" using nat_dec_digits [of n] by simp
  then have "c \<noteq> CHR ''+''" "c \<noteq> CHR ''-''" by (auto simp: is_digit_def byte_def)
  then show ?thesis using parse_digits_nat_dec [OF n] c by simp
qed

lemma parse_u64_nat_dec [simp]: "parse_u64 (nat_dec (unat w)) = Inr w"
proof -
  have "unat w \<le> u64_max" using unat_u64_bound [of w] by (simp add: u64_max_def)
  then show ?thesis by (simp add: parse_u64_def parse_uint_nat_dec)
qed

section \<open>Trimming by pattern, joining and debug printing\<close>

definition trim_start_matches :: "char \<Rightarrow> string \<Rightarrow> string" where
  "trim_start_matches c s = dropWhile (\<lambda>x. x = c) s"

definition trim_end_matches :: "char \<Rightarrow> string \<Rightarrow> string" where
  "trim_end_matches c s = rev (dropWhile (\<lambda>x. x = c) (rev s))"

definition trim_matches :: "char \<Rightarrow> string \<Rightarrow> string" where
  "trim_matches c s = trim_end_matches c (trim_start_matches c s)"

lemma trim_end_matches_id: "s = [] \<or> last s \<noteq> c \<Longrightarrow> trim_end_matches c s = s"
  by (cases "rev s") (auto simp: trim_end_matches_def)

lemma trim_start_matches_id: "s = [] \<or> hd s \<noteq> c \<Longrightarrow> trim_start_matches c s = s"
  by (cases s) (auto simp: trim_start_matches_def)

definition hex_char :: "nat \<Rightarrow> char" where
  "hex_char d = (if d < 10 then char_of (48 + d) else char_of (87 + d))"

text \<open>
  \<open>{:?}\<close> of a string: quotes, backslashes, NUL, tab, CR and LF have their short escapes, other
  ASCII control characters are written \<open>\u{..}\<close>. Bytes of multi-byte characters are copied.
\<close>

definition debug_char :: "char \<Rightarrow> string" where
  "debug_char c =
     (if c = CHR 0x22 then [CHR 0x5C, CHR 0x22]
      else if c = CHR 0x5C then [CHR 0x5C, CHR 0x5C]
      else if byte c = 0 then [CHR 0x5C, CHR ''0'']
      else if byte c = 9 then [CHR 0x5C, CHR ''t'']
      else if byte c = 10 then [CHR 0x5C, CHR ''n'']
      else if byte c = 13 then [CHR 0x5C, CHR ''r'']
      else if is_ascii_control c then
        [CHR 0x5C, CHR ''u'', CHR 0x7B]
        @ (if byte c < 16 then [hex_char (byte c)] else [hex_char (byte c div 16), hex_char (byte c mod 16)])
        @ [CHR 0x7D]
      else [c])"

definition debug_str :: "string \<Rightarrow> string" where
  "debug_str s = [CHR 0x22] @ concat (map debug_char s) @ [CHR 0x22]"

section \<open>Character predicates over whole strings\<close>

fun any_suffix :: "(string \<Rightarrow> bool) \<Rightarrow> string \<Rightarrow> bool" where
  "any_suffix P [] = False"
| "any_suffix P (c # s) = (P (c # s) \<or> any_suffix P s)"

text \<open>\<open>chars().any(char::is_whitespace)\<close>: the lead bytes of the encodings never occur inside a
  character, so looking at every suffix is looking at every character.\<close>

definition has_whitespace :: "string \<Rightarrow> bool" where
  "has_whitespace s = any_suffix (\<lambda>t. ws_len t \<noteq> 0) s"

text \<open>\<open>chars().any(char::is_control)\<close>: the category Cc, that is C0, DEL and U+0080 to U+009F.\<close>

definition has_control :: "string \<Rightarrow> bool" where
  "has_control s = any_suffix (\<lambda>t. case t of
       a # b # _ \<Rightarrow> is_ascii_control a \<or> byte a = 194 \<and> 128 \<le> byte b \<and> byte b \<le> 159
     | [a] \<Rightarrow> is_ascii_control a
     | [] \<Rightarrow> False) s"

definition char_count :: "string \<Rightarrow> nat" where
  "char_count s = length (filter (\<lambda>c. \<not> is_continuation c) s)"

text \<open>\<open>s.split_once(pat)\<close> and \<open>s.find(pat)\<close> for a pattern string.\<close>

fun split_once_str :: "string \<Rightarrow> string \<Rightarrow> (string \<times> string) option" where
  "split_once_str p [] = (if p = [] then Some ([], []) else None)"
| "split_once_str p (c # s) =
     (if starts_with p (c # s) then Some ([], drop (length p) (c # s))
      else map_option (\<lambda>(a, b). (c # a, b)) (split_once_str p s))"

lemma split_once_str_Some: "split_once_str p s = Some (a, b) \<Longrightarrow> s = a @ p @ b"
proof (induction s arbitrary: a)
  case (Cons c s)
  then show ?case
    by (auto simp: starts_with_iff split: if_splits)
qed (auto split: if_splits)

fun join_on :: "char \<Rightarrow> string list \<Rightarrow> string" where
  "join_on c [] = []"
| "join_on c [p] = p"
| "join_on c (p # q # ps) = p @ c # join_on c (q # ps)"

section \<open>UTF-8\<close>

text \<open>\<open>String::from_utf8\<close>: the length of the first encoded character, 0 when there is none.\<close>

definition utf8_first :: "string \<Rightarrow> nat" where
  "utf8_first s = (case s of
       [] \<Rightarrow> 0
     | a # r1 \<Rightarrow> if byte a < 128 then 1 else (case r1 of
       [] \<Rightarrow> 0
     | b # r2 \<Rightarrow> if 194 \<le> byte a \<and> byte a \<le> 223 \<and> is_continuation b then 2 else (case r2 of
       [] \<Rightarrow> 0
     | c # r3 \<Rightarrow>
         if is_continuation c \<and> is_continuation b
            \<and> (byte a = 224 \<and> 160 \<le> byte b \<or> 225 \<le> byte a \<and> byte a \<le> 236
               \<or> byte a = 237 \<and> byte b \<le> 159 \<or> 238 \<le> byte a \<and> byte a \<le> 239) then 3
         else (case r3 of
       [] \<Rightarrow> 0
     | d # _ \<Rightarrow>
         if is_continuation b \<and> is_continuation c \<and> is_continuation d
            \<and> (byte a = 240 \<and> 144 \<le> byte b \<or> 241 \<le> byte a \<and> byte a \<le> 243
               \<or> byte a = 244 \<and> byte b \<le> 143) then 4 else 0))))"

function utf8_ok :: "string \<Rightarrow> bool" where
  "utf8_ok s =
     (if s = [] then True else if utf8_first s = 0 then False else utf8_ok (drop (utf8_first s) s))"
  by pat_completeness auto
termination
  by (relation "measure length") auto

declare utf8_ok.simps [simp del]

lemma utf8_ok_ascii: "list_all is_ascii s \<Longrightarrow> utf8_ok s"
proof (induction s)
  case Nil
  show ?case by (simp add: utf8_ok.simps)
next
  case (Cons c s)
  then have one: "utf8_first (c # s) = 1" by (simp add: utf8_first_def is_ascii_def)
  show ?case using Cons by (subst utf8_ok.simps) (simp add: one)
qed

lemma utf8_ok_ascii_append: "list_all is_ascii a \<Longrightarrow> utf8_ok (a @ s) = utf8_ok s"
proof (induction a)
  case (Cons c a)
  then have one: "utf8_first (c # a @ s) = 1" by (simp add: utf8_first_def is_ascii_def)
  show ?case using Cons by (simp add: utf8_ok.simps [of "c # a @ s"] one)
qed simp

end
