(* ===== verification/Lfs_Object.thy ===== *)
theory Lfs_Object
  imports Rust_Str
begin

text \<open>
  Git LFS object identity and pointer files (\<open>src/lfs.rs\<close>, first half): SHA-256 object
  identifiers, object sizes, and the pointer parser and printer. The pointer invariant
  \<open>pointer_ok\<close> is kept by every operation; the round trip is proved for every version alias
  the parser accepts.
\<close>

section \<open>Constants and errors\<close>

definition LFS_POINTER_VERSION :: string where
  "LFS_POINTER_VERSION = ''https://git-lfs.github.com/spec/v1''"

definition LFS_POINTER_SIZE_CUTOFF :: nat where
  "LFS_POINTER_SIZE_CUTOFF = 1024"

definition LFS_POINTER_VERSION_ALIASES :: "string list" where
  "LFS_POINTER_VERSION_ALIASES =
     [''http://git-media.io/v/2'', ''https://hawser.github.com/spec/v1'', LFS_POINTER_VERSION]"

definition SHA256_PREFIX :: string where
  "SHA256_PREFIX = ''sha256:''"

definition SHA256_HEX_LENGTH :: nat where
  "SHA256_HEX_LENGTH = 64"

definition EMPTY_SHA256_HEX :: string where
  "EMPTY_SHA256_HEX = ''e3b0c44298fc1c149afbf4c8996fb92427ae41e4649b934ca495991b7852b855''"

datatype lfs_object_error =
    EmptyOid
  | UnsupportedOidAlgorithm string
  | InvalidSha256Length nat
  | InvalidSha256Hex nat
  | NonCanonicalSha256Hex nat
  | PointerMissingVersion
  | PointerInvalidVersion string
  | PointerMissingOid
  | PointerOidMissingSha256Prefix string
  | PointerMissingSize
  | PointerInvalidSize string parse_int_error
  | PointerUnexpectedLine string
  | PointerInvalidExtensionKey string
  | PointerInvalidExtensionValue string
  | PointerDuplicateExtensionPriority nat
  | PointerTooLarge nat nat

section \<open>Object identifiers\<close>

datatype lfs_oid = LfsOid (as_hex: string)

definition from_sha256_hex :: "string \<Rightarrow> lfs_object_error + lfs_oid" where
  "from_sha256_hex hex =
     (if length hex \<noteq> SHA256_HEX_LENGTH then Inl (InvalidSha256Length (length hex))
      else case position (\<lambda>b. \<not> is_hexdigit b) hex of
          Some index \<Rightarrow> Inl (InvalidSha256Hex index)
        | None \<Rightarrow> Inr (LfsOid (ascii_lower hex)))"

definition from_canonical_sha256_hex :: "string \<Rightarrow> lfs_object_error + lfs_oid" where
  "from_canonical_sha256_hex hex =
     (if length hex \<noteq> SHA256_HEX_LENGTH then Inl (InvalidSha256Length (length hex))
      else case position (\<lambda>b. \<not> is_lower_hex b) hex of
          Some index \<Rightarrow> Inl (NonCanonicalSha256Hex index)
        | None \<Rightarrow> Inr (LfsOid hex))"

definition lfs_oid_new :: "string \<Rightarrow> lfs_object_error + lfs_oid" where
  "lfs_oid_new input = (let value = trim input in
     if value = [] then Inl EmptyOid
     else case split_once CHR '':'' value of
         Some (algorithm, hex) \<Rightarrow>
           if algorithm = ''sha256'' then from_sha256_hex hex
           else Inl (UnsupportedOidAlgorithm algorithm)
       | None \<Rightarrow> from_sha256_hex value)"

definition as_pointer_oid :: "lfs_oid \<Rightarrow> string" where
  "as_pointer_oid x = SHA256_PREFIX @ as_hex x"

text \<open>The values of \<open>LfsOid\<close> that the constructors can produce.\<close>

definition oid_ok :: "lfs_oid \<Rightarrow> bool" where
  "oid_ok x \<longleftrightarrow> length (as_hex x) = SHA256_HEX_LENGTH \<and> list_all is_lower_hex (as_hex x)"

instantiation lfs_oid :: linorder
begin

definition less_eq_lfs_oid :: "lfs_oid \<Rightarrow> lfs_oid \<Rightarrow> bool" where
  "less_eq_lfs_oid x y \<longleftrightarrow> as_hex x \<le> as_hex y"

definition less_lfs_oid :: "lfs_oid \<Rightarrow> lfs_oid \<Rightarrow> bool" where
  "less_lfs_oid x y \<longleftrightarrow> as_hex x < as_hex y"

instance
  by standard (auto simp: less_eq_lfs_oid_def less_lfs_oid_def lfs_oid.expand)

end

lemma from_sha256_hex_ok: "from_sha256_hex hex = Inr x \<Longrightarrow> oid_ok x"
  by (auto simp: from_sha256_hex_def oid_ok_def lower_hex_ascii_lower split: if_splits option.splits)

lemma from_canonical_ok: "from_canonical_sha256_hex hex = Inr x \<Longrightarrow> oid_ok x \<and> as_hex x = hex"
  by (auto simp: from_canonical_sha256_hex_def oid_ok_def split: if_splits option.splits)

lemma from_canonical_oid [simp]: "oid_ok x \<Longrightarrow> from_canonical_sha256_hex (as_hex x) = Inr x"
  by (cases x) (simp add: from_canonical_sha256_hex_def oid_ok_def split: option.splits)

lemma from_sha256_hex_oid [simp]: "oid_ok x \<Longrightarrow> from_sha256_hex (as_hex x) = Inr x"
  by (cases x)
    (auto simp: from_sha256_hex_def oid_ok_def ascii_lower_lower_hex list_all_iff split: option.splits)

lemma oid_ok_chars:
  assumes "oid_ok x" "c \<in> set (as_hex x)"
  shows "is_lower_hex c"
  using assms by (auto simp: oid_ok_def list_all_iff)

lemma oid_hex_avoids: "oid_ok x \<Longrightarrow> \<not> is_lower_hex c \<Longrightarrow> c \<notin> set (as_hex x)"
  by (auto dest: oid_ok_chars)

lemma oid_ok_not_Nil: "oid_ok x \<Longrightarrow> as_hex x \<noteq> []"
  by (auto simp: oid_ok_def SHA256_HEX_LENGTH_def)

lemma not_hex_colon [simp]: "\<not> is_lower_hex CHR '':''"
  by (simp add: is_lower_hex_def is_digit_def byte_def)

lemma lfs_oid_new_accepts: "lfs_oid_new s = Inr x \<Longrightarrow> oid_ok x"
  by (auto simp: lfs_oid_new_def Let_def from_sha256_hex_ok split: if_splits option.splits prod.splits)

lemma solid_oid: "oid_ok x \<Longrightarrow> list_all is_solid (as_hex x)"
  by (auto simp: oid_ok_def list_all_iff)

lemma split_once_oid [simp]: "oid_ok x \<Longrightarrow> split_once CHR '':'' (as_hex x) = None"
  by (auto dest: oid_ok_chars)

lemma lfs_oid_new_hex: "oid_ok x \<Longrightarrow> lfs_oid_new (as_hex x) = Inr x"
  by (simp add: lfs_oid_new_def trim_solid_all [OF solid_oid] oid_ok_not_Nil)

lemma lfs_oid_new_pointer_oid: "oid_ok x \<Longrightarrow> lfs_oid_new (as_pointer_oid x) = Inr x"
proof -
  assume ok: "oid_ok x"
  have "list_all is_solid (as_pointer_oid x)"
    using solid_oid [OF ok]
    by (simp add: as_pointer_oid_def SHA256_PREFIX_def is_solid_def is_ascii_def ws1_def byte_def)
  then have "trim (as_pointer_oid x) = ''sha256:'' @ as_hex x"
    by (simp add: trim_solid_all) (simp add: as_pointer_oid_def SHA256_PREFIX_def)
  then show ?thesis
    using ok by (simp add: lfs_oid_new_def)
qed

section \<open>Objects\<close>

text \<open>\<open>LfsObjectSize\<close> is a transparent wrapper of \<open>u64\<close>; the derived order of objects is
  lexicographic.\<close>

datatype lfs_object = LfsObject (obj_oid: lfs_oid) (obj_size: u64)

instantiation lfs_object :: linorder
begin

definition less_eq_lfs_object :: "lfs_object \<Rightarrow> lfs_object \<Rightarrow> bool" where
  "less_eq_lfs_object x y \<longleftrightarrow>
     obj_oid x < obj_oid y \<or> obj_oid x = obj_oid y \<and> obj_size x \<le> obj_size y"

definition less_lfs_object :: "lfs_object \<Rightarrow> lfs_object \<Rightarrow> bool" where
  "less_lfs_object x y \<longleftrightarrow>
     obj_oid x < obj_oid y \<or> obj_oid x = obj_oid y \<and> obj_size x < obj_size y"

instance
  by standard (auto simp: less_eq_lfs_object_def less_lfs_object_def lfs_object.expand)

end

section \<open>Pointer extensions\<close>

definition extension_priority :: "string \<Rightarrow> nat option" where
  "extension_priority key = (case strip_prefix ''ext-'' key of
       None \<Rightarrow> None
     | Some extension_name \<Rightarrow> (case split_once CHR ''-'' extension_name of
           None \<Rightarrow> None
         | Some (priority, name) \<Rightarrow>
             let starts_with_name_char =
                   name \<noteq> [] \<and> (is_alnum (hd name) \<or> hd name = CHR ''_'')
             in if length priority \<noteq> 1 \<or> \<not> starts_with_name_char
                   \<or> list_ex is_ascii_ws name then None
                else if byte (hd priority) < 48 then None
                else if byte (hd priority) - 48 \<le> 9 then Some (byte (hd priority) - 48)
                else None))"

definition is_valid_extension_key :: "string \<Rightarrow> bool" where
  "is_valid_extension_key key \<longleftrightarrow> extension_priority key \<noteq> None"

definition validate_extension_key :: "string \<Rightarrow> lfs_object_error + unit" where
  "validate_extension_key key =
     (if is_valid_extension_key key then Inr () else Inl (PointerInvalidExtensionKey key))"

definition insert_extension_record ::
  "(string, string) btree \<Rightarrow> string \<Rightarrow> string \<Rightarrow> lfs_object_error + (string, string) btree" where
  "insert_extension_record extensions key value =
     bind_res (ok_or (PointerInvalidExtensionKey key) (extension_priority key)) (\<lambda>priority.
       if list_ex (\<lambda>e. fst e \<noteq> key \<and> extension_priority (fst e) = Some priority) extensions
       then Inl (PointerDuplicateExtensionPriority priority)
       else Inr (bt_insert key value extensions))"

definition normalize_extension_value :: "string \<Rightarrow> string \<Rightarrow> lfs_object_error + string" where
  "normalize_extension_value key value =
     (if CR \<in> set value \<or> LF \<in> set value then Inl (PointerInvalidExtensionValue key)
      else case strip_prefix SHA256_PREFIX value of
          None \<Rightarrow> Inl (PointerInvalidExtensionValue key)
        | Some oid_hex \<Rightarrow>
            map_err (\<lambda>_. PointerInvalidExtensionValue key)
              (map_res as_pointer_oid (from_canonical_sha256_hex oid_hex)))"

definition extensions_ok :: "(string, string) btree \<Rightarrow> bool" where
  "extensions_ok es \<longleftrightarrow> bt_ok es
     \<and> (\<forall>(k, v) \<in> set es. is_valid_extension_key k \<and> (\<exists>x. oid_ok x \<and> v = as_pointer_oid x))
     \<and> inj_on extension_priority (fst ` set es)"

lemma extension_priority_bound: "extension_priority k = Some p \<Longrightarrow> p \<le> 9"
  by (auto simp: extension_priority_def Let_def split: option.splits prod.splits if_splits)

lemma extension_key_shape:
  assumes "is_valid_extension_key k"
  obtains d name where "k = ''ext-'' @ d # CHR ''-'' # name" "is_digit d"
    "name \<noteq> []" "\<not> list_ex is_ascii_ws name"
proof -
  from assms obtain q name where kq: "k = ''ext-'' @ q @ CHR ''-'' # name" "length q = 1"
    "name \<noteq> []" "\<not> list_ex is_ascii_ws name" "is_digit (hd q)"
    by (auto simp: is_valid_extension_key_def extension_priority_def Let_def split_once_Some
        is_digit_def split: option.splits prod.splits if_splits)
  then obtain d where "q = [d]" by (cases q) auto
  with kq that show ?thesis by simp
qed

lemma extension_key_chars:
  "is_valid_extension_key k \<Longrightarrow> CHR '' '' \<notin> set k \<and> LF \<notin> set k \<and> CR \<notin> set k"
  by (elim extension_key_shape)
    (auto simp: is_digit_def byte_def list_ex_iff is_ascii_ws_def)

lemma extension_key_before: "is_valid_extension_key k \<Longrightarrow> k < ''oid'' \<and> k < ''size''"
  by (elim extension_key_shape) simp

lemma extension_key_head: "is_valid_extension_key k \<Longrightarrow> \<exists>t. k = CHR ''e'' # t"
  by (elim extension_key_shape) simp

lemma normalize_extension_value_ok:
  "normalize_extension_value k v = Inr w \<Longrightarrow> \<exists>x. oid_ok x \<and> w = as_pointer_oid x \<and> w = v"
  by (auto simp: normalize_extension_value_def as_pointer_oid_def dest: from_canonical_ok
      split: if_splits option.splits)

lemma pointer_oid_chars:
  "oid_ok x \<Longrightarrow> CHR '' '' \<notin> set (as_pointer_oid x) \<and> LF \<notin> set (as_pointer_oid x)
     \<and> CR \<notin> set (as_pointer_oid x)"
  by (simp add: as_pointer_oid_def SHA256_PREFIX_def oid_hex_avoids is_lower_hex_def is_digit_def
      byte_def)

lemma normalize_extension_value_id:
  "oid_ok x \<Longrightarrow> normalize_extension_value k (as_pointer_oid x) = Inr (as_pointer_oid x)"
  using pointer_oid_chars [of x]
  by (auto simp: normalize_extension_value_def split: option.splits)
    (auto simp: as_pointer_oid_def strip_prefix_def)

lemma insert_extension_record_Inr:
  "insert_extension_record es k v = Inr es' \<longleftrightarrow>
     is_valid_extension_key k \<and> es' = bt_insert k v es
     \<and> (\<forall>k' \<in> fst ` set es. extension_priority k' = extension_priority k \<longrightarrow> k' = k)"
  by (cases "extension_priority k")
    (auto simp: insert_extension_record_def is_valid_extension_key_def list_ex_iff)

lemma insert_extension_record_ok:
  assumes "extensions_ok es" "insert_extension_record es k v = Inr es'" "oid_ok x"
    "v = as_pointer_oid x"
  shows "extensions_ok es'"
proof -
  have es': "es' = bt_insert k v es" and k: "is_valid_extension_key k"
    and pr: "\<forall>k' \<in> fst ` set es. extension_priority k' = extension_priority k \<longrightarrow> k' = k"
    using assms(2) by (auto simp: insert_extension_record_Inr)
  have "inj_on extension_priority (insert k (fst ` set es))"
    using assms(1) pr unfolding extensions_ok_def inj_on_def by (metis insert_iff)
  moreover have "\<forall>(k', v') \<in> set es'. is_valid_extension_key k' \<and> (\<exists>x. oid_ok x \<and> v' = as_pointer_oid x)"
    using assms k set_bt_insert_subset [of k v es] by (fastforce simp: extensions_ok_def es')
  ultimately show ?thesis
    using assms(1) by (auto simp: extensions_ok_def es')
qed

section \<open>Pointer files\<close>

record lfs_pointer =
  ptr_version :: string
  ptr_extensions :: "(string, string) btree"
  ptr_object :: lfs_object

definition lfs_pointer_new :: "lfs_object \<Rightarrow> lfs_pointer" where
  "lfs_pointer_new object =
     \<lparr>ptr_version = LFS_POINTER_VERSION, ptr_extensions = [], ptr_object = object\<rparr>"

definition pointer_is_empty :: "lfs_pointer \<Rightarrow> bool" where
  "pointer_is_empty p \<longleftrightarrow> obj_size (ptr_object p) = 0"

definition insert_extension ::
  "string \<Rightarrow> string \<Rightarrow> lfs_pointer \<Rightarrow> lfs_object_error + lfs_pointer" where
  "insert_extension key value p =
     bind_res (validate_extension_key key) (\<lambda>_.
     bind_res (normalize_extension_value key value) (\<lambda>value'.
     map_res (\<lambda>es. p\<lparr>ptr_extensions := es\<rparr>)
       (insert_extension_record (ptr_extensions p) key value')))"

definition parse_pointer_oid :: "string \<Rightarrow> lfs_object_error + lfs_oid" where
  "parse_pointer_oid value =
     bind_res (ok_or (PointerOidMissingSha256Prefix value) (strip_prefix SHA256_PREFIX value))
       from_canonical_sha256_hex"

text \<open>The body of the line loop: its state is the previous key, the extensions read so far,
  the object identifier and the size.\<close>

record pointer_state =
  ps_previous :: "string option"
  ps_extensions :: "(string, string) btree"
  ps_oid :: "lfs_oid option"
  ps_size :: "u64 option"

definition pointer_state_init :: pointer_state where
  "pointer_state_init =
     \<lparr>ps_previous = None, ps_extensions = [], ps_oid = None, ps_size = None\<rparr>"

definition parse_pointer_line :: "pointer_state \<Rightarrow> string \<Rightarrow> lfs_object_error + pointer_state" where
  "parse_pointer_line st line =
     (case split_once CHR '' '' line of
        None \<Rightarrow> Inl (PointerUnexpectedLine line)
      | Some (key, value) \<Rightarrow>
          if (case ps_previous st of Some previous \<Rightarrow> key \<le> previous | None \<Rightarrow> False)
          then Inl (PointerUnexpectedLine line)
          else let st' = st\<lparr>ps_previous := Some key\<rparr> in
            if key = ''oid'' then
              map_res (\<lambda>x. st'\<lparr>ps_oid := Some x\<rparr>) (parse_pointer_oid value)
            else if key = ''size'' then
              map_res (\<lambda>n. st'\<lparr>ps_size := Some n\<rparr>)
                (map_err (PointerInvalidSize value) (parse_u64 value))
            else if is_valid_extension_key key then
              bind_res (normalize_extension_value key value) (\<lambda>value'.
                map_res (\<lambda>es. st'\<lparr>ps_extensions := es\<rparr>)
                  (insert_extension_record (ps_extensions st') key value'))
            else Inl (PointerUnexpectedLine line))"

fun parse_pointer_lines :: "pointer_state \<Rightarrow> string list \<Rightarrow> lfs_object_error + pointer_state" where
  "parse_pointer_lines st [] = Inr st"
| "parse_pointer_lines st (line # lines) =
     bind_res (parse_pointer_line st line) (\<lambda>st'. parse_pointer_lines st' lines)"

definition lfs_pointer_parse :: "string \<Rightarrow> lfs_object_error + lfs_pointer" where
  "lfs_pointer_parse contents =
     (if LFS_POINTER_SIZE_CUTOFF \<le> length contents
      then Inl (PointerTooLarge (length contents) LFS_POINTER_SIZE_CUTOFF)
      else if contents = [] then
        Inr (lfs_pointer_new (LfsObject (LfsOid EMPTY_SHA256_HEX) 0))
      else case filter (\<lambda>line. \<not> is_blank line) (str_lines contents) of
          [] \<Rightarrow> Inl PointerMissingVersion
        | version_line # lines \<Rightarrow>
            bind_res (ok_or (PointerUnexpectedLine version_line)
                        (strip_prefix ''version '' version_line)) (\<lambda>version.
              if version \<notin> set LFS_POINTER_VERSION_ALIASES
              then Inl (PointerInvalidVersion version)
              else bind_res (parse_pointer_lines pointer_state_init lines) (\<lambda>st.
                bind_res (ok_or PointerMissingOid (ps_oid st)) (\<lambda>x.
                bind_res (ok_or PointerMissingSize (ps_size st)) (\<lambda>n.
                  Inr \<lparr>ptr_version = LFS_POINTER_VERSION, ptr_extensions = ps_extensions st,
                       ptr_object = LfsObject x n\<rparr>)))))"

definition pointer_line :: "string \<times> string \<Rightarrow> string" where
  "pointer_line e = fst e @ '' '' @ snd e"

definition pointer_fields :: "lfs_pointer \<Rightarrow> (string, string) btree" where
  "pointer_fields p =
     bt_insert ''size'' (nat_dec (unat (obj_size (ptr_object p))))
       (bt_insert ''oid'' (as_pointer_oid (obj_oid (ptr_object p))) (ptr_extensions p))"

definition to_pointer_file :: "lfs_pointer \<Rightarrow> string" where
  "to_pointer_file p =
     (if pointer_is_empty p then []
      else ''version '' @ ptr_version p @ [LF]
           @ concat (map (\<lambda>e. pointer_line e @ [LF]) (pointer_fields p)))"

section \<open>The pointer invariant\<close>

definition pointer_ok :: "lfs_pointer \<Rightarrow> bool" where
  "pointer_ok p \<longleftrightarrow> ptr_version p = LFS_POINTER_VERSION \<and> extensions_ok (ptr_extensions p)
     \<and> oid_ok (obj_oid (ptr_object p))"

definition pointer_state_ok :: "pointer_state \<Rightarrow> bool" where
  "pointer_state_ok st \<longleftrightarrow> extensions_ok (ps_extensions st)
     \<and> (\<forall>x. ps_oid st = Some x \<longrightarrow> oid_ok x)"

lemma extensions_ok_Nil [simp]: "extensions_ok []"
  by (simp add: extensions_ok_def)

lemma lfs_pointer_new_ok: "oid_ok (obj_oid obj) \<Longrightarrow> pointer_ok (lfs_pointer_new obj)"
  by (simp add: pointer_ok_def lfs_pointer_new_def)

lemma insert_extension_ok:
  "pointer_ok p \<Longrightarrow> insert_extension k v p = Inr p' \<Longrightarrow> pointer_ok p'"
  by (auto simp: insert_extension_def pointer_ok_def
      dest!: normalize_extension_value_ok intro: insert_extension_record_ok)

lemma parse_pointer_line_ok:
  assumes "pointer_state_ok st" "parse_pointer_line st l = Inr st'"
  shows "pointer_state_ok st'"
  using assms
  by (auto simp: parse_pointer_line_def pointer_state_ok_def Let_def parse_pointer_oid_def
      split: option.splits prod.splits if_splits
      dest: from_canonical_ok dest!: normalize_extension_value_ok intro: insert_extension_record_ok)

lemma parse_pointer_lines_ok:
  "pointer_state_ok st \<Longrightarrow> parse_pointer_lines st ls = Inr st' \<Longrightarrow> pointer_state_ok st'"
  by (induction st ls rule: parse_pointer_lines.induct) (auto intro: parse_pointer_line_ok)

lemma empty_oid_ok: "oid_ok (LfsOid EMPTY_SHA256_HEX)"
  by (simp add: oid_ok_def EMPTY_SHA256_HEX_def SHA256_HEX_LENGTH_def is_lower_hex_def
      is_digit_def byte_def)

lemma parse_pointer_ok: "lfs_pointer_parse c = Inr p \<Longrightarrow> pointer_ok p"
proof -
  assume p: "lfs_pointer_parse c = Inr p"
  show ?thesis
  proof (cases "c = []")
    case True
    with p show ?thesis
      by (auto simp: lfs_pointer_parse_def LFS_POINTER_SIZE_CUTOFF_def empty_oid_ok
          intro!: lfs_pointer_new_ok)
  next
    case False
    have "pointer_state_ok pointer_state_init"
      by (simp add: pointer_state_ok_def pointer_state_init_def)
    with p False show ?thesis
      by (auto simp: lfs_pointer_parse_def pointer_ok_def split: if_splits list.splits
          dest!: parse_pointer_lines_ok [rotated]) (auto simp: pointer_state_ok_def)
  qed
qed

section \<open>Rendering and parsing back\<close>

text \<open>The canonical rendering with a version URL of choice; \<open>to_pointer_file\<close> uses the current
  one, older clients wrote the other aliases.\<close>

definition render_pointer :: "string \<Rightarrow> lfs_pointer \<Rightarrow> string" where
  "render_pointer version p =
     concat (map (\<lambda>l. l @ [LF]) ((''version '' @ version) # map pointer_line (pointer_fields p)))"

lemma to_pointer_file_render:
  "\<not> pointer_is_empty p \<Longrightarrow> to_pointer_file p = render_pointer (ptr_version p) p"
  by (simp add: to_pointer_file_def render_pointer_def comp_def)

lemma extension_keys_before:
  "extensions_ok es \<Longrightarrow> \<forall>k \<in> fst ` set es. k < ''oid'' \<and> k < ''size''"
  by (auto simp: extensions_ok_def dest!: extension_key_before)

lemma pointer_fields_eq:
  assumes "extensions_ok (ptr_extensions p)"
  shows "pointer_fields p = ptr_extensions p
     @ [(''oid'', as_pointer_oid (obj_oid (ptr_object p))),
        (''size'', nat_dec (unat (obj_size (ptr_object p))))]"
proof -
  have "\<forall>k' \<in> fst ` set (ptr_extensions p @ [(''oid'', o')]). k' < ''size''" for o' :: string
    using extension_keys_before [OF assms] by auto
  then show ?thesis
    using extension_keys_before [OF assms] by (simp add: pointer_fields_def bt_insert_append)
qed

lemma split_once_pointer_line:
  "CHR '' '' \<notin> set k \<Longrightarrow> split_once CHR '' '' (pointer_line (k, v)) = Some (k, v)"
  by (simp add: pointer_line_def)

lemma parse_pointer_extension_line:
  assumes ok: "extensions_ok (es @ [(k, v)])"
    and prev: "\<forall>q. prev = Some q \<longrightarrow> q < k"
  shows "parse_pointer_line \<lparr>ps_previous = prev, ps_extensions = es, ps_oid = x, ps_size = n\<rparr>
           (pointer_line (k, v))
         = Inr \<lparr>ps_previous = Some k, ps_extensions = es @ [(k, v)], ps_oid = x, ps_size = n\<rparr>"
proof -
  have k: "is_valid_extension_key k" and v: "\<exists>x. oid_ok x \<and> v = as_pointer_oid x"
    and before: "\<forall>k' \<in> fst ` set es. k' < k"
    using ok by (auto simp: extensions_ok_def bt_ok_def sorted_wrt_append)
  have inj: "inj_on extension_priority (insert k (fst ` set es))"
    using ok by (simp add: extensions_ok_def)
  have "insert_extension_record es k v = Inr (es @ [(k, v)])"
    using k before inj by (auto simp: insert_extension_record_Inr bt_insert_append inj_on_def)
  moreover have "normalize_extension_value k v = Inr v"
    using v by (auto simp: normalize_extension_value_id)
  ultimately show ?thesis
    using k prev extension_key_chars [OF k] extension_key_before [OF k]
    by (auto simp: parse_pointer_line_def split_once_pointer_line leD Let_def split: option.splits)
qed

lemma parse_pointer_extension_lines:
  assumes "extensions_ok (es @ fs)"
    and "\<forall>q. prev = Some q \<longrightarrow> is_valid_extension_key q \<and> (\<forall>k \<in> fst ` set fs. q < k)"
  shows "\<exists>prev'. (\<forall>q. prev' = Some q \<longrightarrow> is_valid_extension_key q) \<and>
     parse_pointer_lines \<lparr>ps_previous = prev, ps_extensions = es, ps_oid = None, ps_size = None\<rparr>
       (map pointer_line fs @ rest)
     = parse_pointer_lines \<lparr>ps_previous = prev', ps_extensions = es @ fs, ps_oid = None, ps_size = None\<rparr>
         rest"
  using assms
proof (induction fs arbitrary: es prev)
  case Nil
  then show ?case by auto
next
  case (Cons e fs)
  obtain k v where e: "e = (k, v)" by (cases e)
  have ok: "extensions_ok (es @ [(k, v)])"
    using Cons.prems(1) unfolding e
    by (auto simp: extensions_ok_def bt_ok_def sorted_wrt_append intro: inj_on_subset)
  moreover have "is_valid_extension_key k" "\<forall>k' \<in> fst ` set fs. k < k'"
    using Cons.prems(1) unfolding e
    by (auto simp: extensions_ok_def bt_ok_def sorted_wrt_append)
  ultimately show ?case
    using Cons.IH [of "es @ [(k, v)]" "Some k"] Cons.prems e
    by (simp add: parse_pointer_extension_line)
qed

lemma alias_chars:
  "v \<in> set LFS_POINTER_VERSION_ALIASES \<Longrightarrow> LF \<notin> set v \<and> CR \<notin> set v"
  by (auto simp: LFS_POINTER_VERSION_ALIASES_def LFS_POINTER_VERSION_def)

lemma digits_no_eol:
  assumes "list_all is_digit s"
  shows "LF \<notin> set s \<and> CR \<notin> set s"
proof -
  have "\<forall>c \<in> set s. 48 \<le> byte c"
    using assms by (auto simp: list_all_iff is_digit_def)
  then show ?thesis by (auto simp: byte_def)
qed

lemma pointer_lines_no_eol:
  assumes "extensions_ok (ptr_extensions p)" "oid_ok (obj_oid (ptr_object p))"
  shows "list_all (\<lambda>l. LF \<notin> set l \<and> CR \<notin> set l) (map pointer_line (pointer_fields p))"
  using assms pointer_oid_chars digits_no_eol [OF nat_dec_digits] extension_key_chars
  by (auto simp: pointer_fields_eq pointer_line_def list_all_iff extensions_ok_def)

lemma pointer_lines_solid:
  assumes "extensions_ok (ptr_extensions p)"
  shows "\<forall>l \<in> set (map pointer_line (pointer_fields p)). \<not> is_blank l"
proof -
  have "\<not> is_blank (pointer_line e)" if "\<exists>c t. fst e = c # t \<and> is_solid c" for e
    using that by (auto simp: pointer_line_def not_blank_solid)
  moreover have "\<exists>c t. fst e = c # t \<and> is_solid c" if e: "e \<in> set (ptr_extensions p)" for e
  proof -
    have "is_valid_extension_key (fst e)"
      using assms e by (auto simp: extensions_ok_def)
    then obtain t where "fst e = CHR ''e'' # t" using extension_key_head by blast
    then show ?thesis by (simp add: is_solid_def is_ascii_def ws1_def byte_def)
  qed
  moreover have "is_solid CHR ''o''" "is_solid CHR ''s''"
    by (simp_all add: is_solid_def is_ascii_def ws1_def byte_def)
  ultimately show ?thesis
    using assms by (fastforce simp: pointer_fields_eq)
qed

lemma parse_pointer_fields:
  assumes "extensions_ok (ptr_extensions p)" "oid_ok (obj_oid (ptr_object p))"
  shows "\<exists>st. parse_pointer_lines pointer_state_init (map pointer_line (pointer_fields p)) = Inr st
     \<and> ps_extensions st = ptr_extensions p \<and> ps_oid st = Some (obj_oid (ptr_object p))
     \<and> ps_size st = Some (obj_size (ptr_object p))"
proof -
  let ?o = "as_pointer_oid (obj_oid (ptr_object p))"
  let ?n = "nat_dec (unat (obj_size (ptr_object p)))"
  let ?tail = "[pointer_line (''oid'', ?o), pointer_line (''size'', ?n)]"
  obtain prev where prev: "\<forall>q. prev = Some q \<longrightarrow> is_valid_extension_key q"
    and lines: "parse_pointer_lines pointer_state_init (map pointer_line (ptr_extensions p) @ ?tail)
      = parse_pointer_lines
          \<lparr>ps_previous = prev, ps_extensions = ptr_extensions p, ps_oid = None, ps_size = None\<rparr> ?tail"
    using parse_pointer_extension_lines [of "[]" "ptr_extensions p" None ?tail] assms(1)
    by (auto simp: pointer_state_init_def)
  have "parse_pointer_oid ?o = Inr (obj_oid (ptr_object p))"
    using assms(2) by (simp add: parse_pointer_oid_def as_pointer_oid_def)
  moreover have "(case prev of None \<Rightarrow> False | Some q \<Rightarrow> ''oid'' \<le> q) = False"
  proof -
    have "\<not> ''oid'' \<le> q" if "prev = Some q" for q
      using that prev extension_key_before [of q] leD by blast
    then show ?thesis by (auto split: option.splits)
  qed
  ultimately show ?thesis
    using lines assms(1)
    by (simp add: pointer_fields_eq parse_pointer_line_def split_once_pointer_line Let_def)
qed

lemma parse_render_pointer:
  assumes "pointer_ok p" "v \<in> set LFS_POINTER_VERSION_ALIASES"
    "length (render_pointer v p) < LFS_POINTER_SIZE_CUTOFF"
  shows "lfs_pointer_parse (render_pointer v p) = Inr p"
proof -
  let ?ls = "map pointer_line (pointer_fields p)"
  have ok: "extensions_ok (ptr_extensions p)" "oid_ok (obj_oid (ptr_object p))"
    "ptr_version p = LFS_POINTER_VERSION"
    using assms(1) by (auto simp: pointer_ok_def)
  have "\<not> is_blank (''version '' @ v)"
    using not_blank_solid [of "CHR ''v''"] by (simp add: is_solid_def is_ascii_def ws1_def byte_def)
  moreover have "str_lines (render_pointer v p) = (''version '' @ v) # ?ls"
    unfolding render_pointer_def
    using pointer_lines_no_eol [OF ok(1,2)] alias_chars [OF assms(2)]
    by (intro str_lines_concat) simp
  ultimately have "filter (\<lambda>l. \<not> is_blank l) (str_lines (render_pointer v p)) = (''version '' @ v) # ?ls"
    using pointer_lines_solid [OF ok(1)] by (simp del: append.simps)
  moreover have "strip_prefix ''version '' (''version '' @ v) = Some v"
    by (rule strip_prefix_append)
  moreover have "render_pointer v p \<noteq> []"
    by (simp add: render_pointer_def)
  ultimately show ?thesis
    using parse_pointer_fields [OF ok(1,2)] assms ok(3)
    by (auto simp: lfs_pointer_parse_def simp del: append.simps split: list.splits)
qed

lemma version_is_alias: "LFS_POINTER_VERSION \<in> set LFS_POINTER_VERSION_ALIASES"
  by (simp add: LFS_POINTER_VERSION_ALIASES_def)

section \<open>Properties\<close>

text \<open>
  C31: rendering a well-formed pointer of a non-empty object and parsing the file back gives the
  same pointer, extensions included, as long as the file stays under the size cutoff.
\<close>

theorem pointer_file_round_trip:
  assumes "pointer_ok p" "\<not> pointer_is_empty p"
    "length (to_pointer_file p) < LFS_POINTER_SIZE_CUTOFF"
  shows "lfs_pointer_parse (to_pointer_file p) = Inr p"
  using assms parse_render_pointer [OF assms(1) version_is_alias]
  by (simp add: to_pointer_file_render pointer_ok_def)

definition sample_pointer :: lfs_pointer where
  "sample_pointer = \<lparr>ptr_version = LFS_POINTER_VERSION,
     ptr_extensions = [(''ext-0-foo'', ''sha256:'' @ replicate 64 CHR ''b'')],
     ptr_object = LfsObject (LfsOid (replicate 64 CHR ''a'')) 42\<rparr>"

lemma sample_pointer_ok: "pointer_ok sample_pointer"
proof -
  have "oid_ok (LfsOid (replicate 64 CHR ''b''))"
    by (simp add: oid_ok_def SHA256_HEX_LENGTH_def list_all_iff is_lower_hex_def byte_def)
  moreover have "as_pointer_oid (LfsOid (replicate 64 CHR ''b'')) = ''sha256:'' @ replicate 64 CHR ''b''"
    by (simp add: as_pointer_oid_def SHA256_PREFIX_def)
  ultimately have "\<exists>x. oid_ok x \<and> ''sha256:'' @ replicate 64 CHR ''b'' = as_pointer_oid x"
    by metis
  moreover have "is_valid_extension_key ''ext-0-foo''"
    by (simp add: is_valid_extension_key_def extension_priority_def strip_prefix_def is_alnum_def
        is_lower_def is_ascii_ws_def byte_def)
  moreover have "oid_ok (LfsOid (replicate 64 CHR ''a''))"
    by (simp add: oid_ok_def SHA256_HEX_LENGTH_def list_all_iff is_lower_hex_def byte_def)
  ultimately show ?thesis
    by (simp add: pointer_ok_def sample_pointer_def extensions_ok_def bt_ok_def)
qed

theorem pointer_file_round_trip_witness:
  "lfs_pointer_parse (to_pointer_file sample_pointer) = Inr sample_pointer"
proof (rule pointer_file_round_trip [OF sample_pointer_ok])
  show "\<not> pointer_is_empty sample_pointer"
    by (simp add: pointer_is_empty_def sample_pointer_def)
  show "length (to_pointer_file sample_pointer) < LFS_POINTER_SIZE_CUTOFF"
    by (simp add: to_pointer_file_def pointer_is_empty_def sample_pointer_def LFS_POINTER_SIZE_CUTOFF_def
        pointer_fields_def pointer_line_def as_pointer_oid_def SHA256_PREFIX_def LFS_POINTER_VERSION_def
        nat_dec.simps)
qed

text \<open>
  whatever the parser accepts is a well-formed pointer read from a file below the cutoff, and
  it is canonical: an empty object renders as the empty file, and any other one is parsed back
  from its rendering whenever that rendering itself stays below the cutoff.
\<close>

theorem parse_pointer_canonical:
  assumes "lfs_pointer_parse c = Inr p"
  shows "pointer_ok p \<and> length c < LFS_POINTER_SIZE_CUTOFF
    \<and> (obj_size (ptr_object p) = 0 \<longrightarrow> to_pointer_file p = [])
    \<and> (obj_size (ptr_object p) \<noteq> 0 \<and> length (to_pointer_file p) < LFS_POINTER_SIZE_CUTOFF \<longrightarrow>
         lfs_pointer_parse (to_pointer_file p) = Inr p)"
proof (intro conjI impI)
  show ok: "pointer_ok p" by (rule parse_pointer_ok [OF assms])
  show "length c < LFS_POINTER_SIZE_CUTOFF"
    using assms by (auto simp: lfs_pointer_parse_def split: if_splits)
  show "to_pointer_file p = []" if "obj_size (ptr_object p) = 0"
    using that by (simp add: to_pointer_file_def pointer_is_empty_def)
  show "lfs_pointer_parse (to_pointer_file p) = Inr p"
    if "obj_size (ptr_object p) \<noteq> 0 \<and> length (to_pointer_file p) < LFS_POINTER_SIZE_CUTOFF"
    using that parse_render_pointer [OF ok version_is_alias] ok
    by (auto simp: to_pointer_file_render pointer_is_empty_def pointer_ok_def)
qed

theorem parse_pointer_canonical_witness:
  "pointer_ok (lfs_pointer_new (LfsObject (LfsOid EMPTY_SHA256_HEX) 0))"
  using parse_pointer_canonical [of "[]"]
  by (simp add: lfs_pointer_parse_def LFS_POINTER_SIZE_CUTOFF_def)

text \<open>A long extension name makes the two renderings straddle the cutoff.\<close>

definition long_pointer :: lfs_pointer where
  "long_pointer = \<lparr>ptr_version = LFS_POINTER_VERSION,
     ptr_extensions = [(''ext-0-'' @ replicate 820 CHR ''a'', as_pointer_oid (LfsOid (replicate 64 CHR ''b'')))],
     ptr_object = LfsObject (LfsOid (replicate 64 CHR ''a'')) 1\<rparr>"

lemma long_pointer_ok: "pointer_ok long_pointer"
proof -
  have "oid_ok (LfsOid (replicate 64 CHR ''b''))" "oid_ok (LfsOid (replicate 64 CHR ''a''))"
    by (simp_all add: oid_ok_def SHA256_HEX_LENGTH_def list_all_iff is_lower_hex_def byte_def)
  moreover have "is_valid_extension_key (''ext-0-'' @ replicate 820 CHR ''a'')"
    by (simp add: is_valid_extension_key_def extension_priority_def strip_prefix_def is_alnum_def
        is_lower_def list_ex_iff is_ascii_ws_def byte_def)
  ultimately show ?thesis
    by (auto simp: pointer_ok_def long_pointer_def extensions_ok_def bt_ok_def)
qed

lemma long_pointer_length: "length (render_pointer v long_pointer) = length v + 991"
  by (simp add: render_pointer_def pointer_fields_eq long_pointer_ok [unfolded pointer_ok_def]
      pointer_line_def) (simp add: long_pointer_def pointer_line_def as_pointer_oid_def SHA256_PREFIX_def nat_dec.simps)

text \<open>
  a file with the historical version URL may be accepted although the same pointer, rendered
  with the current and longer URL, reaches the cutoff and is then refused by the parser.
\<close>

theorem pointer_alias_outgrows_cutoff:
  "\<exists>c p n. lfs_pointer_parse c = Inr p \<and> lfs_pointer_parse (to_pointer_file p) = Inl (PointerTooLarge n 1024)"
proof (intro exI conjI)
  show "lfs_pointer_parse (render_pointer ''http://git-media.io/v/2'' long_pointer) = Inr long_pointer"
    by (rule parse_render_pointer [OF long_pointer_ok])
      (simp_all add: long_pointer_length LFS_POINTER_SIZE_CUTOFF_def LFS_POINTER_VERSION_ALIASES_def)
  have "\<not> pointer_is_empty long_pointer" "length (ptr_version long_pointer) = 34"
    by (simp_all add: pointer_is_empty_def long_pointer_def LFS_POINTER_VERSION_def)
  then have "length (to_pointer_file long_pointer) = 1025"
    by (simp add: to_pointer_file_render long_pointer_length)
  then show "lfs_pointer_parse (to_pointer_file long_pointer) = Inl (PointerTooLarge 1025 1024)"
    by (simp add: lfs_pointer_parse_def LFS_POINTER_SIZE_CUTOFF_def)
qed

lemma extensions_count: "extensions_ok es \<Longrightarrow> length es \<le> 10"
proof -
  assume ok: "extensions_ok es"
  have "extension_priority ` fst ` set es \<subseteq> Some ` {..<10}"
    using ok extension_priority_bound
    by (fastforce simp: extensions_ok_def is_valid_extension_key_def less_Suc_eq_le)
  then have "card (extension_priority ` fst ` set es) \<le> 10"
    using card_mono [of "Some ` {..<10::nat}"] by (simp add: card_image)
  moreover have "card (extension_priority ` fst ` set es) = length es"
    using ok bt_ok_distinct [of es] distinct_card [of "map fst es"]
    by (simp add: extensions_ok_def card_image)
  ultimately show ?thesis by simp
qed

text \<open>
  inserting an extension succeeds exactly for a valid key whose priority no other key holds
  and a canonical \<open>sha256:\<close> value; the pointer then maps that key to that value, keeps every
  other record, stays well-formed, and never holds more than ten extensions.
\<close>

theorem insert_extension_spec:
  assumes "pointer_ok p"
  shows "insert_extension k v p = Inr p' \<longleftrightarrow>
    is_valid_extension_key k \<and> (\<exists>x. oid_ok x \<and> v = as_pointer_oid x)
    \<and> (\<forall>k' \<in> fst ` set (ptr_extensions p). extension_priority k' = extension_priority k \<longrightarrow> k' = k)
    \<and> p' = p\<lparr>ptr_extensions := bt_insert k v (ptr_extensions p)\<rparr>
    \<and> map_of (ptr_extensions p') = (map_of (ptr_extensions p))(k \<mapsto> v)
    \<and> pointer_ok p' \<and> length (ptr_extensions p') \<le> 10"
    (is "?L \<longleftrightarrow> ?R")
proof
  assume L: ?L
  then have ok: "pointer_ok p'" using insert_extension_ok [OF assms] by simp
  from L obtain w es where w: "is_valid_extension_key k" "normalize_extension_value k v = Inr w"
    "insert_extension_record (ptr_extensions p) k w = Inr es" "p' = p\<lparr>ptr_extensions := es\<rparr>"
    by (auto simp: insert_extension_def validate_extension_key_def split: if_splits)
  moreover obtain x where "oid_ok x" "w = as_pointer_oid x" "w = v"
    using normalize_extension_value_ok [OF w(2)] by blast
  moreover have "bt_ok (ptr_extensions p)"
    using assms by (simp add: pointer_ok_def extensions_ok_def)
  ultimately show ?R
    using ok extensions_count [of "ptr_extensions p'"]
    by (auto simp: insert_extension_record_Inr pointer_ok_def)
next
  assume ?R
  then show ?L
    by (auto simp: insert_extension_def validate_extension_key_def normalize_extension_value_id
        insert_extension_record_Inr)
qed

theorem insert_extension_spec_witness:
  "insert_extension ''ext-1-x'' ''bad'' sample_pointer \<noteq> Inr sample_pointer"
proof -
  have "\<nexists>x. oid_ok x \<and> ''bad'' = as_pointer_oid x"
    by (simp add: as_pointer_oid_def SHA256_PREFIX_def)
  then show ?thesis
    using insert_extension_spec [OF sample_pointer_ok, of "''ext-1-x''" "''bad''" sample_pointer] by blast
qed

text \<open>
  C25: the identifier constructor accepts exactly the 64-digit hexadecimal strings, in either
  case, with or without the \<open>sha256:\<close> prefix and surrounded by white space, and returns the
  lower-case digest.
\<close>

theorem lfs_oid_new_spec:
  "lfs_oid_new s = Inr x \<longleftrightarrow>
     (\<exists>h. (trim s = h \<or> trim s = ''sha256:'' @ h) \<and> length h = 64
        \<and> list_all is_hexdigit h \<and> x = LfsOid (ascii_lower h))"
    (is "?L \<longleftrightarrow> ?R")
proof
  have hex: "length h = 64 \<and> list_all is_hexdigit h \<and> x = LfsOid (ascii_lower h)"
    if "from_sha256_hex h = Inr x" for h
    using that by (auto simp: from_sha256_hex_def SHA256_HEX_LENGTH_def list_all_iff
        split: if_splits option.splits)
  assume L: ?L
  show ?R
  proof (cases "split_once CHR '':'' (trim s)")
    case None
    then have "from_sha256_hex (trim s) = Inr x"
      using L by (auto simp: lfs_oid_new_def Let_def split: if_splits)
    then show ?thesis using hex by blast
  next
    case (Some ah)
    then obtain h where "from_sha256_hex h = Inr x" "trim s = ''sha256'' @ CHR '':'' # h"
      using L by (auto simp: lfs_oid_new_def Let_def split_once_Some split: if_splits prod.splits)
    then show ?thesis using hex [of h] by (intro exI [of _ h]) simp
  qed
next
  have no_colon: "CHR '':'' \<notin> set h" if "list_all is_hexdigit h" for h
    using that by (auto simp: list_all_iff is_hexdigit_def is_lower_hex_def is_digit_def byte_def)
  have hex: "from_sha256_hex h = Inr (LfsOid (ascii_lower h))"
    if "list_all is_hexdigit h" "length h = 64" for h
    using that by (auto simp: from_sha256_hex_def SHA256_HEX_LENGTH_def list_all_iff split: option.splits)
  assume ?R
  then obtain h where h: "trim s = h \<or> trim s = ''sha256'' @ CHR '':'' # h" "length h = 64"
    "list_all is_hexdigit h" "x = LfsOid (ascii_lower h)" by auto
  moreover have "h \<noteq> []" using h(2) by auto
  moreover have "split_once CHR '':'' (''sha256'' @ CHR '':'' # h) = Some (''sha256'', h)"
    by (rule split_once_append) simp
  ultimately show ?L
    using no_colon [OF h(3)] hex [OF h(3,2)] by (auto simp: lfs_oid_new_def)
qed

end
