(* ===== verification/Errors.thy ===== *)
theory Errors
  imports Lfs_Object
begin

text \<open>
  The error types of \<open>src/error.rs\<close> that the modelled components return, with the display
  text of pointer errors. Constructors carry the fields of the source; an underlying library
  error is its rendered text.
\<close>

datatype error_category =
    CatCli | CatServer | CatRepositoryProvider | CatStorage | CatMigration

definition show_error_category :: "error_category \<Rightarrow> string" where
  "show_error_category c = (case c of
       CatCli \<Rightarrow> ''cli''
     | CatServer \<Rightarrow> ''server''
     | CatRepositoryProvider \<Rightarrow> ''repository_provider''
     | CatStorage \<Rightarrow> ''storage''
     | CatMigration \<Rightarrow> ''migration'')"

datatype repository_permission = PermRead | PermWrite | PermAdmin

datatype repository_provider_error =
    RpAuthenticationRequired string
  | RpPermissionDenied string string string repository_permission
  | RpRepositoryNotFound string string string
  | RpSsoRequired string string
  | RpUnsupported string
  | RpUpstream string "nat option" string

datatype storage_error =
    StRepositoryNamespaceMismatch string
  | StCredentialLoad string string string
  | StAuthenticationRequired string
  | StPermissionDenied string string
  | StObjectNotFound string string u64
  | StConflict string string
  | StQuotaExceeded string string
  | StIntegrityMismatch string u64 string u64
  | StStagedFileRead string string string
  | StRetryable string string
  | StUnsupported string
  | StUpstream string "nat option" string

datatype server_error =
    SvDefaultConfigHomeUnavailable string
  | SvConfigInitialize string string
  | SvConfigRead string string
  | SvConfigParse string string
  | SvInvalidConfiguration string
  | SvMetadataDirectoryCreate string string
  | SvMetadataOpen string string
  | SvMetadataConfigure string string
  | SvMetadataSchemaTooNew string nat nat
  | SvMetadataMigration string string
  | SvMetadataOperation string string
  | SvMetadataConnectionPoisoned string
  | SvMetadataTaskJoin string string
  | SvServerLock string string
  | SvServerAlreadyRunning string
  | SvBind string u16 string
  | SvLocalAddress string
  | SvServe string
  | SvRouteNotConfigured string
  | SvInvalidRequest string
  | SvRateLimited u64
  | SvInternal string
  | SvUnauthorized string
  | SvRepositoryProvider repository_provider_error
  | SvStorage storage_error

type_synonym 'a server_result = "server_error + 'a"
type_synonym 'a storage_result = "storage_error + 'a"
type_synonym 'a repository_result = "repository_provider_error + 'a"

definition show_parse_int_error :: "parse_int_error \<Rightarrow> string" where
  "show_parse_int_error e = (case e of
       IntEmpty \<Rightarrow> ''cannot parse integer from empty string''
     | InvalidDigit \<Rightarrow> ''invalid digit found in string''
     | PosOverflow \<Rightarrow> ''number too large to fit in target type'')"

definition show_lfs_object_error :: "lfs_object_error \<Rightarrow> string" where
  "show_lfs_object_error e = (case e of
       EmptyOid \<Rightarrow> ''LFS object identifier is empty''
     | UnsupportedOidAlgorithm a \<Rightarrow> ''unsupported LFS object hash algorithm: '' @ a
     | InvalidSha256Length n \<Rightarrow>
         ''invalid SHA-256 object identifier length: expected 64 hex characters, got '' @ nat_dec n
     | InvalidSha256Hex i \<Rightarrow>
         ''invalid SHA-256 object identifier: non-hex character at byte '' @ nat_dec i
     | NonCanonicalSha256Hex i \<Rightarrow>
         ''non-canonical SHA-256 object identifier: expected lowercase hex at byte '' @ nat_dec i
     | PointerMissingVersion \<Rightarrow> ''LFS pointer is missing the version line''
     | PointerInvalidVersion v \<Rightarrow> ''unsupported LFS pointer version: '' @ v
     | PointerMissingOid \<Rightarrow> ''LFS pointer is missing the oid line''
     | PointerOidMissingSha256Prefix x \<Rightarrow> ''LFS pointer oid is missing the sha256: prefix: '' @ x
     | PointerMissingSize \<Rightarrow> ''LFS pointer is missing the size line''
     | PointerInvalidSize v src \<Rightarrow>
         ''invalid LFS pointer size '' @ debug_str v @ '': '' @ show_parse_int_error src
     | PointerUnexpectedLine l \<Rightarrow> ''unexpected LFS pointer line: '' @ l
     | PointerInvalidExtensionKey k \<Rightarrow> ''invalid LFS pointer extension key: '' @ k
     | PointerInvalidExtensionValue k \<Rightarrow>
         ''invalid LFS pointer extension value for '' @ k @ '': expected sha256 object id''
     | PointerDuplicateExtensionPriority p \<Rightarrow>
         ''duplicate LFS pointer extension priority: '' @ nat_dec p
     | PointerTooLarge n m \<Rightarrow>
         ''Git LFS pointer is too large: '' @ nat_dec n @ '' bytes must be smaller than ''
         @ nat_dec m @ '' bytes'')"

end
