(* ===== verification/Url_Lib.thy ===== *)
theory Url_Lib
  imports Rust_Str
begin

text \<open>
  The interface of the \<open>url\<close> crate, as a record of functions that the definitions take as an
  argument, and the shared transport policy of \<open>src/http_transport.rs\<close> over it.
\<close>

datatype url_host = HostDomain string | HostIpv4 "32 word" | HostIpv6 "128 word"

record 'u url_lib =
  url_parse :: "string \<Rightarrow> 'u option"
  url_scheme :: "'u \<Rightarrow> string"
  url_host :: "'u \<Rightarrow> url_host option"
  url_host_str :: "'u \<Rightarrow> string option"
  url_port_or_known_default :: "'u \<Rightarrow> u16 option"
  url_username :: "'u \<Rightarrow> string"
  url_password :: "'u \<Rightarrow> string option"
  url_query :: "'u \<Rightarrow> string option"
  url_fragment :: "'u \<Rightarrow> string option"
  url_path :: "'u \<Rightarrow> string"
  url_set_path :: "'u \<Rightarrow> string \<Rightarrow> 'u"
  url_clear_query :: "'u \<Rightarrow> 'u"
  url_clear_fragment :: "'u \<Rightarrow> 'u"
  url_is_base :: "'u \<Rightarrow> bool"
  url_path_segments :: "'u \<Rightarrow> string list option"
  url_pop :: "'u \<Rightarrow> 'u"
  url_pop_if_empty :: "'u \<Rightarrow> 'u"
  url_push :: "'u \<Rightarrow> string \<Rightarrow> 'u"
  url_append_pair :: "'u \<Rightarrow> string \<Rightarrow> string \<Rightarrow> 'u"
  url_print :: "'u \<Rightarrow> string"

text \<open>\<open>Ipv4Addr::is_loopback\<close> (127.0.0.0/8) and \<open>Ipv6Addr::is_loopback\<close> (::1).\<close>

definition ipv4_is_loopback :: "32 word \<Rightarrow> bool" where
  "ipv4_is_loopback a \<longleftrightarrow> drop_bit 24 a = 127"

definition ipv6_is_loopback :: "128 word \<Rightarrow> bool" where
  "ipv6_is_loopback a \<longleftrightarrow> a = 1"

datatype http_url_validation_error =
    UrlBlank
  | UrlUnsafeCharacters
  | UrlTrailingSlash
  | UrlDotSegments
  | UrlInvalid
  | UrlCredentials
  | UrlQueryOrFragment
  | UrlInsecureTransport

definition show_http_url_validation_error :: "http_url_validation_error \<Rightarrow> string" where
  "show_http_url_validation_error e = (case e of
       UrlBlank \<Rightarrow> ''must not be blank''
     | UrlUnsafeCharacters \<Rightarrow> ''must not include whitespace, control characters, or backslashes''
     | UrlTrailingSlash \<Rightarrow> ''must not end with a trailing slash''
     | UrlDotSegments \<Rightarrow> ''path must not include dot segments''
     | UrlInvalid \<Rightarrow> ''must be a valid http or https URL''
     | UrlCredentials \<Rightarrow> ''must not include credentials''
     | UrlQueryOrFragment \<Rightarrow> ''must not include a query string or fragment''
     | UrlInsecureTransport \<Rightarrow> ''must use HTTPS unless it targets an exact loopback IP'')"

definition has_exact_loopback_host :: "'u url_lib \<Rightarrow> 'u \<Rightarrow> bool" where
  "has_exact_loopback_host L url = (case url_host L url of
       Some (HostIpv4 address) \<Rightarrow> ipv4_is_loopback address
     | Some (HostIpv6 address) \<Rightarrow> ipv6_is_loopback address
     | Some (HostDomain _) \<Rightarrow> False
     | None \<Rightarrow> False)"

definition uses_protected_http_transport :: "'u url_lib \<Rightarrow> 'u \<Rightarrow> bool" where
  "uses_protected_http_transport L url \<longleftrightarrow>
     url_scheme L url = ''https''
     \<or> url_scheme L url = ''http'' \<and> has_exact_loopback_host L url"

definition is_dot_segment :: "string \<Rightarrow> bool" where
  "is_dot_segment segment \<longleftrightarrow>
     ascii_lower segment \<in> {''.'', ''..'', ''%2e'', ''.%2e'', ''%2e.'', ''%2e%2e''}"

definition raw_path_has_dot_segments :: "string \<Rightarrow> bool" where
  "raw_path_has_dot_segments value =
     (case split_once_str ''://'' value of
        None \<Rightarrow> False
      | Some (_, after_scheme) \<Rightarrow> (case split_once CHR ''/'' after_scheme of
            None \<Rightarrow> False
          | Some (_, after_slash) \<Rightarrow>
              let path = takeWhile (\<lambda>c. c \<noteq> CHR ''?'' \<and> c \<noteq> CHR ''#'') after_slash
              in list_ex is_dot_segment (split_on CHR ''/'' path)))"

definition validate_http_url ::
  "'u url_lib \<Rightarrow> string \<Rightarrow> bool \<Rightarrow> http_url_validation_error + 'u" where
  "validate_http_url L value allow_insecure_http =
     (if value = [] then Inl UrlBlank
      else if has_whitespace value \<or> has_control value \<or> CHR 0x5C \<in> set value
      then Inl UrlUnsafeCharacters
      else if ends_with ''/'' value then Inl UrlTrailingSlash
      else if raw_path_has_dot_segments value then Inl UrlDotSegments
      else case url_parse L value of
          None \<Rightarrow> Inl UrlInvalid
        | Some parsed \<Rightarrow>
            if url_scheme L parsed \<notin> {''http'', ''https''} \<or> url_host_str L parsed = None
            then Inl UrlInvalid
            else if url_username L parsed \<noteq> [] \<or> url_password L parsed \<noteq> None
            then Inl UrlCredentials
            else if url_query L parsed \<noteq> None \<or> url_fragment L parsed \<noteq> None
            then Inl UrlQueryOrFragment
            else if \<not> allow_insecure_http \<and> \<not> uses_protected_http_transport L parsed
            then Inl UrlInsecureTransport
            else Inr parsed)"

lemma validate_http_url_Inr:
  "validate_http_url L v allow = Inr u \<longleftrightarrow>
     v \<noteq> [] \<and> \<not> has_whitespace v \<and> \<not> has_control v \<and> CHR 0x5C \<notin> set v \<and> \<not> ends_with ''/'' v
     \<and> \<not> raw_path_has_dot_segments v \<and> url_parse L v = Some u
     \<and> url_scheme L u \<in> {''http'', ''https''} \<and> url_host_str L u \<noteq> None
     \<and> url_username L u = [] \<and> url_password L u = None \<and> url_query L u = None
     \<and> url_fragment L u = None \<and> (allow \<or> uses_protected_http_transport L u)"
  by (auto simp: validate_http_url_def split: option.splits)

section \<open>Bounded response bodies\<close>

text \<open>
  \<open>read_bounded_response_body\<close>: the chunks of a body as reading them yields, each one data or the
  failure of the connection; reading stops at the limit.
\<close>

fun read_bounded_response_body :: "nat \<Rightarrow> string \<Rightarrow> ('e + string) list \<Rightarrow> 'e + string" where
  "read_bounded_response_body limit body [] = Inr body"
| "read_bounded_response_body limit body (next_chunk # rest) =
     (if limit \<le> length body then Inr body
      else case next_chunk of
          Inl failure \<Rightarrow> Inl failure
        | Inr chunk \<Rightarrow>
            let remaining = limit - length body in
            if remaining < length chunk then Inr (body @ take remaining chunk)
            else read_bounded_response_body limit (body @ chunk) rest)"

lemma read_bounded_response_body_le:
  "read_bounded_response_body limit body chunks = Inr r \<Longrightarrow> length body \<le> limit \<Longrightarrow> length r \<le> limit"
  by (induction limit body chunks rule: read_bounded_response_body.induct)
     (auto simp: Let_def split: if_splits sum.splits)

end
