(* ===== verification/Config_Resolve.thy ===== *)
theory Config_Resolve
  imports Errors Url_Lib
begin

text \<open>
  Syntactic validation of configuration values (\<open>server_config/validation.rs\<close>), environment
  interpolation and path resolution (\<open>server_config/resolution.rs\<close>). The environment is the
  function \<open>env\<close>; paths are Unix paths.
\<close>

type_synonym env = "string \<Rightarrow> string option"

section \<open>Validation\<close>

definition invalid_config_error :: "string \<Rightarrow> string \<Rightarrow> server_error" where
  "invalid_config_error path message = SvInvalidConfiguration (path @ '' '' @ message)"

definition invalid_config :: "string \<Rightarrow> string \<Rightarrow> 'a server_result" where
  "invalid_config path message = Inl (invalid_config_error path message)"

definition validate_no_outer_whitespace :: "string \<Rightarrow> string \<Rightarrow> unit server_result" where
  "validate_no_outer_whitespace value path =
     (if value \<noteq> trim value
      then invalid_config path ''must not have leading or trailing whitespace''
      else Inr ())"

definition validate_key :: "string \<Rightarrow> string \<Rightarrow> unit server_result" where
  "validate_key key path =
     (if is_blank key then invalid_config path ''must not be empty''
      else if key \<noteq> trim key
      then invalid_config path ''must not have leading or trailing whitespace''
      else if \<not> (key \<noteq> [] \<and> is_alnum (hd key))
           \<or> \<not> list_all (\<lambda>b. is_alnum b \<or> b = CHR ''_'' \<or> b = CHR ''-'') key
      then invalid_config path
        ''must contain only ASCII letters, digits, '_' or '-' and start with a letter or digit''
      else Inr ())"

definition host_label_ok :: "string \<Rightarrow> bool" where
  "host_label_ok label \<longleftrightarrow> label \<noteq> [] \<and> \<not> starts_with ''-'' label \<and> \<not> ends_with ''-'' label
     \<and> list_all (\<lambda>b. is_alnum b \<or> b = CHR ''-'') label"

definition validate_route_host :: "string \<Rightarrow> string \<Rightarrow> unit server_result" where
  "validate_route_host host path =
     bind_res (validate_no_outer_whitespace host path) (\<lambda>_.
       if list_ex (\<lambda>label. \<not> host_label_ok label) (split_on CHR ''.'' host)
       then invalid_config path ''must be a route-safe host made of ASCII domain labels''
       else Inr ())"

definition component_char :: "char \<Rightarrow> bool" where
  "component_char b \<longleftrightarrow> is_alnum b \<or> b = CHR ''-'' \<or> b = CHR ''_'' \<or> b = CHR ''.''"

definition validate_route_component :: "string \<Rightarrow> string \<Rightarrow> unit server_result" where
  "validate_route_component component path =
     bind_res (validate_no_outer_whitespace component path) (\<lambda>_.
       if component = ''.'' \<or> component = ''..'' \<or> \<not> list_all component_char component
       then invalid_config path
         ''must be a route-safe repository component without separators, percent escapes, or traversal segments''
       else Inr ())"

definition validate_config_http_url ::
  "'u url_lib \<Rightarrow> string \<Rightarrow> string \<Rightarrow> bool \<Rightarrow> unit server_result" where
  "validate_config_http_url L url path allow_insecure_http =
     map_err (\<lambda>err. invalid_config_error path
         (show_http_url_validation_error err
          @ (if err = UrlInsecureTransport
             then ''; set server.allow_insecure_http to true only for a trusted development network''
             else '''')))
       (map_res (\<lambda>_. ()) (validate_http_url L url allow_insecure_http))"

section \<open>Environment references\<close>

definition env_name_char :: "char \<Rightarrow> bool" where
  "env_name_char b \<longleftrightarrow> is_alnum b \<or> b = CHR ''_''"

text \<open>The loop of \<open>interpolate_env\<close>; the first argument is the text not yet scanned.\<close>

function interpolate_loop :: "env \<Rightarrow> string \<Rightarrow> string \<Rightarrow> string \<Rightarrow> string server_result" where
  "interpolate_loop env path output rest =
     (case split_once_str [CHR ''$'', CHR 0x7B] rest of
        None \<Rightarrow> Inr (output @ rest)
      | Some (before, after_start) \<Rightarrow>
          (case split_once CHR 0x7D after_start of
             None \<Rightarrow> invalid_config path ''contains an unterminated environment reference''
           | Some (name, rest') \<Rightarrow>
               if name = [] \<or> \<not> list_all env_name_char name
               then invalid_config path
                 (''contains invalid environment variable reference '' @ debug_str name)
               else (case env name of
                   None \<Rightarrow> invalid_config path (''references unset environment variable '' @ name)
                 | Some resolved \<Rightarrow>
                     interpolate_loop env path (output @ before @ resolved) rest')))"
  by auto
termination
  by (relation "measure (\<lambda>(_, _, _, rest). length rest)")
    (auto simp: split_once_Some dest!: split_once_str_Some)

declare interpolate_loop.simps [simp del]

definition interpolate_env :: "string \<Rightarrow> string \<Rightarrow> env \<Rightarrow> string server_result" where
  "interpolate_env value path env = interpolate_loop env path [] value"

definition resolve_required :: "string option \<Rightarrow> string \<Rightarrow> env \<Rightarrow> string server_result" where
  "resolve_required value path env =
     (case value of
        None \<Rightarrow> invalid_config path ''is required''
      | Some v \<Rightarrow>
          if is_blank v then invalid_config path ''is required''
          else bind_res (interpolate_env v path env) (\<lambda>w.
            if is_blank w then invalid_config path ''is required'' else Inr w))"

definition resolve_optional :: "string option \<Rightarrow> string \<Rightarrow> env \<Rightarrow> string option server_result" where
  "resolve_optional value path env =
     (case value of
        None \<Rightarrow> Inr None
      | Some v \<Rightarrow>
          if is_blank v then Inr None
          else bind_res (interpolate_env v path env) (\<lambda>w.
            if is_blank w then Inr None else Inr (Some w)))"

section \<open>Paths\<close>

definition path_is_absolute :: "string \<Rightarrow> bool" where
  "path_is_absolute p \<longleftrightarrow> starts_with ''/'' p"

text \<open>\<open>Path::join\<close>: an absolute argument replaces the base.\<close>

definition path_join :: "string \<Rightarrow> string \<Rightarrow> string" where
  "path_join base p =
     (if path_is_absolute p then p
      else if base = [] \<or> last base = CHR ''/'' then base @ p
      else base @ ''/'' @ p)"

definition has_trailing_path_separator :: "string \<Rightarrow> bool" where
  "has_trailing_path_separator value \<longleftrightarrow> ends_with ''/'' value \<or> ends_with [CHR 0x5C] value"

definition DEFAULT_METADATA_DIR :: string where
  "DEFAULT_METADATA_DIR = ''.lfscloud''"

definition DEFAULT_METADATA_DB_FILE :: string where
  "DEFAULT_METADATA_DB_FILE = ''metadata.sqlite3''"

definition resolve_metadata_path :: "string option \<Rightarrow> string \<Rightarrow> env \<Rightarrow> string server_result" where
  "resolve_metadata_path value metadata_base_dir env =
     bind_res
       (case value of
          None \<Rightarrow> Inr (path_join DEFAULT_METADATA_DIR DEFAULT_METADATA_DB_FILE)
        | Some v \<Rightarrow>
            if is_blank v then invalid_config ''server.metadata_path'' ''must not be empty''
            else bind_res (interpolate_env v ''server.metadata_path'' env) (\<lambda>w.
              if is_blank w
              then invalid_config ''server.metadata_path'' ''must not resolve to an empty value''
              else if trim w \<noteq> w
              then invalid_config ''server.metadata_path''
                     ''must not include leading or trailing whitespace''
              else if has_trailing_path_separator w
              then invalid_config ''server.metadata_path''
                     ''must include a metadata database file name''
              else Inr w))
       (\<lambda>path.
          if path = [] then invalid_config ''server.metadata_path'' ''must not be empty''
          else if path_is_absolute path \<or> metadata_base_dir = [] then Inr path
          else Inr (path_join metadata_base_dir path))"

text \<open>
  \<open>Path::strip_prefix("~")\<close>: the first component must be \<open>~\<close>; the remaining path starts and ends
  at a component that is not empty and not \<open>.\<close>.
\<close>

definition skip_component :: "string \<Rightarrow> bool" where
  "skip_component c \<longleftrightarrow> c = [] \<or> c = ''.''"

definition strip_tilde :: "string \<Rightarrow> string option" where
  "strip_tilde value = (case split_on CHR ''/'' value of
       [] \<Rightarrow> None
     | c # cs \<Rightarrow>
         if c = ''~''
         then Some (join_on CHR ''/''
                (rev (dropWhile skip_component (rev (dropWhile skip_component cs)))))
         else None)"

definition expand_current_user_tilde :: "string \<Rightarrow> string \<Rightarrow> env \<Rightarrow> string server_result" where
  "expand_current_user_tilde value path env =
     (case strip_tilde value of
        None \<Rightarrow> Inr value
      | Some suffix \<Rightarrow> (case env ''HOME'' of
            None \<Rightarrow> invalid_config path ''uses ~ but HOME is unset or empty''
          | Some home \<Rightarrow>
              if home = [] then invalid_config path ''uses ~ but HOME is unset or empty''
              else Inr (path_join home suffix)))"

definition resolve_config_directory ::
  "string option \<Rightarrow> string \<Rightarrow> env \<Rightarrow> string \<Rightarrow> string server_result" where
  "resolve_config_directory value path env config_base_dir =
     bind_res (resolve_required value path env) (\<lambda>v.
     bind_res (validate_no_outer_whitespace v path) (\<lambda>_.
     bind_res (expand_current_user_tilde v path env) (\<lambda>directory.
       if directory = [] then invalid_config path ''must not be empty''
       else if path_is_absolute directory \<or> config_base_dir = [] then Inr directory
       else Inr (path_join config_base_dir directory))))"

section \<open>Facts\<close>

lemma invalid_config_not_Inr [simp]: "invalid_config p m \<noteq> Inr x" "Inr x \<noteq> invalid_config p m"
  by (simp_all add: invalid_config_def)

lemma validate_no_outer_whitespace_Inr [simp]:
  "validate_no_outer_whitespace v p = Inr u \<longleftrightarrow> trim v = v"
  by (auto simp: validate_no_outer_whitespace_def)

lemma validate_route_component_Inr [simp]:
  "validate_route_component c p = Inr u \<longleftrightarrow>
     trim c = c \<and> c \<noteq> ''.'' \<and> c \<noteq> ''..'' \<and> list_all component_char c"
  by (auto simp: validate_route_component_def)

lemma validate_route_host_Inr [simp]:
  "validate_route_host h p = Inr u \<longleftrightarrow> trim h = h \<and> list_all host_label_ok (split_on CHR ''.'' h)"
  by (auto simp: validate_route_host_def list_ex_iff list_all_iff)

lemma resolve_required_Inr:
  "resolve_required v p env = Inr w \<Longrightarrow> \<not> is_blank w"
  by (auto simp: resolve_required_def split: option.splits if_splits)

lemma interpolate_loop_plain:
  "split_once_str [CHR ''$'', CHR 0x7B] rest = None \<Longrightarrow> interpolate_loop env p out rest = Inr (out @ rest)"
  by (simp add: interpolate_loop.simps)

lemma is_blank_Nil [simp]: "is_blank []"
  by (simp add: is_blank_def trim_def trim_start.simps trim_end.simps ws_len_def ws_len_end_def)

end
