(* ===== verification/Config.thy ===== *)
theory Config
  imports Config_Resolve
begin

text \<open>
  Typed server configuration (\<open>src/server_config/\<close>): repository mappings, provider entries,
  server settings, and the cross-reference validation of \<open>ServerConfig::from_raw\<close>. Raw
  records stand for the values the YAML deserialiser produces.
\<close>

section \<open>Repository mappings\<close>

record repository_mapping =
  rm_id :: string
  rm_repo_provider :: string
  rm_host :: string
  rm_owner :: string
  rm_name :: string
  rm_provider_repository_id :: string
  rm_storage_provider :: string

record raw_repository_mapping =
  raw_id :: "string option"
  raw_repo_provider :: "string option"
  raw_host :: "string option"
  raw_owner :: "string option"
  raw_name :: "string option"
  raw_provider_repository_id :: "string option"
  raw_storage_provider :: "string option"

definition identity_path :: "repository_mapping \<Rightarrow> string" where
  "identity_path r = ''/'' @ rm_host r @ ''/'' @ rm_owner r @ ''/'' @ rm_name r"

definition route_path :: "repository_mapping \<Rightarrow> string" where
  "route_path r = ''/'' @ rm_host r @ ''/'' @ rm_owner r @ ''/'' @ rm_name r @ ''.git/info/lfs''"

definition indexed_path :: "nat \<Rightarrow> string" where
  "indexed_path index = ''repositories['' @ nat_dec index @ '']''"

definition repository_mapping_from_raw ::
  "nat \<Rightarrow> raw_repository_mapping \<Rightarrow> env \<Rightarrow> repository_mapping server_result" where
  "repository_mapping_from_raw index raw env = (let base_path = indexed_path index in
     bind_res (resolve_required (raw_id raw) (base_path @ ''.id'') env) (\<lambda>i.
     bind_res (resolve_required (raw_repo_provider raw) (base_path @ ''.repo_provider'') env) (\<lambda>repo_provider.
     bind_res (resolve_required (raw_host raw) (base_path @ ''.host'') env) (\<lambda>host.
     bind_res (validate_route_host host (base_path @ ''.host'')) (\<lambda>_.
     bind_res (resolve_required (raw_owner raw) (base_path @ ''.owner'') env) (\<lambda>owner.
     bind_res (validate_route_component owner (base_path @ ''.owner'')) (\<lambda>_.
     bind_res (resolve_required (raw_name raw) (base_path @ ''.name'') env) (\<lambda>name.
     bind_res (validate_route_component name (base_path @ ''.name'')) (\<lambda>_.
       if ends_with ''.git'' name
       then invalid_config (base_path @ ''.name'')
              ''must omit the .git suffix because the route adds it''
       else
     bind_res (resolve_required (raw_provider_repository_id raw)
                (base_path @ ''.provider_repository_id'') env) (\<lambda>provider_repository_id.
     bind_res (resolve_required (raw_storage_provider raw) (base_path @ ''.storage_provider'') env) (\<lambda>storage_provider.
       Inr \<lparr>rm_id = i, rm_repo_provider = repo_provider, rm_host = host, rm_owner = owner,
            rm_name = name, rm_provider_repository_id = provider_repository_id,
            rm_storage_provider = storage_provider\<rparr>)))))))))))"

text \<open>What \<open>from_raw\<close> establishes of a mapping: its identity is safe inside a route.\<close>

definition mapping_ok :: "repository_mapping \<Rightarrow> bool" where
  "mapping_ok r \<longleftrightarrow> list_all host_label_ok (split_on CHR ''.'' (rm_host r))
     \<and> list_all component_char (rm_owner r) \<and> list_all component_char (rm_name r)
     \<and> rm_owner r \<noteq> [] \<and> rm_name r \<noteq> [] \<and> \<not> ends_with ''.git'' (rm_name r)"

lemma repository_mapping_from_raw_ok:
  "repository_mapping_from_raw i raw env = Inr r \<Longrightarrow> mapping_ok r"
  by (auto simp: repository_mapping_from_raw_def Let_def mapping_ok_def
      split: if_splits dest!: resolve_required_Inr)

section \<open>Repository providers\<close>

record github_provider_config =
  gh_id :: string
  gh_api_url :: string
  gh_token :: "string option"
  gh_allow_insecure_http :: bool

datatype repository_provider_config = GitHub github_provider_config

record raw_repository_provider_config =
  raw_rp_type :: "string option"
  raw_rp_api_url :: "string option"
  raw_rp_personal_access_token :: "string option"

definition DEFAULT_GITHUB_API_URL :: string where
  "DEFAULT_GITHUB_API_URL = ''https://api.github.com''"

definition github_authentication_from_raw ::
  "string option \<Rightarrow> string \<Rightarrow> env \<Rightarrow> string option server_result" where
  "github_authentication_from_raw personal_access_token base_path env =
     resolve_optional personal_access_token (base_path @ ''.personal_access_token'') env"

definition repository_provider_from_raw ::
  "'u url_lib \<Rightarrow> string \<Rightarrow> raw_repository_provider_config \<Rightarrow> bool \<Rightarrow> env
     \<Rightarrow> repository_provider_config server_result" where
  "repository_provider_from_raw L i raw allow_insecure_http env =
     bind_res (validate_key i (''repository_providers.'' @ i)) (\<lambda>_.
     let base_path = ''repository_providers.'' @ i in
     bind_res (resolve_required (raw_rp_type raw) (base_path @ ''.type'') env) (\<lambda>provider_type.
       if provider_type = ''github'' then
         let api_path = base_path @ ''.api_url'' in
         bind_res (resolve_optional (raw_rp_api_url raw) api_path env) (\<lambda>url.
         let api_url = (case url of Some u \<Rightarrow> u | None \<Rightarrow> DEFAULT_GITHUB_API_URL) in
         bind_res (validate_config_http_url L api_url api_path allow_insecure_http) (\<lambda>_.
         bind_res (github_authentication_from_raw (raw_rp_personal_access_token raw) base_path env) (\<lambda>token.
           Inr (GitHub \<lparr>gh_id = i, gh_api_url = api_url, gh_token = token,
                        gh_allow_insecure_http = allow_insecure_http\<rparr>))))
       else invalid_config (base_path @ ''.type'')
              (''unsupported repository provider type '' @ debug_str provider_type)))"

definition repository_config_id :: "repository_provider_config \<Rightarrow> string" where
  "repository_config_id p = (case p of GitHub g \<Rightarrow> gh_id g)"

definition repository_provider_type :: "repository_provider_config \<Rightarrow> string" where
  "repository_provider_type p = (case p of GitHub g \<Rightarrow> ''github'')"

text \<open>The provider registration of GitHub (\<open>provider_factory.rs\<close>).\<close>

definition github_validate_mapping :: "repository_mapping \<Rightarrow> string \<Rightarrow> unit server_result" where
  "github_validate_mapping r path =
     (case parse_u64 (rm_provider_repository_id r) of
        Inr i \<Rightarrow> if 0 < i then Inr ()
                 else Inl (SvInvalidConfiguration
                        (path @ ''.provider_repository_id must be a positive GitHub numeric repository ID''))
      | Inl _ \<Rightarrow> Inl (SvInvalidConfiguration
                        (path @ ''.provider_repository_id must be a positive GitHub numeric repository ID'')))"

definition validate_mapping ::
  "repository_provider_config \<Rightarrow> repository_mapping \<Rightarrow> string \<Rightarrow> unit server_result" where
  "validate_mapping p r path = (case p of GitHub g \<Rightarrow> github_validate_mapping r path)"

definition route_identity_is_case_insensitive :: "repository_provider_config \<Rightarrow> bool" where
  "route_identity_is_case_insensitive p = (case p of GitHub g \<Rightarrow> True)"

section \<open>Storage providers\<close>

record gcloud_credentials_config =
  gc_config_dir :: string
  gc_executable :: string

record google_drive_storage_config =
  gd_id :: string
  gd_credentials :: gcloud_credentials_config
  gd_root_folder_id :: string
  gd_display_name :: "string option"

datatype storage_provider_config = GoogleDrive google_drive_storage_config

record raw_storage_credentials_config =
  raw_cred_type :: "string option"
  raw_cred_config_dir :: "string option"
  raw_cred_executable :: "string option"

record raw_storage_provider_config =
  raw_sp_type :: "string option"
  raw_sp_credentials :: "raw_storage_credentials_config option"
  raw_sp_root_folder_id :: "string option"
  raw_sp_display_name :: "string option"

definition DEFAULT_GCLOUD_EXECUTABLE :: string where
  "DEFAULT_GCLOUD_EXECUTABLE = ''gcloud''"

definition gcloud_credentials_from_raw ::
  "raw_storage_credentials_config option \<Rightarrow> string \<Rightarrow> env \<Rightarrow> string
     \<Rightarrow> gcloud_credentials_config server_result" where
  "gcloud_credentials_from_raw credentials storage_path env config_base_dir =
     (case credentials of
        None \<Rightarrow> invalid_config (storage_path @ ''.credentials'') ''is required''
      | Some cred \<Rightarrow>
          let credentials_path = storage_path @ ''.credentials'' in
          bind_res (resolve_required (raw_cred_type cred) (credentials_path @ ''.type'') env) (\<lambda>credential_type.
            if credential_type = ''gcloud'' then
              bind_res (resolve_config_directory (raw_cred_config_dir cred)
                          (credentials_path @ ''.config_dir'') env config_base_dir) (\<lambda>config_dir.
              bind_res (resolve_optional (raw_cred_executable cred)
                          (credentials_path @ ''.executable'') env) (\<lambda>executable.
                Inr \<lparr>gc_config_dir = config_dir,
                     gc_executable = (case executable of Some e \<Rightarrow> e
                                      | None \<Rightarrow> DEFAULT_GCLOUD_EXECUTABLE)\<rparr>))
            else invalid_config (credentials_path @ ''.type'')
                   (''unsupported Google Drive credential type '' @ debug_str credential_type)))"

definition storage_provider_from_raw ::
  "string \<Rightarrow> raw_storage_provider_config \<Rightarrow> env \<Rightarrow> string \<Rightarrow> storage_provider_config server_result" where
  "storage_provider_from_raw i raw env config_base_dir =
     bind_res (validate_key i (''storage_providers.'' @ i)) (\<lambda>_.
     let base_path = ''storage_providers.'' @ i in
     bind_res (resolve_required (raw_sp_type raw) (base_path @ ''.type'') env) (\<lambda>provider_type.
       if provider_type = ''google_drive'' then
         bind_res (gcloud_credentials_from_raw (raw_sp_credentials raw) base_path env config_base_dir) (\<lambda>credentials.
         bind_res (resolve_required (raw_sp_root_folder_id raw) (base_path @ ''.root_folder_id'') env) (\<lambda>root_folder_id.
         bind_res (resolve_optional (raw_sp_display_name raw) (base_path @ ''.display_name'') env) (\<lambda>display_name.
           Inr (GoogleDrive \<lparr>gd_id = i, gd_credentials = credentials,
                  gd_root_folder_id = root_folder_id, gd_display_name = display_name\<rparr>))))
       else invalid_config (base_path @ ''.type'')
              (''unsupported storage provider type '' @ debug_str provider_type)))"

definition storage_config_id :: "storage_provider_config \<Rightarrow> string" where
  "storage_config_id p = (case p of GoogleDrive d \<Rightarrow> gd_id d)"

lemma repository_provider_from_raw_id:
  "repository_provider_from_raw L i raw allow env = Inr p \<Longrightarrow> repository_config_id p = i"
  by (auto simp: repository_provider_from_raw_def repository_config_id_def Let_def split: if_splits)

lemma storage_provider_from_raw_id:
  "storage_provider_from_raw i raw env base = Inr p \<Longrightarrow> storage_config_id p = i"
  by (auto simp: storage_provider_from_raw_def storage_config_id_def Let_def split: if_splits)

section \<open>Server settings\<close>

definition DEFAULT_BIND_HOST :: string where
  "DEFAULT_BIND_HOST = ''0.0.0.0''"

definition DEFAULT_BIND_PORT :: u16 where
  "DEFAULT_BIND_PORT = 15370"

record server_settings =
  ss_host :: string
  ss_port :: u16
  ss_public_url :: "string option"
  ss_allow_insecure_http :: bool
  ss_session_encryption_secret :: "string option"
  ss_max_batch_objects :: nat
  ss_max_provider_calls :: nat
  ss_max_concurrent_requests :: nat
  ss_max_concurrent_uploads :: nat
  ss_max_concurrent_uploads_per_user :: nat
  ss_metadata_path :: string

record raw_server_settings =
  raw_ss_host :: "string option"
  raw_ss_port :: u16
  raw_ss_public_url :: "string option"
  raw_ss_allow_insecure_http :: bool
  raw_ss_session_encryption_secret :: "string option"
  raw_ss_max_batch_objects :: nat
  raw_ss_max_provider_calls :: nat
  raw_ss_max_concurrent_requests :: nat
  raw_ss_max_concurrent_uploads :: nat
  raw_ss_max_concurrent_uploads_per_user :: nat
  raw_ss_metadata_path :: "string option"

definition raw_server_settings_default :: raw_server_settings where
  "raw_server_settings_default =
     \<lparr>raw_ss_host = Some DEFAULT_BIND_HOST, raw_ss_port = DEFAULT_BIND_PORT,
      raw_ss_public_url = None, raw_ss_allow_insecure_http = False,
      raw_ss_session_encryption_secret = None, raw_ss_max_batch_objects = 100,
      raw_ss_max_provider_calls = 16, raw_ss_max_concurrent_requests = 64,
      raw_ss_max_concurrent_uploads = 8, raw_ss_max_concurrent_uploads_per_user = 2,
      raw_ss_metadata_path = None\<rparr>"

definition session_encryption_secret_new :: "string \<Rightarrow> string server_result" where
  "session_encryption_secret_new value =
     (if char_count value < 32 \<or> length (trim value) \<noteq> length value \<or> has_control value
      then invalid_config ''server.session_encryption_secret''
             ''must contain at least 32 unpadded, non-control characters''
      else Inr value)"

definition server_settings_from_raw ::
  "'u url_lib \<Rightarrow> raw_server_settings \<Rightarrow> env \<Rightarrow> string \<Rightarrow> server_settings server_result" where
  "server_settings_from_raw L raw env metadata_base_dir =
     bind_res (resolve_required (raw_ss_host raw) ''server.host'' env) (\<lambda>host.
     bind_res (resolve_optional (raw_ss_public_url raw) ''server.public_url'' env) (\<lambda>public_url.
     bind_res (case public_url of None \<Rightarrow> Inr ()
                | Some u \<Rightarrow> validate_config_http_url L u ''server.public_url''
                              (raw_ss_allow_insecure_http raw)) (\<lambda>_.
     bind_res (resolve_metadata_path (raw_ss_metadata_path raw) metadata_base_dir env) (\<lambda>metadata_path.
     bind_res (resolve_optional (raw_ss_session_encryption_secret raw)
                 ''server.session_encryption_secret'' env) (\<lambda>configured.
     bind_res (case configured of None \<Rightarrow> Inr None
                | Some v \<Rightarrow> map_res Some (session_encryption_secret_new v)) (\<lambda>secret.
       if raw_ss_port raw = 0
       then invalid_config ''server.port'' ''must be greater than zero''
       else if raw_ss_max_batch_objects raw = 0
       then invalid_config ''server.max_batch_objects'' ''must be greater than zero''
       else if raw_ss_max_provider_calls raw = 0
       then invalid_config ''server.max_provider_calls'' ''must be greater than zero''
       else if raw_ss_max_concurrent_requests raw = 0
       then invalid_config ''server.max_concurrent_requests'' ''must be greater than zero''
       else if raw_ss_max_concurrent_uploads raw = 0
       then invalid_config ''server.max_concurrent_uploads'' ''must be greater than zero''
       else if raw_ss_max_concurrent_uploads_per_user raw = 0
       then invalid_config ''server.max_concurrent_uploads_per_user'' ''must be greater than zero''
       else if raw_ss_max_concurrent_uploads raw < raw_ss_max_concurrent_uploads_per_user raw
       then invalid_config ''server.max_concurrent_uploads_per_user''
              ''must not exceed server.max_concurrent_uploads''
       else Inr \<lparr>ss_host = host, ss_port = raw_ss_port raw, ss_public_url = public_url,
                 ss_allow_insecure_http = raw_ss_allow_insecure_http raw,
                 ss_session_encryption_secret = secret,
                 ss_max_batch_objects = raw_ss_max_batch_objects raw,
                 ss_max_provider_calls = raw_ss_max_provider_calls raw,
                 ss_max_concurrent_requests = raw_ss_max_concurrent_requests raw,
                 ss_max_concurrent_uploads = raw_ss_max_concurrent_uploads raw,
                 ss_max_concurrent_uploads_per_user = raw_ss_max_concurrent_uploads_per_user raw,
                 ss_metadata_path = metadata_path\<rparr>))))))"

definition settings_ok :: "'u url_lib \<Rightarrow> server_settings \<Rightarrow> bool" where
  "settings_ok L s \<longleftrightarrow> \<not> is_blank (ss_host s) \<and> ss_port s \<noteq> 0 \<and> 0 < ss_max_batch_objects s
     \<and> 0 < ss_max_provider_calls s \<and> 0 < ss_max_concurrent_requests s
     \<and> 0 < ss_max_concurrent_uploads_per_user s
     \<and> ss_max_concurrent_uploads_per_user s \<le> ss_max_concurrent_uploads s
     \<and> (\<forall>u. ss_public_url s = Some u \<longrightarrow>
          (\<exists>p. validate_http_url L u (ss_allow_insecure_http s) = Inr p))
     \<and> (\<forall>v. ss_session_encryption_secret s = Some v \<longrightarrow> session_encryption_secret_new v = Inr v)"

lemma session_encryption_secret_new_Inr:
  "session_encryption_secret_new v = Inr w \<Longrightarrow> w = v \<and> session_encryption_secret_new v = Inr v"
  by (auto simp: session_encryption_secret_new_def split: if_splits)

lemma validate_config_http_url_Inr:
  "validate_config_http_url L u p allow = Inr x \<longleftrightarrow> (\<exists>w. validate_http_url L u allow = Inr w)"
  by (auto simp: validate_config_http_url_def)

lemma server_settings_from_raw_ok:
  "server_settings_from_raw L raw env base = Inr s \<Longrightarrow> settings_ok L s"
  unfolding server_settings_from_raw_def
  by (auto simp: validate_config_http_url_Inr settings_ok_def split: if_splits option.splits
      dest: resolve_required_Inr session_encryption_secret_new_Inr)

section \<open>The configuration and its cross references\<close>

record server_config =
  cfg_server :: server_settings
  cfg_repository_providers :: "(string, repository_provider_config) btree"
  cfg_storage_providers :: "(string, storage_provider_config) btree"
  cfg_repositories :: "repository_mapping list"

record raw_server_config =
  raw_cfg_server :: raw_server_settings
  raw_cfg_repository_providers :: "(string, raw_repository_provider_config) btree"
  raw_cfg_storage_providers :: "(string, raw_storage_provider_config) btree"
  raw_cfg_repositories :: "raw_repository_mapping list"

definition repository_mapping_is_case_insensitive :: "server_config \<Rightarrow> repository_mapping \<Rightarrow> bool" where
  "repository_mapping_is_case_insensitive cfg r =
     (case map_of (cfg_repository_providers cfg) (rm_repo_provider r) of
        None \<Rightarrow> False
      | Some p \<Rightarrow> route_identity_is_case_insensitive p)"

definition route_comparison_key :: "repository_provider_config \<Rightarrow> repository_mapping \<Rightarrow> string" where
  "route_comparison_key p r =
     (if route_identity_is_case_insensitive p then ascii_lower (route_path r) else route_path r)"

text \<open>The loop over the repositories with the sets \<open>repo_ids\<close> and \<open>route_paths\<close>.\<close>

fun validate_references_loop ::
  "server_config \<Rightarrow> string set \<Rightarrow> string set \<Rightarrow> nat \<Rightarrow> repository_mapping list \<Rightarrow> unit server_result" where
  "validate_references_loop cfg ids routes index [] = Inr ()"
| "validate_references_loop cfg ids routes index (r # rs) =
     bind_res
       (ok_or (invalid_config_error (indexed_path index @ ''.repo_provider'')
                 (''references unknown repository provider '' @ debug_str (rm_repo_provider r)))
         (map_of (cfg_repository_providers cfg) (rm_repo_provider r))) (\<lambda>p.
     bind_res (validate_mapping p r (indexed_path index)) (\<lambda>_.
       if map_of (cfg_storage_providers cfg) (rm_storage_provider r) = None
       then invalid_config (indexed_path index @ ''.storage_provider'')
              (''references unknown storage provider '' @ debug_str (rm_storage_provider r))
       else if rm_id r \<in> ids
       then invalid_config (indexed_path index @ ''.id'')
              (''duplicates repository id '' @ debug_str (rm_id r))
       else if route_comparison_key p r \<in> routes
       then invalid_config (indexed_path index @ ''.route_path'')
              (''duplicates configured route path '' @ debug_str (route_path r))
       else validate_references_loop cfg (insert (rm_id r) ids)
              (insert (route_comparison_key p r) routes) (Suc index) rs))"

definition validate_references :: "server_config \<Rightarrow> unit server_result" where
  "validate_references cfg = validate_references_loop cfg {} {} 0 (cfg_repositories cfg)"

definition collect_btree :: "('k::linorder \<times> 'v) list \<Rightarrow> ('k, 'v) btree" where
  "collect_btree es = foldl (\<lambda>m e. bt_insert (fst e) (snd e) m) [] es"

fun mappings_from_raw ::
  "nat \<Rightarrow> raw_repository_mapping list \<Rightarrow> env \<Rightarrow> repository_mapping list server_result" where
  "mappings_from_raw index [] env = Inr []"
| "mappings_from_raw index (raw # raws) env =
     bind_res (repository_mapping_from_raw index raw env) (\<lambda>r.
       map_res ((#) r) (mappings_from_raw (Suc index) raws env))"

definition server_config_from_raw ::
  "'u url_lib \<Rightarrow> raw_server_config \<Rightarrow> env \<Rightarrow> string \<Rightarrow> server_config server_result" where
  "server_config_from_raw L raw env metadata_base_dir =
     bind_res (server_settings_from_raw L (raw_cfg_server raw) env metadata_base_dir) (\<lambda>server.
     bind_res (traverse_res (\<lambda>(i, p).
                 map_res (\<lambda>q. (repository_config_id q, q))
                   (repository_provider_from_raw L i p (ss_allow_insecure_http server) env))
                (raw_cfg_repository_providers raw)) (\<lambda>repository_providers.
     bind_res (traverse_res (\<lambda>(i, p).
                 map_res (\<lambda>q. (storage_config_id q, q))
                   (storage_provider_from_raw i p env metadata_base_dir))
                (raw_cfg_storage_providers raw)) (\<lambda>storage_providers.
     bind_res (mappings_from_raw 0 (raw_cfg_repositories raw) env) (\<lambda>repositories.
     let config = \<lparr>cfg_server = server,
           cfg_repository_providers = collect_btree repository_providers,
           cfg_storage_providers = collect_btree storage_providers,
           cfg_repositories = repositories\<rparr>
     in map_res (\<lambda>_. config) (validate_references config)))))"

definition repository_mapping_for_identity ::
  "server_config \<Rightarrow> string \<Rightarrow> string \<Rightarrow> string \<Rightarrow> repository_mapping option" where
  "repository_mapping_for_identity cfg host owner name =
     find (\<lambda>r. eq_ignore_case (rm_host r) host
        \<and> (if repository_mapping_is_case_insensitive cfg r
           then eq_ignore_case (rm_owner r) owner \<and> eq_ignore_case (rm_name r) name
           else rm_owner r = owner \<and> rm_name r = name)) (cfg_repositories cfg)"

section \<open>What a loaded configuration guarantees\<close>

definition reference_ok :: "server_config \<Rightarrow> repository_mapping \<Rightarrow> bool" where
  "reference_ok cfg r \<longleftrightarrow>
     (\<exists>p. map_of (cfg_repository_providers cfg) (rm_repo_provider r) = Some p)
     \<and> map_of (cfg_storage_providers cfg) (rm_storage_provider r) \<noteq> None
     \<and> (\<exists>n. parse_u64 (rm_provider_repository_id r) = Inr n \<and> 0 < n)"

definition references_ok :: "server_config \<Rightarrow> bool" where
  "references_ok cfg \<longleftrightarrow> list_all (reference_ok cfg) (cfg_repositories cfg)
     \<and> distinct (map rm_id (cfg_repositories cfg))
     \<and> distinct (map (\<lambda>r. ascii_lower (route_path r)) (cfg_repositories cfg))"

definition config_ok :: "'u url_lib \<Rightarrow> server_config \<Rightarrow> bool" where
  "config_ok L cfg \<longleftrightarrow> settings_ok L (cfg_server cfg) \<and> references_ok cfg
     \<and> list_all mapping_ok (cfg_repositories cfg)
     \<and> bt_ok (cfg_repository_providers cfg) \<and> bt_ok (cfg_storage_providers cfg)"

lemma github_is_case_insensitive [simp]: "route_identity_is_case_insensitive p"
  by (cases p) (simp add: route_identity_is_case_insensitive_def)

lemma validate_mapping_Inr [simp]:
  "validate_mapping p r path = Inr u \<longleftrightarrow> (\<exists>n. parse_u64 (rm_provider_repository_id r) = Inr n \<and> 0 < n)"
  by (cases p) (auto simp: validate_mapping_def github_validate_mapping_def split: sum.splits)

lemma validate_references_loop_Inr:
  "validate_references_loop cfg ids routes index rs = Inr u \<longleftrightarrow>
     list_all (reference_ok cfg) rs
     \<and> distinct (map rm_id rs) \<and> rm_id ` set rs \<inter> ids = {}
     \<and> distinct (map (\<lambda>r. ascii_lower (route_path r)) rs)
     \<and> (\<lambda>r. ascii_lower (route_path r)) ` set rs \<inter> routes = {}"
  by (induction cfg ids routes index rs rule: validate_references_loop.induct)
    (auto simp: reference_ok_def route_comparison_key_def)

lemma validate_references_iff: "validate_references cfg = Inr u \<longleftrightarrow> references_ok cfg"
  by (simp add: validate_references_def validate_references_loop_Inr references_ok_def)

lemma mappings_from_raw_ok: "mappings_from_raw i raws env = Inr rs \<Longrightarrow> list_all mapping_ok rs"
  by (induction i raws env arbitrary: rs rule: mappings_from_raw.induct)
    (auto dest: repository_mapping_from_raw_ok)

lemma bt_ok_foldl: "bt_ok m \<Longrightarrow> bt_ok (foldl (\<lambda>m e. bt_insert (fst e) (snd e) m) m es)"
  by (induction es arbitrary: m) auto

lemma collect_btree_ok [simp]: "bt_ok (collect_btree es)"
  by (simp add: collect_btree_def bt_ok_foldl)

lemma server_config_from_raw_ok:
  "server_config_from_raw L raw env base = Inr cfg \<Longrightarrow> config_ok L cfg"
  by (auto simp: server_config_from_raw_def Let_def config_ok_def validate_references_iff
      dest: server_settings_from_raw_ok mappings_from_raw_ok)

lemma mapping_case_insensitive:
  "references_ok cfg \<Longrightarrow> r \<in> set (cfg_repositories cfg) \<Longrightarrow> repository_mapping_is_case_insensitive cfg r"
  by (auto simp: references_ok_def reference_ok_def list_all_iff
      repository_mapping_is_case_insensitive_def)

section \<open>Properties\<close>

text \<open>
  C32: the cross-reference check accepts exactly the configurations whose repositories all name a
  configured repository provider and storage provider and carry a positive numeric repository
  id, with pairwise different ids and pairwise different routes up to ASCII case.
\<close>

theorem validate_references_spec:
  "validate_references cfg = Inr () \<longleftrightarrow>
     list_all (reference_ok cfg) (cfg_repositories cfg)
     \<and> distinct (map rm_id (cfg_repositories cfg))
     \<and> distinct (map (\<lambda>r. ascii_lower (route_path r)) (cfg_repositories cfg))"
  by (simp add: validate_references_iff references_ok_def)

text \<open>A small loaded configuration, used as an example input.\<close>

definition sample_mapping :: "string \<Rightarrow> string \<Rightarrow> repository_mapping" where
  "sample_mapping i name =
     \<lparr>rm_id = i, rm_repo_provider = ''gh'', rm_host = ''github.com'', rm_owner = ''owner'',
      rm_name = name, rm_provider_repository_id = ''42'', rm_storage_provider = ''drive''\<rparr>"

definition sample_config :: server_config where
  "sample_config =
     \<lparr>cfg_server = \<lparr>ss_host = ''0.0.0.0'', ss_port = 15370, ss_public_url = None,
        ss_allow_insecure_http = False, ss_session_encryption_secret = None,
        ss_max_batch_objects = 100, ss_max_provider_calls = 16, ss_max_concurrent_requests = 64,
        ss_max_concurrent_uploads = 8, ss_max_concurrent_uploads_per_user = 2,
        ss_metadata_path = ''/m.sqlite3''\<rparr>,
      cfg_repository_providers = [(''gh'', GitHub \<lparr>gh_id = ''gh'', gh_api_url = DEFAULT_GITHUB_API_URL,
        gh_token = None, gh_allow_insecure_http = False\<rparr>)],
      cfg_storage_providers = [(''drive'', GoogleDrive \<lparr>gd_id = ''drive'',
        gd_credentials = \<lparr>gc_config_dir = ''/gcloud'', gc_executable = ''gcloud''\<rparr>,
        gd_root_folder_id = ''root'', gd_display_name = None\<rparr>)],
      cfg_repositories = [sample_mapping ''a'' ''repo'', sample_mapping ''b'' ''other'']\<rparr>"

lemma sample_config_ok: "config_ok L sample_config"
proof -
  have "settings_ok L (cfg_server sample_config)"
    by (simp add: settings_ok_def sample_config_def not_blank_solid is_solid_def is_ascii_def ws1_def
        byte_def)
  moreover have "references_ok sample_config"
    by (simp add: references_ok_def reference_ok_def sample_config_def sample_mapping_def route_path_def
        ascii_lower_def lower_char_def is_upper_def parse_u64_def is_digit_def digit_val_def
        u64_max_def byte_def)
  moreover have "list_all mapping_ok (cfg_repositories sample_config)"
    by (simp add: mapping_ok_def sample_config_def sample_mapping_def host_label_ok_def starts_with_def
        ends_with_def component_char_def is_alnum_def is_lower_def byte_def)
  ultimately show ?thesis
    by (simp add: config_ok_def) (simp add: sample_config_def bt_ok_def)
qed

text \<open>
  C33: a configuration that loads has usable settings (non-zero port and limits, per-user uploads
  within the global limit, a public URL that passes the transport policy, a strong session
  secret), safe repository identities, and consistent cross references.
\<close>

theorem server_config_from_raw_guarantees:
  assumes "server_config_from_raw L raw env base = Inr cfg"
  shows "settings_ok L (cfg_server cfg) \<and> references_ok cfg
    \<and> list_all mapping_ok (cfg_repositories cfg)
    \<and> bt_ok (cfg_repository_providers cfg) \<and> bt_ok (cfg_storage_providers cfg)"
  using server_config_from_raw_ok [OF assms] by (simp add: config_ok_def)

definition sample_raw_config :: raw_server_config where
  "sample_raw_config = \<lparr>raw_cfg_server = raw_server_settings_default,
     raw_cfg_repository_providers = [], raw_cfg_storage_providers = [], raw_cfg_repositories = []\<rparr>"

lemma resolve_required_plain:
  "\<not> is_blank v \<Longrightarrow> split_once_str [CHR ''$'', CHR 0x7B] v = None \<Longrightarrow>
     resolve_required (Some v) p env = Inr v"
  by (simp add: resolve_required_def interpolate_env_def interpolate_loop_plain)

lemma sample_raw_config_loads:
  "\<exists>cfg. server_config_from_raw L sample_raw_config (\<lambda>_. None) ''/etc'' = Inr cfg"
proof -
  have "\<not> is_blank DEFAULT_BIND_HOST"
    by (simp add: DEFAULT_BIND_HOST_def not_blank_solid is_solid_def is_ascii_def ws1_def byte_def)
  moreover have "split_once_str [CHR ''$'', CHR 0x7B] DEFAULT_BIND_HOST = None"
    by (simp add: DEFAULT_BIND_HOST_def starts_with_def)
  ultimately have "resolve_required (Some DEFAULT_BIND_HOST) ''server.host'' (\<lambda>_. None) = Inr DEFAULT_BIND_HOST"
    by (rule resolve_required_plain)
  then show ?thesis
    by (simp add: server_config_from_raw_def sample_raw_config_def raw_server_settings_default_def
        server_settings_from_raw_def resolve_optional_def resolve_metadata_path_def path_join_def
        DEFAULT_METADATA_DIR_def
        DEFAULT_METADATA_DB_FILE_def path_is_absolute_def starts_with_def DEFAULT_BIND_PORT_def Let_def
        validate_references_def)
qed

theorem server_config_from_raw_guarantees_witness:
  "\<exists>cfg. server_config_from_raw (undefined :: unit url_lib) sample_raw_config (\<lambda>_. None) ''/etc'' = Inr cfg
     \<and> ss_port (cfg_server cfg) \<noteq> 0"
proof -
  obtain cfg where c: "server_config_from_raw (undefined :: unit url_lib) sample_raw_config (\<lambda>_. None) ''/etc'' = Inr cfg"
    using sample_raw_config_loads by blast
  show ?thesis
    using c server_config_from_raw_guarantees [OF c] by (auto simp: settings_ok_def)
qed

end
