(* ===== verification/Lfs_Batch.thy ===== *)
theory Lfs_Batch
  imports Errors Url_Lib
begin

text \<open>
  The Git LFS batch payloads (\<open>src/lfs.rs\<close>, second half): request and response types, the
  per-object availability of downloads and uploads, and the action URLs. The \<open>url\<close> crate is
  the parameter record \<open>url_lib\<close>.
\<close>

section \<open>Requests\<close>

datatype lfs_batch_operation = Download | Upload

datatype lfs_batch_hash_algorithm = Sha256

record lfs_batch_request =
  req_operation :: lfs_batch_operation
  req_transfers :: "string list"
  req_ref :: "string option"
  req_hash_algo :: lfs_batch_hash_algorithm
  req_objects :: "lfs_object list"

datatype 'j lfs_batch_request_parse_error = BatchJson 'j

text \<open>\<open>from_slice\<close> is \<open>serde_json::from_slice\<close> at the request type.\<close>

definition parse_lfs_batch_request_json ::
  "(string \<Rightarrow> 'j + lfs_batch_request) \<Rightarrow> string \<Rightarrow> 'j lfs_batch_request_parse_error + lfs_batch_request" where
  "parse_lfs_batch_request_json from_slice body = map_err BatchJson (from_slice body)"

section \<open>Responses\<close>

definition LFS_BASIC_TRANSFER :: string where
  "LFS_BASIC_TRANSFER = ''basic''"

record lfs_batch_action =
  act_href :: string
  act_header :: "(string, string) btree"
  act_expires_at :: "string option"
  act_expires_in :: "int option"

definition lfs_batch_action_new :: "string \<Rightarrow> lfs_batch_action" where
  "lfs_batch_action_new href =
     \<lparr>act_href = href, act_header = [], act_expires_at = None, act_expires_in = None\<rparr>"

record lfs_batch_object_error =
  boe_code :: u16
  boe_message :: string

definition lfs_batch_object_error_new :: "u16 \<Rightarrow> string \<Rightarrow> lfs_batch_object_error" where
  "lfs_batch_object_error_new code message = \<lparr>boe_code = code, boe_message = message\<rparr>"

record lfs_batch_object_response =
  res_oid :: lfs_oid
  res_size :: u64
  res_authenticated :: "bool option"
  res_actions :: "(string, lfs_batch_action) btree"
  res_error :: "lfs_batch_object_error option"

definition with_actions ::
  "lfs_object \<Rightarrow> bool \<Rightarrow> (string, lfs_batch_action) btree \<Rightarrow> lfs_batch_object_response" where
  "with_actions object authenticated actions =
     \<lparr>res_oid = obj_oid object, res_size = obj_size object, res_authenticated = Some authenticated,
      res_actions = actions, res_error = None\<rparr>"

definition with_error :: "lfs_object \<Rightarrow> lfs_batch_object_error \<Rightarrow> lfs_batch_object_response" where
  "with_error object err =
     \<lparr>res_oid = obj_oid object, res_size = obj_size object, res_authenticated = None,
      res_actions = [], res_error = Some err\<rparr>"

record lfs_batch_response =
  resp_transfer :: string
  resp_objects :: "lfs_batch_object_response list"

section \<open>Action URLs\<close>

definition action_url_fallback :: "string \<Rightarrow> string \<Rightarrow> lfs_object \<Rightarrow> string" where
  "action_url_fallback public_url repository_lfs_path object =
     trim_end_matches CHR ''/'' public_url @ ''/'' @ trim_matches CHR ''/'' repository_lfs_path
     @ ''/objects/'' @ as_hex (obj_oid object) @ ''?size='' @ nat_dec (unat (obj_size object))"

definition lfs_object_transfer_action_url ::
  "'u url_lib \<Rightarrow> string \<Rightarrow> string \<Rightarrow> lfs_object \<Rightarrow> string" where
  "lfs_object_transfer_action_url L public_url repository_lfs_path object =
     (case url_parse L (trim_end_matches CHR ''/'' public_url) of
        None \<Rightarrow> action_url_fallback public_url repository_lfs_path object
      | Some url \<Rightarrow>
          let url1 = url_clear_query L url in
          if \<not> url_is_base L url1 then action_url_fallback public_url repository_lfs_path object
          else let
            segments = filter (\<lambda>segment. segment \<noteq> [])
                         (split_on CHR ''/'' (trim_matches CHR ''/'' repository_lfs_path));
            url2 = foldl (url_push L) (url_pop_if_empty L url1)
                     (segments @ [''objects'', as_hex (obj_oid object)])
          in url_print L
               (url_append_pair L url2 ''size'' (nat_dec (unat (obj_size object)))))"

definition lfs_object_action_url :: "'u url_lib \<Rightarrow> string \<Rightarrow> string \<Rightarrow> lfs_object \<Rightarrow> string" where
  "lfs_object_action_url L public_url repository_lfs_path object =
     lfs_object_transfer_action_url L public_url repository_lfs_path object"

definition lfs_upload_object_action_url :: "'u url_lib \<Rightarrow> string \<Rightarrow> string \<Rightarrow> lfs_object \<Rightarrow> string" where
  "lfs_upload_object_action_url L public_url repository_lfs_path object =
     lfs_object_transfer_action_url L public_url repository_lfs_path object"

section \<open>Availability of one object\<close>

datatype lfs_batch_download_object =
    DlAvailable lfs_object
  | DlMissing lfs_object
  | DlError lfs_object lfs_batch_object_error

datatype lfs_batch_upload_object =
    UlNeeded lfs_object
  | UlPresent lfs_object
  | UlError lfs_object lfs_batch_object_error

definition download_into_response ::
  "'u url_lib \<Rightarrow> string \<Rightarrow> string \<Rightarrow> lfs_batch_download_object \<Rightarrow> lfs_batch_object_response" where
  "download_into_response L public_url repository_lfs_path d = (case d of
       DlAvailable object \<Rightarrow>
         with_actions object True
           (bt_insert ''download''
              (lfs_batch_action_new (lfs_object_action_url L public_url repository_lfs_path object)) [])
     | DlMissing object \<Rightarrow> with_error object (lfs_batch_object_error_new 404 ''object not found'')
     | DlError object err \<Rightarrow> with_error object err)"

definition upload_into_response ::
  "'u url_lib \<Rightarrow> string \<Rightarrow> string \<Rightarrow> lfs_batch_upload_object \<Rightarrow> lfs_batch_object_response" where
  "upload_into_response L public_url repository_lfs_path u = (case u of
       UlNeeded object \<Rightarrow>
         with_actions object True
           (bt_insert ''upload''
              (lfs_batch_action_new
                (lfs_upload_object_action_url L public_url repository_lfs_path object)) [])
     | UlPresent object \<Rightarrow>
         \<lparr>res_oid = obj_oid object, res_size = obj_size object, res_authenticated = None,
          res_actions = [], res_error = None\<rparr>
     | UlError object err \<Rightarrow> with_error object err)"

definition batch_response_download ::
  "'u url_lib \<Rightarrow> string \<Rightarrow> string \<Rightarrow> lfs_batch_download_object list \<Rightarrow> lfs_batch_response" where
  "batch_response_download L public_url repository_lfs_path objects =
     \<lparr>resp_transfer = LFS_BASIC_TRANSFER,
      resp_objects = map (download_into_response L public_url repository_lfs_path) objects\<rparr>"

definition batch_response_upload ::
  "'u url_lib \<Rightarrow> string \<Rightarrow> string \<Rightarrow> lfs_batch_upload_object list \<Rightarrow> lfs_batch_response" where
  "batch_response_upload L public_url repository_lfs_path objects =
     \<lparr>resp_transfer = LFS_BASIC_TRANSFER,
      resp_objects = map (upload_into_response L public_url repository_lfs_path) objects\<rparr>"

lemmas batch_defs = with_actions_def with_error_def lfs_batch_action_new_def
  download_into_response_def upload_into_response_def lfs_batch_object_error_new_def

section \<open>Response shape\<close>

definition response_ok :: "lfs_batch_object_response \<Rightarrow> bool" where
  "response_ok r \<longleftrightarrow> bt_ok (res_actions r)
     \<and> (res_error r \<noteq> None \<longrightarrow> res_actions r = [] \<and> res_authenticated r = None)
     \<and> (res_actions r \<noteq> [] \<longrightarrow> res_authenticated r = Some True)"

fun download_object :: "lfs_batch_download_object \<Rightarrow> lfs_object" where
  "download_object (DlAvailable x) = x"
| "download_object (DlMissing x) = x"
| "download_object (DlError x e) = x"

fun upload_object :: "lfs_batch_upload_object \<Rightarrow> lfs_object" where
  "upload_object (UlNeeded x) = x"
| "upload_object (UlPresent x) = x"
| "upload_object (UlError x e) = x"

lemma download_response_ok [simp]: "response_ok (download_into_response L u p d)"
  by (cases d) (simp_all add: response_ok_def batch_defs bt_ok_def)

lemma upload_response_ok [simp]: "response_ok (upload_into_response L u p d)"
  by (cases d) (simp_all add: response_ok_def batch_defs bt_ok_def)

lemma download_response_object [simp]:
  "LfsObject (res_oid (download_into_response L u p d)) (res_size (download_into_response L u p d))
     = download_object d"
  by (cases d) (simp_all add: batch_defs)

lemma upload_response_object [simp]:
  "LfsObject (res_oid (upload_into_response L u p d)) (res_size (upload_into_response L u p d))
     = upload_object d"
  by (cases d) (simp_all add: batch_defs)

end
