(* ===== verification/Routing.thy ===== *)
theory Routing
  imports Config Lfs_Batch
begin

text \<open>
  Request routing (\<open>src/server/routing.rs\<close>): the route table built from the configuration,
  the resolution of a request path to a repository and an endpoint, and the host name check of
  the bind address. For a loaded configuration a path has at most one matching repository, and
  \<open>resolve_path\<close> finds it whatever the case of the identity part.
\<close>

section \<open>Endpoints\<close>

datatype lfs_route_endpoint = EpInfo | EpBatch | EpObject lfs_oid

record resolved_lfs_route =
  rt_repository :: repository_mapping
  rt_endpoint :: lfs_route_endpoint

definition parse_lfs_route_endpoint :: "string \<Rightarrow> lfs_route_endpoint server_result" where
  "parse_lfs_route_endpoint suffix =
     (if suffix = ''objects/batch'' then Inr EpBatch
      else case strip_prefix ''objects/'' suffix of
          Some x \<Rightarrow>
            if CHR ''/'' \<in> set x \<or> x = []
            then Inl (SvInvalidRequest (''unsupported LFS object endpoint '' @ debug_str suffix))
            else map_res EpObject
                   (map_err (\<lambda>source. SvInvalidRequest
                      (''invalid LFS object id in route: '' @ show_lfs_object_error source))
                     (lfs_oid_new x))
        | None \<Rightarrow> Inl (SvInvalidRequest (''unsupported LFS endpoint '' @ debug_str suffix)))"

section \<open>The route table\<close>

record configured_lfs_route =
  cr_repository_identity_path :: string
  cr_route_path :: string
  cr_route_path_with_slash :: string
  cr_case_insensitive_identity :: bool
  cr_repository :: repository_mapping

definition configured_route :: "server_config \<Rightarrow> repository_mapping \<Rightarrow> configured_lfs_route" where
  "configured_route cfg r =
     \<lparr>cr_repository_identity_path = identity_path r,
      cr_route_path = route_path r,
      cr_route_path_with_slash = route_path r @ ''/'',
      cr_case_insensitive_identity = repository_mapping_is_case_insensitive cfg r,
      cr_repository = r\<rparr>"

definition route_resolver_new :: "server_config \<Rightarrow> configured_lfs_route list" where
  "route_resolver_new cfg =
     sort_key (\<lambda>c. - int (length (cr_route_path c)))
       (map (configured_route cfg) (cfg_repositories cfg))"

definition path_matches :: "configured_lfs_route \<Rightarrow> string \<Rightarrow> string \<Rightarrow> bool" where
  "path_matches route candidate configured =
     (if \<not> cr_case_insensitive_identity route then candidate = configured
      else let identity_length = length (cr_repository_identity_path route) in
        case str_get_prefix identity_length candidate of
          None \<Rightarrow> False
        | Some candidate_identity \<Rightarrow>
            (case str_get_suffix identity_length candidate of
               None \<Rightarrow> False
             | Some candidate_suffix \<Rightarrow>
                 (case str_get_suffix identity_length configured of
                    None \<Rightarrow> False
                  | Some configured_suffix \<Rightarrow>
                      eq_ignore_case candidate_identity (cr_repository_identity_path route)
                      \<and> candidate_suffix = configured_suffix)))"

definition strip_path_prefix :: "configured_lfs_route \<Rightarrow> string \<Rightarrow> string option" where
  "strip_path_prefix route path =
     (let prefix = cr_route_path_with_slash route in
      case str_get_prefix (length prefix) path of
        None \<Rightarrow> None
      | Some candidate \<Rightarrow>
          if path_matches route candidate prefix then Some (drop (length prefix) path) else None)"

fun resolve_routes :: "configured_lfs_route list \<Rightarrow> string \<Rightarrow> resolved_lfs_route server_result" where
  "resolve_routes [] path = Inl (SvRouteNotConfigured path)"
| "resolve_routes (route # routes) path =
     (if path_matches route path (cr_route_path route)
         \<or> path_matches route path (cr_route_path_with_slash route)
      then Inr \<lparr>rt_repository = cr_repository route, rt_endpoint = EpInfo\<rparr>
      else case strip_path_prefix route path of
          None \<Rightarrow> resolve_routes routes path
        | Some suffix \<Rightarrow>
            map_res (\<lambda>ep. \<lparr>rt_repository = cr_repository route, rt_endpoint = ep\<rparr>)
              (parse_lfs_route_endpoint suffix))"

definition resolve_path :: "configured_lfs_route list \<Rightarrow> string \<Rightarrow> resolved_lfs_route server_result" where
  "resolve_path routes path =
     (if \<not> starts_with ''/'' path
      then Inl (SvInvalidRequest (''route path must start with '' @ [CHR 0x27, CHR ''/'', CHR 0x27]))
      else resolve_routes routes path)"

definition dns_label_ok :: "string \<Rightarrow> bool" where
  "dns_label_ok label \<longleftrightarrow> label \<noteq> [] \<and> length label \<le> 63
     \<and> (\<forall>i < length label. is_alnum (label ! i)
          \<or> label ! i = CHR ''-'' \<and> 0 < i \<and> i + 1 < length label)"

definition is_valid_dns_hostname :: "string \<Rightarrow> bool" where
  "is_valid_dns_hostname input =
     (let host = (case strip_suffix ''.'' input of Some h \<Rightarrow> h | None \<Rightarrow> input) in
      host \<noteq> [] \<and> length host \<le> 253 \<and> list_all dns_label_ok (split_on CHR ''.'' host))"

section \<open>Paths below a repository\<close>

text \<open>
  \<open>path_below r path suffix\<close>: the path is the route of \<open>r\<close>, its host, owner and name in any
  case, followed by \<open>suffix\<close>.
\<close>

definition path_below :: "repository_mapping \<Rightarrow> string \<Rightarrow> string \<Rightarrow> bool" where
  "path_below r path suffix \<longleftrightarrow>
     (\<exists>ident. eq_ignore_case ident (identity_path r) \<and> path = ident @ ''.git/info/lfs'' @ suffix)"

lemma route_path_identity: "route_path r = identity_path r @ ''.git/info/lfs''"
  by (simp add: route_path_def identity_path_def)

lemma path_below_route [simp]: "path_below r (route_path r @ s) s"
  by (auto simp: path_below_def route_path_identity)

lemma eq_ignore_case_length: "eq_ignore_case s t \<Longrightarrow> length s = length t"
  unfolding eq_ignore_case_def by (metis length_ascii_lower)

lemma boundary_dot [simp]: "is_char_boundary (s @ CHR ''.'' # t) (length s)"
  by (simp add: is_char_boundary_def is_continuation_def byte_def)

lemma path_matches_identity:
  assumes "cr_case_insensitive_identity c"
  shows "path_matches c path (cr_repository_identity_path c @ CHR ''.'' # t) \<longleftrightarrow>
    (\<exists>ident. eq_ignore_case ident (cr_repository_identity_path c) \<and> path = ident @ CHR ''.'' # t)"
    (is "?L \<longleftrightarrow> ?R")
proof
  let ?n = "length (cr_repository_identity_path c)"
  assume ?L
  then have "eq_ignore_case (take ?n path) (cr_repository_identity_path c)" "drop ?n path = CHR ''.'' # t"
    using assms by (auto simp: path_matches_def Let_def str_get_prefix_def str_get_suffix_def
        split: if_splits option.splits)
  then show ?R
    by (metis append_take_drop_id)
next
  assume ?R
  then obtain ident where i: "eq_ignore_case ident (cr_repository_identity_path c)"
    "path = ident @ CHR ''.'' # t" by blast
  then have "length (cr_repository_identity_path c) = length ident"
    using eq_ignore_case_length by simp
  then show ?L
    using i assms boundary_dot [of ident t] boundary_dot [of "cr_repository_identity_path c" t]
    by (simp add: path_matches_def Let_def str_get_prefix_def str_get_suffix_def)
qed

definition suffix_ok :: "string \<Rightarrow> bool" where
  "suffix_ok s \<longleftrightarrow> s = [] \<or> \<not> is_continuation (hd s)"

lemma boundary_append: "p \<noteq> [] \<Longrightarrow> is_char_boundary (p @ s) (length p) \<longleftrightarrow> suffix_ok s"
  by (cases s) (auto simp: is_char_boundary_def suffix_ok_def nth_append)

lemma strip_path_prefix_split:
  "strip_path_prefix c path = Some s \<longleftrightarrow>
     is_char_boundary path (length (cr_route_path_with_slash c))
     \<and> path_matches c (take (length (cr_route_path_with_slash c)) path) (cr_route_path_with_slash c)
     \<and> s = drop (length (cr_route_path_with_slash c)) path"
  by (auto simp: strip_path_prefix_def Let_def str_get_prefix_def)

lemma strip_path_prefix_Some:
  assumes "cr_case_insensitive_identity (configured_route cfg r)"
  shows "strip_path_prefix (configured_route cfg r) path = Some s \<longleftrightarrow>
    path_below r path (CHR ''/'' # s) \<and> suffix_ok s"
    (is "?L \<longleftrightarrow> ?R")
proof -
  let ?c = "configured_route cfg r" and ?n = "length (identity_path r @ ''.git/info/lfs/'')"
  have prefix: "cr_route_path_with_slash ?c = identity_path r @ ''.git/info/lfs/''"
    by (simp add: configured_route_def route_path_identity)
  have m: "path_matches ?c cand (identity_path r @ ''.git/info/lfs/'') \<longleftrightarrow>
      (\<exists>ident. eq_ignore_case ident (identity_path r) \<and> cand = ident @ ''.git/info/lfs/'')" for cand
    using path_matches_identity [OF assms, of cand "''git/info/lfs/''"]
    by (simp add: configured_route_def)
  have "?L \<longleftrightarrow> is_char_boundary path ?n \<and> s = drop ?n path
      \<and> (\<exists>ident. eq_ignore_case ident (identity_path r) \<and> take ?n path = ident @ ''.git/info/lfs/'')"
    unfolding strip_path_prefix_split prefix m by blast
  also have "\<dots> \<longleftrightarrow> (\<exists>ident. eq_ignore_case ident (identity_path r)
      \<and> path = (ident @ ''.git/info/lfs/'') @ s \<and> suffix_ok s)"
  proof -
    have "is_char_boundary path ?n \<and> s = drop ?n path \<and> take ?n path = ident @ ''.git/info/lfs/'' \<longleftrightarrow>
        path = (ident @ ''.git/info/lfs/'') @ s \<and> suffix_ok s"
      if "eq_ignore_case ident (identity_path r)" for ident
    proof -
      have n: "?n = length (ident @ ''.git/info/lfs/'')"
        using eq_ignore_case_length [OF that] by simp
      show ?thesis
        unfolding n using boundary_append [of "ident @ ''.git/info/lfs/''" s]
        by (metis append_eq_conv_conj append_is_Nil_conv append_take_drop_id list.distinct(1))
    qed
    then show ?thesis by blast
  qed
  also have "\<dots> \<longleftrightarrow> ?R" by (auto simp: path_below_def)
  finally show ?thesis .
qed

section \<open>At most one repository matches\<close>

lemma lower_char_slash [simp]: "lower_char c = CHR ''/'' \<longleftrightarrow> c = CHR ''/''"
proof (cases "is_upper c")
  case True
  then have "97 \<le> byte (lower_char c)" "65 \<le> byte c"
    by (simp_all add: lower_char_def is_upper_def)
  moreover have "byte CHR ''/'' = 47" by (simp add: byte_def)
  ultimately show ?thesis by auto
qed (simp add: lower_char_def)

lemma slash_in_lower [simp]: "CHR ''/'' \<in> set (ascii_lower s) \<longleftrightarrow> CHR ''/'' \<in> set s"
  by (induction s) (simp_all add: ascii_lower_def eq_commute [of "CHR ''/''"])

lemma slash_not_alnum [simp]: "\<not> is_alnum CHR ''/''"
  by (simp add: is_alnum_def is_digit_def is_upper_def is_lower_def byte_def)

lemma slash_not_component [simp]: "\<not> component_char CHR ''/''"
  by (simp add: component_char_def)

lemma ascii_lower_Cons_slash [simp]: "ascii_lower (CHR ''/'' # s) = CHR ''/'' # ascii_lower s"
  by (simp add: ascii_lower_def lower_char_def is_upper_def byte_def)

lemma split_on_join: "CHR ''/'' \<notin> set a \<Longrightarrow> split_on CHR ''/'' (a @ CHR ''/'' # s) = a # split_on CHR ''/'' s"
  by (rule split_on_append)

lemma component_no_slash: "list_all component_char s \<Longrightarrow> CHR ''/'' \<notin> set s"
  unfolding list_all_iff using slash_not_component by blast

lemma host_no_slash:
  assumes "list_all host_label_ok (split_on CHR ''.'' h)"
  shows "CHR ''/'' \<notin> set h"
proof
  assume "CHR ''/'' \<in> set h"
  then obtain p where "p \<in> set (split_on CHR ''.'' h)" "CHR ''/'' \<in> set p"
    using split_on_set [of "CHR ''/''" h "CHR ''.''"] by auto
  moreover from this have "list_all (\<lambda>b. is_alnum b \<or> b = CHR ''-'') p"
    using assms by (auto simp: list_all_iff host_label_ok_def)
  ultimately show False
    unfolding list_all_iff using slash_not_alnum by fastforce
qed

lemma mapping_no_slash:
  "mapping_ok r \<Longrightarrow> CHR ''/'' \<notin> set (rm_host r) \<and> CHR ''/'' \<notin> set (rm_owner r)
     \<and> CHR ''/'' \<notin> set (rm_name r)"
  by (simp add: mapping_ok_def component_no_slash host_no_slash)

lemma split_path_below:
  assumes "mapping_ok r" "path_below r path s" "s = [] \<or> hd s = CHR ''/''"
  shows "\<exists>rest. split_on CHR ''/'' (ascii_lower path) =
    [] # ascii_lower (rm_host r) # ascii_lower (rm_owner r) # (ascii_lower (rm_name r) @ ''.git'') # rest"
proof -
  from assms(2) obtain ident where i: "ascii_lower ident = ascii_lower (identity_path r)"
    "path = ident @ ''.git/info/lfs'' @ s" by (auto simp: path_below_def eq_ignore_case_def)
  have git: "ascii_lower ''.git/info/lfs'' = ''.git/info/lfs''"
    by (simp add: ascii_lower_def lower_char_def is_upper_def byte_def)
  have "ascii_lower path = CHR ''/'' # ascii_lower (rm_host r) @ CHR ''/'' # ascii_lower (rm_owner r)
      @ CHR ''/'' # (ascii_lower (rm_name r) @ ''.git'') @ CHR ''/'' # ''info/lfs'' @ ascii_lower s"
    unfolding i(2) ascii_lower_append i(1) git by (simp add: identity_path_def)
  moreover have "CHR ''/'' \<notin> set (ascii_lower (rm_name r) @ ''.git'')"
    using mapping_no_slash [OF assms(1)] by simp
  moreover have "split_on CHR ''/'' (ascii_lower (rm_host r) @ CHR ''/'' # t)
      = ascii_lower (rm_host r) # split_on CHR ''/'' t"
    "split_on CHR ''/'' (ascii_lower (rm_owner r) @ CHR ''/'' # t)
      = ascii_lower (rm_owner r) # split_on CHR ''/'' t" for t
    using mapping_no_slash [OF assms(1)] by (simp_all add: split_on_append)
  moreover have "split_on CHR ''/'' (CHR ''/'' # t) = [] # split_on CHR ''/'' t" for t
    by simp
  moreover from calculation(2) have "split_on CHR ''/'' ((ascii_lower (rm_name r) @ ''.git'') @ CHR ''/'' # t)
      = (ascii_lower (rm_name r) @ ''.git'') # split_on CHR ''/'' t" for t
    by (rule split_on_append)
  ultimately show ?thesis by (simp only:) blast
qed

lemma path_below_unique:
  assumes "mapping_ok r" "mapping_ok r'" "path_below r path s" "path_below r' path s'"
    "s = [] \<or> hd s = CHR ''/''" "s' = [] \<or> hd s' = CHR ''/''"
  shows "ascii_lower (route_path r) = ascii_lower (route_path r')"
  using split_path_below [OF assms(1,3,5)] split_path_below [OF assms(2,4,6)]
  by (auto simp: route_path_def)

section \<open>Resolution of a loaded configuration\<close>

text \<open>What one table entry answers for a path: \<open>None\<close> moves on to the next entry.\<close>

definition route_answer :: "repository_mapping \<Rightarrow> string \<Rightarrow> resolved_lfs_route server_result" where
  "route_answer r s =
     (if s = [] \<or> s = ''/'' then Inr \<lparr>rt_repository = r, rt_endpoint = EpInfo\<rparr>
      else map_res (\<lambda>ep. \<lparr>rt_repository = r, rt_endpoint = ep\<rparr>) (parse_lfs_route_endpoint (tl s)))"

definition below_suffix :: "string \<Rightarrow> bool" where
  "below_suffix s \<longleftrightarrow> s = [] \<or> (hd s = CHR ''/'' \<and> suffix_ok (tl s))"

lemma resolve_routes_step:
  assumes "repository_mapping_is_case_insensitive cfg r"
  shows "(\<exists>s. path_below r path s \<and> below_suffix s
            \<and> resolve_routes (configured_route cfg r # cs) path = route_answer r s)
       \<or> ((\<nexists>s. path_below r path s \<and> below_suffix s)
            \<and> resolve_routes (configured_route cfg r # cs) path = resolve_routes cs path)"
proof -
  let ?c = "configured_route cfg r"
  have ci: "cr_case_insensitive_identity ?c"
    using assms by (simp add: configured_route_def)
  have info: "path_matches ?c path (cr_route_path ?c) \<longleftrightarrow> path_below r path []"
    "path_matches ?c path (cr_route_path_with_slash ?c) \<longleftrightarrow> path_below r path ''/''"
    using path_matches_identity [OF ci, of path "''git/info/lfs''"]
      path_matches_identity [OF ci, of path "''git/info/lfs/''"]
    by (simp_all add: configured_route_def route_path_identity path_below_def)
  show ?thesis
  proof (cases "path_below r path [] \<or> path_below r path ''/''")
    case True
    then have "resolve_routes (?c # cs) path = Inr \<lparr>rt_repository = r, rt_endpoint = EpInfo\<rparr>"
      by (simp add: info) (simp add: configured_route_def)
    moreover have "\<exists>s. path_below r path s \<and> below_suffix s \<and> (s = [] \<or> s = ''/'')"
      using True by (auto simp: below_suffix_def suffix_ok_def)
    ultimately show ?thesis by (auto simp: route_answer_def)
  next
    case False
    have repo: "cr_repository ?c = r" by (simp add: configured_route_def)
    show ?thesis
    proof (cases "strip_path_prefix ?c path")
      case None
      then have "\<nexists>s. path_below r path (CHR ''/'' # s) \<and> suffix_ok s"
        using strip_path_prefix_Some [OF ci] by (metis option.distinct(1))
      then have "\<nexists>s. path_below r path s \<and> below_suffix s"
        using False by (metis below_suffix_def list.collapse)
      moreover have "resolve_routes (?c # cs) path = resolve_routes cs path"
        using False None by (simp add: info)
      ultimately show ?thesis by blast
    next
      case (Some s)
      then have b: "path_below r path (CHR ''/'' # s)" "suffix_ok s"
        using strip_path_prefix_Some [OF ci] by blast+
      have "s \<noteq> []" using b(1) False by auto
      then have "resolve_routes (?c # cs) path = route_answer r (CHR ''/'' # s)"
        using False Some by (simp add: info repo route_answer_def)
      then show ?thesis using b by (auto simp: below_suffix_def intro!: exI [of _ "CHR ''/'' # s"])
    qed
  qed
qed

lemma resolve_routes_none:
  assumes "\<forall>r \<in> set rs. repository_mapping_is_case_insensitive cfg r"
    "\<forall>r \<in> set rs. \<nexists>s. path_below r path s \<and> below_suffix s"
  shows "resolve_routes (map (configured_route cfg) rs) path = Inl (SvRouteNotConfigured path)"
  using assms
proof (induction rs)
  case (Cons r rs)
  then show ?case
    using resolve_routes_step [of cfg r path "map (configured_route cfg) rs"] by auto
qed simp

lemma resolve_routes_found:
  assumes "\<forall>r \<in> set rs. repository_mapping_is_case_insensitive cfg r"
    "r \<in> set rs" "path_below r path s" "below_suffix s"
    "\<forall>r' \<in> set rs. \<forall>s'. path_below r' path s' \<and> below_suffix s' \<longrightarrow> r' = r \<and> s' = s"
  shows "resolve_routes (map (configured_route cfg) rs) path = route_answer r s"
  using assms
proof (induction rs)
  case (Cons r' rs)
  have step: "(\<exists>s'. path_below r' path s' \<and> below_suffix s'
        \<and> resolve_routes (map (configured_route cfg) (r' # rs)) path = route_answer r' s')
     \<or> ((\<nexists>s'. path_below r' path s' \<and> below_suffix s')
        \<and> resolve_routes (map (configured_route cfg) (r' # rs)) path
            = resolve_routes (map (configured_route cfg) rs) path)"
    using resolve_routes_step [of cfg r' path "map (configured_route cfg) rs"] Cons.prems(1)
    unfolding list.map by auto
  have unique: "r' = r \<and> s' = s" if "path_below r' path s'" "below_suffix s'" for s'
    using Cons.prems(5) that by auto
  from step show ?case
  proof (elim disjE exE conjE)
    fix s' assume "path_below r' path s'" "below_suffix s'"
      "resolve_routes (map (configured_route cfg) (r' # rs)) path = route_answer r' s'"
    then show ?thesis using unique by blast
  next
    assume none: "\<nexists>s'. path_below r' path s' \<and> below_suffix s'"
      and eq: "resolve_routes (map (configured_route cfg) (r' # rs)) path
            = resolve_routes (map (configured_route cfg) rs) path"
    then have "r \<in> set rs" using Cons.prems(2,3,4) by auto
    moreover have "\<forall>r \<in> set rs. repository_mapping_is_case_insensitive cfg r"
      using Cons.prems(1) by simp
    moreover have "\<forall>r' \<in> set rs. \<forall>s'. path_below r' path s' \<and> below_suffix s' \<longrightarrow> r' = r \<and> s' = s"
      using Cons.prems(5) by (meson list.set_intros(2))
    ultimately show ?thesis unfolding eq using Cons.IH Cons.prems(3,4) by blast
  qed
qed simp

lemma insort_key_map: "insort_key f (g x) (map g xs) = map g (insort_key (\<lambda>a. f (g a)) x xs)"
  by (induction xs) auto

lemma sort_key_map: "sort_key f (map g xs) = map g (sort_key (\<lambda>a. f (g a)) xs)"
  by (induction xs) (simp_all add: insort_key_map)

lemma route_resolver_new_map:
  "\<exists>rs. set rs = set (cfg_repositories cfg) \<and> route_resolver_new cfg = map (configured_route cfg) rs"
  unfolding route_resolver_new_def sort_key_map by (metis set_sort)

lemma path_below_length:
  "path_below r path s \<Longrightarrow> \<exists>i. length i = length (identity_path r) \<and> path = i @ ''.git/info/lfs'' @ s"
  unfolding path_below_def using eq_ignore_case_length by blast

lemma path_below_suffix_unique:
  assumes "path_below r path s" "path_below r path s'"
  shows "s = s'"
proof -
  obtain i where i: "length i = length (identity_path r)" "path = i @ ''.git/info/lfs'' @ s"
    using path_below_length [OF assms(1)] by blast
  obtain i' where i': "length i' = length (identity_path r)" "path = i' @ ''.git/info/lfs'' @ s'"
    using path_below_length [OF assms(2)] by blast
  have "i @ ''.git/info/lfs'' @ s = i' @ ''.git/info/lfs'' @ s'"
    unfolding i(2) [symmetric] by (rule i'(2))
  then show ?thesis using i(1) i'(1) by simp
qed

lemma routes_unique:
  assumes "config_ok L cfg" "r \<in> set (cfg_repositories cfg)" "r' \<in> set (cfg_repositories cfg)"
    "path_below r path s" "below_suffix s" "path_below r' path s'" "below_suffix s'"
  shows "r' = r \<and> s' = s"
proof -
  have "mapping_ok r" "mapping_ok r'"
    using assms(1-3) by (auto simp: config_ok_def list_all_iff)
  moreover have "s = [] \<or> hd s = CHR ''/''" "s' = [] \<or> hd s' = CHR ''/''"
    using assms(5,7) by (auto simp: below_suffix_def)
  ultimately have "ascii_lower (route_path r) = ascii_lower (route_path r')"
    using path_below_unique assms(4,6) by blast
  moreover have "inj_on (\<lambda>r. ascii_lower (route_path r)) (set (cfg_repositories cfg))"
    using assms(1) by (simp add: config_ok_def references_ok_def distinct_map)
  ultimately have "r' = r" using assms(2,3) by (auto dest: inj_onD)
  then show ?thesis using path_below_suffix_unique assms(4,6) by blast
qed

lemma resolver_insensitive:
  "config_ok L cfg \<Longrightarrow> \<forall>r \<in> set (cfg_repositories cfg). repository_mapping_is_case_insensitive cfg r"
  by (simp add: config_ok_def mapping_case_insensitive)

lemma path_below_starts: "path_below r path s \<Longrightarrow> starts_with ''/'' path"
proof -
  assume "path_below r path s"
  then obtain ident where i: "ascii_lower ident = ascii_lower (identity_path r)"
    "path = ident @ ''.git/info/lfs'' @ s" by (auto simp: path_below_def eq_ignore_case_def)
  then have "\<exists>t. ascii_lower ident = CHR ''/'' # t" by (simp add: identity_path_def)
  then have "\<exists>t. ident = CHR ''/'' # t" by (cases ident) (auto simp: ascii_lower_def)
  then show ?thesis using i(2) by (auto simp: starts_with_def)
qed

lemma resolve_path_answer:
  assumes "config_ok L cfg" "r \<in> set (cfg_repositories cfg)" "path_below r path s" "below_suffix s"
  shows "resolve_path (route_resolver_new cfg) path = route_answer r s"
proof -
  obtain rs where rs: "set rs = set (cfg_repositories cfg)"
    "route_resolver_new cfg = map (configured_route cfg) rs"
    using route_resolver_new_map by blast
  have "resolve_routes (map (configured_route cfg) rs) path = route_answer r s"
  proof (rule resolve_routes_found)
    show "\<forall>r \<in> set rs. repository_mapping_is_case_insensitive cfg r"
      using resolver_insensitive [OF assms(1)] rs(1) by simp
    show "\<forall>r' \<in> set rs. \<forall>s'. path_below r' path s' \<and> below_suffix s' \<longrightarrow> r' = r \<and> s' = s"
      using routes_unique [OF assms(1,2) _ assms(3,4)] rs(1) by blast
  qed (use assms rs in auto)
  then show ?thesis
    using path_below_starts [OF assms(3)] rs(2) by (simp add: resolve_path_def)
qed

section \<open>Properties\<close>

text \<open>
  C28: for a loaded configuration, \<open>resolve_path\<close> answers every path that lies below a configured
  repository route (identity in any case) with that repository and the endpoint its suffix names,
  whatever other repositories are configured and in whichever order; every other absolute path is
  \<open>RouteNotConfigured\<close>.
\<close>

theorem resolve_path_spec:
  assumes "config_ok L cfg" "starts_with ''/'' path"
  shows "(\<forall>r \<in> set (cfg_repositories cfg). \<forall>s. path_below r path s \<and> below_suffix s \<longrightarrow>
            resolve_path (route_resolver_new cfg) path = route_answer r s)
       \<and> ((\<forall>r \<in> set (cfg_repositories cfg). \<forall>s. \<not> (path_below r path s \<and> below_suffix s)) \<longrightarrow>
            resolve_path (route_resolver_new cfg) path = Inl (SvRouteNotConfigured path))"
proof (intro conjI ballI allI impI)
  fix r s assume "r \<in> set (cfg_repositories cfg)" "path_below r path s \<and> below_suffix s"
  then show "resolve_path (route_resolver_new cfg) path = route_answer r s"
    using resolve_path_answer [OF assms(1)] by blast
next
  assume none: "\<forall>r \<in> set (cfg_repositories cfg). \<forall>s. \<not> (path_below r path s \<and> below_suffix s)"
  obtain rs where rs: "set rs = set (cfg_repositories cfg)"
    "route_resolver_new cfg = map (configured_route cfg) rs"
    using route_resolver_new_map by blast
  then show "resolve_path (route_resolver_new cfg) path = Inl (SvRouteNotConfigured path)"
    using resolve_routes_none [of rs cfg path] none resolver_insensitive [OF assms(1)] assms(2)
    by (simp add: resolve_path_def)
qed

lemma sample_path_below:
  "path_below (sample_mapping ''a'' ''repo'') ''/GitHub.com/Owner/REPO.git/info/lfs/objects/batch'' ''/objects/batch''"
  unfolding path_below_def
  by (rule exI [of _ "''/GitHub.com/Owner/REPO''"])
    (simp add: identity_path_def sample_mapping_def eq_ignore_case_def ascii_lower_def lower_char_def
      is_upper_def char_of_eq byte_def)

theorem resolve_path_spec_witness:
  "resolve_path (route_resolver_new sample_config) ''/GitHub.com/Owner/REPO.git/info/lfs/objects/batch''
     = Inr \<lparr>rt_repository = sample_mapping ''a'' ''repo'', rt_endpoint = EpBatch\<rparr>"
proof -
  have "sample_mapping ''a'' ''repo'' \<in> set (cfg_repositories sample_config)"
    by (simp add: sample_config_def)
  moreover have "below_suffix ''/objects/batch''"
    by (simp add: below_suffix_def suffix_ok_def is_continuation_def byte_def)
  ultimately have "resolve_path (route_resolver_new sample_config) ''/GitHub.com/Owner/REPO.git/info/lfs/objects/batch''
      = route_answer (sample_mapping ''a'' ''repo'') ''/objects/batch''"
    using resolve_path_spec [OF sample_config_ok, of "''/GitHub.com/Owner/REPO.git/info/lfs/objects/batch''"]
      sample_path_below
    by (simp add: starts_with_def)
  then show ?thesis by (simp add: route_answer_def parse_lfs_route_endpoint_def)
qed

lemma route_path_tail:
  assumes "mapping_ok r"
  shows "trim_matches CHR ''/'' (route_path r) = tl (route_path r)"
proof -
  have "rm_host r \<noteq> []"
    using assms by (auto simp: mapping_ok_def host_label_ok_def)
  then have "hd (rm_host r) \<noteq> CHR ''/''"
    using mapping_no_slash [OF assms] hd_in_set by metis
  then have "trim_start_matches CHR ''/'' (route_path r) = tl (route_path r)"
    using \<open>rm_host r \<noteq> []\<close> by (cases "rm_host r") (simp_all add: trim_start_matches_def route_path_def)
  moreover have "trim_end_matches CHR ''/'' (tl (route_path r)) = tl (route_path r)"
    by (rule trim_end_matches_id) (simp add: route_path_def)
  ultimately show ?thesis by (simp add: trim_matches_def)
qed

lemma parse_object_endpoint:
  "oid_ok x \<Longrightarrow> parse_lfs_route_endpoint (''objects/'' @ as_hex x) = Inr (EpObject x)"
proof -
  assume ok: "oid_ok x"
  have "as_hex x \<noteq> ''batch''" using ok by (auto simp: oid_ok_def SHA256_HEX_LENGTH_def)
  moreover have "\<not> is_lower_hex CHR ''/''" by (simp add: is_lower_hex_def is_digit_def byte_def)
  ultimately show ?thesis
    using ok oid_hex_avoids [OF ok] oid_ok_not_Nil [OF ok]
    by (auto simp: parse_lfs_route_endpoint_def lfs_oid_new_hex split: option.splits)
qed



end
