(* ===== verification/Providers.thy ===== *)
theory Providers
  imports Lfs_Batch
begin

text \<open>
  The data exchanged with repository and storage providers (\<open>src/providers.rs\<close>): users,
  authentication, authorization results, and stored objects.
\<close>

record repository_identity =
  ri_provider_id :: string
  ri_stable_id :: "string option"
  ri_host :: string
  ri_owner :: string
  ri_name :: string

record repository_user =
  ru_provider_id :: string
  ru_login :: string
  ru_stable_id :: "string option"

record repository_authentication =
  ra_user :: repository_user
  ra_access_token :: string

record repository_authorization =
  rz_user :: repository_user
  rz_repository :: repository_identity
  rz_required :: repository_permission
  rz_granted :: repository_permission

record stored_object =
  so_provider_id :: string
  so_repository_namespace :: string
  so_object :: lfs_object
  so_backend_id :: string

datatype storage_delete_outcome = DelDeleted | DelMarked string | DelRetained string

end
