(* ===== verification/Metadata.thy ===== *)
theory Metadata
  imports Config Providers
begin

text \<open>
  The SQLite metadata database (\<open>src/metadata/\<close>): object rows, transfer attempts, session rows
  and the synchronisation of the configuration into parent rows. A table is the list of its rows;
  statements check the foreign keys, the UNIQUE and the CHECK constraints of the schema.
  \<open>md_fault\<close> is an I/O failure of the database: while it is set every statement fails with it.
\<close>

declare of_nat_unat [simp del]

section \<open>Tables\<close>

record storage_provider_row =
  sp_id :: string
  sp_provider_type :: string
  sp_backend_root_id :: string
  sp_display_name :: "string option"

record mapping_row =
  mr_id :: string
  mr_repo_provider_id :: string
  mr_host :: string
  mr_owner :: string
  mr_name :: string
  mr_storage_provider_id :: string
  mr_route_path :: string
  mr_is_active :: bool

record object_row =
  or_id :: int
  or_repo_id :: string
  or_storage_provider_id :: string
  or_oid :: string
  or_size_bytes :: int
  or_backend_id :: string
  or_created_by :: repository_user
  or_verification_status :: string
  or_created_at :: int
  or_last_verified_at :: "int option"

record transfer_row =
  tr_id :: int
  tr_repo_id :: string
  tr_storage_provider_id :: string
  tr_oid :: string
  tr_size_bytes :: int
  tr_operation :: string
  tr_status :: string
  tr_user_provider_id :: string
  tr_user_login :: string
  tr_backend_id :: "string option"
  tr_error_category :: "string option"
  tr_error_message :: "string option"
  tr_finished_at :: "int option"

record session_row =
  sr_token_sha256 :: string
  sr_provider_id :: string
  sr_login :: string
  sr_stable_id :: "string option"
  sr_granted_scopes_json :: string
  sr_issued_at :: int
  sr_expires_at :: int
  sr_ciphertext :: "string option"
  sr_nonce :: "string option"

record metadata_db =
  md_path :: string
  md_fault :: "string option"
  md_storage_providers :: "storage_provider_row list"
  md_mappings :: "mapping_row list"
  md_objects :: "object_row list"
  md_next_object_id :: int
  md_transfers :: "transfer_row list"
  md_next_transfer_id :: int
  md_sessions :: "session_row list"

definition operation_error :: "metadata_db \<Rightarrow> string \<Rightarrow> server_error" where
  "operation_error db source = SvMetadataOperation (md_path db) source"

text \<open>Running one statement on the locked connection.\<close>

definition run_sql :: "metadata_db \<Rightarrow> 'a server_result \<Rightarrow> 'a server_result" where
  "run_sql db r = (case md_fault db of Some source \<Rightarrow> Inl (operation_error db source) | None \<Rightarrow> r)"

definition FOREIGN_KEY_FAILED :: string where
  "FOREIGN_KEY_FAILED = ''FOREIGN KEY constraint failed''"

definition UNIQUE_FAILED :: string where
  "UNIQUE_FAILED = ''UNIQUE constraint failed''"

definition CHECK_FAILED :: string where
  "CHECK_FAILED = ''CHECK constraint failed''"

definition NO_ROWS :: string where
  "NO_ROWS = ''Query returned no rows''"

definition parents_exist :: "metadata_db \<Rightarrow> string \<Rightarrow> string \<Rightarrow> bool" where
  "parents_exist db repo_id storage_provider_id \<longleftrightarrow>
     list_ex (\<lambda>r. mr_id r = repo_id) (md_mappings db)
     \<and> list_ex (\<lambda>r. sp_id r = storage_provider_id) (md_storage_providers db)"

section \<open>Object records\<close>

datatype verification_status = Verified | Stale | Failed

definition status_as_database_str :: "verification_status \<Rightarrow> string" where
  "status_as_database_str s = (case s of
       Verified \<Rightarrow> ''verified'' | Stale \<Rightarrow> ''stale'' | Failed \<Rightarrow> ''failed'')"

definition status_from_database_str :: "string \<Rightarrow> verification_status option" where
  "status_from_database_str s =
     (if s = ''verified'' then Some Verified
      else if s = ''stale'' then Some Stale
      else if s = ''failed'' then Some Failed
      else None)"

record metadata_object_record =
  mo_id :: int
  mo_repo_id :: string
  mo_storage_provider_id :: string
  mo_object :: lfs_object
  mo_backend_id :: string
  mo_created_by :: repository_user
  mo_created_at :: int
  mo_last_verified_at :: "int option"
  mo_verification_status :: verification_status

definition i64_max :: nat where
  "i64_max = 2 ^ 63 - 1"

definition sqlite_size_bytes :: "lfs_object \<Rightarrow> int server_result" where
  "sqlite_size_bytes object =
     (if unat (obj_size object) \<le> i64_max then Inr (int (unat (obj_size object)))
      else Inl (SvInvalidRequest (''LFS object '' @ as_hex (obj_oid object) @ '' size ''
             @ nat_dec (unat (obj_size object)) @ '' exceeds SQLite metadata integer range'')))"

definition metadata_object_record_from_row :: "object_row \<Rightarrow> string + metadata_object_record" where
  "metadata_object_record_from_row row =
     bind_res (map_err show_lfs_object_error (lfs_oid_new (or_oid row))) (\<lambda>x.
     if or_size_bytes row < 0 then Inl ''invalid metadata object size''
     else bind_res (ok_or ''invalid metadata object verification status''
                      (status_from_database_str (or_verification_status row))) (\<lambda>st.
       Inr \<lparr>mo_id = or_id row, mo_repo_id = or_repo_id row,
            mo_storage_provider_id = or_storage_provider_id row,
            mo_object = LfsObject x (of_int (or_size_bytes row)),
            mo_backend_id = or_backend_id row, mo_created_by = or_created_by row,
            mo_created_at = or_created_at row, mo_last_verified_at = or_last_verified_at row,
            mo_verification_status = st\<rparr>))"

text \<open>\<open>WHERE repo_id = ?1 AND storage_provider_id = ?2 AND oid = ?3 AND size_bytes = ?4\<close>.\<close>

definition row_key_matches :: "string \<Rightarrow> string \<Rightarrow> lfs_object \<Rightarrow> int \<Rightarrow> object_row \<Rightarrow> bool" where
  "row_key_matches repo_id storage_provider_id object size_bytes row \<longleftrightarrow>
     or_repo_id row = repo_id \<and> or_storage_provider_id row = storage_provider_id
     \<and> or_oid row = as_hex (obj_oid object) \<and> or_size_bytes row = size_bytes"

definition lookup_object ::
  "metadata_db \<Rightarrow> string \<Rightarrow> string \<Rightarrow> lfs_object \<Rightarrow> metadata_object_record option server_result" where
  "lookup_object db repo_id storage_provider_id object =
     bind_res (sqlite_size_bytes object) (\<lambda>size_bytes.
       run_sql db (case find (row_key_matches repo_id storage_provider_id object size_bytes) (md_objects db) of
           None \<Rightarrow> Inr None
         | Some row \<Rightarrow> map_err (operation_error db)
                        (map_res Some (metadata_object_record_from_row row))))"

definition mark_object_stale ::
  "metadata_db \<Rightarrow> string \<Rightarrow> string \<Rightarrow> lfs_object \<Rightarrow> string \<Rightarrow> (bool \<times> metadata_db) server_result" where
  "mark_object_stale db repo_id storage_provider_id object expected_backend_id =
     bind_res (sqlite_size_bytes object) (\<lambda>size_bytes.
       let hit = (\<lambda>row. row_key_matches repo_id storage_provider_id object size_bytes row
                          \<and> or_backend_id row = expected_backend_id)
       in run_sql db (Inr (length (filter hit (md_objects db)) = 1,
            db\<lparr>md_objects := map (\<lambda>row. if hit row
                 then row\<lparr>or_verification_status := status_as_database_str Stale,
                          or_last_verified_at := None\<rparr>
                 else row) (md_objects db)\<rparr>)))"

definition record_verified_object ::
  "int \<Rightarrow> metadata_db \<Rightarrow> string \<Rightarrow> string \<Rightarrow> lfs_object \<Rightarrow> string \<Rightarrow> repository_user
     \<Rightarrow> (metadata_object_record \<times> metadata_db) server_result" where
  "record_verified_object now db repo_id storage_provider_id object backend_id creator_if_missing =
     bind_res (sqlite_size_bytes object) (\<lambda>size_bytes.
       let hit = row_key_matches repo_id storage_provider_id object size_bytes in
       run_sql db (case find hit (md_objects db) of
           Some row \<Rightarrow>
             let row' = row\<lparr>or_backend_id := backend_id,
                            or_verification_status := status_as_database_str Verified,
                            or_last_verified_at := Some now\<rparr>
             in map_err (operation_error db) (map_res (\<lambda>r.
                  (r, db\<lparr>md_objects := map (\<lambda>q. if hit q then row' else q) (md_objects db)\<rparr>))
                  (metadata_object_record_from_row row'))
         | None \<Rightarrow>
             if \<not> parents_exist db repo_id storage_provider_id
             then Inl (operation_error db FOREIGN_KEY_FAILED)
             else if length (as_hex (obj_oid object)) \<noteq> 64
             then Inl (operation_error db CHECK_FAILED)
             else let row' = \<lparr>or_id = md_next_object_id db, or_repo_id = repo_id,
                    or_storage_provider_id = storage_provider_id,
                    or_oid = as_hex (obj_oid object), or_size_bytes = size_bytes,
                    or_backend_id = backend_id, or_created_by = creator_if_missing,
                    or_verification_status = status_as_database_str Verified,
                    or_created_at = now, or_last_verified_at = Some now\<rparr>
             in map_err (operation_error db) (map_res (\<lambda>r.
                  (r, db\<lparr>md_objects := md_objects db @ [row'],
                         md_next_object_id := md_next_object_id db + 1\<rparr>))
                  (metadata_object_record_from_row row'))))"

section \<open>Transfer attempts\<close>

datatype transfer_operation = TransferUpload | TransferDownload

definition transfer_operation_str :: "transfer_operation \<Rightarrow> string" where
  "transfer_operation_str x = (case x of TransferUpload \<Rightarrow> ''upload'' | TransferDownload \<Rightarrow> ''download'')"

datatype transfer_result = TransferSucceeded "string option" | TransferFailed error_category string

definition start_transfer_attempt ::
  "metadata_db \<Rightarrow> string \<Rightarrow> string \<Rightarrow> lfs_object \<Rightarrow> transfer_operation \<Rightarrow> repository_user
     \<Rightarrow> (int \<times> metadata_db) server_result" where
  "start_transfer_attempt db repo_id storage_provider_id object operation user =
     bind_res (sqlite_size_bytes object) (\<lambda>size_bytes.
       run_sql db
         (if \<not> parents_exist db repo_id storage_provider_id
          then Inl (operation_error db FOREIGN_KEY_FAILED)
          else if length (as_hex (obj_oid object)) \<noteq> 64
          then Inl (operation_error db CHECK_FAILED)
          else Inr (md_next_transfer_id db,
            db\<lparr>md_transfers := md_transfers db @
                 [\<lparr>tr_id = md_next_transfer_id db, tr_repo_id = repo_id,
                   tr_storage_provider_id = storage_provider_id,
                   tr_oid = as_hex (obj_oid object), tr_size_bytes = size_bytes,
                   tr_operation = transfer_operation_str operation, tr_status = ''started'',
                   tr_user_provider_id = ru_provider_id user, tr_user_login = ru_login user,
                   tr_backend_id = None, tr_error_category = None, tr_error_message = None,
                   tr_finished_at = None\<rparr>],
               md_next_transfer_id := md_next_transfer_id db + 1\<rparr>)))"

definition finish_transfer_attempt ::
  "int \<Rightarrow> metadata_db \<Rightarrow> int \<Rightarrow> transfer_result \<Rightarrow> metadata_db server_result" where
  "finish_transfer_attempt now db attempt_id result =
     (let (status, backend_id, error_category, error_message) = (case result of
            TransferSucceeded b \<Rightarrow> (''succeeded'', b, None, None)
          | TransferFailed category message \<Rightarrow>
              (''failed'', None, Some (show_error_category category), Some message));
          hit = (\<lambda>row. tr_id row = attempt_id \<and> tr_status row = ''started'')
      in run_sql db
           (if \<not> list_ex hit (md_transfers db) then Inl (operation_error db NO_ROWS)
            else Inr (db\<lparr>md_transfers := map (\<lambda>row. if hit row
                   then row\<lparr>tr_status := status, tr_backend_id := backend_id,
                            tr_error_category := error_category,
                            tr_error_message := error_message, tr_finished_at := Some now\<rparr>
                   else row) (md_transfers db)\<rparr>)))"

section \<open>Session rows\<close>

definition load_active_sessions :: "metadata_db \<Rightarrow> int \<Rightarrow> session_row list server_result" where
  "load_active_sessions db now_unix_seconds =
     run_sql db (Inr (filter (\<lambda>r. now_unix_seconds < sr_expires_at r) (md_sessions db)))"

definition record_session :: "metadata_db \<Rightarrow> session_row \<Rightarrow> metadata_db server_result" where
  "record_session db row =
     run_sql db
       (if length (sr_token_sha256 row) \<noteq> 64 then Inl (operation_error db CHECK_FAILED)
        else if list_ex (\<lambda>r. sr_token_sha256 r = sr_token_sha256 row) (md_sessions db)
        then Inr (db\<lparr>md_sessions := map (\<lambda>r. if sr_token_sha256 r = sr_token_sha256 row then row else r)
                        (md_sessions db)\<rparr>)
        else Inr (db\<lparr>md_sessions := md_sessions db @ [row]\<rparr>))"

definition delete_session :: "metadata_db \<Rightarrow> string \<Rightarrow> (bool \<times> metadata_db) server_result" where
  "delete_session db token_sha256 =
     run_sql db (Inr (list_ex (\<lambda>r. sr_token_sha256 r = token_sha256) (md_sessions db),
       db\<lparr>md_sessions := filter (\<lambda>r. sr_token_sha256 r \<noteq> token_sha256) (md_sessions db)\<rparr>))"

definition delete_expired_sessions :: "metadata_db \<Rightarrow> int \<Rightarrow> (nat \<times> metadata_db) server_result" where
  "delete_expired_sessions db now_unix_seconds =
     run_sql db (Inr (length (filter (\<lambda>r. sr_expires_at r \<le> now_unix_seconds) (md_sessions db)),
       db\<lparr>md_sessions := filter (\<lambda>r. now_unix_seconds < sr_expires_at r) (md_sessions db)\<rparr>))"

definition session_count :: "metadata_db \<Rightarrow> nat server_result" where
  "session_count db = run_sql db (Inr (length (md_sessions db)))"

definition delete_all_sessions :: "metadata_db \<Rightarrow> (nat \<times> metadata_db) server_result" where
  "delete_all_sessions db = run_sql db (Inr (length (md_sessions db), db\<lparr>md_sessions := []\<rparr>))"

section \<open>Synchronising the configuration\<close>

definition upsert_storage_provider :: "metadata_db \<Rightarrow> storage_provider_config \<Rightarrow> metadata_db server_result" where
  "upsert_storage_provider db storage = run_sql db (Inr (
     let row = (case storage of GoogleDrive d \<Rightarrow>
           \<lparr>sp_id = gd_id d, sp_provider_type = ''google_drive'',
            sp_backend_root_id = gd_root_folder_id d, sp_display_name = gd_display_name d\<rparr>)
     in if list_ex (\<lambda>r. sp_id r = sp_id row) (md_storage_providers db)
        then db\<lparr>md_storage_providers := map (\<lambda>r. if sp_id r = sp_id row then row else r)
                  (md_storage_providers db)\<rparr>
        else db\<lparr>md_storage_providers := md_storage_providers db @ [row]\<rparr>))"

definition mapping_row_of :: "repository_mapping \<Rightarrow> mapping_row" where
  "mapping_row_of r =
     \<lparr>mr_id = rm_id r, mr_repo_provider_id = rm_repo_provider r, mr_host = rm_host r,
      mr_owner = rm_owner r, mr_name = rm_name r, mr_storage_provider_id = rm_storage_provider r,
      mr_route_path = route_path r, mr_is_active = True\<rparr>"

definition upsert_repository_mapping :: "metadata_db \<Rightarrow> repository_mapping \<Rightarrow> metadata_db server_result" where
  "upsert_repository_mapping db r = run_sql db (let row = mapping_row_of r in
     if \<not> list_ex (\<lambda>q. sp_id q = mr_storage_provider_id row) (md_storage_providers db)
     then Inl (operation_error db FOREIGN_KEY_FAILED)
     else if list_ex (\<lambda>q. mr_id q \<noteq> mr_id row \<and> mr_route_path q = mr_route_path row) (md_mappings db)
     then Inl (operation_error db UNIQUE_FAILED)
     else if list_ex (\<lambda>q. mr_id q = mr_id row) (md_mappings db)
     then Inr (db\<lparr>md_mappings := map (\<lambda>q. if mr_id q = mr_id row then row else q) (md_mappings db)\<rparr>)
     else Inr (db\<lparr>md_mappings := md_mappings db @ [row]\<rparr>))"

definition inactive_route :: "string \<Rightarrow> string" where
  "inactive_route i = ''inactive:'' @ i"

definition release_inactive_repository_routes :: "metadata_db \<Rightarrow> server_config \<Rightarrow> metadata_db server_result" where
  "release_inactive_repository_routes db cfg = run_sql db (Inr (
     let configured_routes = map_of (rev (map (\<lambda>r. (rm_id r, route_path r)) (cfg_repositories cfg)))
     in db\<lparr>md_mappings := map (\<lambda>q.
          if configured_routes (mr_id q) = Some (mr_route_path q) then q
          else q\<lparr>mr_route_path := inactive_route (mr_id q), mr_is_active := False\<rparr>) (md_mappings db)\<rparr>))"

fun fold_res :: "('s \<Rightarrow> 'a \<Rightarrow> 'e + 's) \<Rightarrow> 's \<Rightarrow> 'a list \<Rightarrow> 'e + 's" where
  "fold_res f s [] = Inr s"
| "fold_res f s (x # xs) = bind_res (f s x) (\<lambda>s'. fold_res f s' xs)"

text \<open>The transaction: an error leaves the database as it was.\<close>

definition sync_config :: "metadata_db \<Rightarrow> server_config \<Rightarrow> metadata_db server_result" where
  "sync_config db cfg =
     bind_res (release_inactive_repository_routes db cfg) (\<lambda>db1.
     bind_res (fold_res upsert_storage_provider db1 (map snd (cfg_storage_providers cfg))) (\<lambda>db2.
       fold_res upsert_repository_mapping db2 (cfg_repositories cfg)))"

section \<open>Invariants of the tables\<close>

definition row_key :: "object_row \<Rightarrow> string \<times> string \<times> string \<times> int" where
  "row_key row = (or_repo_id row, or_storage_provider_id row, or_oid row, or_size_bytes row)"

definition object_row_ok :: "metadata_db \<Rightarrow> object_row \<Rightarrow> bool" where
  "object_row_ok db row \<longleftrightarrow> oid_ok (LfsOid (or_oid row))
     \<and> 0 \<le> or_size_bytes row \<and> or_size_bytes row \<le> int i64_max
     \<and> status_from_database_str (or_verification_status row) \<noteq> None
     \<and> parents_exist db (or_repo_id row) (or_storage_provider_id row)
     \<and> or_id row < md_next_object_id db"

definition objects_ok :: "metadata_db \<Rightarrow> bool" where
  "objects_ok db \<longleftrightarrow> distinct (map row_key (md_objects db)) \<and> distinct (map or_id (md_objects db))
     \<and> (\<forall>row \<in> set (md_objects db). object_row_ok db row)"

definition mappings_ok :: "metadata_db \<Rightarrow> bool" where
  "mappings_ok db \<longleftrightarrow> distinct (map mr_id (md_mappings db))
     \<and> distinct (map mr_route_path (md_mappings db))
     \<and> distinct (map sp_id (md_storage_providers db))
     \<and> (\<forall>row \<in> set (md_mappings db). \<exists>q \<in> set (md_storage_providers db). sp_id q = mr_storage_provider_id row)"

definition transfers_ok :: "metadata_db \<Rightarrow> bool" where
  "transfers_ok db \<longleftrightarrow> distinct (map tr_id (md_transfers db))
     \<and> (\<forall>row \<in> set (md_transfers db). tr_id row < md_next_transfer_id db
          \<and> tr_status row \<in> {''started'', ''succeeded'', ''failed''}
          \<and> (tr_status row = ''started'' \<longleftrightarrow> tr_finished_at row = None)
          \<and> (tr_status row = ''succeeded'' \<longrightarrow> tr_error_category row = None \<and> tr_error_message row = None)
          \<and> (tr_status row = ''failed'' \<longrightarrow> tr_backend_id row = None))"

lemma run_sql_Inr [simp]: "run_sql db r = Inr x \<longleftrightarrow> md_fault db = None \<and> r = Inr x"
  by (simp add: run_sql_def split: option.splits)

lemma sqlite_size_bytes_Inr:
  "sqlite_size_bytes object = Inr n \<longleftrightarrow>
     unat (obj_size object) \<le> i64_max \<and> n = int (unat (obj_size object))"
  by (auto simp: sqlite_size_bytes_def)

lemma row_key_matches_iff:
  "row_key_matches r sp object n row \<longleftrightarrow> row_key row = (r, sp, as_hex (obj_oid object), n)"
  by (auto simp: row_key_matches_def row_key_def)

lemma row_key_matches_fun:
  "row_key_matches r sp object n = (\<lambda>row. row_key row = (r, sp, as_hex (obj_oid object), n))"
  by (rule ext) (rule row_key_matches_iff)

lemma find_key:
  "distinct (map f xs) \<Longrightarrow> find (\<lambda>q. f q = k) xs = Some x \<longleftrightarrow> x \<in> set xs \<and> f x = k"
  by (induction xs) (auto simp: rev_image_eqI)

lemma find_key_None: "find (\<lambda>q. f q = k) xs = None \<longleftrightarrow> k \<notin> f ` set xs"
  by (auto simp: find_None_iff)

lemma status_roundtrip [simp]: "status_from_database_str (status_as_database_str s) = Some s"
  by (cases s) (simp_all add: status_from_database_str_def status_as_database_str_def)

text \<open>Rows that satisfy the invariant decode.\<close>

lemma decode_row:
  assumes "object_row_ok db row"
  shows "\<exists>s. metadata_object_record_from_row row =
    Inr \<lparr>mo_id = or_id row, mo_repo_id = or_repo_id row,
      mo_storage_provider_id = or_storage_provider_id row,
      mo_object = LfsObject (LfsOid (or_oid row)) (of_int (or_size_bytes row)),
      mo_backend_id = or_backend_id row, mo_created_by = or_created_by row,
      mo_created_at = or_created_at row, mo_last_verified_at = or_last_verified_at row,
      mo_verification_status = s\<rparr> \<and> status_from_database_str (or_verification_status row) = Some s"
proof -
  have "lfs_oid_new (or_oid row) = Inr (LfsOid (or_oid row))"
    using assms lfs_oid_new_hex [of "LfsOid (or_oid row)"] by (simp add: object_row_ok_def)
  then show ?thesis
    using assms by (auto simp: metadata_object_record_from_row_def object_row_ok_def)
qed

lemma parents_exist_cong:
  "md_mappings db' = md_mappings db \<Longrightarrow> md_storage_providers db' = md_storage_providers db \<Longrightarrow>
     parents_exist db' r sp = parents_exist db r sp"
  by (simp add: parents_exist_def)

section \<open>The object index as an interface\<close>

text \<open>
  What the transfer code relies on: a lookup by identity, recording a verified backend, and
  marking a backend stale if it is still the recorded one.
\<close>

locale object_index =
  fixes ok :: "'s \<Rightarrow> bool"
    and valid :: "'k \<Rightarrow> bool"
    and look :: "'s \<Rightarrow> 'k \<Rightarrow> (string \<times> bool) option"
    and put :: "'s \<Rightarrow> 'k \<Rightarrow> string \<Rightarrow> 's option"
    and stale :: "'s \<Rightarrow> 'k \<Rightarrow> string \<Rightarrow> 's"
  assumes put_ok: "ok s \<Longrightarrow> valid k \<Longrightarrow> put s k b = Some s' \<Longrightarrow> ok s'"
    and look_put: "ok s \<Longrightarrow> valid k \<Longrightarrow> put s k b = Some s' \<Longrightarrow> look s' = (look s)(k \<mapsto> (b, True))"
    and stale_ok: "ok s \<Longrightarrow> ok (stale s k b)"
    and look_stale: "ok s \<Longrightarrow> look (stale s k b) =
      (look s)(k := map_option (\<lambda>(b', v). (b', v \<and> b' \<noteq> b)) (look s k))"
begin

lemma stale_other_backend:
  "ok s \<Longrightarrow> look s k = Some (b, v) \<Longrightarrow> b \<noteq> b' \<Longrightarrow> look (stale s k b') = look s"
  by (auto simp: look_stale)

lemma stale_sequence:
  "ok t \<Longrightarrow> look t k = Some (b, v) \<Longrightarrow>
     ok (foldl (\<lambda>t b'. stale t k b') t bs)
     \<and> look (foldl (\<lambda>t b'. stale t k b') t bs) k = Some (b, v \<and> b \<notin> set bs)"
proof (induction bs arbitrary: t v)
  case (Cons a bs)
  have "look (stale t k a) k = Some (b, v \<and> b \<noteq> a)"
    using Cons.prems by (simp add: look_stale)
  then show ?case
    using Cons.IH [OF stale_ok [OF Cons.prems(1)]] by auto
qed simp

lemma stale_keeps_new_upload:
  "ok s \<Longrightarrow> valid k \<Longrightarrow> put s k b = Some s' \<Longrightarrow>
     look (foldl (\<lambda>t b'. stale t k b') s' bs) k = Some (b, b \<notin> set bs)"
  using stale_sequence [of s' k b True bs] put_ok look_put by simp

end

type_synonym index_key = "string \<times> string \<times> lfs_object"

definition index_look :: "metadata_db \<Rightarrow> index_key \<Rightarrow> (string \<times> bool) option" where
  "index_look db k = (case k of (r, sp, object) \<Rightarrow>
     (case lookup_object db r sp object of
        Inr (Some record) \<Rightarrow> Some (mo_backend_id record, mo_verification_status record = Verified)
      | _ \<Rightarrow> None))"

definition index_put :: "int \<Rightarrow> repository_user \<Rightarrow> metadata_db \<Rightarrow> index_key \<Rightarrow> string \<Rightarrow> metadata_db option" where
  "index_put now user db k b = (case k of (r, sp, object) \<Rightarrow>
     (case record_verified_object now db r sp object b user of
        Inr (_, db') \<Rightarrow> Some db' | Inl _ \<Rightarrow> None))"

definition index_stale :: "metadata_db \<Rightarrow> index_key \<Rightarrow> string \<Rightarrow> metadata_db" where
  "index_stale db k b = (case k of (r, sp, object) \<Rightarrow>
     (case mark_object_stale db r sp object b of Inr (_, db') \<Rightarrow> db' | Inl _ \<Rightarrow> db))"

lemma find_map_keep:
  "(\<And>q. row_key (g q) = row_key q) \<Longrightarrow>
     find (\<lambda>q. row_key q = k) (map g xs) = map_option g (find (\<lambda>q. row_key q = k) xs)"
  by (induction xs) auto

lemma index_look_eq:
  assumes "objects_ok db"
  shows "index_look db (r, sp, object) =
    (if md_fault db \<noteq> None \<or> i64_max < unat (obj_size object) then None
     else map_option (\<lambda>row. (or_backend_id row, or_verification_status row = ''verified''))
       (find (\<lambda>row. row_key row = (r, sp, as_hex (obj_oid object), int (unat (obj_size object)))) (md_objects db)))"
proof (cases "md_fault db \<noteq> None \<or> i64_max < unat (obj_size object)")
  case True
  then show ?thesis
    by (auto simp: index_look_def lookup_object_def sqlite_size_bytes_def run_sql_def)
next
  case False
  let ?f = "find (\<lambda>row. row_key row = (r, sp, as_hex (obj_oid object), int (unat (obj_size object)))) (md_objects db)"
  have size: "sqlite_size_bytes object = Inr (int (unat (obj_size object)))"
    using False by (simp add: sqlite_size_bytes_def)
  show ?thesis
  proof (cases ?f)
    case None
    then show ?thesis
      using False by (simp add: index_look_def lookup_object_def size run_sql_def row_key_matches_fun)
  next
    case (Some row)
    then have "object_row_ok db row"
      using assms find_SomeD by (fastforce simp: objects_ok_def)
    then obtain st where "metadata_object_record_from_row row =
        Inr \<lparr>mo_id = or_id row, mo_repo_id = or_repo_id row,
          mo_storage_provider_id = or_storage_provider_id row,
          mo_object = LfsObject (LfsOid (or_oid row)) (of_int (or_size_bytes row)),
          mo_backend_id = or_backend_id row, mo_created_by = or_created_by row,
          mo_created_at = or_created_at row, mo_last_verified_at = or_last_verified_at row,
          mo_verification_status = st\<rparr>"
      "status_from_database_str (or_verification_status row) = Some st"
      using decode_row by blast
    then show ?thesis
      using False Some
      by (auto simp: index_look_def lookup_object_def size run_sql_def row_key_matches_fun
          status_from_database_str_def split: if_splits)
  qed
qed

lemma index_put_Some:
  assumes "index_put now user db (r, sp, object) b = Some db'"
  shows "md_fault db = None \<and> unat (obj_size object) \<le> i64_max
    \<and> (let k = (r, sp, as_hex (obj_oid object), int (unat (obj_size object))) in
       (\<exists>row. find (\<lambda>q. row_key q = k) (md_objects db) = Some row
          \<and> db' = db\<lparr>md_objects := map (\<lambda>q. if row_key q = k then
                row\<lparr>or_backend_id := b, or_verification_status := ''verified'', or_last_verified_at := Some now\<rparr>
              else q) (md_objects db)\<rparr>)
     \<or> (find (\<lambda>q. row_key q = k) (md_objects db) = None \<and> parents_exist db r sp
          \<and> db' = db\<lparr>md_objects := md_objects db @
              [\<lparr>or_id = md_next_object_id db, or_repo_id = r, or_storage_provider_id = sp,
                or_oid = as_hex (obj_oid object), or_size_bytes = int (unat (obj_size object)),
                or_backend_id = b, or_created_by = user, or_verification_status = ''verified'',
                or_created_at = now, or_last_verified_at = Some now\<rparr>],
              md_next_object_id := md_next_object_id db + 1\<rparr>))"
  using assms
  by (auto simp: index_put_def record_verified_object_def sqlite_size_bytes_Inr row_key_matches_fun
      status_as_database_str_def Let_def split: sum.splits option.splits if_splits)

lemma object_row_ok_cong:
  "md_mappings db' = md_mappings db \<Longrightarrow> md_storage_providers db' = md_storage_providers db \<Longrightarrow>
   md_next_object_id db \<le> md_next_object_id db' \<Longrightarrow> object_row_ok db row \<Longrightarrow> object_row_ok db' row"
  by (auto simp: object_row_ok_def parents_exist_def)

lemma distinct_map_keep:
  "(\<And>q. f (g q) = f q) \<Longrightarrow> distinct (map f (map g xs)) = distinct (map f xs)"
  by (simp add: comp_def)

lemma objects_ok_update:
  assumes "objects_ok db" "\<And>q. q \<in> set (md_objects db) \<Longrightarrow> row_key (g q) = row_key q \<and> or_id (g q) = or_id q
      \<and> status_from_database_str (or_verification_status (g q)) \<noteq> None"
  shows "objects_ok (db\<lparr>md_objects := map g (md_objects db)\<rparr>)"
proof -
  have "map row_key (map g (md_objects db)) = map row_key (md_objects db)"
    "map or_id (map g (md_objects db)) = map or_id (md_objects db)"
    using assms(2) by simp_all
  moreover have "object_row_ok (db\<lparr>md_objects := map g (md_objects db)\<rparr>) (g q)" if "q \<in> set (md_objects db)" for q
  proof -
    have "object_row_ok db q" using assms(1) that by (simp add: objects_ok_def)
    then show ?thesis
      using assms(2) [OF that] by (auto simp: object_row_ok_def row_key_def parents_exist_def)
  qed
  ultimately show ?thesis using assms(1) by (auto simp: objects_ok_def simp del: map_map)
qed

definition valid_key :: "index_key \<Rightarrow> bool" where
  "valid_key k = (case k of (r, sp, object) \<Rightarrow> oid_ok (obj_oid object))"

lemma objects_ok_insert:
  assumes "objects_ok db" "oid_ok (obj_oid object)" "parents_exist db r sp"
    "unat (obj_size object) \<le> i64_max"
    "(r, sp, as_hex (obj_oid object), int (unat (obj_size object))) \<notin> row_key ` set (md_objects db)"
  shows "objects_ok (db\<lparr>md_objects := md_objects db @
      [\<lparr>or_id = md_next_object_id db, or_repo_id = r, or_storage_provider_id = sp,
        or_oid = as_hex (obj_oid object), or_size_bytes = int (unat (obj_size object)),
        or_backend_id = b, or_created_by = user, or_verification_status = ''verified'',
        or_created_at = now, or_last_verified_at = Some now\<rparr>],
      md_next_object_id := md_next_object_id db + 1\<rparr>)" (is "objects_ok ?db'")
proof -
  have "\<forall>row \<in> set (md_objects db). object_row_ok ?db' row"
    using assms(1) by (auto simp: objects_ok_def intro: object_row_ok_cong)
  moreover have "\<forall>row \<in> set (md_objects db). or_id row < md_next_object_id db"
    using assms(1) by (simp add: objects_ok_def object_row_ok_def)
  ultimately show ?thesis
    using assms
    by (auto simp: objects_ok_def object_row_ok_def parents_exist_def row_key_def
        status_from_database_str_def)
qed

lemma index_put_ok:
  assumes "objects_ok db" "valid_key k" "index_put now user db k b = Some db'"
  shows "objects_ok db'"
proof -
  obtain r sp object where k: "k = (r, sp, object)" by (cases k) auto
  let ?k = "(r, sp, as_hex (obj_oid object), int (unat (obj_size object)))"
  have inj: "q = row" if "row \<in> set (md_objects db)" "q \<in> set (md_objects db)" "row_key q = row_key row" for q row
    using assms(1) that by (auto simp: objects_ok_def distinct_map dest: inj_onD)
  from index_put_Some [OF assms(3) [unfolded k]] show ?thesis
  proof (unfold Let_def, elim conjE disjE exE)
    fix row assume f: "find (\<lambda>q. row_key q = ?k) (md_objects db) = Some row"
      and db': "db' = db\<lparr>md_objects := map (\<lambda>q. if row_key q = ?k then
                row\<lparr>or_backend_id := b, or_verification_status := ''verified'', or_last_verified_at := Some now\<rparr>
              else q) (md_objects db)\<rparr>"
    have row: "row \<in> set (md_objects db)" "row_key row = ?k" using find_SomeD [OF f] by auto
    show "objects_ok db'" unfolding db'
    proof (rule objects_ok_update [OF assms(1)])
      fix q assume q: "q \<in> set (md_objects db)"
      then have "status_from_database_str (or_verification_status q) \<noteq> None"
        using assms(1) by (simp add: objects_ok_def object_row_ok_def)
      then show "row_key (if row_key q = ?k then
                row\<lparr>or_backend_id := b, or_verification_status := ''verified'', or_last_verified_at := Some now\<rparr>
              else q) = row_key q \<and> or_id (if row_key q = ?k then
                row\<lparr>or_backend_id := b, or_verification_status := ''verified'', or_last_verified_at := Some now\<rparr>
              else q) = or_id q \<and> status_from_database_str (or_verification_status (if row_key q = ?k then
                row\<lparr>or_backend_id := b, or_verification_status := ''verified'', or_last_verified_at := Some now\<rparr>
              else q)) \<noteq> None"
        using inj [OF row(1) q] row(2) by (simp add: row_key_def status_from_database_str_def)
    qed
  next
    assume "find (\<lambda>q. row_key q = ?k) (md_objects db) = None"
    then have "?k \<notin> row_key ` set (md_objects db)" by (simp add: find_key_None)
    then show "parents_exist db r sp \<Longrightarrow> unat (obj_size object) \<le> i64_max \<Longrightarrow>
        db' = db\<lparr>md_objects := md_objects db @
              [\<lparr>or_id = md_next_object_id db, or_repo_id = r, or_storage_provider_id = sp,
                or_oid = as_hex (obj_oid object), or_size_bytes = int (unat (obj_size object)),
                or_backend_id = b, or_created_by = user, or_verification_status = ''verified'',
                or_created_at = now, or_last_verified_at = Some now\<rparr>],
              md_next_object_id := md_next_object_id db + 1\<rparr> \<Longrightarrow> objects_ok db'"
      using objects_ok_insert [OF assms(1)] assms(2) k by (simp add: valid_key_def)
  qed
qed

lemma key_components:
  "(r, sp, as_hex (obj_oid x), int (unat (obj_size x))) = (r', sp', as_hex (obj_oid y), int (unat (obj_size y)))
     \<longleftrightarrow> r = r' \<and> sp = sp' \<and> x = y"
  by (cases x; cases y) (auto simp: lfs_oid.expand word_unat_eq_iff)

lemma find_append_None:
  "find P xs = None \<Longrightarrow> find P (xs @ ys) = find P ys"
  by (induction xs) (auto split: if_splits)

lemma find_append_Some:
  "find P xs = Some x \<Longrightarrow> find P (xs @ ys) = Some x"
  by (induction xs) (auto split: if_splits)

text \<open>The same on the bare list of rows.\<close>

definition row_view :: "object_row \<Rightarrow> string \<times> bool" where
  "row_view row = (or_backend_id row, or_verification_status row = ''verified'')"

definition look_rows :: "object_row list \<Rightarrow> string \<times> string \<times> string \<times> int \<Rightarrow> (string \<times> bool) option" where
  "look_rows rows K = map_option row_view (find (\<lambda>q. row_key q = K) rows)"

definition db_key :: "index_key \<Rightarrow> string \<times> string \<times> string \<times> int" where
  "db_key k = (case k of (r, sp, object) \<Rightarrow> (r, sp, as_hex (obj_oid object), int (unat (obj_size object))))"

definition representable :: "index_key \<Rightarrow> bool" where
  "representable k = (case k of (r, sp, object) \<Rightarrow> unat (obj_size object) \<le> i64_max)"

lemma db_key_inject [simp]: "db_key k = db_key k' \<longleftrightarrow> k = k'"
  by (cases k; cases k') (simp only: db_key_def prod.case key_components, simp)

lemma index_look_rows:
  "objects_ok db \<Longrightarrow> index_look db k =
     (if md_fault db \<noteq> None \<or> \<not> representable k then None else look_rows (md_objects db) (db_key k))"
  by (cases k) (simp add: index_look_eq look_rows_def row_view_def [abs_def] representable_def db_key_def not_le)

lemma row_key_updates [simp]:
  "row_key (row\<lparr>or_backend_id := b\<rparr>) = row_key row"
  "row_key (row\<lparr>or_verification_status := s, or_last_verified_at := t\<rparr>) = row_key row"
  by (simp_all add: row_key_def)

lemma look_rows_append:
  "find (\<lambda>q. row_key q = K) rows = None \<Longrightarrow> row_key row = K \<Longrightarrow>
     look_rows (rows @ [row]) = (look_rows rows)(K \<mapsto> row_view row)"
proof (rule ext)
  fix K'
  assume "find (\<lambda>q. row_key q = K) rows = None" "row_key row = K"
  then show "look_rows (rows @ [row]) K' = ((look_rows rows)(K \<mapsto> row_view row)) K'"
    by (cases "find (\<lambda>q. row_key q = K') rows")
      (auto simp: look_rows_def find_append_None find_append_Some)
qed

lemma look_rows_map:
  assumes "\<And>q. row_key (g q) = row_key q" "\<And>q. row_key q \<noteq> K \<Longrightarrow> g q = q"
  shows "look_rows (map g rows) =
    (look_rows rows)(K := map_option (row_view \<circ> g) (find (\<lambda>q. row_key q = K) rows))"
proof (rule ext)
  fix K'
  have m: "find (\<lambda>q. row_key q = K') (map g rows) = map_option g (find (\<lambda>q. row_key q = K') rows)"
    by (rule find_map_keep) (rule assms(1))
  show "look_rows (map g rows) K' =
    ((look_rows rows)(K := map_option (row_view \<circ> g) (find (\<lambda>q. row_key q = K) rows))) K'"
  proof (cases "K' = K")
    case True
    then show ?thesis using m by (simp add: look_rows_def option.map_comp)
  next
    case False
    have "map_option g (find (\<lambda>q. row_key q = K') rows) = find (\<lambda>q. row_key q = K') rows"
    proof (cases "find (\<lambda>q. row_key q = K') rows")
      case (Some q)
      then have "row_key q = K'" using find_SomeD by fast
      then show ?thesis using Some False assms(2) by simp
    qed simp
    then show ?thesis using m False by (simp add: look_rows_def)
  qed
qed

lemma index_look_put:
  assumes "objects_ok db" "valid_key k" "index_put now user db k b = Some db'"
  shows "index_look db' = (index_look db)(k \<mapsto> (b, True))"
proof -
  obtain r sp object where k: "k = (r, sp, object)" by (cases k) auto
  have K: "db_key k = (r, sp, as_hex (obj_oid object), int (unat (obj_size object)))"
    by (simp add: db_key_def k)
  have ok': "objects_ok db'" by (rule index_put_ok [OF assms])
  note P = index_put_Some [OF assms(3) [unfolded k], folded K, unfolded Let_def]
  from P have fault: "md_fault db = None" "representable k" "md_fault db' = None"
    by (auto simp: representable_def k)
  have "look_rows (md_objects db') = (look_rows (md_objects db))(db_key k \<mapsto> (b, True))"
    using P
  proof (elim conjE disjE exE)
    fix row assume f: "find (\<lambda>q. row_key q = db_key k) (md_objects db) = Some row"
      and db': "db' = db\<lparr>md_objects := map (\<lambda>q. if row_key q = db_key k then
                row\<lparr>or_backend_id := b, or_verification_status := ''verified'', or_last_verified_at := Some now\<rparr>
              else q) (md_objects db)\<rparr>"
    let ?g = "\<lambda>q. if row_key q = db_key k then
                row\<lparr>or_backend_id := b, or_verification_status := ''verified'', or_last_verified_at := Some now\<rparr>
              else q"
    have row: "row_key row = db_key k" using find_SomeD [OF f] by auto
    have "look_rows (map ?g (md_objects db)) = (look_rows (md_objects db))
        (db_key k := map_option (row_view \<circ> ?g) (find (\<lambda>q. row_key q = db_key k) (md_objects db)))"
      using row by (intro look_rows_map) auto
    then show ?thesis unfolding db' using f row by (simp add: row_view_def)
  next
    assume f: "find (\<lambda>q. row_key q = db_key k) (md_objects db) = None"
      and db': "db' = db\<lparr>md_objects := md_objects db @
              [\<lparr>or_id = md_next_object_id db, or_repo_id = r, or_storage_provider_id = sp,
                or_oid = as_hex (obj_oid object), or_size_bytes = int (unat (obj_size object)),
                or_backend_id = b, or_created_by = user, or_verification_status = ''verified'',
                or_created_at = now, or_last_verified_at = Some now\<rparr>],
              md_next_object_id := md_next_object_id db + 1\<rparr>"
    show ?thesis
      unfolding db' using look_rows_append [OF f] by (simp add: row_key_def K row_view_def)
  qed
  then show ?thesis
    using fault by (intro ext) (simp add: index_look_rows [OF ok'] index_look_rows [OF assms(1)])
qed

lemma index_stale_cases:
  "index_stale db (r, sp, object) b =
    (if md_fault db \<noteq> None \<or> i64_max < unat (obj_size object) then db
     else db\<lparr>md_objects := map (\<lambda>row.
        if row_key row = (r, sp, as_hex (obj_oid object), int (unat (obj_size object))) \<and> or_backend_id row = b
        then row\<lparr>or_verification_status := ''stale'', or_last_verified_at := None\<rparr> else row) (md_objects db)\<rparr>)"
  by (simp add: index_stale_def mark_object_stale_def sqlite_size_bytes_def run_sql_def Let_def
      row_key_matches_iff status_as_database_str_def split: option.splits)

lemma index_stale_ok: "objects_ok db \<Longrightarrow> objects_ok (index_stale db k b)"
proof -
  assume ok: "objects_ok db"
  obtain r sp object where k: "k = (r, sp, object)" by (cases k) auto
  have "status_from_database_str (or_verification_status q) \<noteq> None" if "q \<in> set (md_objects db)" for q
    using ok that by (simp add: objects_ok_def object_row_ok_def)
  moreover have "status_from_database_str ''stale'' \<noteq> None"
    by (simp add: status_from_database_str_def)
  ultimately show ?thesis
    using ok unfolding k index_stale_cases by (auto intro!: objects_ok_update simp: row_key_def)
qed

lemma index_look_stale:
  assumes "objects_ok db"
  shows "index_look (index_stale db k b) =
    (index_look db)(k := map_option (\<lambda>(b', v). (b', v \<and> b' \<noteq> b)) (index_look db k))"
proof -
  obtain r sp object where k: "k = (r, sp, object)" by (cases k) auto
  have K: "db_key k = (r, sp, as_hex (obj_oid object), int (unat (obj_size object)))"
    by (simp add: db_key_def k)
  let ?g = "\<lambda>row. if row_key row = db_key k \<and> or_backend_id row = b
        then row\<lparr>or_verification_status := ''stale'', or_last_verified_at := None\<rparr> else row"
  have ok': "objects_ok (index_stale db k b)" by (rule index_stale_ok [OF assms])
  show ?thesis
  proof (cases "md_fault db \<noteq> None \<or> \<not> representable k")
    case True
    then have "index_stale db k b = db" "index_look db k = None"
      by (auto simp: k index_stale_cases representable_def index_look_rows [OF assms])
    then show ?thesis by (simp add: fun_upd_idem)
  next
    case False
    then have st: "index_stale db k b = db\<lparr>md_objects := map ?g (md_objects db)\<rparr>"
      unfolding K by (simp add: k index_stale_cases representable_def)
    have "look_rows (map ?g (md_objects db)) = (look_rows (md_objects db))
        (db_key k := map_option (row_view \<circ> ?g) (find (\<lambda>q. row_key q = db_key k) (md_objects db)))"
      by (rule look_rows_map) auto
    moreover have "map_option (row_view \<circ> ?g) (find (\<lambda>q. row_key q = db_key k) (md_objects db)) =
        map_option (\<lambda>(b', v). (b', v \<and> b' \<noteq> b)) (look_rows (md_objects db) (db_key k))"
    proof (cases "find (\<lambda>q. row_key q = db_key k) (md_objects db)")
      case (Some row)
      then have "row_key row = db_key k" using find_SomeD by fast
      then show ?thesis using Some by (simp add: look_rows_def row_view_def)
    qed (simp add: look_rows_def)
    ultimately show ?thesis
      using False by (intro ext) (simp add: st index_look_rows [OF ok', unfolded st] index_look_rows [OF assms])
  qed
qed

interpretation ix: object_index objects_ok valid_key index_look "index_put now user" index_stale
  for now user
  by unfold_locales (auto intro: index_put_ok index_stale_ok index_look_put simp: index_look_stale)

section \<open>Synchronisation\<close>

text \<open>The mapping rows while the upserts of \<open>sync_config\<close> run: \<open>done\<close> are the repositories
  already written, \<open>todo\<close> the remaining ones.\<close>

definition sync_inv :: "repository_mapping list \<Rightarrow> repository_mapping list \<Rightarrow> mapping_row list \<Rightarrow> bool" where
  "sync_inv done todo M \<longleftrightarrow> distinct (map mr_id M)
     \<and> mapping_row_of ` set done \<subseteq> set M
     \<and> (\<forall>q \<in> set M. q \<in> mapping_row_of ` set done
          \<or> (mr_route_path q = inactive_route (mr_id q) \<and> \<not> mr_is_active q)
          \<or> (\<exists>r \<in> set todo. mr_id q = rm_id r \<and> mr_route_path q = route_path r))"

lemma route_not_inactive [simp]: "route_path r \<noteq> inactive_route i" "inactive_route i \<noteq> route_path r"
  by (simp_all add: route_path_def inactive_route_def)

lemma mapping_row_of_simps [simp]:
  "mr_id (mapping_row_of r) = rm_id r" "mr_route_path (mapping_row_of r) = route_path r"
  "mr_is_active (mapping_row_of r)" "mr_storage_provider_id (mapping_row_of r) = rm_storage_provider r"
  by (simp_all add: mapping_row_of_def)

lemma upsert_mapping_step:
  assumes inv: "sync_inv done (r # todo) (md_mappings db)"
    and ids: "distinct (map rm_id (done @ r # todo))"
    and routes: "distinct (map route_path (done @ r # todo))"
    and fault: "md_fault db = None"
    and sp: "\<exists>q \<in> set (md_storage_providers db). sp_id q = rm_storage_provider r"
  shows "\<exists>M. upsert_repository_mapping db r = Inr (db\<lparr>md_mappings := M\<rparr>)
    \<and> sync_inv (done @ [r]) todo M \<and> mr_id ` set (md_mappings db) \<subseteq> mr_id ` set M"
proof -
  have no_clash: "\<not> list_ex (\<lambda>q. mr_id q \<noteq> rm_id r \<and> mr_route_path q = route_path r) (md_mappings db)"
  proof
    assume "list_ex (\<lambda>q. mr_id q \<noteq> rm_id r \<and> mr_route_path q = route_path r) (md_mappings db)"
    then obtain q where q: "q \<in> set (md_mappings db)" "mr_id q \<noteq> rm_id r" "mr_route_path q = route_path r"
      by (auto simp: list_ex_iff)
    then consider "q \<in> mapping_row_of ` set done" | "mr_route_path q = inactive_route (mr_id q)"
      | "\<exists>r' \<in> set (r # todo). mr_id q = rm_id r' \<and> mr_route_path q = route_path r'"
      using inv unfolding sync_inv_def by blast
    then show False
      using q routes by cases (auto simp: image_iff)
  qed
  let ?row = "mapping_row_of r"
  have not_done: "rm_id r \<notin> rm_id ` set done" using ids by auto
  show ?thesis
  proof (cases "list_ex (\<lambda>q. mr_id q = rm_id r) (md_mappings db)")
    case True
    let ?M = "map (\<lambda>q. if mr_id q = rm_id r then ?row else q) (md_mappings db)"
    have "upsert_repository_mapping db r = Inr (db\<lparr>md_mappings := ?M\<rparr>)"
      using True no_clash fault sp by (auto simp: upsert_repository_mapping_def Let_def run_sql_def list_ex_iff)
    moreover have ids_eq: "map mr_id ?M = map mr_id (md_mappings db)" by (auto intro: map_cong)
    moreover have "sync_inv (done @ [r]) todo ?M"
      unfolding sync_inv_def
    proof (intro conjI)
      show "distinct (map mr_id ?M)" unfolding ids_eq using inv by (simp add: sync_inv_def)
      show "mapping_row_of ` set (done @ [r]) \<subseteq> set ?M"
        using inv True not_done by (auto simp: sync_inv_def list_ex_iff image_iff)
      show "\<forall>q \<in> set ?M. q \<in> mapping_row_of ` set (done @ [r])
          \<or> (mr_route_path q = inactive_route (mr_id q) \<and> \<not> mr_is_active q)
          \<or> (\<exists>r \<in> set todo. mr_id q = rm_id r \<and> mr_route_path q = route_path r)"
        using inv by (auto simp: sync_inv_def)
    qed
    moreover have "mr_id ` set (md_mappings db) \<subseteq> mr_id ` set ?M"
      using ids_eq by (metis list.set_map order_refl)
    ultimately show ?thesis by blast
  next
    case False
    have "upsert_repository_mapping db r = Inr (db\<lparr>md_mappings := md_mappings db @ [?row]\<rparr>)"
      using False no_clash fault sp by (auto simp: upsert_repository_mapping_def Let_def run_sql_def list_ex_iff)
    moreover have "sync_inv (done @ [r]) todo (md_mappings db @ [?row])"
      using inv False by (auto simp: sync_inv_def list_ex_iff)
    ultimately show ?thesis by (intro exI [of _ "md_mappings db @ [?row]"]) auto
  qed
qed

lemma upsert_mappings:
  assumes "sync_inv done todo (md_mappings db)"
    "distinct (map rm_id (done @ todo))" "distinct (map route_path (done @ todo))" "md_fault db = None"
    "\<forall>r \<in> set todo. \<exists>q \<in> set (md_storage_providers db). sp_id q = rm_storage_provider r"
  shows "\<exists>M. fold_res upsert_repository_mapping db todo = Inr (db\<lparr>md_mappings := M\<rparr>)
    \<and> sync_inv (done @ todo) [] M \<and> mr_id ` set (md_mappings db) \<subseteq> mr_id ` set M"
  using assms
proof (induction todo arbitrary: "done" db)
  case Nil
  then show ?case by (intro exI [of _ "md_mappings db"]) simp
next
  case (Cons r todo)
  obtain M where M: "upsert_repository_mapping db r = Inr (db\<lparr>md_mappings := M\<rparr>)"
    "sync_inv (done @ [r]) todo M" "mr_id ` set (md_mappings db) \<subseteq> mr_id ` set M"
    using upsert_mapping_step [OF Cons.prems(1-4)] Cons.prems(5) by auto
  obtain M' where "fold_res upsert_repository_mapping (db\<lparr>md_mappings := M\<rparr>) todo
        = Inr (db\<lparr>md_mappings := M\<rparr>\<lparr>md_mappings := M'\<rparr>)"
    "sync_inv ((done @ [r]) @ todo) [] M'" "mr_id ` set M \<subseteq> mr_id ` set M'"
    using Cons.IH [of "done @ [r]" "db\<lparr>md_mappings := M\<rparr>"] M(2) Cons.prems by auto
  then show ?case using M by (intro exI [of _ M']) auto
qed

lemma upsert_storage_providers:
  assumes "md_fault db = None"
  shows "\<exists>P. fold_res upsert_storage_provider db ss = Inr (db\<lparr>md_storage_providers := P\<rparr>)
    \<and> sp_id ` set P = sp_id ` set (md_storage_providers db) \<union> storage_config_id ` set ss
    \<and> (distinct (map sp_id (md_storage_providers db)) \<longrightarrow> distinct (map sp_id P))"
  using assms
proof (induction ss arbitrary: db)
  case Nil
  then show ?case by (intro exI [of _ "md_storage_providers db"]) simp
next
  case (Cons s ss)
  obtain d where d: "s = GoogleDrive d" by (cases s)
  obtain row where row: "sp_id row = gd_id d"
    "row = \<lparr>sp_id = gd_id d, sp_provider_type = ''google_drive'',
            sp_backend_root_id = gd_root_folder_id d, sp_display_name = gd_display_name d\<rparr>" by simp
  let ?Q = "if list_ex (\<lambda>r. sp_id r = sp_id row) (md_storage_providers db)
        then map (\<lambda>r. if sp_id r = sp_id row then row else r) (md_storage_providers db)
        else md_storage_providers db @ [row]"
  have step: "upsert_storage_provider db s = Inr (db\<lparr>md_storage_providers := ?Q\<rparr>)"
    using Cons.prems by (simp add: upsert_storage_provider_def d run_sql_def row(2))
  have same: "map sp_id (map (\<lambda>r. if sp_id r = sp_id row then row else r) (md_storage_providers db))
      = map sp_id (md_storage_providers db)"
    by (auto intro: map_cong)
  have Q: "sp_id ` set ?Q = insert (gd_id d) (sp_id ` set (md_storage_providers db))
    \<and> (distinct (map sp_id (md_storage_providers db)) \<longrightarrow> distinct (map sp_id ?Q))"
  proof (cases "list_ex (\<lambda>r. sp_id r = sp_id row) (md_storage_providers db)")
    case True
    then have "gd_id d \<in> sp_id ` set (md_storage_providers db)"
      using row(1) by (force simp: list_ex_iff)
    moreover have "map sp_id ?Q = map sp_id (md_storage_providers db)"
      unfolding if_P [OF True] by (rule same)
    moreover from this have "sp_id ` set ?Q = sp_id ` set (md_storage_providers db)"
      unfolding set_map [symmetric] by (rule arg_cong)
    ultimately show ?thesis by (simp only: insert_absorb) simp
  next
    case False
    then show ?thesis using row(1) by (auto simp: list_ex_iff)
  qed
  obtain P where "fold_res upsert_storage_provider (db\<lparr>md_storage_providers := ?Q\<rparr>) ss
        = Inr (db\<lparr>md_storage_providers := ?Q\<rparr>\<lparr>md_storage_providers := P\<rparr>)"
    "sp_id ` set P = sp_id ` set ?Q \<union> storage_config_id ` set ss"
    "distinct (map sp_id ?Q) \<longrightarrow> distinct (map sp_id P)"
    using Cons.IH [of "db\<lparr>md_storage_providers := ?Q\<rparr>"] Cons.prems by auto
  then show ?case
    using step Q by (intro exI [of _ P]) (auto simp: d storage_config_id_def)
qed

definition release_rows :: "server_config \<Rightarrow> mapping_row list \<Rightarrow> mapping_row list" where
  "release_rows cfg M = map (\<lambda>q.
     if map_of (rev (map (\<lambda>r. (rm_id r, route_path r)) (cfg_repositories cfg))) (mr_id q) = Some (mr_route_path q)
     then q else q\<lparr>mr_route_path := inactive_route (mr_id q), mr_is_active := False\<rparr>) M"

lemma release_rows_ids: "map mr_id (release_rows cfg M) = map mr_id M"
  by (auto simp: release_rows_def)

lemma release_rows_inv:
  "distinct (map mr_id M) \<Longrightarrow> sync_inv [] (cfg_repositories cfg) (release_rows cfg M)"
  unfolding sync_inv_def release_rows_ids
  by (auto simp: release_rows_def dest!: map_of_SomeD)

text \<open>The configuration's storage providers, as the providers it was loaded with.\<close>

definition storage_ids_ok :: "server_config \<Rightarrow> bool" where
  "storage_ids_ok cfg \<longleftrightarrow> (\<forall>(i, s) \<in> set (cfg_storage_providers cfg). storage_config_id s = i)"

lemma sync_config_result:
  assumes "references_ok cfg" "storage_ids_ok cfg" "md_fault db = None" "distinct (map mr_id (md_mappings db))"
  shows "\<exists>M P. sync_config db cfg = Inr (db\<lparr>md_storage_providers := P, md_mappings := M\<rparr>)
    \<and> sync_inv (cfg_repositories cfg) [] M
    \<and> mr_id ` set (md_mappings db) \<subseteq> mr_id ` set M
    \<and> sp_id ` set P = sp_id ` set (md_storage_providers db) \<union> fst ` set (cfg_storage_providers cfg)
    \<and> (distinct (map sp_id (md_storage_providers db)) \<longrightarrow> distinct (map sp_id P))"
proof -
  let ?rs = "cfg_repositories cfg" and ?db1 = "db\<lparr>md_mappings := release_rows cfg (md_mappings db)\<rparr>"
  have 1: "release_inactive_repository_routes db cfg = Inr ?db1"
    using assms(3) by (simp add: release_inactive_repository_routes_def run_sql_def release_rows_def)
  have ids: "storage_config_id ` snd ` set (cfg_storage_providers cfg) = fst ` set (cfg_storage_providers cfg)"
    using assms(2) by (force simp: storage_ids_ok_def image_iff)
  obtain P where P: "fold_res upsert_storage_provider ?db1 (map snd (cfg_storage_providers cfg))
        = Inr (?db1\<lparr>md_storage_providers := P\<rparr>)"
    "sp_id ` set P = sp_id ` set (md_storage_providers db) \<union> fst ` set (cfg_storage_providers cfg)"
    "distinct (map sp_id (md_storage_providers db)) \<longrightarrow> distinct (map sp_id P)"
    using upsert_storage_providers [of ?db1 "map snd (cfg_storage_providers cfg)"] assms(3) ids by auto
  let ?db2 = "?db1\<lparr>md_storage_providers := P\<rparr>"
  have sp: "\<forall>r \<in> set ?rs. \<exists>q \<in> set P. sp_id q = rm_storage_provider r"
  proof
    fix r assume "r \<in> set ?rs"
    then have "rm_storage_provider r \<in> fst ` set (cfg_storage_providers cfg)"
      using assms(1) by (auto simp: references_ok_def reference_ok_def list_all_iff map_of_eq_None_iff)
    then have "rm_storage_provider r \<in> sp_id ` set P" using P(2) by blast
    then show "\<exists>q \<in> set P. sp_id q = rm_storage_provider r" by auto
  qed
  have routes: "distinct (map route_path ?rs)"
    using assms(1) by (auto simp: references_ok_def distinct_map inj_on_def)
  obtain M where "fold_res upsert_repository_mapping ?db2 ?rs = Inr (?db2\<lparr>md_mappings := M\<rparr>)"
    "sync_inv ?rs [] M" "mr_id ` set (release_rows cfg (md_mappings db)) \<subseteq> mr_id ` set M"
    using upsert_mappings [of "[]" ?rs ?db2] release_rows_inv [OF assms(4)] assms(1,3) routes sp
    by (auto simp: references_ok_def)
  moreover have "mr_id ` set (release_rows cfg (md_mappings db)) = mr_id ` set (md_mappings db)"
    using release_rows_ids by (metis list.set_map)
  ultimately show ?thesis
    using 1 P by (intro exI [of _ M] exI [of _ P]) (simp add: sync_config_def)
qed

section \<open>Properties\<close>

text \<open>
  C34: synchronising a loaded configuration never trips over a route that an older mapping still
  holds: it succeeds, the active mappings are then exactly the configured repositories with their
  current routes, every earlier mapping remains as a row, and object rows, transfers and sessions
  are untouched.
\<close>

theorem sync_config_spec:
  assumes "references_ok cfg" "storage_ids_ok cfg" "md_fault db = None" "distinct (map mr_id (md_mappings db))"
  shows "\<exists>db'. sync_config db cfg = Inr db'
    \<and> {q \<in> set (md_mappings db'). mr_is_active q} = mapping_row_of ` set (cfg_repositories cfg)
    \<and> mr_id ` set (md_mappings db) \<subseteq> mr_id ` set (md_mappings db')
    \<and> distinct (map mr_id (md_mappings db'))
    \<and> md_objects db' = md_objects db \<and> md_transfers db' = md_transfers db
    \<and> md_sessions db' = md_sessions db"
proof -
  obtain M P where MP: "sync_config db cfg = Inr (db\<lparr>md_storage_providers := P, md_mappings := M\<rparr>)"
    "sync_inv (cfg_repositories cfg) [] M" "mr_id ` set (md_mappings db) \<subseteq> mr_id ` set M"
    using sync_config_result [OF assms] by (elim exE conjE) (rule that; assumption)
  have "\<forall>q \<in> set M. q \<in> mapping_row_of ` set (cfg_repositories cfg) \<or> \<not> mr_is_active q"
    "mapping_row_of ` set (cfg_repositories cfg) \<subseteq> set M" "distinct (map mr_id M)"
    using MP(2) unfolding sync_inv_def list.set by blast+
  moreover have "\<forall>q \<in> mapping_row_of ` set (cfg_repositories cfg). mr_is_active q" by simp
  ultimately have "{q \<in> set M. mr_is_active q} = mapping_row_of ` set (cfg_repositories cfg)"
    "distinct (map mr_id M)" by blast+
  moreover have "md_mappings (db\<lparr>md_storage_providers := P, md_mappings := M\<rparr>) = M" by simp
  moreover have "md_objects (db\<lparr>md_storage_providers := P, md_mappings := M\<rparr>) = md_objects db"
    "md_transfers (db\<lparr>md_storage_providers := P, md_mappings := M\<rparr>) = md_transfers db"
    "md_sessions (db\<lparr>md_storage_providers := P, md_mappings := M\<rparr>) = md_sessions db" by simp_all
  ultimately show ?thesis
    using MP(1,3) by (intro exI [of _ "db\<lparr>md_storage_providers := P, md_mappings := M\<rparr>"]) (simp only: simp_thms)
qed

definition empty_db :: metadata_db where
  "empty_db = \<lparr>md_path = ''/m.sqlite3'', md_fault = None, md_storage_providers = [], md_mappings = [],
     md_objects = [], md_next_object_id = 1, md_transfers = [], md_next_transfer_id = 1, md_sessions = []\<rparr>"

lemma sample_config_references: "references_ok sample_config" "storage_ids_ok sample_config"
proof -
  show "references_ok sample_config"
    using sample_config_ok [where L = "undefined :: unit url_lib"] by (simp add: config_ok_def)
  show "storage_ids_ok sample_config"
    by (simp add: storage_ids_ok_def sample_config_def storage_config_id_def)
qed

theorem sync_config_spec_witness:
  "\<exists>db'. sync_config empty_db sample_config = Inr db'
     \<and> {q \<in> set (md_mappings db'). mr_is_active q} = mapping_row_of ` set (cfg_repositories sample_config)"
proof -
  have "md_fault empty_db = None" "distinct (map mr_id (md_mappings empty_db))"
    by (simp_all add: empty_db_def)
  then show ?thesis
    using sync_config_spec [OF sample_config_references, of empty_db] by blast
qed

text \<open>
  C4: after a verified upload has been recorded, no sequence of late repairs that still expect
  other backend ids can take the object out of service: lookups keep returning the new backend as
  verified.
\<close>

theorem recorded_upload_survives_repairs:
  assumes "objects_ok db" "oid_ok (obj_oid object)"
    "record_verified_object now db r sp object b user = Inr (record, db')" "b \<notin> set bs"
  shows "index_look (foldl (\<lambda>t b'. index_stale t (r, sp, object) b') db' bs) (r, sp, object) = Some (b, True)"
proof -
  have "index_put now user db (r, sp, object) b = Some db'"
    using assms(3) by (simp add: index_put_def)
  then show ?thesis
    using ix.stale_keeps_new_upload [OF assms(1), of "(r, sp, object)" now user b db' bs] assms(2,4)
    by (simp add: valid_key_def)
qed

text \<open>
  recording a verified upload stores exactly the object, backend and time given; an existing
  row keeps its id, creator and creation time, a missing one is created for the uploader with a
  fresh id.
\<close>

theorem record_verified_object_spec:
  assumes "objects_ok db" "oid_ok (obj_oid object)"
    "record_verified_object now db r sp object b user = Inr (record, db')"
  shows "mo_object record = object \<and> mo_backend_id record = b \<and> mo_verification_status record = Verified
    \<and> mo_last_verified_at record = Some now
    \<and> (case lookup_object db r sp object of
         Inr (Some old) \<Rightarrow> mo_id record = mo_id old \<and> mo_created_by record = mo_created_by old
            \<and> mo_created_at record = mo_created_at old
       | Inr None \<Rightarrow> mo_created_by record = user \<and> mo_created_at record = now
            \<and> mo_id record \<notin> or_id ` set (md_objects db)
       | Inl _ \<Rightarrow> False)"
proof -
  have size: "unat (obj_size object) \<le> i64_max" "md_fault db = None"
    and sb: "sqlite_size_bytes object = Inr (int (unat (obj_size object)))"
    using assms(3) by (auto simp: record_verified_object_def sqlite_size_bytes_Inr Let_def)
  have hex: "lfs_oid_new (as_hex (obj_oid object)) = Inr (obj_oid object)"
    by (rule lfs_oid_new_hex [OF assms(2)])
  have word: "LfsObject (obj_oid object) (word_of_int (int (unat (obj_size object)))) = object"
    by (cases object) (simp add: of_nat_unat)
  let ?k = "(r, sp, as_hex (obj_oid object), int (unat (obj_size object)))"
  show ?thesis
  proof (cases "find (\<lambda>q. row_key q = ?k) (md_objects db)")
    case None
    have fresh: "md_next_object_id db \<notin> or_id ` set (md_objects db)"
      using assms(1) by (force simp: objects_ok_def object_row_ok_def)
    have "lookup_object db r sp object = Inr None"
      using None size sb by (simp add: lookup_object_def run_sql_def row_key_matches_fun)
    then show ?thesis
      using assms(3) None size sb hex word fresh
      by (auto simp: record_verified_object_def run_sql_def row_key_matches_fun Let_def
          metadata_object_record_from_row_def split: if_splits)
  next
    case (Some row)
    have row: "row \<in> set (md_objects db)" "row_key row = ?k" using find_SomeD [OF Some] by auto
    have "object_row_ok db row" using assms(1) row(1) by (simp add: objects_ok_def)
    then obtain st where st: "status_from_database_str (or_verification_status row) = Some st"
      by (auto simp: object_row_ok_def)
    have comps: "or_oid row = as_hex (obj_oid object)" "or_size_bytes row = int (unat (obj_size object))"
      using row(2) by (auto simp: row_key_def)
    then show ?thesis
      using assms(3) Some size sb hex word st comps
      by (auto simp: record_verified_object_def lookup_object_def run_sql_def row_key_matches_fun Let_def
          metadata_object_record_from_row_def split: if_splits)
  qed
qed

definition sample_db :: metadata_db where
  "sample_db = empty_db\<lparr>
     md_storage_providers := [\<lparr>sp_id = ''drive'', sp_provider_type = ''google_drive'',
       sp_backend_root_id = ''root'', sp_display_name = None\<rparr>],
     md_mappings := [mapping_row_of (sample_mapping ''a'' ''repo'')]\<rparr>"

definition sample_user :: repository_user where
  "sample_user = \<lparr>ru_provider_id = ''gh'', ru_login = ''octocat'', ru_stable_id = Some ''1''\<rparr>"

definition sample_object :: lfs_object where
  "sample_object = LfsObject (LfsOid EMPTY_SHA256_HEX) 7"

lemma sample_oid_ok [simp]: "oid_ok (obj_oid sample_object)"
  by (simp add: sample_object_def empty_oid_ok)

lemma sample_db_objects_ok: "objects_ok sample_db"
  by (simp add: objects_ok_def sample_db_def empty_db_def)

lemma sample_parents: "parents_exist sample_db ''a'' ''drive''"
  by (simp add: parents_exist_def sample_db_def sample_mapping_def)

lemma sample_size: "sqlite_size_bytes sample_object = Inr 7"
  by (simp add: sqlite_size_bytes_def sample_object_def i64_max_def)

lemma sample_record:
  "\<exists>record db'. record_verified_object 5 sample_db ''a'' ''drive'' sample_object ''file-1'' sample_user
     = Inr (record, db')"
proof -
  have "lfs_oid_new (as_hex (obj_oid sample_object)) = Inr (obj_oid sample_object)"
    by (rule lfs_oid_new_hex) simp
  moreover have "length (as_hex (obj_oid sample_object)) = 64"
    by (simp add: sample_object_def EMPTY_SHA256_HEX_def)
  moreover have "md_fault sample_db = None" "md_objects sample_db = []"
    by (simp_all add: sample_db_def empty_db_def)
  ultimately show ?thesis
    using sample_parents sample_size
    by (simp add: record_verified_object_def run_sql_def metadata_object_record_from_row_def)
qed

theorem recorded_upload_survives_repairs_witness:
  "\<exists>record db'. record_verified_object 5 sample_db ''a'' ''drive'' sample_object ''file-1'' sample_user
       = Inr (record, db')
     \<and> index_look (foldl (\<lambda>t b'. index_stale t (''a'', ''drive'', sample_object) b') db' [''old'', ''older''])
         (''a'', ''drive'', sample_object) = Some (''file-1'', True)"
proof -
  obtain rec db' where r: "record_verified_object 5 sample_db ''a'' ''drive'' sample_object ''file-1'' sample_user
     = Inr (rec, db')" using sample_record by blast
  show ?thesis
    using r recorded_upload_survives_repairs [OF sample_db_objects_ok sample_oid_ok r, of "[''old'', ''older'']"]
    by auto
qed

theorem record_verified_object_spec_witness:
  "\<exists>record db'. record_verified_object 5 sample_db ''a'' ''drive'' sample_object ''file-1'' sample_user
       = Inr (record, db') \<and> mo_object record = sample_object \<and> mo_backend_id record = ''file-1''"
proof -
  obtain rec db' where r: "record_verified_object 5 sample_db ''a'' ''drive'' sample_object ''file-1'' sample_user
     = Inr (rec, db')" using sample_record by blast
  show ?thesis
    using r record_verified_object_spec [OF sample_db_objects_ok sample_oid_ok r] by blast
qed

lemma start_transfer_attempt_ok:
  assumes "transfers_ok db" "start_transfer_attempt db r sp object operation user = Inr (i, db')"
  shows "transfers_ok db'" "i \<notin> tr_id ` set (md_transfers db)" "md_fault db' = None"
    "\<exists>row \<in> set (md_transfers db'). tr_id row = i \<and> tr_status row = ''started''"
proof -
  have less: "\<forall>row \<in> set (md_transfers db). tr_id row < md_next_transfer_id db"
    and less': "\<forall>row \<in> set (md_transfers db). tr_id row < md_next_transfer_id db + 1"
    and fresh: "md_next_transfer_id db \<notin> tr_id ` set (md_transfers db)"
    using assms(1) by (fastforce simp: transfers_ok_def)+
  show "transfers_ok db'"
    using assms less' fresh by (auto simp: start_transfer_attempt_def transfers_ok_def split: if_splits)
  show "i \<notin> tr_id ` set (md_transfers db)" "md_fault db' = None"
    "\<exists>row \<in> set (md_transfers db'). tr_id row = i \<and> tr_status row = ''started''"
    using assms fresh by (auto simp: start_transfer_attempt_def split: if_splits)
qed

definition finish_row :: "int \<Rightarrow> transfer_result \<Rightarrow> transfer_row \<Rightarrow> transfer_row" where
  "finish_row now result row = (case result of
       TransferSucceeded b \<Rightarrow> row\<lparr>tr_status := ''succeeded'', tr_backend_id := b,
         tr_error_category := None, tr_error_message := None, tr_finished_at := Some now\<rparr>
     | TransferFailed category message \<Rightarrow> row\<lparr>tr_status := ''failed'', tr_backend_id := None,
         tr_error_category := Some (show_error_category category),
         tr_error_message := Some message, tr_finished_at := Some now\<rparr>)"

lemma finish_row_simps [simp]:
  "tr_id (finish_row now result row) = tr_id row"
  "tr_status (finish_row now result row) \<noteq> ''started''"
  by (cases result; simp add: finish_row_def)+

lemma finish_transfer_attempt_eq:
  "finish_transfer_attempt now db i result =
     (let hit = (\<lambda>row. tr_id row = i \<and> tr_status row = ''started'') in
      run_sql db (if \<not> list_ex hit (md_transfers db) then Inl (operation_error db NO_ROWS)
        else Inr (db\<lparr>md_transfers :=
               map (\<lambda>row. if hit row then finish_row now result row else row) (md_transfers db)\<rparr>)))"
  by (cases result) (simp_all add: finish_transfer_attempt_def finish_row_def Let_def cong: if_cong)

text \<open>
  C24: a transfer attempt starts as a fresh \<open>started\<close> row and is completed exactly once: while the
  database works the first completion succeeds, and any second completion of the same attempt,
  with whatever result, is refused.
\<close>

theorem transfer_attempt_completes_once:
  assumes "transfers_ok db" "start_transfer_attempt db r sp object operation user = Inr (i, db1)"
  shows "\<exists>db2. finish_transfer_attempt now db1 i result = Inr db2
    \<and> finish_transfer_attempt now' db2 i result' = Inl (operation_error db2 NO_ROWS)"
proof -
  have row: "\<exists>row \<in> set (md_transfers db1). tr_id row = i \<and> tr_status row = ''started''"
    and fault: "md_fault db1 = None"
    using start_transfer_attempt_ok [OF assms] by blast+
  define hit where "hit = (\<lambda>row :: transfer_row. tr_id row = i \<and> tr_status row = ''started'')"
  define db2 where "db2 = db1\<lparr>md_transfers :=
    map (\<lambda>row. if hit row then finish_row now result row else row) (md_transfers db1)\<rparr>"
  have "list_ex hit (md_transfers db1)" using row by (auto simp: list_ex_iff hit_def)
  then have "finish_transfer_attempt now db1 i result = Inr db2"
    using fault by (simp add: finish_transfer_attempt_eq run_sql_def db2_def hit_def)
  moreover have "\<not> hit (finish_row now result row)" for row
    by (simp add: hit_def)
  then have "\<not> list_ex hit (md_transfers db2)" by (auto simp: db2_def list_ex_iff)
  then have "finish_transfer_attempt now' db2 i result' = Inl (operation_error db2 NO_ROWS)"
    using fault by (simp add: finish_transfer_attempt_eq run_sql_def db2_def hit_def)
  ultimately show ?thesis by blast
qed

theorem transfer_attempt_completes_once_witness:
  "\<exists>i db1 db2. start_transfer_attempt sample_db ''a'' ''drive'' sample_object TransferUpload sample_user = Inr (i, db1)
     \<and> finish_transfer_attempt 6 db1 i (TransferSucceeded None) = Inr db2
     \<and> finish_transfer_attempt 7 db2 i (TransferSucceeded None) = Inl (operation_error db2 NO_ROWS)"
proof -
  have "length (as_hex (obj_oid sample_object)) = 64" "md_fault sample_db = None"
    by (simp_all add: sample_object_def EMPTY_SHA256_HEX_def sample_db_def empty_db_def)
  then obtain i db1 where s: "start_transfer_attempt sample_db ''a'' ''drive'' sample_object TransferUpload sample_user
      = Inr (i, db1)"
    using sample_parents sample_size by (simp add: start_transfer_attempt_def run_sql_def)
  have "transfers_ok sample_db" by (simp add: transfers_ok_def sample_db_def empty_db_def)
  then show ?thesis
    using s transfer_attempt_completes_once [OF _ s, of 6 "TransferSucceeded None" 7 "TransferSucceeded None"] by blast
qed

end
