(* ===== verification/Sessions.thy ===== *)
theory Sessions
  imports Metadata
begin

text \<open>
  Local LFS sessions (\<open>src/sessions.rs\<close>): the bounded session store with its admission limits,
  issuance, verification and revocation, and the durable store behind it. Times are nanoseconds
  since the Unix epoch. SHA-256, JSON and the AEAD are the parameter record \<open>session_crypto\<close>;
  the clock, the token generator and nonces are arguments of the operations.
\<close>

section \<open>Time\<close>

definition NANOS :: int where
  "NANOS = 1000000000"

definition i64_max_int :: int where
  "i64_max_int = 9223372036854775807"

text \<open>\<open>SystemTime::checked_add\<close>: the seconds are an \<open>i64\<close>.\<close>

definition time_checked_add :: "int \<Rightarrow> nat \<Rightarrow> int option" where
  "time_checked_add t d =
     (if (t + int d) div NANOS \<le> i64_max_int then Some (t + int d) else None)"

text \<open>\<open>duration_since(..).unwrap_or_default()\<close>, then \<open>as_secs\<close> and \<open>subsec_nanos\<close>.\<close>

definition retry_after_duration :: "int \<Rightarrow> int \<Rightarrow> u64" where
  "retry_after_duration retry_at now =
     (let duration = (if now \<le> retry_at then retry_at - now else 0);
          secs = duration div NANOS;
          up = (if 0 < duration mod NANOS then secs + 1 else secs)
      in of_int (max 1 (min up (2 ^ 64 - 1))))"

definition unix_timestamp_seconds :: "int \<Rightarrow> int" where
  "unix_timestamp_seconds time = (if 0 \<le> time then time div NANOS else 0)"

definition unix_timestamp_seconds_i64 :: "int \<Rightarrow> int server_result" where
  "unix_timestamp_seconds_i64 time =
     (if unix_timestamp_seconds time \<le> i64_max_int then Inr (unix_timestamp_seconds time)
      else Inl (SvInternal ''lfs session timestamp exceeds SQLite integer range''))"

definition invalid_durable_session :: "string \<Rightarrow> server_error" where
  "invalid_durable_session message =
     SvInternal (''durable lfs session state is invalid: '' @ message)"

definition system_time_from_unix_seconds :: "int \<Rightarrow> int server_result" where
  "system_time_from_unix_seconds value =
     (if value < 0 then Inl (invalid_durable_session ''stored session timestamp is negative'')
      else ok_or (invalid_durable_session ''stored session timestamp overflowed'')
             (time_checked_add 0 (nat (value * NANOS))))"

section \<open>Tokens, metadata and principals\<close>

definition MAX_LFS_SESSION_TOKEN_LEN :: nat where
  "MAX_LFS_SESSION_TOKEN_LEN = 1024"

definition validate_lfs_session_secret :: "string \<Rightarrow> string server_result" where
  "validate_lfs_session_secret value =
     (if MAX_LFS_SESSION_TOKEN_LEN < length value
      then Inl (SvInvalidRequest (''lfs session token must not exceed ''
             @ nat_dec MAX_LFS_SESSION_TOKEN_LEN @ '' bytes''))
      else let trimmed = trim value in
        if trimmed = [] \<or> length trimmed \<noteq> length value
        then Inl (SvInvalidRequest ''lfs session token must not be blank or padded'')
        else if has_whitespace value \<or> has_control value
        then Inl (SvInvalidRequest
               ''lfs session token must not contain whitespace or control characters'')
        else Inr value)"

record lfs_session_metadata =
  sm_provider_id :: string
  sm_login :: string
  sm_stable_id :: "string option"
  sm_granted_scopes :: "string list"
  sm_issued_at :: int
  sm_expires_at :: int

record lfs_session_record =
  sr_metadata :: lfs_session_metadata
  sr_github_pat :: "string option"

definition session_metadata_new ::
  "repository_user \<Rightarrow> string list \<Rightarrow> int \<Rightarrow> int \<Rightarrow> lfs_session_metadata" where
  "session_metadata_new user granted_scopes issued_at expires_at =
     \<lparr>sm_provider_id = ru_provider_id user, sm_login = ru_login user,
      sm_stable_id = ru_stable_id user,
      sm_granted_scopes = filter (\<lambda>scope. scope \<noteq> []) (map trim granted_scopes),
      sm_issued_at = issued_at, sm_expires_at = expires_at\<rparr>"

datatype principal_identity = PrincipalStableId string | PrincipalLogin string

datatype lfs_session_principal = Principal (pr_provider: string) (pr_identity: principal_identity)

definition principal_from_metadata :: "lfs_session_metadata \<Rightarrow> lfs_session_principal" where
  "principal_from_metadata m = Principal (sm_provider_id m)
     (case sm_stable_id m of
        Some i \<Rightarrow> PrincipalStableId i
      | None \<Rightarrow> PrincipalLogin (sm_login m))"

text \<open>The derived order: provider first, then \<open>StableId\<close> before \<open>Login\<close>, then the text.\<close>

fun principal_rank :: "lfs_session_principal \<Rightarrow> string list" where
  "principal_rank (Principal p (PrincipalStableId i)) = [p, ''0'', i]"
| "principal_rank (Principal p (PrincipalLogin l)) = [p, ''1'', l]"

lemma principal_rank_inject: "principal_rank p = principal_rank q \<Longrightarrow> p = q"
  by (cases p rule: principal_rank.cases; cases q rule: principal_rank.cases) auto

instantiation lfs_session_principal :: linorder
begin

definition less_eq_lfs_session_principal :: "lfs_session_principal \<Rightarrow> lfs_session_principal \<Rightarrow> bool" where
  "less_eq_lfs_session_principal p q \<longleftrightarrow> principal_rank p \<le> principal_rank q"

definition less_lfs_session_principal :: "lfs_session_principal \<Rightarrow> lfs_session_principal \<Rightarrow> bool" where
  "less_lfs_session_principal p q \<longleftrightarrow> principal_rank p < principal_rank q"

instance
  by standard (auto simp: less_eq_lfs_session_principal_def less_lfs_session_principal_def
      dest: principal_rank_inject)

end

section \<open>The store\<close>

record session_store_limits =
  sl_max_sessions :: nat
  sl_max_sessions_per_principal :: nat
  sl_max_issuances_per_window :: nat
  sl_issuance_window :: nat

definition production_limits :: session_store_limits where
  "production_limits =
     \<lparr>sl_max_sessions = 1024, sl_max_sessions_per_principal = 16,
      sl_max_issuances_per_window = 8, sl_issuance_window = 60 * nat NANOS\<rparr>"

definition MAX_LFS_SESSION_TOKEN_GENERATION_ATTEMPTS :: nat where
  "MAX_LFS_SESSION_TOKEN_GENERATION_ATTEMPTS = 8"

definition DEFAULT_LFS_SESSION_TTL :: nat where
  "DEFAULT_LFS_SESSION_TTL = 8 * 60 * 60 * nat NANOS"

record session_store_state =
  st_sessions :: "(string, lfs_session_record) btree"
  st_recent_issuances :: "(lfs_session_principal, int list) btree"

record session_store =
  ls_state :: session_store_state
  ls_durable :: "metadata_db option"
  ls_limits :: session_store_limits

record issued_lfs_session =
  is_token :: string
  is_metadata :: lfs_session_metadata

definition prune_expired_sessions ::
  "(string, lfs_session_record) btree \<Rightarrow> int \<Rightarrow> (string, lfs_session_record) btree" where
  "prune_expired_sessions sessions now =
     bt_retain (\<lambda>_ r. now < sm_expires_at (sr_metadata r)) sessions"

definition take_active_session ::
  "(string, lfs_session_record) btree \<Rightarrow> string \<Rightarrow> int
     \<Rightarrow> lfs_session_record option \<times> (string, lfs_session_record) btree" where
  "take_active_session sessions token_key now =
     (case map_of sessions token_key of
        Some r \<Rightarrow>
          if now < sm_expires_at (sr_metadata r) then (Some r, sessions)
          else (None, bt_remove token_key sessions)
      | None \<Rightarrow> (None, sessions))"

definition still_recent :: "nat \<Rightarrow> int \<Rightarrow> int \<Rightarrow> bool" where
  "still_recent window now issued_at \<longleftrightarrow>
     (case time_checked_add issued_at window of None \<Rightarrow> True | Some expires_at \<Rightarrow> now < expires_at)"

definition prune_recent_issuances ::
  "(lfs_session_principal, int list) btree \<Rightarrow> int \<Rightarrow> nat \<Rightarrow> (lfs_session_principal, int list) btree" where
  "prune_recent_issuances recent now window =
     bt_retain (\<lambda>_ ts. ts \<noteq> [])
       (map (\<lambda>(p, ts). (p, filter (still_recent window now) ts)) recent)"

fun minimum :: "int list \<Rightarrow> int option" where
  "minimum [] = None"
| "minimum (x # xs) = Some (case minimum xs of None \<Rightarrow> x | Some m \<Rightarrow> min x m)"

definition retry_after_session_expiry :: "int list \<Rightarrow> int \<Rightarrow> u64" where
  "retry_after_session_expiry expirations now =
     (case minimum expirations of
        Some expires_at \<Rightarrow> retry_after_duration expires_at now
      | None \<Rightarrow> 1)"

definition principal_sessions ::
  "session_store_state \<Rightarrow> lfs_session_principal \<Rightarrow> lfs_session_record list" where
  "principal_sessions st who =
     filter (\<lambda>r. principal_from_metadata (sr_metadata r) = who) (map snd (st_sessions st))"

definition recent_of :: "session_store_state \<Rightarrow> lfs_session_principal \<Rightarrow> int list" where
  "recent_of st who = (case map_of (st_recent_issuances st) who of Some ts \<Rightarrow> ts | None \<Rightarrow> [])"

definition enforce_session_admission ::
  "session_store_state \<Rightarrow> lfs_session_principal \<Rightarrow> int \<Rightarrow> session_store_limits \<Rightarrow> unit server_result" where
  "enforce_session_admission st who now limits =
     (let mine = principal_sessions st who in
      if sl_max_sessions_per_principal limits \<le> length mine
      then Inl (SvRateLimited (retry_after_session_expiry
             (map (\<lambda>r. sm_expires_at (sr_metadata r)) mine) now))
      else if map_of (st_recent_issuances st) who \<noteq> None
           \<and> sl_max_issuances_per_window limits \<le> length (recent_of st who)
      then Inl (SvRateLimited
             (case minimum (List.map_filter (\<lambda>t. time_checked_add t (sl_issuance_window limits))
                      (recent_of st who)) of
                Some retry_at \<Rightarrow> retry_after_duration retry_at now
              | None \<Rightarrow> of_nat (max 1 (sl_issuance_window limits div nat NANOS))))
      else if sl_max_sessions limits \<le> length (st_sessions st)
      then Inl (SvRateLimited (retry_after_session_expiry
             (map (\<lambda>e. sm_expires_at (sr_metadata (snd e))) (st_sessions st)) now))
      else Inr ())"

section \<open>Durable rows\<close>

text \<open>
  SHA-256 (of a token, as 32 bytes), the JSON encoding of the scopes and of the associated data,
  and AES-256-GCM under the key derived from the server secret.
\<close>

type_synonym associated_data = "string \<times> string \<times> string \<times> string option \<times> string list \<times> int \<times> int"

record session_crypto =
  sc_sha256 :: "string \<Rightarrow> string"
  sc_scopes_to_json :: "string list \<Rightarrow> string"
  sc_scopes_from_json :: "string \<Rightarrow> string list option"
  sc_seal :: "string \<Rightarrow> associated_data \<Rightarrow> string \<Rightarrow> string"
  sc_open :: "string \<Rightarrow> associated_data \<Rightarrow> string \<Rightarrow> string option"

definition hex_byte :: "char \<Rightarrow> string" where
  "hex_byte c = [hex_char (byte c div 16), hex_char (byte c mod 16)]"

definition token_key_to_hex :: "string \<Rightarrow> string" where
  "token_key_to_hex key = concat (map hex_byte key)"

definition hex_digit_val :: "char \<Rightarrow> nat option" where
  "hex_digit_val c =
     (if is_digit c then Some (byte c - 48)
      else if 97 \<le> byte c \<and> byte c \<le> 102 then Some (byte c - 87)
      else if 65 \<le> byte c \<and> byte c \<le> 70 then Some (byte c - 55)
      else None)"

text \<open>
  \<open>u8::from_str_radix(chunk, 16)\<close> of a two-byte chunk; like the library it takes a leading
  \<open>+\<close>.
\<close>

fun chunks_to_bytes :: "string \<Rightarrow> string server_result" where
  "chunks_to_bytes (a # b # cs) =
     (if \<not> (is_ascii a \<and> is_ascii b \<or> 194 \<le> byte a \<and> byte a \<le> 223 \<and> is_continuation b)
      then Inl (invalid_durable_session ''stored token digest is not valid UTF-8'')
      else case (if a = CHR ''+'' then Some 0 else hex_digit_val a, hex_digit_val b) of
        (Some h, Some l) \<Rightarrow> map_res ((#) (char_of (16 * h + l))) (chunks_to_bytes cs)
      | _ \<Rightarrow> Inl (invalid_durable_session ''stored token digest is not hexadecimal''))"
| "chunks_to_bytes _ = Inr []"

definition token_key_from_hex :: "string \<Rightarrow> string server_result" where
  "token_key_from_hex value =
     (if length value \<noteq> 64
      then Inl (invalid_durable_session ''stored token digest has an invalid length'')
      else chunks_to_bytes value)"

definition session_associated_data :: "string \<Rightarrow> lfs_session_metadata \<Rightarrow> associated_data server_result" where
  "session_associated_data token_key m =
     bind_res (unix_timestamp_seconds_i64 (sm_issued_at m)) (\<lambda>issued.
     bind_res (unix_timestamp_seconds_i64 (sm_expires_at m)) (\<lambda>expires.
       Inr (token_key_to_hex token_key, sm_provider_id m, sm_login m, sm_stable_id m,
            sm_granted_scopes m, issued, expires)))"

definition protector_encrypt ::
  "session_crypto \<Rightarrow> string \<Rightarrow> string \<Rightarrow> lfs_session_metadata \<Rightarrow> string \<Rightarrow> (string \<times> string) server_result" where
  "protector_encrypt C nonce token_key m access_token =
     map_res (\<lambda>ad. (sc_seal C nonce ad access_token, nonce)) (session_associated_data token_key m)"

definition SESSION_TOKEN_NONCE_LEN :: nat where
  "SESSION_TOKEN_NONCE_LEN = 12"

definition validate_sensitive_github_value :: "string \<Rightarrow> string \<Rightarrow> string server_result" where
  "validate_sensitive_github_value value label =
     (if 1024 < length value
      then Inl (SvInvalidRequest (label @ '' must not exceed '' @ nat_dec 1024 @ '' bytes''))
      else let trimmed = trim value in
        if trimmed = [] \<or> length trimmed \<noteq> length value
        then Inl (SvInvalidRequest (label @ '' must not be blank or padded''))
        else if has_whitespace value \<or> has_control value
        then Inl (SvInvalidRequest (label @ '' must not contain whitespace or control characters''))
        else Inr value)"

definition github_pat_from_secret :: "string \<Rightarrow> string server_result" where
  "github_pat_from_secret secret = validate_sensitive_github_value secret ''github personal access token''"

text \<open>The plaintext of \<open>sc_open\<close> is a string, so it is valid UTF-8 already.\<close>

definition protector_decrypt ::
  "session_crypto \<Rightarrow> string \<Rightarrow> lfs_session_metadata \<Rightarrow> string \<Rightarrow> string \<Rightarrow> string server_result" where
  "protector_decrypt C token_key m ciphertext nonce =
     (if length nonce \<noteq> SESSION_TOKEN_NONCE_LEN
      then Inl (invalid_durable_session ''stored provider token nonce has invalid length'')
      else bind_res (session_associated_data token_key m) (\<lambda>ad.
        bind_res (ok_or (invalid_durable_session
                     ''stored provider token could not be authenticated or decrypted'')
                   (sc_open C nonce ad ciphertext)) (\<lambda>plaintext.
          map_err (\<lambda>_. invalid_durable_session ''decrypted provider token is invalid'')
            (github_pat_from_secret plaintext))))"

definition session_to_row ::
  "session_crypto \<Rightarrow> string \<Rightarrow> string \<Rightarrow> lfs_session_record \<Rightarrow> session_row server_result" where
  "session_to_row C nonce token_key r = (let m = sr_metadata r in
     bind_res (case sr_github_pat r of None \<Rightarrow> Inr (None, None)
                | Some token \<Rightarrow> map_res (\<lambda>(c, n). (Some c, Some n)) (protector_encrypt C nonce token_key m token))
       (\<lambda>(ciphertext, stored_nonce).
     bind_res (unix_timestamp_seconds_i64 (sm_issued_at m)) (\<lambda>issued.
     bind_res (unix_timestamp_seconds_i64 (sm_expires_at m)) (\<lambda>expires.
       Inr \<lparr>sr_token_sha256 = token_key_to_hex token_key, sr_provider_id = sm_provider_id m,
            sr_login = sm_login m, sr_stable_id = sm_stable_id m,
            sr_granted_scopes_json = sc_scopes_to_json C (sm_granted_scopes m),
            sr_issued_at = issued, sr_expires_at = expires,
            sr_ciphertext = ciphertext, sr_nonce = stored_nonce\<rparr>))))"

definition durable_record_session ::
  "session_crypto \<Rightarrow> string \<Rightarrow> metadata_db \<Rightarrow> string \<Rightarrow> lfs_session_record \<Rightarrow> metadata_db server_result" where
  "durable_record_session C nonce db token_key r =
     bind_res (session_to_row C nonce token_key r) (record_session db)"

definition restore_session ::
  "session_crypto \<Rightarrow> session_row \<Rightarrow> (string \<times> lfs_session_record) server_result" where
  "restore_session C stored =
     bind_res (token_key_from_hex (sr_token_sha256 stored)) (\<lambda>token_key.
     bind_res (ok_or (invalid_durable_session ''stored granted scopes are not valid JSON'')
                (sc_scopes_from_json C (sr_granted_scopes_json stored))) (\<lambda>granted_scopes.
     bind_res (system_time_from_unix_seconds (sr_issued_at stored)) (\<lambda>issued_at.
     bind_res (system_time_from_unix_seconds (sr_expires_at stored)) (\<lambda>expires_at.
       if expires_at \<le> issued_at
       then Inl (invalid_durable_session ''stored session expiration does not follow its issue time'')
       else let m = \<lparr>sm_provider_id = sr_provider_id stored, sm_login = sr_login stored,
                     sm_stable_id = sr_stable_id stored, sm_granted_scopes = granted_scopes,
                     sm_issued_at = issued_at, sm_expires_at = expires_at\<rparr> in
         bind_res (case (sr_ciphertext stored, sr_nonce stored) of
                     (Some ciphertext, Some nonce) \<Rightarrow>
                       map_res Some (protector_decrypt C token_key m ciphertext nonce)
                   | (None, None) \<Rightarrow> Inr None
                   | _ \<Rightarrow> Inl (invalid_durable_session
                              ''stored provider token protection fields are incomplete'')) (\<lambda>pat.
           Inr (token_key, \<lparr>sr_metadata = m, sr_github_pat = pat\<rparr>))))))"

definition durable_load_sessions ::
  "session_crypto \<Rightarrow> metadata_db \<Rightarrow> int \<Rightarrow> (string, lfs_session_record) btree server_result" where
  "durable_load_sessions C db now =
     bind_res (unix_timestamp_seconds_i64 now) (\<lambda>seconds.
     bind_res (load_active_sessions db seconds) (\<lambda>rows.
       map_res collect_btree (traverse_res (restore_session C) rows)))"

section \<open>Operations\<close>

definition session_store_new :: session_store where
  "session_store_new = \<lparr>ls_state = \<lparr>st_sessions = [], st_recent_issuances = []\<rparr>,
     ls_durable = None, ls_limits = production_limits\<rparr>"

definition session_store_open_durable ::
  "session_crypto \<Rightarrow> metadata_db \<Rightarrow> string \<Rightarrow> int \<Rightarrow> session_store server_result" where
  "session_store_open_durable C db encryption_secret now =
     (if encryption_secret = []
      then Inl (SvInvalidConfiguration ''durable lfs session encryption secret must not be empty'')
      else bind_res (unix_timestamp_seconds_i64 now) (\<lambda>seconds.
        bind_res (delete_expired_sessions db seconds) (\<lambda>(_, db').
        bind_res (durable_load_sessions C db' now) (\<lambda>sessions.
          if sl_max_sessions production_limits < length sessions
          then Inl (SvInternal ''durable lfs session count exceeds the configured in-process limit'')
          else Inr \<lparr>ls_state = \<lparr>st_sessions = sessions, st_recent_issuances = []\<rparr>,
                    ls_durable = Some db', ls_limits = production_limits\<rparr>))))"

text \<open>The token loop: a collision moves on to the next generated token.\<close>

fun issue_loop ::
  "session_crypto \<Rightarrow> string \<Rightarrow> session_store \<Rightarrow> lfs_session_record \<Rightarrow> lfs_session_principal \<Rightarrow> int
     \<Rightarrow> string list \<Rightarrow> issued_lfs_session server_result \<times> session_store" where
  "issue_loop C nonce store r who issued_at [] =
     (Inl (SvInternal ''failed to generate a unique lfs session token''), store)"
| "issue_loop C nonce store r who issued_at (token # tokens) =
     (let st = ls_state store; token_key = sc_sha256 C token in
      if map_of (st_sessions st) token_key \<noteq> None
      then issue_loop C nonce store r who issued_at tokens
      else case (case ls_durable store of None \<Rightarrow> Inr None
                 | Some db \<Rightarrow> map_res Some (durable_record_session C nonce db token_key r)) of
          Inl err \<Rightarrow> (Inl err, store)
        | Inr durable \<Rightarrow>
            (Inr \<lparr>is_token = token, is_metadata = sr_metadata r\<rparr>,
             store\<lparr>ls_durable := durable,
               ls_state := \<lparr>st_sessions = bt_insert token_key r (st_sessions st),
                 st_recent_issuances = bt_insert who (recent_of st who @ [issued_at])
                   (st_recent_issuances st)\<rparr>\<rparr>))"

definition issue_session_record ::
  "session_crypto \<Rightarrow> int \<Rightarrow> (nat \<Rightarrow> string) \<Rightarrow> string \<Rightarrow> session_store \<Rightarrow> repository_user \<Rightarrow> string list
     \<Rightarrow> nat \<Rightarrow> string option \<Rightarrow> issued_lfs_session server_result \<times> session_store" where
  "issue_session_record C issued_at token_generator nonce store user granted_scopes ttl pat =
     (if ttl = 0
      then (Inl (SvInvalidRequest ''lfs session ttl must be greater than zero''), store)
      else case time_checked_add issued_at ttl of
        None \<Rightarrow> (Inl (SvInvalidRequest ''lfs session expiration timestamp overflowed''), store)
      | Some expires_at \<Rightarrow>
          let m = session_metadata_new user granted_scopes issued_at expires_at;
              r = \<lparr>sr_metadata = m, sr_github_pat = pat\<rparr>;
              who = principal_from_metadata m;
              st = ls_state store;
              store1 = store\<lparr>ls_state :=
                \<lparr>st_sessions = prune_expired_sessions (st_sessions st) issued_at,
                 st_recent_issuances = prune_recent_issuances (st_recent_issuances st) issued_at
                   (sl_issuance_window (ls_limits store))\<rparr>\<rparr>
          in case (case ls_durable store1 of None \<Rightarrow> Inr None
                   | Some db \<Rightarrow> bind_res (unix_timestamp_seconds_i64 issued_at) (\<lambda>seconds.
                       map_res (\<lambda>(_, db'). Some db') (delete_expired_sessions db seconds))) of
              Inl err \<Rightarrow> (Inl err, store1)
            | Inr durable \<Rightarrow>
                let store2 = store1\<lparr>ls_durable := durable\<rparr> in
                (case enforce_session_admission (ls_state store2) who issued_at (ls_limits store) of
                   Inl err \<Rightarrow> (Inl err, store2)
                 | Inr _ \<Rightarrow> issue_loop C nonce store2 r who issued_at
                     (map token_generator [0..<MAX_LFS_SESSION_TOKEN_GENERATION_ATTEMPTS])))"

definition issue_session ::
  "session_crypto \<Rightarrow> int \<Rightarrow> (nat \<Rightarrow> string) \<Rightarrow> string \<Rightarrow> session_store \<Rightarrow> repository_user \<Rightarrow> string list
     \<Rightarrow> issued_lfs_session server_result \<times> session_store" where
  "issue_session C now gen nonce store user granted_scopes =
     issue_session_record C now gen nonce store user granted_scopes DEFAULT_LFS_SESSION_TTL None"

definition issue_session_with_github_pat ::
  "session_crypto \<Rightarrow> int \<Rightarrow> (nat \<Rightarrow> string) \<Rightarrow> string \<Rightarrow> session_store \<Rightarrow> repository_user \<Rightarrow> string list
     \<Rightarrow> string \<Rightarrow> issued_lfs_session server_result \<times> session_store" where
  "issue_session_with_github_pat C now gen nonce store user granted_scopes pat =
     issue_session_record C now gen nonce store user granted_scopes DEFAULT_LFS_SESSION_TTL (Some pat)"

definition issue_session_with_ttl ::
  "session_crypto \<Rightarrow> int \<Rightarrow> (nat \<Rightarrow> string) \<Rightarrow> string \<Rightarrow> session_store \<Rightarrow> repository_user \<Rightarrow> string list
     \<Rightarrow> nat \<Rightarrow> issued_lfs_session server_result \<times> session_store" where
  "issue_session_with_ttl C now gen nonce store user granted_scopes ttl =
     issue_session_record C now gen nonce store user granted_scopes ttl None"

definition verify_record ::
  "session_crypto \<Rightarrow> int \<Rightarrow> session_store \<Rightarrow> string \<Rightarrow> lfs_session_record option \<times> session_store" where
  "verify_record C now store token =
     (let st = ls_state store;
          (result, sessions) = take_active_session (st_sessions st) (sc_sha256 C token) now
      in (result, store\<lparr>ls_state := st\<lparr>st_sessions := sessions\<rparr>\<rparr>))"

definition verify_session ::
  "session_crypto \<Rightarrow> int \<Rightarrow> session_store \<Rightarrow> string \<Rightarrow> lfs_session_metadata option \<times> session_store" where
  "verify_session C now store token =
     (let (result, store') = verify_record C now store token in (map_option sr_metadata result, store'))"

definition revoke_session ::
  "session_crypto \<Rightarrow> int \<Rightarrow> session_store \<Rightarrow> string \<Rightarrow> bool server_result \<times> session_store" where
  "revoke_session C now store token =
     (let token_key = sc_sha256 C token; st = ls_state store in
      case (case ls_durable store of None \<Rightarrow> Inr None
            | Some db \<Rightarrow> map_res (\<lambda>(_, db'). Some db') (delete_session db (token_key_to_hex token_key))) of
        Inl err \<Rightarrow> (Inl err, store)
      | Inr durable \<Rightarrow>
          (Inr (case map_of (st_sessions st) token_key of
                  Some r \<Rightarrow> now < sm_expires_at (sr_metadata r) | None \<Rightarrow> False),
           store\<lparr>ls_durable := durable,
             ls_state := st\<lparr>st_sessions := bt_remove token_key (st_sessions st)\<rparr>\<rparr>))"

section \<open>Digests and durable rows, round trip\<close>

lemma hex_char_val:
  assumes "d < 16"
  shows "hex_digit_val (hex_char d) = Some d" "is_ascii (hex_char d)" "hex_char d \<noteq> CHR ''+''"
proof -
  have "byte CHR ''+'' = 43" by (simp add: byte_def)
  moreover have "byte (hex_char d) = (if d < 10 then 48 + d else 87 + d)"
    using assms by (simp add: hex_char_def)
  ultimately show "hex_char d \<noteq> CHR ''+''" "is_ascii (hex_char d)" "hex_digit_val (hex_char d) = Some d"
    using assms by (auto simp: hex_digit_val_def is_digit_def is_ascii_def split: if_splits)
qed

lemma char_of_byte [simp]: "char_of (byte c) = c"
  by (simp add: byte_def)

lemma chunks_to_bytes_hex: "chunks_to_bytes (token_key_to_hex key) = Inr key"
proof (induction key)
  case (Cons c key)
  have "byte c div 16 < 16" "byte c mod 16 < 16" using byte_bound [of c] by auto
  moreover have "char_of (16 * (byte c div 16) + byte c mod 16) = c" by simp
  ultimately show ?case
    using Cons by (simp add: token_key_to_hex_def hex_byte_def hex_char_val)
qed (simp add: token_key_to_hex_def)

lemma length_token_key_to_hex: "length (token_key_to_hex key) = 2 * length key"
  by (induction key) (simp_all add: token_key_to_hex_def hex_byte_def)

lemma token_key_hex_round_trip: "length key = 32 \<Longrightarrow> token_key_from_hex (token_key_to_hex key) = Inr key"
  by (simp add: token_key_from_hex_def length_token_key_to_hex chunks_to_bytes_hex)

text \<open>What the code relies on of the libraries: 32-byte digests, scopes that survive JSON, and
  authenticated decryption of what was sealed under the same nonce and associated data.\<close>

definition crypto_ok :: "session_crypto \<Rightarrow> bool" where
  "crypto_ok C \<longleftrightarrow> (\<forall>t. length (sc_sha256 C t) = 32)
     \<and> (\<forall>ss. sc_scopes_from_json C (sc_scopes_to_json C ss) = Some ss)
     \<and> (\<forall>n ad m. sc_open C n ad (sc_seal C n ad m) = Some m)"

definition truncate_seconds :: "int \<Rightarrow> int" where
  "truncate_seconds t = t div NANOS * NANOS"

definition truncate_record :: "lfs_session_record \<Rightarrow> lfs_session_record" where
  "truncate_record r = r\<lparr>sr_metadata := (sr_metadata r)\<lparr>
     sm_issued_at := truncate_seconds (sm_issued_at (sr_metadata r)),
     sm_expires_at := truncate_seconds (sm_expires_at (sr_metadata r))\<rparr>\<rparr>"

definition storable_time :: "int \<Rightarrow> bool" where
  "storable_time t \<longleftrightarrow> 0 \<le> t \<and> t div NANOS \<le> i64_max_int"

lemma unix_seconds_storable: "storable_time t \<Longrightarrow> unix_timestamp_seconds_i64 t = Inr (t div NANOS)"
  by (simp add: unix_timestamp_seconds_i64_def unix_timestamp_seconds_def storable_time_def)

lemma NANOS_pos [simp]: "0 < NANOS"
  by (simp add: NANOS_def)

lemma truncate_storable: "storable_time t \<Longrightarrow> storable_time (truncate_seconds t)"
  by (simp add: storable_time_def truncate_seconds_def NANOS_def pos_imp_zdiv_nonneg_iff)

lemma truncate_div [simp]: "truncate_seconds t div NANOS = t div NANOS"
  using NANOS_pos by (simp add: truncate_seconds_def)

lemma system_time_seconds:
  "storable_time t \<Longrightarrow> system_time_from_unix_seconds (t div NANOS) = Inr (truncate_seconds t)"
  by (simp add: system_time_from_unix_seconds_def storable_time_def time_checked_add_def
      truncate_seconds_def NANOS_def not_less pos_imp_zdiv_nonneg_iff)

definition record_storable :: "lfs_session_record \<Rightarrow> bool" where
  "record_storable r \<longleftrightarrow> storable_time (sm_issued_at (sr_metadata r))
     \<and> storable_time (sm_expires_at (sr_metadata r))
     \<and> sm_issued_at (sr_metadata r) div NANOS < sm_expires_at (sr_metadata r) div NANOS
     \<and> (\<forall>pat. sr_github_pat r = Some pat \<longrightarrow> github_pat_from_secret pat = Inr pat)"

lemma associated_data_truncate:
  assumes "storable_time (sm_issued_at m)" "storable_time (sm_expires_at m)"
  shows "session_associated_data key (m\<lparr>sm_issued_at := truncate_seconds (sm_issued_at m),
      sm_expires_at := truncate_seconds (sm_expires_at m)\<rparr>) = session_associated_data key m"
  using assms by (simp add: session_associated_data_def unix_seconds_storable truncate_storable)


section \<open>The sessions a store would accept\<close>

definition live :: "session_crypto \<Rightarrow> session_store \<Rightarrow> int \<Rightarrow> string \<Rightarrow> lfs_session_record option" where
  "live C store now token =
     (case map_of (st_sessions (ls_state store)) (sc_sha256 C token) of
        Some r \<Rightarrow> if now < sm_expires_at (sr_metadata r) then Some r else None
      | None \<Rightarrow> None)"

definition store_ok :: "session_store \<Rightarrow> bool" where
  "store_ok store \<longleftrightarrow> bt_ok (st_sessions (ls_state store)) \<and> bt_ok (st_recent_issuances (ls_state store))"

definition limits_ok :: "session_store \<Rightarrow> bool" where
  "limits_ok store \<longleftrightarrow> (let l = ls_limits store; st = ls_state store in
     length (st_sessions st) \<le> sl_max_sessions l
     \<and> (\<forall>who. length (principal_sessions st who) \<le> sl_max_sessions_per_principal l)
     \<and> (\<forall>who. length (recent_of st who) \<le> sl_max_issuances_per_window l))"

lemma verify_record_fst [simp]: "fst (verify_record C now store token) = live C store now token"
  by (simp add: verify_record_def take_active_session_def live_def Let_def split: option.splits)

lemma live_mono: "live C store t token = Some r \<Longrightarrow> t' \<le> t \<Longrightarrow> live C store t' token = Some r"
  by (auto simp: live_def split: option.splits if_splits)

lemma verify_record_live:
  "now \<le> t \<Longrightarrow> live C (snd (verify_record C now store token)) t token' = live C store t token'"
  by (auto simp: verify_record_def take_active_session_def live_def Let_def split: option.splits)

lemma verify_record_store_ok: "store_ok store \<Longrightarrow> store_ok (snd (verify_record C now store token))"
  by (auto simp: verify_record_def take_active_session_def store_ok_def Let_def split: option.splits)

lemma map_of_prune:
  "bt_ok m \<Longrightarrow> map_of (prune_expired_sessions m now) k =
     (case map_of m k of Some r \<Rightarrow> if now < sm_expires_at (sr_metadata r) then Some r else None | None \<Rightarrow> None)"
  by (simp add: prune_expired_sessions_def map_of_bt_retain split: option.splits)

lemma bt_ok_map_values: "bt_ok (map (\<lambda>(k, v). (k, f v)) m) = bt_ok m"
proof -
  have "map fst (map (\<lambda>(k, v). (k, f v)) m) = map fst m" by (induction m) auto
  then show ?thesis by (simp only: bt_ok_def)
qed

lemma map_of_map_values: "map_of (map (\<lambda>(k, v). (k, f v)) m) k = map_option f (map_of m k)"
  by (induction m) auto

lemma prune_recent_ok [intro]: "bt_ok m \<Longrightarrow> bt_ok (prune_recent_issuances m now w)"
  by (auto simp: prune_recent_issuances_def bt_ok_map_values)

lemma prune_recent_of:
  assumes "bt_ok m"
  shows "(case map_of (prune_recent_issuances m now w) who of Some ts \<Rightarrow> ts | None \<Rightarrow> [])
    = filter (still_recent w now) (case map_of m who of Some ts \<Rightarrow> ts | None \<Rightarrow> [])"
  using assms
  by (auto simp: prune_recent_issuances_def map_of_bt_retain bt_ok_map_values map_of_map_values
      split: option.splits)

section \<open>Credential stores as an interface\<close>

text \<open>
  What the request path needs of a credential store: \<open>view s t k\<close> is the record a verification of
  token \<open>k\<close> at time \<open>t\<close> returns, \<open>touch\<close> the state after a verification, \<open>drop_tok\<close> after a
  revocation.
\<close>

locale credential_store =
  fixes ok :: "'s \<Rightarrow> bool"
    and view :: "'s \<Rightarrow> int \<Rightarrow> 'k \<Rightarrow> 'r option"
    and touch :: "int \<Rightarrow> 's \<Rightarrow> 'k \<Rightarrow> 's"
    and drop_tok :: "int \<Rightarrow> 's \<Rightarrow> 'k \<Rightarrow> 's"
  assumes touch_ok: "ok s \<Longrightarrow> ok (touch t s k)"
    and view_touch: "ok s \<Longrightarrow> t \<le> t' \<Longrightarrow> view (touch t s k) t' k' = view s t' k'"
    and view_mono: "ok s \<Longrightarrow> view s t k = Some r \<Longrightarrow> t' \<le> t \<Longrightarrow> view s t' k = Some r"
    and drop_ok: "ok s \<Longrightarrow> ok (drop_tok t s k)"
    and view_drop: "ok s \<Longrightarrow> view (drop_tok t s k) t' k = None"
begin

lemma verifications_observe_only:
  assumes "ok s" "\<forall>(t, k) \<in> set vs. t \<le> t'"
  shows "ok (foldl (\<lambda>s (t, k). touch t s k) s vs)
    \<and> view (foldl (\<lambda>s (t, k). touch t s k) s vs) t' k' = view s t' k'"
  using assms
proof (induction vs arbitrary: s)
  case (Cons v vs)
  obtain t k where v: "v = (t, k)" by (cases v)
  have "ok (touch t s k)" "view (touch t s k) t' k' = view s t' k'"
    using Cons.prems v by (auto simp: touch_ok view_touch)
  then show ?case using Cons.IH [of "touch t s k"] Cons.prems v by auto
qed simp

lemma revoked_stays_revoked:
  assumes "ok s" "\<forall>(t, k) \<in> set vs. t \<le> t'"
  shows "view (foldl (\<lambda>s (t, k). touch t s k) (drop_tok t0 s k0) vs) t' k0 = None"
  using verifications_observe_only [OF drop_ok [OF assms(1)] assms(2)] view_drop [OF assms(1)] by simp

end

definition store_touch :: "session_crypto \<Rightarrow> int \<Rightarrow> session_store \<Rightarrow> string \<Rightarrow> session_store" where
  "store_touch C now store token = snd (verify_record C now store token)"

definition store_drop :: "session_crypto \<Rightarrow> int \<Rightarrow> session_store \<Rightarrow> string \<Rightarrow> session_store" where
  "store_drop C now store token =
     store\<lparr>ls_state := (ls_state store)\<lparr>st_sessions :=
       bt_remove (sc_sha256 C token) (st_sessions (ls_state store))\<rparr>\<rparr>"

lemma live_drop [simp]: "live C (store_drop C now store token) t token = None"
  by (simp add: live_def store_drop_def)

lemma store_drop_ok: "store_ok store \<Longrightarrow> store_ok (store_drop C now store token)"
  by (auto simp: store_ok_def store_drop_def)

interpretation cs: credential_store store_ok "live C" "store_touch C" "store_drop C" for C
  by unfold_locales
    (auto simp: store_touch_def verify_record_live verify_record_store_ok store_drop_ok intro: live_mono)

lemma revoke_session_cases:
  "fst (revoke_session C now store token) = Inr b \<Longrightarrow>
     (\<exists>d. snd (revoke_session C now store token) = (store_drop C now store token)\<lparr>ls_durable := d\<rparr>)
     \<and> (b \<longleftrightarrow> live C store now token \<noteq> None)"
  by (cases store)
    (auto simp: revoke_session_def store_drop_def live_def Let_def split: sum.splits option.splits)

lemma revoke_session_error:
  "fst (revoke_session C now store token) = Inl e \<Longrightarrow> snd (revoke_session C now store token) = store"
  by (auto simp: revoke_session_def Let_def split: sum.splits option.splits)

lemma live_durable [simp]: "live C (store\<lparr>ls_durable := d\<rparr>) = live C store"
  by (simp add: live_def [abs_def])

lemma store_ok_durable [simp]: "store_ok (store\<lparr>ls_durable := d\<rparr>) = store_ok store"
  by (simp add: store_ok_def)

section \<open>Issuing\<close>

lemma issue_loop_Inr:
  assumes "fst (issue_loop C nonce store r who issued_at tokens) = Inr issued"
  shows "map_of (st_sessions (ls_state store)) (sc_sha256 C (is_token issued)) = None
    \<and> is_token issued \<in> set tokens \<and> is_metadata issued = sr_metadata r
    \<and> (\<exists>d. snd (issue_loop C nonce store r who issued_at tokens) =
         store\<lparr>ls_durable := d, ls_state :=
           \<lparr>st_sessions = bt_insert (sc_sha256 C (is_token issued)) r (st_sessions (ls_state store)),
            st_recent_issuances = bt_insert who (recent_of (ls_state store) who @ [issued_at])
              (st_recent_issuances (ls_state store))\<rparr>\<rparr>)"
  using assms
  by (induction C nonce store r who issued_at tokens rule: issue_loop.induct)
    (auto simp: Let_def split: if_splits option.splits sum.splits)

lemma issue_loop_Inl:
  "fst (issue_loop C nonce store r who issued_at tokens) = Inl e \<Longrightarrow>
     snd (issue_loop C nonce store r who issued_at tokens) = store"
  by (induction C nonce store r who issued_at tokens rule: issue_loop.induct)
    (auto simp: Let_def split: if_splits option.splits sum.splits)

definition pruned :: "session_store \<Rightarrow> int \<Rightarrow> session_store_state" where
  "pruned store now = \<lparr>st_sessions = prune_expired_sessions (st_sessions (ls_state store)) now,
     st_recent_issuances = prune_recent_issuances (st_recent_issuances (ls_state store)) now
       (sl_issuance_window (ls_limits store))\<rparr>"

lemma issue_session_Inr:
  assumes "issue_session_record C now gen nonce store user scopes ttl pat = (Inr issued, store')"
  shows "\<exists>expires_at d. time_checked_add now ttl = Some expires_at \<and> 0 < ttl
    \<and> is_metadata issued = session_metadata_new user scopes now expires_at
    \<and> (let r = \<lparr>sr_metadata = is_metadata issued, sr_github_pat = pat\<rparr>;
            who = principal_from_metadata (is_metadata issued); st = pruned store now in
       enforce_session_admission st who now (ls_limits store) = Inr ()
       \<and> map_of (st_sessions st) (sc_sha256 C (is_token issued)) = None
       \<and> store' = store\<lparr>ls_durable := d, ls_state :=
           \<lparr>st_sessions = bt_insert (sc_sha256 C (is_token issued)) r (st_sessions st),
            st_recent_issuances = bt_insert who (recent_of st who @ [now]) (st_recent_issuances st)\<rparr>\<rparr>)"
proof -
  obtain expires_at where e: "time_checked_add now ttl = Some expires_at" "ttl \<noteq> 0"
    using assms by (auto simp: issue_session_record_def split: if_splits option.splits)
  define m where "m = session_metadata_new user scopes now expires_at"
  define store1 where "store1 = store\<lparr>ls_state := pruned store now\<rparr>"
  obtain durable where d: "(case ls_durable store of None \<Rightarrow> Inr None
       | Some db \<Rightarrow> bind_res (unix_timestamp_seconds_i64 now) (\<lambda>seconds.
           map_res (\<lambda>(_, db'). Some db') (delete_expired_sessions db seconds))) = Inr durable"
    and adm: "enforce_session_admission (pruned store now) (principal_from_metadata m) now (ls_limits store) = Inr ()"
    and loop: "issue_loop C nonce (store1\<lparr>ls_durable := durable\<rparr>) \<lparr>sr_metadata = m, sr_github_pat = pat\<rparr>
       (principal_from_metadata m) now (map gen [0..<MAX_LFS_SESSION_TOKEN_GENERATION_ATTEMPTS]) = (Inr issued, store')"
    using assms e
    by (auto simp: issue_session_record_def Let_def m_def store1_def pruned_def split: sum.splits)
  let ?r = "\<lparr>sr_metadata = m, sr_github_pat = pat\<rparr>"
  let ?s = "store1\<lparr>ls_durable := durable\<rparr>"
  have state: "ls_state ?s = pruned store now"
    by (simp add: store1_def)
  have "fst (issue_loop C nonce ?s ?r (principal_from_metadata m) now
      (map gen [0..<MAX_LFS_SESSION_TOKEN_GENERATION_ATTEMPTS])) = Inr issued"
    by (simp add: loop)
  note ends = issue_loop_Inr [OF this, unfolded loop snd_conv state]
  obtain d where "store' = ?s\<lparr>ls_durable := d, ls_state :=
           \<lparr>st_sessions = bt_insert (sc_sha256 C (is_token issued)) ?r (st_sessions (pruned store now)),
            st_recent_issuances = bt_insert (principal_from_metadata m)
              (recent_of (pruned store now) (principal_from_metadata m) @ [now])
              (st_recent_issuances (pruned store now))\<rparr>\<rparr>"
    using ends by blast
  moreover have m: "is_metadata issued = m"
    using ends by simp
  ultimately have "time_checked_add now ttl = Some expires_at \<and> 0 < ttl
    \<and> is_metadata issued = session_metadata_new user scopes now expires_at
    \<and> (let r = \<lparr>sr_metadata = is_metadata issued, sr_github_pat = pat\<rparr>;
            who = principal_from_metadata (is_metadata issued); st = pruned store now in
       enforce_session_admission st who now (ls_limits store) = Inr ()
       \<and> map_of (st_sessions st) (sc_sha256 C (is_token issued)) = None
       \<and> store' = store\<lparr>ls_durable := d, ls_state :=
           \<lparr>st_sessions = bt_insert (sc_sha256 C (is_token issued)) r (st_sessions st),
            st_recent_issuances = bt_insert who (recent_of st who @ [now]) (st_recent_issuances st)\<rparr>\<rparr>)"
    using e adm ends unfolding Let_def m by (cases store) (simp add: store1_def m_def)
  then show ?thesis by blast
qed

lemma issue_session_Inl:
  assumes "issue_session_record C now gen nonce store user scopes ttl pat = (Inl e, store')"
  shows "ls_limits store' = ls_limits store
    \<and> (ls_state store' = ls_state store \<or> ls_state store' = pruned store now)"
proof (cases "ttl = 0 \<or> time_checked_add now ttl = None")
  case True
  then show ?thesis
    using assms by (cases "ttl = 0") (auto simp: issue_session_record_def)
next
  case False
  then obtain expires_at where e: "time_checked_add now ttl = Some expires_at" "0 < ttl" by auto
  have loop: "s' = s" if "issue_loop C nonce s r who t tokens = (Inl d, s')" for s s' r who t tokens d
    using issue_loop_Inl [of C nonce s r who t tokens d] that by simp
  show ?thesis
    using assms e
    by (auto simp: issue_session_record_def Let_def pruned_def split: sum.splits dest!: loop)
qed

section \<open>Limits\<close>

lemma length_filter_insert_new:
  "map_of m k = None \<Longrightarrow>
     length (filter P (map snd (bt_insert k v m))) = length (filter P (map snd m)) + (if P v then 1 else 0)"
  by (induction k v m rule: bt_insert.induct) (auto split: if_splits)

lemma length_prune_expired: "length (prune_expired_sessions m now) \<le> length m"
  by (simp add: prune_expired_sessions_def bt_retain_def)

lemma length_filter_retain: "length (filter Q (map snd (bt_retain P m))) \<le> length (filter Q (map snd m))"
  by (induction m) (auto simp: bt_retain_def)

lemma principal_sessions_pruned:
  "length (principal_sessions (pruned store now) who) \<le> length (principal_sessions (ls_state store) who)"
  using length_filter_retain by (auto simp only: principal_sessions_def pruned_def
      prune_expired_sessions_def session_store_state.select_convs)

lemma recent_of_pruned:
  "store_ok store \<Longrightarrow> recent_of (pruned store now) who =
     filter (still_recent (sl_issuance_window (ls_limits store)) now) (recent_of (ls_state store) who)"
  using prune_recent_of by (auto simp: recent_of_def pruned_def store_ok_def)

lemma pruned_limits:
  assumes "store_ok store" "limits_ok store"
  shows "length (st_sessions (pruned store now)) \<le> sl_max_sessions (ls_limits store)
    \<and> length (principal_sessions (pruned store now) who) \<le> sl_max_sessions_per_principal (ls_limits store)
    \<and> length (recent_of (pruned store now) who) \<le> sl_max_issuances_per_window (ls_limits store)"
proof (intro conjI)
  have bounds: "length (st_sessions (ls_state store)) \<le> sl_max_sessions (ls_limits store)"
    "length (principal_sessions (ls_state store) who) \<le> sl_max_sessions_per_principal (ls_limits store)"
    "length (recent_of (ls_state store) who) \<le> sl_max_issuances_per_window (ls_limits store)"
    using assms(2) by (auto simp: limits_ok_def Let_def)
  show "length (st_sessions (pruned store now)) \<le> sl_max_sessions (ls_limits store)"
    using le_trans [OF length_prune_expired bounds(1)] by (simp add: pruned_def)
  show "length (principal_sessions (pruned store now) who) \<le> sl_max_sessions_per_principal (ls_limits store)"
    by (rule le_trans [OF principal_sessions_pruned bounds(2)])
  show "length (recent_of (pruned store now) who) \<le> sl_max_issuances_per_window (ls_limits store)"
    using le_trans [OF length_filter_le bounds(3)] by (simp add: recent_of_pruned [OF assms(1)])
qed

lemma pruned_ok: "store_ok store \<Longrightarrow>
    bt_ok (st_sessions (pruned store now)) \<and> bt_ok (st_recent_issuances (pruned store now))"
  by (auto simp: pruned_def store_ok_def prune_expired_sessions_def)

lemma admission_Inr:
  "enforce_session_admission st who now l = Inr () \<longleftrightarrow>
     length (principal_sessions st who) < sl_max_sessions_per_principal l
     \<and> (map_of (st_recent_issuances st) who = None
        \<or> length (recent_of st who) < sl_max_issuances_per_window l)
     \<and> length (st_sessions st) < sl_max_sessions l"
  by (auto simp: enforce_session_admission_def Let_def not_le)

lemma principal_sessions_insert:
  assumes "map_of (st_sessions st) k = None"
  shows "length (principal_sessions \<lparr>st_sessions = bt_insert k r (st_sessions st), st_recent_issuances = rs\<rparr> who)
    = length (principal_sessions st who) + (if principal_from_metadata (sr_metadata r) = who then 1 else 0)"
  using length_filter_insert_new [OF assms] by (simp add: principal_sessions_def del: filter_map)

lemma recent_of_insert:
  "bt_ok (st_recent_issuances st) \<Longrightarrow>
   recent_of \<lparr>st_sessions = ss, st_recent_issuances = bt_insert who ts (st_recent_issuances st)\<rparr> p
     = (if p = who then ts else recent_of st p)"
  by (simp add: recent_of_def)

lemma issue_keeps_limits:
  assumes "store_ok store" "limits_ok store" "0 < sl_max_issuances_per_window (ls_limits store)"
  shows "store_ok (snd (issue_session_record C now gen nonce store user scopes ttl pat))
    \<and> limits_ok (snd (issue_session_record C now gen nonce store user scopes ttl pat))"
proof (cases "issue_session_record C now gen nonce store user scopes ttl pat")
  case (Pair res store')
  note pl = pruned_limits [OF assms(1,2)] and po = pruned_ok [OF assms(1)]
  show ?thesis
  proof (cases res)
    case (Inl e)
    then show ?thesis
      using issue_session_Inl [of C now gen nonce store user scopes ttl pat e store'] Pair assms pl po
      by (auto simp: store_ok_def limits_ok_def Let_def)
  next
    case (Inr issued)
    let ?r = "\<lparr>sr_metadata = is_metadata issued, sr_github_pat = pat\<rparr>"
    let ?who = "principal_from_metadata (is_metadata issued)"
    let ?st = "pruned store now"
    obtain d where adm: "enforce_session_admission ?st ?who now (ls_limits store) = Inr ()"
      and fresh: "map_of (st_sessions ?st) (sc_sha256 C (is_token issued)) = None"
      and st': "store' = store\<lparr>ls_durable := d, ls_state :=
           \<lparr>st_sessions = bt_insert (sc_sha256 C (is_token issued)) ?r (st_sessions ?st),
            st_recent_issuances = bt_insert ?who (recent_of ?st ?who @ [now]) (st_recent_issuances ?st)\<rparr>\<rparr>"
      using issue_session_Inr [OF Pair [unfolded Inr]] by (auto simp: Let_def)
    have room: "length (recent_of ?st ?who) < sl_max_issuances_per_window (ls_limits store)"
      using adm assms(3) by (auto simp: admission_Inr recent_of_def)
    have "limits_ok store'"
      using adm pl room by (simp add: limits_ok_def st' Let_def admission_Inr recent_of_insert po
          principal_sessions_insert [OF fresh] length_bt_insert_new [OF fresh])
    moreover have "store_ok store'"
      using po by (auto simp: store_ok_def st')
    ultimately show ?thesis by (simp add: Pair)
  qed
qed

lemma remove_keeps_limits:
  assumes "store_ok store" "limits_ok store"
    "ls_state store' = (ls_state store)\<lparr>st_sessions := bt_remove k (st_sessions (ls_state store))\<rparr>"
    "ls_limits store' = ls_limits store"
  shows "store_ok store' \<and> limits_ok store'"
proof -
  let ?m = "st_sessions (ls_state store)"
  have "length (bt_remove k ?m) \<le> length ?m" by (simp add: bt_remove_def)
  moreover have "length (filter Q (map snd (bt_remove k m))) \<le> length (filter Q (map snd m))"
    for Q and m :: "(string, lfs_session_record) btree"
    by (induction m) (auto simp: bt_remove_def)
  moreover have "recent_of (ls_state store') who = recent_of (ls_state store) who" for who
    by (simp add: recent_of_def assms(3))
  ultimately show ?thesis
    using assms(1,2) le_trans unfolding limits_ok_def Let_def store_ok_def principal_sessions_def assms(3,4)
    by (auto simp del: filter_map) (meson le_trans)+
qed

lemma verify_record_shape:
  "ls_limits (snd (verify_record C now store token)) = ls_limits store
   \<and> (snd (verify_record C now store token) = store
      \<or> ls_state (snd (verify_record C now store token)) =
          (ls_state store)\<lparr>st_sessions := bt_remove (sc_sha256 C token) (st_sessions (ls_state store))\<rparr>)"
  by (auto simp: verify_record_def take_active_session_def Let_def split: option.splits)

lemma revoke_session_shape:
  "ls_limits (snd (revoke_session C now store token)) = ls_limits store
   \<and> (snd (revoke_session C now store token) = store
      \<or> ls_state (snd (revoke_session C now store token)) =
          (ls_state store)\<lparr>st_sessions := bt_remove (sc_sha256 C token) (st_sessions (ls_state store))\<rparr>)"
  by (auto simp: revoke_session_def Let_def split: sum.splits)

text \<open>
  C36: The bounds on the session store (sessions, sessions per principal, issuances per window) are
  an invariant: issuing, verifying and revoking, successful or not, keep them and keep both maps
  well formed.
\<close>

theorem session_limits_invariant:
  assumes "store_ok store" "limits_ok store" "0 < sl_max_issuances_per_window (ls_limits store)"
  shows "(let issued = snd (issue_session_record C now gen nonce store user scopes ttl pat) in
       store_ok issued \<and> limits_ok issued)
    \<and> (let verified = snd (verify_session C now store token) in store_ok verified \<and> limits_ok verified)
    \<and> (let revoked = snd (revoke_session C now store token) in store_ok revoked \<and> limits_ok revoked)"
proof -
  have "store_ok (snd (verify_record C now store token)) \<and> limits_ok (snd (verify_record C now store token))"
    using verify_record_shape [of C now store token] assms
      remove_keeps_limits [OF assms(1,2), of "snd (verify_record C now store token)"] by metis
  moreover have "store_ok (snd (revoke_session C now store token))
      \<and> limits_ok (snd (revoke_session C now store token))"
    using revoke_session_shape [of C now store token] assms
      remove_keeps_limits [OF assms(1,2), of "snd (revoke_session C now store token)"] by metis
  ultimately show ?thesis
    using issue_keeps_limits [OF assms] by (auto simp: Let_def verify_session_def split: prod.splits)
qed

text \<open>A concrete instance of the libraries, for the witnesses.\<close>

definition scopes_text :: "string list \<Rightarrow> string" where
  "scopes_text ss = concat (map (\<lambda>s. concat (map (\<lambda>c. [CHR ''x'', c]) s) @ [CHR '','']) ss)"

fun scopes_of_text :: "string \<Rightarrow> string \<Rightarrow> string list option" where
  "scopes_of_text acc [] = Some []"
| "scopes_of_text acc [c] = (if c = CHR '','' then Some [rev acc] else None)"
| "scopes_of_text acc (c # d # cs) =
     (if c = CHR '','' then map_option ((#) (rev acc)) (scopes_of_text [] (d # cs))
      else scopes_of_text (d # acc) cs)"

lemma scopes_of_text_escaped:
  "scopes_of_text acc (concat (map (\<lambda>c. [CHR ''x'', c]) s) @ CHR '','' # cs) =
     map_option ((#) (rev acc @ s)) (scopes_of_text [] cs)"
proof (induction s arbitrary: acc)
  case Nil
  show ?case by (cases cs) auto
qed simp

lemma scopes_text_round_trip: "scopes_of_text [] (scopes_text ss) = Some ss"
  by (induction ss) (simp_all add: scopes_text_def scopes_of_text_escaped)

definition sample_crypto :: session_crypto where
  "sample_crypto = \<lparr>sc_sha256 = (\<lambda>t. take 32 (t @ replicate 32 CHR ''0'')),
     sc_scopes_to_json = scopes_text, sc_scopes_from_json = scopes_of_text [],
     sc_seal = (\<lambda>n ad m. m), sc_open = (\<lambda>n ad c. Some c)\<rparr>"

lemma sample_crypto_ok: "crypto_ok sample_crypto"
  by (auto simp: crypto_ok_def sample_crypto_def scopes_text_round_trip)

lemma session_limits_invariant_witness:
  "store_ok session_store_new
   \<and> (let issued = snd (issue_session_record sample_crypto 0 (\<lambda>_. ''t'') [] session_store_new
        sample_user [] 1 None) in store_ok issued \<and> limits_ok issued)"
  using session_limits_invariant [of session_store_new sample_crypto 0 "\<lambda>_. ''t''" "[]" sample_user "[]" 1 None
      "''t''"]
  by (simp add: Let_def session_store_new_def store_ok_def limits_ok_def principal_sessions_def
      recent_of_def production_limits_def)

text \<open>
  A successful issuance returns a token that no live session had, whose record (the user, the
  trimmed scopes, the provider token, issued now and expiring after the time to live) is what
  verification returns until that expiry and never after it, and changes what no other token
  verifies to.
\<close>

theorem issue_session_spec:
  assumes "store_ok store"
    and "issue_session_record C now gen nonce store user scopes ttl pat = (Inr issued, store')"
  shows "0 < ttl \<and> is_metadata issued = session_metadata_new user scopes now (now + int ttl)
    \<and> live C store now (is_token issued) = None
    \<and> (\<forall>t. fst (verify_record C t store' (is_token issued)) =
          (if t < now + int ttl
           then Some \<lparr>sr_metadata = is_metadata issued, sr_github_pat = pat\<rparr> else None))
    \<and> (\<forall>t other. now \<le> t \<longrightarrow> sc_sha256 C other \<noteq> sc_sha256 C (is_token issued) \<longrightarrow>
          fst (verify_record C t store' other) = fst (verify_record C t store other))"
proof -
  obtain expires_at d where e: "time_checked_add now ttl = Some expires_at" "0 < ttl"
      "is_metadata issued = session_metadata_new user scopes now expires_at"
    and fresh: "map_of (st_sessions (pruned store now)) (sc_sha256 C (is_token issued)) = None"
    and st': "store' = store\<lparr>ls_durable := d, ls_state :=
           \<lparr>st_sessions = bt_insert (sc_sha256 C (is_token issued))
              \<lparr>sr_metadata = is_metadata issued, sr_github_pat = pat\<rparr> (st_sessions (pruned store now)),
            st_recent_issuances = bt_insert (principal_from_metadata (is_metadata issued))
              (recent_of (pruned store now) (principal_from_metadata (is_metadata issued)) @ [now])
              (st_recent_issuances (pruned store now))\<rparr>\<rparr>"
    using issue_session_Inr [OF assms(2)] by (auto simp: Let_def)
  have exp: "expires_at = now + int ttl"
    using e(1) by (auto simp: time_checked_add_def split: if_splits)
  have view: "map_of (st_sessions (pruned store now)) k =
      (case map_of (st_sessions (ls_state store)) k of
         Some r \<Rightarrow> if now < sm_expires_at (sr_metadata r) then Some r else None | None \<Rightarrow> None)" for k
    using assms(1) by (simp add: pruned_def store_ok_def map_of_prune)
  have "live C store now (is_token issued) = None"
    using fresh by (simp add: live_def view)
  moreover have "live C store' t (is_token issued) =
      (if t < now + int ttl then Some \<lparr>sr_metadata = is_metadata issued, sr_github_pat = pat\<rparr> else None)" for t
    using pruned_ok [OF assms(1), of now] by (simp add: live_def st' e(3) exp session_metadata_new_def)
  moreover have "live C store' t other = live C store t other"
    if "now \<le> t" "sc_sha256 C other \<noteq> sc_sha256 C (is_token issued)" for t other
    using that pruned_ok [OF assms(1), of now] by (auto simp: live_def st' view split: option.splits)
  ultimately show ?thesis
    using e(2,3) exp by auto
qed

definition sample_issued :: "issued_lfs_session server_result \<times> session_store" where
  "sample_issued = issue_session_record sample_crypto 0 (\<lambda>_. ''t'') [] session_store_new sample_user
     [] 1 (Some ''pat'')"

lemma sample_issue:
  "sample_issued = (Inr \<lparr>is_token = ''t'', is_metadata = session_metadata_new sample_user [] 0 1\<rparr>,
     \<lparr>ls_state = \<lparr>st_sessions = [(sc_sha256 sample_crypto ''t'',
          \<lparr>sr_metadata = session_metadata_new sample_user [] 0 1, sr_github_pat = Some ''pat''\<rparr>)],
        st_recent_issuances = [(principal_from_metadata (session_metadata_new sample_user [] 0 1), [0])]\<rparr>,
      ls_durable = None, ls_limits = production_limits\<rparr>)"
  by (simp add: sample_issued_def issue_session_record_def session_store_new_def Let_def
      time_checked_add_def i64_max_int_def NANOS_def production_limits_def prune_expired_sessions_def
      prune_recent_issuances_def bt_retain_def enforce_session_admission_def principal_sessions_def
      recent_of_def MAX_LFS_SESSION_TOKEN_GENERATION_ATTEMPTS_def upt_rec)

lemma issue_session_spec_witness:
  "fst (verify_record sample_crypto 0 (snd sample_issued) ''t'') \<noteq> None
   \<and> fst (verify_record sample_crypto 1 (snd sample_issued) ''t'') = None"
proof -
  have ok: "store_ok session_store_new"
    by (simp add: store_ok_def session_store_new_def)
  show ?thesis
    using issue_session_spec [OF ok sample_issue [unfolded sample_issued_def]]
    by (simp add: sample_issue del: verify_record_fst)
qed

text \<open>
  C35: A revocation that succeeds reports whether the token was live, and from then on the token
  verifies to nothing, at any time and whatever tokens are verified in between; the other tokens
  verify as before. A revocation the database refuses changes nothing.
\<close>

theorem revoke_session_spec:
  assumes "store_ok store"
  shows "(case revoke_session C now store token of
      (Inr was_live, store') \<Rightarrow>
        was_live = (fst (verify_record C now store token) \<noteq> None)
        \<and> (\<forall>t verifications. (\<forall>(time, tok) \<in> set verifications. time \<le> t) \<longrightarrow>
             fst (verify_record C t (foldl (\<lambda>s (time, tok). snd (verify_record C time s tok)) store' verifications)
               token) = None)
        \<and> (\<forall>t other. sc_sha256 C other \<noteq> sc_sha256 C token \<longrightarrow>
             fst (verify_record C t store' other) = fst (verify_record C t store other))
    | (Inl e, store') \<Rightarrow> store' = store)"
proof (cases "revoke_session C now store token")
  case (Pair res store')
  show ?thesis
  proof (cases res)
    case (Inl e)
    then show ?thesis using revoke_session_error [of C now store token e] Pair by simp
  next
    case (Inr b)
    obtain d where st': "store' = (store_drop C now store token)\<lparr>ls_durable := d\<rparr>"
      and b: "b = (live C store now token \<noteq> None)"
      using revoke_session_cases [of C now store token b] Pair Inr by auto
    have ok: "store_ok store'" using assms by (simp add: st' store_drop_ok)
    have none: "live C (foldl (\<lambda>s (time, tok). store_touch C time s tok) store' vs) t token = None"
      if "\<forall>(time, tok) \<in> set vs. time \<le> t" for vs t
      using cs.verifications_observe_only [OF ok that, of C token] by (simp add: st')
    have other: "live C store' t tok = live C store t tok" if "sc_sha256 C tok \<noteq> sc_sha256 C token" for t tok
      using that by (simp add: st') (simp add: live_def store_drop_def)
    show ?thesis
      using none other b by (simp add: Pair Inr store_touch_def)
  qed
qed

lemma revoke_session_spec_witness:
  "store_ok (snd sample_issued)
   \<and> (\<exists>store'. revoke_session sample_crypto 0 (snd sample_issued) ''t'' = (Inr True, store')
        \<and> fst (verify_record sample_crypto 0 store' ''t'') = None)"
proof -
  have ok: "store_ok (snd sample_issued)"
    by (simp add: sample_issue store_ok_def bt_ok_def)
  obtain store' where r: "revoke_session sample_crypto 0 (snd sample_issued) ''t'' = (Inr True, store')"
    by (simp add: sample_issue revoke_session_def Let_def session_metadata_new_def)
  show ?thesis
    using revoke_session_spec [OF ok, of sample_crypto 0 "''t''"] ok r
    by (auto simp del: verify_record_fst dest!: spec [where x = 0] spec [where x = "[]"])
qed

lemma any_suffix_alnum: "\<forall>c t. is_alnum c \<longrightarrow> \<not> P (c # t) \<Longrightarrow> list_all is_alnum s \<Longrightarrow> \<not> any_suffix P s"
  by (induction s) auto

lemma alnum_no_control: "is_alnum c \<Longrightarrow> \<not> is_ascii_control c \<and> byte c \<noteq> 194"
  by (auto simp: is_alnum_def is_digit_def is_upper_def is_lower_def is_ascii_control_def)

lemma github_pat_alnum:
  assumes "list_all is_alnum s" "s \<noteq> []" "length s \<le> 1024"
  shows "github_pat_from_secret s = Inr s"
proof -
  have "trim s = s" using assms(1) by (intro trim_solid_all) (simp add: list_all_iff)
  moreover have "\<not> has_whitespace s"
    unfolding has_whitespace_def using assms(1) by (intro any_suffix_alnum) (auto simp: ws_len_solid)
  moreover have "\<not> has_control s"
    unfolding has_control_def using assms(1)
    by (intro any_suffix_alnum) (auto split: list.splits dest: alnum_no_control)
  ultimately show ?thesis
    using assms by (simp add: github_pat_from_secret_def validate_sensitive_github_value_def Let_def)
qed


section \<open>What a refusal promises\<close>

lemma minimum_None [simp]: "minimum xs = None \<longleftrightarrow> xs = []"
  by (cases xs) auto

lemma minimum_props: "minimum xs = Some m \<Longrightarrow> m \<in> set xs \<and> (\<forall>x \<in> set xs. m \<le> x)"
proof (induction xs arbitrary: m)
  case (Cons a xs)
  then show ?case by (cases "minimum xs") (auto simp: min_def split: if_splits)
qed simp

lemma retry_after_covers:
  assumes "storable_time retry_at" "0 \<le> now"
  shows "1 \<le> uint (retry_after_duration retry_at now)
    \<and> retry_at \<le> now + uint (retry_after_duration retry_at now) * NANOS"
proof -
  define d where "d = (if now \<le> retry_at then retry_at - now else 0)"
  define up where "up = (if 0 < d mod NANOS then d div NANOS + 1 else d div NANOS)"
  have d: "0 \<le> d" "d \<le> retry_at" "retry_at - now \<le> d"
    using assms by (auto simp: d_def storable_time_def)
  have "d div NANOS \<le> retry_at div NANOS"
    using d(2) by (simp add: NANOS_def zdiv_mono1)
  moreover have q: "d = d div NANOS * NANOS + d mod NANOS" "0 \<le> d mod NANOS" "d mod NANOS < NANOS" "0 \<le> d div NANOS"
    using d(1) by (simp_all add: NANOS_def pos_imp_zdiv_nonneg_iff)
  ultimately have up: "0 \<le> up" "up \<le> 2 ^ 63"
    using assms(1) by (auto simp: up_def storable_time_def i64_max_int_def)
  have "up * NANOS = d div NANOS * NANOS + NANOS \<or> up * NANOS = d div NANOS * NANOS \<and> \<not> 0 < d mod NANOS"
    by (simp add: up_def distrib_right)
  then have up_covers: "d \<le> up * NANOS"
    by (elim disjE conjE) (use q in linarith)+
  have "uint (of_int (max 1 (min up (2 ^ 64 - 1))) :: u64) = max 1 up"
    using up by (subst uint_word_of_int_eq, subst take_bit_int_eq_self) auto
  then have n: "uint (retry_after_duration retry_at now) = max 1 up"
    by (simp only: retry_after_duration_def Let_def d_def [symmetric] up_def [symmetric])
  have "up * NANOS \<le> max 1 up * NANOS"
    by (rule mult_right_mono) (auto simp: NANOS_def)
  then have "retry_at \<le> now + max 1 up * NANOS"
    using up_covers d by linarith
  then show ?thesis by (simp add: n)
qed

lemma length_filter_drops:
  "x \<in> set xs \<Longrightarrow> \<not> P x \<Longrightarrow> length (filter P xs) < length xs"
  by (meson length_filter_less)

lemma pruning_drops:
  assumes "r \<in> set (filter Q (map snd m))" "sm_expires_at (sr_metadata r) \<le> now"
  shows "length (filter Q (map snd (prune_expired_sessions m now))) < length (filter Q (map snd m))"
proof -
  have "filter Q (map snd (prune_expired_sessions m now))
      = filter (\<lambda>r. now < sm_expires_at (sr_metadata r)) (filter Q (map snd m))"
    by (induction m) (auto simp: prune_expired_sessions_def bt_retain_def)
  then show ?thesis
    using length_filter_drops [OF assms(1)] assms(2) by auto
qed

definition times_ok :: "session_store \<Rightarrow> bool" where
  "times_ok store \<longleftrightarrow>
     (\<forall>e \<in> set (st_sessions (ls_state store)). storable_time (sm_expires_at (sr_metadata (snd e))))
     \<and> (\<forall>e \<in> set (st_recent_issuances (ls_state store)). \<forall>t \<in> set (snd e).
          storable_time (t + int (sl_issuance_window (ls_limits store))))"

lemma retry_after_expiry_covers:
  assumes "rs \<noteq> []" "\<forall>r \<in> set rs. storable_time (f r)" "0 \<le> now" "n = retry_after_session_expiry (map f rs) now"
  shows "1 \<le> uint n \<and> (\<exists>r \<in> set rs. f r \<le> now + uint n * NANOS)"
proof -
  obtain m where m: "minimum (map f rs) = Some m"
    using assms(1) by (cases "minimum (map f rs)") auto
  then obtain r where "r \<in> set rs" "f r = m"
    using minimum_props [OF m] by auto
  then show ?thesis
    using retry_after_covers [of m now] assms(2-4) m by (auto simp: retry_after_session_expiry_def)
qed

lemma session_slot_frees:
  assumes "sessions = filter Q (map snd (st_sessions (ls_state store)))" "sessions \<noteq> []"
    "times_ok store" "0 \<le> now" "n = retry_after_session_expiry (map (\<lambda>r. sm_expires_at (sr_metadata r)) sessions) now"
  shows "1 \<le> uint n
    \<and> length (filter Q (map snd (st_sessions (pruned store (now + uint n * NANOS))))) < length sessions"
proof -
  have times: "\<forall>r \<in> set sessions. storable_time (sm_expires_at (sr_metadata r))"
    using assms(1,3) by (auto simp: times_ok_def)
  obtain r where "1 \<le> uint n" "r \<in> set sessions" "sm_expires_at (sr_metadata r) \<le> now + uint n * NANOS"
    using retry_after_expiry_covers [OF assms(2) times assms(4,5)] by blast
  then show ?thesis
    using pruning_drops [of r Q "st_sessions (ls_state store)"] assms(1)
    by (simp add: pruned_def del: filter_map set_filter)
qed

lemma issuance_slot_frees:
  assumes "store_ok store" "times_ok store" "0 \<le> now" "recent_of (ls_state store) who \<noteq> []"
    "minimum (List.map_filter (\<lambda>t. time_checked_add t (sl_issuance_window (ls_limits store)))
       (recent_of (ls_state store) who)) = Some retry_at"
    "n = retry_after_duration retry_at now"
  shows "1 \<le> uint n
    \<and> length (recent_of (pruned store (now + uint n * NANOS)) who) < length (recent_of (ls_state store) who)"
proof -
  let ?w = "sl_issuance_window (ls_limits store)"
  have "\<forall>t \<in> set (recent_of (ls_state store) who). storable_time (t + int ?w)"
    using assms(2) by (force simp: recent_of_def times_ok_def split: option.splits dest: map_of_SomeD [OF sym])
  moreover obtain t where t: "t \<in> set (recent_of (ls_state store) who)" "time_checked_add t ?w = Some retry_at"
    using minimum_props [OF assms(5)] by (auto simp: List.map_filter_def)
  ultimately have "storable_time retry_at"
    by (auto simp: time_checked_add_def split: if_splits)
  then have "1 \<le> uint n" "\<not> still_recent ?w (now + uint n * NANOS) t"
    using retry_after_covers [of retry_at now] assms(3,6) t(2) by (auto simp: still_recent_def)
  then show ?thesis
    using t(1) by (simp add: recent_of_pruned [OF assms(1)] length_filter_drops)
qed

text \<open>
  C37: The delay of a rate-limit refusal is at least one second, and waiting it out frees a slot of
  the limit that refused: after that delay fewer sessions of the principal, fewer of its recent
  issuances, or fewer sessions overall remain than the limit allows.
\<close>

theorem refused_issuance_delay:
  assumes "store_ok store" "limits_ok store" "times_ok store" "0 \<le> now"
    and "0 < sl_max_sessions (ls_limits store)" "0 < sl_max_sessions_per_principal (ls_limits store)"
      "0 < sl_max_issuances_per_window (ls_limits store)"
    and representable: "\<forall>t \<in> set (recent_of (ls_state store) who).
      time_checked_add t (sl_issuance_window (ls_limits store)) \<noteq> None"
    and refused: "enforce_session_admission (ls_state store) who now (ls_limits store) = Inl (SvRateLimited n)"
  shows "1 \<le> uint n \<and> (let st = ls_state store; st' = pruned store (now + uint n * NANOS); l = ls_limits store in
      length (principal_sessions st who) = sl_max_sessions_per_principal l
        \<and> length (principal_sessions st' who) < sl_max_sessions_per_principal l
      \<or> length (recent_of st who) = sl_max_issuances_per_window l
        \<and> length (recent_of st' who) < sl_max_issuances_per_window l
      \<or> length (st_sessions st) = sl_max_sessions l
        \<and> length (st_sessions st') < sl_max_sessions l)"
proof -
  let ?st = "ls_state store" and ?l = "ls_limits store"
  let ?mine = "\<lambda>r. principal_from_metadata (sr_metadata r) = who"
  have bounds: "length (st_sessions ?st) \<le> sl_max_sessions ?l"
    "length (principal_sessions ?st who) \<le> sl_max_sessions_per_principal ?l"
    "length (recent_of ?st who) \<le> sl_max_issuances_per_window ?l"
    using assms(2) by (auto simp: limits_ok_def Let_def)
  consider (mine) "sl_max_sessions_per_principal ?l \<le> length (principal_sessions ?st who)"
      "n = retry_after_session_expiry
        (map (\<lambda>r. sm_expires_at (sr_metadata r)) (principal_sessions ?st who)) now"
    | (recent) m where "sl_max_issuances_per_window ?l \<le> length (recent_of ?st who)"
      "minimum (List.map_filter (\<lambda>t. time_checked_add t (sl_issuance_window ?l)) (recent_of ?st who)) = Some m"
      "n = retry_after_duration m now"
    | (all) "sl_max_sessions ?l \<le> length (st_sessions ?st)"
      "n = retry_after_session_expiry
        (map (\<lambda>r. sm_expires_at (sr_metadata r)) (filter (\<lambda>_. True) (map snd (st_sessions ?st)))) now"
    using refused representable assms(7)
    by (auto simp: enforce_session_admission_def Let_def comp_def List.map_filter_def filter_empty_conv
        split: if_splits option.splits)
  then show ?thesis
  proof cases
    case mine
    have "principal_sessions ?st who \<noteq> []" using mine(1) assms(6) by auto
    then have "1 \<le> uint n" "length (principal_sessions (pruned store (now + uint n * NANOS)) who)
        < length (principal_sessions ?st who)"
      using session_slot_frees [OF principal_sessions_def _ assms(3,4) mine(2)]
      by (auto simp: principal_sessions_def simp del: filter_map)
    then show ?thesis
      using mine(1) bounds by (simp add: Let_def)
  next
    case recent
    have "recent_of ?st who \<noteq> []" using recent(1) assms(7) by auto
    then show ?thesis
      using issuance_slot_frees [OF assms(1,3,4) _ recent(2,3)] recent(1) bounds by (simp add: Let_def)
  next
    case all
    have "filter (\<lambda>_. True) (map snd (st_sessions ?st)) \<noteq> []" using all(1) assms(5) by auto
    then have "1 \<le> uint n" "length (st_sessions (pruned store (now + uint n * NANOS))) < length (st_sessions ?st)"
      using session_slot_frees [OF refl _ assms(3,4) all(2)] by auto
    then show ?thesis
      using all(1) bounds by (simp add: Let_def)
  qed
qed

definition full_store :: session_store where
  "full_store = \<lparr>ls_state = ls_state (snd sample_issued), ls_durable = None,
     ls_limits = production_limits\<lparr>sl_max_sessions_per_principal := 1\<rparr>\<rparr>"

lemma refused_issuance_delay_witness:
  "\<exists>n. enforce_session_admission (ls_state full_store)
        (principal_from_metadata (session_metadata_new sample_user [] 0 1)) 0 (ls_limits full_store)
        = Inl (SvRateLimited n) \<and> 1 \<le> uint n"
proof -
  let ?who = "principal_from_metadata (session_metadata_new sample_user [] 0 1)"
  have hyps: "store_ok full_store" "limits_ok full_store" "times_ok full_store"
    "0 < sl_max_sessions (ls_limits full_store)" "0 < sl_max_sessions_per_principal (ls_limits full_store)"
    "0 < sl_max_issuances_per_window (ls_limits full_store)"
    by (auto simp: full_store_def sample_issue store_ok_def limits_ok_def times_ok_def principal_sessions_def
        recent_of_def production_limits_def bt_ok_def session_metadata_new_def storable_time_def NANOS_def
        i64_max_int_def Let_def)
  have representable: "\<forall>t \<in> set (recent_of (ls_state full_store) ?who).
      time_checked_add t (sl_issuance_window (ls_limits full_store)) \<noteq> None"
    by (auto simp: full_store_def sample_issue recent_of_def production_limits_def time_checked_add_def
        NANOS_def i64_max_int_def)
  obtain n where refused: "enforce_session_admission (ls_state full_store) ?who 0 (ls_limits full_store)
      = Inl (SvRateLimited n)"
    by (simp add: full_store_def sample_issue enforce_session_admission_def principal_sessions_def Let_def
        production_limits_def)
  then show ?thesis
    using refused_issuance_delay [OF hyps(1-3) order_refl hyps(4-6) representable refused] by blast
qed

end
