(* ===== verification/State_Result.thy ===== *)
theory State_Result
  imports Prelude
begin

text \<open>
  Fallible operations on a state: an asynchronous method of the program that may fail and may
  change shared state is a function \<open>'s \<Rightarrow> ('e + 'a) \<times> 's\<close>. \<open>bind_sr\<close> is \<open>.await?\<close>: an error
  keeps the state changes made before it.
\<close>

type_synonym ('s, 'e, 'a) sr = "'s \<Rightarrow> ('e + 'a) \<times> 's"

definition ret_sr :: "'a \<Rightarrow> ('s, 'e, 'a) sr" where
  "ret_sr x s = (Inr x, s)"

definition lift_sr :: "'e + 'a \<Rightarrow> ('s, 'e, 'a) sr" where
  "lift_sr r s = (r, s)"

definition bind_sr :: "('s, 'e, 'a) sr \<Rightarrow> ('a \<Rightarrow> ('s, 'e, 'b) sr) \<Rightarrow> ('s, 'e, 'b) sr" where
  "bind_sr m f s = (case m s of (Inl e, s') \<Rightarrow> (Inl e, s') | (Inr x, s') \<Rightarrow> f x s')"

lemma ret_sr_simp [simp]: "ret_sr x s = (Inr x, s)"
  by (simp add: ret_sr_def)

lemma lift_sr_simp [simp]: "lift_sr r s = (r, s)"
  by (simp add: lift_sr_def)

lemma bind_sr_Inr:
  "bind_sr m f s = (Inr y, t) \<longleftrightarrow> (\<exists>x s'. m s = (Inr x, s') \<and> f x s' = (Inr y, t))"
  by (auto simp: bind_sr_def split: prod.splits sum.splits)

lemma bind_sr_Inl:
  "bind_sr m f s = (Inl e, t) \<longleftrightarrow>
     m s = (Inl e, t) \<or> (\<exists>x s'. m s = (Inr x, s') \<and> f x s' = (Inl e, t))"
  by (auto simp: bind_sr_def split: prod.splits sum.splits)

lemma bind_sr_cases:
  assumes "bind_sr m f s = (r, t)"
  obtains (first) e where "m s = (Inl e, t)" "r = Inl e"
    | (second) x s' where "m s = (Inr x, s')" "f x s' = (r, t)"
  using assms by (auto simp: bind_sr_def split: prod.splits sum.splits)

lemma bind_sr_step [simp]: "m s = (Inr x, s') \<Longrightarrow> bind_sr m f s = f x s'"
  "m s = (Inl e, s') \<Longrightarrow> bind_sr m f s = (Inl e, s')"
  by (simp_all add: bind_sr_def)

text \<open>A property of states that the parts keep is kept by the whole.\<close>

definition keeps :: "('s \<Rightarrow> bool) \<Rightarrow> ('s, 'e, 'a) sr \<Rightarrow> bool" where
  "keeps P m \<longleftrightarrow> (\<forall>s. P s \<longrightarrow> P (snd (m s)))"

lemma keeps_bind [intro]:
  "keeps P m \<Longrightarrow> (\<And>x. keeps P (f x)) \<Longrightarrow> keeps P (bind_sr m f)"
  by (fastforce simp: keeps_def bind_sr_def split: prod.splits sum.splits)

lemma keeps_ret [intro]: "keeps P (ret_sr x)"
  by (simp add: keeps_def)

lemma keeps_lift [intro]: "keeps P (lift_sr r)"
  by (simp add: keeps_def)

end
