(* ===== verification/Transfer_Store.thy ===== *)
theory Transfer_Store
  imports Metadata State_Result
begin

text \<open>
  The object transfer store of the server (\<open>src/server/router.rs\<close>) and the storage providers
  composed for it (\<open>src/provider_factory.rs\<close>). A storage provider is code behind a trait object:
  its operations are the fields of \<open>storage_runtime\<close>, functions on a backend state \<open>'w\<close>. The
  store pairs that backend with the metadata database; \<open>now\<close> is the clock.
\<close>

section \<open>Storage providers\<close>

record 'w storage_runtime =
  rt_provider_id :: string
  rt_lookup_object :: "string \<Rightarrow> lfs_object \<Rightarrow> 'w \<Rightarrow> stored_object option storage_result \<times> 'w"
  rt_upload_object :: "string \<Rightarrow> lfs_object \<Rightarrow> string \<Rightarrow> 'w \<Rightarrow> stored_object storage_result \<times> 'w"
  rt_download_object :: "string \<Rightarrow> lfs_object \<Rightarrow> 'w \<Rightarrow> (stored_object \<times> string) storage_result \<times> 'w"
  rt_backend_id_lookup ::
    "(string \<Rightarrow> lfs_object \<Rightarrow> string \<Rightarrow> 'w \<Rightarrow> stored_object option storage_result \<times> 'w) option"
  rt_streaming_download ::
    "(string \<Rightarrow> lfs_object \<Rightarrow> stored_object \<Rightarrow> 'w \<Rightarrow> (stored_object \<times> string) storage_result \<times> 'w) option"

type_synonym 'w configured_providers = "(string, 'w storage_runtime) btree"

text \<open>\<open>ConfiguredStorageProviders::from_provider\<close>.\<close>

fun providers_from_provider ::
  "repository_mapping list \<Rightarrow> 'w storage_runtime \<Rightarrow> 'w configured_providers \<Rightarrow> 'w configured_providers server_result" where
  "providers_from_provider [] provider acc = Inr acc"
| "providers_from_provider (repository # rest) provider acc =
     (if rm_storage_provider repository \<noteq> rt_provider_id provider
      then Inl (SvInvalidConfiguration (''repository '' @ rm_id repository @ '' references storage provider ''
             @ rm_storage_provider repository @ '', but injected provider is '' @ rt_provider_id provider))
      else providers_from_provider rest provider
             (bt_insert (rm_id repository)
                (provider\<lparr>rt_backend_id_lookup := None, rt_streaming_download := None\<rparr>) acc))"

text \<open>The composition step of \<open>ServerStorageProviderFactory::build\<close>, once every root is ready.\<close>

fun build_providers ::
  "(storage_provider_config \<Rightarrow> string \<Rightarrow> 'w storage_runtime) \<Rightarrow> server_config \<Rightarrow> repository_mapping list
     \<Rightarrow> 'w configured_providers \<Rightarrow> 'w configured_providers server_result" where
  "build_providers build_server_provider config [] acc = Inr acc"
| "build_providers build_server_provider config (repository # rest) acc =
     (case map_of (cfg_storage_providers config) (rm_storage_provider repository) of
        None \<Rightarrow> Inl (SvInvalidConfiguration (''repository '' @ rm_id repository
                  @ '' references unknown storage provider '' @ rm_storage_provider repository))
      | Some storage \<Rightarrow> build_providers build_server_provider config rest
          (bt_insert (rm_id repository) (build_server_provider storage (rm_id repository)) acc))"

definition factory_build ::
  "(storage_provider_config \<Rightarrow> storage_error + unit)
     \<Rightarrow> (storage_provider_config \<Rightarrow> string \<Rightarrow> 'w storage_runtime) \<Rightarrow> server_config
     \<Rightarrow> 'w configured_providers server_result" where
  "factory_build validate_server_readiness build_server_provider config =
     bind_res (traverse_res (\<lambda>e. map_err SvStorage (validate_server_readiness (snd e))) (cfg_storage_providers config))
       (\<lambda>_. build_providers build_server_provider config (cfg_repositories config) [])"

definition provider_for ::
  "'w configured_providers \<Rightarrow> repository_mapping \<Rightarrow> 'w storage_runtime server_result" where
  "provider_for providers repository =
     (case map_of providers (rm_id repository) of
        None \<Rightarrow> Inl (SvInvalidConfiguration (''repository '' @ rm_id repository
                  @ '' has no configured server storage provider''))
      | Some provider \<Rightarrow>
          if rt_provider_id provider \<noteq> rm_storage_provider repository
          then Inl (SvInvalidConfiguration (''repository '' @ rm_id repository
                 @ '' references storage provider '' @ rm_storage_provider repository
                 @ '', but composed provider is '' @ rt_provider_id provider))
          else Inr provider)"

section \<open>The store\<close>

record 'w transfer_store =
  ts_db :: metadata_db
  ts_backend :: 'w

text \<open>A database transaction and a provider call, as steps of the store.\<close>

definition db_read :: "(metadata_db \<Rightarrow> 'a server_result) \<Rightarrow> ('w transfer_store, server_error, 'a) sr" where
  "db_read f st = (f (ts_db st), st)"

definition db_write ::
  "(metadata_db \<Rightarrow> ('a \<times> metadata_db) server_result) \<Rightarrow> ('w transfer_store, server_error, 'a) sr" where
  "db_write f st = (case f (ts_db st) of
       Inl e \<Rightarrow> (Inl e, st) | Inr (x, db) \<Rightarrow> (Inr x, st\<lparr>ts_db := db\<rparr>))"

definition backend_call ::
  "('w \<Rightarrow> 'a storage_result \<times> 'w) \<Rightarrow> ('w transfer_store, server_error, 'a) sr" where
  "backend_call f st = (case f (ts_backend st) of (r, w) \<Rightarrow> (map_err SvStorage r, st\<lparr>ts_backend := w\<rparr>))"

definition validate_stored_object_namespace :: "repository_mapping \<Rightarrow> stored_object \<Rightarrow> unit server_result" where
  "validate_stored_object_namespace repository stored =
     (if so_provider_id stored = rm_storage_provider repository
         \<and> so_repository_namespace stored = rm_id repository
      then Inr ()
      else Inl (SvStorage (StRepositoryNamespaceMismatch (rm_storage_provider repository))))"

definition ensure_stored_object_namespace ::
  "repository_mapping \<Rightarrow> stored_object \<Rightarrow> stored_object server_result" where
  "ensure_stored_object_namespace repository stored =
     map_res (\<lambda>_. stored) (validate_stored_object_namespace repository stored)"

definition ensure_optional ::
  "repository_mapping \<Rightarrow> stored_object option \<Rightarrow> stored_object option server_result" where
  "ensure_optional repository found =
     (case found of None \<Rightarrow> Inr None
      | Some stored \<Rightarrow> map_res Some (ensure_stored_object_namespace repository stored))"

definition record_verified_object_metadata ::
  "int \<Rightarrow> repository_mapping \<Rightarrow> lfs_object \<Rightarrow> string \<Rightarrow> repository_user \<Rightarrow> ('w transfer_store, server_error, unit) sr" where
  "record_verified_object_metadata now repository object backend_id created_by =
     db_write (\<lambda>db. map_res (\<lambda>(_, db'). ((), db'))
       (record_verified_object now db (rm_id repository) (rm_storage_provider repository) object backend_id created_by))"

definition store_lookup_metadata ::
  "repository_mapping \<Rightarrow> lfs_object \<Rightarrow> ('w transfer_store, server_error, metadata_object_record option) sr" where
  "store_lookup_metadata repository object =
     db_read (\<lambda>db. lookup_object db (rm_id repository) (rm_storage_provider repository) object)"

definition store_mark_stale ::
  "repository_mapping \<Rightarrow> lfs_object \<Rightarrow> string \<Rightarrow> ('w transfer_store, server_error, bool) sr" where
  "store_mark_stale repository object backend_id =
     db_write (\<lambda>db. mark_object_stale db (rm_id repository) (rm_storage_provider repository) object backend_id)"

definition lookup_and_repair_object_with_runtime ::
  "int \<Rightarrow> repository_mapping \<Rightarrow> lfs_object \<Rightarrow> 'w storage_runtime
     \<Rightarrow> ('w transfer_store, server_error, stored_object option) sr" where
  "lookup_and_repair_object_with_runtime now repository object runtime =
     bind_sr (store_lookup_metadata repository object) (\<lambda>metadata.
       case metadata of
         None \<Rightarrow> bind_sr (backend_call (rt_lookup_object runtime (rm_id repository) object))
                   (\<lambda>found. lift_sr (ensure_optional repository found))
       | Some md \<Rightarrow>
           bind_sr (case rt_backend_id_lookup runtime of
                      None \<Rightarrow> ret_sr None
                    | Some lookup_by_id \<Rightarrow> backend_call (lookup_by_id (rm_id repository) object (mo_backend_id md))) (\<lambda>hit.
           case hit of
             Some stored0 \<Rightarrow>
               bind_sr (lift_sr (ensure_stored_object_namespace repository stored0)) (\<lambda>stored.
               bind_sr (if mo_verification_status md \<noteq> Verified
                        then record_verified_object_metadata now repository object (so_backend_id stored) (mo_created_by md)
                        else ret_sr ()) (\<lambda>_. ret_sr (Some stored)))
           | None \<Rightarrow>
               bind_sr (backend_call (rt_lookup_object runtime (rm_id repository) object)) (\<lambda>found.
               bind_sr (lift_sr (ensure_optional repository found)) (\<lambda>replacement.
               bind_sr (case replacement of
                          Some stored \<Rightarrow>
                            if so_backend_id stored \<noteq> mo_backend_id md \<or> mo_verification_status md \<noteq> Verified
                            then record_verified_object_metadata now repository object (so_backend_id stored) (mo_created_by md)
                            else ret_sr ()
                        | None \<Rightarrow> bind_sr (store_mark_stale repository object (mo_backend_id md)) (\<lambda>_. ret_sr ())) (\<lambda>_.
               ret_sr replacement)))))"

definition lookup_and_repair_object ::
  "int \<Rightarrow> 'w configured_providers \<Rightarrow> repository_mapping \<Rightarrow> lfs_object
     \<Rightarrow> ('w transfer_store, server_error, stored_object option) sr" where
  "lookup_and_repair_object now providers repository object =
     bind_sr (lift_sr (provider_for providers repository)) (\<lambda>runtime.
       lookup_and_repair_object_with_runtime now repository object runtime)"

text \<open>
  The verified fallback download: \<open>tempfile\<close> and \<open>opened\<close> are the outcomes of the staging file
  operations before and after the provider call.
\<close>

definition staged_download_response ::
  "int \<Rightarrow> unit server_result \<Rightarrow> unit server_result \<Rightarrow> repository_mapping \<Rightarrow> lfs_object \<Rightarrow> 'w storage_runtime
     \<Rightarrow> ('w transfer_store, server_error, stored_object \<times> string) sr" where
  "staged_download_response now tempfile opened repository object runtime =
     bind_sr (store_lookup_metadata repository object) (\<lambda>metadata.
     bind_sr (lift_sr tempfile) (\<lambda>_ st.
       case rt_download_object runtime (rm_id repository) object (ts_backend st) of
         (Inl source, w) \<Rightarrow>
           (case (source, metadata) of
              (StObjectNotFound p x n, Some md) \<Rightarrow>
                bind_sr (store_mark_stale repository object (mo_backend_id md))
                  (\<lambda>_. lift_sr (Inl (SvStorage source))) (st\<lparr>ts_backend := w\<rparr>)
            | _ \<Rightarrow> (Inl (SvStorage source), st\<lparr>ts_backend := w\<rparr>))
       | (Inr (stored0, content), w) \<Rightarrow>
           bind_sr (lift_sr (ensure_stored_object_namespace repository stored0)) (\<lambda>stored.
           bind_sr (case metadata of
                      Some md \<Rightarrow>
                        if so_backend_id stored \<noteq> mo_backend_id md \<or> mo_verification_status md \<noteq> Verified
                        then record_verified_object_metadata now repository object (so_backend_id stored) (mo_created_by md)
                        else ret_sr ()
                    | None \<Rightarrow> ret_sr ()) (\<lambda>_.
           bind_sr (lift_sr opened) (\<lambda>_. ret_sr (stored, content)))) (st\<lparr>ts_backend := w\<rparr>)))"

definition store_upload_object ::
  "int \<Rightarrow> 'w configured_providers \<Rightarrow> repository_mapping \<Rightarrow> lfs_object \<Rightarrow> string \<Rightarrow> repository_user
     \<Rightarrow> ('w transfer_store, server_error, stored_object) sr" where
  "store_upload_object now providers repository object content created_by =
     bind_sr (lift_sr (provider_for providers repository)) (\<lambda>runtime.
     bind_sr (backend_call (rt_upload_object runtime (rm_id repository) object content)) (\<lambda>stored0.
     bind_sr (lift_sr (ensure_stored_object_namespace repository stored0)) (\<lambda>stored.
     bind_sr (record_verified_object_metadata now repository object (so_backend_id stored) created_by) (\<lambda>_.
       ret_sr stored))))"

definition store_download_object_response ::
  "int \<Rightarrow> unit server_result \<Rightarrow> unit server_result \<Rightarrow> 'w configured_providers \<Rightarrow> repository_mapping \<Rightarrow> lfs_object
     \<Rightarrow> ('w transfer_store, server_error, stored_object \<times> string) sr" where
  "store_download_object_response now tempfile opened providers repository object =
     bind_sr (lift_sr (provider_for providers repository)) (\<lambda>runtime.
       case rt_streaming_download runtime of
         Some stream_download \<Rightarrow>
           bind_sr (lookup_and_repair_object_with_runtime now repository object runtime) (\<lambda>found.
           bind_sr (lift_sr (ok_or (SvStorage (StObjectNotFound (rm_storage_provider repository)
                       (as_hex (obj_oid object)) (obj_size object))) found)) (\<lambda>stored.
           bind_sr (lift_sr (validate_stored_object_namespace repository stored)) (\<lambda>_.
           bind_sr (backend_call (stream_download (rm_id repository) object stored)) (\<lambda>download.
           bind_sr (lift_sr (validate_stored_object_namespace repository (fst download))) (\<lambda>_.
             ret_sr download)))))
       | None \<Rightarrow> staged_download_response now tempfile opened repository object runtime)"

definition store_record_verified_object ::
  "int \<Rightarrow> 'w configured_providers \<Rightarrow> repository_mapping \<Rightarrow> lfs_object \<Rightarrow> string \<Rightarrow> repository_user
     \<Rightarrow> ('w transfer_store, server_error, unit) sr" where
  "store_record_verified_object now providers repository object backend_id created_by =
     bind_sr (lift_sr (provider_for providers repository)) (\<lambda>_.
       record_verified_object_metadata now repository object backend_id created_by)"

section \<open>How each step moves the index\<close>

definition store_key :: "repository_mapping \<Rightarrow> lfs_object \<Rightarrow> index_key" where
  "store_key repository object = (rm_id repository, rm_storage_provider repository, object)"

definition index_of :: "'w transfer_store \<Rightarrow> index_key \<Rightarrow> (string \<times> bool) option" where
  "index_of st = index_look (ts_db st)"

definition store_sound :: "'w transfer_store \<Rightarrow> bool" where
  "store_sound st \<longleftrightarrow> objects_ok (ts_db st)"

lemma backend_update_view [simp]:
  "index_of (st\<lparr>ts_backend := w\<rparr>) = index_of st" "store_sound (st\<lparr>ts_backend := w\<rparr>) = store_sound st"
  by (simp_all add: index_of_def store_sound_def)

lemma lookup_metadata_view:
  "store_lookup_metadata repository object st = (Inr metadata, st') \<Longrightarrow>
     st' = st \<and> index_of st (store_key repository object) =
       map_option (\<lambda>md. (mo_backend_id md, mo_verification_status md = Verified)) metadata"
  by (cases metadata) (auto simp: store_lookup_metadata_def db_read_def index_of_def index_look_def store_key_def)

lemma lookup_metadata_state: "snd (store_lookup_metadata repository object st) = st"
  by (simp add: store_lookup_metadata_def db_read_def)

lemma record_view:
  assumes "record_verified_object_metadata now repository object b user st = (Inr u, st')"
    "store_sound st" "oid_ok (obj_oid object)"
  shows "store_sound st' \<and> index_of st' = (index_of st)(store_key repository object \<mapsto> (b, True))"
proof -
  obtain r db where r: "record_verified_object now (ts_db st) (rm_id repository) (rm_storage_provider repository)
      object b user = Inr (r, db)" and st': "st' = st\<lparr>ts_db := db\<rparr>"
    using assms(1) by (auto simp: record_verified_object_metadata_def db_write_def split: sum.splits)
  then have put: "index_put now user (ts_db st) (store_key repository object) b = Some db"
    by (simp add: index_put_def store_key_def)
  have valid: "valid_key (store_key repository object)"
    using assms(3) by (simp add: valid_key_def store_key_def)
  show ?thesis
    using ix.put_ok [OF _ valid put] ix.look_put [OF _ valid put] assms(2)
    by (simp add: store_sound_def index_of_def st')
qed

lemma record_error:
  "record_verified_object_metadata now repository object b user st = (Inl e, st') \<Longrightarrow> st' = st"
  by (auto simp: record_verified_object_metadata_def db_write_def split: sum.splits)

lemma mark_stale_view:
  assumes "store_mark_stale repository object b st = (Inr u, st')" "store_sound st"
  shows "store_sound st' \<and> index_of st' = (index_of st)(store_key repository object :=
      map_option (\<lambda>(b', v). (b', v \<and> b' \<noteq> b)) (index_of st (store_key repository object)))"
proof -
  obtain db where db: "mark_object_stale (ts_db st) (rm_id repository) (rm_storage_provider repository) object b
      = Inr (u, db)" and st': "st' = st\<lparr>ts_db := db\<rparr>"
    using assms(1) by (auto simp: store_mark_stale_def db_write_def split: sum.splits)
  then have "ts_db st' = index_stale (ts_db st) (store_key repository object) b"
    by (simp add: index_stale_def store_key_def)
  then show ?thesis
    using ix.look_stale [of "ts_db st" "store_key repository object" b] ix.stale_ok [of "ts_db st"] assms(2)
    by (simp add: store_sound_def index_of_def)
qed

lemma mark_stale_error: "store_mark_stale repository object b st = (Inl e, st') \<Longrightarrow> st' = st"
  by (auto simp: store_mark_stale_def db_write_def split: sum.splits)

lemma backend_call_cases:
  "backend_call f st = (r, st') \<Longrightarrow> \<exists>w. st' = st\<lparr>ts_backend := w\<rparr>"
  by (auto simp: backend_call_def split: prod.splits)

definition in_namespace :: "repository_mapping \<Rightarrow> stored_object \<Rightarrow> bool" where
  "in_namespace repository stored \<longleftrightarrow> so_provider_id stored = rm_storage_provider repository
     \<and> so_repository_namespace stored = rm_id repository"

lemma ensure_Inr [simp]:
  "ensure_stored_object_namespace repository stored = Inr s \<longleftrightarrow> s = stored \<and> in_namespace repository stored"
  by (auto simp: ensure_stored_object_namespace_def validate_stored_object_namespace_def in_namespace_def)

lemma ensure_optional_Inr [simp]:
  "ensure_optional repository found = Inr r \<longleftrightarrow> r = found \<and> (\<forall>s. found = Some s \<longrightarrow> in_namespace repository s)"
  by (cases found) (auto simp: ensure_optional_def)

text \<open>Documented of \<open>BackendIdLookup\<close>: it resolves the backend id it was asked for, or nothing.\<close>

definition resolves_by_id :: "'w storage_runtime \<Rightarrow> bool" where
  "resolves_by_id runtime \<longleftrightarrow> (\<forall>f ns object b w stored w'. rt_backend_id_lookup runtime = Some f \<longrightarrow>
     f ns object b w = (Inr (Some stored), w') \<longrightarrow> so_backend_id stored = b)"

section \<open>Lookup and repair\<close>

lemma repair_step:
  assumes "(if c then record_verified_object_metadata now repository object b user else ret_sr ()) st = (Inr u, st')"
    "store_sound st" "oid_ok (obj_oid object)" "\<not> c \<Longrightarrow> index_of st (store_key repository object) = Some (b, True)"
  shows "store_sound st' \<and> index_of st' = (index_of st)(store_key repository object \<mapsto> (b, True))"
proof (cases c)
  case True
  then show ?thesis using record_view [of now repository object b user st u st'] assms by simp
next
  case False
  then show ?thesis using assms by (auto simp: fun_upd_idem)
qed

lemma lookup_and_repair_found:
  assumes "lookup_and_repair_object_with_runtime now repository object runtime st = (Inr (Some stored), st')"
    "store_sound st" "oid_ok (obj_oid object)" "resolves_by_id runtime"
  shows "in_namespace repository stored \<and> store_sound st'
    \<and> (if index_of st (store_key repository object) = None then index_of st' = index_of st
       else index_of st' = (index_of st)(store_key repository object \<mapsto> (so_backend_id stored, True)))"
proof -
  let ?k = "store_key repository object"
  obtain metadata where md: "store_lookup_metadata repository object st = (Inr metadata, st)"
    using assms(1) lookup_metadata_state [of repository object st]
    by (auto simp: lookup_and_repair_object_with_runtime_def bind_sr_Inr)
  note view = lookup_metadata_view [OF md]
  show ?thesis
  proof (cases metadata)
    case None
    then show ?thesis
      using assms(1,2) md view
      by (auto simp: lookup_and_repair_object_with_runtime_def bind_sr_Inr dest!: backend_call_cases)
  next
    case (Some m)
    have known: "index_of st ?k = Some (mo_backend_id m, mo_verification_status m = Verified)"
      using view Some by simp
    let ?by_id = "case rt_backend_id_lookup runtime of None \<Rightarrow> ret_sr None
      | Some lookup_by_id \<Rightarrow> backend_call (lookup_by_id (rm_id repository) object (mo_backend_id m))"
    obtain hit st1 where hit: "?by_id st = (Inr hit, st1)"
      using assms(1) md Some by (auto simp: lookup_and_repair_object_with_runtime_def bind_sr_Inr)
    obtain w where st1: "st1 = st\<lparr>ts_backend := w\<rparr>"
      using hit by (cases st) (auto split: option.splits dest: backend_call_cases)
    show ?thesis
    proof (cases hit)
      case (Some s)
      have s: "s = stored" "in_namespace repository stored"
        and rest: "\<exists>u. (if mo_verification_status m \<noteq> Verified then record_verified_object_metadata now repository
          object (so_backend_id stored) (mo_created_by m) else ret_sr ()) st1 = (Inr u, st')"
        using assms(1) md \<open>metadata = Some m\<close> hit Some
        by (auto simp: lookup_and_repair_object_with_runtime_def bind_sr_Inr)
      have "so_backend_id stored = mo_backend_id m"
        using hit Some s assms(4)
        by (cases "rt_backend_id_lookup runtime") (fastforce simp: resolves_by_id_def backend_call_def split: prod.splits)+
      then show ?thesis
        using rest repair_step [of "mo_verification_status m \<noteq> Verified" now repository object "so_backend_id stored"
            "mo_created_by m" st1 _ st'] assms(2,3) known s st1
        by (auto simp: store_sound_def)
    next
      case None
      obtain st2 where s: "in_namespace repository stored"
        and st2: "backend_call (rt_lookup_object runtime (rm_id repository) object) st1 = (Inr (Some stored), st2)"
        and rest: "\<exists>u. (if so_backend_id stored \<noteq> mo_backend_id m \<or> mo_verification_status m \<noteq> Verified
          then record_verified_object_metadata now repository object (so_backend_id stored) (mo_created_by m)
          else ret_sr ()) st2 = (Inr u, st')"
        using assms(1) md \<open>metadata = Some m\<close> hit None
        by (auto simp: lookup_and_repair_object_with_runtime_def bind_sr_Inr)
      obtain w2 where "st2 = st1\<lparr>ts_backend := w2\<rparr>" using backend_call_cases [OF st2] by auto
      then show ?thesis
        using rest repair_step [of "so_backend_id stored \<noteq> mo_backend_id m \<or> mo_verification_status m \<noteq> Verified"
            now repository object "so_backend_id stored" "mo_created_by m" st2 _ st'] assms(2,3) known s st1
        by auto
    qed
  qed
qed

lemma lookup_and_repair_missing:
  assumes "lookup_and_repair_object_with_runtime now repository object runtime st = (Inr None, st')" "store_sound st"
  shows "store_sound st' \<and> index_of st' = (index_of st)(store_key repository object :=
      map_option (\<lambda>(b, v). (b, False)) (index_of st (store_key repository object)))"
proof -
  let ?k = "store_key repository object"
  obtain metadata where md: "store_lookup_metadata repository object st = (Inr metadata, st)"
    using assms(1) lookup_metadata_state [of repository object st]
    by (auto simp: lookup_and_repair_object_with_runtime_def bind_sr_Inr)
  note view = lookup_metadata_view [OF md]
  show ?thesis
  proof (cases metadata)
    case None
    then show ?thesis
      using assms md view
      by (auto simp: lookup_and_repair_object_with_runtime_def bind_sr_Inr dest!: backend_call_cases)
  next
    case (Some m)
    let ?by_id = "case rt_backend_id_lookup runtime of None \<Rightarrow> ret_sr None
      | Some lookup_by_id \<Rightarrow> backend_call (lookup_by_id (rm_id repository) object (mo_backend_id m))"
    obtain st1 st2 u where hit: "?by_id st = (Inr None, st1)"
      and st2: "backend_call (rt_lookup_object runtime (rm_id repository) object) st1 = (Inr None, st2)"
      and stale: "store_mark_stale repository object (mo_backend_id m) st2 = (Inr u, st')"
      using assms(1) md Some
      by (auto simp: lookup_and_repair_object_with_runtime_def bind_sr_Inr split: option.splits)
    obtain w where "st1 = st\<lparr>ts_backend := w\<rparr>"
      using hit by (cases st) (auto split: option.splits dest: backend_call_cases)
    moreover obtain w2 where "st2 = st1\<lparr>ts_backend := w2\<rparr>" using backend_call_cases [OF st2] by auto
    ultimately show ?thesis
      using mark_stale_view [OF stale] assms(2) view Some by simp
  qed
qed

text \<open>Operations that only read the database, and operations whose errors leave it alone.\<close>

definition reads_only :: "('w transfer_store, 'e, 'a) sr \<Rightarrow> bool" where
  "reads_only m \<longleftrightarrow> (\<forall>st. ts_db (snd (m st)) = ts_db st)"

definition fails_clean :: "('w transfer_store, 'e, 'a) sr \<Rightarrow> bool" where
  "fails_clean m \<longleftrightarrow> (\<forall>st e st'. m st = (Inl e, st') \<longrightarrow> ts_db st' = ts_db st)"

lemma reads_only_basic:
  "reads_only (backend_call f)" "reads_only (lift_sr r)" "reads_only (ret_sr x)"
  "reads_only (store_lookup_metadata repository object)"
  by (auto simp: reads_only_def backend_call_def store_lookup_metadata_def db_read_def split: prod.splits)

lemma reads_only_option:
  "reads_only a \<Longrightarrow> (\<And>y. reads_only (f y)) \<Longrightarrow> reads_only (case x of None \<Rightarrow> a | Some y \<Rightarrow> f y)"
  by (cases x) auto

lemma fails_clean_basic:
  "fails_clean (record_verified_object_metadata now repository object b user)"
  "fails_clean (store_mark_stale repository object b)"
  "fails_clean (lift_sr r)" "fails_clean (ret_sr x)"
  by (auto simp: fails_clean_def db_write_def record_verified_object_metadata_def store_mark_stale_def
      split: sum.splits)

lemma fails_clean_if: "fails_clean a \<Longrightarrow> fails_clean b \<Longrightarrow> fails_clean (if c then a else b)"
  by simp

lemma fails_clean_option:
  "fails_clean a \<Longrightarrow> (\<And>y. fails_clean (f y)) \<Longrightarrow> fails_clean (case x of None \<Rightarrow> a | Some y \<Rightarrow> f y)"
  by (cases x) auto

lemma fails_clean_last: "fails_clean m \<Longrightarrow> fails_clean (bind_sr m (\<lambda>_. ret_sr x))"
  by (auto simp: fails_clean_def bind_sr_Inl)

lemma fails_clean_bind: "reads_only m \<Longrightarrow> (\<And>x. fails_clean (f x)) \<Longrightarrow> fails_clean (bind_sr m f)"
  unfolding fails_clean_def reads_only_def bind_sr_Inl by (metis snd_conv)

lemmas clean_rules = fails_clean_last fails_clean_if fails_clean_option fails_clean_basic fails_clean_bind
  reads_only_option reads_only_basic

lemma lookup_and_repair_clean:
  "fails_clean (lookup_and_repair_object_with_runtime now repository object runtime)"
  unfolding lookup_and_repair_object_with_runtime_def by (rule clean_rules)+

lemma lookup_and_repair_error:
  "lookup_and_repair_object_with_runtime now repository object runtime st = (Inl e, st') \<Longrightarrow> ts_db st' = ts_db st"
  using lookup_and_repair_clean [of now repository object runtime] by (simp add: fails_clean_def)

text \<open>
  Looking an object up through the transfer store never crosses repositories and leaves the
  index telling the truth it found: a stored object is in the mapping's own provider and
  namespace and, where the index had an entry, that entry is now its backend id, verified; where
  nothing is stored, the entry is no longer verified. No other entry moves, and a failed lookup
  changes nothing in the database.
\<close>

theorem lookup_and_repair_spec:
  assumes "objects_ok (ts_db st)" "oid_ok (obj_oid object)"
    and "\<forall>runtime. provider_for providers repository = Inr runtime \<longrightarrow> resolves_by_id runtime"
  shows "(let key = (rm_id repository, rm_storage_provider repository, object);
              before = index_look (ts_db st)
     in case lookup_and_repair_object now providers repository object st of
         (Inr (Some stored), st') \<Rightarrow>
           so_provider_id stored = rm_storage_provider repository \<and> so_repository_namespace stored = rm_id repository
           \<and> objects_ok (ts_db st')
           \<and> index_look (ts_db st') = (if before key = None then before
                else before(key \<mapsto> (so_backend_id stored, True)))
       | (Inr None, st') \<Rightarrow> objects_ok (ts_db st')
           \<and> index_look (ts_db st') = before(key := map_option (\<lambda>(b, verified). (b, False)) (before key))
       | (Inl e, st') \<Rightarrow> ts_db st' = ts_db st)"
proof (cases "provider_for providers repository")
  case (Inl e)
  then show ?thesis by (simp add: lookup_and_repair_object_def bind_sr_def Let_def)
next
  case (Inr runtime)
  have run: "lookup_and_repair_object now providers repository object st =
      lookup_and_repair_object_with_runtime now repository object runtime st"
    using Inr by (simp add: lookup_and_repair_object_def bind_sr_def)
  have sound: "store_sound st" using assms(1) by (simp add: store_sound_def)
  have byid: "resolves_by_id runtime" using assms(3) Inr by simp
  show ?thesis
  proof (cases "lookup_and_repair_object_with_runtime now repository object runtime st")
    case (Pair r st')
    show ?thesis
      using lookup_and_repair_found [of now repository object runtime st _ st', OF _ sound assms(2) byid]
        lookup_and_repair_missing [of now repository object runtime st st', OF _ sound]
        lookup_and_repair_error [of now repository object runtime st _ st'] Pair
      by (cases r) (auto simp: run Let_def store_sound_def index_of_def store_key_def in_namespace_def
          split: option.splits)
  qed
qed

lemma store_upload_Inr:
  assumes "store_upload_object now providers repository object content user st = (Inr stored, st')"
    "store_sound st" "oid_ok (obj_oid object)"
  shows "in_namespace repository stored \<and> store_sound st'
    \<and> index_of st' = (index_of st)(store_key repository object \<mapsto> (so_backend_id stored, True))
    \<and> (\<exists>runtime. provider_for providers repository = Inr runtime
         \<and> rt_upload_object runtime (rm_id repository) object content (ts_backend st) = (Inr stored, ts_backend st'))"
proof -
  obtain runtime st1 u where rt: "provider_for providers repository = Inr runtime"
    and call: "backend_call (rt_upload_object runtime (rm_id repository) object content) st = (Inr stored, st1)"
    and ns: "in_namespace repository stored"
    and recorded: "record_verified_object_metadata now repository object (so_backend_id stored) user st1 = (Inr u, st')"
    using assms(1) by (auto simp: store_upload_object_def bind_sr_Inr)
  obtain w where st1: "st1 = st\<lparr>ts_backend := w\<rparr>"
    and w: "rt_upload_object runtime (rm_id repository) object content (ts_backend st) = (Inr stored, w)"
    using call by (auto simp: backend_call_def split: prod.splits)
  have "ts_backend st' = w"
    using recorded by (auto simp: record_verified_object_metadata_def db_write_def st1 split: sum.splits)
  then show ?thesis
    using record_view [OF recorded _ assms(3)] assms(2) ns rt w by (simp add: st1)
qed

text \<open>
  A successful upload is in the mapping's provider and namespace, and is what the index
  serves afterwards: its backend id, verified, recorded for the uploading user when it is new. An
  upload the provider refuses or puts elsewhere leaves the database as it was.
\<close>

theorem store_upload_spec:
  assumes "objects_ok (ts_db st)" "oid_ok (obj_oid object)"
  shows "(case store_upload_object now providers repository object content user st of
      (Inr stored, st') \<Rightarrow>
        so_provider_id stored = rm_storage_provider repository \<and> so_repository_namespace stored = rm_id repository
        \<and> objects_ok (ts_db st')
        \<and> index_look (ts_db st') =
            (index_look (ts_db st))((rm_id repository, rm_storage_provider repository, object) \<mapsto> (so_backend_id stored, True))
        \<and> (\<exists>runtime. provider_for providers repository = Inr runtime
             \<and> rt_upload_object runtime (rm_id repository) object content (ts_backend st) = (Inr stored, ts_backend st'))
    | (Inl e, st') \<Rightarrow> ts_db st' = ts_db st)"
proof (cases "store_upload_object now providers repository object content user st")
  case (Pair r st')
  have sound: "store_sound st" using assms(1) by (simp add: store_sound_def)
  show ?thesis
  proof (cases r)
    case (Inl e)
    have "ts_db st' = ts_db st"
      using Pair [unfolded Inl store_upload_object_def]
      by (auto simp: bind_sr_Inl bind_sr_Inr dest!: backend_call_cases record_error)
    then show ?thesis by (simp add: Pair Inl)
  next
    case (Inr stored)
    then show ?thesis
      using store_upload_Inr [OF _ sound assms(2), of now providers repository content user stored st'] Pair
      by (simp add: store_sound_def index_of_def store_key_def in_namespace_def)
  qed
qed

section \<open>Downloads\<close>

text \<open>An operation on one object: no other entry of the index moves.\<close>

definition local_to :: "index_key \<Rightarrow> 'w transfer_store \<Rightarrow> 'w transfer_store \<Rightarrow> bool" where
  "local_to k st st' \<longleftrightarrow> store_sound st' \<and> (\<forall>k'. k' \<noteq> k \<longrightarrow> index_of st' k' = index_of st k')
     \<and> (index_of st' k = None \<longleftrightarrow> index_of st k = None)"

lemma local_to_simps:
  "store_sound st \<Longrightarrow> local_to k st st"
  "local_to k st (st'\<lparr>ts_backend := w\<rparr>) = local_to k st st'"
  "local_to k (st\<lparr>ts_backend := w\<rparr>) st' = local_to k st st'"
  by (auto simp: local_to_def)

lemma local_to_db: "store_sound st \<Longrightarrow> ts_db st' = ts_db st \<Longrightarrow> local_to k st st'"
  by (simp add: local_to_def store_sound_def index_of_def)

lemma lookup_and_repair_local:
  assumes "lookup_and_repair_object_with_runtime now repository object runtime st = (r, st')"
    "store_sound st" "oid_ok (obj_oid object)" "resolves_by_id runtime"
  shows "local_to (store_key repository object) st st'"
proof (cases r)
  case (Inl e)
  then show ?thesis
    using assms lookup_and_repair_error local_to_db by metis
next
  case (Inr found)
  then show ?thesis
    using lookup_and_repair_found [of now repository object runtime st _ st', OF _ assms(2-4)]
      lookup_and_repair_missing [of now repository object runtime st st', OF _ assms(2)] assms(1)
    by (cases found) (auto simp: local_to_def split: if_splits)
qed

lemma staged_download_run:
  assumes "store_lookup_metadata repository object st = (Inr metadata, st)" "tempfile = Inr ()"
  shows "staged_download_response now tempfile opened repository object runtime st =
    (case rt_download_object runtime (rm_id repository) object (ts_backend st) of
       (Inl source, w) \<Rightarrow>
         (case (source, metadata) of
            (StObjectNotFound p x n, Some md) \<Rightarrow>
              bind_sr (store_mark_stale repository object (mo_backend_id md))
                (\<lambda>_. lift_sr (Inl (SvStorage source))) (st\<lparr>ts_backend := w\<rparr>)
          | _ \<Rightarrow> (Inl (SvStorage source), st\<lparr>ts_backend := w\<rparr>))
     | (Inr (stored0, content), w) \<Rightarrow>
         bind_sr (lift_sr (ensure_stored_object_namespace repository stored0)) (\<lambda>stored.
         bind_sr (case metadata of
                    Some md \<Rightarrow>
                      if so_backend_id stored \<noteq> mo_backend_id md \<or> mo_verification_status md \<noteq> Verified
                      then record_verified_object_metadata now repository object (so_backend_id stored) (mo_created_by md)
                      else ret_sr ()
                  | None \<Rightarrow> ret_sr ()) (\<lambda>_.
         bind_sr (lift_sr opened) (\<lambda>_. ret_sr (stored, content)))) (st\<lparr>ts_backend := w\<rparr>))"
  using assms by (simp add: staged_download_response_def bind_sr_def)

lemma staged_download_early:
  assumes "staged_download_response now tempfile opened repository object runtime st = (r, st')"
    "\<not> (\<exists>md. fst (store_lookup_metadata repository object st) = Inr md) \<or> tempfile \<noteq> Inr ()"
  shows "st' = st \<and> (\<exists>e. r = Inl e)"
proof (cases "store_lookup_metadata repository object st")
  case (Pair m st0)
  moreover have "st0 = st" using lookup_metadata_state [of repository object st] Pair by simp
  ultimately show ?thesis
    using assms by (cases m; cases tempfile) (auto simp: staged_download_response_def bind_sr_def)
qed

lemma staged_download_found:
  assumes "staged_download_response now tempfile opened repository object runtime st = (r, st')"
    "store_lookup_metadata repository object st = (Inr metadata, st)" "tempfile = Inr ()"
    "rt_download_object runtime (rm_id repository) object (ts_backend st) = (Inr (stored, content), w)"
    "store_sound st" "oid_ok (obj_oid object)"
  shows "local_to (store_key repository object) st st'
    \<and> (is_ok r \<longrightarrow> r = Inr (stored, content) \<and> in_namespace repository stored
        \<and> (index_of st (store_key repository object) \<noteq> None \<longrightarrow>
             index_of st' (store_key repository object) = Some (so_backend_id stored, True)))"
proof -
  let ?k = "store_key repository object"
  note view = lookup_metadata_view [OF assms(2)]
  note run = assms(1) [unfolded staged_download_run [OF assms(2,3)] assms(4)]
  show ?thesis
  proof (cases "in_namespace repository stored")
    case False
    then obtain e where "ensure_stored_object_namespace repository stored = Inl e"
      by (cases "ensure_stored_object_namespace repository stored") auto
    then show ?thesis
      using run assms(5) by (auto simp: bind_sr_def local_to_simps)
  next
    case True
    then have ns: "ensure_stored_object_namespace repository stored = Inr stored" by simp
    let ?st = "st\<lparr>ts_backend := w\<rparr>"
    let ?repair = "case metadata of Some md \<Rightarrow>
        if so_backend_id stored \<noteq> mo_backend_id md \<or> mo_verification_status md \<noteq> Verified
        then record_verified_object_metadata now repository object (so_backend_id stored) (mo_created_by md)
        else ret_sr () | None \<Rightarrow> ret_sr ()"
    have rest: "bind_sr ?repair (\<lambda>_. bind_sr (lift_sr opened) (\<lambda>_. ret_sr (stored, content))) ?st = (r, st')"
      using run ns by (simp add: bind_sr_def [of "lift_sr (Inr stored)"])
    have repaired: "store_sound st1 \<and> (if metadata = None then index_of st1 = index_of st
        else index_of st1 = (index_of st)(?k \<mapsto> (so_backend_id stored, True)))"
      if "?repair ?st = (Inr u, st1)" for u st1
    proof (cases metadata)
      case None
      then show ?thesis using that assms(5) by auto
    next
      case (Some md)
      then show ?thesis
        using that repair_step [of "so_backend_id stored \<noteq> mo_backend_id md \<or> mo_verification_status md \<noteq> Verified"
            now repository object "so_backend_id stored" "mo_created_by md" ?st u st1] assms(5,6) view
        by auto
    qed
    have failed: "st1 = ?st" if "?repair ?st = (Inl e, st1)" for e st1
      using that by (cases metadata) (auto split: if_splits dest: record_error)
    show ?thesis
    proof (cases "?repair ?st")
      case (Pair u st1)
      show ?thesis
      proof (cases u)
        case (Inl e)
        then show ?thesis
          using rest Pair failed [of e st1] assms(5) by (auto simp: bind_sr_def local_to_simps)
      next
        case (Inr v)
        have "st' = st1 \<and> (is_ok r \<longrightarrow> r = Inr (stored, content))"
          using rest Pair Inr by (cases opened) (auto simp: bind_sr_def)
        then show ?thesis
          using repaired [of v st1] Pair Inr view True by (auto simp: local_to_def split: if_splits)
      qed
    qed
  qed
qed

lemma mark_stale_after_lookup:
  assumes "store_lookup_metadata repository object st = (Inr metadata, st)"
  shows "\<exists>u st'. store_mark_stale repository object b (st\<lparr>ts_backend := w\<rparr>) = (Inr u, st')"
  using assms
  by (cases "md_fault (ts_db st)"; cases st)
    (auto simp: store_lookup_metadata_def db_read_def store_mark_stale_def db_write_def lookup_object_def
      mark_object_stale_def run_sql_def Let_def split: sum.splits)

lemma staged_download_failed:
  assumes "staged_download_response now tempfile opened repository object runtime st = (r, st')"
    "store_lookup_metadata repository object st = (Inr metadata, st)" "tempfile = Inr ()"
    "rt_download_object runtime (rm_id repository) object (ts_backend st) = (Inl source, w)" "store_sound st"
  shows "r = Inl (SvStorage source) \<and> local_to (store_key repository object) st st'
    \<and> ((\<exists>p x n. source = StObjectNotFound p x n) \<longrightarrow>
        index_of st' (store_key repository object) =
          map_option (\<lambda>(b, v). (b, False)) (index_of st (store_key repository object)))"
proof -
  note view = lookup_metadata_view [OF assms(2)]
  note run = assms(1) [unfolded staged_download_run [OF assms(2,3)] assms(4)]
  show ?thesis
  proof (cases "(\<exists>p x n. source = StObjectNotFound p x n) \<and> metadata \<noteq> None")
    case True
    then obtain p x n md where nf: "source = StObjectNotFound p x n" "metadata = Some md" by auto
    obtain u st1 where stale: "store_mark_stale repository object (mo_backend_id md) (st\<lparr>ts_backend := w\<rparr>) = (Inr u, st1)"
      using mark_stale_after_lookup [OF assms(2)] by blast
    then have "r = Inl (SvStorage source)" "st' = st1"
      using run nf by (auto simp: bind_sr_def)
    then show ?thesis
      using mark_stale_view [OF stale] assms(5) view nf by (auto simp: local_to_def)
  next
    case False
    then have "r = Inl (SvStorage source)" "st' = st\<lparr>ts_backend := w\<rparr>"
      using run by (auto split: storage_error.splits option.splits)
    then show ?thesis
      using False view assms(5) by (auto simp: local_to_simps)
  qed
qed

text \<open>
  Downloading through the store touches only the entry of the downloaded object and never
  creates or drops one. A successful answer is in the mapping's provider and namespace and leaves
  a known entry verified; when the fallback download finds that the provider no longer has the
  object, a known entry is no longer verified.
\<close>

theorem store_download_spec:
  assumes "objects_ok (ts_db st)" "oid_ok (obj_oid object)"
    and "provider_for providers repository = Inr runtime" "resolves_by_id runtime"
    and "store_download_object_response now tempfile opened providers repository object st = (r, st')"
  shows "(let key = (rm_id repository, rm_storage_provider repository, object);
              before = index_look (ts_db st); after = index_look (ts_db st')
     in objects_ok (ts_db st')
        \<and> (\<forall>k. k \<noteq> key \<longrightarrow> after k = before k) \<and> (after key = None \<longleftrightarrow> before key = None)
        \<and> (case r of
             Inr (stored, content) \<Rightarrow>
               so_provider_id stored = rm_storage_provider repository
               \<and> so_repository_namespace stored = rm_id repository
               \<and> (before key \<noteq> None \<longrightarrow> (\<exists>b. after key = Some (b, True)))
           | Inl e \<Rightarrow> (\<forall>p x n. rt_streaming_download runtime = None \<longrightarrow> tempfile = Inr () \<longrightarrow> before key \<noteq> None \<longrightarrow>
               fst (rt_download_object runtime (rm_id repository) object (ts_backend st)) = Inl (StObjectNotFound p x n) \<longrightarrow>
               (\<exists>b. after key = Some (b, False)))))"
proof -
  let ?k = "store_key repository object"
  have sound: "store_sound st" using assms(1) by (simp add: store_sound_def)
  have goal: "local_to ?k st st' \<and> (case r of
      Inr (stored, content) \<Rightarrow> in_namespace repository stored
        \<and> (index_of st ?k \<noteq> None \<longrightarrow> (\<exists>b. index_of st' ?k = Some (b, True)))
    | Inl e \<Rightarrow> (\<forall>p x n. rt_streaming_download runtime = None \<longrightarrow> tempfile = Inr () \<longrightarrow> index_of st ?k \<noteq> None \<longrightarrow>
        fst (rt_download_object runtime (rm_id repository) object (ts_backend st)) = Inl (StObjectNotFound p x n) \<longrightarrow>
        (\<exists>b. index_of st' ?k = Some (b, False))))"
  proof (cases "rt_streaming_download runtime")
    case None
    then have run: "staged_download_response now tempfile opened repository object runtime st = (r, st')"
      using assms(3,5) by (simp add: store_download_object_response_def bind_sr_def)
    show ?thesis
    proof (cases "(\<exists>md. fst (store_lookup_metadata repository object st) = Inr md) \<and> tempfile = Inr ()")
      case False
      have "index_of st ?k = None" if "tempfile = Inr ()"
        using False that
        by (auto simp: index_of_def index_look_def store_key_def store_lookup_metadata_def db_read_def split: sum.splits)
      then show ?thesis
        using staged_download_early [OF run] False sound by (auto simp: local_to_simps)
    next
      case True
      then obtain md where md: "store_lookup_metadata repository object st = (Inr md, st)"
        using lookup_metadata_state [of repository object st] by (metis prod.collapse)
      obtain d w where d: "rt_download_object runtime (rm_id repository) object (ts_backend st) = (d, w)"
        by (cases "rt_download_object runtime (rm_id repository) object (ts_backend st)")
      show ?thesis
      proof (cases d)
        case (Inl source)
        then show ?thesis
          using staged_download_failed [OF run md _ d [unfolded Inl] sound] True d by auto
      next
        case (Inr sc)
        obtain stored content where sc: "sc = (stored, content)" by (cases sc)
        show ?thesis
          using staged_download_found [OF run md _ d [unfolded Inr sc] sound assms(2)] True d Inr
          by (cases r) auto
      qed
    qed
  next
    case (Some stream_download)
    let ?look = "lookup_and_repair_object_with_runtime now repository object runtime"
    have run: "bind_sr ?look (\<lambda>found.
           bind_sr (lift_sr (ok_or (SvStorage (StObjectNotFound (rm_storage_provider repository)
                       (as_hex (obj_oid object)) (obj_size object))) found)) (\<lambda>stored.
           bind_sr (lift_sr (validate_stored_object_namespace repository stored)) (\<lambda>_.
           bind_sr (backend_call (stream_download (rm_id repository) object stored)) (\<lambda>download.
           bind_sr (lift_sr (validate_stored_object_namespace repository (fst download))) (\<lambda>_.
             ret_sr download))))) st = (r, st')"
      using assms(3,5) Some by (simp add: store_download_object_response_def bind_sr_def [of "lift_sr (Inr runtime)"])
    obtain f st1 where look: "?look st = (f, st1)" by (cases "?look st")
    have loc: "local_to ?k st st1"
      by (rule lookup_and_repair_local [OF look sound assms(2,4)])
    have st': "\<exists>w. st' = st1\<lparr>ts_backend := w\<rparr>"
    proof -
      have same: "\<exists>w. st' = st'\<lparr>ts_backend := w\<rparr>"
        by (rule exI [of _ "ts_backend st'"]) simp
      then show ?thesis
        using run look
        by (cases f) (auto simp: bind_sr_def split: sum.splits prod.splits dest!: backend_call_cases intro: same)
    qed
    have answer: "\<exists>s. f = Inr (Some s) \<and> in_namespace repository (fst download)" if "r = Inr download" for download
      using run look that
      by (auto simp: bind_sr_Inr validate_stored_object_namespace_def in_namespace_def split: if_splits)
    show ?thesis
    proof (cases r)
      case (Inl e)
      then show ?thesis using loc st' Some by (auto simp: local_to_simps)
    next
      case (Inr download)
      obtain s where "f = Inr (Some s)" "in_namespace repository (fst download)"
        using answer [OF Inr] by auto
      moreover from this have "index_of st ?k \<noteq> None \<Longrightarrow> index_of st1 ?k = Some (so_backend_id s, True)"
        using lookup_and_repair_found [of now repository object runtime st s st1, OF _ sound assms(2,4)] look
        by (auto split: if_splits)
      ultimately show ?thesis
        using loc st' Inr by (cases download) (auto simp: local_to_simps)
    qed
  qed
  show ?thesis
    using goal unfolding local_to_def store_sound_def index_of_def store_key_def in_namespace_def Let_def
    by (auto split: sum.splits)
qed

section \<open>The store over a concrete backend\<close>

text \<open>A backend that keeps objects in a list, used by the witnesses.\<close>

type_synonym memory_backend = "((string \<times> lfs_object) \<times> string \<times> string) list"

definition memory_stored :: "string \<Rightarrow> string \<Rightarrow> lfs_object \<Rightarrow> string \<Rightarrow> stored_object" where
  "memory_stored provider ns object b =
     \<lparr>so_provider_id = provider, so_repository_namespace = ns, so_object = object, so_backend_id = b\<rparr>"

definition memory_runtime :: "string \<Rightarrow> memory_backend storage_runtime" where
  "memory_runtime provider = \<lparr>rt_provider_id = provider,
     rt_lookup_object = (\<lambda>ns object w.
       (Inr (map_option (\<lambda>(b, _). memory_stored provider ns object b) (map_of w (ns, object))), w)),
     rt_upload_object = (\<lambda>ns object content w.
       (Inr (memory_stored provider ns object ''new''), ((ns, object), ''new'', content) # w)),
     rt_download_object = (\<lambda>ns object w. (case map_of w (ns, object) of
         None \<Rightarrow> Inl (StObjectNotFound provider (as_hex (obj_oid object)) (obj_size object))
       | Some (b, content) \<Rightarrow> Inr (memory_stored provider ns object b, content), w)),
     rt_backend_id_lookup = Some (\<lambda>ns object b w.
       (Inr (case map_of w (ns, object) of
               Some (b', _) \<Rightarrow> if b = b' then Some (memory_stored provider ns object b) else None
             | None \<Rightarrow> None), w)),
     rt_streaming_download = None\<rparr>"

lemma memory_resolves: "resolves_by_id (memory_runtime provider)"
  by (auto simp: resolves_by_id_def memory_runtime_def memory_stored_def split: option.splits if_splits)

definition sample_repository :: repository_mapping where
  "sample_repository = sample_mapping ''a'' ''repo''"

definition sample_store :: "memory_backend transfer_store" where
  "sample_store = \<lparr>ts_db = sample_db, ts_backend = [((''a'', sample_object), ''file-1'', ''content'')]\<rparr>"

definition sample_providers :: "memory_backend configured_providers" where
  "sample_providers = [(''a'', memory_runtime ''drive'')]"

lemma sample_repository_simps [simp]:
  "rm_id sample_repository = ''a''" "rm_storage_provider sample_repository = ''drive''"
  "ts_db sample_store = sample_db"
  "ts_backend sample_store = [((''a'', sample_object), ''file-1'', ''content'')]"
  by (simp_all add: sample_repository_def sample_mapping_def sample_store_def)

lemma sample_provider_for: "provider_for sample_providers sample_repository = Inr (memory_runtime ''drive'')"
  by (simp add: provider_for_def sample_providers_def sample_repository_def sample_mapping_def memory_runtime_def)

lemma lookup_and_repair_spec_witness:
  "\<exists>stored st'. lookup_and_repair_object 5 sample_providers sample_repository sample_object sample_store
      = (Inr (Some stored), st') \<and> so_repository_namespace stored = ''a''"
proof -
  have look: "store_lookup_metadata sample_repository sample_object sample_store = (Inr None, sample_store)"
    by (simp add: store_lookup_metadata_def db_read_def lookup_object_def sample_size run_sql_def
        sample_db_def empty_db_def)
  have "\<exists>stored st'. lookup_and_repair_object 5 sample_providers sample_repository sample_object sample_store
      = (Inr (Some stored), st')"
    by (simp add: lookup_and_repair_object_def bind_sr_def sample_provider_for look
        lookup_and_repair_object_with_runtime_def backend_call_def memory_runtime_def
        ensure_optional_def ensure_stored_object_namespace_def validate_stored_object_namespace_def memory_stored_def)
  then show ?thesis
    using lookup_and_repair_spec [of sample_store sample_object sample_providers sample_repository 5]
      sample_db_objects_ok sample_provider_for memory_resolves
    by (auto simp: Let_def)
qed

lemma sample_store_sound: "objects_ok (ts_db sample_store)"
  by (simp add: sample_db_objects_ok)

lemma store_upload_spec_witness:
  "objects_ok (ts_db sample_store)
   \<and> (case store_upload_object 5 sample_providers sample_repository sample_object ''content'' sample_user sample_store of
        (Inr stored, st') \<Rightarrow> index_look (ts_db st') (''a'', ''drive'', sample_object) = Some (so_backend_id stored, True)
      | (Inl e, st') \<Rightarrow> ts_db st' = ts_db sample_store)"
  using store_upload_spec [OF sample_store_sound sample_oid_ok, where now = 5 and providers = sample_providers
      and repository = sample_repository and content = "''content''" and user = sample_user] sample_store_sound
  by (auto split: prod.splits sum.splits)

lemma store_download_spec_witness:
  "case store_download_object_response 5 (Inr ()) (Inr ()) sample_providers sample_repository sample_object sample_store of
     (r, st') \<Rightarrow> objects_ok (ts_db st')"
  using store_download_spec [OF sample_store_sound sample_oid_ok sample_provider_for memory_resolves]
  by (auto simp: Let_def)

end
