(* ===== verification/Staging.thy ===== *)
theory Staging
  imports Errors "HOL-Library.Multiset"
begin

text \<open>
  Upload staging (\<open>src/server/staging.rs\<close>): the coordinator that admits uploads by global and
  per-user permits and by a shared disk budget, the leases that hold them, and the loop that
  stages a request body. The interleaved life of several leases is the step relation
  \<open>staging_step\<close>; a panic of the code is the value \<open>None\<close>.
\<close>

section \<open>Errors\<close>

datatype upload_staging_error =
    UpPayloadTooLarge
  | UpConcurrencyLimit
  | UpInsufficientTempSpace "u64 option" "u64 option"
  | UpTimedOut
  | UpStorage storage_error

type_synonym 'a staging_result = "upload_staging_error + 'a"

definition into_storage_error :: "upload_staging_error \<Rightarrow> storage_error" where
  "into_storage_error e = (case e of
       UpPayloadTooLarge \<Rightarrow> StQuotaExceeded ''lfscloud'' ''upload object exceeded request size limit''
     | UpConcurrencyLimit \<Rightarrow> StRetryable ''lfscloud'' ''upload staging concurrency limit reached''
     | UpInsufficientTempSpace required available \<Rightarrow> StQuotaExceeded ''lfscloud''
         (case (required, available) of
            (Some r, Some a) \<Rightarrow> ''upload staging directory has '' @ nat_dec (unat a)
              @ '' bytes available but requires '' @ nat_dec (unat r) @ '' bytes''
          | (None, Some a) \<Rightarrow> ''upload staging directory has '' @ nat_dec (unat a)
              @ '' bytes available but required space exceeds supported size''
          | _ \<Rightarrow> ''upload staging directory does not have enough free space'')
     | UpTimedOut \<Rightarrow> StRetryable ''lfscloud'' ''upload request body timed out while reading''
     | UpStorage err \<Rightarrow> err)"

text \<open>What the code looks at of a \<open>std::io::Error\<close>.\<close>

record io_error =
  io_storage_full :: bool
  io_quota_exceeded :: bool
  io_raw_os_error :: "int option"
  io_text :: string

definition is_temp_space_exhausted :: "io_error \<Rightarrow> bool" where
  "is_temp_space_exhausted e \<longleftrightarrow> io_storage_full e \<or> io_quota_exceeded e
     \<or> io_raw_os_error e \<in> {Some 28, Some 122, Some 69}"

definition upload_staging_file_io_error :: "io_error \<Rightarrow> string \<Rightarrow> upload_staging_error" where
  "upload_staging_file_io_error e action =
     (if is_temp_space_exhausted e then UpInsufficientTempSpace None None
      else UpStorage (StRetryable ''lfscloud''
             (''upload staging file could not be '' @ action @ '': '' @ io_text e)))"

section \<open>Permits and reservations\<close>

text \<open>
  A per-user semaphore with the number of its strong references, which are the permits out; an
  entry whose count is zero is a dangling \<open>Weak\<close>.
\<close>

record user_semaphore =
  us_available :: nat
  us_strong :: nat

record reservation_state =
  rv_snapshot :: "u64 option"
  rv_reserved :: u64

record staging_coordinator =
  co_global_slots :: nat
  co_per_user_limit :: nat
  co_per_user_slots :: "(string, user_semaphore) btree"
  co_reservations :: reservation_state

record staging_lease =
  le_principal :: string
  le_global :: bool
  le_user :: bool
  le_reservation :: "u64 option"

definition coordinator_new :: "nat \<Rightarrow> nat \<Rightarrow> staging_coordinator" where
  "coordinator_new global_limit per_user_limit =
     \<lparr>co_global_slots = global_limit, co_per_user_limit = per_user_limit, co_per_user_slots = [],
      co_reservations = \<lparr>rv_snapshot = None, rv_reserved = 0\<rparr>\<rparr>"

text \<open>The two halves of \<open>try_acquire\<close>; a failed second half drops the global permit.\<close>

definition acquire_global :: "staging_coordinator \<Rightarrow> staging_coordinator staging_result" where
  "acquire_global co =
     (if co_global_slots co = 0 then Inl UpConcurrencyLimit
      else Inr (co\<lparr>co_global_slots := co_global_slots co - 1\<rparr>))"

definition release_global :: "staging_coordinator \<Rightarrow> staging_coordinator" where
  "release_global co = co\<lparr>co_global_slots := co_global_slots co + 1\<rparr>"

definition acquire_user ::
  "staging_coordinator \<Rightarrow> string \<Rightarrow> unit staging_result \<times> staging_coordinator" where
  "acquire_user co who =
     (let slots = bt_retain (\<lambda>_ sem. us_strong sem > 0) (co_per_user_slots co);
          sem = (case map_of slots who of Some sem \<Rightarrow> sem
                 | None \<Rightarrow> \<lparr>us_available = co_per_user_limit co, us_strong = 0\<rparr>)
      in if us_available sem = 0
         then (Inl UpConcurrencyLimit, co\<lparr>co_per_user_slots := bt_insert who sem slots\<rparr>)
         else (Inr (), co\<lparr>co_per_user_slots :=
                 bt_insert who \<lparr>us_available = us_available sem - 1, us_strong = us_strong sem + 1\<rparr> slots\<rparr>))"

definition release_user :: "staging_coordinator \<Rightarrow> string \<Rightarrow> staging_coordinator" where
  "release_user co who =
     (case map_of (co_per_user_slots co) who of
        Some sem \<Rightarrow> co\<lparr>co_per_user_slots := bt_insert who
          \<lparr>us_available = us_available sem + 1, us_strong = us_strong sem - 1\<rparr> (co_per_user_slots co)\<rparr>
      | None \<Rightarrow> co)"

definition try_acquire ::
  "staging_coordinator \<Rightarrow> string \<Rightarrow> staging_lease staging_result \<times> staging_coordinator" where
  "try_acquire co who =
     (case acquire_global co of
        Inl e \<Rightarrow> (Inl e, co)
      | Inr co1 \<Rightarrow>
          (case acquire_user co1 who of
             (Inl e, co2) \<Rightarrow> (Inl e, release_global co2)
           | (Inr _, co2) \<Rightarrow>
               (Inr \<lparr>le_principal = who, le_global = True, le_user = True, le_reservation = None\<rparr>, co2)))"

definition reserve_with_available_space ::
  "reservation_state \<Rightarrow> u64 \<Rightarrow> u64 \<Rightarrow> u64 \<Rightarrow> u64 staging_result \<times> reservation_state" where
  "reserve_with_available_space rv expected_size min_free available =
     (case checked_add_u64 expected_size min_free of
        None \<Rightarrow> (Inl (UpInsufficientTempSpace None (Some available)), rv)
      | Some request_required \<Rightarrow>
          if available < request_required
          then (Inl (UpInsufficientTempSpace (Some request_required) (Some available)), rv)
          else
            let snapshot = (case rv_snapshot rv of Some s \<Rightarrow> s | None \<Rightarrow> available);
                rv1 = rv\<lparr>rv_snapshot := Some snapshot\<rparr>
            in case Option.bind (checked_add_u64 (rv_reserved rv) expected_size)
                      (\<lambda>reserved. checked_add_u64 reserved min_free) of
                 None \<Rightarrow> (Inl (UpInsufficientTempSpace None (Some snapshot)), rv1)
               | Some aggregate_required \<Rightarrow>
                   if snapshot < aggregate_required
                   then (Inl (UpInsufficientTempSpace (Some aggregate_required) (Some snapshot)), rv1)
                   else (Inr expected_size, rv1\<lparr>rv_reserved := rv_reserved rv + expected_size\<rparr>))"

text \<open>\<open>Drop\<close> of a reservation; \<open>None\<close> is the panic of its \<open>expect\<close>.\<close>

definition drop_reservation :: "reservation_state \<Rightarrow> u64 \<Rightarrow> reservation_state option" where
  "drop_reservation rv bytes =
     map_option (\<lambda>reserved. if reserved = 0 then \<lparr>rv_snapshot = None, rv_reserved = 0\<rparr>
                            else rv\<lparr>rv_reserved := reserved\<rparr>)
       (checked_sub_u64 (rv_reserved rv) bytes)"

definition lease_reserve ::
  "staging_coordinator \<Rightarrow> staging_lease \<Rightarrow> u64 \<Rightarrow> u64 \<Rightarrow> u64
     \<Rightarrow> staging_lease staging_result \<times> staging_coordinator" where
  "lease_reserve co lease expected_size min_free available =
     (case reserve_with_available_space (co_reservations co) expected_size min_free available of
        (Inl e, rv) \<Rightarrow> (Inl e, co\<lparr>co_reservations := rv\<rparr>)
      | (Inr bytes, rv) \<Rightarrow> (Inr (lease\<lparr>le_reservation := Some bytes\<rparr>), co\<lparr>co_reservations := rv\<rparr>))"

text \<open>
  Fields of a lease are dropped in declaration order: global permit, user permit, reservation.
\<close>

definition drop_lease :: "staging_coordinator \<Rightarrow> staging_lease \<Rightarrow> staging_coordinator option" where
  "drop_lease co lease =
     (let co1 = release_user (release_global co) (le_principal lease) in
      case le_reservation lease of
        None \<Rightarrow> Some co1
      | Some bytes \<Rightarrow> map_option (\<lambda>rv. co1\<lparr>co_reservations := rv\<rparr>) (drop_reservation (co_reservations co1) bytes))"

section \<open>Staging a request body\<close>

definition MAX_UPLOAD_OBJECT_BYTES :: u64 where
  "MAX_UPLOAD_OBJECT_BYTES = 5 * 1024 * 1024 * 1024"

definition MIN_UPLOAD_STAGING_FREE_BYTES :: u64 where
  "MIN_UPLOAD_STAGING_FREE_BYTES = 64 * 1024 * 1024"

record staging_guardrails =
  gr_max_upload_bytes :: u64
  gr_min_free_bytes :: u64

definition staging_guardrails_default :: staging_guardrails where
  "staging_guardrails_default =
     \<lparr>gr_max_upload_bytes = MAX_UPLOAD_OBJECT_BYTES, gr_min_free_bytes = MIN_UPLOAD_STAGING_FREE_BYTES\<rparr>"

definition upload_staging_preflight_size :: "u64 option \<Rightarrow> u64 \<Rightarrow> u64 staging_result" where
  "upload_staging_preflight_size expected_size max_upload_bytes =
     (let bytes = (case expected_size of Some n \<Rightarrow> n | None \<Rightarrow> max_upload_bytes) in
      if max_upload_bytes < bytes then Inl UpPayloadTooLarge else Inr bytes)"

text \<open>
  What the environment does while a body is staged: a chunk arrives and is written (or the write
  fails), the body breaks, or nothing arrives within the idle timeout.
\<close>

datatype body_event = BodyChunk string "io_error option" | BodyBroken string | BodyIdle

text \<open>\<open>actual_size.checked_add(chunk.len() as u64)\<close>; a \<open>usize\<close> fits an \<open>u64\<close>.\<close>

definition add_chunk_len :: "u64 \<Rightarrow> string \<Rightarrow> u64 option" where
  "add_chunk_len actual chunk =
     (if unat actual + length chunk < 2 ^ 64 then Some (actual + of_nat (length chunk)) else None)"

text \<open>
  The loop, with the bytes written so far, which are the bytes hashed so far. The second result
  is what the staging file holds in the end.
\<close>

fun stage_chunks ::
  "u64 \<Rightarrow> u64 \<Rightarrow> string \<Rightarrow> body_event list \<Rightarrow> (u64 \<times> string) staging_result \<times> string" where
  "stage_chunks max_bytes actual written [] = (Inr (actual, written), written)"
| "stage_chunks max_bytes actual written (BodyIdle # events) = (Inl UpTimedOut, written)"
| "stage_chunks max_bytes actual written (BodyBroken source # events) =
     (Inl (UpStorage (StRetryable ''lfscloud'' (''upload request body could not be read: '' @ source))), written)"
| "stage_chunks max_bytes actual written (BodyChunk chunk failure # events) =
     (case add_chunk_len actual chunk of
        None \<Rightarrow> (Inl UpPayloadTooLarge, written)
      | Some next_size \<Rightarrow>
          if max_bytes < next_size then (Inl UpPayloadTooLarge, written)
          else case failure of
              Some e \<Rightarrow> (Inl (upload_staging_file_io_error e ''written''), written)
            | None \<Rightarrow> stage_chunks max_bytes next_size (written @ chunk) events)"

record staging_env =
  se_tempfile :: "unit staging_result"
  se_available :: "u64 staging_result"
  se_reopen :: "unit staging_result"
  se_body :: "body_event list"
  se_flush :: "io_error option"

record staged_upload =
  su_lease :: staging_lease
  su_content :: string

text \<open>The digest and size checks after the loop; \<open>sha\<close> is the hexadecimal SHA-256.\<close>

definition verify_staged ::
  "(string \<Rightarrow> string) \<Rightarrow> lfs_oid \<Rightarrow> u64 option \<Rightarrow> u64 \<Rightarrow> string \<Rightarrow> unit staging_result" where
  "verify_staged sha expected_oid expected_size actual_size content =
     (let actual_oid = sha content in
      if (case expected_size of Some n \<Rightarrow> n \<noteq> actual_size | None \<Rightarrow> False)
      then Inl (UpStorage (StIntegrityMismatch (as_hex expected_oid) (the expected_size) actual_oid actual_size))
      else if actual_oid \<noteq> as_hex expected_oid
      then Inl (UpStorage (StIntegrityMismatch (as_hex expected_oid)
             (case expected_size of Some n \<Rightarrow> n | None \<Rightarrow> actual_size) actual_oid actual_size))
      else Inr ())"

definition stage_stream ::
  "(string \<Rightarrow> string) \<Rightarrow> lfs_oid \<Rightarrow> u64 option \<Rightarrow> u64 \<Rightarrow> staging_env \<Rightarrow> string staging_result" where
  "stage_stream sha expected_oid expected_size max_bytes env =
     bind_res (se_reopen env) (\<lambda>_.
     bind_res (fst (stage_chunks max_bytes 0 [] (se_body env))) (\<lambda>(actual_size, content).
     bind_res (case se_flush env of Some e \<Rightarrow> Inl (upload_staging_file_io_error e ''flushed'') | None \<Rightarrow> Inr ()) (\<lambda>_.
     map_res (\<lambda>_. content) (verify_staged sha expected_oid expected_size actual_size content))))"

text \<open>
  The whole operation. A lease is dropped on every early return; the coordinator is \<open>None\<close> when
  that drop panics.
\<close>

definition stage_upload_request_body_with_lease ::
  "(string \<Rightarrow> string) \<Rightarrow> staging_coordinator \<Rightarrow> lfs_oid \<Rightarrow> u64 option \<Rightarrow> staging_guardrails \<Rightarrow> staging_env
     \<Rightarrow> staging_lease \<Rightarrow> staged_upload staging_result \<times> staging_coordinator option" where
  "stage_upload_request_body_with_lease sha co expected_oid expected_size guardrails env lease =
     (case bind_res (upload_staging_preflight_size expected_size (gr_max_upload_bytes guardrails)) (\<lambda>preflight.
           bind_res (se_tempfile env) (\<lambda>_.
           map_res (\<lambda>available. (preflight, available)) (se_available env))) of
        Inl e \<Rightarrow> (Inl e, drop_lease co lease)
      | Inr (preflight, available) \<Rightarrow>
          (case lease_reserve co lease preflight (gr_min_free_bytes guardrails) available of
             (Inl e, co1) \<Rightarrow> (Inl e, drop_lease co1 lease)
           | (Inr lease1, co1) \<Rightarrow>
               (case stage_stream sha expected_oid expected_size (gr_max_upload_bytes guardrails) env of
                  Inl e \<Rightarrow> (Inl e, drop_lease co1 lease1)
                | Inr content \<Rightarrow> (Inr \<lparr>su_lease = lease1, su_content = content\<rparr>, Some co1))))"

section \<open>Several leases at once\<close>

text \<open>
  A system is the coordinator and the leases alive; each step is one atomic action of the code
  (the semaphores and the mutexes make them so). \<open>m\<close> is the free-space floor.
\<close>

record staging_system =
  sy_co :: staging_coordinator
  sy_leases :: "staging_lease multiset"

definition half_lease :: "string \<Rightarrow> staging_lease" where
  "half_lease who = \<lparr>le_principal = who, le_global = True, le_user = False, le_reservation = None\<rparr>"

inductive staging_step :: "u64 \<Rightarrow> staging_system \<Rightarrow> staging_system \<Rightarrow> bool" for m where
  take_global: "acquire_global co = Inr co' \<Longrightarrow>
     staging_step m \<lparr>sy_co = co, sy_leases = M\<rparr> \<lparr>sy_co = co', sy_leases = add_mset (half_lease who) M\<rparr>"
| take_user: "acquire_user co who = (Inr (), co') \<Longrightarrow>
     staging_step m \<lparr>sy_co = co, sy_leases = add_mset (half_lease who) M\<rparr>
       \<lparr>sy_co = co', sy_leases = add_mset ((half_lease who)\<lparr>le_user := True\<rparr>) M\<rparr>"
| refuse_user: "acquire_user co who = (Inl e, co') \<Longrightarrow>
     staging_step m \<lparr>sy_co = co, sy_leases = add_mset (half_lease who) M\<rparr>
       \<lparr>sy_co = release_global co', sy_leases = M\<rparr>"
| reserve: "le_global l \<Longrightarrow> le_user l \<Longrightarrow> le_reservation l = None \<Longrightarrow>
     lease_reserve co l bytes m available = (Inr l', co') \<Longrightarrow>
     staging_step m \<lparr>sy_co = co, sy_leases = add_mset l M\<rparr> \<lparr>sy_co = co', sy_leases = add_mset l' M\<rparr>"
| refuse_space: "le_global l \<Longrightarrow> le_user l \<Longrightarrow> le_reservation l = None \<Longrightarrow>
     lease_reserve co l bytes m available = (Inl e, co') \<Longrightarrow>
     staging_step m \<lparr>sy_co = co, sy_leases = add_mset l M\<rparr> \<lparr>sy_co = co', sy_leases = add_mset l M\<rparr>"
| drop_global: "le_global l \<Longrightarrow> le_user l \<Longrightarrow>
     staging_step m \<lparr>sy_co = co, sy_leases = add_mset l M\<rparr>
       \<lparr>sy_co = release_global co, sy_leases = add_mset (l\<lparr>le_global := False\<rparr>) M\<rparr>"
| drop_user: "\<not> le_global l \<Longrightarrow> le_user l \<Longrightarrow>
     staging_step m \<lparr>sy_co = co, sy_leases = add_mset l M\<rparr>
       \<lparr>sy_co = release_user co (le_principal l), sy_leases = add_mset (l\<lparr>le_user := False\<rparr>) M\<rparr>"
| drop_plain: "\<not> le_global l \<Longrightarrow> \<not> le_user l \<Longrightarrow> le_reservation l = None \<Longrightarrow>
     staging_step m \<lparr>sy_co = co, sy_leases = add_mset l M\<rparr> \<lparr>sy_co = co, sy_leases = M\<rparr>"
| drop_reserved: "\<not> le_global l \<Longrightarrow> \<not> le_user l \<Longrightarrow> le_reservation l = Some bytes \<Longrightarrow>
     drop_reservation (co_reservations co) bytes = Some rv \<Longrightarrow>
     staging_step m \<lparr>sy_co = co, sy_leases = add_mset l M\<rparr>
       \<lparr>sy_co = co\<lparr>co_reservations := rv\<rparr>, sy_leases = M\<rparr>"

inductive staging_reachable :: "u64 \<Rightarrow> nat \<Rightarrow> nat \<Rightarrow> staging_system \<Rightarrow> bool" for m gl ul where
  start: "staging_reachable m gl ul \<lparr>sy_co = coordinator_new gl ul, sy_leases = {#}\<rparr>"
| step: "staging_reachable m gl ul s \<Longrightarrow> staging_step m s t \<Longrightarrow> staging_reachable m gl ul t"

definition users :: "string \<Rightarrow> staging_lease multiset \<Rightarrow> nat" where
  "users who M = size (filter_mset (\<lambda>l. le_user l \<and> le_principal l = who) M)"

definition globals :: "staging_lease multiset \<Rightarrow> nat" where
  "globals M = size (filter_mset le_global M)"

definition bytes_of :: "staging_lease \<Rightarrow> nat" where
  "bytes_of l = (case le_reservation l of None \<Rightarrow> 0 | Some b \<Rightarrow> unat b)"

definition reserved_total :: "staging_lease multiset \<Rightarrow> nat" where
  "reserved_total M = sum_mset (image_mset bytes_of M)"

text \<open>The slot map \<open>slots\<close> agrees with the number \<open>c p\<close> of user permits out for each principal.\<close>

fun slot_ok :: "nat \<Rightarrow> user_semaphore option \<Rightarrow> nat \<Rightarrow> bool" where
  "slot_ok ul None n = (n = 0)"
| "slot_ok ul (Some sem) n = (us_strong sem = n \<and> (n > 0 \<longrightarrow> us_available sem + n = ul))"

definition slots_ok :: "nat \<Rightarrow> (string, user_semaphore) btree \<Rightarrow> (string \<Rightarrow> nat) \<Rightarrow> bool" where
  "slots_ok ul slots c \<longleftrightarrow> bt_ok slots \<and> (\<forall>p. slot_ok ul (map_of slots p) (c p))"

definition budget_ok :: "u64 \<Rightarrow> reservation_state \<Rightarrow> staging_lease multiset \<Rightarrow> bool" where
  "budget_ok m rv M \<longleftrightarrow> unat (rv_reserved rv) = reserved_total M
     \<and> (rv_reserved rv = 0 \<or> (\<exists>s. rv_snapshot rv = Some s \<and> reserved_total M + unat m \<le> unat s))"

definition staging_inv :: "u64 \<Rightarrow> nat \<Rightarrow> nat \<Rightarrow> staging_system \<Rightarrow> bool" where
  "staging_inv m gl ul s \<longleftrightarrow> (let co = sy_co s; M = sy_leases s in
     co_per_user_limit co = ul \<and> co_global_slots co + globals M = gl
     \<and> slots_ok ul (co_per_user_slots co) (\<lambda>p. users p M) \<and> budget_ok m (co_reservations co) M)"

section \<open>The coordinator keeps its accounts\<close>

lemma slots_okD: "slots_ok ul slots c \<Longrightarrow> bt_ok slots \<and> slot_ok ul (map_of slots p) (c p)"
  by (simp add: slots_ok_def)

lemma slots_ok_insert:
  assumes "slots_ok ul slots c" "slot_ok ul (Some sem) n"
  shows "slots_ok ul (bt_insert who sem slots) (c(who := n))"
  using assms by (auto simp: slots_ok_def)

lemma slot_ok_retain:
  assumes "slot_ok ul entry n"
  shows "slot_ok ul (case entry of None \<Rightarrow> None | Some sem \<Rightarrow> if us_strong sem > 0 then Some sem else None) n"
  using assms by (cases entry) auto

lemma slots_ok_retain:
  assumes "slots_ok ul slots c"
  shows "slots_ok ul (bt_retain (\<lambda>_ sem. us_strong sem > 0) slots) c"
proof -
  have ok: "bt_ok slots" and each: "slot_ok ul (map_of slots p) (c p)" for p
    using slots_okD [OF assms] by auto
  show ?thesis
    unfolding slots_ok_def
  proof (intro conjI allI)
    show "slot_ok ul (map_of (bt_retain (\<lambda>_ sem. us_strong sem > 0) slots) p) (c p)" for p
      using slot_ok_retain [OF each [of p]] by (simp only: map_of_bt_retain [OF ok])
  qed (rule bt_ok_retain [OF ok])
qed

lemma acquire_user_ok:
  assumes "slots_ok ul (co_per_user_slots co) c" "co_per_user_limit co = ul"
  shows "(case acquire_user co who of
      (Inr _, co') \<Rightarrow> c who < ul \<and> slots_ok ul (co_per_user_slots co') (c(who := c who + 1))
    | (Inl e, co') \<Rightarrow> c who = ul \<and> e = UpConcurrencyLimit \<and> slots_ok ul (co_per_user_slots co') c)
    \<and> co_per_user_limit (snd (acquire_user co who)) = ul
    \<and> co_global_slots (snd (acquire_user co who)) = co_global_slots co
    \<and> co_reservations (snd (acquire_user co who)) = co_reservations co"
proof -
  let ?slots = "bt_retain (\<lambda>_ sem. us_strong sem > 0) (co_per_user_slots co)"
  define sem where "sem = (case map_of ?slots who of Some sem \<Rightarrow> sem
    | None \<Rightarrow> \<lparr>us_available = co_per_user_limit co, us_strong = 0\<rparr>)"
  note kept = slots_ok_retain [OF assms(1)]
  have alive: "us_strong s > 0" if "map_of ?slots who = Some s" for s
    using map_of_SomeD [OF that] by simp
  have sem: "us_strong sem = c who \<and> us_available sem + c who = ul"
  proof (cases "map_of ?slots who")
    case None
    then show ?thesis using slots_okD [OF kept, of who] assms(2) by (simp add: sem_def)
  next
    case (Some s)
    then show ?thesis using slots_okD [OF kept, of who] alive [OF Some] by (simp add: sem_def)
  qed
  have taken: "slots_ok ul (bt_insert who \<lparr>us_available = us_available sem - 1, us_strong = us_strong sem + 1\<rparr> ?slots)
      (c(who := c who + 1))" if "us_available sem \<noteq> 0"
    using that sem by (intro slots_ok_insert [OF kept]) simp
  have refused: "slots_ok ul (bt_insert who sem ?slots) c"
    using slots_ok_insert [OF kept, of sem "c who" who] sem by simp
  show ?thesis
    using sem taken refused assms(2) by (simp add: acquire_user_def Let_def sem_def [symmetric])
qed

lemma release_user_ok:
  assumes "slots_ok ul (co_per_user_slots co) c" "c who > 0"
  shows "slots_ok ul (co_per_user_slots (release_user co who)) (c(who := c who - 1))
    \<and> co_per_user_limit (release_user co who) = co_per_user_limit co
    \<and> co_global_slots (release_user co who) = co_global_slots co
    \<and> co_reservations (release_user co who) = co_reservations co"
proof -
  obtain sem where sem: "map_of (co_per_user_slots co) who = Some sem"
    using assms slots_okD [OF assms(1), of who] by (cases "map_of (co_per_user_slots co) who") auto
  have "slots_ok ul (bt_insert who \<lparr>us_available = us_available sem + 1, us_strong = us_strong sem - 1\<rparr>
      (co_per_user_slots co)) (c(who := c who - 1))"
    using slots_okD [OF assms(1), of who] sem assms by (intro slots_ok_insert) auto
  then show ?thesis by (simp add: release_user_def sem)
qed

lemma reserve_ok:
  assumes "budget_ok m rv M"
  shows "(case reserve_with_available_space rv bytes m available of
      (Inr b, rv') \<Rightarrow> b = bytes \<and> unat (rv_reserved rv') = reserved_total M + unat bytes
        \<and> (\<exists>s. rv_snapshot rv' = Some s \<and> unat (rv_reserved rv') + unat m \<le> unat s)
    | (Inl e, rv') \<Rightarrow> budget_ok m rv' M)"
proof -
  let ?s = "case rv_snapshot rv of Some s \<Rightarrow> s | None \<Rightarrow> available"
  have total: "unat (rv_reserved rv) = reserved_total M" using assms by (simp add: budget_ok_def)
  have kept: "budget_ok m (rv\<lparr>rv_snapshot := Some ?s\<rparr>) M"
    using assms by (auto simp: budget_ok_def)
  have taken: "unat (rv_reserved rv + bytes) = reserved_total M + unat bytes
      \<and> unat (rv_reserved rv + bytes) + unat m \<le> unat ?s"
    if agg: "Option.bind (checked_add_u64 (rv_reserved rv) bytes) (\<lambda>reserved. checked_add_u64 reserved m) = Some agg"
      and fits: "\<not> ?s < agg" for agg
  proof -
    obtain r where r: "checked_add_u64 (rv_reserved rv) bytes = Some r" "checked_add_u64 r m = Some agg"
      using agg unfolding Option.bind_eq_Some_conv by blast
    have "r = rv_reserved rv + bytes" using r(1) by (auto simp: checked_add_u64_def split: if_splits)
    then show ?thesis
      using checked_add_u64_Some [OF r(1)] checked_add_u64_Some [OF r(2)] fits total
      by (simp add: word_less_nat_alt)
  qed
  show ?thesis
    using assms kept taken unfolding reserve_with_available_space_def Let_def
    by (auto split: option.split simp del: Option.bind_eq_None_conv)
qed

lemma globals_add [simp]: "globals (add_mset l M) = globals M + (if le_global l then 1 else 0)"
  by (simp add: globals_def)

lemma users_add [simp]: "users p (add_mset l M) = users p M + (if le_user l \<and> le_principal l = p then 1 else 0)"
  by (simp add: users_def)

lemma reserved_add [simp]: "reserved_total (add_mset l M) = reserved_total M + bytes_of l"
  by (simp add: reserved_total_def)

lemma empty_counts [simp]: "globals {#} = 0" "users p {#} = 0" "reserved_total {#} = 0"
  by (simp_all add: globals_def users_def reserved_total_def)

lemma half_lease_simps [simp]:
  "le_principal (half_lease who) = who" "le_global (half_lease who)" "\<not> le_user (half_lease who)"
  "le_reservation (half_lease who) = None"
  by (simp_all add: half_lease_def)

lemma bytes_of_simps [simp]:
  "bytes_of (l\<lparr>le_user := b\<rparr>) = bytes_of l" "bytes_of (l\<lparr>le_global := b\<rparr>) = bytes_of l"
  "bytes_of (l\<lparr>le_reservation := Some n\<rparr>) = unat n" "le_reservation l = None \<Longrightarrow> bytes_of l = 0"
  by (simp_all add: bytes_of_def)

lemma users_fun_add:
  "(\<lambda>p. users p (add_mset l M)) =
     (if le_user l then (\<lambda>p. users p M)(le_principal l := users (le_principal l) M + 1) else (\<lambda>p. users p M))"
  by auto

lemma drop_reservation_ok:
  assumes "budget_ok m rv (add_mset l M)" "le_reservation l = Some bytes"
  shows "\<exists>rv'. drop_reservation rv bytes = Some rv' \<and> budget_ok m rv' M"
proof -
  have total: "unat (rv_reserved rv) = reserved_total M + unat bytes"
    using assms by (simp add: budget_ok_def bytes_of_def)
  then have "bytes \<le> rv_reserved rv" by (simp add: word_le_nat_alt)
  then obtain r where r: "checked_sub_u64 (rv_reserved rv) bytes = Some r"
    by (simp add: checked_sub_u64_def)
  then have "unat r = reserved_total M"
    using checked_sub_u64_Some [OF r] total by simp
  then show ?thesis
    using assms(1) r total by (auto simp: drop_reservation_def budget_ok_def unat_eq_0 [symmetric])
qed

lemma coordinator_release_global [simp]:
  "co_per_user_limit (release_global co) = co_per_user_limit co"
  "co_global_slots (release_global co) = co_global_slots co + 1"
  "co_per_user_slots (release_global co) = co_per_user_slots co"
  "co_reservations (release_global co) = co_reservations co"
  by (simp_all add: release_global_def)

lemma lease_reserve_ok:
  assumes "budget_ok m (co_reservations co) (add_mset l M)" "le_reservation l = None"
  shows "(case lease_reserve co l bytes m available of
      (Inr l', co') \<Rightarrow> l' = l\<lparr>le_reservation := Some bytes\<rparr>
        \<and> (\<exists>rv. co' = co\<lparr>co_reservations := rv\<rparr> \<and> budget_ok m rv (add_mset l' M))
    | (Inl e, co') \<Rightarrow> \<exists>rv. co' = co\<lparr>co_reservations := rv\<rparr> \<and> budget_ok m rv (add_mset l M))"
  using reserve_ok [OF assms(1), of bytes available] assms(2)
  by (auto simp: lease_reserve_def budget_ok_def split: sum.splits prod.splits)

lemma staging_step_inv:
  "staging_step m s t \<Longrightarrow> staging_inv m gl ul s \<Longrightarrow> staging_inv m gl ul t"
proof (induction rule: staging_step.induct)
  case (take_global co co' who M)
  then show ?case
    by (auto simp: staging_inv_def acquire_global_def Let_def users_fun_add budget_ok_def split: if_splits)
next
  case (take_user co who co' M)
  have "(\<lambda>p. users p M + (if who = p then 1 else 0)) = (\<lambda>p. users p M)(who := Suc (users who M))"
    by auto
  then show ?case
    using take_user acquire_user_ok [of ul co "\<lambda>p. users p M" who]
    by (auto simp: staging_inv_def Let_def users_fun_add budget_ok_def)
next
  case (refuse_user co who e co' M)
  then show ?case
    using acquire_user_ok [of ul co "\<lambda>p. users p M" who]
    by (auto simp: staging_inv_def Let_def users_fun_add budget_ok_def)
next
  case (reserve l co bytes available l' co' M)
  then show ?case
    using lease_reserve_ok [of m co l M bytes available] by (auto simp: staging_inv_def Let_def users_fun_add)
next
  case (refuse_space l co bytes available e co' M)
  then show ?case
    using lease_reserve_ok [of m co l M bytes available] by (auto simp: staging_inv_def Let_def users_fun_add)
next
  case (drop_global l co M)
  then show ?case by (auto simp: staging_inv_def Let_def users_fun_add budget_ok_def)
next
  case (drop_user l co M)
  have "((\<lambda>p. users p M + (if le_principal l = p then 1 else 0))(le_principal l := users (le_principal l) M)) =
      (\<lambda>p. users p M)"
    by auto
  then show ?case
    using drop_user release_user_ok [of ul co "\<lambda>p. users p (add_mset l M)" "le_principal l"]
    by (auto simp: staging_inv_def Let_def users_fun_add budget_ok_def)
next
  case (drop_plain l co M)
  then show ?case by (auto simp: staging_inv_def Let_def users_fun_add budget_ok_def)
next
  case (drop_reserved l bytes co rv M)
  then show ?case
    using drop_reservation_ok [of m "co_reservations co" l M bytes] by (auto simp: staging_inv_def Let_def users_fun_add)
qed

lemma staging_reachable_inv: "staging_reachable m gl ul s \<Longrightarrow> staging_inv m gl ul s"
proof (induction rule: staging_reachable.induct)
  case start
  show ?case by (simp add: staging_inv_def coordinator_new_def slots_ok_def budget_ok_def)
qed (blast intro: staging_step_inv)

section \<open>Admission\<close>

text \<open>
  C8: In every reachable state of the staging coordinator, at most the global number of leases
  hold a permit, no principal holds more than its own limit, the reserved bytes are exactly the
  sum of the live reservations, and while that sum is not zero it leaves the free-space floor
  untouched in the frozen snapshot of the disk.
\<close>

theorem staging_bounds:
  assumes "staging_reachable m gl ul s"
  shows "size (filter_mset le_global (sy_leases s)) \<le> gl
    \<and> (\<forall>who. size (filter_mset (\<lambda>l. le_user l \<and> le_principal l = who) (sy_leases s)) \<le> ul)
    \<and> (let rv = co_reservations (sy_co s);
            live = sum_mset (image_mset (\<lambda>l. case le_reservation l of None \<Rightarrow> 0 | Some b \<Rightarrow> unat b) (sy_leases s))
       in unat (rv_reserved rv) = live
          \<and> (live = 0 \<or> (\<exists>snapshot. rv_snapshot rv = Some snapshot \<and> live + unat m \<le> unat snapshot)))"
proof -
  have inv: "staging_inv m gl ul s" by (rule staging_reachable_inv [OF assms])
  have "users who (sy_leases s) \<le> ul" for who
  proof -
    have "slot_ok ul (map_of (co_per_user_slots (sy_co s)) who) (users who (sy_leases s))"
      using inv slots_okD by (auto simp: staging_inv_def Let_def)
    then show ?thesis by (cases "map_of (co_per_user_slots (sy_co s)) who") auto
  qed
  moreover have "(\<lambda>l. case le_reservation l of None \<Rightarrow> 0 | Some b \<Rightarrow> unat b) = bytes_of"
    by (simp add: bytes_of_def [abs_def])
  ultimately show ?thesis
    using inv by (auto simp: staging_inv_def Let_def users_def globals_def budget_ok_def reserved_total_def
        unat_eq_0 [symmetric])
qed

definition one_lease :: staging_system where
  "one_lease = \<lparr>sy_co = \<lparr>co_global_slots = 0, co_per_user_limit = 1,
       co_per_user_slots = [(''u'', \<lparr>us_available = 0, us_strong = 1\<rparr>)],
       co_reservations = \<lparr>rv_snapshot = Some 100, rv_reserved = 30\<rparr>\<rparr>,
     sy_leases = {#\<lparr>le_principal = ''u'', le_global = True, le_user = True, le_reservation = Some 30\<rparr>#}\<rparr>"

lemma one_lease_reachable: "staging_reachable 50 1 1 one_lease"
proof -
  let ?co1 = "(coordinator_new 1 1)\<lparr>co_global_slots := 0\<rparr>"
  let ?co2 = "?co1\<lparr>co_per_user_slots := [(''u'', \<lparr>us_available = 0, us_strong = 1\<rparr>)]\<rparr>"
  have 1: "staging_reachable 50 1 1 \<lparr>sy_co = ?co1, sy_leases = {#half_lease ''u''#}\<rparr>"
    by (rule staging_reachable.step [OF staging_reachable.start], rule staging_step.take_global)
      (simp add: acquire_global_def coordinator_new_def)
  have 2: "staging_reachable 50 1 1 \<lparr>sy_co = ?co2, sy_leases = {#(half_lease ''u'')\<lparr>le_user := True\<rparr>#}\<rparr>"
    by (rule staging_reachable.step [OF 1], rule staging_step.take_user)
      (simp add: acquire_user_def coordinator_new_def Let_def bt_retain_def)
  have "staging_step 50 \<lparr>sy_co = ?co2, sy_leases = {#(half_lease ''u'')\<lparr>le_user := True\<rparr>#}\<rparr> one_lease"
    unfolding one_lease_def
    by (rule staging_step.reserve [where bytes = 30 and available = 100])
      (simp_all add: lease_reserve_def reserve_with_available_space_def coordinator_new_def Let_def
        checked_add_u64_def half_lease_def)
  then show ?thesis by (rule staging_reachable.step [OF 2])
qed

lemma staging_bounds_witness:
  "staging_reachable 50 1 1 one_lease
   \<and> (\<exists>snapshot. rv_snapshot (co_reservations (sy_co one_lease)) = Some snapshot \<and> 30 + 50 \<le> unat snapshot)"
  using staging_bounds [OF one_lease_reachable] one_lease_reachable by (simp add: one_lease_def Let_def)

text \<open>
  C13: Admission refuses exactly when a limit is reached: in a reachable state \<open>try_acquire\<close>
  gives a lease if and only if fewer than the global number of leases hold a permit and fewer
  than the per-user number of this principal do; both halves are steps of the system, so the
  state after it is reachable again, and a refusal leaves all counts as they were.
\<close>

theorem try_acquire_spec:
  assumes "staging_reachable m gl ul \<lparr>sy_co = co, sy_leases = M\<rparr>"
  shows "(case try_acquire co who of
      (Inr lease, co') \<Rightarrow>
        size (filter_mset le_global M) < gl
        \<and> size (filter_mset (\<lambda>l. le_user l \<and> le_principal l = who) M) < ul
        \<and> lease = \<lparr>le_principal = who, le_global = True, le_user = True, le_reservation = None\<rparr>
        \<and> staging_reachable m gl ul \<lparr>sy_co = co', sy_leases = add_mset lease M\<rparr>
    | (Inl e, co') \<Rightarrow>
        (size (filter_mset le_global M) = gl \<or> size (filter_mset (\<lambda>l. le_user l \<and> le_principal l = who) M) = ul)
        \<and> e = UpConcurrencyLimit \<and> staging_reachable m gl ul \<lparr>sy_co = co', sy_leases = M\<rparr>)"
proof (cases "acquire_global co")
  case (Inl e)
  then show ?thesis
    using staging_reachable_inv [OF assms] assms
    by (auto simp: try_acquire_def acquire_global_def staging_inv_def Let_def globals_def split: if_splits)
next
  case (Inr co1)
  have inv: "staging_inv m gl ul \<lparr>sy_co = co, sy_leases = M\<rparr>"
    by (rule staging_reachable_inv [OF assms])
  have co1: "co1 = co\<lparr>co_global_slots := co_global_slots co - 1\<rparr>" "globals M < gl"
    using Inr inv by (auto simp: acquire_global_def staging_inv_def Let_def split: if_splits)
  have slots: "slots_ok ul (co_per_user_slots co1) (\<lambda>p. users p M)" "co_per_user_limit co1 = ul"
    using inv by (auto simp: co1 staging_inv_def Let_def)
  have half: "staging_reachable m gl ul \<lparr>sy_co = co1, sy_leases = add_mset (half_lease who) M\<rparr>"
    by (rule staging_reachable.step [OF assms staging_step.take_global [OF Inr]])
  show ?thesis
  proof (cases "acquire_user co1 who")
    case (Pair res co2)
    have lease: "(half_lease who)\<lparr>le_user := True\<rparr> =
        \<lparr>le_principal = who, le_global = True, le_user = True, le_reservation = None\<rparr>"
      by (simp add: half_lease_def)
    show ?thesis
    proof (cases res)
      case (Inl e)
      then show ?thesis
        using Pair \<open>acquire_global co = Inr co1\<close> acquire_user_ok [OF slots, of who]
          staging_reachable.step [OF half staging_step.refuse_user]
        by (auto simp: try_acquire_def users_def)
    next
      case (Inr u)
      then show ?thesis
        using Pair \<open>acquire_global co = Inr co1\<close> acquire_user_ok [OF slots, of who] co1(2)
          staging_reachable.step [OF half staging_step.take_user]
        by (auto simp: try_acquire_def users_def globals_def lease [symmetric])
    qed
  qed
qed

lemma try_acquire_spec_witness:
  "fst (try_acquire (sy_co one_lease) ''u'') = Inl UpConcurrencyLimit
   \<and> size (filter_mset le_global (sy_leases one_lease)) = 1"
proof -
  have "staging_reachable 50 1 1 \<lparr>sy_co = sy_co one_lease, sy_leases = sy_leases one_lease\<rparr>"
    using one_lease_reachable by (simp add: one_lease_def)
  from try_acquire_spec [OF this, of "''u''"] show ?thesis
    by (auto simp: try_acquire_def acquire_global_def one_lease_def)
qed

text \<open>
  The \<open>expect\<close> of a released reservation never panics: in a reachable state every live
  reservation can be given back, and once the last lease is gone the coordinator is back at its
  full number of permits with nothing reserved and the disk snapshot thawed.
\<close>

theorem staging_release_never_panics:
  assumes "staging_reachable m gl ul s"
  shows "(\<forall>l \<in># sy_leases s. \<forall>b. le_reservation l = Some b \<longrightarrow>
      drop_reservation (co_reservations (sy_co s)) b \<noteq> None)
    \<and> (\<forall>l b rv. sy_leases s = {#l#} \<longrightarrow> le_reservation l = Some b \<longrightarrow>
         drop_reservation (co_reservations (sy_co s)) b = Some rv \<longrightarrow> rv = \<lparr>rv_snapshot = None, rv_reserved = 0\<rparr>)
    \<and> (sy_leases s = {#} \<longrightarrow> co_global_slots (sy_co s) = gl \<and> rv_reserved (co_reservations (sy_co s)) = 0)"
proof (intro conjI ballI allI impI)
  have inv: "staging_inv m gl ul s" by (rule staging_reachable_inv [OF assms])
  then have budget: "budget_ok m (co_reservations (sy_co s)) (sy_leases s)"
    by (simp add: staging_inv_def Let_def)
  show "drop_reservation (co_reservations (sy_co s)) b \<noteq> None"
    if l: "l \<in># sy_leases s" "le_reservation l = Some b" for l b
  proof -
    obtain M where "sy_leases s = add_mset l M" using l(1) by (meson multi_member_split)
    then show ?thesis
      using drop_reservation_ok [OF _ l(2), of m "co_reservations (sy_co s)" M] budget by auto
  qed
  show "rv = \<lparr>rv_snapshot = None, rv_reserved = 0\<rparr>"
    if l: "sy_leases s = {#l#}" "le_reservation l = Some b" "drop_reservation (co_reservations (sy_co s)) b = Some rv"
    for l b rv
  proof -
    have "rv_reserved (co_reservations (sy_co s)) = b"
      using budget l(1,2) by (simp add: budget_ok_def bytes_of_def word_unat_eq_iff)
    then show ?thesis using l(3) by (auto simp: drop_reservation_def checked_sub_u64_def)
  qed
  show "co_global_slots (sy_co s) = gl" if "sy_leases s = {#}"
    using inv that by (simp add: staging_inv_def Let_def)
  show "rv_reserved (co_reservations (sy_co s)) = 0" if "sy_leases s = {#}"
    using budget that by (simp add: budget_ok_def unat_eq_0)
qed

lemma staging_release_never_panics_witness:
  "drop_reservation (co_reservations (sy_co one_lease)) 30 = Some \<lparr>rv_snapshot = None, rv_reserved = 0\<rparr>"
proof -
  obtain rv where "drop_reservation (co_reservations (sy_co one_lease)) 30 = Some rv"
    using staging_release_never_panics [OF one_lease_reachable] by (auto simp: one_lease_def)
  then show ?thesis
    using staging_release_never_panics [OF one_lease_reachable] by (auto simp: one_lease_def)
qed

section \<open>Staged bodies\<close>

fun body_text :: "body_event list \<Rightarrow> string" where
  "body_text (BodyChunk chunk failure # events) = chunk @ body_text events"
| "body_text _ = []"

definition body_complete :: "body_event list \<Rightarrow> bool" where
  "body_complete events \<longleftrightarrow> (\<forall>e \<in> set events. \<exists>chunk. e = BodyChunk chunk None)"

lemma add_chunk_len_Some:
  "add_chunk_len n chunk = Some k \<longleftrightarrow> unat k = unat n + length chunk"
proof -
  have "unat n + length chunk < 2 ^ 64 \<Longrightarrow> unat (n + of_nat (length chunk)) = unat n + length chunk"
    by (simp add: unat_word_ariths unat_of_nat)
  moreover have "unat k < 2 ^ 64" by (rule unat_u64_bound)
  ultimately show ?thesis
    by (auto simp: add_chunk_len_def word_unat_eq_iff simp del: unat_u64_bound)
qed

lemma stage_chunks_Inr:
  assumes "stage_chunks mx n written events = (Inr (size', content), held)" "unat n = length written" "n \<le> mx"
  shows "body_complete events \<and> content = written @ body_text events \<and> held = content
    \<and> unat size' = length content \<and> size' \<le> mx"
  using assms
proof (induction mx n written events rule: stage_chunks.induct)
  case (4 mx n written chunk failure events)
  then show ?case
    by (auto simp: body_complete_def add_chunk_len_Some split: option.splits if_splits)
qed (auto simp: body_complete_def)

lemma stage_chunks_complete:
  "body_complete events \<Longrightarrow> unat n = length written \<Longrightarrow> unat n + length (body_text events) \<le> unat mx \<Longrightarrow>
     \<exists>k. stage_chunks mx n written events = (Inr (k, written @ body_text events), written @ body_text events)
       \<and> unat k = length written + length (body_text events)"
proof (induction mx n written events rule: stage_chunks.induct)
  case (4 mx n written chunk failure events)
  have failure: "failure = None" and rest: "body_complete events"
    using 4(2) by (auto simp: body_complete_def)
  have fits: "unat n + length chunk + length (body_text events) \<le> unat mx" using 4(4) by simp
  have "unat n + length chunk < 2 ^ 64"
    using fits unat_u64_bound [of mx] by linarith
  then obtain k where k: "add_chunk_len n chunk = Some k" by (auto simp: add_chunk_len_def)
  then have len: "unat k = unat n + length chunk" by (simp add: add_chunk_len_Some)
  then have "\<not> mx < k" using fits by (simp add: word_less_nat_alt)
  then show ?case
    using 4(1) [OF k _ failure rest] fits len 4(3) failure k by auto
qed (auto simp: body_complete_def)

lemma stage_chunks_file_bound:
  "unat n = length written \<Longrightarrow> n \<le> mx \<Longrightarrow> length (snd (stage_chunks mx n written events)) \<le> unat mx"
proof (induction mx n written events rule: stage_chunks.induct)
  case (4 mx n written chunk failure events)
  then show ?case
    by (auto simp: add_chunk_len_Some word_le_nat_alt not_less split: option.splits)
qed (auto simp: word_le_nat_alt)

lemma drop_lease_reachable:
  assumes "staging_reachable m gl ul \<lparr>sy_co = co, sy_leases = add_mset l M\<rparr>" "le_global l" "le_user l"
  shows "\<exists>co'. drop_lease co l = Some co' \<and> staging_reachable m gl ul \<lparr>sy_co = co', sy_leases = M\<rparr>"
proof -
  let ?l1 = "l\<lparr>le_global := False\<rparr>" and ?co1 = "release_global co"
  let ?l2 = "?l1\<lparr>le_user := False\<rparr>" and ?co2 = "release_user ?co1 (le_principal l)"
  have 1: "staging_reachable m gl ul \<lparr>sy_co = ?co1, sy_leases = add_mset ?l1 M\<rparr>"
    by (rule staging_reachable.step [OF assms(1) staging_step.drop_global [OF assms(2,3)]])
  have "staging_step m \<lparr>sy_co = ?co1, sy_leases = add_mset ?l1 M\<rparr> \<lparr>sy_co = ?co2, sy_leases = add_mset ?l2 M\<rparr>"
    using staging_step.drop_user [of ?l1 m ?co1 M] assms(3) by simp
  then have 2: "staging_reachable m gl ul \<lparr>sy_co = ?co2, sy_leases = add_mset ?l2 M\<rparr>"
    by (rule staging_reachable.step [OF 1])
  show ?thesis
  proof (cases "le_reservation l")
    case None
    have "staging_reachable m gl ul \<lparr>sy_co = ?co2, sy_leases = M\<rparr>"
      by (rule staging_reachable.step [OF 2 staging_step.drop_plain]) (simp_all add: None)
    then show ?thesis by (simp add: drop_lease_def Let_def None)
  next
    case (Some b)
    have "budget_ok m (co_reservations ?co2) (add_mset ?l2 M)"
      using staging_reachable_inv [OF 2] by (simp add: staging_inv_def Let_def)
    then obtain rv where rv: "drop_reservation (co_reservations ?co2) b = Some rv"
      using drop_reservation_ok [of m _ ?l2 M b] Some by auto
    have "staging_reachable m gl ul \<lparr>sy_co = ?co2\<lparr>co_reservations := rv\<rparr>, sy_leases = M\<rparr>"
      by (rule staging_reachable.step [OF 2 staging_step.drop_reserved [OF _ _ _ rv]]) (simp_all add: Some)
    then show ?thesis by (simp add: drop_lease_def Let_def Some rv)
  qed
qed

lemma stage_stream_Inr:
  assumes "stage_stream sha oid expected mx env = Inr content"
  shows "body_complete (se_body env) \<and> content = body_text (se_body env) \<and> sha content = as_hex oid
    \<and> length content \<le> unat mx \<and> (\<forall>n. expected = Some n \<longrightarrow> unat n = length content)"
proof -
  obtain n where body: "fst (stage_chunks mx 0 [] (se_body env)) = Inr (n, content)"
    and checks: "verify_staged sha oid expected n content = Inr ()"
    using assms by (auto simp: stage_stream_def)
  obtain held where "stage_chunks mx 0 [] (se_body env) = (Inr (n, content), held)"
    using body by (cases "stage_chunks mx 0 [] (se_body env)") auto
  from stage_chunks_Inr [OF this] have "body_complete (se_body env)" "content = body_text (se_body env)"
    "unat n = length content" "n \<le> mx"
    by auto
  then show ?thesis
    using checks by (auto simp: verify_staged_def Let_def word_le_nat_alt split: if_splits option.splits)
qed

text \<open>
  C23: Staging a body under a lease either yields a file that is the whole body, has the expected
  digest, the declared size and at most the maximal number of bytes, with the lease kept and its
  reservation made; or it fails, and then the lease is dropped without a panic and the coordinator
  is where a run without that lease could be.
\<close>

theorem stage_upload_spec:
  assumes "staging_reachable (gr_min_free_bytes guardrails) gl ul \<lparr>sy_co = co, sy_leases = add_mset lease M\<rparr>"
    and "le_global lease" "le_user lease" "le_reservation lease = None"
  shows "(case stage_upload_request_body_with_lease sha co oid expected guardrails env lease of
      (Inr staged, Some co') \<Rightarrow>
        su_content staged = body_text (se_body env) \<and> body_complete (se_body env)
        \<and> sha (su_content staged) = as_hex oid
        \<and> length (su_content staged) \<le> unat (gr_max_upload_bytes guardrails)
        \<and> (\<forall>n. expected = Some n \<longrightarrow> unat n = length (su_content staged))
        \<and> su_lease staged = lease\<lparr>le_reservation :=
             Some (case expected of Some n \<Rightarrow> n | None \<Rightarrow> gr_max_upload_bytes guardrails)\<rparr>
        \<and> staging_reachable (gr_min_free_bytes guardrails) gl ul
             \<lparr>sy_co = co', sy_leases = add_mset (su_lease staged) M\<rparr>
    | (Inl e, Some co') \<Rightarrow>
        staging_reachable (gr_min_free_bytes guardrails) gl ul \<lparr>sy_co = co', sy_leases = M\<rparr>
    | (_, None) \<Rightarrow> False)"
proof -
  let ?m = "gr_min_free_bytes guardrails" and ?mx = "gr_max_upload_bytes guardrails"
  note start = assms(1) and full = assms(2-4)
  show ?thesis
  proof (cases "bind_res (upload_staging_preflight_size expected ?mx) (\<lambda>preflight.
      bind_res (se_tempfile env) (\<lambda>_. map_res (\<lambda>available. (preflight, available)) (se_available env)))")
    case (Inl e)
    then show ?thesis
      using drop_lease_reachable [OF start full(1,2)]
      by (auto simp: stage_upload_request_body_with_lease_def)
  next
    case (Inr p)
    obtain preflight available where p: "p = (preflight, available)" by (cases p)
    have pre: "preflight = (case expected of Some n \<Rightarrow> n | None \<Rightarrow> ?mx)"
      using Inr p by (auto simp: upload_staging_preflight_size_def Let_def split: if_splits)
    obtain res co1 where r: "lease_reserve co lease preflight ?m available = (res, co1)"
      by (cases "lease_reserve co lease preflight ?m available")
    have budget: "budget_ok ?m (co_reservations co) (add_mset lease M)"
      using staging_reachable_inv [OF start] by (simp add: staging_inv_def Let_def)
    show ?thesis
    proof (cases res)
      case (Inl e)
      have "staging_reachable ?m gl ul \<lparr>sy_co = co1, sy_leases = add_mset lease M\<rparr>"
        by (rule staging_reachable.step [OF start staging_step.refuse_space [OF full r [unfolded Inl]]])
      then show ?thesis
        using drop_lease_reachable [OF _ full(1,2)] Inr p r Inl
        by (fastforce simp: stage_upload_request_body_with_lease_def)
    next
      case res: (Inr lease1)
      have lease1: "lease1 = lease\<lparr>le_reservation := Some preflight\<rparr>"
        using lease_reserve_ok [OF budget full(3), of preflight available] r res by simp
      have next_ok: "staging_reachable ?m gl ul \<lparr>sy_co = co1, sy_leases = add_mset lease1 M\<rparr>"
        by (rule staging_reachable.step [OF start staging_step.reserve [OF full r [unfolded res]]])
      show ?thesis
      proof (cases "stage_stream sha oid expected ?mx env")
        case (Inl e)
        then show ?thesis
          using drop_lease_reachable [OF next_ok] full(1,2) lease1 Inr p r res
          by (auto simp: stage_upload_request_body_with_lease_def)
      next
        case stream: (Inr content)
        show ?thesis
          using stage_stream_Inr [OF stream] next_ok lease1 pre Inr p r res stream
          by (auto simp: stage_upload_request_body_with_lease_def)
      qed
    qed
  qed
qed

text \<open>
  Staging accepts what it should: when the environment works, the declared size is within the
  limit, the disk budget has room, and the body arrives whole with the declared size and digest,
  the upload is staged.
\<close>

theorem stage_upload_accepts:
  assumes "se_tempfile env = Inr ()" "se_available env = Inr available" "se_reopen env = Inr ()"
      "se_flush env = None"
    and "body_complete (se_body env)" "unat n = length (body_text (se_body env))"
      "sha (body_text (se_body env)) = as_hex oid"
    and "n \<le> gr_max_upload_bytes guardrails"
    and "unat n + unat (gr_min_free_bytes guardrails) \<le> unat available"
    and "\<exists>s. rv_snapshot (co_reservations co) = Some s
        \<and> unat (rv_reserved (co_reservations co)) + unat n + unat (gr_min_free_bytes guardrails) \<le> unat s
      \<or> rv_snapshot (co_reservations co) = None \<and> rv_reserved (co_reservations co) = 0"
  shows "\<exists>staged co'. stage_upload_request_body_with_lease sha co oid (Some n) guardrails env lease
      = (Inr staged, Some co') \<and> su_content staged = body_text (se_body env)"
proof -
  let ?m = "gr_min_free_bytes guardrails" and ?mx = "gr_max_upload_bytes guardrails"
  let ?rv = "co_reservations co"
  obtain k held where body: "stage_chunks ?mx 0 [] (se_body env) = (Inr (k, body_text (se_body env)), held)"
    and k: "unat k = length (body_text (se_body env))"
    using stage_chunks_complete [OF assms(5), of 0 "[]" ?mx] assms(6,8) by (auto simp: word_le_nat_alt)
  have "k = n" using k assms(6) by (simp add: word_unat_eq_iff)
  then have stream: "stage_stream sha oid (Some n) ?mx env = Inr (body_text (se_body env))"
    using assms(3,4,7) body by (simp add: stage_stream_def verify_staged_def Let_def)
  have add: "checked_add_u64 a b = Some (a + b) \<and> unat (a + b) = unat a + unat b"
    if "unat a + unat b \<le> unat (c :: u64)" for a b c
  proof -
    have "unat a + unat b < 2 ^ 64" using that unat_u64_bound [of c] by linarith
    then show ?thesis by (simp add: checked_add_u64_def unat_word_ariths)
  qed
  define s where "s = (case rv_snapshot ?rv of Some s \<Rightarrow> s | None \<Rightarrow> available)"
  have room: "unat (rv_reserved ?rv) + unat n + unat ?m \<le> unat s"
    using assms(9,10) by (auto simp: s_def)
  note sums = add [of n ?m available] add [of "rv_reserved ?rv" n s] add [of "rv_reserved ?rv + n" ?m s]
  have "checked_add_u64 n ?m = Some (n + ?m)" "\<not> available < n + ?m"
    using sums(1) assms(9) by (auto simp: word_less_nat_alt)
  moreover have "checked_add_u64 (rv_reserved ?rv) n = Some (rv_reserved ?rv + n)"
    "checked_add_u64 (rv_reserved ?rv + n) ?m = Some (rv_reserved ?rv + n + ?m)"
    "\<not> s < rv_reserved ?rv + n + ?m"
    using sums(2,3) room by (auto simp: word_less_nat_alt)
  ultimately have "fst (reserve_with_available_space ?rv n ?m available) = Inr n"
    by (simp add: reserve_with_available_space_def Let_def s_def [symmetric])
  then obtain rv' where "reserve_with_available_space ?rv n ?m available = (Inr n, rv')"
    by (cases "reserve_with_available_space ?rv n ?m available") auto
  moreover have "upload_staging_preflight_size (Some n) ?mx = Inr n"
    using assms(8) by (simp add: upload_staging_preflight_size_def)
  ultimately show ?thesis
    using assms(1,2) stream by (simp add: stage_upload_request_body_with_lease_def lease_reserve_def)
qed

definition sample_env :: staging_env where
  "sample_env = \<lparr>se_tempfile = Inr (), se_available = Inr 1000, se_reopen = Inr (),
     se_body = [BodyChunk ''ab'' None, BodyChunk ''c'' None], se_flush = None\<rparr>"

definition sample_guardrails :: staging_guardrails where
  "sample_guardrails = \<lparr>gr_max_upload_bytes = 10, gr_min_free_bytes = 50\<rparr>"

lemma stage_upload_accepts_witness:
  "\<exists>staged co'. stage_upload_request_body_with_lease (\<lambda>s. s) (coordinator_new 1 1) (LfsOid ''abc'') (Some 3)
      sample_guardrails sample_env (half_lease ''u'') = (Inr staged, Some co')"
proof -
  have "unat (3 :: u64) = length (body_text (se_body sample_env))"
    by (simp add: sample_env_def)
  then show ?thesis
    using stage_upload_accepts [where env = sample_env and available = 1000 and n = 3 and sha = "\<lambda>s. s"
        and oid = "LfsOid ''abc''" and guardrails = sample_guardrails and co = "coordinator_new 1 1"
        and lease = "half_lease ''u''"]
    by (auto simp: sample_env_def body_complete_def sample_guardrails_def coordinator_new_def)
qed

lemma stage_upload_spec_witness:
  "\<exists>co. staging_reachable 50 1 1 \<lparr>sy_co = co, sy_leases = {#(half_lease ''u'')\<lparr>le_user := True\<rparr>#}\<rparr>
     \<and> (\<exists>e co'. stage_upload_request_body_with_lease (\<lambda>s. s) co (LfsOid ''x'') (Some 3) sample_guardrails sample_env
          ((half_lease ''u'')\<lparr>le_user := True\<rparr>) = (Inl e, Some co')
        \<and> staging_reachable 50 1 1 \<lparr>sy_co = co', sy_leases = {#}\<rparr>)"
proof -
  obtain co where acq: "try_acquire (coordinator_new 1 1) ''u'' = (Inr ((half_lease ''u'')\<lparr>le_user := True\<rparr>), co)"
    by (simp add: try_acquire_def acquire_global_def acquire_user_def coordinator_new_def Let_def bt_retain_def
        half_lease_def)
  have start: "staging_reachable 50 1 1 \<lparr>sy_co = coordinator_new 1 1, sy_leases = {#}\<rparr>"
    by (rule staging_reachable.start)
  obtain co1 where co1: "acquire_global (coordinator_new 1 1) = Inr co1" "acquire_user co1 ''u'' = (Inr (), co)"
    using acq by (auto simp: try_acquire_def split: sum.splits prod.splits)
  have two: "staging_reachable 50 1 1 \<lparr>sy_co = co, sy_leases = {#(half_lease ''u'')\<lparr>le_user := True\<rparr>#}\<rparr>"
    by (rule staging_reachable.step [OF staging_reachable.step [OF start staging_step.take_global [OF co1(1)]]
          staging_step.take_user [OF co1(2)]])
  let ?run = "stage_upload_request_body_with_lease (\<lambda>s. s) co (LfsOid ''x'') (Some 3) sample_guardrails sample_env
      ((half_lease ''u'')\<lparr>le_user := True\<rparr>)"
  have "fst ?run \<noteq> Inr staged" for staged
    by (auto simp: stage_upload_request_body_with_lease_def stage_stream_def sample_env_def verify_staged_def
        Let_def lease_reserve_def split: sum.splits prod.splits if_splits option.splits)
  then show ?thesis
    using stage_upload_spec [where guardrails = sample_guardrails and gl = 1 and ul = 1 and co = co and M = "{#}"
        and lease = "(half_lease ''u'')\<lparr>le_user := True\<rparr>" and sha = "\<lambda>s. s" and oid = "LfsOid ''x''"
        and expected = "Some 3" and env = sample_env] two
    by (cases ?run; cases "fst ?run"; cases "snd ?run") (auto simp: sample_guardrails_def)
qed

end
