(* ===== verification/Request_Auth.thy ===== *)
theory Request_Auth
  imports Sessions
begin

text \<open>
  Request authentication (\<open>src/server/batch.rs\<close>, from \<open>authenticate_lfs_session\<close> on, and the
  revocation route of \<open>src/server/router.rs\<close>): parsing of the \<open>Authorization\<close> header and the
  credential the server puts into its own action URLs. Base64 is the parameter record
  \<open>base64_lib\<close>.
\<close>

section \<open>Strings the header code works on\<close>

text \<open>\<open>HeaderValue::to_str\<close>: visible ASCII, space and tab.\<close>

definition visible_ascii :: "char \<Rightarrow> bool" where
  "visible_ascii c \<longleftrightarrow> 32 \<le> byte c \<and> byte c < 127 \<or> byte c = 9"

text \<open>\<open>value.split_at(value.find(char::is_whitespace).unwrap_or(value.len()))\<close>.\<close>

fun split_whitespace :: "string \<Rightarrow> string \<times> string" where
  "split_whitespace [] = ([], [])"
| "split_whitespace (c # s) =
     (if ws_len (c # s) \<noteq> 0 then ([], c # s)
      else case split_whitespace s of (a, b) \<Rightarrow> (c # a, b))"

section \<open>The Authorization header\<close>

record base64_lib =
  b64_encode :: "string \<Rightarrow> string"
  b64_decode :: "string \<Rightarrow> string option"

definition DEFAULT_GIT_CREDENTIAL_USERNAME :: string where
  "DEFAULT_GIT_CREDENTIAL_USERNAME = ''lfscloud''"

definition unauthorized :: "string \<Rightarrow> server_error" where
  "unauthorized reason = SvUnauthorized reason"

definition authorization_credentials :: "string \<Rightarrow> string \<Rightarrow> string option" where
  "authorization_credentials value scheme =
     (let value = trim value; (actual_scheme, rest) = split_whitespace value in
      if \<not> eq_ignore_case actual_scheme scheme then None
      else let credentials = trim_start rest in
        if credentials = [] then None else Some credentials)"

definition lfs_session_token_from_basic_credentials :: "base64_lib \<Rightarrow> string \<Rightarrow> string server_result" where
  "lfs_session_token_from_basic_credentials B credentials =
     bind_res (ok_or (unauthorized ''basic authorization credentials were not valid base64'')
                (b64_decode B credentials)) (\<lambda>decoded.
     if \<not> utf8_ok decoded
     then Inl (unauthorized ''basic authorization credentials were not valid UTF-8'')
     else case split_once CHR '':'' decoded of
         None \<Rightarrow> Inl (unauthorized ''basic authorization credentials were malformed'')
       | Some (username, password) \<Rightarrow>
           if username \<noteq> DEFAULT_GIT_CREDENTIAL_USERNAME
           then Inl (unauthorized ''basic authorization username was not accepted'')
           else map_err (\<lambda>_. unauthorized ''basic authorization did not contain a valid lfs session token'')
                  (validate_lfs_session_secret password))"

definition lfs_session_token_from_authorization_header ::
  "base64_lib \<Rightarrow> string option \<Rightarrow> string server_result" where
  "lfs_session_token_from_authorization_header B header =
     (case header of
        None \<Rightarrow> Inl (unauthorized ''missing authorization header'')
      | Some value \<Rightarrow>
          if \<not> list_all visible_ascii value
          then Inl (unauthorized ''authorization header is not valid UTF-8'')
          else case authorization_credentials value ''Bearer'' of
              Some token \<Rightarrow> map_err (\<lambda>_. unauthorized
                ''bearer authorization did not contain a valid lfs session token'')
                (validate_lfs_session_secret token)
            | None \<Rightarrow>
                (case authorization_credentials value ''Basic'' of
                   Some credentials \<Rightarrow> lfs_session_token_from_basic_credentials B credentials
                 | None \<Rightarrow> Inl (unauthorized ''unsupported authorization scheme'')))"

record authenticated_session =
  au_token :: string
  au_record :: lfs_session_record

definition authenticate_lfs_session ::
  "session_crypto \<Rightarrow> base64_lib \<Rightarrow> int \<Rightarrow> string option \<Rightarrow> session_store
     \<Rightarrow> authenticated_session server_result \<times> session_store" where
  "authenticate_lfs_session C B now header store =
     (case lfs_session_token_from_authorization_header B header of
        Inl e \<Rightarrow> (Inl e, store)
      | Inr token \<Rightarrow>
          (case verify_record C now store token of
             (None, store') \<Rightarrow> (Inl (unauthorized ''invalid or expired lfs session token''), store')
           | (Some r, store') \<Rightarrow> (Inr \<lparr>au_token = token, au_record = r\<rparr>, store')))"

text \<open>The header that \<open>with_session_action_authorization\<close> advertises.\<close>

definition session_action_authorization :: "base64_lib \<Rightarrow> string \<Rightarrow> string" where
  "session_action_authorization B token =
     ''Basic '' @ b64_encode B (DEFAULT_GIT_CREDENTIAL_USERNAME @ '':'' @ token)"

definition with_session_action_authorization ::
  "base64_lib \<Rightarrow> lfs_batch_response \<Rightarrow> string \<Rightarrow> lfs_batch_response" where
  "with_session_action_authorization B response token =
     response\<lparr>resp_objects := map (\<lambda>object. object\<lparr>res_actions := map (\<lambda>(name, action).
         (name, action\<lparr>act_header := bt_insert ''Authorization'' (session_action_authorization B token)
                         (act_header action)\<rparr>)) (res_actions object)\<rparr>) (resp_objects response)\<rparr>"

section \<open>HTTP responses\<close>

datatype response_body =
    BodyEmpty | BodyMessage string | BodyBatch lfs_batch_response | BodyBytes string

record http_response =
  hr_status :: nat
  hr_headers :: "(string \<times> string) list"
  hr_body :: response_body

definition LFS_AUTH_CHALLENGE :: string where
  "LFS_AUTH_CHALLENGE = ''Basic realm='' @ [CHR 0x22] @ ''lfscloud'' @ [CHR 0x22]"

definition BEARER_CHALLENGE :: string where
  "BEARER_CHALLENGE = ''Bearer realm='' @ [CHR 0x22] @ ''lfscloud'' @ [CHR 0x22]"

definition GIT_LFS_JSON_CONTENT_TYPE :: string where
  "GIT_LFS_JSON_CONTENT_TYPE = ''application/vnd.git-lfs+json''"

definition git_lfs_json_error_response :: "nat \<Rightarrow> string \<Rightarrow> http_response" where
  "git_lfs_json_error_response status message =
     \<lparr>hr_status = status, hr_headers = [(''content-type'', GIT_LFS_JSON_CONTENT_TYPE)],
      hr_body = BodyMessage message\<rparr>"

definition git_lfs_json_response :: "lfs_batch_response \<Rightarrow> http_response" where
  "git_lfs_json_response response =
     \<lparr>hr_status = 200, hr_headers = [(''content-type'', GIT_LFS_JSON_CONTENT_TYPE)],
      hr_body = BodyBatch response\<rparr>"

definition status_response :: "nat \<Rightarrow> http_response" where
  "status_response status = \<lparr>hr_status = status, hr_headers = [], hr_body = BodyEmpty\<rparr>"

definition authentication_required_response :: http_response where
  "authentication_required_response =
     \<lparr>hr_status = 401,
      hr_headers = [(''www-authenticate'', LFS_AUTH_CHALLENGE), (''www-authenticate'', BEARER_CHALLENGE),
                    (''content-type'', GIT_LFS_JSON_CONTENT_TYPE)],
      hr_body = BodyMessage ''LFS Cloud authentication required''\<rparr>"

definition revoke_lfs_session_route ::
  "session_crypto \<Rightarrow> base64_lib \<Rightarrow> int \<Rightarrow> string option \<Rightarrow> session_store \<Rightarrow> http_response \<times> session_store" where
  "revoke_lfs_session_route C B now header store =
     (case authenticate_lfs_session C B now header store of
        (Inl (SvUnauthorized r), store1) \<Rightarrow> (authentication_required_response, store1)
      | (Inl e, store1) \<Rightarrow> (git_lfs_json_error_response 500 ''LFS Cloud session revocation failed'', store1)
      | (Inr session, store1) \<Rightarrow>
          (case revoke_session C now store1 (au_token session) of
             (Inr True, store2) \<Rightarrow> (status_response 204, store2)
           | (Inr False, store2) \<Rightarrow> (authentication_required_response, store2)
           | (Inl e, store2) \<Rightarrow> (git_lfs_json_error_response 500 ''LFS Cloud session revocation failed'', store2)))"

section \<open>Properties\<close>

text \<open>Documented of base64: decoding inverts encoding, and an encoding is printable ASCII without
  blanks.\<close>

definition base64_ok :: "base64_lib \<Rightarrow> bool" where
  "base64_ok B \<longleftrightarrow> (\<forall>s. b64_decode B (b64_encode B s) = Some s)
     \<and> (\<forall>s. list_all is_alnum (filter (\<lambda>c. c \<notin> set ''+/='') (b64_encode B s)))
     \<and> (\<forall>s. s \<noteq> [] \<longrightarrow> b64_encode B s \<noteq> [])"

lemma base64_solid:
  assumes "base64_ok B"
  shows "list_all (\<lambda>c. is_solid c \<and> visible_ascii c) (b64_encode B s)"
proof -
  have "is_solid c \<and> visible_ascii c" if "c \<in> set (b64_encode B s)" for c
  proof (cases "c \<in> set ''+/=''")
    case True
    then show ?thesis
      by (auto simp: is_solid_def is_ascii_def ws1_def visible_ascii_def byte_def)
  next
    case False
    then have "is_alnum c" using assms that by (auto simp: base64_ok_def list_all_iff)
    then show ?thesis
      by (auto simp: solid_alnum visible_ascii_def is_alnum_def is_digit_def is_upper_def is_lower_def)
  qed
  then show ?thesis by (simp add: list_all_iff)
qed

lemma split_whitespace_word:
  "list_all is_solid w \<Longrightarrow> ws_len (c # s) \<noteq> 0 \<Longrightarrow> split_whitespace (w @ c # s) = (w, c # s)"
  by (induction w) (simp_all add: ws_len_solid)

lemma space_ws: "ws_len (CHR '' '' # s) = 1"
  by (simp add: ws_len_def ws1_def byte_def)

lemma trim_start_space: "s \<noteq> [] \<Longrightarrow> list_all is_solid s \<Longrightarrow> trim_start (CHR '' '' # s) = s"
  by (cases s) (simp_all add: trim_start.simps [of "CHR '' '' # _"] space_ws)

lemma authorization_credentials_basic:
  assumes "list_all is_solid s" "s \<noteq> []"
  shows "authorization_credentials (''Basic '' @ s) ''Basic'' = Some s"
    "authorization_credentials (''Basic '' @ s) ''Bearer'' = None"
proof -
  have solid: "list_all is_solid ''Basic''"
    by (simp add: is_solid_def is_ascii_def ws1_def byte_def)
  have trim: "trim (''Basic '' @ s) = ''Basic '' @ s"
    using assms by (intro trim_solid_both) (auto simp: is_solid_def is_ascii_def ws1_def byte_def list_all_iff)
  have split: "split_whitespace (''Basic '' @ s) = (''Basic'', CHR '' '' # s)"
    using split_whitespace_word [OF solid, of "CHR '' ''" s] by (simp add: space_ws)
  show "authorization_credentials (''Basic '' @ s) ''Basic'' = Some s"
    unfolding authorization_credentials_def Let_def trim split
    using assms by (simp add: trim_start_space eq_ignore_case_def)
  show "authorization_credentials (''Basic '' @ s) ''Bearer'' = None"
    unfolding authorization_credentials_def Let_def trim split
    by (simp add: eq_ignore_case_def ascii_lower_def lower_char_def)
qed

lemma parse_action_credential:
  assumes "base64_ok B" "validate_lfs_session_secret token = Inr token" "utf8_ok token"
  shows "lfs_session_token_from_authorization_header B (Some (session_action_authorization B token)) = Inr token"
proof -
  let ?plain = "DEFAULT_GIT_CREDENTIAL_USERNAME @ '':'' @ token"
  let ?code = "b64_encode B ?plain"
  have code: "list_all is_solid ?code" "list_all visible_ascii ?code"
    using base64_solid [OF assms(1), of ?plain] by (auto simp: list_all_iff)
  have ne: "?code \<noteq> []" using assms(1) by (simp add: base64_ok_def DEFAULT_GIT_CREDENTIAL_USERNAME_def)
  have prefix: "list_all visible_ascii ''Basic ''" by (simp add: visible_ascii_def byte_def)
  have header: "list_all visible_ascii (session_action_authorization B token)"
    using code(2) prefix by (simp add: session_action_authorization_def)
  have "list_all is_ascii (DEFAULT_GIT_CREDENTIAL_USERNAME @ '':'')"
    by (simp add: DEFAULT_GIT_CREDENTIAL_USERNAME_def is_ascii_def byte_def)
  from utf8_ok_ascii_append [OF this, of token] have utf8: "utf8_ok ?plain"
    using assms(3) by simp
  have split: "split_once CHR '':'' ?plain = Some (DEFAULT_GIT_CREDENTIAL_USERNAME, token)"
    by (simp add: DEFAULT_GIT_CREDENTIAL_USERNAME_def)
  have "lfs_session_token_from_basic_credentials B ?code = Inr token"
    using assms(1,2) utf8 split by (simp add: lfs_session_token_from_basic_credentials_def base64_ok_def)
  then show ?thesis
    using authorization_credentials_basic [OF code(1) ne] header
    by (simp add: lfs_session_token_from_authorization_header_def session_action_authorization_def)
qed

lemma map_of_bt_insert_same: "map_of (bt_insert k v m) k = Some v"
  by (induction k v m rule: bt_insert.induct) auto

text \<open>
  C30: The credential the server writes into its action URLs is one it accepts: after
  \<open>with_session_action_authorization\<close> every action of every object carries an Authorization
  header that is parsed back to exactly the session token, whatever colons the token contains.
\<close>

theorem action_credential_round_trip:
  assumes "base64_ok B" "validate_lfs_session_secret token = Inr token" "utf8_ok token"
  shows "\<forall>object \<in> set (resp_objects (with_session_action_authorization B response token)).
    \<forall>(name, action) \<in> set (res_actions object). \<exists>header.
      map_of (act_header action) ''Authorization'' = Some header
      \<and> lfs_session_token_from_authorization_header B (Some header) = Inr token"
  using parse_action_credential [OF assms]
  by (auto simp: with_session_action_authorization_def map_of_bt_insert_same)

text \<open>A base64 of the sort the code relies on, for the witnesses: two hexadecimal digits a byte.\<close>

fun unhex :: "string \<Rightarrow> string option" where
  "unhex (a # b # cs) = (case (hex_digit_val a, hex_digit_val b) of
      (Some h, Some l) \<Rightarrow> map_option ((#) (char_of (16 * h + l))) (unhex cs)
    | _ \<Rightarrow> None)"
| "unhex [] = Some []"
| "unhex [a] = None"

definition hex64 :: base64_lib where
  "hex64 = \<lparr>b64_encode = token_key_to_hex, b64_decode = unhex\<rparr>"

lemma unhex_round_trip: "unhex (token_key_to_hex s) = Some s"
proof (induction s)
  case (Cons c s)
  have "byte c div 16 < 16" "byte c mod 16 < 16" using byte_bound [of c] by auto
  then show ?case
    using Cons by (simp add: token_key_to_hex_def hex_byte_def hex_char_val)
qed (simp add: token_key_to_hex_def)

lemma hex_char_alnum: "d < 16 \<Longrightarrow> is_alnum (hex_char d)"
  by (auto simp: hex_char_def is_alnum_def is_digit_def is_lower_def)

lemma hex_text_alnum: "list_all is_alnum (token_key_to_hex s)"
proof (induction s)
  case (Cons c s)
  have "byte c div 16 < 16" "byte c mod 16 < 16" using byte_bound [of c] by auto
  then show ?case using Cons by (simp add: token_key_to_hex_def hex_byte_def hex_char_alnum)
qed (simp add: token_key_to_hex_def)

lemma hex64_ok: "base64_ok hex64"
proof -
  have "token_key_to_hex s \<noteq> []" if "s \<noteq> []" for s
    using that length_token_key_to_hex [of s] by auto
  moreover have "list_all is_alnum (filter P (token_key_to_hex s))" for P s
    using hex_text_alnum [of s] by (simp add: list_all_iff)
  ultimately show ?thesis
    unfolding base64_ok_def hex64_def by (simp add: unhex_round_trip)
qed

lemma sample_token_valid: "validate_lfs_session_secret ''t'' = Inr ''t''"
proof -
  have alnum: "list_all is_alnum ''t''" by (simp add: is_alnum_def is_lower_def byte_def)
  have "trim ''t'' = ''t''" using alnum by (intro trim_solid_all) (simp add: list_all_iff)
  moreover have "\<not> has_whitespace ''t''"
    unfolding has_whitespace_def using alnum by (intro any_suffix_alnum) (auto simp: ws_len_solid)
  moreover have "\<not> has_control ''t''"
    unfolding has_control_def using alnum
    by (intro any_suffix_alnum) (auto split: list.splits dest: alnum_no_control)
  ultimately show ?thesis by (simp add: validate_lfs_session_secret_def MAX_LFS_SESSION_TOKEN_LEN_def)
qed

lemma sample_token_utf8: "utf8_ok ''t''"
  by (simp add: utf8_ok_ascii is_ascii_def byte_def)

lemma action_credential_round_trip_witness:
  "\<exists>object name action header.
     object \<in> set (resp_objects (with_session_action_authorization hex64
       \<lparr>resp_transfer = ''basic'', resp_objects = [with_actions sample_object True
          [(''download'', lfs_batch_action_new ''http://x'')]]\<rparr> ''t''))
     \<and> (name, action) \<in> set (res_actions object) \<and> map_of (act_header action) ''Authorization'' = Some header
     \<and> lfs_session_token_from_authorization_header hex64 (Some header) = Inr ''t''"
  using action_credential_round_trip [OF hex64_ok sample_token_valid sample_token_utf8,
      of "\<lparr>resp_transfer = ''basic'', resp_objects = [with_actions sample_object True
          [(''download'', lfs_batch_action_new ''http://x'')]]\<rparr>"]
  by (auto simp: with_session_action_authorization_def with_actions_def)

text \<open>
  Authentication accepts exactly the live sessions: a request is given a session if and only
  if its Authorization header names a well-formed token that the store would verify now, and then
  it is that token's record; authenticating changes what no token verifies to from now on.
\<close>

theorem authenticate_spec:
  assumes "store_ok store"
  shows "(fst (authenticate_lfs_session C B now header store) = Inr session \<longleftrightarrow>
      lfs_session_token_from_authorization_header B header = Inr (au_token session)
      \<and> fst (verify_record C now store (au_token session)) = Some (au_record session))
    \<and> store_ok (snd (authenticate_lfs_session C B now header store))
    \<and> (\<forall>t token. now \<le> t \<longrightarrow>
         fst (verify_record C t (snd (authenticate_lfs_session C B now header store)) token)
           = fst (verify_record C t store token))"
proof -
  have session: "session = \<lparr>au_token = token, au_record = r\<rparr> \<longleftrightarrow> token = au_token session \<and> r = au_record session" for token r
    by (cases session) auto
  show ?thesis
  proof (cases "lfs_session_token_from_authorization_header B header")
    case (Inl e)
    then show ?thesis using assms by (auto simp: authenticate_lfs_session_def)
  next
    case (Inr token)
    let ?store' = "snd (verify_record C now store token)"
    have after: "snd (authenticate_lfs_session C B now header store) = ?store'"
      using Inr by (auto simp: authenticate_lfs_session_def split: prod.splits option.splits)
    have "fst (authenticate_lfs_session C B now header store) = Inr session \<longleftrightarrow>
        token = au_token session \<and> live C store now token = Some (au_record session)"
      using Inr verify_record_fst [of C now store token] session
      by (auto simp: authenticate_lfs_session_def simp del: verify_record_fst split: prod.splits option.splits)
    then show ?thesis
      using Inr verify_record_store_ok [OF assms] verify_record_live by (auto simp: after)
  qed
qed

definition sample_authorization :: string where
  "sample_authorization = session_action_authorization hex64 ''t''"

lemma sample_authorization_token:
  "lfs_session_token_from_authorization_header hex64 (Some sample_authorization) = Inr ''t''"
  unfolding sample_authorization_def
  by (rule parse_action_credential [OF hex64_ok sample_token_valid sample_token_utf8])

lemma sample_issued_ok: "store_ok (snd sample_issued)"
  by (simp add: sample_issue store_ok_def bt_ok_def)

lemma sample_authenticated:
  "\<exists>r. fst (authenticate_lfs_session sample_crypto hex64 0 (Some sample_authorization) (snd sample_issued))
     = Inr \<lparr>au_token = ''t'', au_record = r\<rparr>"
  by (simp add: authenticate_lfs_session_def sample_authorization_token sample_issue verify_record_def
      take_active_session_def session_metadata_new_def)

lemma authenticate_spec_witness:
  "store_ok (snd sample_issued) \<and> (\<exists>r. fst (verify_record sample_crypto 0 (snd sample_issued) ''t'') = Some r)"
proof -
  obtain r where "fst (authenticate_lfs_session sample_crypto hex64 0 (Some sample_authorization) (snd sample_issued))
     = Inr \<lparr>au_token = ''t'', au_record = r\<rparr>"
    using sample_authenticated by blast
  then show ?thesis
    using authenticate_spec [OF sample_issued_ok, of sample_crypto hex64 0 "Some sample_authorization"
        "\<lparr>au_token = ''t'', au_record = r\<rparr>"] sample_issued_ok
    by (simp del: verify_record_fst)
qed

text \<open>
  The revocation route answers 204 exactly when it revoked a live session, and from then on a
  request with the same header is unauthorized at every later time; answering 401 it has changed
  nothing any other token verifies to.
\<close>

theorem revoke_route_spec:
  assumes "store_ok store"
  shows "(let (response, store') = revoke_lfs_session_route C B now header store in
      (hr_status response = 204 \<longrightarrow>
         (\<exists>token r. lfs_session_token_from_authorization_header B header = Inr token
            \<and> fst (verify_record C now store token) = Some r
            \<and> (\<forall>t. fst (authenticate_lfs_session C B t header store') =
                 Inl (SvUnauthorized ''invalid or expired lfs session token''))))
      \<and> (hr_status response \<in> {204, 401, 500})
      \<and> (\<forall>t token. now \<le> t \<longrightarrow> hr_status response = 401 \<longrightarrow>
           fst (verify_record C t store' token) = fst (verify_record C t store token)))"
proof (cases "authenticate_lfs_session C B now header store")
  case (Pair auth store1)
  have ok1: "store_ok store1" and same: "\<And>t token. now \<le> t \<Longrightarrow> live C store1 t token = live C store t token"
    using Pair verify_record_store_ok [OF assms] verify_record_live assms
    by (auto simp: authenticate_lfs_session_def split: sum.splits prod.splits option.splits) (metis snd_conv)+
  have statuses: "hr_status authentication_required_response = 401"
    "hr_status (git_lfs_json_error_response n m) = n" "hr_status (status_response n) = n" for n m
    by (simp_all add: authentication_required_response_def git_lfs_json_error_response_def status_response_def)
  show ?thesis
  proof (cases auth)
    case (Inl e)
    then show ?thesis
      using Pair same by (cases e) (auto simp: revoke_lfs_session_route_def statuses Let_def)
  next
    case (Inr session)
    have token: "lfs_session_token_from_authorization_header B header = Inr (au_token session)"
      "live C store now (au_token session) = Some (au_record session)"
      using Pair Inr verify_record_fst [of C now store]
      by (auto simp: authenticate_lfs_session_def simp del: verify_record_fst
          split: sum.splits prod.splits option.splits) (metis fst_conv verify_record_fst)
    obtain res store2 where rev: "revoke_session C now store1 (au_token session) = (res, store2)"
      by (cases "revoke_session C now store1 (au_token session)")
    show ?thesis
    proof (cases res)
      case (Inl e)
      then show ?thesis
        using Pair Inr rev by (simp add: revoke_lfs_session_route_def statuses)
    next
      case (Inr b)
      obtain d where st2: "store2 = (store_drop C now store1 (au_token session))\<lparr>ls_durable := d\<rparr>"
        and b: "b = (live C store1 now (au_token session) \<noteq> None)"
        using revoke_session_cases [of C now store1 "au_token session" b] rev Inr by auto
      have "b" using b same [of now "au_token session"] token(2) by simp
      moreover have "fst (authenticate_lfs_session C B t header store2) =
          Inl (SvUnauthorized ''invalid or expired lfs session token'')" for t
        using token(1) verify_record_fst [of C t store2 "au_token session"] st2
        by (auto simp: authenticate_lfs_session_def unauthorized_def simp del: verify_record_fst
            split: prod.splits option.splits)
      ultimately show ?thesis
        using Pair \<open>auth = Inr session\<close> rev Inr token by (simp add: revoke_lfs_session_route_def statuses)
    qed
  qed
qed

lemma revoke_route_spec_witness:
  "\<exists>response store'. revoke_lfs_session_route sample_crypto hex64 0 (Some sample_authorization) (snd sample_issued)
      = (response, store') \<and> hr_status response = 204
    \<and> fst (authenticate_lfs_session sample_crypto hex64 0 (Some sample_authorization) store')
        = Inl (SvUnauthorized ''invalid or expired lfs session token'')"
proof -
  obtain response store' where run: "revoke_lfs_session_route sample_crypto hex64 0 (Some sample_authorization)
      (snd sample_issued) = (response, store')"
    by (cases "revoke_lfs_session_route sample_crypto hex64 0 (Some sample_authorization) (snd sample_issued)")
  then have "hr_status response = 204"
    by (auto simp: revoke_lfs_session_route_def authenticate_lfs_session_def sample_authorization_token sample_issue Let_def
        verify_record_def take_active_session_def session_metadata_new_def revoke_session_def status_response_def
        split: prod.splits)
  then show ?thesis
    using revoke_route_spec [OF sample_issued_ok, of sample_crypto hex64 0 "Some sample_authorization"] run
    by (auto simp: Let_def)
qed

end
