(* ===== verification/Server_State.thy ===== *)
theory Server_State
  imports Routing Lfs_Batch Transfer_Store Staging Request_Auth
begin

text \<open>
  The shared state of the LFS server (\<open>LfsServerState\<close> of \<open>src/server/request.rs\<close>) and what the
  handlers do with it: cached authorization against the repository provider
  (\<open>ProviderBatchAuthorizer\<close> of \<open>src/server/router.rs\<close>), transfer attempts, and the
  classification of errors (\<open>src/server/batch.rs\<close>). One request runs at a time here, so the
  single-flight locks are uncontended; the interleaving of staging is the theory \<open>Staging\<close>.
\<close>

section \<open>Repository providers\<close>

text \<open>A repository provider is code behind a trait object: a function on the outside world.\<close>

type_synonym 'w repository_provider =
  "repository_identity \<Rightarrow> repository_authentication \<Rightarrow> repository_permission \<Rightarrow> 'w
     \<Rightarrow> repository_authorization server_result \<times> 'w"

definition permission_required_for_batch_operation :: "lfs_batch_operation \<Rightarrow> repository_permission" where
  "permission_required_for_batch_operation operation =
     (case operation of Download \<Rightarrow> PermRead | Upload \<Rightarrow> PermWrite)"

definition session_user :: "lfs_session_record \<Rightarrow> repository_user" where
  "session_user r = \<lparr>ru_provider_id = sm_provider_id (sr_metadata r), ru_login = sm_login (sr_metadata r),
     ru_stable_id = sm_stable_id (sr_metadata r)\<rparr>"

definition provider_authorize ::
  "(string, 'w repository_provider) btree \<Rightarrow> repository_mapping \<Rightarrow> lfs_session_record \<Rightarrow> lfs_batch_operation
     \<Rightarrow> 'w \<Rightarrow> unit server_result \<times> 'w" where
  "provider_authorize providers repository session operation w =
     (let required = permission_required_for_batch_operation operation in
      case map_of providers (rm_repo_provider repository) of
        None \<Rightarrow> (Inl (SvInvalidConfiguration (''repository '' @ rm_id repository
                   @ '' references unknown provider '' @ rm_repo_provider repository)), w)
      | Some check_permission \<Rightarrow>
          if sm_provider_id (sr_metadata session) \<noteq> rm_repo_provider repository
          then (Inl (SvRepositoryProvider (RpPermissionDenied (rm_repo_provider repository)
                  (rm_owner repository) (rm_name repository) required)), w)
          else case sr_github_pat session of
              None \<Rightarrow> (Inl (SvRepositoryProvider (RpAuthenticationRequired (rm_repo_provider repository))), w)
            | Some token \<Rightarrow>
                (case check_permission
                   \<lparr>ri_provider_id = rm_repo_provider repository,
                    ri_stable_id = Some (rm_provider_repository_id repository),
                    ri_host = rm_host repository, ri_owner = rm_owner repository, ri_name = rm_name repository\<rparr>
                   \<lparr>ra_user = session_user session, ra_access_token = token\<rparr> required w of
                   (r, w') \<Rightarrow> (map_res (\<lambda>_. ()) r, w')))"

section \<open>State\<close>

record authorization_cache_key =
  ak_session_token :: string
  ak_repository_id :: string
  ak_write :: bool

record 'w server_env =
  en_routes :: "configured_lfs_route list"
  en_public_url :: "string option"
  en_max_batch_objects :: nat
  en_batch_max_bytes :: nat
  en_repository_providers :: "(string, 'w repository_provider) btree"
  en_storage_providers :: "'w configured_providers"
  en_has_metadata :: bool
  en_crypto :: session_crypto
  en_base64 :: base64_lib
  en_sha256_hex :: "string \<Rightarrow> string"
  en_parse_query :: "string \<Rightarrow> (string \<times> string) list"
  en_parse_batch :: "string \<Rightarrow> lfs_batch_request option"

record 'w server_state =
  sv_store :: "'w transfer_store"
  sv_sessions :: session_store
  sv_cache :: "authorization_cache_key \<rightharpoonup> int"
  sv_staging :: staging_coordinator

text \<open>The clock readings of one request: the wall clock, and the instants of the two cache checks
  and of the cache update.\<close>

record request_clock =
  ck_now :: int
  ck_check :: int
  ck_recheck :: int
  ck_stored :: int

definition AUTHORIZATION_CACHE_TTL :: int where
  "AUTHORIZATION_CACHE_TTL = 15 * NANOS"

definition authorization_is_cached ::
  "int \<Rightarrow> authorization_cache_key \<Rightarrow> (authorization_cache_key \<rightharpoonup> int) \<Rightarrow> bool \<times> (authorization_cache_key \<rightharpoonup> int)" where
  "authorization_is_cached now key cache =
     (case cache key of
        Some expiry \<Rightarrow> if now < expiry then (True, cache) else (False, cache(key := None))
      | None \<Rightarrow> (False, cache))"

definition cache_store ::
  "int \<Rightarrow> authorization_cache_key \<Rightarrow> (authorization_cache_key \<rightharpoonup> int) \<Rightarrow> (authorization_cache_key \<rightharpoonup> int)" where
  "cache_store now key cache =
     (\<lambda>k. case cache k of Some expiry \<Rightarrow> if now < expiry then Some expiry else None | None \<Rightarrow> None)
       (key \<mapsto> now + AUTHORIZATION_CACHE_TTL)"

definition is_authentication_required :: "unit server_result \<Rightarrow> bool" where
  "is_authentication_required r = (case r of
     Inl (SvRepositoryProvider (RpAuthenticationRequired p)) \<Rightarrow> True | _ \<Rightarrow> False)"

definition authorization_key ::
  "repository_mapping \<Rightarrow> authenticated_session \<Rightarrow> lfs_batch_operation \<Rightarrow> authorization_cache_key" where
  "authorization_key repository session operation =
     \<lparr>ak_session_token = au_token session, ak_repository_id = rm_id repository, ak_write = (operation = Upload)\<rparr>"

definition authorize ::
  "'w server_env \<Rightarrow> request_clock \<Rightarrow> repository_mapping \<Rightarrow> authenticated_session \<Rightarrow> lfs_batch_operation
     \<Rightarrow> ('w server_state, server_error, unit) sr" where
  "authorize env ck repository session operation sv =
     (let key = authorization_key repository session operation;
          (cached, cache1) = authorization_is_cached (ck_check ck) key (sv_cache sv);
          sv1 = sv\<lparr>sv_cache := cache1\<rparr>
      in if cached then (Inr (), sv1)
      else let (cached2, cache2) = authorization_is_cached (ck_recheck ck) key (sv_cache sv1);
               sv2 = sv1\<lparr>sv_cache := cache2\<rparr>
      in if cached2 then (Inr (), sv2)
      else let (result, w) = provider_authorize (en_repository_providers env) repository (au_record session)
                 operation (ts_backend (sv_store sv2));
               sv3 = sv2\<lparr>sv_store := (sv_store sv2)\<lparr>ts_backend := w\<rparr>\<rparr>;
               sv4 = (if is_ok result then sv3\<lparr>sv_cache := cache_store (ck_stored ck) key (sv_cache sv3)\<rparr> else sv3)
      in if is_authentication_required result
         then (case revoke_session (en_crypto env) (ck_now ck) (sv_sessions sv4) (au_token session) of
                 (Inl e, sessions) \<Rightarrow> (Inl e, sv4\<lparr>sv_sessions := sessions\<rparr>)
               | (Inr _, sessions) \<Rightarrow> (result, sv4\<lparr>sv_sessions := sessions\<rparr>))
         else (result, sv4))"

definition upload_staging_principal :: "authenticated_session \<Rightarrow> string" where
  "upload_staging_principal session = (let m = sr_metadata (au_record session) in
     case sm_stable_id m of
       Some stable_id \<Rightarrow> sm_provider_id m @ '':id:'' @ stable_id
     | None \<Rightarrow> sm_provider_id m @ '':login:'' @ sm_login m)"

section \<open>Transfers through the state\<close>

definition on_store :: "('w transfer_store, server_error, 'a) sr \<Rightarrow> ('w server_state, server_error, 'a) sr" where
  "on_store m sv = (case m (sv_store sv) of (r, store) \<Rightarrow> (r, sv\<lparr>sv_store := store\<rparr>))"

definition state_lookup_object ::
  "'w server_env \<Rightarrow> request_clock \<Rightarrow> repository_mapping \<Rightarrow> lfs_object
     \<Rightarrow> ('w server_state, server_error, stored_object option) sr" where
  "state_lookup_object env ck repository object =
     on_store (lookup_and_repair_object (ck_now ck) (en_storage_providers env) repository object)"

definition state_upload_object ::
  "'w server_env \<Rightarrow> request_clock \<Rightarrow> repository_mapping \<Rightarrow> lfs_object \<Rightarrow> string \<Rightarrow> repository_user
     \<Rightarrow> ('w server_state, server_error, stored_object) sr" where
  "state_upload_object env ck repository object content created_by =
     on_store (store_upload_object (ck_now ck) (en_storage_providers env) repository object content created_by)"

definition state_download_object_response ::
  "'w server_env \<Rightarrow> request_clock \<Rightarrow> unit server_result \<Rightarrow> unit server_result \<Rightarrow> repository_mapping \<Rightarrow> lfs_object
     \<Rightarrow> ('w server_state, server_error, stored_object \<times> string) sr" where
  "state_download_object_response env ck tempfile opened repository object =
     on_store (store_download_object_response (ck_now ck) tempfile opened (en_storage_providers env) repository object)"

definition state_record_verified_object ::
  "'w server_env \<Rightarrow> request_clock \<Rightarrow> repository_mapping \<Rightarrow> lfs_object \<Rightarrow> string \<Rightarrow> repository_user
     \<Rightarrow> ('w server_state, server_error, unit) sr" where
  "state_record_verified_object env ck repository object backend_id created_by =
     on_store (store_record_verified_object (ck_now ck) (en_storage_providers env) repository object backend_id created_by)"

definition state_start_transfer_attempt ::
  "'w server_env \<Rightarrow> repository_mapping \<Rightarrow> lfs_object \<Rightarrow> transfer_operation \<Rightarrow> repository_user
     \<Rightarrow> ('w server_state, server_error, int option) sr" where
  "state_start_transfer_attempt env repository object operation user =
     (if \<not> en_has_metadata env then ret_sr None
      else bind_sr (on_store (db_write (\<lambda>db.
             start_transfer_attempt db (rm_id repository) (rm_storage_provider repository) object operation user)))
        (\<lambda>attempt_id. ret_sr (Some attempt_id)))"

definition state_finish_transfer_attempt ::
  "'w server_env \<Rightarrow> request_clock \<Rightarrow> int option \<Rightarrow> transfer_result \<Rightarrow> ('w server_state, server_error, unit) sr" where
  "state_finish_transfer_attempt env ck attempt_id result =
     (case attempt_id of
        Some attempt \<Rightarrow> if en_has_metadata env
          then on_store (db_write (\<lambda>db. map_res (\<lambda>db'. ((), db')) (finish_transfer_attempt (ck_now ck) db attempt result)))
          else ret_sr ()
      | None \<Rightarrow> ret_sr ())"

section \<open>Classification of errors\<close>

definition server_error_log_category :: "server_error \<Rightarrow> error_category" where
  "server_error_log_category e = (case e of
       SvRepositoryProvider source \<Rightarrow> CatRepositoryProvider
     | SvStorage source \<Rightarrow> CatStorage
     | _ \<Rightarrow> CatServer)"

record lfs_storage_error_classification =
  lc_upload_status :: nat
  lc_download_status :: nat
  lc_upload_message :: string
  lc_download_message :: string
  lc_batch_code :: u16
  lc_batch_message :: string

definition uniform_transfer_response ::
  "nat \<Rightarrow> string \<Rightarrow> u16 \<Rightarrow> string \<Rightarrow> lfs_storage_error_classification" where
  "uniform_transfer_response status message batch_code batch_message =
     \<lparr>lc_upload_status = status, lc_download_status = status, lc_upload_message = message,
      lc_download_message = message, lc_batch_code = batch_code, lc_batch_message = batch_message\<rparr>"

definition classify_lfs_storage_error :: "server_error \<Rightarrow> lfs_storage_error_classification" where
  "classify_lfs_storage_error e = (case e of
       SvStorage source \<Rightarrow> (case source of
           StIntegrityMismatch a b c d \<Rightarrow>
             \<lparr>lc_upload_status = 422, lc_download_status = 502,
              lc_upload_message = ''uploaded Git LFS object did not match the requested OID or size'',
              lc_download_message = ''Git LFS storage returned an object that failed integrity validation'',
              lc_batch_code = 502, lc_batch_message = ''object storage lookup failed''\<rparr>
         | StObjectNotFound a b c \<Rightarrow>
             uniform_transfer_response 404 ''Git LFS object was not found'' 404 ''object not found''
         | StConflict a b \<Rightarrow>
             uniform_transfer_response 409 ''Git LFS storage reported an object conflict'' 409 ''object storage conflict''
         | StQuotaExceeded a b \<Rightarrow>
             uniform_transfer_response 507 ''Git LFS storage quota was exceeded'' 507 ''object storage quota exceeded''
         | StRetryable a b \<Rightarrow>
             uniform_transfer_response 503 ''Git LFS storage operation can be retried later'' 503
               ''object storage lookup can be retried later''
         | StPermissionDenied a b \<Rightarrow>
             uniform_transfer_response 502 ''Git LFS storage access was denied'' 502 ''object storage access was denied''
         | StAuthenticationRequired a \<Rightarrow>
             uniform_transfer_response 502 ''Git LFS storage authentication failed'' 502
               ''object storage authentication failed''
         | StCredentialLoad a b c \<Rightarrow>
             uniform_transfer_response 502 ''Git LFS storage authentication failed'' 502
               ''object storage authentication failed''
         | StUnsupported a \<Rightarrow>
             uniform_transfer_response 501 ''Git LFS storage transfer handling is not configured'' 501
               ''object storage lookup is not configured''
         | _ \<Rightarrow> uniform_transfer_response 502 ''Git LFS storage operation failed'' 502 ''object storage lookup failed'')
     | _ \<Rightarrow> uniform_transfer_response 500 ''Git LFS transfer handling failed'' 500 ''object availability lookup failed'')"

definition git_lfs_storage_error_response_parts :: "server_error \<Rightarrow> bool \<Rightarrow> nat \<times> string" where
  "git_lfs_storage_error_response_parts e download =
     (let c = classify_lfs_storage_error e in
      if download then (lc_download_status c, lc_download_message c)
      else (lc_upload_status c, lc_upload_message c))"

definition git_lfs_storage_error_response :: "server_error \<Rightarrow> http_response" where
  "git_lfs_storage_error_response e =
     (let (status, message) = git_lfs_storage_error_response_parts e False in git_lfs_json_error_response status message)"

definition git_lfs_download_storage_error_response :: "server_error \<Rightarrow> http_response" where
  "git_lfs_download_storage_error_response e =
     (let (status, message) = git_lfs_storage_error_response_parts e True in git_lfs_json_error_response status message)"

definition lfs_batch_object_error_from_server_error :: "server_error \<Rightarrow> lfs_batch_object_error" where
  "lfs_batch_object_error_from_server_error e =
     (let c = classify_lfs_storage_error e in lfs_batch_object_error_new (lc_batch_code c) (lc_batch_message c))"

definition git_lfs_authorization_error_response :: "server_error \<Rightarrow> http_response" where
  "git_lfs_authorization_error_response e =
     (let (status, message) = (case e of
            SvRepositoryProvider (RpAuthenticationRequired p) \<Rightarrow>
              (401, ''repository provider authentication is required for this Git LFS operation'')
          | SvRepositoryProvider (RpPermissionDenied p own n req) \<Rightarrow>
              (403, ''repository provider denied this Git LFS operation'')
          | SvRepositoryProvider (RpSsoRequired p own) \<Rightarrow> (403, ''repository provider denied this Git LFS operation'')
          | SvRepositoryProvider (RpRepositoryNotFound p own n) \<Rightarrow>
              (404, ''repository provider could not find this repository'')
          | SvInvalidRequest m \<Rightarrow> (400, ''repository authorization request was invalid'')
          | SvRepositoryProvider source \<Rightarrow> (502, ''repository provider authorization failed'')
          | _ \<Rightarrow> (500, ''Git LFS authorization failed''));
          response = git_lfs_json_error_response status message
      in if status = 401
         then response\<lparr>hr_headers := hr_headers response
                @ [(''www-authenticate'', LFS_AUTH_CHALLENGE), (''www-authenticate'', BEARER_CHALLENGE)]\<rparr>
         else response)"

section \<open>Finishing failed attempts\<close>

definition finish_failed_transfer_attempt_with_message ::
  "'w server_env \<Rightarrow> request_clock \<Rightarrow> int option \<Rightarrow> error_category \<Rightarrow> string \<Rightarrow> 'w server_state \<Rightarrow> 'w server_state" where
  "finish_failed_transfer_attempt_with_message env ck attempt_id category message sv =
     snd (state_finish_transfer_attempt env ck attempt_id (TransferFailed category message) sv)"

definition finish_failed_transfer_attempt ::
  "'w server_env \<Rightarrow> request_clock \<Rightarrow> int option \<Rightarrow> server_error \<Rightarrow> bool \<Rightarrow> 'w server_state \<Rightarrow> 'w server_state" where
  "finish_failed_transfer_attempt env ck attempt_id e download sv =
     finish_failed_transfer_attempt_with_message env ck attempt_id (server_error_log_category e)
       (snd (git_lfs_storage_error_response_parts e download)) sv"

end
