(* ===== verification/Handlers.thy ===== *)
theory Handlers
  imports Server_State
begin

text \<open>
  The request handlers (\<open>src/server/request.rs\<close>, \<open>src/server/batch.rs\<close>): route dispatch, the batch
  endpoint, downloads and uploads. A request carries what the client sent and what its environment
  did (chunks, timeouts, staging files); the \<open>url\<close> crate is the argument \<open>L\<close>.
\<close>

datatype http_method = GET | PUT | POST | OtherMethod

record lfs_request =
  rq_method :: http_method
  rq_path :: string
  rq_query :: "string option"
  rq_authorization :: "string option"
  rq_content_length :: "string option"
  rq_http_origin :: "string option"
  rq_staging :: staging_env
  rq_upload_lock :: "unit server_result"
  rq_tempfile :: "unit server_result"
  rq_opened :: "unit server_result"

definition request_content_length :: "lfs_request \<Rightarrow> u64 option" where
  "request_content_length request = (case rq_content_length request of
       None \<Rightarrow> None
     | Some value \<Rightarrow> if list_all visible_ascii value
         then (case parse_u64 value of Inr n \<Rightarrow> Some n | Inl e \<Rightarrow> None) else None)"

definition public_url_for_request :: "'w server_env \<Rightarrow> lfs_request \<Rightarrow> string server_result" where
  "public_url_for_request env request = (case en_public_url env of
       Some public_url \<Rightarrow> Inr public_url
     | None \<Rightarrow> ok_or (SvInternal ''accepted socket local address is unavailable for inferred public URL'')
                 (rq_http_origin request))"

fun find_size :: "string \<Rightarrow> (string \<times> string) list \<Rightarrow> u64 server_result" where
  "find_size action [] = Inl (SvInvalidRequest (action @ '' action missing size query parameter''))"
| "find_size action ((key, value) # pairs) =
     (if key = ''size''
      then map_err (\<lambda>_. SvInvalidRequest (''invalid '' @ action @ '' size query value '' @ debug_str value))
             (parse_u64 value)
      else find_size action pairs)"

definition transfer_request_expected_size :: "'w server_env \<Rightarrow> lfs_request \<Rightarrow> string \<Rightarrow> u64 server_result" where
  "transfer_request_expected_size env request action = (case rq_query request of
       None \<Rightarrow> Inl (SvInvalidRequest (action @ '' action missing size query parameter''))
     | Some query \<Rightarrow> find_size action (en_parse_query env query))"

definition upload_payload_too_large_response :: http_response where
  "upload_payload_too_large_response =
     git_lfs_json_error_response 413 ''Git LFS upload object exceeds the configured request size limit''"

definition upload_temp_space_exhausted_response :: http_response where
  "upload_temp_space_exhausted_response =
     git_lfs_json_error_response 507 ''Git LFS upload staging directory does not have enough free space''"

definition upload_staging_timeout_response :: http_response where
  "upload_staging_timeout_response =
     git_lfs_json_error_response 408 ''Git LFS upload request timed out while reading the object body''"

definition upload_staging_overloaded_response :: http_response where
  "upload_staging_overloaded_response =
     (let response = git_lfs_json_error_response 503 ''Git LFS upload staging has reached its concurrency limit''
      in response\<lparr>hr_headers := hr_headers response @ [(''retry-after'', ''1'')]\<rparr>)"

definition with_allow :: "string \<Rightarrow> http_response \<Rightarrow> http_response" where
  "with_allow methods response = response\<lparr>hr_headers := hr_headers response @ [(''allow'', methods)]\<rparr>"

section \<open>Downloads\<close>

definition handle_lfs_download_request ::
  "'w server_env \<Rightarrow> request_clock \<Rightarrow> lfs_request \<Rightarrow> repository_mapping \<Rightarrow> lfs_oid \<Rightarrow> authenticated_session
     \<Rightarrow> 'w server_state \<Rightarrow> http_response \<times> 'w server_state" where
  "handle_lfs_download_request env ck request repository x session sv =
     (case transfer_request_expected_size env request ''download'' of
        Inl e \<Rightarrow> (git_lfs_json_error_response 400
                  ''Git LFS download action did not include a valid size query parameter'', sv)
      | Inr expected_size \<Rightarrow>
          (case authorize env ck repository session Download sv of
             (Inl e, sv1) \<Rightarrow> (git_lfs_authorization_error_response e, sv1)
           | (Inr _, sv1) \<Rightarrow>
               let object = LfsObject x expected_size; user = session_user (au_record session) in
               (case state_start_transfer_attempt env repository object TransferDownload user sv1 of
                  (Inl e, sv2) \<Rightarrow> (git_lfs_download_storage_error_response e, sv2)
                | (Inr attempt_id, sv2) \<Rightarrow>
                    (case state_download_object_response env ck (rq_tempfile request) (rq_opened request)
                            repository object sv2 of
                       (Inr (stored, content), sv3) \<Rightarrow>
                         (case state_finish_transfer_attempt env ck attempt_id
                                 (TransferSucceeded (Some (so_backend_id stored))) sv3 of
                            (Inl e, sv4) \<Rightarrow> (git_lfs_download_storage_error_response e, sv4)
                          | (Inr _, sv4) \<Rightarrow>
                              (\<lparr>hr_status = 200, hr_headers = [(''content-type'', ''application/octet-stream'')],
                                hr_body = BodyBytes content\<rparr>, sv4))
                     | (Inl e, sv3) \<Rightarrow>
                         (git_lfs_download_storage_error_response e,
                          finish_failed_transfer_attempt env ck attempt_id e True sv3)))))"

section \<open>Uploads\<close>

text \<open>The tail of the upload: admission, staging, the provider upload and the end of the attempt.\<close>

definition upload_staged ::
  "'w server_env \<Rightarrow> request_clock \<Rightarrow> repository_mapping \<Rightarrow> lfs_object \<Rightarrow> repository_user \<Rightarrow> int option \<Rightarrow> string
     \<Rightarrow> 'w server_state \<Rightarrow> http_response \<times> 'w server_state" where
  "upload_staged env ck repository object created_by attempt_id content sv =
     (case state_upload_object env ck repository object content created_by sv of
        (Inr stored, sv1) \<Rightarrow>
          (case state_finish_transfer_attempt env ck attempt_id (TransferSucceeded (Some (so_backend_id stored))) sv1 of
             (Inl e, sv2) \<Rightarrow> (git_lfs_storage_error_response e, sv2)
           | (Inr _, sv2) \<Rightarrow> (status_response 200, sv2))
      | (Inl e, sv1) \<Rightarrow>
          (git_lfs_storage_error_response e, finish_failed_transfer_attempt env ck attempt_id e False sv1))"

definition staging_failed ::
  "'w server_env \<Rightarrow> request_clock \<Rightarrow> int option \<Rightarrow> upload_staging_error \<Rightarrow> 'w server_state
     \<Rightarrow> http_response \<times> 'w server_state" where
  "staging_failed env ck attempt_id e sv =
     (case e of
        UpPayloadTooLarge \<Rightarrow> (upload_payload_too_large_response,
          finish_failed_transfer_attempt_with_message env ck attempt_id CatStorage
            ''Git LFS upload object exceeds the configured request size limit'' sv)
      | UpInsufficientTempSpace r a \<Rightarrow> (upload_temp_space_exhausted_response,
          finish_failed_transfer_attempt_with_message env ck attempt_id CatStorage
            ''Git LFS upload staging directory does not have enough free space'' sv)
      | UpTimedOut \<Rightarrow> (upload_staging_timeout_response,
          finish_failed_transfer_attempt_with_message env ck attempt_id CatStorage
            ''Git LFS upload request timed out while reading the object body'' sv)
      | UpConcurrencyLimit \<Rightarrow> (upload_staging_overloaded_response,
          finish_failed_transfer_attempt_with_message env ck attempt_id CatStorage
            ''Git LFS upload staging has reached its concurrency limit'' sv)
      | UpStorage err \<Rightarrow> (git_lfs_storage_error_response (SvStorage (into_storage_error e)),
          finish_failed_transfer_attempt env ck attempt_id (SvStorage (into_storage_error e)) False sv))"

text \<open>The two arms after \<open>try_acquire\<close>.\<close>

definition admission_failed ::
  "'w server_env \<Rightarrow> request_clock \<Rightarrow> int option \<Rightarrow> upload_staging_error \<Rightarrow> 'w server_state
     \<Rightarrow> http_response \<times> 'w server_state" where
  "admission_failed env ck attempt_id e sv =
     (if e = UpConcurrencyLimit
      then (upload_staging_overloaded_response,
        finish_failed_transfer_attempt_with_message env ck attempt_id CatStorage
          ''Git LFS upload staging has reached its concurrency limit'' sv)
      else (git_lfs_storage_error_response (SvStorage (into_storage_error e)),
        finish_failed_transfer_attempt env ck attempt_id (SvStorage (into_storage_error e)) False sv))"

text \<open>
  The staged file's lease is dropped when the handler returns. A panic of that drop would leave no
  coordinator; it cannot happen (\<open>staging_release_never_panics\<close>), and the state then is kept.
\<close>

definition set_staging :: "staging_coordinator option \<Rightarrow> 'w server_state \<Rightarrow> 'w server_state" where
  "set_staging co sv = (case co of Some c \<Rightarrow> sv\<lparr>sv_staging := c\<rparr> | None \<Rightarrow> sv)"

definition upload_body ::
  "'w server_env \<Rightarrow> request_clock \<Rightarrow> lfs_request \<Rightarrow> repository_mapping \<Rightarrow> lfs_object \<Rightarrow> authenticated_session
     \<Rightarrow> int option \<Rightarrow> 'w server_state \<Rightarrow> http_response \<times> 'w server_state" where
  "upload_body env ck request repository object session attempt_id sv =
     (case try_acquire (sv_staging sv) (upload_staging_principal session) of
        (Inl e, co) \<Rightarrow> admission_failed env ck attempt_id e (sv\<lparr>sv_staging := co\<rparr>)
      | (Inr lease, co) \<Rightarrow>
          (case stage_upload_request_body_with_lease (en_sha256_hex env) co (obj_oid object) (Some (obj_size object))
                  staging_guardrails_default (rq_staging request) lease of
             (Inl e, co1) \<Rightarrow> staging_failed env ck attempt_id e (set_staging co1 sv)
           | (Inr staged, co1) \<Rightarrow>
               (case upload_staged env ck repository object (session_user (au_record session)) attempt_id
                       (su_content staged) (set_staging co1 sv) of
                  (response, sv1) \<Rightarrow> (response, set_staging (drop_lease (sv_staging sv1) (su_lease staged)) sv1))))"

definition upload_locked ::
  "'w server_env \<Rightarrow> request_clock \<Rightarrow> lfs_request \<Rightarrow> repository_mapping \<Rightarrow> lfs_object \<Rightarrow> authenticated_session
     \<Rightarrow> int option \<Rightarrow> 'w server_state \<Rightarrow> http_response \<times> 'w server_state" where
  "upload_locked env ck request repository object session attempt_id sv =
     (case state_lookup_object env ck repository object sv of
        (Inr (Some stored), sv1) \<Rightarrow>
          (case state_record_verified_object env ck repository object (so_backend_id stored)
                  (session_user (au_record session)) sv1 of
             (Inl e, sv2) \<Rightarrow>
               (git_lfs_storage_error_response e, finish_failed_transfer_attempt env ck attempt_id e False sv2)
           | (Inr _, sv2) \<Rightarrow>
               (case state_finish_transfer_attempt env ck attempt_id
                       (TransferSucceeded (Some (so_backend_id stored))) sv2 of
                  (Inl e, sv3) \<Rightarrow> (git_lfs_storage_error_response e, sv3)
                | (Inr _, sv3) \<Rightarrow> (status_response 200, sv3)))
      | (Inr None, sv1) \<Rightarrow> upload_body env ck request repository object session attempt_id sv1
      | (Inl e, sv1) \<Rightarrow>
          (git_lfs_storage_error_response e, finish_failed_transfer_attempt env ck attempt_id e False sv1))"

definition handle_lfs_upload_request ::
  "'w server_env \<Rightarrow> request_clock \<Rightarrow> lfs_request \<Rightarrow> repository_mapping \<Rightarrow> lfs_oid \<Rightarrow> authenticated_session
     \<Rightarrow> 'w server_state \<Rightarrow> http_response \<times> 'w server_state" where
  "handle_lfs_upload_request env ck request repository x session sv =
     (case transfer_request_expected_size env request ''upload'' of
        Inl e \<Rightarrow> (git_lfs_json_error_response 400
                  ''Git LFS upload action did not include a valid size query parameter'', sv)
      | Inr expected_size \<Rightarrow>
          if MAX_UPLOAD_OBJECT_BYTES < expected_size then (upload_payload_too_large_response, sv)
          else if (case request_content_length request of
                     Some n \<Rightarrow> MAX_UPLOAD_OBJECT_BYTES < n | None \<Rightarrow> False)
          then (upload_payload_too_large_response, sv)
          else case authorize env ck repository session Upload sv of
              (Inl e, sv1) \<Rightarrow> (git_lfs_authorization_error_response e, sv1)
            | (Inr _, sv1) \<Rightarrow>
                let object = LfsObject x expected_size; created_by = session_user (au_record session) in
                (case state_start_transfer_attempt env repository object TransferUpload created_by sv1 of
                   (Inl e, sv2) \<Rightarrow> (git_lfs_storage_error_response e, sv2)
                 | (Inr attempt_id, sv2) \<Rightarrow>
                     (case (if en_has_metadata env then rq_upload_lock request else Inr ()) of
                        Inl e \<Rightarrow> (git_lfs_storage_error_response e,
                                  finish_failed_transfer_attempt env ck attempt_id e False sv2)
                      | Inr _ \<Rightarrow> upload_locked env ck request repository object session attempt_id sv2)))"

section \<open>The batch endpoint\<close>

text \<open>One lookup for each distinct object, in the order of the \<open>BTreeSet\<close>.\<close>

fun lookup_all ::
  "'w server_env \<Rightarrow> request_clock \<Rightarrow> repository_mapping \<Rightarrow> (lfs_object \<Rightarrow> stored_object option server_result \<Rightarrow> 'o)
     \<Rightarrow> lfs_object list \<Rightarrow> 'w server_state \<Rightarrow> (lfs_object \<times> 'o) list \<times> 'w server_state" where
  "lookup_all env ck repository outcome [] sv = ([], sv)"
| "lookup_all env ck repository outcome (object # objects) sv =
     (case state_lookup_object env ck repository object sv of
        (lookup, sv1) \<Rightarrow> (case lookup_all env ck repository outcome objects sv1 of
          (rest, sv2) \<Rightarrow> ((object, outcome object lookup) # rest, sv2)))"

text \<open>\<open>the\<close> is the \<open>expect\<close> of the code; every requested object has an outcome.\<close>

definition batch_objects_with_storage_lookup ::
  "'w server_env \<Rightarrow> request_clock \<Rightarrow> repository_mapping \<Rightarrow> (lfs_object \<Rightarrow> stored_object option server_result \<Rightarrow> 'o)
     \<Rightarrow> lfs_object list \<Rightarrow> 'w server_state \<Rightarrow> 'o list \<times> 'w server_state" where
  "batch_objects_with_storage_lookup env ck repository outcome requested sv =
     (case lookup_all env ck repository outcome (sort (remdups requested)) sv of
        (outcomes, sv1) \<Rightarrow> (map (\<lambda>object. the (map_of outcomes object)) requested, sv1))"

definition download_batch_lookup_outcome ::
  "lfs_object \<Rightarrow> stored_object option server_result \<Rightarrow> lfs_batch_download_object" where
  "download_batch_lookup_outcome object lookup = (case lookup of
       Inr (Some stored) \<Rightarrow> DlAvailable object
     | Inr None \<Rightarrow> DlMissing object
     | Inl e \<Rightarrow> DlError object (lfs_batch_object_error_from_server_error e))"

definition upload_batch_lookup_outcome ::
  "lfs_object \<Rightarrow> stored_object option server_result \<Rightarrow> lfs_batch_upload_object" where
  "upload_batch_lookup_outcome object lookup = (case lookup of
       Inr (Some stored) \<Rightarrow> UlPresent object
     | Inr None \<Rightarrow> UlNeeded object
     | Inl e \<Rightarrow> UlError object (lfs_batch_object_error_from_server_error e))"

definition batch_response_with_storage_lookup ::
  "'u url_lib \<Rightarrow> 'w server_env \<Rightarrow> request_clock \<Rightarrow> repository_mapping \<Rightarrow> string \<Rightarrow> lfs_batch_request
     \<Rightarrow> 'w server_state \<Rightarrow> lfs_batch_response \<times> 'w server_state" where
  "batch_response_with_storage_lookup L env ck repository public_url request sv =
     (case req_operation request of
        Download \<Rightarrow> (case batch_objects_with_storage_lookup env ck repository download_batch_lookup_outcome
                            (req_objects request) sv of
            (objects, sv1) \<Rightarrow> (batch_response_download L public_url (route_path repository) objects, sv1))
      | Upload \<Rightarrow> (case batch_objects_with_storage_lookup env ck repository upload_batch_lookup_outcome
                            (req_objects request) sv of
            (objects, sv1) \<Rightarrow> (batch_response_upload L public_url (route_path repository) objects, sv1)))"

definition handle_parsed_lfs_batch_request ::
  "'u url_lib \<Rightarrow> 'w server_env \<Rightarrow> request_clock \<Rightarrow> repository_mapping \<Rightarrow> authenticated_session \<Rightarrow> string
     \<Rightarrow> lfs_batch_request \<Rightarrow> 'w server_state \<Rightarrow> http_response \<times> 'w server_state" where
  "handle_parsed_lfs_batch_request L env ck repository session public_url request sv =
     (if en_max_batch_objects env < length (req_objects request)
      then (git_lfs_json_error_response 413 (''Git LFS batch contains more than ''
              @ nat_dec (en_max_batch_objects env) @ '' object entries''), sv)
      else if req_transfers request \<noteq> [] \<and> LFS_BASIC_TRANSFER \<notin> set (req_transfers request)
      then (git_lfs_json_error_response 409 ''unsupported Git LFS transfer requested; only basic is available'', sv)
      else if req_operation request = Upload
           \<and> list_ex (\<lambda>object. MAX_UPLOAD_OBJECT_BYTES < obj_size object) (req_objects request)
      then (upload_payload_too_large_response, sv)
      else case authorize env ck repository session (req_operation request) sv of
          (Inl e, sv1) \<Rightarrow> (git_lfs_authorization_error_response e, sv1)
        | (Inr _, sv1) \<Rightarrow>
            (case batch_response_with_storage_lookup L env ck repository public_url request sv1 of
               (response, sv2) \<Rightarrow>
                 (git_lfs_json_response
                    (with_session_action_authorization (en_base64 env) response (au_token session)), sv2)))"

datatype batch_body_error = BatchTooLarge | BatchTimedOut | BatchUnreadable string

fun read_chunks :: "nat \<Rightarrow> string \<Rightarrow> body_event list \<Rightarrow> batch_body_error + string" where
  "read_chunks max_bytes body [] = Inr body"
| "read_chunks max_bytes body (BodyIdle # events) = Inl BatchTimedOut"
| "read_chunks max_bytes body (BodyBroken source # events) = Inl (BatchUnreadable source)"
| "read_chunks max_bytes body (BodyChunk chunk failure # events) =
     (if max_bytes < length body + length chunk then Inl BatchTooLarge
      else read_chunks max_bytes (body @ chunk) events)"

definition read_batch_request_body :: "nat \<Rightarrow> lfs_request \<Rightarrow> batch_body_error + string" where
  "read_batch_request_body max_bytes request =
     (if (case request_content_length request of Some n \<Rightarrow> max_bytes < unat n | None \<Rightarrow> False)
      then Inl BatchTooLarge
      else read_chunks max_bytes [] (se_body (rq_staging request)))"

definition handle_lfs_batch_request ::
  "'u url_lib \<Rightarrow> 'w server_env \<Rightarrow> request_clock \<Rightarrow> lfs_request \<Rightarrow> repository_mapping \<Rightarrow> authenticated_session
     \<Rightarrow> string \<Rightarrow> 'w server_state \<Rightarrow> http_response \<times> 'w server_state" where
  "handle_lfs_batch_request L env ck request repository session public_url sv =
     (if rq_method request \<noteq> POST
      then (with_allow ''POST'' (git_lfs_json_error_response 405 ''Git LFS batch endpoint requires POST''), sv)
      else case read_batch_request_body (en_batch_max_bytes env) request of
          Inr body \<Rightarrow>
            (case en_parse_batch env body of
               Some batch_request \<Rightarrow>
                 handle_parsed_lfs_batch_request L env ck repository session public_url batch_request sv
             | None \<Rightarrow> (git_lfs_json_error_response 400 ''Invalid Git LFS batch request'', sv))
        | Inl BatchTooLarge \<Rightarrow>
            (git_lfs_json_error_response 413 ''Git LFS request body exceeds the configured limit'', sv)
        | Inl BatchTimedOut \<Rightarrow>
            (git_lfs_json_error_response 408 ''Git LFS batch request timed out while reading the request body'', sv)
        | Inl (BatchUnreadable source) \<Rightarrow>
            (git_lfs_json_error_response 400 ''Git LFS request body could not be read'', sv))"

section \<open>Dispatch\<close>

definition handle_lfs_object_request ::
  "'w server_env \<Rightarrow> request_clock \<Rightarrow> lfs_request \<Rightarrow> repository_mapping \<Rightarrow> lfs_oid \<Rightarrow> authenticated_session
     \<Rightarrow> 'w server_state \<Rightarrow> http_response \<times> 'w server_state" where
  "handle_lfs_object_request env ck request repository x session sv =
     (case rq_method request of
        PUT \<Rightarrow> handle_lfs_upload_request env ck request repository x session sv
      | GET \<Rightarrow> handle_lfs_download_request env ck request repository x session sv
      | _ \<Rightarrow> (with_allow ''GET, PUT'' (git_lfs_json_error_response 405
               ''Git LFS object endpoint requires GET for downloads or PUT for uploads''), sv))"

definition handle_authenticated_lfs_request ::
  "'u url_lib \<Rightarrow> 'w server_env \<Rightarrow> request_clock \<Rightarrow> lfs_request \<Rightarrow> resolved_lfs_route \<Rightarrow> authenticated_session
     \<Rightarrow> 'w server_state \<Rightarrow> http_response \<times> 'w server_state" where
  "handle_authenticated_lfs_request L env ck request route session sv =
     (case rt_endpoint route of
        EpBatch \<Rightarrow>
          (case public_url_for_request env request of
             Inl e \<Rightarrow> (git_lfs_json_error_response 500 ''LFS Cloud could not determine its action URL'', sv)
           | Inr public_url \<Rightarrow>
               handle_lfs_batch_request L env ck request (rt_repository route) session public_url sv)
      | EpObject x \<Rightarrow> handle_lfs_object_request env ck request (rt_repository route) x session sv
      | EpInfo \<Rightarrow> (git_lfs_json_error_response 404
                   ''Git LFS base path is not an operation endpoint; use /objects/batch'', sv))"

definition handle_lfs_request ::
  "'u url_lib \<Rightarrow> 'w server_env \<Rightarrow> request_clock \<Rightarrow> lfs_request \<Rightarrow> 'w server_state \<Rightarrow> http_response \<times> 'w server_state" where
  "handle_lfs_request L env ck request sv =
     (case resolve_path (en_routes env) (rq_path request) of
        Inr route \<Rightarrow>
          (case authenticate_lfs_session (en_crypto env) (en_base64 env) (ck_now ck) (rq_authorization request)
                  (sv_sessions sv) of
             (Inr session, sessions) \<Rightarrow>
               handle_authenticated_lfs_request L env ck request route session (sv\<lparr>sv_sessions := sessions\<rparr>)
           | (Inl (SvUnauthorized reason), sessions) \<Rightarrow>
               (authentication_required_response, sv\<lparr>sv_sessions := sessions\<rparr>)
           | (Inl e, sessions) \<Rightarrow>
               (git_lfs_json_error_response 500 ''LFS Cloud authentication failed'', sv\<lparr>sv_sessions := sessions\<rparr>))
      | Inl (SvRouteNotConfigured p) \<Rightarrow>
          (git_lfs_json_error_response 404 ''No configured LFS Cloud repository route matches this path'', sv)
      | Inl (SvInvalidRequest m) \<Rightarrow> (git_lfs_json_error_response 400 ''Invalid LFS Cloud route'', sv)
      | Inl e \<Rightarrow> (git_lfs_json_error_response 500 ''LFS Cloud route handling failed'', sv))"

end
