(* ===== verification/Server_Samples.thy ===== *)
theory Server_Samples
  imports Handlers
begin

text \<open>
  A small server used by the witnesses: one repository, a repository provider that grants what it
  is asked for, an in-memory storage provider and one issued session.
\<close>

definition granting_provider :: "memory_backend repository_provider" where
  "granting_provider identity auth required w =
     (Inr \<lparr>rz_user = ra_user auth, rz_repository = identity, rz_required = required, rz_granted = required\<rparr>, w)"

definition sample_server :: "memory_backend server_env" where
  "sample_server = \<lparr>en_routes = route_resolver_new sample_config, en_public_url = Some ''http://lfs'',
     en_max_batch_objects = 10, en_batch_max_bytes = 1000, en_repository_providers = [(''gh'', granting_provider)],
     en_storage_providers = sample_providers, en_has_metadata = True, en_crypto = sample_crypto,
     en_base64 = hex64, en_sha256_hex = (\<lambda>s. s), en_parse_query = (\<lambda>_. [(''size'', ''7'')]),
     en_parse_batch = (\<lambda>_. Some \<lparr>req_operation = Download, req_transfers = [], req_ref = None,
       req_hash_algo = Sha256, req_objects = [sample_object]\<rparr>)\<rparr>"

definition sample_state :: "memory_backend server_state" where
  "sample_state = \<lparr>sv_store = sample_store, sv_sessions = snd sample_issued, sv_cache = Map.empty,
     sv_staging = coordinator_new 4 2\<rparr>"

definition sample_session :: authenticated_session where
  "sample_session = \<lparr>au_token = ''t'',
     au_record = \<lparr>sr_metadata = session_metadata_new sample_user [] 0 1, sr_github_pat = Some ''pat''\<rparr>\<rparr>"

definition sample_clock :: "int \<Rightarrow> request_clock" where
  "sample_clock t = \<lparr>ck_now = 0, ck_check = t, ck_recheck = t, ck_stored = t\<rparr>"

definition sample_request :: "http_method \<Rightarrow> string \<Rightarrow> string option \<Rightarrow> lfs_request" where
  "sample_request http_method path authorization =
     \<lparr>rq_method = http_method, rq_path = path, rq_query = Some ''size=7'', rq_authorization = authorization,
      rq_content_length = None, rq_http_origin = None, rq_staging = sample_env, rq_upload_lock = Inr (),
      rq_tempfile = Inr (), rq_opened = Inr ()\<rparr>"

lemma sample_transfers_ok: "transfers_ok (ts_db (sv_store sample_state))"
  by (simp add: sample_state_def transfers_ok_def sample_db_def empty_db_def)

lemma sample_provider_authorize:
  "provider_authorize (en_repository_providers sample_server) sample_repository (au_record sample_session) operation w
     = (Inr (), w)"
  by (simp add: provider_authorize_def sample_server_def sample_repository_def sample_mapping_def sample_session_def
      session_metadata_new_def sample_user_def granting_provider_def Let_def)

end
