(* ===== verification/Authorization.thy ===== *)
theory Authorization
  imports Server_Samples
begin

text \<open>
  What the authorization cache guarantees over the life of a server: every answer it gives rests
  on a decision of the repository provider for the same token, repository and kind of access
  within the last fifteen seconds, and a provider that rejects the stored credential ends the
  session.
\<close>

text \<open>The provider is asked when neither cache check answers.\<close>

definition provider_decision ::
  "'w server_env \<Rightarrow> repository_mapping \<Rightarrow> authenticated_session \<Rightarrow> lfs_batch_operation \<Rightarrow> 'w server_state
     \<Rightarrow> unit server_result" where
  "provider_decision env repository session operation sv =
     fst (provider_authorize (en_repository_providers env) repository (au_record session) operation
       (ts_backend (sv_store sv)))"

definition cached_at :: "int \<Rightarrow> authorization_cache_key \<Rightarrow> 'w server_state \<Rightarrow> bool" where
  "cached_at now key sv \<longleftrightarrow> (\<exists>expiry. sv_cache sv key = Some expiry \<and> now < expiry)"

lemma authorize_cached:
  assumes "cached_at (ck_check ck) (authorization_key repository session operation) sv"
  shows "authorize env ck repository session operation sv = (Inr (), sv)"
  using assms by (auto simp: authorize_def authorization_is_cached_def cached_at_def Let_def)

lemma is_authentication_required_Inr: "\<not> is_authentication_required (Inr x)"
  by (simp add: is_authentication_required_def)

lemma authorize_asked:
  fixes env :: "'w server_env" and ck :: request_clock
  assumes "\<not> cached_at (ck_check ck) (authorization_key repository session operation) sv"
  defines "key \<equiv> authorization_key repository session operation"
  defines "decision \<equiv> provider_authorize (en_repository_providers env) repository (au_record session) operation
      (ts_backend (sv_store sv))"
  defines "sv' \<equiv> sv\<lparr>sv_cache := (sv_cache sv)(key := None),
      sv_store := (sv_store sv)\<lparr>ts_backend := snd decision\<rparr>\<rparr>"
  shows "authorize env ck repository session operation sv =
    (if is_ok (fst decision)
     then (Inr (), sv'\<lparr>sv_cache := cache_store (ck_stored ck) key ((sv_cache sv)(key := None))\<rparr>)
     else if is_authentication_required (fst decision)
     then (case revoke_session (en_crypto env) (ck_now ck) (sv_sessions sv) (au_token session) of
             (Inl e, sessions) \<Rightarrow> (Inl e, sv'\<lparr>sv_sessions := sessions\<rparr>)
           | (Inr _, sessions) \<Rightarrow> (fst decision, sv'\<lparr>sv_sessions := sessions\<rparr>))
     else (fst decision, sv'))"
proof -
  have first: "authorization_is_cached (ck_check ck) key (sv_cache sv) = (False, (sv_cache sv)(key := None))"
    using assms(1) by (auto simp: authorization_is_cached_def cached_at_def key_def split: option.splits)
  have second: "authorization_is_cached (ck_recheck ck) key ((sv_cache sv)(key := None)) =
      (False, (sv_cache sv)(key := None))"
    by (simp add: authorization_is_cached_def)
  obtain r w where d: "decision = (r, w)" by (cases decision)
  have asked: "provider_authorize (en_repository_providers env) repository (au_record session) operation
      (ts_backend (sv_store sv)) = (r, w)"
    using d by (simp add: decision_def)
  have "authorize env ck repository session operation sv =
    (let sv3 = sv\<lparr>sv_cache := (sv_cache sv)(key := None), sv_store := (sv_store sv)\<lparr>ts_backend := w\<rparr>\<rparr>;
         sv4 = (if is_ok r then sv3\<lparr>sv_cache := cache_store (ck_stored ck) key (sv_cache sv3)\<rparr> else sv3)
     in if is_authentication_required r
        then (case revoke_session (en_crypto env) (ck_now ck) (sv_sessions sv4) (au_token session) of
                (Inl e, sessions) \<Rightarrow> (Inl e, sv4\<lparr>sv_sessions := sessions\<rparr>)
              | (Inr _, sessions) \<Rightarrow> (r, sv4\<lparr>sv_sessions := sessions\<rparr>))
        else (r, sv4))"
    unfolding authorize_def key_def [symmetric] Let_def
    using first second asked by (simp add: Let_def split: prod.split sum.split)
  then show ?thesis
    using d by (cases r) (auto simp add: sv'_def is_authentication_required_Inr Let_def split: prod.split sum.split)
qed

section \<open>Histories\<close>

text \<open>
  The events that matter for the cache: authorizations, with the instants at which the provider
  said yes collected in a log, and anything else, which leaves the cache alone.
\<close>

inductive authorization_history ::
  "'w server_env \<Rightarrow> 'w server_state \<Rightarrow> (authorization_cache_key \<times> int) list \<Rightarrow> bool" for env where
  start: "sv_cache sv = Map.empty \<Longrightarrow> authorization_history env sv []"
| cached: "authorization_history env sv log \<Longrightarrow>
     cached_at (ck_check ck) (authorization_key repository session operation) sv \<Longrightarrow>
     authorize env ck repository session operation sv = (r, sv') \<Longrightarrow> authorization_history env sv' log"
| asked_yes: "authorization_history env sv log \<Longrightarrow>
     \<not> cached_at (ck_check ck) (authorization_key repository session operation) sv \<Longrightarrow>
     provider_decision env repository session operation sv = Inr () \<Longrightarrow>
     authorize env ck repository session operation sv = (r, sv') \<Longrightarrow>
     authorization_history env sv' ((authorization_key repository session operation, ck_stored ck) # log)"
| asked_no: "authorization_history env sv log \<Longrightarrow>
     \<not> cached_at (ck_check ck) (authorization_key repository session operation) sv \<Longrightarrow>
     provider_decision env repository session operation sv = Inl e \<Longrightarrow>
     authorize env ck repository session operation sv = (r, sv') \<Longrightarrow> authorization_history env sv' log"
| other: "authorization_history env sv log \<Longrightarrow> sv_cache sv' = sv_cache sv \<Longrightarrow> authorization_history env sv' log"

definition cache_backed :: "(authorization_cache_key \<rightharpoonup> int) \<Rightarrow> (authorization_cache_key \<times> int) list \<Rightarrow> bool" where
  "cache_backed cache log \<longleftrightarrow>
     (\<forall>key expiry. cache key = Some expiry \<longrightarrow> (key, expiry - AUTHORIZATION_CACHE_TTL) \<in> set log)"

lemma cache_backed_history: "authorization_history env sv log \<Longrightarrow> cache_backed (sv_cache sv) log"
proof (induction rule: authorization_history.induct)
  case (start sv)
  then show ?case by (simp add: cache_backed_def)
next
  case (cached sv log ck repository session operation r sv')
  then show ?case using authorize_cached [where env = env and ck = ck and repository = repository and session = session and operation = operation and sv = sv] by simp
next
  case (asked_yes sv log ck repository session operation r sv')
  then show ?case
    using authorize_asked [where env = env and ck = ck and repository = repository and session = session and operation = operation and sv = sv]
    by (auto simp: provider_decision_def cache_backed_def cache_store_def split: option.splits if_splits)
next
  case (asked_no sv log ck repository session operation e r sv')
  have "sv_cache sv' = (sv_cache sv)(authorization_key repository session operation := None)"
    using asked_no(2-4) authorize_asked [where env = env and ck = ck and repository = repository and session = session and operation = operation and sv = sv]
    by (auto simp: provider_decision_def split: if_splits sum.splits prod.splits)
  then show ?case using asked_no(5) by (auto simp: cache_backed_def)
qed (auto simp: cache_backed_def)

text \<open>
  C9: An authorized request is freshly authorized: in every history of a server, an authorization
  that succeeds either has the provider's yes for this very request, or the provider said yes for
  the same session token, repository and kind of access (read or write) less than fifteen seconds
  before.
\<close>

theorem authorization_is_fresh:
  assumes "authorization_history env sv log"
    and "fst (authorize env ck repository session operation sv) = Inr ()"
  shows "fst (provider_authorize (en_repository_providers env) repository (au_record session) operation
        (ts_backend (sv_store sv))) = Inr ()
    \<or> (\<exists>granted. (\<lparr>ak_session_token = au_token session, ak_repository_id = rm_id repository,
           ak_write = (operation = Upload)\<rparr>, granted) \<in> set log
         \<and> ck_check ck < granted + 15 * NANOS)"
proof (cases "cached_at (ck_check ck) (authorization_key repository session operation) sv")
  case True
  then obtain expiry where "sv_cache sv (authorization_key repository session operation) = Some expiry"
    "ck_check ck < expiry"
    by (auto simp: cached_at_def)
  then show ?thesis
    using cache_backed_history [OF assms(1)]
    by (auto simp: cache_backed_def authorization_key_def AUTHORIZATION_CACHE_TTL_def
        intro!: exI [of _ "expiry - 15 * NANOS"])
next
  case False
  then show ?thesis
    using assms(2) authorize_asked [OF False, where env = env]
    by (auto simp: is_authentication_required_def is_ok_iff split: if_splits sum.splits prod.splits)
qed

lemma authorization_is_fresh_witness:
  "\<exists>sv log. authorization_history sample_server sv log
     \<and> cached_at 5 (authorization_key sample_repository sample_session Download) sv
     \<and> (fst (provider_authorize (en_repository_providers sample_server) sample_repository
            (au_record sample_session) Download (ts_backend (sv_store sv))) = Inr ()
        \<or> (\<exists>granted. (\<lparr>ak_session_token = ''t'', ak_repository_id = ''a'', ak_write = False\<rparr>, granted) \<in> set log
             \<and> 5 < granted + 15 * NANOS))"
proof -
  let ?ask = "\<lambda>t. authorize sample_server (sample_clock t) sample_repository sample_session Download"
  let ?key = "authorization_key sample_repository sample_session Download"
  obtain r sv where first: "?ask 0 sample_state = (r, sv)" by (cases "?ask 0 sample_state")
  have asked: "\<not> cached_at (ck_check (sample_clock 0)) ?key sample_state"
    by (simp add: cached_at_def sample_state_def)
  have yes: "provider_decision sample_server sample_repository sample_session Download sample_state = Inr ()"
    by (simp add: provider_decision_def sample_provider_authorize)
  have "authorization_history sample_server sv [(?key, ck_stored (sample_clock 0))]"
    by (rule authorization_history.asked_yes [OF authorization_history.start asked yes first])
      (simp add: sample_state_def)
  moreover have cached: "cached_at 5 ?key sv"
    using first authorize_asked [OF asked, where env = sample_server] yes
    by (auto simp: provider_decision_def cached_at_def cache_store_def sample_clock_def AUTHORIZATION_CACHE_TTL_def
        NANOS_def)
  moreover have "fst (?ask 5 sv) = Inr ()"
    using authorize_cached [where ck = "sample_clock 5" and sv = sv] cached by (simp add: sample_clock_def)
  ultimately show ?thesis
    using authorization_is_fresh [where env = sample_server and sv = sv and ck = "sample_clock 5"
        and repository = sample_repository and session = sample_session and operation = Download
        and log = "[(?key, ck_stored (sample_clock 0))]"]
    by (intro exI [of _ sv] exI [of _ "[(?key, ck_stored (sample_clock 0))]"] conjI)
      (simp_all add: sample_clock_def sample_session_def)
qed

end
