(* ===== verification/Transfer_Attempts.thy ===== *)
theory Transfer_Attempts
  imports Server_Samples
begin

text \<open>
  The life of a transfer attempt across a request: every attempt a handler starts it also ends,
  as succeeded exactly when the client is answered 200, and no older attempt is touched. The
  fault of the database is fixed during a request here, so a statement that could start an
  attempt can also end it.
\<close>

section \<open>The ledger of attempts\<close>

type_synonym ledger = "transfer_row list \<times> int \<times> string option"

definition ledger_of :: "metadata_db \<Rightarrow> ledger" where
  "ledger_of db = (md_transfers db, md_next_transfer_id db, md_fault db)"

abbreviation ledger :: "'w server_state \<Rightarrow> ledger" where
  "ledger sv \<equiv> ledger_of (ts_db (sv_store sv))"

abbreviation keeps_ledger :: "('w transfer_store, 'e, 'a) sr \<Rightarrow> bool" where
  "keeps_ledger m \<equiv> \<forall>l. keeps (\<lambda>st. ledger_of (ts_db st) = l) m"

lemma keeps_ledger_step: "keeps_ledger m \<Longrightarrow> m st = (r, st') \<Longrightarrow> ledger_of (ts_db st') = ledger_of (ts_db st)"
  unfolding keeps_def by (metis snd_conv)

lemma keeps_ledger_bind:
  "keeps_ledger m \<Longrightarrow> (\<And>x. keeps_ledger (f x)) \<Longrightarrow> keeps_ledger (bind_sr m f)"
  by blast

lemma keeps_ledger_basic:
  "keeps_ledger (ret_sr x)" "keeps_ledger (lift_sr r)" "keeps_ledger (db_read g)" "keeps_ledger (backend_call h)"
  by (auto simp: keeps_def db_read_def backend_call_def split: prod.splits)

lemma keeps_ledger_if: "keeps_ledger a \<Longrightarrow> keeps_ledger b \<Longrightarrow> keeps_ledger (if c then a else b)"
  by simp

lemma keeps_ledger_option:
  "keeps_ledger a \<Longrightarrow> (\<And>x. keeps_ledger (f x)) \<Longrightarrow> keeps_ledger (case y of None \<Rightarrow> a | Some x \<Rightarrow> f x)"
  by (cases y) simp_all

lemma record_keeps_ledger: "keeps_ledger (record_verified_object_metadata now repository object b user)"
  by (auto simp: keeps_def record_verified_object_metadata_def db_write_def record_verified_object_def Let_def
      ledger_of_def split: sum.splits if_splits prod.splits option.splits)

lemma mark_stale_keeps_ledger: "keeps_ledger (store_mark_stale repository object b)"
  by (auto simp: keeps_def store_mark_stale_def db_write_def mark_object_stale_def Let_def ledger_of_def
      split: sum.splits if_splits prod.splits option.splits)

lemma lookup_metadata_keeps_ledger: "keeps_ledger (store_lookup_metadata repository object)"
  unfolding store_lookup_metadata_def by (rule keeps_ledger_basic)

lemmas ledger_rules = keeps_ledger_bind keeps_ledger_if keeps_ledger_option keeps_ledger_basic
  record_keeps_ledger mark_stale_keeps_ledger lookup_metadata_keeps_ledger

lemma lookup_keeps_ledger: "keeps_ledger (lookup_and_repair_object_with_runtime now repository object runtime)"
  unfolding lookup_and_repair_object_with_runtime_def by (rule ledger_rules)+

lemma upload_keeps_ledger: "keeps_ledger (store_upload_object now providers repository object content user)"
  unfolding store_upload_object_def by (rule ledger_rules)+

lemma record_verified_keeps_ledger: "keeps_ledger (store_record_verified_object now providers repository object b user)"
  unfolding store_record_verified_object_def by (rule ledger_rules)+

lemma staged_download_keeps_ledger:
  assumes "staged_download_response now tempfile opened repository object runtime st = (r, st')"
  shows "ledger_of (ts_db st') = ledger_of (ts_db st)"
proof (cases "(\<exists>md. fst (store_lookup_metadata repository object st) = Inr md) \<and> tempfile = Inr ()")
  case False
  then show ?thesis
    using staged_download_early [OF assms] by auto
next
  case True
  then obtain metadata where md: "store_lookup_metadata repository object st = (Inr metadata, st)"
    using lookup_metadata_state [of repository object st] by (metis prod.collapse)
  note run = assms [unfolded staged_download_run [OF md True [THEN conjunct2]]]
  obtain d w where d: "rt_download_object runtime (rm_id repository) object (ts_backend st) = (d, w)"
    by (cases "rt_download_object runtime (rm_id repository) object (ts_backend st)")
  have stale: "keeps_ledger (bind_sr (store_mark_stale repository object b) (\<lambda>_. lift_sr x))" for b x
    by (rule ledger_rules)+
  let ?found = "\<lambda>stored0 content. bind_sr (lift_sr (ensure_stored_object_namespace repository stored0)) (\<lambda>stored.
           bind_sr (case metadata of
                      Some md \<Rightarrow>
                        if so_backend_id stored \<noteq> mo_backend_id md \<or> mo_verification_status md \<noteq> Verified
                        then record_verified_object_metadata now repository object (so_backend_id stored) (mo_created_by md)
                        else ret_sr ()
                    | None \<Rightarrow> ret_sr ()) (\<lambda>_.
           bind_sr (lift_sr opened) (\<lambda>_. ret_sr (stored, content))))"
  have found: "keeps_ledger (?found stored0 content)" for stored0 content
    by (rule ledger_rules)+
  show ?thesis
  proof (cases d)
    case (Inl source)
    then show ?thesis
      using run d keeps_ledger_step [OF stale, of _ _ "st\<lparr>ts_backend := w\<rparr>" r st']
      by (auto split: storage_error.splits option.splits)
  next
    case (Inr p)
    then show ?thesis
      using run d keeps_ledger_step [OF found, of "fst p" "snd p" "st\<lparr>ts_backend := w\<rparr>" r st']
      by (cases p) auto
  qed
qed

lemma download_keeps_ledger:
  "keeps_ledger (store_download_object_response now tempfile opened providers repository object)"
proof -
  have staged: "keeps_ledger (staged_download_response now tempfile opened repository object runtime)" for runtime
    unfolding keeps_def by (intro allI impI) (simp only: staged_download_keeps_ledger [OF surjective_pairing])
  show ?thesis
    unfolding store_download_object_response_def by (rule staged lookup_keeps_ledger ledger_rules)+
qed

section \<open>Pending and settled attempts\<close>

text \<open>
  Relative to the ledger at the start of the request: an attempt is pending when its row is the
  newest, in progress; it is settled when that row is ended. Without a database there is no row.
\<close>

definition pending :: "'w server_env \<Rightarrow> ledger \<Rightarrow> int option \<Rightarrow> 'w server_state \<Rightarrow> bool" where
  "pending env l attempt_id sv \<longleftrightarrow> (case attempt_id of
       None \<Rightarrow> \<not> en_has_metadata env \<and> ledger sv = l
     | Some i \<Rightarrow> en_has_metadata env \<and> i = fst (snd l) \<and> snd (snd l) = None
         \<and> (\<exists>row. ledger sv = (fst l @ [row], i + 1, None) \<and> tr_id row = i \<and> tr_status row = ''started''
              \<and> tr_finished_at row = None \<and> tr_error_category row = None \<and> tr_error_message row = None))"

definition ended_row :: "int \<Rightarrow> bool \<Rightarrow> transfer_row \<Rightarrow> bool" where
  "ended_row i ok row \<longleftrightarrow> tr_id row = i \<and> tr_finished_at row \<noteq> None
     \<and> (if ok then tr_status row = ''succeeded'' \<and> tr_error_category row = None \<and> tr_error_message row = None
        else tr_status row = ''failed'' \<and> tr_backend_id row = None)"

definition settled :: "'w server_env \<Rightarrow> ledger \<Rightarrow> bool \<Rightarrow> 'w server_state \<Rightarrow> bool" where
  "settled env l ok sv \<longleftrightarrow>
     (if en_has_metadata env
      then \<exists>row. ledger sv = (fst l @ [row], fst (snd l) + 1, snd (snd l)) \<and> ended_row (fst (snd l)) ok row
      else ledger sv = l)"

definition fresh_ids :: "ledger \<Rightarrow> bool" where
  "fresh_ids l \<longleftrightarrow> (\<forall>row \<in> set (fst l). tr_id row < fst (snd l))"

lemma pending_ledger: "pending env l attempt_id sv \<Longrightarrow> ledger sv' = ledger sv \<Longrightarrow> pending env l attempt_id sv'"
  by (simp add: pending_def split: option.splits)

lemma on_store_ledger:
  assumes "on_store m sv = (r, sv')" "keeps_ledger m"
  shows "ledger sv' = ledger sv"
proof -
  obtain st' where "m (sv_store sv) = (r, st')" "sv' = sv\<lparr>sv_store := st'\<rparr>"
    using assms(1) by (auto simp: on_store_def split: prod.splits)
  then show ?thesis using keeps_ledger_step [OF assms(2)] by simp
qed

lemma start_attempt:
  assumes "state_start_transfer_attempt env repository object operation user sv = (r, sv')"
  shows "case r of Inr attempt_id \<Rightarrow> pending env (ledger sv) attempt_id sv' | Inl e \<Rightarrow> ledger sv' = ledger sv"
proof (cases "en_has_metadata env")
  case False
  then show ?thesis using assms by (auto simp: state_start_transfer_attempt_def pending_def)
next
  case True
  let ?start = "start_transfer_attempt (ts_db (sv_store sv)) (rm_id repository) (rm_storage_provider repository)
      object operation user"
  show ?thesis
  proof (cases ?start)
    case (Inl e)
    then show ?thesis
      using assms True by (auto simp: state_start_transfer_attempt_def on_store_def db_write_def bind_sr_def)
  next
    case (Inr p)
    obtain i db where p: "p = (i, db)" by (cases p)
    have shape: "md_fault (ts_db (sv_store sv)) = None \<and> (\<exists>row. i = md_next_transfer_id (ts_db (sv_store sv)) \<and> ledger_of db =
        (md_transfers (ts_db (sv_store sv)) @ [row], i + 1, None) \<and> tr_id row = i \<and> tr_status row = ''started''
        \<and> tr_finished_at row = None \<and> tr_error_category row = None \<and> tr_error_message row = None)"
      using Inr by (auto simp: p start_transfer_attempt_def ledger_of_def split: if_splits)
    have "r = Inr (Some i)" "ts_db (sv_store sv') = db"
      using assms True Inr by (auto simp: state_start_transfer_attempt_def on_store_def db_write_def bind_sr_def p)
    then show ?thesis using shape True by (auto simp: pending_def ledger_of_def)
  qed
qed

definition result_ok :: "transfer_result \<Rightarrow> bool" where
  "result_ok result = (case result of TransferSucceeded b \<Rightarrow> True | TransferFailed c m \<Rightarrow> False)"

lemma finish_attempt:
  assumes "pending env l attempt_id sv" "fresh_ids l"
  shows "\<exists>sv'. state_finish_transfer_attempt env ck attempt_id result sv = (Inr (), sv')
    \<and> settled env l (result_ok result) sv'"
proof (cases attempt_id)
  case None
  then show ?thesis using assms(1) by (simp add: state_finish_transfer_attempt_def pending_def settled_def)
next
  case (Some i)
  then obtain row where row: "en_has_metadata env" "i = fst (snd l)" "snd (snd l) = None" "ledger sv = (fst l @ [row], i + 1, None)"
    "tr_id row = i" "tr_status row = ''started''" "tr_finished_at row = None" "tr_error_category row = None"
    "tr_error_message row = None"
    using assms(1) by (auto simp: pending_def)
  have old: "map (\<lambda>r. if tr_id r = i \<and> tr_status r = ''started'' then f r else r) (fst l) = fst l" for f
    using assms(2) row(2) by (auto simp: fresh_ids_def intro!: map_idI)
  have rows: "md_transfers (ts_db (sv_store sv)) = fst l @ [row]" "md_next_transfer_id (ts_db (sv_store sv)) = i + 1"
    "md_fault (ts_db (sv_store sv)) = None"
    using row(4) by (simp_all add: ledger_of_def)
  show ?thesis
    using row rows old Some
    by (cases result)
      (simp_all add: state_finish_transfer_attempt_def on_store_def db_write_def finish_transfer_attempt_def run_sql_def
        settled_def ended_row_def ledger_of_def result_ok_def)
qed

section \<open>The handlers\<close>

text \<open>What a transfer handler leaves behind.\<close>

definition accounted :: "'w server_env \<Rightarrow> ledger \<Rightarrow> http_response \<Rightarrow> 'w server_state \<Rightarrow> bool" where
  "accounted env l response sv \<longleftrightarrow>
     hr_status response = 200 \<and> settled env l True sv
     \<or> 400 \<le> hr_status response \<and> (settled env l False sv \<or> ledger sv = l)"

lemma status_simps [simp]:
  "hr_status (git_lfs_json_error_response n m) = n" "hr_status (status_response n) = n"
  "hr_status (git_lfs_json_response b) = 200" "hr_status (with_allow ms r) = hr_status r"
  "hr_status upload_payload_too_large_response = 413" "hr_status upload_temp_space_exhausted_response = 507"
  "hr_status upload_staging_timeout_response = 408" "hr_status upload_staging_overloaded_response = 503"
  "hr_status authentication_required_response = 401"
  by (simp_all add: git_lfs_json_error_response_def status_response_def git_lfs_json_response_def with_allow_def
      upload_payload_too_large_response_def upload_temp_space_exhausted_response_def
      upload_staging_timeout_response_def upload_staging_overloaded_response_def authentication_required_response_def)

lemma storage_error_status [simp]:
  "400 \<le> hr_status (git_lfs_storage_error_response e)"
  "400 \<le> hr_status (git_lfs_download_storage_error_response e)"
  by (simp_all add: git_lfs_storage_error_response_def git_lfs_download_storage_error_response_def
      git_lfs_storage_error_response_parts_def classify_lfs_storage_error_def uniform_transfer_response_def
      Let_def split: server_error.split storage_error.split)

lemma authorization_error_status [simp]: "400 \<le> hr_status (git_lfs_authorization_error_response e)"
  by (simp add: git_lfs_authorization_error_response_def git_lfs_json_error_response_def Let_def
      split: server_error.split repository_provider_error.split)

lemma finish_failed_message:
  assumes "pending env l attempt_id sv" "fresh_ids l"
  shows "settled env l False (finish_failed_transfer_attempt_with_message env ck attempt_id category message sv)"
  using finish_attempt [OF assms, of ck "TransferFailed category message"]
  by (auto simp: result_ok_def finish_failed_transfer_attempt_with_message_def)

lemma finish_failed:
  "pending env l attempt_id sv \<Longrightarrow> fresh_ids l \<Longrightarrow>
     settled env l False (finish_failed_transfer_attempt env ck attempt_id e download sv)"
  by (simp add: finish_failed_transfer_attempt_def finish_failed_message)

lemma settled_ledger: "settled env l ok sv \<Longrightarrow> ledger sv' = ledger sv \<Longrightarrow> settled env l ok sv'"
  by (simp add: settled_def)

lemma accounted_unchanged: "400 \<le> hr_status response \<Longrightarrow> ledger sv = l \<Longrightarrow> accounted env l response sv"
  by (simp add: accounted_def)

lemma accounted_ledger: "accounted env l response sv \<Longrightarrow> ledger sv' = ledger sv \<Longrightarrow> accounted env l response sv'"
  by (auto simp: accounted_def settled_def)

lemma set_staging_ledger [simp]: "ledger (set_staging co sv) = ledger sv"
  by (cases co) (simp_all add: set_staging_def)

lemma staging_failed_accounted:
  assumes "staging_failed env ck attempt_id e sv = (response, sv')" "pending env l attempt_id sv" "fresh_ids l"
  shows "accounted env l response sv'"
  using assms(1) finish_failed_message [OF assms(2,3)] finish_failed [OF assms(2,3)]
  by (cases e) (auto simp: staging_failed_def accounted_def)

lemma admission_failed_accounted:
  assumes "admission_failed env ck attempt_id e sv = (response, sv')" "pending env l attempt_id sv" "fresh_ids l"
  shows "accounted env l response sv'"
  using assms(1) finish_failed_message [OF assms(2,3)] finish_failed [OF assms(2,3)]
  by (auto simp: admission_failed_def accounted_def split: if_splits)

lemma upload_staged_accounted:
  assumes "upload_staged env ck repository object created_by attempt_id content sv = (response, sv')"
    "pending env l attempt_id sv" "fresh_ids l"
  shows "accounted env l response sv'"
proof -
  obtain r sv1 where up: "state_upload_object env ck repository object content created_by sv = (r, sv1)"
    by (cases "state_upload_object env ck repository object content created_by sv")
  have "ledger sv1 = ledger sv"
    using on_store_ledger [OF up [unfolded state_upload_object_def] upload_keeps_ledger] .
  then have p1: "pending env l attempt_id sv1" using pending_ledger assms(2) by blast
  show ?thesis
  proof (cases r)
    case (Inl e)
    then show ?thesis
      using assms(1) up finish_failed [OF p1 assms(3)] by (auto simp: upload_staged_def accounted_def)
  next
    case (Inr stored)
    then show ?thesis
      using assms(1) up finish_attempt [OF p1 assms(3), of ck "TransferSucceeded (Some (so_backend_id stored))"]
      by (auto simp: upload_staged_def accounted_def result_ok_def)
  qed
qed

lemma upload_body_accounted:
  assumes "upload_body env ck request repository object session attempt_id sv = (response, sv')"
    "pending env l attempt_id sv" "fresh_ids l"
  shows "accounted env l response sv'"
proof -
  obtain a co where a: "try_acquire (sv_staging sv) (upload_staging_principal session) = (a, co)"
    by (cases "try_acquire (sv_staging sv) (upload_staging_principal session)")
  show ?thesis
  proof (cases a)
    case (Inl e)
    have "pending env l attempt_id (sv\<lparr>sv_staging := co\<rparr>)"
      by (rule pending_ledger [OF assms(2)]) simp
    then show ?thesis
      using assms(1) a Inl admission_failed_accounted [OF _ _ assms(3)] by (simp add: upload_body_def)
  next
    case (Inr lease)
    obtain s co1 where s: "stage_upload_request_body_with_lease (en_sha256_hex env) co (obj_oid object)
        (Some (obj_size object)) staging_guardrails_default (rq_staging request) lease = (s, co1)"
      by (cases "stage_upload_request_body_with_lease (en_sha256_hex env) co (obj_oid object)
        (Some (obj_size object)) staging_guardrails_default (rq_staging request) lease")
    have p1: "pending env l attempt_id (set_staging co1 sv)"
      by (rule pending_ledger [OF assms(2)]) simp
    show ?thesis
    proof (cases s)
      case (Inl e)
      then show ?thesis
        using assms(1) a Inr s staging_failed_accounted [OF _ p1 assms(3)] by (simp add: upload_body_def)
    next
      case (Inr staged)
      obtain response1 sv1 where u: "upload_staged env ck repository object (session_user (au_record session))
          attempt_id (su_content staged) (set_staging co1 sv) = (response1, sv1)"
        by (cases "upload_staged env ck repository object (session_user (au_record session))
          attempt_id (su_content staged) (set_staging co1 sv)")
      then show ?thesis
        using assms(1) a \<open>a = Inr lease\<close> s Inr upload_staged_accounted [OF u p1 assms(3)]
        by (auto simp: upload_body_def intro: accounted_ledger)
    qed
  qed
qed

lemma upload_locked_accounted:
  assumes "upload_locked env ck request repository object session attempt_id sv = (response, sv')"
    "pending env l attempt_id sv" "fresh_ids l"
  shows "accounted env l response sv'"
proof -
  obtain f sv1 where f: "state_lookup_object env ck repository object sv = (f, sv1)"
    by (cases "state_lookup_object env ck repository object sv")
  have "keeps_ledger (lookup_and_repair_object now providers repository object)" for now providers
    unfolding lookup_and_repair_object_def by (rule keeps_ledger_bind [OF keeps_ledger_basic(2) lookup_keeps_ledger])
  from on_store_ledger [OF f [unfolded state_lookup_object_def] this]
  have p1: "pending env l attempt_id sv1" by (rule pending_ledger [OF assms(2)])
  consider (failed) e where "f = Inl e" | (missing) "f = Inr None" | (found) stored where "f = Inr (Some stored)"
    by (metis sum.exhaust option.exhaust)
  then show ?thesis
  proof cases
    case failed
    then show ?thesis
      using assms(1) f finish_failed [OF p1 assms(3)] by (auto simp: upload_locked_def accounted_def)
  next
    case missing
    then show ?thesis
      using assms(1) f upload_body_accounted [OF _ p1 assms(3)] by (simp add: upload_locked_def)
  next
    case found
    obtain v sv2 where v: "state_record_verified_object env ck repository object (so_backend_id stored)
        (session_user (au_record session)) sv1 = (v, sv2)"
      by (cases "state_record_verified_object env ck repository object (so_backend_id stored)
        (session_user (au_record session)) sv1")
    from on_store_ledger [OF v [unfolded state_record_verified_object_def] record_verified_keeps_ledger]
    have p2: "pending env l attempt_id sv2" by (rule pending_ledger [OF p1])
    show ?thesis
      using assms(1) f found v finish_failed [OF p2 assms(3)] 
        finish_attempt [OF p2 assms(3), of ck "TransferSucceeded (Some (so_backend_id stored))"]
      by (cases v) (auto simp: upload_locked_def accounted_def result_ok_def)
  qed
qed

lemma authorize_ledger: "authorize env ck repository session operation sv = (r, sv') \<Longrightarrow> ledger sv' = ledger sv"
  by (auto simp: authorize_def Let_def split: prod.splits if_splits sum.splits)

lemma handle_upload_accounted:
  assumes "handle_lfs_upload_request env ck request repository x session sv = (response, sv')" "fresh_ids (ledger sv)"
  shows "accounted env (ledger sv) response sv'"
proof (cases "transfer_request_expected_size env request ''upload''")
  case (Inl e)
  then show ?thesis using assms(1) by (auto simp: handle_lfs_upload_request_def accounted_def)
next
  case (Inr n)
  let ?object = "LfsObject x n" and ?user = "session_user (au_record session)"
  show ?thesis
  proof (cases "MAX_UPLOAD_OBJECT_BYTES < n
      \<or> (case request_content_length request of Some n \<Rightarrow> MAX_UPLOAD_OBJECT_BYTES < n | None \<Rightarrow> False)")
    case True
    then show ?thesis using assms(1) Inr by (auto simp: handle_lfs_upload_request_def accounted_def split: if_splits)
  next
    case False
    obtain a sv1 where a: "authorize env ck repository session Upload sv = (a, sv1)"
      by (cases "authorize env ck repository session Upload sv")
    note l1 = authorize_ledger [OF a]
    obtain t sv2 where t: "state_start_transfer_attempt env repository ?object TransferUpload ?user sv1 = (t, sv2)"
      by (cases "state_start_transfer_attempt env repository ?object TransferUpload ?user sv1")
    note run = assms(1) [unfolded handle_lfs_upload_request_def, simplified Inr False a t Let_def sum.case prod.case]
    show ?thesis
    proof (cases a)
      case (Inl e)
      then show ?thesis using run False l1 by (auto simp: accounted_def)
    next
      case (Inr u)
      show ?thesis
      proof (cases t)
        case t: (Inl e)
        then show ?thesis
          using run False l1 Inr start_attempt [OF \<open>_ = (t, sv2)\<close>] by (auto simp: accounted_def)
      next
        case ok: (Inr attempt_id)
        have p: "pending env (ledger sv) attempt_id sv2"
          using start_attempt [OF t] ok l1 by simp
        show ?thesis
          using run False Inr ok finish_failed [OF p assms(2)] upload_locked_accounted [OF _ p assms(2)]
          by (auto simp: accounted_def split: sum.splits if_splits)
      qed
    qed
  qed
qed

lemma handle_download_accounted:
  assumes "handle_lfs_download_request env ck request repository x session sv = (response, sv')" "fresh_ids (ledger sv)"
  shows "accounted env (ledger sv) response sv'"
proof (cases "transfer_request_expected_size env request ''download''")
  case (Inl e)
  then show ?thesis using assms(1) by (auto simp: handle_lfs_download_request_def accounted_def)
next
  case (Inr n)
  let ?object = "LfsObject x n" and ?user = "session_user (au_record session)"
  obtain a sv1 where a: "authorize env ck repository session Download sv = (a, sv1)"
    by (cases "authorize env ck repository session Download sv")
  note l1 = authorize_ledger [OF a]
  obtain t sv2 where t: "state_start_transfer_attempt env repository ?object TransferDownload ?user sv1 = (t, sv2)"
    by (cases "state_start_transfer_attempt env repository ?object TransferDownload ?user sv1")
  obtain d sv3 where d: "state_download_object_response env ck (rq_tempfile request) (rq_opened request)
      repository ?object sv2 = (d, sv3)"
    by (cases "state_download_object_response env ck (rq_tempfile request) (rq_opened request) repository ?object sv2")
  note l3 = on_store_ledger [OF d [unfolded state_download_object_response_def] download_keeps_ledger]
  note run = assms(1) [unfolded handle_lfs_download_request_def, simplified Inr a t d Let_def sum.case prod.case]
  show ?thesis
  proof (cases a)
    case (Inl e)
    then show ?thesis using run l1 by (auto simp: accounted_def)
  next
    case a_ok: (Inr u)
    show ?thesis
    proof (cases t)
      case (Inl e)
      then show ?thesis using run l1 a_ok start_attempt [OF t] by (auto simp: accounted_def)
    next
      case t_ok: (Inr attempt_id)
      have p: "pending env (ledger sv) attempt_id sv3"
        using start_attempt [OF t] t_ok l1 pending_ledger [OF _ l3] by simp
      show ?thesis
      proof (cases d)
        case (Inl e)
        then show ?thesis
          using run d a_ok t_ok finish_failed [OF p assms(2)] by (auto simp: accounted_def)
      next
        case (Inr sc)
        then show ?thesis
          using run d a_ok t_ok
            finish_attempt [OF p assms(2), of ck "TransferSucceeded (Some (so_backend_id (fst sc)))"]
          by (cases sc) (auto simp: accounted_def result_ok_def)
      qed
    qed
  qed
qed

lemma lookup_all_ledger: "ledger (snd (lookup_all env ck repository outcome objects sv)) = ledger sv"
proof (induction objects arbitrary: sv)
  case (Cons object objects)
  obtain r sv1 where look: "state_lookup_object env ck repository object sv = (r, sv1)"
    by (cases "state_lookup_object env ck repository object sv")
  have "keeps_ledger (lookup_and_repair_object now providers repository object)" for now providers
    unfolding lookup_and_repair_object_def by (rule keeps_ledger_bind [OF keeps_ledger_basic(2) lookup_keeps_ledger])
  from on_store_ledger [OF look [unfolded state_lookup_object_def] this]
  show ?case using look Cons.IH [of sv1] by (auto split: prod.splits)
qed simp

lemma batch_objects_ledger:
  "ledger (snd (batch_objects_with_storage_lookup env ck repository outcome requested sv)) = ledger sv"
  using lookup_all_ledger [of env ck repository outcome "sort (remdups requested)" sv]
  by (auto simp: batch_objects_with_storage_lookup_def split: prod.splits)

lemma batch_response_ledger:
  "ledger (snd (batch_response_with_storage_lookup L env ck repository public_url b sv)) = ledger sv"
  using batch_objects_ledger [of env ck repository download_batch_lookup_outcome "req_objects b" sv]
    batch_objects_ledger [of env ck repository upload_batch_lookup_outcome "req_objects b" sv]
  by (cases "req_operation b") (auto simp: batch_response_with_storage_lookup_def split: prod.splits)

lemma handle_parsed_batch_ledger:
  "ledger (snd (handle_parsed_lfs_batch_request L env ck repository session public_url b sv)) = ledger sv"
proof (cases "authorize env ck repository session (req_operation b) sv")
  case (Pair a sv1)
  show ?thesis
    using batch_response_ledger [of L env ck repository public_url b sv1] authorize_ledger [OF Pair]
    by (cases a) (auto simp: handle_parsed_lfs_batch_request_def Pair split: prod.splits)
qed

lemma handle_batch_ledger:
  "ledger (snd (handle_lfs_batch_request L env ck request repository session public_url sv)) = ledger sv"
  using handle_parsed_batch_ledger
  by (auto simp: handle_lfs_batch_request_def split: sum.splits batch_body_error.splits option.splits)

section \<open>Every request\<close>

lemma fresh_transfers: "transfers_ok (ts_db (sv_store sv)) \<Longrightarrow> fresh_ids (ledger sv)"
  by (auto simp: transfers_ok_def fresh_ids_def ledger_of_def)

lemma transfers_ok_ledger: "ledger_of db' = ledger_of db \<Longrightarrow> transfers_ok db' = transfers_ok db"
  by (simp only: transfers_ok_def ledger_of_def prod.inject)

lemma accounted_cases:
  assumes "accounted env (ledger sv) response sv'" "transfers_ok (ts_db (sv_store sv))"
  shows "transfers_ok (ts_db (sv_store sv')) \<and> (\<exists>new. length new \<le> 1
    \<and> md_transfers (ts_db (sv_store sv')) = md_transfers (ts_db (sv_store sv)) @ new
    \<and> (\<forall>row \<in> set new. tr_status row = (if hr_status response = 200 then ''succeeded'' else ''failed''))
    \<and> (new = [] \<longrightarrow> hr_status response = 200 \<longrightarrow> \<not> en_has_metadata env))"
proof -
  have kept: "transfers_ok (ts_db (sv_store sv'))" if "ledger sv' = ledger sv"
    using transfers_ok_ledger [OF that] assms(2) by simp
  have same: ?thesis if "ledger sv' = ledger sv" "hr_status response = 200 \<longrightarrow> \<not> en_has_metadata env"
    using that kept by (intro conjI exI [of _ "[]"]) (auto simp: ledger_of_def)
  have ended: ?thesis
    if s: "settled env (ledger sv) ok sv'" "en_has_metadata env" "ok \<longleftrightarrow> hr_status response = 200" for ok
  proof -
    obtain row where row: "ledger sv' = (fst (ledger sv) @ [row], fst (snd (ledger sv)) + 1, snd (snd (ledger sv)))"
      "ended_row (fst (snd (ledger sv))) ok row"
      using s by (auto simp: settled_def)
    then have rows: "md_transfers (ts_db (sv_store sv')) = md_transfers (ts_db (sv_store sv)) @ [row]"
      "md_next_transfer_id (ts_db (sv_store sv')) = md_next_transfer_id (ts_db (sv_store sv)) + 1"
      "ended_row (md_next_transfer_id (ts_db (sv_store sv))) ok row"
      by (simp_all add: ledger_of_def)
    have "transfers_ok (ts_db (sv_store sv'))"
      using rows assms(2) by (fastforce simp: transfers_ok_def ended_row_def split: if_splits)
    then show ?thesis
      using rows s(3) by (intro conjI exI [of _ "[row]"]) (auto simp: ended_row_def split: if_splits)
  qed
  show ?thesis
  proof (cases "en_has_metadata env")
    case True
    then show ?thesis using assms(1) same ended [of True] ended [of False] by (fastforce simp: accounted_def)
  next
    case False
    then show ?thesis using assms(1) same by (auto simp: accounted_def settled_def)
  qed
qed

lemma handle_authenticated_cases:
  assumes "handle_authenticated_lfs_request L env ck request route session sv = (response, sv')" "fresh_ids (ledger sv)"
  shows "accounted env (ledger sv) response sv' \<or> ledger sv' = ledger sv \<and> rt_endpoint route = EpBatch"
proof (cases "rt_endpoint route")
  case EpInfo
  then show ?thesis
    using assms(1) by (auto simp: handle_authenticated_lfs_request_def accounted_def)
next
  case EpBatch
  then show ?thesis
    using assms(1) handle_batch_ledger [of L env ck request "rt_repository route" session
        "projr (public_url_for_request env request)" sv]
    by (cases "public_url_for_request env request") (auto simp: handle_authenticated_lfs_request_def accounted_def)
next
  case (EpObject x)
  then have run: "handle_lfs_object_request env ck request (rt_repository route) x session sv = (response, sv')"
    using assms(1) by (simp add: handle_authenticated_lfs_request_def)
  have "accounted env (ledger sv) response sv'"
    using run handle_upload_accounted [OF _ assms(2)] handle_download_accounted [OF _ assms(2)]
    by (cases "rq_method request") (auto simp: handle_lfs_object_request_def intro: accounted_unchanged)
  then show ?thesis by simp
qed



end
