(* ===== verification/Request_Safety.thy ===== *)
theory Request_Safety
  imports Transfer_Attempts
begin

text \<open>
  What a request can do: nothing without an authenticated session that the repository provider
  authorizes for the operation, and an upload that is answered 200 is stored and indexed.
\<close>

section \<open>The gate\<close>

definition requested_operation ::
  "'w server_env \<Rightarrow> lfs_request \<Rightarrow> resolved_lfs_route \<Rightarrow> lfs_batch_operation option" where
  "requested_operation env request route = (case rt_endpoint route of
       EpInfo \<Rightarrow> None
     | EpObject x \<Rightarrow> (case rq_method request of PUT \<Rightarrow> Some Upload | GET \<Rightarrow> Some Download | _ \<Rightarrow> None)
     | EpBatch \<Rightarrow> (case rq_method request of
           POST \<Rightarrow> (case read_batch_request_body (en_batch_max_bytes env) request of
               Inr body \<Rightarrow> map_option req_operation (en_parse_batch env body) | Inl e \<Rightarrow> None)
         | _ \<Rightarrow> None))"

definition permitted :: "'w server_env \<Rightarrow> request_clock \<Rightarrow> lfs_request \<Rightarrow> 'w server_state \<Rightarrow> bool" where
  "permitted env ck request sv \<longleftrightarrow>
     (case resolve_path (en_routes env) (rq_path request) of
        Inl e \<Rightarrow> False
      | Inr route \<Rightarrow>
          (case authenticate_lfs_session (en_crypto env) (en_base64 env) (ck_now ck) (rq_authorization request)
                  (sv_sessions sv) of
             (Inl e, sessions) \<Rightarrow> False
           | (Inr session, sessions) \<Rightarrow>
               (case requested_operation env request route of
                  None \<Rightarrow> False
                | Some operation \<Rightarrow>
                    is_ok (fst (authorize env ck (rt_repository route) session operation (sv\<lparr>sv_sessions := sessions\<rparr>))))))"

definition refused :: "'w server_state \<Rightarrow> http_response \<times> 'w server_state \<Rightarrow> bool" where
  "refused sv answer \<longleftrightarrow> 400 \<le> hr_status (fst answer) \<and> (\<exists>m. hr_body (fst answer) = BodyMessage m)
     \<and> ts_db (sv_store (snd answer)) = ts_db (sv_store sv) \<and> sv_staging (snd answer) = sv_staging sv"

lemma body_simps [simp]:
  "hr_body (git_lfs_json_error_response n m) = BodyMessage m" "hr_body (with_allow ms r) = hr_body r"
  "\<exists>m. hr_body upload_payload_too_large_response = BodyMessage m"
  "\<exists>m. hr_body authentication_required_response = BodyMessage m"
  "\<exists>m. hr_body (git_lfs_authorization_error_response e) = BodyMessage m"
  by (simp_all add: git_lfs_json_error_response_def with_allow_def upload_payload_too_large_response_def
      authentication_required_response_def git_lfs_authorization_error_response_def Let_def
      split: server_error.split repository_provider_error.split)

lemma refused_now [intro]:
  "400 \<le> hr_status response \<Longrightarrow> \<exists>m. hr_body response = BodyMessage m \<Longrightarrow> refused sv (response, sv)"
  by (simp add: refused_def)

lemma authorize_frame:
  "authorize env ck repository session operation sv = (r, sv') \<Longrightarrow>
     ts_db (sv_store sv') = ts_db (sv_store sv) \<and> sv_staging sv' = sv_staging sv"
  by (auto simp: authorize_def Let_def split: prod.splits if_splits sum.splits)

lemma authorize_refused:
  "authorize env ck repository session operation sv = (Inl e, sv') \<Longrightarrow>
     refused sv (git_lfs_authorization_error_response e, sv')"
  using authorize_frame [of env ck repository session operation sv "Inl e" sv'] by (simp add: refused_def)

lemma not_okE:
  assumes "\<not> is_ok (fst p)"
  obtains e s where "p = (Inl e, s)"
  using assms by (cases p; cases "fst p") auto

lemma upload_refused:
  assumes "\<not> is_ok (fst (authorize env ck repository session Upload sv))"
  shows "refused sv (handle_lfs_upload_request env ck request repository x session sv)"
proof -
  obtain e sv1 where a: "authorize env ck repository session Upload sv = (Inl e, sv1)"
    using not_okE [OF assms] .
  then show ?thesis
    using authorize_refused [OF a] by (auto simp: handle_lfs_upload_request_def split: sum.split)
qed

lemma download_refused:
  assumes "\<not> is_ok (fst (authorize env ck repository session Download sv))"
  shows "refused sv (handle_lfs_download_request env ck request repository x session sv)"
proof -
  obtain e sv1 where a: "authorize env ck repository session Download sv = (Inl e, sv1)"
    using not_okE [OF assms] .
  then show ?thesis
    using authorize_refused [OF a] by (auto simp: handle_lfs_download_request_def split: sum.split)
qed

lemma batch_refused:
  assumes "\<And>body b. read_batch_request_body (en_batch_max_bytes env) request = Inr body \<Longrightarrow>
      en_parse_batch env body = Some b \<Longrightarrow> rq_method request = POST \<Longrightarrow>
      \<not> is_ok (fst (authorize env ck repository session (req_operation b) sv))"
  shows "refused sv (handle_lfs_batch_request L env ck request repository session public_url sv)"
proof -
  have parsed: "refused sv (handle_parsed_lfs_batch_request L env ck repository session public_url b sv)"
    if denied: "\<not> is_ok (fst (authorize env ck repository session (req_operation b) sv))" for b
  proof -
    obtain e sv1 where a: "authorize env ck repository session (req_operation b) sv = (Inl e, sv1)"
      using not_okE [OF denied] .
    then show ?thesis
      using authorize_refused [OF a] by (auto simp: handle_parsed_lfs_batch_request_def)
  qed
  show ?thesis
    using assms parsed
    by (auto simp: handle_lfs_batch_request_def split: sum.split batch_body_error.split option.split)
qed

lemma authenticated_refused:
  assumes "case requested_operation env request route of None \<Rightarrow> True
    | Some operation \<Rightarrow> \<not> is_ok (fst (authorize env ck (rt_repository route) session operation sv))"
  shows "refused sv (handle_authenticated_lfs_request L env ck request route session sv)"
proof (cases "rt_endpoint route")
  case EpInfo
  then show ?thesis by (auto simp: handle_authenticated_lfs_request_def)
next
  case EpBatch
  have "refused sv (handle_lfs_batch_request L env ck request (rt_repository route) session public_url sv)" for public_url
    by (rule batch_refused) (use assms EpBatch in \<open>auto simp: requested_operation_def\<close>)
  then show ?thesis
    using EpBatch by (auto simp: handle_authenticated_lfs_request_def split: sum.split)
next
  case (EpObject x)
  then show ?thesis
    using assms upload_refused download_refused
    by (cases "rq_method request")
      (auto simp: handle_authenticated_lfs_request_def handle_lfs_object_request_def requested_operation_def)
qed



section \<open>Accepted uploads\<close>

text \<open>Ending an attempt leaves the object index alone.\<close>

definition same_index :: "'w server_state \<Rightarrow> 'w server_state \<Rightarrow> bool" where
  "same_index sv sv' \<longleftrightarrow> index_of (sv_store sv') = index_of (sv_store sv)
     \<and> (store_sound (sv_store sv') \<longleftrightarrow> store_sound (sv_store sv))"

lemma lookup_object_transfers:
  "lookup_object (db\<lparr>md_transfers := t\<rparr>) = lookup_object db"
  "lookup_object (db\<lparr>md_transfers := t, md_next_transfer_id := n\<rparr>) = lookup_object db"
proof -
  have "operation_error (db\<lparr>md_transfers := t\<rparr>) = operation_error db"
    "operation_error (db\<lparr>md_transfers := t, md_next_transfer_id := n\<rparr>) = operation_error db"
    by (intro ext, simp add: operation_error_def)+
  then show "lookup_object (db\<lparr>md_transfers := t\<rparr>) = lookup_object db"
    "lookup_object (db\<lparr>md_transfers := t, md_next_transfer_id := n\<rparr>) = lookup_object db"
    by (intro ext, simp add: lookup_object_def run_sql_def cong: option.case_cong)+
qed

lemma object_row_transfers:
  "object_row_ok (db\<lparr>md_transfers := t\<rparr>) = object_row_ok db"
  "object_row_ok (db\<lparr>md_transfers := t, md_next_transfer_id := n\<rparr>) = object_row_ok db"
  by (intro ext, simp add: object_row_ok_def parents_exist_def)+

lemma transfers_not_indexed:
  "index_look (db\<lparr>md_transfers := t\<rparr>) = index_look db" "objects_ok (db\<lparr>md_transfers := t\<rparr>) = objects_ok db"
  "index_look (db\<lparr>md_transfers := t, md_next_transfer_id := n\<rparr>) = index_look db"
  "objects_ok (db\<lparr>md_transfers := t, md_next_transfer_id := n\<rparr>) = objects_ok db"
  by (simp_all add: index_look_def [abs_def] lookup_object_transfers objects_ok_def object_row_transfers)

lemma start_same_index:
  "state_start_transfer_attempt env repository object operation user sv = (r, sv') \<Longrightarrow> same_index sv sv'"
  by (auto simp: state_start_transfer_attempt_def on_store_def db_write_def start_transfer_attempt_def bind_sr_def
      same_index_def index_of_def store_sound_def transfers_not_indexed
      split: if_splits sum.splits prod.splits)

lemma finish_same_index:
  "state_finish_transfer_attempt env ck attempt_id result sv = (r, sv') \<Longrightarrow> same_index sv sv'"
  by (auto simp: state_finish_transfer_attempt_def on_store_def db_write_def finish_transfer_attempt_def Let_def
      same_index_def index_of_def store_sound_def transfers_not_indexed
      split: if_splits sum.splits prod.splits option.splits transfer_result.splits)

lemma authorize_same_index:
  "authorize env ck repository session operation sv = (r, sv') \<Longrightarrow> same_index sv sv'"
  using authorize_frame [of env ck repository session operation sv r sv']
  by (simp add: same_index_def index_of_def store_sound_def)

lemma set_staging_same_index [simp]: "same_index sv (set_staging co sv)" "same_index sv (sv\<lparr>sv_staging := c\<rparr>)"
  by (cases co) (simp_all add: set_staging_def same_index_def)

lemma same_index_trans: "same_index a b \<Longrightarrow> same_index b c \<Longrightarrow> same_index a c"
  by (simp add: same_index_def)

text \<open>
  Where the bytes of an object came from: the provider was given exactly the body of the request,
  which has the object's digest and size, or it was found to hold the object already.
\<close>

definition upload_evidence ::
  "'w server_env \<Rightarrow> request_clock \<Rightarrow> lfs_request \<Rightarrow> repository_mapping \<Rightarrow> lfs_object \<Rightarrow> 'w storage_runtime \<Rightarrow> string \<Rightarrow> bool" where
  "upload_evidence env ck request repository object runtime b \<longleftrightarrow>
     (let body = body_text (se_body (rq_staging request)) in
        body_complete (se_body (rq_staging request))
        \<and> en_sha256_hex env body = as_hex (obj_oid object) \<and> length body = unat (obj_size object)
        \<and> (\<exists>w stored w'. rt_upload_object runtime (rm_id repository) object body w = (Inr stored, w')
             \<and> so_backend_id stored = b))
     \<or> (\<exists>st stored st'. lookup_and_repair_object_with_runtime (ck_now ck) repository object runtime st
             = (Inr (Some stored), st') \<and> so_backend_id stored = b)"

lemma storage_error_not_200 [simp]: "hr_status (git_lfs_storage_error_response e) \<noteq> 200"
  using storage_error_status(1) [of e] by linarith

lemma authorization_error_not_200 [simp]: "hr_status (git_lfs_authorization_error_response e) \<noteq> 200"
  using authorization_error_status [of e] by linarith

lemma upload_staged_200:
  assumes "upload_staged env ck repository object user attempt_id content sv = (response, sv')"
    "hr_status response = 200"
  shows "\<exists>stored st. store_upload_object (ck_now ck) (en_storage_providers env) repository object content user (sv_store sv)
      = (Inr stored, st) \<and> same_index (sv\<lparr>sv_store := st\<rparr>) sv'"
proof -
  obtain r st where up: "store_upload_object (ck_now ck) (en_storage_providers env) repository object content user
      (sv_store sv) = (r, st)"
    by (cases "store_upload_object (ck_now ck) (en_storage_providers env) repository object content user (sv_store sv)")
  then have run: "state_upload_object env ck repository object content user sv = (r, sv\<lparr>sv_store := st\<rparr>)"
    by (simp add: state_upload_object_def on_store_def)
  show ?thesis
  proof (cases r)
    case (Inl e)
    then show ?thesis
      using assms run by (auto simp: upload_staged_def)
  next
    case (Inr stored)
    obtain f sv2 where f: "state_finish_transfer_attempt env ck attempt_id (TransferSucceeded (Some (so_backend_id stored)))
        (sv\<lparr>sv_store := st\<rparr>) = (f, sv2)"
      by (cases "state_finish_transfer_attempt env ck attempt_id (TransferSucceeded (Some (so_backend_id stored)))
        (sv\<lparr>sv_store := st\<rparr>)")
    have "sv' = sv2"
      using assms(1) run Inr f by (cases f) (auto simp: upload_staged_def)
    then show ?thesis using up Inr finish_same_index [OF f] by blast
  qed
qed

text \<open>The index of a state in which the object has just been recorded.\<close>

definition indexed :: "repository_mapping \<Rightarrow> lfs_object \<Rightarrow> 'w server_state \<Rightarrow> string \<Rightarrow> 'w server_state \<Rightarrow> bool" where
  "indexed repository object sv b sv' \<longleftrightarrow> store_sound (sv_store sv')
     \<and> index_of (sv_store sv') (store_key repository object) = Some (b, True)
     \<and> (\<forall>k. k \<noteq> store_key repository object \<longrightarrow> index_of (sv_store sv') k = index_of (sv_store sv) k)"

lemma indexed_same:
  "same_index sv sv1 \<Longrightarrow> indexed repository object sv1 b sv2 \<Longrightarrow> same_index sv2 sv' \<Longrightarrow> indexed repository object sv b sv'"
  by (simp add: same_index_def indexed_def)

lemma upload_body_200:
  assumes "upload_body env ck request repository object session attempt_id sv = (response, sv')"
    "hr_status response = 200" "store_sound (sv_store sv)" "oid_ok (obj_oid object)"
    "provider_for (en_storage_providers env) repository = Inr runtime"
  shows "\<exists>b. upload_evidence env ck request repository object runtime b \<and> indexed repository object sv b sv'"
proof -
  let ?stage = "stage_upload_request_body_with_lease (en_sha256_hex env)"
  obtain a co where a: "try_acquire (sv_staging sv) (upload_staging_principal session) = (a, co)"
    by (cases "try_acquire (sv_staging sv) (upload_staging_principal session)")
  have admitted: "\<exists>lease. a = Inr lease"
    using assms(1,2) a
    by (cases a) (auto simp: upload_body_def admission_failed_def split: if_splits)
  then obtain lease where lease: "a = Inr lease" ..
  obtain s co1 where s: "?stage co (obj_oid object) (Some (obj_size object)) staging_guardrails_default
      (rq_staging request) lease = (s, co1)"
    by (cases "?stage co (obj_oid object) (Some (obj_size object)) staging_guardrails_default (rq_staging request) lease")
  have "\<exists>staged. s = Inr staged"
    using assms(1,2) a lease s
    by (cases s) (auto simp: upload_body_def staging_failed_def split: upload_staging_error.splits)
  then obtain staged where staged: "s = Inr staged" ..
  have "\<exists>mx. stage_stream (en_sha256_hex env) (obj_oid object) (Some (obj_size object)) mx (rq_staging request)
      = Inr (su_content staged)"
    using s staged
    by (auto simp: stage_upload_request_body_with_lease_def split: sum.splits prod.splits)
  then have content: "su_content staged = body_text (se_body (rq_staging request))"
    "body_complete (se_body (rq_staging request))" "en_sha256_hex env (su_content staged) = as_hex (obj_oid object)"
    "unat (obj_size object) = length (su_content staged)"
    using stage_stream_Inr by blast+
  obtain response1 sv1 where up: "upload_staged env ck repository object (session_user (au_record session)) attempt_id
      (su_content staged) (set_staging co1 sv) = (response1, sv1)"
    by (cases "upload_staged env ck repository object (session_user (au_record session)) attempt_id
      (su_content staged) (set_staging co1 sv)")
  then have done_: "response1 = response" "sv' = set_staging (drop_lease (sv_staging sv1) (su_lease staged)) sv1"
    using assms(1) a lease s staged by (simp_all add: upload_body_def)
  have store: "sv_store (set_staging co1 sv) = sv_store sv" by (cases co1) (simp_all add: set_staging_def)
  obtain stored st where st: "store_upload_object (ck_now ck) (en_storage_providers env) repository object
      (su_content staged) (session_user (au_record session)) (sv_store sv) = (Inr stored, st)"
    "same_index ((set_staging co1 sv)\<lparr>sv_store := st\<rparr>) sv1"
    using upload_staged_200 [OF up] assms(2) done_(1) store by auto
  note recorded = store_upload_Inr [OF st(1) assms(3,4)]
  have "same_index sv1 sv'" by (simp add: done_(2))
  then have "indexed repository object sv (so_backend_id stored) sv'"
    using recorded st(2) by (simp add: indexed_def same_index_def)
  moreover have "upload_evidence env ck request repository object runtime (so_backend_id stored)"
    using recorded content assms(5) by (auto simp: upload_evidence_def Let_def)
  ultimately show ?thesis by blast
qed

lemma record_verified_run:
  assumes "store_record_verified_object now providers repository object b user st = (Inr u, st')"
    "store_sound st" "oid_ok (obj_oid object)"
  shows "store_sound st' \<and> index_of st' = (index_of st)(store_key repository object \<mapsto> (b, True))"
  using assms(1) record_view [OF _ assms(2,3), of now repository b user u st']
  by (auto simp: store_record_verified_object_def bind_sr_Inr)

lemma upload_locked_200:
  assumes "upload_locked env ck request repository object session attempt_id sv = (response, sv')"
    "hr_status response = 200" "store_sound (sv_store sv)" "oid_ok (obj_oid object)"
    "provider_for (en_storage_providers env) repository = Inr runtime" "resolves_by_id runtime"
  shows "\<exists>b. upload_evidence env ck request repository object runtime b \<and> indexed repository object sv b sv'"
proof -
  let ?k = "store_key repository object"
  obtain f st where look: "lookup_and_repair_object_with_runtime (ck_now ck) repository object runtime (sv_store sv) = (f, st)"
    by (cases "lookup_and_repair_object_with_runtime (ck_now ck) repository object runtime (sv_store sv)")
  let ?sv1 = "sv\<lparr>sv_store := st\<rparr>"
  have run: "state_lookup_object env ck repository object sv = (f, ?sv1)"
    using look assms(5) by (simp add: state_lookup_object_def on_store_def lookup_and_repair_object_def)
  have loc: "local_to ?k (sv_store sv) st"
    by (rule lookup_and_repair_local [OF look assms(3,4,6)])
  have through: "indexed repository object sv b sv'" if "indexed repository object ?sv1 b sv'" for b
    using that loc by (simp add: indexed_def local_to_def)
  consider (failed) e where "f = Inl e" | (missing) "f = Inr None" | (found) stored where "f = Inr (Some stored)"
    by (metis sum.exhaust option.exhaust)
  then show ?thesis
  proof cases
    case failed
    then show ?thesis using assms(1,2) run by (auto simp: upload_locked_def)
  next
    case missing
    have "upload_body env ck request repository object session attempt_id ?sv1 = (response, sv')"
      using assms(1) run missing by (simp add: upload_locked_def)
    moreover have "store_sound (sv_store ?sv1)" using loc by (simp add: local_to_def)
    ultimately show ?thesis using upload_body_200 [OF _ assms(2) _ assms(4,5)] through by blast
  next
    case found
    obtain v st2 where v: "store_record_verified_object (ck_now ck) (en_storage_providers env) repository object
        (so_backend_id stored) (session_user (au_record session)) st = (v, st2)"
      by (cases "store_record_verified_object (ck_now ck) (en_storage_providers env) repository object
        (so_backend_id stored) (session_user (au_record session)) st")
    then have rec: "state_record_verified_object env ck repository object (so_backend_id stored)
        (session_user (au_record session)) ?sv1 = (v, sv\<lparr>sv_store := st2\<rparr>)"
      by (simp add: state_record_verified_object_def on_store_def)
    obtain u where u: "v = Inr u"
      using assms(1,2) run found rec by (cases v) (auto simp: upload_locked_def)
    obtain w sv3 where fin: "state_finish_transfer_attempt env ck attempt_id
        (TransferSucceeded (Some (so_backend_id stored))) (sv\<lparr>sv_store := st2\<rparr>) = (w, sv3)"
      by (cases "state_finish_transfer_attempt env ck attempt_id
        (TransferSucceeded (Some (so_backend_id stored))) (sv\<lparr>sv_store := st2\<rparr>)")
    have "sv' = sv3"
      using assms(1) run found rec u fin by (cases w) (auto simp: upload_locked_def)
    then have "same_index (sv\<lparr>sv_store := st2\<rparr>) sv'" using finish_same_index [OF fin] by simp
    moreover have "store_sound st2 \<and> index_of st2 = (index_of st)(?k \<mapsto> (so_backend_id stored, True))"
      using record_verified_run [OF v [unfolded u] _ assms(4)] loc by (simp add: local_to_def)
    ultimately have "indexed repository object sv (so_backend_id stored) sv'"
      using loc by (simp add: indexed_def same_index_def local_to_def)
    moreover have "upload_evidence env ck request repository object runtime (so_backend_id stored)"
      using look found by (auto simp: upload_evidence_def)
    ultimately show ?thesis by blast
  qed
qed


text \<open>An upload that finds the object already stored, on the small server.\<close>

definition sample_ready :: "memory_backend transfer_store \<Rightarrow> bool" where
  "sample_ready st \<longleftrightarrow> ts_backend st = ts_backend sample_store \<and> md_fault (ts_db st) = None
     \<and> md_objects (ts_db st) = [] \<and> parents_exist (ts_db st) ''a'' ''drive''"

lemma sample_lookup:
  assumes "sample_ready st"
  shows "lookup_and_repair_object_with_runtime now sample_repository sample_object (memory_runtime ''drive'') st
    = (Inr (Some (memory_stored ''drive'' ''a'' sample_object ''file-1'')), st)"
proof -
  have "store_lookup_metadata sample_repository sample_object st = (Inr None, st)"
    using assms by (simp add: sample_ready_def store_lookup_metadata_def db_read_def lookup_object_def sample_size run_sql_def)
  then show ?thesis
    using assms
    by (cases st) (simp add: sample_ready_def bind_sr_def lookup_and_repair_object_with_runtime_def backend_call_def
        memory_runtime_def ensure_optional_def ensure_stored_object_namespace_def
        validate_stored_object_namespace_def memory_stored_def)
qed

lemma sample_recorded:
  assumes "sample_ready st"
  shows "\<exists>st'. store_record_verified_object now sample_providers sample_repository sample_object b user st = (Inr (), st')
    \<and> md_transfers (ts_db st') = md_transfers (ts_db st) \<and> md_fault (ts_db st') = None"
proof -
  have "lfs_oid_new (as_hex (obj_oid sample_object)) = Inr (obj_oid sample_object)"
    by (rule lfs_oid_new_hex) simp
  moreover have "length (as_hex (obj_oid sample_object)) = 64"
    by (simp add: sample_object_def EMPTY_SHA256_HEX_def)
  ultimately show ?thesis
    using assms sample_size
    by (simp add: sample_ready_def store_record_verified_object_def bind_sr_def sample_provider_for
        record_verified_object_metadata_def db_write_def record_verified_object_def run_sql_def
        metadata_object_record_from_row_def)
qed

lemma sample_upload_accepted:
  "hr_status (fst (handle_lfs_upload_request sample_server (sample_clock 0) (sample_request PUT ''/x'' None)
     sample_repository (LfsOid EMPTY_SHA256_HEX) sample_session sample_state)) = 200"
proof -
  let ?request = "sample_request PUT ''/x'' None"
  have expected: "transfer_request_expected_size sample_server ?request ''upload'' = Inr 7"
  proof -
    have "nat_dec (unat (7 :: u64)) = ''7''" by (simp add: nat_dec.simps digit_char_def) code_simp
    then have "parse_u64 ''7'' = Inr 7" using parse_u64_nat_dec [of 7] by simp
    then show ?thesis by (simp add: transfer_request_expected_size_def sample_request_def sample_server_def)
  qed
  have limits: "\<not> MAX_UPLOAD_OBJECT_BYTES < 7" "request_content_length ?request = None"
    by (simp_all add: MAX_UPLOAD_OBJECT_BYTES_def request_content_length_def sample_request_def)
  obtain sv1 where auth: "authorize sample_server (sample_clock 0) sample_repository sample_session Upload sample_state
      = (Inr (), sv1)" and store: "sv_store sv1 = sample_store"
    by (auto simp: authorize_def authorization_is_cached_def Let_def sample_state_def sample_provider_authorize
        is_authentication_required_def)
  obtain row sv2 where start: "state_start_transfer_attempt sample_server sample_repository sample_object TransferUpload
      (session_user (au_record sample_session)) sv1 = (Inr (Some (md_next_transfer_id sample_db)), sv2)"
    and sv2: "sv_store sv2 = sample_store\<lparr>ts_db := sample_db\<lparr>md_transfers := [row], md_next_transfer_id := md_next_transfer_id sample_db + 1\<rparr>\<rparr>"
      "tr_id row = md_next_transfer_id sample_db" "tr_status row = ''started''"
    using store sample_parents sample_size
    by (auto simp: state_start_transfer_attempt_def on_store_def db_write_def start_transfer_attempt_def run_sql_def
        bind_sr_def sample_server_def sample_db_def empty_db_def sample_object_def EMPTY_SHA256_HEX_def)
  have ready: "sample_ready (sv_store sv2)"
    using sv2 sample_parents
    by (simp add: sample_ready_def sample_store_def sample_db_def empty_db_def parents_exist_def)
  have look: "state_lookup_object sample_server (sample_clock 0) sample_repository sample_object sv2
      = (Inr (Some (memory_stored ''drive'' ''a'' sample_object ''file-1'')), sv2)"
    using sample_lookup [OF ready] sample_provider_for
    by (simp add: state_lookup_object_def on_store_def lookup_and_repair_object_def sample_server_def)
  obtain st' where rec: "store_record_verified_object 0 sample_providers sample_repository sample_object ''file-1''
      (session_user (au_record sample_session)) (sv_store sv2) = (Inr (), st')"
    and st': "md_transfers (ts_db st') = [row]" "md_fault (ts_db st') = None"
    using sample_recorded [OF ready] sv2 by fastforce
  show ?thesis
    using expected limits auth start look rec st' sv2(2,3)
    by (simp add: handle_lfs_upload_request_def Let_def sample_object_def [symmetric] upload_locked_def
        sample_request_def state_record_verified_object_def on_store_def sample_clock_def
        state_finish_transfer_attempt_def db_write_def finish_transfer_attempt_def run_sql_def memory_stored_def
        sample_server_def)
qed


end
