(* ===== verification/Batch_Answers.thy ===== *)
theory Batch_Answers
  imports Server_Samples
begin

text \<open>
  What the batch endpoint answers: one entry for every requested object, in the order of the
  request, each telling what a lookup in the repository's own storage found.
\<close>

definition store_lookup ::
  "request_clock \<Rightarrow> repository_mapping \<Rightarrow> 'w storage_runtime \<Rightarrow> lfs_object \<Rightarrow> 'w transfer_store
     \<Rightarrow> stored_object option server_result" where
  "store_lookup ck repository runtime object st =
     fst (lookup_and_repair_object_with_runtime (ck_now ck) repository object runtime st)"

lemma state_lookup_run:
  assumes "provider_for (en_storage_providers env) repository = Inr runtime"
    "state_lookup_object env ck repository object sv = (r, sv')"
    "store_sound (sv_store sv)" "oid_ok (obj_oid object)" "resolves_by_id runtime"
  shows "r = store_lookup ck repository runtime object (sv_store sv)
    \<and> local_to (store_key repository object) (sv_store sv) (sv_store sv')"
proof -
  obtain f st where look: "lookup_and_repair_object_with_runtime (ck_now ck) repository object runtime (sv_store sv) = (f, st)"
    by (cases "lookup_and_repair_object_with_runtime (ck_now ck) repository object runtime (sv_store sv)")
  then have "r = f" "sv_store sv' = st"
    using assms(1,2) by (auto simp: state_lookup_object_def on_store_def lookup_and_repair_object_def)
  then show ?thesis
    using lookup_and_repair_local [OF look assms(3-5)] look by (simp add: store_lookup_def)
qed

lemma lookup_all_run:
  assumes "provider_for (en_storage_providers env) repository = Inr runtime" "resolves_by_id runtime"
    "lookup_all env ck repository outcome objects sv = (outs, sv')" "store_sound (sv_store sv)"
    "\<forall>object \<in> set objects. oid_ok (obj_oid object)"
  shows "map fst outs = objects
    \<and> (\<forall>(object, x) \<in> set outs. \<exists>st. x = outcome object (store_lookup ck repository runtime object st))
    \<and> store_sound (sv_store sv')
    \<and> (\<forall>k. k \<notin> store_key repository ` set objects \<longrightarrow> index_of (sv_store sv') k = index_of (sv_store sv) k)"
  using assms(3-5)
proof (induction objects arbitrary: sv sv' outs)
  case (Cons object objects)
  obtain r sv1 where look: "state_lookup_object env ck repository object sv = (r, sv1)"
    by (cases "state_lookup_object env ck repository object sv")
  obtain rest sv2 where rest: "lookup_all env ck repository outcome objects sv1 = (rest, sv2)"
    by (cases "lookup_all env ck repository outcome objects sv1")
  have run: "outs = (object, outcome object r) # rest" "sv' = sv2"
    using Cons.prems(1) look rest by auto
  have loc: "r = store_lookup ck repository runtime object (sv_store sv)"
    "local_to (store_key repository object) (sv_store sv) (sv_store sv1)"
    using state_lookup_run [OF assms(1) look Cons.prems(2) _ assms(2)] Cons.prems(3) by auto
  have "store_sound (sv_store sv1)" using loc(2) by (simp add: local_to_def)
  from Cons.IH [OF rest this] Cons.prems(3)
  have ih: "map fst rest = objects"
    "\<forall>(object, x) \<in> set rest. \<exists>st. x = outcome object (store_lookup ck repository runtime object st)"
    "store_sound (sv_store sv2)"
    "\<forall>k. k \<notin> store_key repository ` set objects \<longrightarrow> index_of (sv_store sv2) k = index_of (sv_store sv1) k"
    by (auto simp: run(2))
  show ?case
    using ih loc by (auto simp: run local_to_def)
qed auto

lemma batch_objects_run:
  assumes "provider_for (en_storage_providers env) repository = Inr runtime" "resolves_by_id runtime"
    "batch_objects_with_storage_lookup env ck repository outcome requested sv = (objects, sv')"
    "store_sound (sv_store sv)" "\<forall>object \<in> set requested. oid_ok (obj_oid object)"
  shows "(\<exists>answer. objects = map answer requested
      \<and> (\<forall>object \<in> set requested. \<exists>st. answer object = outcome object (store_lookup ck repository runtime object st)))
    \<and> store_sound (sv_store sv')
    \<and> (\<forall>k. k \<notin> store_key repository ` set requested \<longrightarrow> index_of (sv_store sv') k = index_of (sv_store sv) k)"
proof -
  obtain outs where run: "lookup_all env ck repository outcome (sort (remdups requested)) sv = (outs, sv')"
    and objects: "objects = map (\<lambda>object. the (map_of outs object)) requested"
    using assms(3) by (auto simp: batch_objects_with_storage_lookup_def split: prod.splits)
  note all = lookup_all_run [OF assms(1,2) run assms(4)]
  have keys: "map fst outs = sort (remdups requested)" using all assms(5) by simp
  have "\<exists>st. the (map_of outs object) = outcome object (store_lookup ck repository runtime object st)"
    if "object \<in> set requested" for object
  proof -
    have "object \<in> fst ` set outs" using keys that by (metis set_map set_remdups set_sort)
    then obtain x where "map_of outs object = Some x" by (auto simp: map_of_eq_None_iff dest: weak_map_of_SomeI)
    then show ?thesis using all assms(5) map_of_SomeD by fastforce
  qed
  then show ?thesis
    using all assms(5) objects by (intro conjI exI [of _ "\<lambda>object. the (map_of outs object)"]) auto
qed

text \<open>What an entry of the answer may say, given what the lookup found.\<close>

definition truthful :: "lfs_batch_operation \<Rightarrow> lfs_batch_object_response \<Rightarrow> stored_object option server_result \<Rightarrow> bool" where
  "truthful operation r found \<longleftrightarrow> response_ok r \<and> (case found of
       Inr (Some stored) \<Rightarrow> res_error r = None \<and> (res_actions r \<noteq> [] \<longleftrightarrow> operation = Download)
     | Inr None \<Rightarrow> (case operation of
           Download \<Rightarrow> res_actions r = [] \<and> map_option boe_code (res_error r) = Some 404
         | Upload \<Rightarrow> res_actions r \<noteq> [] \<and> res_error r = None)
     | Inl e \<Rightarrow> res_actions r = [] \<and> res_error r = Some (lfs_batch_object_error_from_server_error e))"



end
