(* ===== verification/Drive_Key.thy ===== *)
theory Drive_Key
  imports Errors Providers
begin

text \<open>
  Addressing of objects in Google Drive (\<open>src/google_drive/object_key.rs\<close>) and the redaction of
  diagnostics (\<open>src/google_drive/diagnostics.rs\<close>). SHA-256 is the argument \<open>sha\<close>, from bytes to
  the hex digest.
\<close>

section \<open>Constants of \<open>google_drive/mod.rs\<close>\<close>

definition MAX_GOOGLE_DRIVE_CUSTOM_PROPERTY_BYTES :: nat where
  "MAX_GOOGLE_DRIVE_CUSTOM_PROPERTY_BYTES = 124"

definition MAX_GOOGLE_ERROR_BODY_LEN :: nat where
  "MAX_GOOGLE_ERROR_BODY_LEN = 16 * 1024"

definition MIN_REDACTED_SECRET_FRAGMENT_LEN :: nat where
  "MIN_REDACTED_SECRET_FRAGMENT_LEN = 6"

definition GOOGLE_DRIVE_FOLDER_MIME_TYPE :: string where
  "GOOGLE_DRIVE_FOLDER_MIME_TYPE = ''application/vnd.google-apps.folder''"

definition GOOGLE_DRIVE_OBJECT_VERSION_PROPERTY :: string where
  "GOOGLE_DRIVE_OBJECT_VERSION_PROPERTY = ''lfsCloudVersion''"

definition GOOGLE_DRIVE_OBJECT_VERSION :: string where
  "GOOGLE_DRIVE_OBJECT_VERSION = ''1''"

definition GOOGLE_DRIVE_REPO_NAMESPACE_PROPERTY :: string where
  "GOOGLE_DRIVE_REPO_NAMESPACE_PROPERTY = ''lfsCloudRepoNamespace''"

definition GOOGLE_DRIVE_REPO_NAMESPACE_FORMAT_PROPERTY :: string where
  "GOOGLE_DRIVE_REPO_NAMESPACE_FORMAT_PROPERTY = ''lfsCloudRepoNamespaceFormat''"

definition GOOGLE_DRIVE_REPO_NAMESPACE_SHA256_FORMAT :: string where
  "GOOGLE_DRIVE_REPO_NAMESPACE_SHA256_FORMAT = ''sha256''"

definition GOOGLE_DRIVE_OBJECT_OID_PROPERTY :: string where
  "GOOGLE_DRIVE_OBJECT_OID_PROPERTY = ''lfsCloudOid''"

definition GOOGLE_DRIVE_OBJECT_SIZE_PROPERTY :: string where
  "GOOGLE_DRIVE_OBJECT_SIZE_PROPERTY = ''lfsCloudSize''"

definition GOOGLE_DRIVE_SHARD_KIND_PROPERTY :: string where
  "GOOGLE_DRIVE_SHARD_KIND_PROPERTY = ''lfsCloudFolderKind''"

definition GOOGLE_DRIVE_SHARD_KIND :: string where
  "GOOGLE_DRIVE_SHARD_KIND = ''objectShard''"

definition GOOGLE_DRIVE_SHARD_PREFIX_PROPERTY :: string where
  "GOOGLE_DRIVE_SHARD_PREFIX_PROPERTY = ''lfsCloudShard''"

lemmas drive_property_names = GOOGLE_DRIVE_OBJECT_VERSION_PROPERTY_def GOOGLE_DRIVE_REPO_NAMESPACE_PROPERTY_def
  GOOGLE_DRIVE_REPO_NAMESPACE_FORMAT_PROPERTY_def GOOGLE_DRIVE_OBJECT_OID_PROPERTY_def
  GOOGLE_DRIVE_OBJECT_SIZE_PROPERTY_def GOOGLE_DRIVE_OBJECT_VERSION_def
  GOOGLE_DRIVE_REPO_NAMESPACE_SHA256_FORMAT_def

section \<open>Object keys\<close>

definition drive_upstream_error :: "string \<Rightarrow> string \<Rightarrow> storage_error" where
  "drive_upstream_error provider message = StUpstream provider None message"

definition validate_repo_namespace :: "string \<Rightarrow> string storage_result" where
  "validate_repo_namespace value =
     (let trimmed = trim value in
      if trimmed = [] then Inl (drive_upstream_error ''google_drive'' ''repository namespace must not be blank'')
      else if has_control trimmed
      then Inl (drive_upstream_error ''google_drive'' ''repository namespace must not contain control characters'')
      else Inr trimmed)"

record google_drive_object_key =
  ok_repo_namespace :: string
  ok_object :: lfs_object

definition object_key_new :: "string \<Rightarrow> lfs_object \<Rightarrow> google_drive_object_key storage_result" where
  "object_key_new repo_namespace object =
     map_res (\<lambda>ns. \<lparr>ok_repo_namespace = ns, ok_object = object\<rparr>) (validate_repo_namespace repo_namespace)"

definition drive_file_name :: "google_drive_object_key \<Rightarrow> string" where
  "drive_file_name key = ''sha256-'' @ as_hex (obj_oid (ok_object key)) @ ''-''
     @ nat_dec (unat (obj_size (ok_object key))) @ ''.lfs''"

definition shard_prefix :: "google_drive_object_key \<Rightarrow> string" where
  "shard_prefix key = take 2 (as_hex (obj_oid (ok_object key)))"

definition shard_folder_name :: "google_drive_object_key \<Rightarrow> string" where
  "shard_folder_name key = ''lfscloud-sha256-'' @ shard_prefix key"

definition display_path :: "google_drive_object_key \<Rightarrow> string" where
  "display_path key = shard_folder_name key @ ''/'' @ drive_file_name key"

datatype repo_namespace_property = NsRaw string | NsSha256 string

definition repo_namespace_property_new :: "(string \<Rightarrow> string) \<Rightarrow> string \<Rightarrow> repo_namespace_property" where
  "repo_namespace_property_new sha repo_namespace =
     (if length GOOGLE_DRIVE_REPO_NAMESPACE_PROPERTY + length repo_namespace \<le> MAX_GOOGLE_DRIVE_CUSTOM_PROPERTY_BYTES
      then NsRaw repo_namespace else NsSha256 (sha repo_namespace))"

fun ns_value :: "repo_namespace_property \<Rightarrow> string" where
  "ns_value (NsRaw v) = v"
| "ns_value (NsSha256 v) = v"

fun ns_format :: "repo_namespace_property \<Rightarrow> string option" where
  "ns_format (NsRaw v) = None"
| "ns_format (NsSha256 v) = Some GOOGLE_DRIVE_REPO_NAMESPACE_SHA256_FORMAT"

record google_drive_object_properties =
  op_repo_namespace :: repo_namespace_property
  op_oid :: string
  op_size :: string

definition expected_app_properties ::
  "(string \<Rightarrow> string) \<Rightarrow> google_drive_object_key \<Rightarrow> google_drive_object_properties" where
  "expected_app_properties sha key =
     \<lparr>op_repo_namespace = repo_namespace_property_new sha (ok_repo_namespace key),
      op_oid = as_hex (obj_oid (ok_object key)), op_size = nat_dec (unat (obj_size (ok_object key)))\<rparr>"

definition property_pairs :: "google_drive_object_properties \<Rightarrow> (string \<times> string) list" where
  "property_pairs p =
     [(GOOGLE_DRIVE_OBJECT_VERSION_PROPERTY, GOOGLE_DRIVE_OBJECT_VERSION),
      (GOOGLE_DRIVE_REPO_NAMESPACE_PROPERTY, ns_value (op_repo_namespace p)),
      (GOOGLE_DRIVE_OBJECT_OID_PROPERTY, op_oid p),
      (GOOGLE_DRIVE_OBJECT_SIZE_PROPERTY, op_size p)]
     @ (case ns_format (op_repo_namespace p) of
          Some format \<Rightarrow> [(GOOGLE_DRIVE_REPO_NAMESPACE_FORMAT_PROPERTY, format)] | None \<Rightarrow> [])"

text \<open>The metadata of a new file: its name, its parents and its properties.\<close>

record drive_metadata =
  dm_name :: string
  dm_mime_type :: "string option"
  dm_parents :: "string list"
  dm_app_properties :: "(string, string) btree"

definition drive_upload_metadata ::
  "(string \<Rightarrow> string) \<Rightarrow> string \<Rightarrow> google_drive_object_key \<Rightarrow> drive_metadata" where
  "drive_upload_metadata sha root_folder_id key =
     \<lparr>dm_name = drive_file_name key, dm_mime_type = None, dm_parents = [root_folder_id],
      dm_app_properties = foldl (\<lambda>m (k, v). bt_insert k v m) [] (property_pairs (expected_app_properties sha key))\<rparr>"

definition drive_shard_folder_metadata :: "string \<Rightarrow> google_drive_object_key \<Rightarrow> drive_metadata" where
  "drive_shard_folder_metadata root_folder_id key =
     \<lparr>dm_name = shard_folder_name key, dm_mime_type = Some GOOGLE_DRIVE_FOLDER_MIME_TYPE,
      dm_parents = [root_folder_id],
      dm_app_properties = bt_insert GOOGLE_DRIVE_SHARD_PREFIX_PROPERTY (shard_prefix key)
        (bt_insert GOOGLE_DRIVE_SHARD_KIND_PROPERTY GOOGLE_DRIVE_SHARD_KIND [])\<rparr>"

section \<open>Queries\<close>

definition QUOTE :: char where
  "QUOTE = CHR 0x27"

definition BACKSLASH :: char where
  "BACKSLASH = CHR 0x5C"

definition escape_drive_query_string :: "string \<Rightarrow> string" where
  "escape_drive_query_string value =
     concat (map (\<lambda>c. if c = QUOTE \<or> c = BACKSLASH then [BACKSLASH, c] else [c]) value)"

definition quoted :: "string \<Rightarrow> string" where
  "quoted value = [QUOTE] @ value @ [QUOTE]"

definition drive_object_lookup_query ::
  "string \<Rightarrow> google_drive_object_key \<Rightarrow> google_drive_object_properties \<Rightarrow> string" where
  "drive_object_lookup_query root_folder_id key expected_properties =
     foldl (\<lambda>query (property, value). query @ '' and appProperties has { key=''
         @ quoted (escape_drive_query_string property) @ '' and value=''
         @ quoted (escape_drive_query_string value) @ '' }'')
       (quoted (escape_drive_query_string root_folder_id) @ '' in parents and trashed = false and name = ''
         @ quoted (escape_drive_query_string (drive_file_name key)))
       (property_pairs expected_properties)"

definition drive_shard_folder_lookup_query :: "string \<Rightarrow> google_drive_object_key \<Rightarrow> string" where
  "drive_shard_folder_lookup_query root_folder_id key =
     quoted (escape_drive_query_string root_folder_id) @ '' in parents and trashed = false and name = ''
     @ quoted (escape_drive_query_string (shard_folder_name key)) @ '' and mimeType = ''
     @ quoted GOOGLE_DRIVE_FOLDER_MIME_TYPE @ '' and appProperties has { key=''
     @ quoted GOOGLE_DRIVE_SHARD_KIND_PROPERTY @ '' and value='' @ quoted GOOGLE_DRIVE_SHARD_KIND
     @ '' } and appProperties has { key='' @ quoted GOOGLE_DRIVE_SHARD_PREFIX_PROPERTY
     @ '' and value='' @ quoted (shard_prefix key) @ '' }''"

section \<open>Diagnostics\<close>

text \<open>\<open>message.replace(pattern, with)\<close> for a nonempty pattern, and \<open>chars().take(n)\<close>.\<close>

function replace_str :: "string \<Rightarrow> string \<Rightarrow> string \<Rightarrow> string" where
  "replace_str pattern new s =
     (if pattern = [] \<or> s = [] then s
      else if starts_with pattern s then new @ replace_str pattern new (drop (length pattern) s)
      else hd s # replace_str pattern new (tl s))"
  by pat_completeness auto
termination
  by (relation "measure (\<lambda>(_, _, s). length s)") auto

declare replace_str.simps [simp del]

fun take_chars :: "nat \<Rightarrow> string \<Rightarrow> string" where
  "take_chars n [] = []"
| "take_chars n (c # s) =
     (if is_continuation c then c # take_chars n s
      else case n of 0 \<Rightarrow> [] | Suc m \<Rightarrow> c # take_chars m s)"

definition REDACTED :: string where
  "REDACTED = ''[redacted]''"

definition redact_secret_from_message :: "string \<Rightarrow> string \<Rightarrow> string" where
  "redact_secret_from_message message secret =
     (if secret = [] then message
      else let sanitized = replace_str secret REDACTED message in
        if length secret < MIN_REDACTED_SECRET_FRAGMENT_LEN then sanitized
        else case find (\<lambda>n. case str_get_prefix n secret of
                   Some prefix \<Rightarrow> ends_with prefix sanitized | None \<Rightarrow> False)
                 (rev [MIN_REDACTED_SECRET_FRAGMENT_LEN ..< length secret]) of
            Some n \<Rightarrow> take (length sanitized - n) sanitized @ REDACTED
          | None \<Rightarrow> sanitized)"

definition cap_google_diagnostic :: "string \<Rightarrow> string" where
  "cap_google_diagnostic message = take_chars MAX_GOOGLE_ERROR_BODY_LEN message"

definition sanitize_drive_diagnostic :: "string \<Rightarrow> string \<Rightarrow> string" where
  "sanitize_drive_diagnostic token message =
     (let sanitized = redact_secret_from_message message token in
      if trim sanitized = [] then ''Google Drive request failed'' else sanitized)"

text \<open>The error body of Drive, as \<open>serde_json\<close> decodes it.\<close>

record drive_error_body =
  eb_message :: "string option"
  eb_reasons :: "string option list"

record drive_diagnostic =
  dg_message :: string
  dg_reasons :: "string list"

definition drive_error_message :: "(string \<Rightarrow> drive_error_body option) \<Rightarrow> string \<Rightarrow> string \<Rightarrow> drive_diagnostic" where
  "drive_error_message parse_error token body =
     (case parse_error body of
        Some err \<Rightarrow>
          let message = (case eb_message err of
                Some value \<Rightarrow> if trim value \<noteq> [] then value else ''Google Drive request failed''
              | None \<Rightarrow> ''Google Drive request failed'')
          in \<lparr>dg_message = sanitize_drive_diagnostic token (cap_google_diagnostic message),
              dg_reasons = filter (\<lambda>reason. trim reason \<noteq> []) (List.map_filter id (eb_reasons err))\<rparr>
      | None \<Rightarrow> \<lparr>dg_message = sanitize_drive_diagnostic token (cap_google_diagnostic body), dg_reasons = []\<rparr>)"

definition has_reason :: "string list \<Rightarrow> drive_diagnostic \<Rightarrow> bool" where
  "has_reason reasons diagnostic = list_ex (\<lambda>reason. reason \<in> set reasons) (dg_reasons diagnostic)"

definition classify_common_drive_error :: "string \<Rightarrow> nat \<Rightarrow> drive_diagnostic \<Rightarrow> storage_error option" where
  "classify_common_drive_error provider status diagnostic =
     (if status = 401 \<or> has_reason [''authError'', ''insufficientPermissions''] diagnostic
      then Some (StAuthenticationRequired provider)
      else if has_reason [''appNotAuthorizedToFile'', ''domainPolicy'', ''insufficientFilePermissions'',
             ''teamDriveMembershipRequired''] diagnostic
      then Some (StPermissionDenied provider (dg_message diagnostic))
      else if has_reason [''activeItemCreationLimitExceeded'', ''dailyLimitExceeded'',
             ''myDriveHierarchyDepthLimitExceeded'', ''numChildrenInNonRootLimitExceeded'', ''quotaExceeded'',
             ''storageQuotaExceeded'', ''teamDriveFileLimitExceeded'', ''teamDriveHierarchyTooDeep''] diagnostic
      then Some (StQuotaExceeded provider (dg_message diagnostic))
      else if status = 429 \<or> 500 \<le> status \<and> status < 600
           \<or> has_reason [''rateLimitExceeded'', ''sharingRateLimitExceeded'', ''userRateLimitExceeded''] diagnostic
      then Some (StRetryable provider (dg_message diagnostic))
      else None)"

section \<open>Redaction\<close>

definition occurs_in :: "string \<Rightarrow> string \<Rightarrow> bool" where
  "occurs_in p s \<longleftrightarrow> (\<exists>u v. s = u @ p @ v)"

lemma occurs_in_Nil [simp]: "occurs_in p [] \<longleftrightarrow> p = []"
  by (auto simp: occurs_in_def)

lemma occurs_in_short: "length s < length p \<Longrightarrow> \<not> occurs_in p s"
  by (auto simp: occurs_in_def)

lemma occurs_in_append: "occurs_in p s \<Longrightarrow> occurs_in p (s @ t)"
  unfolding occurs_in_def by (metis append.assoc)

lemma occurs_in_prepend: "occurs_in p s \<Longrightarrow> occurs_in p (t @ s)"
  unfolding occurs_in_def by (metis append.assoc)

text \<open>A character that the pattern lacks separates its occurrences.\<close>

lemma occurs_in_split:
  assumes "occurs_in p (a @ x # b)" "x \<notin> set p"
  shows "occurs_in p a \<or> occurs_in p b"
proof -
  obtain u v where "a @ x # b = (u @ p) @ v" using assms(1) by (auto simp: occurs_in_def)
  then have "\<exists>us. a = (u @ p) @ us \<and> us @ x # b = v \<or> a @ us = u @ p \<and> x # b = us @ v"
    by (simp only: append_eq_append_conv2)
  then consider (left) us where "a = u @ p @ us" | (right) us where "a @ us = u @ p" "x # b = us @ v"
    by auto
  then show ?thesis
  proof cases
    case left
    then show ?thesis by (auto simp: occurs_in_def)
  next
    case right
    show ?thesis
    proof (cases us)
      case Nil
      have "occurs_in p p" unfolding occurs_in_def by (metis append_Nil append_Nil2)
      then have "occurs_in p a" using right Nil occurs_in_prepend [of p p u] by simp
      then show ?thesis ..
    next
      case (Cons y ys)
      then have x: "a @ x # ys = u @ p" "b = ys @ v" using right by auto
      then obtain ws where "u = a @ x # ws \<and> ys = ws @ p \<or> p = ws @ x # ys \<and> a = u @ ws"
        using assms(2) by (auto simp: append_eq_append_conv2 Cons_eq_append_conv)
      then have "b = ws @ p @ v" using assms(2) x by auto
      then show ?thesis unfolding occurs_in_def by blast
    qed
  qed
qed

definition opaque_secret :: "string \<Rightarrow> bool" where
  "opaque_secret secret \<longleftrightarrow> 8 < length secret \<and> CHR ''['' \<notin> set secret \<and> CHR '']'' \<notin> set secret"

lemma redacted_marker: "REDACTED = CHR ''['' # ''redacted'' @ [CHR '']'']"
  by (simp add: REDACTED_def)

lemma occurs_in_marker:
  assumes "occurs_in secret (a @ REDACTED @ b)" "opaque_secret secret"
  shows "occurs_in secret a \<or> occurs_in secret b"
proof -
  have "occurs_in secret a \<or> occurs_in secret (''redacted'' @ CHR '']'' # b)"
    using occurs_in_split [of secret a "CHR ''[''" "''redacted'' @ CHR '']'' # b"] assms
    by (simp add: redacted_marker opaque_secret_def)
  moreover have "occurs_in secret ''redacted'' \<or> occurs_in secret b" if "occurs_in secret (''redacted'' @ CHR '']'' # b)"
    using occurs_in_split [OF that] assms(2) by (simp add: opaque_secret_def)
  moreover have "\<not> occurs_in secret ''redacted''"
    using assms(2) by (intro occurs_in_short) (simp add: opaque_secret_def)
  ultimately show ?thesis by blast
qed

lemma replace_str_prefix:
  "starts_with p (replace_str secret REDACTED s) \<Longrightarrow> CHR ''['' \<notin> set p \<Longrightarrow> starts_with p s"
proof (induction secret REDACTED s arbitrary: p rule: replace_str.induct)
  case (1 secret s)
  show ?case
  proof (cases "secret = [] \<or> s = [] \<or> p = []")
    case True
    then show ?thesis using "1.prems" by (auto simp: replace_str.simps [of secret REDACTED s] starts_with_iff)
  next
    case False
    then obtain q p' where p: "p = q # p'" by (cases p) auto
    show ?thesis
    proof (cases "starts_with secret s")
      case True
      then show ?thesis
        using "1.prems" False p by (subst (asm) replace_str.simps) (auto simp: starts_with_iff redacted_marker)
    next
      case no: False
      then have "q = hd s" "starts_with p' (replace_str secret REDACTED (tl s))"
        using "1.prems" False p by (auto simp: replace_str.simps [of secret REDACTED s] starts_with_iff)
      then have "starts_with p' (tl s)" using "1.hyps"(2) False no "1.prems"(2) p by simp
      then show ?thesis using \<open>q = hd s\<close> False p by (cases s) (auto simp: starts_with_iff)
    qed
  qed
qed

lemma replace_str_clean:
  "opaque_secret secret \<Longrightarrow> \<not> occurs_in secret (replace_str secret REDACTED s)"
proof (induction secret REDACTED s rule: replace_str.induct)
  case (1 secret s)
  have nonempty: "secret \<noteq> []" using "1.prems" by (auto simp: opaque_secret_def)
  show ?case
  proof (cases "s = []")
    case True
    then show ?thesis using nonempty by (simp add: replace_str.simps)
  next
    case s: False
    show ?thesis
    proof (cases "starts_with secret s")
      case True
      then have "\<not> occurs_in secret (replace_str secret REDACTED (drop (length secret) s))"
        using "1.hyps"(1) "1.prems" nonempty s by simp
      then show ?thesis
        using occurs_in_marker [of secret "[]"] "1.prems" nonempty s True
        by (subst replace_str.simps) auto
    next
      case False
      let ?rest = "replace_str secret REDACTED (tl s)"
      have clean: "\<not> occurs_in secret ?rest" using "1.hyps"(2) "1.prems" nonempty s False by simp
      have out: "replace_str secret REDACTED s = hd s # ?rest"
        using nonempty s False by (subst replace_str.simps) simp
      show ?thesis
      proof
        assume "occurs_in secret (replace_str secret REDACTED s)"
        then obtain u v where uv: "hd s # ?rest = u @ secret @ v" by (auto simp: occurs_in_def out)
        show False
        proof (cases u)
          case Nil
          then have "starts_with secret (replace_str secret REDACTED s)"
            using uv by (auto simp: starts_with_iff out)
          then show False using replace_str_prefix [of secret secret s] "1.prems" False by (simp add: opaque_secret_def)
        next
          case (Cons c u')
          then show False using uv clean by (auto simp: occurs_in_def)
        qed
      qed
    qed
  qed
qed

lemma ends_with_iff: "ends_with p s \<longleftrightarrow> (\<exists>t. s = t @ p)"
  by (auto simp: ends_with_def starts_with_iff) (metis rev_append rev_rev_ident)

text \<open>
  C18: A diagnostic that went through the redaction does not contain the access token, nor does it
  end in a truncated copy of it: no prefix of the token of six or more bytes that ends at a
  character boundary is a suffix of the message. The token has more than eight bytes and no square
  bracket, which bearer tokens never contain.
\<close>

theorem redaction_hides_token:
  assumes "8 < length token" "CHR ''['' \<notin> set token" "CHR '']'' \<notin> set token"
  shows "(\<nexists>before after. redact_secret_from_message message token = before @ token @ after)
    \<and> (\<forall>n. 6 \<le> n \<longrightarrow> n < length token \<longrightarrow> is_char_boundary token n \<longrightarrow>
         \<not> ends_with (take n token) (redact_secret_from_message message token))"
proof -
  have opaque: "opaque_secret token" using assms by (simp add: opaque_secret_def)
  let ?clean = "replace_str token REDACTED message"
  let ?found = "\<lambda>n. case str_get_prefix n token of Some prefix \<Rightarrow> ends_with prefix ?clean | None \<Rightarrow> False"
  let ?lengths = "rev [MIN_REDACTED_SECRET_FRAGMENT_LEN ..< length token]"
  have hidden: "\<not> occurs_in token ?clean" by (rule replace_str_clean [OF opaque])
  have run: "redact_secret_from_message message token = (case find ?found ?lengths of
      Some n \<Rightarrow> take (length ?clean - n) ?clean @ REDACTED | None \<Rightarrow> ?clean)"
    using assms(1) by (auto simp: redact_secret_from_message_def Let_def MIN_REDACTED_SECRET_FRAGMENT_LEN_def)
  show ?thesis
  proof (cases "find ?found ?lengths")
    case None
    have "\<not> ends_with (take n token) ?clean" if "6 \<le> n" "n < length token" "is_char_boundary token n" for n
      using None that by (auto simp: find_None_iff MIN_REDACTED_SECRET_FRAGMENT_LEN_def str_get_prefix_def)
    then show ?thesis using run None hidden by (auto simp: occurs_in_def)
  next
    case (Some k)
    have out: "redact_secret_from_message message token = take (length ?clean - k) ?clean @ REDACTED"
      using run Some by simp
    have "\<not> occurs_in token (take (length ?clean - k) ?clean @ REDACTED @ [])"
    proof
      assume "occurs_in token (take (length ?clean - k) ?clean @ REDACTED @ [])"
      then have "occurs_in token (take (length ?clean - k) ?clean)"
        using occurs_in_marker [OF _ opaque] assms(1) by fastforce
      then show False
        using hidden occurs_in_append [of token "take (length ?clean - k) ?clean" "drop (length ?clean - k) ?clean"] by simp
    qed
    moreover have "\<not> ends_with (take n token) (take (length ?clean - k) ?clean @ REDACTED)"
      if "6 \<le> n" "n < length token" for n
    proof
      assume "ends_with (take n token) (take (length ?clean - k) ?clean @ REDACTED)"
      then obtain t where t: "take (length ?clean - k) ?clean @ REDACTED = t @ take n token"
        by (auto simp: ends_with_iff)
      have "take n token \<noteq> []" using that by auto
      then have "last (take n token) = CHR '']''"
        using arg_cong [OF t, of last] by (simp add: redacted_marker)
      then have "CHR '']'' \<in> set token"
        using \<open>take n token \<noteq> []\<close> by (metis in_set_takeD last_in_set)
      then show False using assms(3) by simp
    qed
    ultimately show ?thesis by (auto simp: out occurs_in_def)
  qed
qed

lemma redaction_hides_token_witness:
  "redact_secret_from_message ''token ya29.abcdefgh failed: ya29.abc'' ''ya29.abcdefgh''
     = ''token [redacted] failed: [redacted]''
   \<and> (\<nexists>before after. redact_secret_from_message ''token ya29.abcdefgh failed: ya29.abc'' ''ya29.abcdefgh''
        = before @ ''ya29.abcdefgh'' @ after)"
proof
  show "redact_secret_from_message ''token ya29.abcdefgh failed: ya29.abc'' ''ya29.abcdefgh''
     = ''token [redacted] failed: [redacted]''"
    by code_simp
  show "\<nexists>before after. redact_secret_from_message ''token ya29.abcdefgh failed: ya29.abc'' ''ya29.abcdefgh''
        = before @ ''ya29.abcdefgh'' @ after"
    using redaction_hides_token [of "''ya29.abcdefgh''" "''token ya29.abcdefgh failed: ya29.abc''"] by simp
qed

section \<open>Query literals\<close>

text \<open>
  Reading the string literals of a query by the documented syntax: a literal stands between
  single quotes, and a backslash takes the next character as it is. The first argument is the
  literal being read, if any.
\<close>

fun query_literals :: "string option \<Rightarrow> string \<Rightarrow> string list" where
  "query_literals None [] = []"
| "query_literals None (c # s) = (if c = QUOTE then query_literals (Some []) s else query_literals None s)"
| "query_literals (Some read) [] = []"
| "query_literals (Some read) (c # s) =
     (if c = QUOTE then read # query_literals None s
      else if c = BACKSLASH then (case s of [] \<Rightarrow> [] | d # t \<Rightarrow> query_literals (Some (read @ [d])) t)
      else query_literals (Some (read @ [c])) s)"

lemma query_literals_plain: "QUOTE \<notin> set s \<Longrightarrow> query_literals None (s @ t) = query_literals None t"
  by (induction s) auto

lemma query_literals_escaped:
  "query_literals (Some read) (escape_drive_query_string v @ QUOTE # t) = (read @ v) # query_literals None t"
  by (induction v arbitrary: read) (auto simp: escape_drive_query_string_def QUOTE_def BACKSLASH_def)

lemma query_literals_quoted [simp]:
  "query_literals None (quoted (escape_drive_query_string v) @ t) = v # query_literals None t"
  using query_literals_escaped [of "[]" v t] by (simp add: quoted_def)

lemma query_literals_pairs:
  "query_literals None (foldl (\<lambda>query (property, value). query @ '' and appProperties has { key=''
       @ quoted (escape_drive_query_string property) @ '' and value=''
       @ quoted (escape_drive_query_string value) @ '' }'') query pairs)
   = query_literals None (query @ concat (map (\<lambda>(property, value). '' and appProperties has { key=''
       @ quoted (escape_drive_query_string property) @ '' and value=''
       @ quoted (escape_drive_query_string value) @ '' }'') pairs))"
  by (induction pairs arbitrary: query) auto

lemma query_literals_concat:
  "query_literals None (concat (map (\<lambda>(property, value). '' and appProperties has { key=''
       @ quoted (escape_drive_query_string property) @ '' and value=''
       @ quoted (escape_drive_query_string value) @ '' }'') pairs))
   = concat (map (\<lambda>(property, value). [property, value]) pairs)"
proof (induction pairs)
  case (Cons pair pairs)
  then show ?case
    by (cases pair) (simp add: query_literals_plain [where s = "'' and appProperties has { key=''"]
      query_literals_plain [where s = "'' and value=''"] query_literals_plain [where s = "'' }''"]
      QUOTE_def del: append.simps)
qed simp

text \<open>
  C17: The lookup query says what it means whatever the configured folder id and the repository
  namespace contain: read by the syntax of the service, its string literals are exactly the
  folder id, the file name and the expected properties with their values, so no quote or
  backslash in a value can end its literal and add a term to the query.
\<close>

theorem drive_query_literals:
  "query_literals None (drive_object_lookup_query root_folder_id key expected_properties)
     = root_folder_id # drive_file_name key
       # concat (map (\<lambda>(property, value). [property, value]) (property_pairs expected_properties))"
proof -
  have head: "query_literals None (quoted (escape_drive_query_string root_folder_id)
       @ '' in parents and trashed = false and name = ''
       @ quoted (escape_drive_query_string (drive_file_name key)) @ rest)
     = root_folder_id # drive_file_name key # query_literals None rest" for rest
    by (simp add: query_literals_plain [where s = "'' in parents and trashed = false and name = ''"]
        QUOTE_def del: append.simps)
  show ?thesis
    unfolding drive_object_lookup_query_def query_literals_pairs append.assoc
    by (simp only: head query_literals_concat)
qed

end
