(* ===== verification/Drive_Api.thy ===== *)
theory Drive_Api
  imports Drive_Key Config Request_Auth State_Result
begin

text \<open>
  The Drive HTTP interface: URL construction and validation (\<open>src/google_drive/drive_api.rs\<close>),
  the requests and responses exchanged with the service, bounded reading of response bodies
  (\<open>src/http_transport.rs\<close>, \<open>download.rs\<close>) and the transport errors of \<open>diagnostics.rs\<close>.
  The HTTP client, the JSON decoders, SHA-256 and the clock are fields of \<open>drive_env\<close>; the
  service with everything it stores is the state \<open>'w\<close> that a request transforms.
\<close>

section \<open>Requests and responses\<close>

datatype http_method = HttpGet | HttpPost | HttpPut

datatype drive_body = EmptyRequest | JsonRequest drive_metadata | StreamRequest string

record 'u drive_request =
  dq_method :: http_method
  dq_url :: 'u
  dq_headers :: "(string \<times> string) list"
  dq_body :: drive_body

text \<open>
  A response with the chunks that reading its body yields: an error of the connection is its
  printed form. \<open>ds_stall\<close> is the index of the chunk that does not arrive within the idle timeout.
\<close>

record drive_response =
  ds_status :: nat
  ds_headers :: "(string \<times> string) list"
  ds_content_length :: "u64 option"
  ds_chunks :: "(string + string) list"
  ds_stall :: "nat option"

record drive_file =
  df_id :: "string option"
  df_name :: "string option"
  df_mime_type :: "string option"
  df_size :: "string option"
  df_parents :: "string list"
  df_trashed :: bool
  df_app_properties :: "(string, string) btree"

record drive_file_list =
  dl_files :: "drive_file list"
  dl_next_page_token :: "string option"
  dl_incomplete_search :: bool

record drive_root_metadata =
  rt_meta_id :: "string option"
  rt_meta_name :: "string option"
  rt_meta_mime_type :: "string option"
  rt_meta_trashed :: bool
  rt_meta_can_add_children :: "bool option"

datatype upload_failure = UploadTransport string | UploadIdle

record ('u, 'w) drive_env =
  de_url :: "'u url_lib"
  de_sha :: "string \<Rightarrow> string"
  de_utf8_lossy :: "string \<Rightarrow> string"
  de_header_value_ok :: "string \<Rightarrow> bool"
  de_json_error :: "string \<Rightarrow> drive_error_body option"
  de_json_file :: "string \<Rightarrow> drive_file option"
  de_json_file_list :: "string \<Rightarrow> drive_file_list option"
  de_json_root :: "string \<Rightarrow> drive_root_metadata option"
  de_send :: "'u drive_request \<Rightarrow> 'w \<Rightarrow> (string + drive_response) \<times> 'w"
  de_send_upload :: "'u drive_request \<Rightarrow> 'w \<Rightarrow> (upload_failure + drive_response) \<times> 'w"
  de_sleep :: "nat \<Rightarrow> 'w \<Rightarrow> 'w"

type_synonym ('w, 'a) drive_call = "('w, storage_error, 'a) sr"

definition is_success :: "nat \<Rightarrow> bool" where
  "is_success status \<longleftrightarrow> 200 \<le> status \<and> status < 300"

definition GOOGLE_DRIVE_OBJECT_CONTENT_TYPE :: string where
  "GOOGLE_DRIVE_OBJECT_CONTENT_TYPE = ''application/octet-stream''"

definition authorization_header_value ::
  "('u, 'w) drive_env \<Rightarrow> string \<Rightarrow> string \<Rightarrow> string storage_result" where
  "authorization_header_value E token provider =
     (if de_header_value_ok E (''Bearer '' @ token) then Inr (''Bearer '' @ token)
      else Inl (drive_upstream_error provider ''Google OAuth access token could not be encoded as an HTTP header''))"

definition drive_transport_error :: "string \<Rightarrow> string \<Rightarrow> string \<Rightarrow> storage_error" where
  "drive_transport_error provider token source =
     StRetryable provider (sanitize_drive_diagnostic token (''Google Drive request failed: '' @ source))"

section \<open>Reading bodies\<close>

definition read_google_response_body ::
  "('u, 'w) drive_env \<Rightarrow> drive_response \<Rightarrow> string + string" where
  "read_google_response_body E response =
     map_res (de_utf8_lossy E) (read_bounded_response_body MAX_GOOGLE_ERROR_BODY_LEN [] (ds_chunks response))"

fun read_chunks_with_idle_timeout ::
  "string \<Rightarrow> string \<Rightarrow> nat option \<Rightarrow> string \<Rightarrow> (string + string) list \<Rightarrow> string storage_result" where
  "read_chunks_with_idle_timeout provider token stall body chunks =
     (if MAX_GOOGLE_ERROR_BODY_LEN \<le> length body then Inr body
      else if stall = Some 0
      then Inl (StRetryable provider ''Google Drive upload response stalled before completion'')
      else case chunks of
          [] \<Rightarrow> Inr body
        | Inl failure # _ \<Rightarrow> Inl (drive_transport_error provider token failure)
        | Inr chunk # rest \<Rightarrow>
            let remaining = MAX_GOOGLE_ERROR_BODY_LEN - length body in
            if remaining < length chunk then Inr (body @ take remaining chunk)
            else read_chunks_with_idle_timeout provider token (map_option (\<lambda>n. n - 1) stall) (body @ chunk) rest)"

declare read_chunks_with_idle_timeout.simps [simp del]

definition read_drive_response_body_with_idle_timeout ::
  "('u, 'w) drive_env \<Rightarrow> string \<Rightarrow> string \<Rightarrow> drive_response \<Rightarrow> string storage_result" where
  "read_drive_response_body_with_idle_timeout E provider token response =
     map_res (de_utf8_lossy E)
       (read_chunks_with_idle_timeout provider token (ds_stall response) [] (ds_chunks response))"

section \<open>URLs\<close>

datatype drive_url_component_policy = RejectQuery | AllowQuery

definition validate_drive_url ::
  "'u url_lib \<Rightarrow> string \<Rightarrow> string \<Rightarrow> string \<Rightarrow> drive_url_component_policy \<Rightarrow> 'u storage_result" where
  "validate_drive_url L value provider label component_policy =
     (case url_parse L value of
        None \<Rightarrow> Inl (drive_upstream_error provider (label @ '' must be valid''))
      | Some url \<Rightarrow>
          if url_scheme L url \<notin> {''http'', ''https''} \<or> url_host_str L url = None
          then Inl (drive_upstream_error provider (label @ '' must be an absolute http or https URL''))
          else if url_scheme L url = ''http'' \<and> \<not> has_exact_loopback_host L url
          then Inl (drive_upstream_error provider
                 (label @ '' must use https unless it targets an exact literal loopback IP''))
          else if url_username L url \<noteq> [] \<or> url_password L url \<noteq> None
          then Inl (drive_upstream_error provider (label @ '' must not include credentials''))
          else if component_policy = RejectQuery \<and> url_query L url \<noteq> None
          then Inl (drive_upstream_error provider (label @ '' must not include query strings or fragments''))
          else if url_fragment L url \<noteq> None
          then Inl (drive_upstream_error provider (case component_policy of
                   RejectQuery \<Rightarrow> label @ '' must not include query strings or fragments''
                 | AllowQuery \<Rightarrow> label @ '' must not include fragments''))
          else Inr url)"

definition validate_drive_api_base_url :: "'u url_lib \<Rightarrow> string \<Rightarrow> 'u storage_result" where
  "validate_drive_api_base_url L value =
     validate_drive_url L value ''google_drive'' ''Google Drive API base URL'' RejectQuery"

definition drive_api_base_path_already_targets_drive_api :: "'u url_lib \<Rightarrow> 'u \<Rightarrow> bool" where
  "drive_api_base_path_already_targets_drive_api L api_base_url =
     (case url_path_segments L api_base_url of
        Some segments \<Rightarrow>
          let kept = filter (\<lambda>segment. segment \<noteq> []) segments
          in drop (length kept - 2) kept = [''drive'', ''v3'']
      | None \<Rightarrow> False)"

datatype drive_api_endpoint = FilesEndpoint "string list" | ResumableUploadEndpoint

definition drive_api_url :: "'u url_lib \<Rightarrow> 'u \<Rightarrow> drive_api_endpoint \<Rightarrow> 'u storage_result" where
  "drive_api_url L api_base_url endpoint =
     (let already_targets_drive_api = drive_api_base_path_already_targets_drive_api L api_base_url in
      if \<not> url_is_base L api_base_url
      then Inl (drive_upstream_error ''google_drive'' ''Google Drive API base URL cannot be used for path construction'')
      else
        let url = url_pop_if_empty L api_base_url in
        Inr (case endpoint of
            FilesEndpoint extra_segments \<Rightarrow>
              let url1 = (if already_targets_drive_api then url else foldl (url_push L) url [''drive'', ''v3''])
              in foldl (url_push L) (url_push L url1 ''files'') extra_segments
          | ResumableUploadEndpoint \<Rightarrow>
              let url1 = (if already_targets_drive_api then url_pop L (url_pop L url) else url)
              in foldl (url_push L) url1 [''upload'', ''drive'', ''v3'', ''files'']))"

definition drive_files_url :: "'u url_lib \<Rightarrow> 'u \<Rightarrow> string list \<Rightarrow> 'u storage_result" where
  "drive_files_url L api_base_url extra_segments = drive_api_url L api_base_url (FilesEndpoint extra_segments)"

definition append_pairs :: "'u url_lib \<Rightarrow> (string \<times> string) list \<Rightarrow> 'u \<Rightarrow> 'u" where
  "append_pairs L pairs url = foldl (\<lambda>url (name, value). url_append_pair L url name value) url pairs"

definition require_drive_identifier :: "string \<Rightarrow> string \<Rightarrow> unit storage_result" where
  "require_drive_identifier value label =
     (if trim value = []
      then Inl (drive_upstream_error ''google_drive'' (''Google Drive '' @ label @ '' must not be blank''))
      else Inr ())"

definition drive_identified_url ::
  "'u url_lib \<Rightarrow> 'u \<Rightarrow> string \<Rightarrow> string \<Rightarrow> (string \<times> string) list \<Rightarrow> 'u storage_result" where
  "drive_identified_url L api_base_url identifier label pairs =
     bind_res (require_drive_identifier identifier label)
       (\<lambda>_. map_res (append_pairs L pairs) (drive_files_url L api_base_url [identifier]))"

definition drive_file_metadata_url :: "'u url_lib \<Rightarrow> 'u \<Rightarrow> string \<Rightarrow> 'u storage_result" where
  "drive_file_metadata_url L api_base_url root_folder_id =
     drive_identified_url L api_base_url root_folder_id ''root_folder_id''
       [(''fields'', ''id,name,mimeType,trashed,capabilities(canAddChildren)''), (''supportsAllDrives'', ''true'')]"

definition drive_object_metadata_url :: "'u url_lib \<Rightarrow> 'u \<Rightarrow> string \<Rightarrow> 'u storage_result" where
  "drive_object_metadata_url L api_base_url file_id =
     drive_identified_url L api_base_url file_id ''file ID''
       [(''fields'', ''id,name,size,parents,trashed,appProperties''), (''supportsAllDrives'', ''true'')]"

definition drive_shard_folder_metadata_url :: "'u url_lib \<Rightarrow> 'u \<Rightarrow> string \<Rightarrow> 'u storage_result" where
  "drive_shard_folder_metadata_url L api_base_url folder_id =
     drive_identified_url L api_base_url folder_id ''folder ID''
       [(''fields'', ''id,name,mimeType,parents,trashed,appProperties''), (''supportsAllDrives'', ''true'')]"

definition drive_media_download_url :: "'u url_lib \<Rightarrow> 'u \<Rightarrow> string \<Rightarrow> 'u storage_result" where
  "drive_media_download_url L api_base_url file_id =
     drive_identified_url L api_base_url file_id ''file ID''
       [(''alt'', ''media''), (''supportsAllDrives'', ''true'')]"

definition page_token_pair :: "string option \<Rightarrow> (string \<times> string) list" where
  "page_token_pair page_token = (case page_token of Some token \<Rightarrow> [(''pageToken'', token)] | None \<Rightarrow> [])"

definition drive_object_lookup_url ::
  "'u url_lib \<Rightarrow> 'u \<Rightarrow> string \<Rightarrow> google_drive_object_key \<Rightarrow> google_drive_object_properties
     \<Rightarrow> string option \<Rightarrow> 'u storage_result" where
  "drive_object_lookup_url L api_base_url root_folder_id key expected_properties page_token =
     bind_res (require_drive_identifier root_folder_id ''root_folder_id'')
       (\<lambda>_. map_res (append_pairs L
          ([(''fields'', ''files(id,name,size,appProperties),nextPageToken,incompleteSearch''),
            (''pageSize'', ''2''), (''spaces'', ''drive''), (''corpora'', ''user''),
            (''includeItemsFromAllDrives'', ''true''), (''supportsAllDrives'', ''true''),
            (''q'', drive_object_lookup_query root_folder_id key expected_properties)]
           @ page_token_pair page_token))
         (drive_files_url L api_base_url []))"

definition drive_shard_folder_lookup_url ::
  "'u url_lib \<Rightarrow> 'u \<Rightarrow> string \<Rightarrow> google_drive_object_key \<Rightarrow> string option \<Rightarrow> 'u storage_result" where
  "drive_shard_folder_lookup_url L api_base_url root_folder_id key page_token =
     bind_res (require_drive_identifier root_folder_id ''root_folder_id'')
       (\<lambda>_. map_res (append_pairs L
          ([(''fields'', ''files(id,name,mimeType,parents,trashed,appProperties),nextPageToken,incompleteSearch''),
            (''pageSize'', ''100''), (''spaces'', ''drive''), (''corpora'', ''user''),
            (''includeItemsFromAllDrives'', ''true''), (''supportsAllDrives'', ''true''),
            (''q'', drive_shard_folder_lookup_query root_folder_id key)]
           @ page_token_pair page_token))
         (drive_files_url L api_base_url []))"

definition drive_file_create_url :: "'u url_lib \<Rightarrow> 'u \<Rightarrow> 'u storage_result" where
  "drive_file_create_url L api_base_url =
     map_res (append_pairs L [(''fields'', ''id,name,mimeType,parents,trashed,appProperties''),
        (''supportsAllDrives'', ''true'')]) (drive_files_url L api_base_url [])"

definition drive_resumable_upload_url :: "'u url_lib \<Rightarrow> 'u \<Rightarrow> 'u storage_result" where
  "drive_resumable_upload_url L api_base_url =
     map_res (append_pairs L [(''uploadType'', ''resumable''), (''fields'', ''id,name,size,appProperties''),
        (''supportsAllDrives'', ''true'')]) (drive_api_url L api_base_url ResumableUploadEndpoint)"

definition url_origins_match :: "'u url_lib \<Rightarrow> 'u \<Rightarrow> 'u \<Rightarrow> bool" where
  "url_origins_match L left right \<longleftrightarrow>
     url_scheme L left = url_scheme L right \<and> url_host L left = url_host L right
     \<and> url_port_or_known_default L left = url_port_or_known_default L right"

definition validate_drive_resumable_upload_session_url ::
  "'u url_lib \<Rightarrow> string \<Rightarrow> 'u \<Rightarrow> string \<Rightarrow> 'u storage_result" where
  "validate_drive_resumable_upload_session_url L provider api_base_url value =
     bind_res (validate_drive_url L value provider ''Google Drive resumable upload session URL'' AllowQuery)
       (\<lambda>url. if \<not> url_origins_match L url api_base_url
          then Inl (drive_upstream_error provider
                 ''Google Drive resumable upload session URL must match the configured Drive API origin'')
          else Inr url)"

section \<open>Calls\<close>

definition send_request ::
  "('u, 'w) drive_env \<Rightarrow> string \<Rightarrow> string \<Rightarrow> 'u drive_request \<Rightarrow> ('w, drive_response) drive_call" where
  "send_request E provider token request w =
     (case de_send E request w of (r, w') \<Rightarrow> (map_err (drive_transport_error provider token) r, w'))"

text \<open>
  One call of the store: the URL, the bearer header and the remaining headers are built in this
  order, then the request is sent.
\<close>

definition drive_call_url ::
  "('u, 'w) drive_env \<Rightarrow> string \<Rightarrow> string \<Rightarrow> http_method \<Rightarrow> 'u storage_result
     \<Rightarrow> (string \<times> string) list \<Rightarrow> (string \<times> string) list \<Rightarrow> drive_body \<Rightarrow> ('w, drive_response) drive_call" where
  "drive_call_url E provider token method url before after body =
     bind_sr (lift_sr url) (\<lambda>url.
     bind_sr (lift_sr (authorization_header_value E token provider)) (\<lambda>authorization.
       send_request E provider token
         \<lparr>dq_method = method, dq_url = url,
          dq_headers = before @ [(''authorization'', authorization)] @ after, dq_body = body\<rparr>))"

text \<open>A metadata request: the status and the bounded body.\<close>

definition metadata_call ::
  "('u, 'w) drive_env \<Rightarrow> string \<Rightarrow> string \<Rightarrow> http_method \<Rightarrow> 'u storage_result
     \<Rightarrow> (string \<times> string) list \<Rightarrow> (string \<times> string) list \<Rightarrow> drive_body \<Rightarrow> ('w, nat \<times> string) drive_call" where
  "metadata_call E provider token method url before after body =
     bind_sr (drive_call_url E provider token method url before after body) (\<lambda>response.
       lift_sr (map_res (\<lambda>text. (ds_status response, text))
         (map_err (drive_transport_error provider token) (read_google_response_body E response))))"

definition metadata_get ::
  "('u, 'w) drive_env \<Rightarrow> string \<Rightarrow> string \<Rightarrow> 'u storage_result \<Rightarrow> ('w, nat \<times> string) drive_call" where
  "metadata_get E provider token url =
     metadata_call E provider token HttpGet url [(''accept'', ''application/json'')]
       [(''accept-encoding'', ''identity'')] EmptyRequest"

section \<open>Errors by status\<close>

text \<open>
  \<open>parse_drive_object_lookup_error\<close> and \<open>parse_drive_root_provision_error\<close>, the common
  classification with the upstream error as its default.
\<close>

definition parse_drive_object_lookup_error ::
  "('u, 'w) drive_env \<Rightarrow> string \<Rightarrow> string \<Rightarrow> nat \<Rightarrow> string \<Rightarrow> storage_error" where
  "parse_drive_object_lookup_error E provider token status body =
     (let diagnostic = drive_error_message (de_json_error E) token body in
      case classify_common_drive_error provider status diagnostic of
        Some err \<Rightarrow> err
      | None \<Rightarrow> StUpstream provider (Some status) (dg_message diagnostic))"

datatype drive_upload_phase = Initiate | Transfer

definition parse_drive_upload_error ::
  "('u, 'w) drive_env \<Rightarrow> string \<Rightarrow> string \<Rightarrow> lfs_object \<Rightarrow> drive_upload_phase \<Rightarrow> nat \<Rightarrow> string \<Rightarrow> storage_error" where
  "parse_drive_upload_error E provider token object phase status body =
     (let diagnostic = drive_error_message (de_json_error E) token body in
      case classify_common_drive_error provider status diagnostic of
        Some err \<Rightarrow> err
      | None \<Rightarrow>
          if status = 409 then StConflict provider (as_hex (obj_oid object))
          else if status = 308 \<or> phase = Transfer \<and> status = 404
          then StRetryable provider (dg_message diagnostic)
          else StUpstream provider (Some status) (dg_message diagnostic))"

definition parse_drive_download_error ::
  "('u, 'w) drive_env \<Rightarrow> string \<Rightarrow> string \<Rightarrow> lfs_object \<Rightarrow> nat \<Rightarrow> string \<Rightarrow> storage_error" where
  "parse_drive_download_error E provider token object status body =
     (let diagnostic = drive_error_message (de_json_error E) token body in
      case classify_common_drive_error provider status diagnostic of
        Some err \<Rightarrow> err
      | None \<Rightarrow>
          if status = 404 \<or> has_reason [''notFound''] diagnostic
          then StObjectNotFound provider (as_hex (obj_oid object)) (obj_size object)
          else if status = 409 then StConflict provider (as_hex (obj_oid object))
          else StUpstream provider (Some status) (dg_message diagnostic))"

end
