(* ===== verification/Drive_Store.thy ===== *)
theory Drive_Store
  imports Drive_Api
begin

text \<open>
  Lookup of objects in Google Drive (\<open>src/google_drive/object_store.rs\<close>): verification of the
  files and folders that the service reports, the page loops, discovery under the root and its
  shard folders, and resolution of a stored file id. A page loop returns only if the service ends
  its pages or repeats a token, so the operations that run one are \<open>option\<close>-valued: \<open>None\<close> is a
  loop that never returns.
\<close>

section \<open>The store\<close>

record 'u drive_store =
  gs_storage :: google_drive_storage_config
  gs_repo_namespace :: string
  gs_token :: string
  gs_api_base_url :: 'u
  gs_initial_backoff :: nat

definition GOOGLE_DRIVE_API_BASE_URL :: string where
  "GOOGLE_DRIVE_API_BASE_URL = ''https://www.googleapis.com''"

definition GOOGLE_DRIVE_RESUMABLE_UPLOAD_INITIAL_BACKOFF :: nat where
  "GOOGLE_DRIVE_RESUMABLE_UPLOAD_INITIAL_BACKOFF = 250"

definition drive_store_new ::
  "'u url_lib \<Rightarrow> google_drive_storage_config \<Rightarrow> string \<Rightarrow> string \<Rightarrow> string \<Rightarrow> 'u drive_store storage_result" where
  "drive_store_new L storage repo_namespace token api_base_url =
     bind_res (validate_repo_namespace repo_namespace) (\<lambda>ns.
     map_res (\<lambda>url. \<lparr>gs_storage = storage, gs_repo_namespace = ns, gs_token = token, gs_api_base_url = url,
         gs_initial_backoff = GOOGLE_DRIVE_RESUMABLE_UPLOAD_INITIAL_BACKOFF\<rparr>)
       (validate_drive_api_base_url L api_base_url))"

abbreviation gs_provider :: "'u drive_store \<Rightarrow> string" where
  "gs_provider store \<equiv> gd_id (gs_storage store)"

abbreviation gs_root :: "'u drive_store \<Rightarrow> string" where
  "gs_root store \<equiv> gd_root_folder_id (gs_storage store)"

definition ensure_repository_namespace :: "'u drive_store \<Rightarrow> string \<Rightarrow> unit storage_result" where
  "ensure_repository_namespace store repository_namespace =
     (if gs_repo_namespace store = repository_namespace then Inr ()
      else Inl (StRepositoryNamespaceMismatch (gs_provider store)))"

definition object_key :: "'u drive_store \<Rightarrow> lfs_object \<Rightarrow> google_drive_object_key storage_result" where
  "object_key store object = object_key_new (gs_repo_namespace store) object"

section \<open>Files and folders reported by the service\<close>

definition reported_id :: "string \<Rightarrow> nat \<Rightarrow> string \<Rightarrow> drive_file \<Rightarrow> string storage_result" where
  "reported_id provider status message file =
     (case df_id file of
        Some file_id \<Rightarrow> if trim file_id \<noteq> [] then Inr file_id else Inl (StUpstream provider (Some status) message)
      | None \<Rightarrow> Inl (StUpstream provider (Some status) message))"

definition verify_drive_shard_folder ::
  "google_drive_storage_config \<Rightarrow> google_drive_object_key \<Rightarrow> nat \<Rightarrow> drive_file \<Rightarrow> string storage_result" where
  "verify_drive_shard_folder storage key status file =
     bind_res (reported_id (gd_id storage) status ''Google Drive shard-folder response did not include id'' file) (\<lambda>file_id.
       if \<not> (df_name file = Some (shard_folder_name key)
              \<and> df_mime_type file = Some GOOGLE_DRIVE_FOLDER_MIME_TYPE
              \<and> \<not> df_trashed file
              \<and> gd_root_folder_id storage \<in> set (df_parents file)
              \<and> map_of (df_app_properties file) GOOGLE_DRIVE_SHARD_KIND_PROPERTY = Some GOOGLE_DRIVE_SHARD_KIND
              \<and> map_of (df_app_properties file) GOOGLE_DRIVE_SHARD_PREFIX_PROPERTY = Some (shard_prefix key))
       then Inl (StUpstream (gd_id storage) (Some status)
              ''Google Drive shard-folder response did not match its deterministic identity'')
       else Inr file_id)"

definition verify_drive_object_file ::
  "google_drive_storage_config \<Rightarrow> google_drive_object_key \<Rightarrow> google_drive_object_properties \<Rightarrow> nat
     \<Rightarrow> drive_file \<Rightarrow> stored_object storage_result" where
  "verify_drive_object_file storage key expected_properties status file =
     bind_res (reported_id (gd_id storage) status ''Google Drive object lookup response did not include id'' file) (\<lambda>file_id.
       if df_name file \<noteq> Some (drive_file_name key)
       then Inl (StConflict (gd_id storage) (as_hex (obj_oid (ok_object key))))
       else if df_trashed file
       then Inl (StConflict (gd_id storage) (as_hex (obj_oid (ok_object key))))
       else if list_ex (\<lambda>(property, expected). map_of (df_app_properties file) property \<noteq> Some expected)
                 (property_pairs expected_properties)
       then Inl (StConflict (gd_id storage) (as_hex (obj_oid (ok_object key))))
       else case df_size file of
           None \<Rightarrow> Inl (StUpstream (gd_id storage) (Some status)
               ''Google Drive object lookup response did not include size'')
         | Some reported_size \<Rightarrow> (case parse_u64 reported_size of
               Inl _ \<Rightarrow> Inl (StUpstream (gd_id storage) (Some status)
                   ''Google Drive object lookup response size was invalid'')
             | Inr actual_size \<Rightarrow>
                 if actual_size \<noteq> obj_size (ok_object key)
                 then Inl (StIntegrityMismatch (as_hex (obj_oid (ok_object key))) (obj_size (ok_object key))
                        (as_hex (obj_oid (ok_object key))) actual_size)
                 else Inr \<lparr>so_provider_id = gd_id storage, so_repository_namespace = ok_repo_namespace key,
                        so_object = ok_object key, so_backend_id = file_id\<rparr>))"

definition validated_drive_page_token ::
  "string \<Rightarrow> nat \<Rightarrow> string option \<Rightarrow> string \<Rightarrow> string option storage_result" where
  "validated_drive_page_token provider status page_token operation =
     (case page_token of
        None \<Rightarrow> Inr None
      | Some token \<Rightarrow>
          if trim token = []
          then Inl (StUpstream provider (Some status) (operation @ '' returned a blank page token''))
          else Inr (Some token))"

definition parse_drive_object_lookup_success ::
  "('u, 'w) drive_env \<Rightarrow> google_drive_storage_config \<Rightarrow> google_drive_object_key \<Rightarrow> google_drive_object_properties
     \<Rightarrow> nat \<Rightarrow> string \<Rightarrow> (stored_object list \<times> string option) storage_result" where
  "parse_drive_object_lookup_success E storage key expected_properties status body =
     (case de_json_file_list E body of
        None \<Rightarrow> Inl (StUpstream (gd_id storage) (Some status) ''Google Drive object lookup response was invalid JSON'')
      | Some response \<Rightarrow>
          if dl_incomplete_search response
          then Inl (StRetryable (gd_id storage) ''Google Drive object lookup returned incomplete search results'')
          else bind_res (validated_drive_page_token (gd_id storage) status (dl_next_page_token response)
                 ''Google Drive object lookup'') (\<lambda>next_page_token.
               map_res (\<lambda>stored_objects. (stored_objects, next_page_token))
                 (traverse_res (verify_drive_object_file storage key expected_properties status) (dl_files response))))"

definition parse_drive_shard_folder_lookup_success ::
  "('u, 'w) drive_env \<Rightarrow> google_drive_storage_config \<Rightarrow> google_drive_object_key \<Rightarrow> nat \<Rightarrow> string
     \<Rightarrow> (string list \<times> string option) storage_result" where
  "parse_drive_shard_folder_lookup_success E storage key status body =
     (case de_json_file_list E body of
        None \<Rightarrow> Inl (StUpstream (gd_id storage) (Some status)
            ''Google Drive shard-folder lookup response was invalid JSON'')
      | Some response \<Rightarrow>
          if dl_incomplete_search response
          then Inl (StRetryable (gd_id storage) ''Google Drive shard-folder lookup returned incomplete search results'')
          else bind_res (validated_drive_page_token (gd_id storage) status (dl_next_page_token response)
                 ''Google Drive shard-folder lookup'') (\<lambda>next_page_token.
               map_res (\<lambda>folder_ids. (folder_ids, next_page_token))
                 (traverse_res (verify_drive_shard_folder storage key status) (dl_files response))))"

definition parse_drive_shard_folder_create_success ::
  "('u, 'w) drive_env \<Rightarrow> google_drive_storage_config \<Rightarrow> google_drive_object_key \<Rightarrow> nat \<Rightarrow> string \<Rightarrow> string storage_result" where
  "parse_drive_shard_folder_create_success E storage key status body =
     (case de_json_file E body of
        None \<Rightarrow> Inl (StUpstream (gd_id storage) (Some status)
            ''Google Drive shard-folder creation response was invalid JSON'')
      | Some file \<Rightarrow> verify_drive_shard_folder storage key status file)"

definition parse_drive_upload_success ::
  "('u, 'w) drive_env \<Rightarrow> google_drive_storage_config \<Rightarrow> google_drive_object_key \<Rightarrow> google_drive_object_properties
     \<Rightarrow> nat \<Rightarrow> string \<Rightarrow> stored_object storage_result" where
  "parse_drive_upload_success E storage key expected_properties status body =
     (case de_json_file E body of
        None \<Rightarrow> Inl (StUpstream (gd_id storage) (Some status)
            ''Google Drive upload completion response was invalid JSON'')
      | Some file \<Rightarrow> verify_drive_object_file storage key expected_properties status file)"

section \<open>Page loops\<close>

text \<open>
  The loop shared by the lookups: \<open>fetch\<close> requests the page of a token; \<open>seen\<close> holds the tokens
  that the service has returned, and \<open>repeated\<close> is the error of a token that returns.
\<close>

partial_function (option) page_loop ::
  "(string option \<Rightarrow> ('w, 'p list \<times> string option) drive_call) \<Rightarrow> storage_error \<Rightarrow> 'p list
     \<Rightarrow> string option \<Rightarrow> string set \<Rightarrow> 'w \<Rightarrow> ('p list storage_result \<times> 'w) option" where
  "page_loop fetch repeated found page_token seen w =
     (case fetch page_token w of (r, w') \<Rightarrow> (case r of
        Inl err \<Rightarrow> Some (Inl err, w')
      | Inr page \<Rightarrow> (case snd page of
            None \<Rightarrow> Some (Inr (found @ fst page), w')
          | Some next_page_token \<Rightarrow>
              if next_page_token \<in> seen then Some (Inl repeated, w')
              else page_loop fetch repeated (found @ fst page) (Some next_page_token)
                     (insert next_page_token seen) w')))"

declare page_loop.simps [code]

text \<open>Calls that may not return, in sequence.\<close>

type_synonym ('w, 'a) drive_run = "'w \<Rightarrow> ('a storage_result \<times> 'w) option"

definition run_call :: "('w, 'a) drive_call \<Rightarrow> ('w, 'a) drive_run" where
  "run_call m w = Some (m w)"

definition bind_run :: "('w, 'a) drive_run \<Rightarrow> ('a \<Rightarrow> ('w, 'b) drive_run) \<Rightarrow> ('w, 'b) drive_run" where
  "bind_run m f w = (case m w of None \<Rightarrow> None | Some (r, w') \<Rightarrow> (case r of
       Inl err \<Rightarrow> Some (Inl err, w') | Inr x \<Rightarrow> f x w'))"

section \<open>Lookup\<close>

definition objects_page ::
  "('u, 'w) drive_env \<Rightarrow> 'u drive_store \<Rightarrow> string \<Rightarrow> google_drive_object_key \<Rightarrow> google_drive_object_properties
     \<Rightarrow> string option \<Rightarrow> ('w, stored_object list \<times> string option) drive_call" where
  "objects_page E store parent_folder_id key expected_properties page_token =
     bind_sr (metadata_get E (gs_provider store) (gs_token store)
         (drive_object_lookup_url (de_url E) (gs_api_base_url store) parent_folder_id key expected_properties page_token))
       (\<lambda>(status, body). lift_sr
          (if \<not> is_success status
           then Inl (parse_drive_object_lookup_error E (gs_provider store) (gs_token store) status body)
           else parse_drive_object_lookup_success E (gs_storage store) key expected_properties status body))"

definition lookup_objects_in_parent ::
  "('u, 'w) drive_env \<Rightarrow> 'u drive_store \<Rightarrow> string \<Rightarrow> google_drive_object_key \<Rightarrow> google_drive_object_properties
     \<Rightarrow> ('w, stored_object list) drive_run" where
  "lookup_objects_in_parent E store parent_folder_id key expected_properties =
     page_loop (objects_page E store parent_folder_id key expected_properties)
       (StRetryable (gs_provider store) ''Google Drive object lookup repeated a page token'') [] None {}"

definition shard_folders_page ::
  "('u, 'w) drive_env \<Rightarrow> 'u drive_store \<Rightarrow> google_drive_object_key \<Rightarrow> string option
     \<Rightarrow> ('w, string list \<times> string option) drive_call" where
  "shard_folders_page E store key page_token =
     bind_sr (metadata_get E (gs_provider store) (gs_token store)
         (drive_shard_folder_lookup_url (de_url E) (gs_api_base_url store) (gs_root store) key page_token))
       (\<lambda>(status, body). lift_sr
          (if \<not> is_success status
           then Inl (parse_drive_object_lookup_error E (gs_provider store) (gs_token store) status body)
           else parse_drive_shard_folder_lookup_success E (gs_storage store) key status body))"

definition lookup_shard_folder_ids ::
  "('u, 'w) drive_env \<Rightarrow> 'u drive_store \<Rightarrow> google_drive_object_key \<Rightarrow> ('w, string list) drive_run" where
  "lookup_shard_folder_ids E store key =
     bind_run (page_loop (shard_folders_page E store key)
         (StRetryable (gs_provider store) ''Google Drive shard-folder lookup repeated a page token'') [] None {})
       (\<lambda>folder_ids. run_call (ret_sr (remdups_adj (sort folder_ids))))"

fun lookup_in_parents ::
  "('u, 'w) drive_env \<Rightarrow> 'u drive_store \<Rightarrow> google_drive_object_key \<Rightarrow> google_drive_object_properties
     \<Rightarrow> string list \<Rightarrow> stored_object list \<Rightarrow> ('w, stored_object list) drive_run" where
  "lookup_in_parents E store key expected_properties [] found = run_call (ret_sr found)"
| "lookup_in_parents E store key expected_properties (parent # parents) found =
     bind_run (lookup_objects_in_parent E store parent key expected_properties)
       (\<lambda>objects. lookup_in_parents E store key expected_properties parents (found @ objects))"

definition drive_lookup_object ::
  "('u, 'w) drive_env \<Rightarrow> 'u drive_store \<Rightarrow> lfs_object \<Rightarrow> ('w, stored_object option) drive_run" where
  "drive_lookup_object E store object =
     bind_run (run_call (lift_sr (object_key store object))) (\<lambda>key.
     let expected_properties = expected_app_properties (de_sha E) key in
     bind_run (lookup_objects_in_parent E store (gs_root store) key expected_properties) (\<lambda>in_root.
     bind_run (lookup_shard_folder_ids E store key) (\<lambda>shard_folder_ids.
     bind_run (lookup_in_parents E store key expected_properties shard_folder_ids in_root) (\<lambda>stored_objects.
       run_call (ret_sr (case sort_key so_backend_id stored_objects of
           stored # _ \<Rightarrow> Some stored | [] \<Rightarrow> None))))))"

definition drive_object_exists ::
  "('u, 'w) drive_env \<Rightarrow> 'u drive_store \<Rightarrow> lfs_object \<Rightarrow> ('w, bool) drive_run" where
  "drive_object_exists E store object =
     bind_run (drive_lookup_object E store object) (\<lambda>found. run_call (ret_sr (found \<noteq> None)))"

section \<open>Resolution of a stored file id\<close>

definition shard_folder_id_matches_key ::
  "('u, 'w) drive_env \<Rightarrow> 'u drive_store \<Rightarrow> string \<Rightarrow> google_drive_object_key \<Rightarrow> ('w, bool) drive_call" where
  "shard_folder_id_matches_key E store folder_id key =
     bind_sr (metadata_get E (gs_provider store) (gs_token store)
         (drive_shard_folder_metadata_url (de_url E) (gs_api_base_url store) folder_id))
       (\<lambda>(status, body). lift_sr
          (if status = 404 then Inr False
           else if \<not> is_success status
           then Inl (parse_drive_object_lookup_error E (gs_provider store) (gs_token store) status body)
           else case de_json_file E body of
               None \<Rightarrow> Inl (StUpstream (gs_provider store) (Some status)
                   ''Google Drive shard-folder metadata response was invalid JSON'')
             | Some file \<Rightarrow> (case verify_drive_shard_folder (gs_storage store) key status file of
                   Inr returned_id \<Rightarrow> Inr (returned_id = folder_id)
                 | Inl (StUpstream p (Some s) m) \<Rightarrow> if s = 200 then Inr False else Inl (StUpstream p (Some s) m)
                 | Inl err \<Rightarrow> Inl err)))"

definition drive_lookup_object_by_backend_id ::
  "('u, 'w) drive_env \<Rightarrow> 'u drive_store \<Rightarrow> lfs_object \<Rightarrow> string \<Rightarrow> ('w, stored_object option) drive_call" where
  "drive_lookup_object_by_backend_id E store object backend_id =
     bind_sr (lift_sr (object_key store object)) (\<lambda>key.
     let expected_properties = expected_app_properties (de_sha E) key in
     bind_sr (metadata_get E (gs_provider store) (gs_token store)
         (drive_object_metadata_url (de_url E) (gs_api_base_url store) backend_id))
       (\<lambda>(status, body).
          if status = 404 then ret_sr None
          else if \<not> is_success status
          then lift_sr (Inl (parse_drive_object_lookup_error E (gs_provider store) (gs_token store) status body))
          else case de_json_file E body of
              None \<Rightarrow> lift_sr (Inl (StUpstream (gs_provider store) (Some status)
                  ''Google Drive object metadata response was invalid JSON''))
            | Some file \<Rightarrow> (case verify_drive_object_file (gs_storage store) key expected_properties status file of
                  Inl (StConflict _ _) \<Rightarrow> ret_sr None
                | Inl err \<Rightarrow> lift_sr (Inl err)
                | Inr stored \<Rightarrow>
                    if so_backend_id stored \<noteq> backend_id then ret_sr None
                    else if df_parents file = [gs_root store] then ret_sr (Some stored)
                    else (case df_parents file of
                        [parent_folder_id] \<Rightarrow>
                          bind_sr (shard_folder_id_matches_key E store parent_folder_id key)
                            (\<lambda>matches. ret_sr (if matches then Some stored else None))
                      | _ \<Rightarrow> ret_sr None))))"

end
