(* ===== verification/Drive_Transfer.thy ===== *)
theory Drive_Transfer
  imports Drive_Store
begin

text \<open>
  Transfers of objects to and from Google Drive: the resumable upload
  (\<open>src/google_drive/upload.rs\<close> and the upload half of \<open>object_store.rs\<close>) and the verified
  downloads (\<open>object_store.rs\<close>, \<open>download.rs\<close>). A staged file is its content; its handle is
  positioned by the offset of each chunk.
\<close>

section \<open>Staged files\<close>

definition GOOGLE_DRIVE_RESUMABLE_UPLOAD_CHUNK_SIZE :: nat where
  "GOOGLE_DRIVE_RESUMABLE_UPLOAD_CHUNK_SIZE = 256 * 1024"

definition GOOGLE_DRIVE_RESUMABLE_UPLOAD_MAX_RECOVERY_ATTEMPTS :: nat where
  "GOOGLE_DRIVE_RESUMABLE_UPLOAD_MAX_RECOVERY_ATTEMPTS = 4"

definition open_verified_staged_upload_file ::
  "(string \<Rightarrow> string) \<Rightarrow> string \<Rightarrow> lfs_object \<Rightarrow> string \<Rightarrow> string + string \<Rightarrow> string storage_result" where
  "open_verified_staged_upload_file sha provider object source file =
     (case file of
        Inl err \<Rightarrow> Inl (StStagedFileRead provider source err)
      | Inr content \<Rightarrow>
          if sha content \<noteq> as_hex (obj_oid object) \<or> length content \<noteq> unat (obj_size object)
          then Inl (StIntegrityMismatch (as_hex (obj_oid object)) (obj_size object)
                 (sha content) (of_nat (length content)))
          else Inr content)"

definition read_drive_upload_chunk ::
  "string \<Rightarrow> string \<Rightarrow> string \<Rightarrow> u64 \<Rightarrow> u64 \<Rightarrow> string storage_result" where
  "read_drive_upload_chunk provider source file offset total_size =
     (let chunk_len = min (unat total_size - unat offset) GOOGLE_DRIVE_RESUMABLE_UPLOAD_CHUNK_SIZE in
      if length (drop (unat offset) file) < chunk_len
      then Inl (StStagedFileRead provider source ''failed to fill whole buffer'')
      else Inr (take chunk_len (drop (unat offset) file)))"

section \<open>Progress of a resumable upload\<close>

datatype drive_resumable_upload_progress = UploadComplete stored_object | UploadIncomplete u64

definition drive_resumable_upload_protocol_error :: "string \<Rightarrow> string \<Rightarrow> storage_error" where
  "drive_resumable_upload_protocol_error provider message = StUpstream provider (Some 308) message"

fun is_retryable_storage_error :: "storage_error \<Rightarrow> bool" where
  "is_retryable_storage_error (StRetryable _ _) = True"
| "is_retryable_storage_error _ = False"

definition response_header :: "string \<Rightarrow> drive_response \<Rightarrow> string option" where
  "response_header name response = map_of (ds_headers response) name"

definition parse_drive_resumable_upload_offset ::
  "string \<Rightarrow> drive_response \<Rightarrow> u64 \<Rightarrow> u64 \<Rightarrow> u64 storage_result" where
  "parse_drive_resumable_upload_offset provider response total_size maximum_committed_offset =
     (case response_header ''range'' response of
        None \<Rightarrow> Inr 0
      | Some range_header \<Rightarrow>
          if \<not> list_all visible_ascii range_header
          then Inl (drive_resumable_upload_protocol_error provider
                 ''Google Drive resumable upload returned a non-text Range header'')
          else case strip_prefix ''bytes=0-'' (trim range_header) of
              None \<Rightarrow> Inl (drive_resumable_upload_protocol_error provider
                  ''Google Drive resumable upload returned an invalid Range header'')
            | Some last_byte \<Rightarrow> (case parse_u64 last_byte of
                  Inl _ \<Rightarrow> Inl (drive_resumable_upload_protocol_error provider
                      ''Google Drive resumable upload returned an invalid Range header'')
                | Inr last_byte \<Rightarrow> (case checked_add_u64 last_byte 1 of
                      None \<Rightarrow> Inl (drive_resumable_upload_protocol_error provider
                          ''Google Drive resumable upload returned an overflowing Range header'')
                    | Some committed_offset \<Rightarrow>
                        if maximum_committed_offset < committed_offset \<or> total_size \<le> committed_offset
                           \<or> total_size = 0
                        then Inl (drive_resumable_upload_protocol_error provider
                               ''Google Drive resumable upload returned an impossible Range header'')
                        else Inr committed_offset)))"

text \<open>
  The upload at hand: the object and its key, the properties that its file must carry and the
  session URL of the service.
\<close>

record 'u upload_session =
  us_object :: lfs_object
  us_key :: google_drive_object_key
  us_expected_properties :: google_drive_object_properties
  us_url :: 'u

definition parse_drive_resumable_upload_response ::
  "('u, 'w) drive_env \<Rightarrow> 'u drive_store \<Rightarrow> 'u upload_session \<Rightarrow> drive_response \<Rightarrow> u64
     \<Rightarrow> drive_resumable_upload_progress storage_result" where
  "parse_drive_resumable_upload_response E store session response maximum_committed_offset =
     (let status = ds_status response in
      if status = 308
      then map_res UploadIncomplete (parse_drive_resumable_upload_offset (gs_provider store) response
             (obj_size (us_object session)) maximum_committed_offset)
      else bind_res (read_drive_response_body_with_idle_timeout E (gs_provider store) (gs_token store) response)
        (\<lambda>body.
           if status = 200 \<or> status = 201
           then map_res UploadComplete (parse_drive_upload_success E (gs_storage store) (us_key session)
                  (us_expected_properties session) status body)
           else Inl (parse_drive_upload_error E (gs_provider store) (gs_token store) (us_object session)
                  Transfer status body)))"

definition send_drive_upload_with_idle_timeout ::
  "('u, 'w) drive_env \<Rightarrow> string \<Rightarrow> string \<Rightarrow> 'u drive_request \<Rightarrow> ('w, drive_response) drive_call" where
  "send_drive_upload_with_idle_timeout E provider token request w =
     (case de_send_upload E request w of (r, w') \<Rightarrow>
        (map_err (\<lambda>failure. case failure of
            UploadTransport source \<Rightarrow> drive_transport_error provider token source
          | UploadIdle \<Rightarrow> StRetryable provider ''Google Drive upload made no progress before the idle timeout'') r, w'))"

definition sleep_drive_upload_backoff :: "('u, 'w) drive_env \<Rightarrow> 'u drive_store \<Rightarrow> nat \<Rightarrow> 'w \<Rightarrow> 'w" where
  "sleep_drive_upload_backoff E store attempt = de_sleep E (gs_initial_backoff store * 2 ^ min attempt 8)"

text \<open>A request of the session: its headers, and the progress that its response reports.\<close>

definition session_put ::
  "('u, 'w) drive_env \<Rightarrow> 'u drive_store \<Rightarrow> 'u upload_session \<Rightarrow> string \<Rightarrow> (string \<times> string) list
     \<Rightarrow> drive_body \<Rightarrow> u64 \<Rightarrow> ('w, drive_resumable_upload_progress) drive_call" where
  "session_put E store session authorization headers body maximum_committed_offset =
     bind_sr (send_drive_upload_with_idle_timeout E (gs_provider store) (gs_token store)
         \<lparr>dq_method = HttpPut, dq_url = us_url session,
          dq_headers = [(''accept'', ''application/json''), (''authorization'', authorization)] @ headers,
          dq_body = body\<rparr>)
       (\<lambda>response. lift_sr (parse_drive_resumable_upload_response E store session response maximum_committed_offset))"

section \<open>Recovery\<close>

text \<open>The loop returns the progress and the attempts that it has used.\<close>

function recover_drive_resumable_upload ::
  "('u, 'w) drive_env \<Rightarrow> 'u drive_store \<Rightarrow> 'u upload_session \<Rightarrow> nat \<Rightarrow> storage_error \<Rightarrow> 'w
     \<Rightarrow> (drive_resumable_upload_progress storage_result \<times> nat) \<times> 'w" where
  "recover_drive_resumable_upload E store session recovery_attempts last_error w =
     (if GOOGLE_DRIVE_RESUMABLE_UPLOAD_MAX_RECOVERY_ATTEMPTS \<le> recovery_attempts
      then ((Inl last_error, recovery_attempts), w)
      else
        let slept = sleep_drive_upload_backoff E store recovery_attempts w in
        case authorization_header_value E (gs_token store) (gs_provider store) of
            Inl err \<Rightarrow> ((Inl err, Suc recovery_attempts), slept)
          | Inr authorization \<Rightarrow>
              let total_size = obj_size (us_object session) in
              case session_put E store session authorization
                  [(''content-length'', ''0''), (''content-range'', ''bytes */'' @ nat_dec (unat total_size))]
                  EmptyRequest total_size slept of
                  (Inr progress, w') \<Rightarrow> ((Inr progress, Suc recovery_attempts), w')
                | (Inl err, w') \<Rightarrow>
                    if is_retryable_storage_error err
                    then recover_drive_resumable_upload E store session (Suc recovery_attempts) err w'
                    else ((Inl err, Suc recovery_attempts), w'))"
  by pat_completeness auto
termination
  by (relation "measure (\<lambda>(_, _, _, attempts, _, _). GOOGLE_DRIVE_RESUMABLE_UPLOAD_MAX_RECOVERY_ATTEMPTS - attempts)") auto

declare recover_drive_resumable_upload.simps [simp del]

lemma recover_counts_attempts:
  "recover_drive_resumable_upload E store session attempts err w = ((r, attempts'), w') \<Longrightarrow> attempts \<le> attempts'"
proof (induction E store session attempts err w arbitrary: r attempts' w' rule: recover_drive_resumable_upload.induct)
  case (1 E store session attempts err w)
  show ?case
    using 1(2) 1(1) [OF _ refl _ refl, THEN Suc_leD]
    by (subst (asm) recover_drive_resumable_upload.simps)
       (auto simp: Let_def split: if_splits sum.splits prod.splits)
qed

section \<open>The upload loop\<close>

definition chunk_range_headers :: "u64 \<Rightarrow> u64 option \<Rightarrow> u64 \<Rightarrow> (string \<times> string) list" where
  "chunk_range_headers committed_offset chunk_end total_size =
     (''content-length'', nat_dec (unat (case chunk_end of None \<Rightarrow> 0 | Some last_byte \<Rightarrow> last_byte - committed_offset + 1)))
     # (case chunk_end of None \<Rightarrow> []
        | Some last_byte \<Rightarrow> [(''content-range'', ''bytes '' @ nat_dec (unat committed_offset) @ ''-'' @ nat_dec (unat last_byte)
                          @ ''/'' @ nat_dec (unat total_size))])"

definition upload_chunk_end :: "u64 \<Rightarrow> string \<Rightarrow> u64 option" where
  "upload_chunk_end committed_offset chunk =
     Option.bind (checked_add_u64 committed_offset (of_nat (length chunk))) (\<lambda>chunk_end. checked_sub_u64 chunk_end 1)"

text \<open>One iteration up to the decision on its progress: a chunk, and recovery if it fails.\<close>

definition upload_progress ::
  "('u, 'w) drive_env \<Rightarrow> 'u drive_store \<Rightarrow> 'u upload_session \<Rightarrow> string \<Rightarrow> string \<Rightarrow> u64 \<Rightarrow> nat \<Rightarrow> 'w
     \<Rightarrow> (drive_resumable_upload_progress storage_result \<times> nat) \<times> 'w" where
  "upload_progress E store session source file committed_offset recovery_attempts w =
     (let total_size = obj_size (us_object session) in
      case read_drive_upload_chunk (gs_provider store) source file committed_offset total_size of
        Inl err \<Rightarrow> ((Inl err, recovery_attempts), w)
      | Inr chunk \<Rightarrow>
          let chunk_end = upload_chunk_end committed_offset chunk in
          case authorization_header_value E (gs_token store) (gs_provider store) of
            Inl err \<Rightarrow> ((Inl err, recovery_attempts), w)
          | Inr authorization \<Rightarrow>
              (case session_put E store session authorization
                  ((''content-type'', GOOGLE_DRIVE_OBJECT_CONTENT_TYPE)
                    # chunk_range_headers committed_offset chunk_end total_size)
                  (StreamRequest chunk) (case chunk_end of None \<Rightarrow> 0 | Some last_byte \<Rightarrow> last_byte + 1) w of
                 (Inr progress, w') \<Rightarrow> ((Inr progress, recovery_attempts), w')
               | (Inl err, w') \<Rightarrow>
                   if is_retryable_storage_error err
                   then recover_drive_resumable_upload E store session recovery_attempts err w'
                   else ((Inl err, recovery_attempts), w')))"

lemma upload_progress_attempts:
  "upload_progress E store session source file committed attempts w = ((r, attempts'), w') \<Longrightarrow> attempts \<le> attempts'"
  by (auto simp: upload_progress_def Let_def dest: recover_counts_attempts split: sum.splits prod.splits if_splits)

function upload_loop ::
  "('u, 'w) drive_env \<Rightarrow> 'u drive_store \<Rightarrow> 'u upload_session \<Rightarrow> string \<Rightarrow> string \<Rightarrow> u64 \<Rightarrow> nat \<Rightarrow> 'w
     \<Rightarrow> stored_object storage_result \<times> 'w" where
  "upload_loop E store session source file committed_offset recovery_attempts w =
     (case upload_progress E store session source file committed_offset recovery_attempts w of
        ((Inl err, attempts), w') \<Rightarrow> (Inl err, w')
      | ((Inr (UploadComplete stored), attempts), w') \<Rightarrow> (Inr stored, w')
      | ((Inr (UploadIncomplete next_offset), attempts), w') \<Rightarrow>
          if next_offset < committed_offset
          then (Inl (drive_resumable_upload_protocol_error (gs_provider store)
                  ''Google Drive resumable upload moved its committed offset backwards''), w')
          else if committed_offset < next_offset
          then upload_loop E store session source file next_offset 0 w'
          else if GOOGLE_DRIVE_RESUMABLE_UPLOAD_MAX_RECOVERY_ATTEMPTS \<le> attempts
          then (Inl (StRetryable (gs_provider store) ''Google Drive resumable upload made no committed progress''), w')
          else upload_loop E store session source file committed_offset (Suc attempts)
                 (sleep_drive_upload_backoff E store attempts w'))"
  by pat_completeness auto
termination
proof (relation "measures [\<lambda>(_, _, _, _, _, committed, _, _). 2 ^ 64 - unat committed,
    \<lambda>(_, _, _, _, _, _, attempts, _). GOOGLE_DRIVE_RESUMABLE_UPLOAD_MAX_RECOVERY_ATTEMPTS - attempts]", goal_cases)
  case 1
  show ?case by simp
next
  case (2 E store session source content committed attempts w)
  then show ?case
    using unat_u64_bound [of committed] by (auto simp: word_less_nat_alt)
next
  case (3 E store session source content committed attempts w)
  then show ?case
    by (auto dest: upload_progress_attempts [OF sym])
qed

declare upload_loop.simps [simp del]

section \<open>Uploading an object\<close>

definition upload_parent_folder_id ::
  "('u, 'w) drive_env \<Rightarrow> 'u drive_store \<Rightarrow> google_drive_object_key \<Rightarrow> ('w, string) drive_run" where
  "upload_parent_folder_id E store key =
     bind_run (lookup_shard_folder_ids E store key) (\<lambda>folder_ids. case folder_ids of
         folder_id # _ \<Rightarrow> run_call (ret_sr folder_id)
       | [] \<Rightarrow> run_call
           (bind_sr (metadata_call E (gs_provider store) (gs_token store) HttpPost
               (drive_file_create_url (de_url E) (gs_api_base_url store))
               [(''accept'', ''application/json''), (''content-type'', ''application/json'')] []
               (JsonRequest (drive_shard_folder_metadata (gs_root store) key)))
             (\<lambda>(status, body). lift_sr
                (if \<not> is_success status
                 then Inl (parse_drive_upload_error E (gs_provider store) (gs_token store) (ok_object key)
                        Initiate status body)
                 else parse_drive_shard_folder_create_success E (gs_storage store) key status body))))"

definition initiate_upload ::
  "('u, 'w) drive_env \<Rightarrow> 'u drive_store \<Rightarrow> lfs_object \<Rightarrow> google_drive_object_key \<Rightarrow> string \<Rightarrow> ('w, 'u) drive_call" where
  "initiate_upload E store object key parent_folder_id =
     bind_sr (drive_call_url E (gs_provider store) (gs_token store) HttpPost
         (drive_resumable_upload_url (de_url E) (gs_api_base_url store))
         [(''accept'', ''application/json''), (''content-type'', ''application/json'')]
         [(''x-upload-content-type'', GOOGLE_DRIVE_OBJECT_CONTENT_TYPE),
          (''x-upload-content-length'', nat_dec (unat (obj_size object)))]
         (JsonRequest (drive_upload_metadata (de_sha E) parent_folder_id key)))
       (\<lambda>response. lift_sr
          (if is_success (ds_status response)
           then (case response_header ''location'' response of
               Some session_url \<Rightarrow>
                 if list_all visible_ascii session_url \<and> trim session_url \<noteq> []
                 then validate_drive_resumable_upload_session_url (de_url E) (gs_provider store)
                        (gs_api_base_url store) session_url
                 else Inl (StUpstream (gs_provider store) (Some (ds_status response))
                        ''Google Drive resumable upload response did not include Location'')
             | None \<Rightarrow> Inl (StUpstream (gs_provider store) (Some (ds_status response))
                 ''Google Drive resumable upload response did not include Location''))
           else bind_res (map_err (drive_transport_error (gs_provider store) (gs_token store))
                  (read_google_response_body E response))
             (\<lambda>body. Inl (parse_drive_upload_error E (gs_provider store) (gs_token store) object
                Initiate (ds_status response) body))))"

definition upload_verified_object ::
  "('u, 'w) drive_env \<Rightarrow> 'u drive_store \<Rightarrow> lfs_object \<Rightarrow> string \<Rightarrow> string \<Rightarrow> ('w, stored_object) drive_run" where
  "upload_verified_object E store object source verified_file =
     bind_run (run_call (lift_sr (object_key store object))) (\<lambda>key.
     bind_run (upload_parent_folder_id E store key) (\<lambda>parent_folder_id.
     bind_run (run_call (initiate_upload E store object key parent_folder_id)) (\<lambda>session_url.
       run_call (upload_loop E store
         \<lparr>us_object = object, us_key = key, us_expected_properties = expected_app_properties (de_sha E) key,
          us_url = session_url\<rparr> source verified_file 0 0))))"

definition drive_upload_object ::
  "('u, 'w) drive_env \<Rightarrow> 'u drive_store \<Rightarrow> lfs_object \<Rightarrow> string \<Rightarrow> string + string \<Rightarrow> ('w, stored_object) drive_run" where
  "drive_upload_object E store object source file =
     bind_run (run_call (lift_sr (open_verified_staged_upload_file (de_sha E) (gs_provider store) object source file)))
       (\<lambda>verified_file. upload_verified_object E store object source verified_file)"

definition upload_verified_object_idempotent ::
  "('u, 'w) drive_env \<Rightarrow> 'u drive_store \<Rightarrow> lfs_object \<Rightarrow> string \<Rightarrow> string \<Rightarrow> ('w, stored_object) drive_run" where
  "upload_verified_object_idempotent E store object source verified_file =
     bind_run (drive_lookup_object E store object) (\<lambda>found. case found of
         Some stored \<Rightarrow> run_call (ret_sr stored)
       | None \<Rightarrow> upload_verified_object E store object source verified_file)"

definition upload_object_idempotent ::
  "('u, 'w) drive_env \<Rightarrow> 'u drive_store \<Rightarrow> lfs_object \<Rightarrow> string \<Rightarrow> string + string \<Rightarrow> ('w, stored_object) drive_run" where
  "upload_object_idempotent E store object source file =
     bind_run (run_call (lift_sr (open_verified_staged_upload_file (de_sha E) (gs_provider store) object source file)))
       (\<lambda>verified_file. upload_verified_object_idempotent E store object source verified_file)"

section \<open>Downloading an object\<close>

text \<open>
  The media request with its checks of status and \<open>Content-Length\<close>, as both downloads make it.
\<close>

definition media_download ::
  "('u, 'w) drive_env \<Rightarrow> 'u drive_store \<Rightarrow> lfs_object \<Rightarrow> string \<Rightarrow> ('w, drive_response) drive_call" where
  "media_download E store object backend_id =
     bind_sr (drive_call_url E (gs_provider store) (gs_token store) HttpGet
         (drive_media_download_url (de_url E) (gs_api_base_url store) backend_id)
         [(''accept'', GOOGLE_DRIVE_OBJECT_CONTENT_TYPE)] [(''accept-encoding'', ''identity'')] EmptyRequest)
       (\<lambda>response. lift_sr
          (if \<not> is_success (ds_status response)
           then bind_res (map_err (drive_transport_error (gs_provider store) (gs_token store))
                  (read_google_response_body E response))
             (\<lambda>body. Inl (parse_drive_download_error E (gs_provider store) (gs_token store) object
                (ds_status response) body))
           else case ds_content_length response of
               None \<Rightarrow> Inl (drive_upstream_error (gs_provider store)
                   ''Google Drive download response omitted Content-Length'')
             | Some actual_size \<Rightarrow>
                 if actual_size \<noteq> obj_size object
                 then Inl (drive_upstream_error (gs_provider store)
                        (''Google Drive download response Content-Length '' @ nat_dec (unat actual_size)
                         @ '' did not match requested size '' @ nat_dec (unat (obj_size object))))
                 else Inr response))"

text \<open>
  The stream given to the client: the items that polling it yields, an error being the last.
\<close>

fun verified_stream ::
  "(string \<Rightarrow> string) \<Rightarrow> string \<Rightarrow> nat \<Rightarrow> string \<Rightarrow> nat \<Rightarrow> (string + string) list \<Rightarrow> (string + string) list" where
  "verified_stream sha expected_oid expected_size hashed actual_size [] =
     (if actual_size \<noteq> expected_size \<or> sha hashed \<noteq> expected_oid
      then [Inl ''Google Drive download failed LFS integrity verification''] else [])"
| "verified_stream sha expected_oid expected_size hashed actual_size (Inl failure # rest) =
     [Inl ''Google Drive download stream failed'']"
| "verified_stream sha expected_oid expected_size hashed actual_size (Inr chunk # rest) =
     (let actual_size' = min u64_max (actual_size + length chunk) in
      if expected_size < actual_size'
      then [Inl ''Google Drive download exceeded the requested object size'']
      else Inr chunk # verified_stream sha expected_oid expected_size (hashed @ chunk) actual_size' rest)"

record streamed_download =
  sd_stored_object :: stored_object
  sd_headers :: "(string \<times> string) list"
  sd_items :: "(string + string) list"

definition download_object_response_for_stored_object ::
  "('u, 'w) drive_env \<Rightarrow> 'u drive_store \<Rightarrow> lfs_object \<Rightarrow> stored_object \<Rightarrow> ('w, streamed_download) drive_call" where
  "download_object_response_for_stored_object E store object stored =
     bind_sr (lift_sr (ensure_repository_namespace store (so_repository_namespace stored))) (\<lambda>_.
       if so_provider_id stored \<noteq> gs_provider store \<or> so_object stored \<noteq> object
       then lift_sr (Inl (StConflict (gs_provider store) (as_hex (obj_oid object))))
       else bind_sr (media_download E store object (so_backend_id stored)) (\<lambda>response.
         ret_sr \<lparr>sd_stored_object = stored,
           sd_headers = [(''content-type'', GOOGLE_DRIVE_OBJECT_CONTENT_TYPE),
             (''content-length'', nat_dec (unat (obj_size object)))],
           sd_items = verified_stream (de_sha E) (as_hex (obj_oid object)) (unat (obj_size object)) [] 0
             (ds_chunks response)\<rparr>))"

definition lookup_or_missing ::
  "('u, 'w) drive_env \<Rightarrow> 'u drive_store \<Rightarrow> lfs_object \<Rightarrow> ('w, stored_object) drive_run" where
  "lookup_or_missing E store object =
     bind_run (drive_lookup_object E store object) (\<lambda>found. run_call (lift_sr
       (ok_or (StObjectNotFound (gs_provider store) (as_hex (obj_oid object)) (obj_size object)) found)))"

definition drive_download_object_response ::
  "('u, 'w) drive_env \<Rightarrow> 'u drive_store \<Rightarrow> lfs_object \<Rightarrow> ('w, streamed_download) drive_run" where
  "drive_download_object_response E store object =
     bind_run (lookup_or_missing E store object)
       (\<lambda>stored. run_call (download_object_response_for_stored_object E store object stored))"

text \<open>The download to a file: every chunk is written before the digest decides.\<close>

fun collect_chunks :: "string \<Rightarrow> string \<Rightarrow> string \<Rightarrow> (string + string) list \<Rightarrow> string storage_result" where
  "collect_chunks provider token content [] = Inr content"
| "collect_chunks provider token content (Inl failure # rest) = Inl (drive_transport_error provider token failure)"
| "collect_chunks provider token content (Inr chunk # rest) = collect_chunks provider token (content @ chunk) rest"

definition verify_drive_download_response_to_tempfile ::
  "('u, 'w) drive_env \<Rightarrow> 'u drive_store \<Rightarrow> lfs_object \<Rightarrow> drive_response \<Rightarrow> string storage_result" where
  "verify_drive_download_response_to_tempfile E store object response =
     bind_res (collect_chunks (gs_provider store) (gs_token store) [] (ds_chunks response)) (\<lambda>content.
       if de_sha E content \<noteq> as_hex (obj_oid object) \<or> length content \<noteq> unat (obj_size object)
       then Inl (StIntegrityMismatch (as_hex (obj_oid object)) (obj_size object)
              (de_sha E content) (of_nat (length content)))
       else Inr content)"

definition download_object_to_verified_file ::
  "('u, 'w) drive_env \<Rightarrow> 'u drive_store \<Rightarrow> lfs_object \<Rightarrow> ('w, stored_object \<times> string) drive_run" where
  "download_object_to_verified_file E store object =
     bind_run (lookup_or_missing E store object) (\<lambda>stored.
     bind_run (run_call (media_download E store object (so_backend_id stored))) (\<lambda>response.
       run_call (lift_sr (map_res (\<lambda>content. (stored, content))
         (verify_drive_download_response_to_tempfile E store object response)))))"

definition drive_delete_or_mark_object :: "'u drive_store \<Rightarrow> string \<Rightarrow> storage_delete_outcome storage_result" where
  "drive_delete_or_mark_object store repository_namespace =
     map_res (\<lambda>_. DelRetained ''Google Drive object deletion is not implemented'')
       (ensure_repository_namespace store repository_namespace)"

end
