(* ===== verification/Drive_Lookup.thy ===== *)
theory Drive_Lookup
  imports Drive_Transfer
begin

text \<open>
  Correctness of the lookup of objects in Google Drive: which reported files are accepted, which
  of them is chosen, and when the page loops return.
\<close>

section \<open>Accepted files\<close>

text \<open>The identity that a file of the key carries.\<close>

definition carries_identity ::
  "(string \<Rightarrow> string) \<Rightarrow> google_drive_object_key \<Rightarrow> drive_file \<Rightarrow> bool" where
  "carries_identity sha key file \<longleftrightarrow>
     df_name file = Some (drive_file_name key) \<and> \<not> df_trashed file
     \<and> (\<forall>(property, value) \<in> set (property_pairs (expected_app_properties sha key)).
          map_of (df_app_properties file) property = Some value)
     \<and> (\<exists>printed. df_size file = Some printed \<and> parse_u64 printed = Inr (obj_size (ok_object key)))"

definition stored_of :: "google_drive_storage_config \<Rightarrow> google_drive_object_key \<Rightarrow> string \<Rightarrow> stored_object" where
  "stored_of storage key file_id =
     \<lparr>so_provider_id = gd_id storage, so_repository_namespace = ok_repo_namespace key,
      so_object = ok_object key, so_backend_id = file_id\<rparr>"

lemma stored_of_simps [simp]:
  "so_provider_id (stored_of storage key i) = gd_id storage"
  "so_repository_namespace (stored_of storage key i) = ok_repo_namespace key"
  "so_object (stored_of storage key i) = ok_object key"
  "so_backend_id (stored_of storage key i) = i"
  by (simp_all add: stored_of_def)

lemma reported_id_Inr [simp]:
  "reported_id provider status message f = Inr i \<longleftrightarrow> df_id f = Some i \<and> trim i \<noteq> []"
  by (auto simp: reported_id_def split: option.splits)

lemma verify_drive_object_file_Inr:
  "verify_drive_object_file storage key (expected_app_properties sha key) status f = Inr stored \<longleftrightarrow>
     (\<exists>i. df_id f = Some i \<and> trim i \<noteq> [] \<and> stored = stored_of storage key i) \<and> carries_identity sha key f"
proof (cases "df_size f")
  case None
  then show ?thesis
    by (auto simp: verify_drive_object_file_def carries_identity_def)
next
  case (Some printed)
  then show ?thesis
    by (cases "parse_u64 printed")
       (auto simp: verify_drive_object_file_def carries_identity_def stored_of_def list_ex_iff split_beta)
qed

lemma verify_drive_shard_folder_Inr:
  "verify_drive_shard_folder storage key status f = Inr i \<longleftrightarrow>
     df_id f = Some i \<and> trim i \<noteq> [] \<and> df_name f = Some (shard_folder_name key)
     \<and> df_mime_type f = Some GOOGLE_DRIVE_FOLDER_MIME_TYPE \<and> \<not> df_trashed f
     \<and> gd_root_folder_id storage \<in> set (df_parents f)
     \<and> map_of (df_app_properties f) GOOGLE_DRIVE_SHARD_KIND_PROPERTY = Some GOOGLE_DRIVE_SHARD_KIND
     \<and> map_of (df_app_properties f) GOOGLE_DRIVE_SHARD_PREFIX_PROPERTY = Some (shard_prefix key)"
  by (auto simp: verify_drive_shard_folder_def)

lemma carries_identity_oid:
  assumes "carries_identity sha key f" "carries_identity sha key' f"
  shows "as_hex (obj_oid (ok_object key)) = as_hex (obj_oid (ok_object key'))"
    "obj_size (ok_object key) = obj_size (ok_object key')"
    "ns_value (repo_namespace_property_new sha (ok_repo_namespace key))
       = ns_value (repo_namespace_property_new sha (ok_repo_namespace key'))"
  using assms by (auto simp: carries_identity_def property_pairs_def expected_app_properties_def drive_property_names)

section \<open>Sequences of calls\<close>

lemma run_call_Some [simp]: "run_call m w = Some x \<longleftrightarrow> m w = x"
  by (simp add: run_call_def)

lemma bind_run_Inr:
  "bind_run m f w = Some (Inr y, w') \<longleftrightarrow> (\<exists>x w1. m w = Some (Inr x, w1) \<and> f x w1 = Some (Inr y, w'))"
  by (auto simp: bind_run_def split: option.splits sum.splits)

definition returns :: "('w, 'a) drive_run \<Rightarrow> bool" where
  "returns m \<longleftrightarrow> (\<forall>w. m w \<noteq> None)"

lemma returns_call [intro, simp]: "returns (run_call m)"
  by (simp add: returns_def run_call_def)

lemma returns_bind [intro]: "returns m \<Longrightarrow> (\<And>x. returns (f x)) \<Longrightarrow> returns (bind_run m f)"
  by (fastforce simp: returns_def bind_run_def split: option.splits sum.splits)

section \<open>Page loops\<close>

definition pages_satisfy ::
  "('p \<Rightarrow> bool) \<Rightarrow> (string option \<Rightarrow> ('w, 'p list \<times> string option) drive_call) \<Rightarrow> bool" where
  "pages_satisfy P fetch \<longleftrightarrow>
     (\<forall>token w page w'. fetch token w = (Inr page, w') \<longrightarrow> (\<forall>x \<in> set (fst page). P x))"

lemma page_loop_satisfies:
  assumes "page_loop fetch repeated found page_token seen w = Some r" "pages_satisfy P fetch"
    and "\<forall>x \<in> set found. P x" "fst r = Inr items"
  shows "\<forall>x \<in> set items. P x"
proof -
  let ?ok = "\<lambda>fetch repeated found page_token seen w r.
    pages_satisfy P fetch \<longrightarrow> (\<forall>x \<in> set found. P x) \<longrightarrow> (\<forall>items. fst r = Inr items \<longrightarrow> (\<forall>x \<in> set items. P x))"
  have "?ok fetch repeated found page_token seen w r"
  proof (rule page_loop.raw_induct [where P = ?ok, OF _ assms(1)])
    fix loop fetch repeated found page_token seen w r
    assume IH: "\<And>fetch repeated found page_token seen w r.
        loop fetch repeated found page_token seen w = Some r \<Longrightarrow> ?ok fetch repeated found page_token seen w r"
      and run: "(case fetch page_token w of (r, w') \<Rightarrow> (case r of
          Inl err \<Rightarrow> Some (Inl err, w')
        | Inr page \<Rightarrow> (case snd page of
              None \<Rightarrow> Some (Inr (found @ fst page), w')
            | Some next_page_token \<Rightarrow>
                if next_page_token \<in> seen then Some (Inl repeated, w')
                else loop fetch repeated (found @ fst page) (Some next_page_token)
                       (insert next_page_token seen) w'))) = Some r"
    show "?ok fetch repeated found page_token seen w r"
    proof (intro impI)
      assume pages: "pages_satisfy P fetch" and found: "\<forall>x \<in> set found. P x"
      obtain p w' where fetched: "fetch page_token w = (p, w')" by fastforce
      show "\<forall>items. fst r = Inr items \<longrightarrow> (\<forall>x \<in> set items. P x)"
      proof (cases p)
        case (Inl err)
        then show ?thesis using run fetched by auto
      next
        case (Inr page)
        have more: "\<forall>x \<in> set (found @ fst page). P x"
          using pages found fetched Inr unfolding pages_satisfy_def by (metis Un_iff set_append)
        then show ?thesis
          using run fetched Inr pages IH [of fetch repeated "found @ fst page"]
          by (auto split: option.splits if_splits)
      qed
    qed
  qed
  then show ?thesis using assms by blast
qed

definition tokens_from ::
  "string set \<Rightarrow> (string option \<Rightarrow> ('w, 'p list \<times> string option) drive_call) \<Rightarrow> bool" where
  "tokens_from T fetch \<longleftrightarrow> (\<forall>token w page t w'. fetch token w = (Inr (page, Some t), w') \<longrightarrow> t \<in> T)"

lemma page_loop_returns:
  assumes "finite T" "tokens_from T fetch"
  shows "\<exists>r. page_loop fetch repeated found page_token seen w = Some r"
proof (induction "card (T - seen)" arbitrary: found page_token seen w rule: less_induct)
  case less
  obtain p w' where fetched: "fetch page_token w = (p, w')" by fastforce
  show ?case
  proof (cases "\<exists>page t. p = Inr (page, Some t) \<and> t \<notin> seen")
    case True
    then obtain page t where p: "p = Inr (page, Some t)" "t \<notin> seen" by blast
    then have "t \<in> T - seen" using assms(2) fetched unfolding tokens_from_def by blast
    then have "card (T - insert t seen) < card (T - seen)"
      using assms(1) by (intro psubset_card_mono) auto
    then obtain r where "page_loop fetch repeated (found @ page) (Some t) (insert t seen) w' = Some r"
      using less by blast
    then show ?thesis using fetched p by (subst page_loop.simps) simp
  next
    case False
    then show ?thesis
      using fetched by (subst page_loop.simps) (auto split: sum.splits option.splits)
  qed
qed

section \<open>The lookups return\<close>

text \<open>The page tokens that the service can hand out: those of the bodies that decode to a page.\<close>

definition page_tokens :: "('u, 'w) drive_env \<Rightarrow> string set" where
  "page_tokens E = {t. \<exists>body response. de_json_file_list E body = Some response
     \<and> dl_next_page_token response = Some t}"

lemma validated_drive_page_token_Inr:
  "validated_drive_page_token provider status token operation = Inr t \<longleftrightarrow>
     t = token \<and> (\<forall>s. token = Some s \<longrightarrow> trim s \<noteq> [])"
  by (auto simp: validated_drive_page_token_def split: option.splits)

lemma objects_page_Inr:
  assumes "objects_page E store parent key props token w = (Inr (found, next_token), w')"
  obtains body response status where "de_json_file_list E body = Some response"
    "dl_next_page_token response = next_token" "\<not> dl_incomplete_search response"
    "traverse_res (verify_drive_object_file (gs_storage store) key props status) (dl_files response) = Inr found"
  using assms that
  by (auto simp: objects_page_def bind_sr_Inr parse_drive_object_lookup_success_def validated_drive_page_token_Inr
      split: if_splits option.splits)

lemma shard_folders_page_Inr:
  assumes "shard_folders_page E store key token w = (Inr (found, next_token), w')"
  obtains body response status where "de_json_file_list E body = Some response"
    "dl_next_page_token response = next_token" "\<not> dl_incomplete_search response"
    "traverse_res (verify_drive_shard_folder (gs_storage store) key status) (dl_files response) = Inr found"
  using assms that
  by (auto simp: shard_folders_page_def bind_sr_Inr parse_drive_shard_folder_lookup_success_def
      validated_drive_page_token_Inr split: if_splits option.splits)

lemma objects_page_tokens: "tokens_from (page_tokens E) (objects_page E store parent key props)"
  unfolding tokens_from_def page_tokens_def by (auto elim!: objects_page_Inr)

lemma shard_folders_page_tokens: "tokens_from (page_tokens E) (shard_folders_page E store key)"
  unfolding tokens_from_def page_tokens_def by (auto elim!: shard_folders_page_Inr)

lemma lookup_objects_in_parent_returns:
  "finite (page_tokens E) \<Longrightarrow> returns (lookup_objects_in_parent E store parent key props)"
  unfolding returns_def lookup_objects_in_parent_def
  using page_loop_returns [OF _ objects_page_tokens] by fastforce

lemma lookup_shard_folder_ids_returns:
  assumes "finite (page_tokens E)"
  shows "returns (lookup_shard_folder_ids E store key)"
  unfolding lookup_shard_folder_ids_def
proof (rule returns_bind)
  show "returns (page_loop (shard_folders_page E store key)
      (StRetryable (gs_provider store) ''Google Drive shard-folder lookup repeated a page token'') [] None {})"
    unfolding returns_def using page_loop_returns [OF assms shard_folders_page_tokens] by fastforce
qed simp

lemma lookup_in_parents_returns:
  "finite (page_tokens E) \<Longrightarrow> returns (lookup_in_parents E store key props parents found)"
  by (induction parents arbitrary: found) (auto simp: lookup_objects_in_parent_returns)

lemmas lookup_returns = lookup_objects_in_parent_returns lookup_shard_folder_ids_returns lookup_in_parents_returns

lemma drive_lookup_object_returns:
  "finite (page_tokens E) \<Longrightarrow> returns (drive_lookup_object E store object)"
  unfolding drive_lookup_object_def Let_def by (intro returns_bind returns_call lookup_returns)

lemma upload_parent_folder_id_returns:
  "finite (page_tokens E) \<Longrightarrow> returns (upload_parent_folder_id E store key)"
  unfolding upload_parent_folder_id_def
  by (rule returns_bind [OF lookup_shard_folder_ids_returns]) (auto split: list.split)

lemma upload_verified_object_returns:
  "finite (page_tokens E) \<Longrightarrow> returns (upload_verified_object E store object source content)"
  unfolding upload_verified_object_def by (intro returns_bind returns_call upload_parent_folder_id_returns)

lemma upload_object_idempotent_returns:
  "finite (page_tokens E) \<Longrightarrow> returns (upload_object_idempotent E store object source content)"
  unfolding upload_object_idempotent_def upload_verified_object_idempotent_def
  by (intro returns_bind returns_call drive_lookup_object_returns)
     (auto split: option.split intro: upload_verified_object_returns)

lemma download_returns:
  assumes "finite (page_tokens E)"
  shows "returns (drive_download_object_response E store object)"
    "returns (download_object_to_verified_file E store object)"
  unfolding drive_download_object_response_def download_object_to_verified_file_def lookup_or_missing_def
  by (intro returns_bind returns_call drive_lookup_object_returns assms)+

section \<open>What a lookup finds\<close>

text \<open>A stored object of the key that the service reported with the identity of the key.\<close>

definition reported_object ::
  "('u, 'w) drive_env \<Rightarrow> google_drive_storage_config \<Rightarrow> google_drive_object_key \<Rightarrow> stored_object \<Rightarrow> bool" where
  "reported_object E storage key stored \<longleftrightarrow>
     stored = stored_of storage key (so_backend_id stored)
     \<and> (\<exists>body response f. de_json_file_list E body = Some response \<and> f \<in> set (dl_files response)
          \<and> df_id f = Some (so_backend_id stored) \<and> carries_identity (de_sha E) key f)"

lemma traverse_res_member:
  assumes "traverse_res f xs = Inr ys" "y \<in> set ys"
  shows "\<exists>x \<in> set xs. f x = Inr y"
  using assms by (induction xs arbitrary: ys) auto

lemma objects_page_reported:
  "pages_satisfy (reported_object E (gs_storage store) key)
     (objects_page E store parent key (expected_app_properties (de_sha E) key))"
  unfolding pages_satisfy_def
proof (intro allI impI ballI)
  fix token w page w' stored
  assume run: "objects_page E store parent key (expected_app_properties (de_sha E) key) token w = (Inr page, w')"
    and member: "stored \<in> set (fst page)"
  obtain body response status where page: "de_json_file_list E body = Some response"
    "traverse_res (verify_drive_object_file (gs_storage store) key (expected_app_properties (de_sha E) key) status)
       (dl_files response) = Inr (fst page)"
    using objects_page_Inr run by (metis prod.collapse)
  obtain f where f: "f \<in> set (dl_files response)"
    "verify_drive_object_file (gs_storage store) key (expected_app_properties (de_sha E) key) status f = Inr stored"
    using traverse_res_member [OF page(2) member] by blast
  then show "reported_object E (gs_storage store) key stored"
    using page(1) unfolding verify_drive_object_file_Inr reported_object_def by fastforce
qed

lemma lookup_objects_in_parent_reported:
  assumes "lookup_objects_in_parent E store parent key (expected_app_properties (de_sha E) key) w = Some (Inr found, w')"
  shows "\<forall>stored \<in> set found. reported_object E (gs_storage store) key stored"
  using page_loop_satisfies [OF assms [unfolded lookup_objects_in_parent_def] objects_page_reported] by simp

lemma lookup_in_parents_reported:
  "lookup_in_parents E store key (expected_app_properties (de_sha E) key) parents found w = Some (Inr all, w') \<Longrightarrow>
     \<forall>stored \<in> set found. reported_object E (gs_storage store) key stored \<Longrightarrow>
     \<forall>stored \<in> set all. reported_object E (gs_storage store) key stored"
proof (induction parents arbitrary: found w)
  case (Cons parent parents)
  then obtain objects w1 where
    step: "lookup_objects_in_parent E store parent key (expected_app_properties (de_sha E) key) w = Some (Inr objects, w1)"
    and rest: "lookup_in_parents E store key (expected_app_properties (de_sha E) key) parents (found @ objects) w1
      = Some (Inr all, w')"
    by (auto simp: bind_run_Inr)
  show ?case
    using Cons.IH [OF rest] Cons.prems(2) lookup_objects_in_parent_reported [OF step] by auto
qed simp

lemma sort_key_head:
  assumes "sort_key f xs = x # rest"
  shows "x \<in> set xs" "\<forall>y \<in> set xs. f x \<le> f y"
proof -
  have set: "set xs = insert x (set rest)" using arg_cong [OF assms, of set] by simp
  then show "x \<in> set xs" by simp
  have "sorted (map f (x # rest))" using sorted_sort_key [of f xs] assms by simp
  then show "\<forall>y \<in> set xs. f x \<le> f y" using set by auto
qed

lemma drive_lookup_object_Inr:
  assumes "drive_lookup_object E store object w = Some (Inr answer, w')"
  obtains key in_root shards found w1 w2 where "object_key store object = Inr key"
    "lookup_objects_in_parent E store (gs_root store) key (expected_app_properties (de_sha E) key) w
       = Some (Inr in_root, w1)"
    "lookup_shard_folder_ids E store key w1 = Some (Inr shards, w2)"
    "lookup_in_parents E store key (expected_app_properties (de_sha E) key) shards in_root w2 = Some (Inr found, w')"
    "answer = (case sort_key so_backend_id found of stored # _ \<Rightarrow> Some stored | [] \<Rightarrow> None)"
proof -
  from assms obtain key w0 where key: "object_key store object = Inr key" "w0 = w"
    and rest: "bind_run (lookup_objects_in_parent E store (gs_root store) key (expected_app_properties (de_sha E) key))
      (\<lambda>in_root. bind_run (lookup_shard_folder_ids E store key) (\<lambda>shard_folder_ids.
        bind_run (lookup_in_parents E store key (expected_app_properties (de_sha E) key) shard_folder_ids in_root)
          (\<lambda>stored_objects. run_call (ret_sr (case sort_key so_backend_id stored_objects of
             stored # _ \<Rightarrow> Some stored | [] \<Rightarrow> None))))) w0 = Some (Inr answer, w')"
    unfolding drive_lookup_object_def Let_def bind_run_Inr [of _ _ w] run_call_Some lift_sr_simp by blast
  obtain in_root w1 shards w2 found w3 where run:
    "lookup_objects_in_parent E store (gs_root store) key (expected_app_properties (de_sha E) key) w0
       = Some (Inr in_root, w1)"
    "lookup_shard_folder_ids E store key w1 = Some (Inr shards, w2)"
    "lookup_in_parents E store key (expected_app_properties (de_sha E) key) shards in_root w2 = Some (Inr found, w3)"
    "(Inr (case sort_key so_backend_id found of stored # _ \<Rightarrow> Some stored | [] \<Rightarrow> None), w3) = (Inr answer, w')"
    using rest unfolding bind_run_Inr run_call_Some ret_sr_simp by blast
  then show thesis using that [OF key(1)] key(2) by simp
qed


section \<open>Uploaded files carry their identity\<close>

text \<open>The file that the service makes of the upload metadata once it holds the object.\<close>

definition uploaded_file :: "(string \<Rightarrow> string) \<Rightarrow> string \<Rightarrow> google_drive_object_key \<Rightarrow> string \<Rightarrow> drive_file" where
  "uploaded_file sha parent key file_id =
     (let metadata = drive_upload_metadata sha parent key in
      \<lparr>df_id = Some file_id, df_name = Some (dm_name metadata), df_mime_type = dm_mime_type metadata,
       df_size = Some (nat_dec (unat (obj_size (ok_object key)))), df_parents = dm_parents metadata,
       df_trashed = False, df_app_properties = dm_app_properties metadata\<rparr>)"

lemma bt_ok_foldl_insert: "bt_ok m \<Longrightarrow> bt_ok (foldl (\<lambda>m (k, v). bt_insert k v m) m pairs)"
  by (induction pairs arbitrary: m) auto

lemma map_of_foldl_insert:
  "bt_ok m \<Longrightarrow> distinct (map fst pairs) \<Longrightarrow> (k, v) \<in> set pairs \<Longrightarrow>
     map_of (foldl (\<lambda>m (k, v). bt_insert k v m) m pairs) k = Some v"
proof (induction pairs arbitrary: m)
  case (Cons pair pairs)
  have absent: "map_of (foldl (\<lambda>m (k, v). bt_insert k v m) m' pairs) j = map_of m' j"
    if "bt_ok m'" "j \<notin> fst ` set pairs" for m' j
    using that by (induction pairs arbitrary: m') (auto simp: bt_ok_insert)
  show ?case using Cons absent by (cases pair) (auto simp: bt_ok_insert)
qed simp

lemma property_pairs_distinct: "distinct (map fst (property_pairs p))"
  by (cases "op_repo_namespace p") (simp_all add: property_pairs_def drive_property_names)

lemma uploaded_file_carries_identity: "carries_identity sha key (uploaded_file sha parent key i)"
  using map_of_foldl_insert [OF bt_ok_Nil property_pairs_distinct]
  by (auto simp: carries_identity_def uploaded_file_def drive_upload_metadata_def Let_def)

lemma map_of_foldl_insert_absent:
  "bt_ok m \<Longrightarrow> k \<notin> fst ` set pairs \<Longrightarrow> map_of (foldl (\<lambda>m (k, v). bt_insert k v m) m pairs) k = map_of m k"
  by (induction pairs arbitrary: m) (auto simp: bt_ok_insert)

lemma uploaded_file_properties:
  "map_of (df_app_properties (uploaded_file sha parent key i)) name = Some v \<longleftrightarrow>
     (name, v) \<in> set (property_pairs (expected_app_properties sha key))"
proof (cases "name \<in> fst ` set (property_pairs (expected_app_properties sha key))")
  case True
  then obtain u where u: "(name, u) \<in> set (property_pairs (expected_app_properties sha key))" by auto
  then have "v = u" if "(name, v) \<in> set (property_pairs (expected_app_properties sha key))"
    using that property_pairs_distinct [of "expected_app_properties sha key"] by (metis eq_key_imp_eq_value)
  then show ?thesis
    using map_of_foldl_insert [OF bt_ok_Nil property_pairs_distinct u] u
    by (auto simp: uploaded_file_def drive_upload_metadata_def Let_def)
next
  case False
  then show ?thesis
    using map_of_foldl_insert_absent [OF bt_ok_Nil, of name "property_pairs (expected_app_properties sha key)"]
    by (force simp: uploaded_file_def drive_upload_metadata_def Let_def)
qed

lemma nat_dec_unat_inject: "nat_dec (unat (a :: u64)) = nat_dec (unat b) \<longleftrightarrow> a = b"
  by (metis parse_u64_nat_dec Inr_inject)

lemma property_pairs_subset:
  "set (property_pairs (expected_app_properties sha key')) \<subseteq> set (property_pairs (expected_app_properties sha key)) \<longleftrightarrow>
     ok_object key = ok_object key'
     \<and> ns_value (repo_namespace_property_new sha (ok_repo_namespace key))
         = ns_value (repo_namespace_property_new sha (ok_repo_namespace key'))
     \<and> (ns_format (repo_namespace_property_new sha (ok_repo_namespace key')) = None
        \<or> ns_format (repo_namespace_property_new sha (ok_repo_namespace key)) \<noteq> None)"
proof -
  have "ok_object key = ok_object key' \<longleftrightarrow> as_hex (obj_oid (ok_object key)) = as_hex (obj_oid (ok_object key'))
      \<and> nat_dec (unat (obj_size (ok_object key))) = nat_dec (unat (obj_size (ok_object key')))"
    unfolding nat_dec_unat_inject
    by (cases "ok_object key"; cases "ok_object key'") (auto simp: lfs_oid.expand)
  then show ?thesis
    by (cases "repo_namespace_property_new sha (ok_repo_namespace key)";
        cases "repo_namespace_property_new sha (ok_repo_namespace key')")
       (auto simp: property_pairs_def expected_app_properties_def drive_property_names)
qed



lemma short_namespace_raw:
  "length ns \<le> 103 \<Longrightarrow> repo_namespace_property_new sha ns = NsRaw ns"
  "103 < length ns \<Longrightarrow> repo_namespace_property_new sha ns = NsSha256 (sha ns)"
  by (simp_all add: repo_namespace_property_new_def GOOGLE_DRIVE_REPO_NAMESPACE_PROPERTY_def
      MAX_GOOGLE_DRIVE_CUSTOM_PROPERTY_BYTES_def)

text \<open>
  The digest format does not isolate a namespace that spells a digest. A file uploaded for a
  namespace too long for its property, which the store tags with its SHA-256 and a format, is
  accepted by the store of the other repository whose namespace is that very hex digest, because
  the format property is never required to be absent.
\<close>

theorem raw_namespace_aliases_digest:
  assumes "103 < length ns" "length (sha ns) \<le> 103" "trim i \<noteq> []"
  shows "verify_drive_object_file storage \<lparr>ok_repo_namespace = sha ns, ok_object = object\<rparr>
       (expected_app_properties sha \<lparr>ok_repo_namespace = sha ns, ok_object = object\<rparr>) status
       (uploaded_file sha parent \<lparr>ok_repo_namespace = ns, ok_object = object\<rparr> i)
     = Inr (stored_of storage \<lparr>ok_repo_namespace = sha ns, ok_object = object\<rparr> i)"
proof -
  have "carries_identity sha \<lparr>ok_repo_namespace = sha ns, ok_object = object\<rparr>
      (uploaded_file sha parent \<lparr>ok_repo_namespace = ns, ok_object = object\<rparr> i)"
    using assms uploaded_file_carries_identity [of sha "\<lparr>ok_repo_namespace = ns, ok_object = object\<rparr>" parent i]
    by (auto simp: carries_identity_def property_pairs_def expected_app_properties_def drive_file_name_def
        short_namespace_raw)
  then show ?thesis
    unfolding verify_drive_object_file_Inr using assms(3)
    by (simp add: uploaded_file_def Let_def)
qed

lemma raw_namespace_aliases_digest_witness:
  "verify_drive_object_file \<lparr>gd_id = ''d'', gd_credentials = \<lparr>gc_config_dir = [], gc_executable = []\<rparr>,
       gd_root_folder_id = ''r'', gd_display_name = None\<rparr>
     \<lparr>ok_repo_namespace = ''0'', ok_object = LfsObject (LfsOid ''0'') 1\<rparr>
     (expected_app_properties (\<lambda>_. ''0'') \<lparr>ok_repo_namespace = ''0'', ok_object = LfsObject (LfsOid ''0'') 1\<rparr>) 200
     (uploaded_file (\<lambda>_. ''0'') ''p'' \<lparr>ok_repo_namespace = replicate 104 CHR ''n'', ok_object = LfsObject (LfsOid ''0'') 1\<rparr> ''i'')
   = Inr (stored_of \<lparr>gd_id = ''d'', gd_credentials = \<lparr>gc_config_dir = [], gc_executable = []\<rparr>,
       gd_root_folder_id = ''r'', gd_display_name = None\<rparr>
       \<lparr>ok_repo_namespace = ''0'', ok_object = LfsObject (LfsOid ''0'') 1\<rparr> ''i'')"
proof -
  have "trim ''i'' \<noteq> []" by code_simp
  then show ?thesis
    using raw_namespace_aliases_digest [of "replicate 104 CHR ''n''" "\<lambda>_. ''0''" "''i''"] by simp
qed


end
