(* ===== verification/Drive_Integrity.thy ===== *)
theory Drive_Integrity
  imports Drive_Lookup
begin

text \<open>
  Integrity of transfers with Google Drive, whatever the service answers: what a streamed
  download delivers, and which bytes an upload sends to which URL.
\<close>

section \<open>Streamed downloads\<close>

definition delivered :: "(string + string) list \<Rightarrow> string" where
  "delivered items = concat (List.map_filter (\<lambda>item. case item of Inr chunk \<Rightarrow> Some chunk | Inl _ \<Rightarrow> None) items)"

lemma delivered_simps [simp]:
  "delivered [] = []" "delivered (Inl e # items) = delivered items"
  "delivered (Inr c # items) = c @ delivered items"
  by (simp_all add: delivered_def List.map_filter_simps)

lemma delivered_map_Inr [simp]: "delivered (map Inr cs) = concat cs"
  by (induction cs) auto

lemma verified_stream_bounded:
  "expected < u64_max \<Longrightarrow> length hashed \<le> expected \<Longrightarrow>
     length hashed + length (delivered (verified_stream sha oid expected hashed (length hashed) items)) \<le> expected"
proof (induction items arbitrary: hashed)
  case (Cons item items)
  show ?case
  proof (cases item)
    case (Inr chunk)
    show ?thesis
      using Cons.IH [of "hashed @ chunk"] Cons.prems Inr by (auto simp: Let_def min_def)
  qed (use Cons.prems in simp)
qed simp

lemma verified_stream_complete:
  "expected < u64_max \<Longrightarrow> length hashed \<le> expected \<Longrightarrow>
     (\<forall>item \<in> set (verified_stream sha oid expected hashed (length hashed) items). \<not> isl item) \<longleftrightarrow>
     (\<exists>cs. items = map Inr cs \<and> length (hashed @ concat cs) = expected \<and> sha (hashed @ concat cs) = oid)"
proof (induction items arbitrary: hashed)
  case (Cons item items)
  show ?case
  proof (cases item)
    case (Inl e)
    then show ?thesis by (auto simp: map_eq_Cons_conv)
  next
    case (Inr chunk)
    show ?thesis
    proof (cases "expected < length (hashed @ chunk)")
      case True
      then show ?thesis using Cons.prems Inr by (auto simp: Let_def min_def Cons_eq_map_conv)
    next
      case False
      have "min u64_max (length hashed + length chunk) = length (hashed @ chunk)"
        using Cons.prems False by (simp add: min_def)
      then have "verified_stream sha oid expected hashed (length hashed) (item # items)
          = Inr chunk # verified_stream sha oid expected (hashed @ chunk) (length (hashed @ chunk)) items"
        using False Inr by (simp add: Let_def)
      then show ?thesis
        using Cons.IH [of "hashed @ chunk"] Cons.prems False Inr
        by (auto simp: Cons_eq_map_conv)
    qed
  qed
qed auto

lemma verified_stream_faithful:
  "expected < u64_max \<Longrightarrow> length (hashed @ concat cs) = expected \<Longrightarrow> sha (hashed @ concat cs) = oid \<Longrightarrow>
     verified_stream sha oid expected hashed (length hashed) (map Inr cs) = map Inr cs"
proof (induction cs arbitrary: hashed)
  case (Cons c cs)
  have "min u64_max (length hashed + length c) = length (hashed @ c)" "\<not> expected < length (hashed @ c)"
    using Cons.prems by (auto simp: min_def)
  then show ?case using Cons.IH [of "hashed @ c"] Cons.prems by (simp add: Let_def)
qed simp

lemma download_response_Inr:
  "download_object_response_for_stored_object E store object stored w = (Inr sd, w') \<longleftrightarrow>
     so_repository_namespace stored = gs_repo_namespace store \<and> so_provider_id stored = gs_provider store
     \<and> so_object stored = object
     \<and> (\<exists>response. media_download E store object (so_backend_id stored) w = (Inr response, w')
          \<and> sd = \<lparr>sd_stored_object = stored,
              sd_headers = [(''content-type'', GOOGLE_DRIVE_OBJECT_CONTENT_TYPE),
                (''content-length'', nat_dec (unat (obj_size object)))],
              sd_items = verified_stream (de_sha E) (as_hex (obj_oid object)) (unat (obj_size object)) [] 0
                (ds_chunks response)\<rparr>)"
  by (auto simp: download_object_response_for_stored_object_def bind_sr_Inr ensure_repository_namespace_def)

text \<open>
  C13: What a client receives of a streamed download. The stream never delivers more bytes than
  the requested size; if it ends without an error, the delivered bytes have the requested SHA-256
  and size; and when the service sends exactly the bytes of the object, every one of its chunks is
  delivered. The size is below the largest 64-bit number, where the running total saturates.
\<close>

theorem streamed_download_is_verified:
  assumes "download_object_response_for_stored_object E store object stored w = (Inr sd, w')"
    and "unat (obj_size object) < u64_max"
  shows "length (delivered (sd_items sd)) \<le> unat (obj_size object)
     \<and> ((\<forall>item \<in> set (sd_items sd). \<not> isl item) \<longrightarrow>
          de_sha E (delivered (sd_items sd)) = as_hex (obj_oid object)
          \<and> length (delivered (sd_items sd)) = unat (obj_size object))
     \<and> (\<exists>response. media_download E store object (so_backend_id stored) w = (Inr response, w')
          \<and> (\<forall>chunks. ds_chunks response = map Inr chunks
               \<and> de_sha E (concat chunks) = as_hex (obj_oid object)
               \<and> length (concat chunks) = unat (obj_size object) \<longrightarrow> sd_items sd = ds_chunks response))"
proof -
  obtain response where media: "media_download E store object (so_backend_id stored) w = (Inr response, w')"
    and items: "sd_items sd = verified_stream (de_sha E) (as_hex (obj_oid object)) (unat (obj_size object)) [] 0
      (ds_chunks response)"
    using assms(1) unfolding download_response_Inr by auto
  have bound: "length (delivered (sd_items sd)) \<le> unat (obj_size object)"
    using verified_stream_bounded [OF assms(2), of "[]"] items by simp
  have faithful: "sd_items sd = map Inr cs"
    if "ds_chunks response = map Inr cs" "length (concat cs) = unat (obj_size object)"
      "de_sha E (concat cs) = as_hex (obj_oid object)" for cs
    using verified_stream_faithful [OF assms(2), of "[]" cs "de_sha E"] that items by simp
  have complete: "de_sha E (delivered (sd_items sd)) = as_hex (obj_oid object)
      \<and> length (delivered (sd_items sd)) = unat (obj_size object)"
    if clean: "\<forall>item \<in> set (sd_items sd). \<not> isl item"
  proof -
    obtain cs where cs: "ds_chunks response = map Inr cs" "length (concat cs) = unat (obj_size object)"
      "de_sha E (concat cs) = as_hex (obj_oid object)"
      using clean verified_stream_complete [OF assms(2), of "[]" "de_sha E"] items by auto
    then show ?thesis using faithful by simp
  qed
  show ?thesis using bound complete media faithful by auto
qed

section \<open>Requests of an upload\<close>

text \<open>
  A ghost log of the requests of upload sessions: the state of the service is any state over which
  every request to a session is recorded.
\<close>

definition logs_uploads :: "('u, 'w) drive_env \<Rightarrow> ('w \<Rightarrow> 'u drive_request list) \<Rightarrow> bool" where
  "logs_uploads E log \<longleftrightarrow>
     (\<forall>request w. log (snd (de_send_upload E request w)) = log w @ [request])
     \<and> (\<forall>request w. log (snd (de_send E request w)) = log w)
     \<and> (\<forall>n w. log (de_sleep E n w) = log w)"

text \<open>
  A request of the session: a probe, which carries no bytes, or a slice of the file of at most the
  chunk size, declared by its \<open>Content-Range\<close>; only an empty file has an empty slice.
\<close>

definition probe_request :: "'u \<Rightarrow> string \<Rightarrow> 'u drive_request \<Rightarrow> bool" where
  "probe_request url content request \<longleftrightarrow>
     dq_method request = HttpPut \<and> dq_url request = url \<and> dq_body request = EmptyRequest
     \<and> map_of (dq_headers request) ''content-range'' = Some (''bytes */'' @ nat_dec (length content))"

definition slice_request :: "'u \<Rightarrow> string \<Rightarrow> nat \<Rightarrow> nat \<Rightarrow> 'u drive_request \<Rightarrow> bool" where
  "slice_request url content offset n request \<longleftrightarrow>
     dq_method request = HttpPut \<and> dq_url request = url
     \<and> offset + n \<le> length content \<and> n \<le> GOOGLE_DRIVE_RESUMABLE_UPLOAD_CHUNK_SIZE \<and> (n = 0 \<longrightarrow> content = [])
     \<and> dq_body request = StreamRequest (take n (drop offset content))
     \<and> map_of (dq_headers request) ''content-length'' = Some (nat_dec n)
     \<and> map_of (dq_headers request) ''content-range'' =
         (if n = 0 then None else Some (''bytes '' @ nat_dec offset @ ''-'' @ nat_dec (offset + n - 1)
            @ ''/'' @ nat_dec (length content)))"

definition session_request :: "'u \<Rightarrow> string \<Rightarrow> 'u drive_request \<Rightarrow> bool" where
  "session_request url content request \<longleftrightarrow>
     probe_request url content request \<or> (\<exists>offset n. slice_request url content offset n request)"

lemma session_put_log:
  assumes "logs_uploads E log" "session_put E store session authorization headers body limit w = (r, w')"
  shows "log w' = log w @ [\<lparr>dq_method = HttpPut, dq_url = us_url session,
          dq_headers = [(''accept'', ''application/json''), (''authorization'', authorization)] @ headers,
          dq_body = body\<rparr>]"
proof -
  let ?request = "\<lparr>dq_method = HttpPut, dq_url = us_url session,
    dq_headers = [(''accept'', ''application/json''), (''authorization'', authorization)] @ headers, dq_body = body\<rparr>"
  obtain a w1 where sent: "de_send_upload E ?request w = (a, w1)" by fastforce
  have "log w1 = log w @ [?request]"
    using assms(1) sent unfolding logs_uploads_def by (metis snd_conv)
  moreover have "w' = w1"
    using assms(2) sent
    by (cases a) (auto simp: session_put_def bind_sr_def send_drive_upload_with_idle_timeout_def)
  ultimately show ?thesis by simp
qed

lemma sleep_log: "logs_uploads E log \<Longrightarrow> log (sleep_drive_upload_backoff E store n w) = log w"
  by (simp add: logs_uploads_def sleep_drive_upload_backoff_def)

lemma recover_sends_probes:
  assumes "logs_uploads E log" "unat (obj_size (us_object session)) = length content"
  shows "recover_drive_resumable_upload E store session attempts err w = (r, w') \<Longrightarrow>
     \<exists>sent. log w' = log w @ sent \<and> (\<forall>request \<in> set sent. probe_request (us_url session) content request)"
proof (induction "GOOGLE_DRIVE_RESUMABLE_UPLOAD_MAX_RECOVERY_ATTEMPTS - attempts"
    arbitrary: attempts err w r w' rule: less_induct)
  case less
  let ?max = "GOOGLE_DRIVE_RESUMABLE_UPLOAD_MAX_RECOVERY_ATTEMPTS \<le> attempts"
  let ?auth = "authorization_header_value E (gs_token store) (gs_provider store)"
  define slept where "slept = sleep_drive_upload_backoff E store attempts w"
  have slept_log: "log slept = log w" using sleep_log [OF assms(1)] by (simp add: slept_def)
  show ?case
  proof (cases "?max \<or> isl ?auth")
    case True
    then have "log w' = log w"
      using less(2) slept_log
      by (subst (asm) recover_drive_resumable_upload.simps)
         (auto simp: Let_def slept_def [symmetric] split: if_splits sum.splits)
    then show ?thesis by (intro exI [of _ "[]"]) simp
  next
    case False
    then obtain authorization where auth: "?auth = Inr authorization" by (cases ?auth) auto
    let ?put = "session_put E store session authorization
        [(''content-length'', ''0''),
         (''content-range'', ''bytes */'' @ nat_dec (unat (obj_size (us_object session))))]
        EmptyRequest (obj_size (us_object session)) slept"
    obtain p w1 where put: "?put = (p, w1)" by fastforce
    obtain request where logged: "log w1 = log w @ [request]" "probe_request (us_url session) content request"
      using session_put_log [OF assms(1) put] slept_log assms(2) by (auto simp: probe_request_def)
    show ?thesis
    proof (cases "\<exists>err'. p = Inl err' \<and> is_retryable_storage_error err'")
      case True
      then obtain err' where p: "p = Inl err'" "is_retryable_storage_error err'" by blast
      have again: "recover_drive_resumable_upload E store session (Suc attempts) err' w1 = (r, w')"
        using less(2) False auth put p
        by (subst (asm) recover_drive_resumable_upload.simps) (simp add: Let_def slept_def [symmetric])
      have "GOOGLE_DRIVE_RESUMABLE_UPLOAD_MAX_RECOVERY_ATTEMPTS - Suc attempts
          < GOOGLE_DRIVE_RESUMABLE_UPLOAD_MAX_RECOVERY_ATTEMPTS - attempts"
        using False by auto
      then obtain sent where "log w' = log w1 @ sent"
        "\<forall>request \<in> set sent. probe_request (us_url session) content request"
        using less(1) [OF _ again] by blast
      then show ?thesis using logged by (intro exI [of _ "request # sent"]) simp
    next
      case None: False
      have "w' = w1"
        using less(2) False auth put None
        by (subst (asm) recover_drive_resumable_upload.simps)
           (auto simp: Let_def slept_def [symmetric] split: sum.splits if_splits)
      then show ?thesis using logged by (intro exI [of _ "[request]"]) simp
    qed
  qed
qed

lemma parse_offset_bound:
  assumes "parse_drive_resumable_upload_offset provider response total_size limit = Inr c"
  shows "c = 0 \<or> c < total_size \<and> c \<le> limit"
proof -
  have "c = 0 \<or> \<not> (limit < c \<or> total_size \<le> c \<or> total_size = 0)"
    using assms unfolding parse_drive_resumable_upload_offset_def
    by (auto split: option.splits sum.splits if_splits)
  then show ?thesis by auto
qed

lemma session_put_bound:
  assumes "session_put E store session authorization headers body limit w = (Inr (UploadIncomplete c), w')"
  shows "c = 0 \<or> c < obj_size (us_object session) \<and> c \<le> limit"
  using assms
  by (auto simp: session_put_def bind_sr_Inr parse_drive_resumable_upload_response_def Let_def
      dest: parse_offset_bound split: if_splits)

lemma recover_bound:
  "recover_drive_resumable_upload E store session attempts err w = ((Inr (UploadIncomplete c), n), w') \<Longrightarrow>
     c = 0 \<or> c < obj_size (us_object session)"
proof (induction "GOOGLE_DRIVE_RESUMABLE_UPLOAD_MAX_RECOVERY_ATTEMPTS - attempts"
    arbitrary: attempts err w rule: less_induct)
  case less
  have again: "c = 0 \<or> c < obj_size (us_object session)"
    if "recover_drive_resumable_upload E store session (Suc attempts) err' w1 = ((Inr (UploadIncomplete c), n), w')"
      "\<not> GOOGLE_DRIVE_RESUMABLE_UPLOAD_MAX_RECOVERY_ATTEMPTS \<le> attempts" for err' w1
    using less(1) [OF _ that(1)] that(2) by auto
  show ?case
    using less(2) again
    by (subst (asm) recover_drive_resumable_upload.simps)
       (auto simp: Let_def dest: session_put_bound split: if_splits sum.splits prod.splits)
qed

lemma upload_progress_bound:
  assumes "upload_progress E store session source content c0 attempts w = ((Inr (UploadIncomplete c), n), w')"
  shows "c = 0 \<or> c < obj_size (us_object session)"
  using assms unfolding upload_progress_def Let_def
  by (auto dest: session_put_bound recover_bound split: sum.splits prod.splits if_splits)

lemma upload_chunk_end_empty: "upload_chunk_end 0 [] = None"
  by (simp add: upload_chunk_end_def checked_add_u64_def checked_sub_u64_def)

lemma upload_chunk_end_Some:
  assumes "unat c + length chunk < 2 ^ 64" "chunk \<noteq> []"
  shows "\<exists>last_byte. upload_chunk_end c chunk = Some last_byte \<and> unat last_byte = unat c + length chunk - 1
    \<and> unat (last_byte - c + 1) = length chunk \<and> unat (last_byte + 1) = unat c + length chunk"
proof -
  have n: "unat (of_nat (length chunk) :: u64) = length chunk" "0 < length chunk"
    using assms by (simp_all add: unsigned_of_nat take_bit_nat_eq_self)
  have e: "unat (c + of_nat (length chunk)) = unat c + length chunk"
    using assms(1) n(1) by (simp add: unat_word_ariths)
  have one: "unat (1 :: u64) \<le> unat (c + of_nat (length chunk))" using e n(2) unfolding unsigned_1 by linarith
  have "upload_chunk_end c chunk = Some (c + of_nat (length chunk) - 1)"
    using assms(1) n one e by (simp add: upload_chunk_end_def checked_add_u64_def checked_sub_u64_def word_le_nat_alt)
  moreover have "unat (c + of_nat (length chunk) - 1) = unat c + length chunk - 1"
    using one e by (simp add: unat_sub word_le_nat_alt)
  ultimately show ?thesis using n(1) e by simp
qed

lemma probe_is_session_request: "probe_request url content request \<Longrightarrow> session_request url content request"
  by (simp add: session_request_def)

lemma chunk_is_slice:
  assumes "read_drive_upload_chunk provider source content c total_size = Inr chunk"
    and "unat total_size = length content" "c = 0 \<or> c < total_size"
  shows "slice_request url content (unat c) (length chunk)
     \<lparr>dq_method = HttpPut, dq_url = url,
      dq_headers = [(''accept'', ''application/json''), (''authorization'', authorization)]
        @ (''content-type'', GOOGLE_DRIVE_OBJECT_CONTENT_TYPE) # chunk_range_headers c (upload_chunk_end c chunk) total_size,
      dq_body = StreamRequest chunk\<rparr>"
proof -
  have c: "unat c \<le> length content" "content \<noteq> [] \<longrightarrow> unat c < length content"
    using assms(2,3) by (auto simp: word_less_nat_alt)
  define n where "n = min (length content - unat c) GOOGLE_DRIVE_RESUMABLE_UPLOAD_CHUNK_SIZE"
  have chunk: "chunk = take n (drop (unat c) content)" "length chunk = n"
    using assms(1,2) c by (auto simp: read_drive_upload_chunk_def Let_def n_def split: if_splits)
  have fits: "unat c + n \<le> length content" "n \<le> GOOGLE_DRIVE_RESUMABLE_UPLOAD_CHUNK_SIZE" "n = 0 \<longrightarrow> content = []"
    using c by (auto simp: n_def GOOGLE_DRIVE_RESUMABLE_UPLOAD_CHUNK_SIZE_def)
  show ?thesis
  proof (cases "n = 0")
    case True
    then have "chunk = []" "c = 0" using chunk fits c by (auto simp: unat_eq_0)
    then show ?thesis
      using True fits chunk by (simp add: slice_request_def chunk_range_headers_def upload_chunk_end_empty)
  next
    case False
    have "unat c + length chunk < 2 ^ 64"
      using fits(1) chunk(2) unat_u64_bound [of total_size] assms(2) by linarith
    moreover have "chunk \<noteq> []" using False chunk(2) by auto
    ultimately obtain last_byte where e: "upload_chunk_end c chunk = Some last_byte"
      "unat last_byte = unat c + length chunk - 1" "unat (last_byte - c + 1) = length chunk"
      using upload_chunk_end_Some by blast
    show ?thesis
      using False fits chunk e assms(2) by (simp add: slice_request_def chunk_range_headers_def)
  qed
qed

lemma upload_progress_sends:
  assumes "logs_uploads E log" "unat (obj_size (us_object session)) = length content"
    and "c = 0 \<or> c < obj_size (us_object session)"
    and "upload_progress E store session source content c attempts w = (r, w')"
  shows "\<exists>sent. log w' = log w @ sent \<and> (\<forall>request \<in> set sent. session_request (us_url session) content request)"
proof (cases "read_drive_upload_chunk (gs_provider store) source content c (obj_size (us_object session))")
  case (Inl err)
  then show ?thesis using assms(4) by (intro exI [of _ "[]"]) (simp add: upload_progress_def)
next
  case chunk: (Inr chunk)
  show ?thesis
  proof (cases "authorization_header_value E (gs_token store) (gs_provider store)")
    case (Inl err)
    then show ?thesis using assms(4) chunk by (intro exI [of _ "[]"]) (simp add: upload_progress_def)
  next
    case (Inr authorization)
    let ?e = "upload_chunk_end c chunk"
    obtain p w1 where put: "session_put E store session authorization
        ((''content-type'', GOOGLE_DRIVE_OBJECT_CONTENT_TYPE) # chunk_range_headers c ?e (obj_size (us_object session)))
        (StreamRequest chunk) (case ?e of None \<Rightarrow> 0 | Some last_byte \<Rightarrow> last_byte + 1) w = (p, w1)"
      by fastforce
    let ?request = "\<lparr>dq_method = HttpPut, dq_url = us_url session,
      dq_headers = [(''accept'', ''application/json''), (''authorization'', authorization)]
        @ (''content-type'', GOOGLE_DRIVE_OBJECT_CONTENT_TYPE) # chunk_range_headers c ?e (obj_size (us_object session)),
      dq_body = StreamRequest chunk\<rparr>"
    obtain request where logged: "log w1 = log w @ [request]" "session_request (us_url session) content request"
    proof
      show "log w1 = log w @ [?request]" using session_put_log [OF assms(1) put] .
      show "session_request (us_url session) content ?request"
        unfolding session_request_def by (intro disjI2 exI) (rule chunk_is_slice [OF chunk assms(2,3)])
    qed
    show ?thesis
    proof (cases "\<exists>err. p = Inl err \<and> is_retryable_storage_error err")
      case True
      then obtain err where p: "p = Inl err" "is_retryable_storage_error err" by blast
      then have "recover_drive_resumable_upload E store session attempts err w1 = (r, w')"
        using assms(4) chunk Inr put by (simp add: upload_progress_def Let_def)
      then obtain sent where "log w' = log w1 @ sent"
        "\<forall>request \<in> set sent. probe_request (us_url session) content request"
        using recover_sends_probes [OF assms(1,2)] by blast
      then show ?thesis
        using logged by (intro exI [of _ "request # sent"]) (simp add: probe_is_session_request)
    next
      case False
      have "w' = w1"
        using assms(4) chunk Inr put False by (auto simp: upload_progress_def Let_def split: sum.splits)
      then show ?thesis using logged by (intro exI [of _ "[request]"]) simp
    qed
  qed
qed

lemma upload_loop_sends:
  assumes "logs_uploads E log" "unat (obj_size (us_object session)) = length content"
  shows "c = 0 \<or> c < obj_size (us_object session) \<Longrightarrow>
    upload_loop E store session source content c attempts w = (r, w') \<Longrightarrow>
     \<exists>sent. log w' = log w @ sent \<and> (\<forall>request \<in> set sent. session_request (us_url session) content request)"
proof (induction "(2 ^ 64 - unat c, GOOGLE_DRIVE_RESUMABLE_UPLOAD_MAX_RECOVERY_ATTEMPTS - attempts)"
    arbitrary: c attempts w rule: wf_induct_rule [OF wf_lex_prod [OF wf_less_than wf_less_than]])
  case 1
  obtain p n w1 where progress: "upload_progress E store session source content c attempts w = ((p, n), w1)"
    by (metis prod.exhaust)
  obtain sent where sent: "log w1 = log w @ sent"
    "\<forall>request \<in> set sent. session_request (us_url session) content request"
    using upload_progress_sends [OF assms 1(2) progress] by blast
  have stop: ?case if "w' = w1" using sent that by blast
  have continue: ?case
    if again: "upload_loop E store session source content c' attempts' w2 = (r, w')"
      and kept: "log w2 = log w1" and bound: "c' = 0 \<or> c' < obj_size (us_object session)"
      and decreases: "((2 ^ 64 - unat c', GOOGLE_DRIVE_RESUMABLE_UPLOAD_MAX_RECOVERY_ATTEMPTS - attempts'),
            (2 ^ 64 - unat c, GOOGLE_DRIVE_RESUMABLE_UPLOAD_MAX_RECOVERY_ATTEMPTS - attempts))
         \<in> less_than <*lex*> less_than" for c' attempts' w2
  proof -
    obtain more where "log w' = log w2 @ more"
      "\<forall>request \<in> set more. session_request (us_url session) content request"
      using 1(1) [OF decreases bound again] by blast
    then show ?thesis using sent kept by (intro exI [of _ "sent @ more"]) auto
  qed
  show ?case
  proof (cases "\<exists>next_offset. p = Inr (UploadIncomplete next_offset) \<and> c < next_offset")
    case True
    then obtain next_offset where p: "p = Inr (UploadIncomplete next_offset)" "c < next_offset" by blast
    then have "\<not> next_offset < c" by simp
    have again: "upload_loop E store session source content next_offset 0 w1 = (r, w')"
      using 1(3) progress p \<open>\<not> next_offset < c\<close> by (subst (asm) upload_loop.simps) simp
    have bound: "next_offset = 0 \<or> next_offset < obj_size (us_object session)"
      using upload_progress_bound [OF progress [unfolded p(1)]] .
    have "2 ^ 64 - unat next_offset < 2 ^ 64 - unat c"
      using p(2) unat_u64_bound [of c] unat_u64_bound [of next_offset] by (simp add: word_less_nat_alt diff_less_mono2)
    then show ?thesis by (intro continue [OF again _ bound]) auto
  next
    case advance: False
    show ?thesis
    proof (cases "p = Inr (UploadIncomplete c) \<and> n < GOOGLE_DRIVE_RESUMABLE_UPLOAD_MAX_RECOVERY_ATTEMPTS")
      case True
      have again: "upload_loop E store session source content c (Suc n) (sleep_drive_upload_backoff E store n w1) = (r, w')"
        using 1(3) progress True by (subst (asm) upload_loop.simps) simp
      have "attempts \<le> n" using upload_progress_attempts [OF progress] .
      then show ?thesis
        using True by (intro continue [OF again _ 1(2)]) (auto simp: sleep_log [OF assms(1)])
    next
      case False
      have "w' = w1"
        using 1(3) progress False advance
        by (subst (asm) upload_loop.simps)
           (auto split: sum.splits drive_resumable_upload_progress.splits if_splits)
      then show ?thesis by (rule stop)
    qed
  qed
qed

section \<open>The rest of an upload sends nothing to a session\<close>

text \<open>A run keeps the log when it ends with the log it started from.\<close>

definition keeps_log :: "('w \<Rightarrow> 'l) \<Rightarrow> ('w, 'a) drive_run \<Rightarrow> bool" where
  "keeps_log log m \<longleftrightarrow> (\<forall>w r w'. m w = Some (r, w') \<longrightarrow> log w' = log w)"

lemma keeps_log_bind [intro]:
  "keeps_log log m \<Longrightarrow> (\<And>x. keeps_log log (f x)) \<Longrightarrow> keeps_log log (bind_run m f)"
  by (fastforce simp: keeps_log_def bind_run_def split: option.splits sum.splits)

lemma keeps_log_call: "keeps_log log (run_call m) \<longleftrightarrow> (\<forall>w. log (snd (m w)) = log w)"
  unfolding keeps_log_def run_call_def by (metis option.inject prod.collapse snd_conv)

lemma keeps_log_lift [simp]: "keeps_log log (run_call (lift_sr r))" "keeps_log log (run_call (ret_sr x))"
  by (simp_all add: keeps_log_call)

lemma drive_call_log:
  "logs_uploads E log \<Longrightarrow> log (snd (drive_call_url E provider token m url before after body w)) = log w"
  by (auto simp: drive_call_url_def bind_sr_def send_request_def logs_uploads_def split: sum.splits prod.splits)
     (metis snd_conv)+

lemma bind_sr_log:
  "(\<And>w. log (snd (m w)) = log w) \<Longrightarrow> (\<And>x w. log (snd (f x w)) = log w) \<Longrightarrow> log (snd (bind_sr m f w)) = log w"
  by (auto simp: bind_sr_def split: sum.splits prod.splits) (metis snd_conv)+

lemma metadata_call_log:
  "logs_uploads E log \<Longrightarrow> log (snd (metadata_call E provider token m url before after body w)) = log w"
  unfolding metadata_call_def by (intro bind_sr_log) (simp_all add: drive_call_log)

lemma page_loop_log:
  assumes "page_loop fetch repeated found token seen w = Some r" "\<forall>token w. log (snd (fetch token w)) = log w"
  shows "log (snd r) = log w"
proof -
  let ?kept = "\<lambda>fetch repeated found token seen w r.
    (\<forall>token w. log (snd (fetch token w)) = log w) \<longrightarrow> log (snd r) = log w"
  have "?kept fetch repeated found token seen w r"
  proof (rule page_loop.raw_induct [where P = ?kept, OF _ assms(1)], intro impI)
    fix loop fetch repeated found token seen w r
    assume IH: "\<And>fetch repeated found token seen w r.
        loop fetch repeated found token seen w = Some r \<Longrightarrow> ?kept fetch repeated found token seen w r"
      and run: "(case fetch token w of (r, w') \<Rightarrow> (case r of
          Inl err \<Rightarrow> Some (Inl err, w')
        | Inr page \<Rightarrow> (case snd page of
              None \<Rightarrow> Some (Inr (found @ fst page), w')
            | Some next_page_token \<Rightarrow>
                if next_page_token \<in> seen then Some (Inl repeated, w')
                else loop fetch repeated (found @ fst page) (Some next_page_token)
                       (insert next_page_token seen) w'))) = Some r"
      and pages: "\<forall>token w. log (snd (fetch token w)) = log w"
    obtain p w' where fetched: "fetch token w = (p, w')" by fastforce
    then have "log w' = log w" using pages by (metis snd_conv)
    then show "log (snd r) = log w"
      using run fetched pages by (cases p) (auto dest: IH split: option.splits if_splits)
  qed
  then show ?thesis using assms(2) by blast
qed

lemma page_loop_keeps_log:
  "(\<And>token w. log (snd (fetch token w)) = log w) \<Longrightarrow> keeps_log log (page_loop fetch repeated found token seen)"
  unfolding keeps_log_def using page_loop_log [of fetch _ _ _ _ _ _ log] by (metis snd_conv)

lemma lookup_keeps_log:
  assumes "logs_uploads E log"
  shows "keeps_log log (lookup_objects_in_parent E store parent key props)"
    "keeps_log log (lookup_shard_folder_ids E store key)"
  unfolding lookup_objects_in_parent_def lookup_shard_folder_ids_def objects_page_def shard_folders_page_def metadata_get_def
  by (intro keeps_log_bind keeps_log_lift page_loop_keeps_log bind_sr_log metadata_call_log [OF assms]; simp add: split_beta)+

lemma lookup_in_parents_keeps_log:
  "logs_uploads E log \<Longrightarrow> keeps_log log (lookup_in_parents E store key props parents found)"
  by (induction parents arbitrary: found) (auto simp: lookup_keeps_log)

lemma drive_lookup_object_keeps_log: "logs_uploads E log \<Longrightarrow> keeps_log log (drive_lookup_object E store object)"
  unfolding drive_lookup_object_def Let_def
  by (intro keeps_log_bind keeps_log_lift lookup_keeps_log lookup_in_parents_keeps_log)

lemma upload_parent_keeps_log:
  assumes "logs_uploads E log"
  shows "keeps_log log (upload_parent_folder_id E store key)"
  unfolding upload_parent_folder_id_def
proof (rule keeps_log_bind [OF lookup_keeps_log(2) [OF assms]])
  fix folder_ids :: "string list"
  show "keeps_log log (case folder_ids of folder_id # _ \<Rightarrow> run_call (ret_sr folder_id)
      | [] \<Rightarrow> run_call (bind_sr (metadata_call E (gs_provider store) (gs_token store) HttpPost
               (drive_file_create_url (de_url E) (gs_api_base_url store))
               [(''accept'', ''application/json''), (''content-type'', ''application/json'')] []
               (JsonRequest (drive_shard_folder_metadata (gs_root store) key)))
             (\<lambda>(status, body). lift_sr
                (if \<not> is_success status
                 then Inl (parse_drive_upload_error E (gs_provider store) (gs_token store) (ok_object key)
                        Initiate status body)
                 else parse_drive_shard_folder_create_success E (gs_storage store) key status body))))"
    by (cases folder_ids)
       (auto simp: keeps_log_call intro!: bind_sr_log metadata_call_log [OF assms])
qed

lemma initiate_upload_log:
  "logs_uploads E log \<Longrightarrow> log (snd (initiate_upload E store object key parent w)) = log w"
  unfolding initiate_upload_def by (intro bind_sr_log drive_call_log) simp_all

lemma validated_session_url:
  assumes "validate_drive_resumable_upload_session_url L provider base value = Inr url"
  shows "url_origins_match L url base \<and> uses_protected_http_transport L url"
  using assms
  by (auto simp: validate_drive_resumable_upload_session_url_def validate_drive_url_def uses_protected_http_transport_def
      split: option.splits if_splits)

lemma initiate_upload_url:
  assumes "initiate_upload E store object key parent w = (Inr url, w')"
  shows "url_origins_match (de_url E) url (gs_api_base_url store) \<and> uses_protected_http_transport (de_url E) url"
  using assms unfolding initiate_upload_def bind_sr_Inr
  by (auto dest: validated_session_url split: if_splits option.splits)

lemma bind_run_cases:
  assumes "bind_run m f w = Some (r, w')"
  obtains (failed) err where "m w = Some (Inl err, w')" "r = Inl err"
    | (continued) x w1 where "m w = Some (Inr x, w1)" "f x w1 = Some (r, w')"
  using assms by (auto simp: bind_run_def split: option.splits sum.splits)

text \<open>The requests to a session that a run sends, each a request that \<open>P\<close> allows.\<close>

definition sends_only :: "('u drive_request \<Rightarrow> bool) \<Rightarrow> ('w \<Rightarrow> 'u drive_request list) \<Rightarrow> ('w, 'a) drive_run \<Rightarrow> bool" where
  "sends_only P log m \<longleftrightarrow>
     (\<forall>w r w'. m w = Some (r, w') \<longrightarrow> (\<exists>sent. log w' = log w @ sent \<and> (\<forall>request \<in> set sent. P request)))"

lemma keeps_log_sends_only: "keeps_log log m \<Longrightarrow> sends_only P log m"
  unfolding keeps_log_def sends_only_def by (metis append_Nil2 empty_iff empty_set)

lemma sends_only_bind:
  assumes "sends_only P log m" "\<And>x w w1. m w = Some (Inr x, w1) \<Longrightarrow> sends_only P log (f x)"
  shows "sends_only P log (bind_run m f)"
  unfolding sends_only_def
proof (intro allI impI)
  fix w r w'
  assume "bind_run m f w = Some (r, w')"
  then show "\<exists>sent. log w' = log w @ sent \<and> (\<forall>request \<in> set sent. P request)"
  proof (cases rule: bind_run_cases)
    case failed
    then show ?thesis using assms(1) unfolding sends_only_def by blast
  next
    case (continued x w1)
    obtain first more where "log w1 = log w @ first" "\<forall>request \<in> set first. P request"
      "log w' = log w1 @ more" "\<forall>request \<in> set more. P request"
      using assms(1) assms(2) [OF continued(1)] continued unfolding sends_only_def by metis
    then show ?thesis by (intro exI [of _ "first @ more"]) auto
  qed
qed

definition protected_slice :: "('u, 'w) drive_env \<Rightarrow> 'u drive_store \<Rightarrow> string \<Rightarrow> 'u drive_request \<Rightarrow> bool" where
  "protected_slice E store content request \<longleftrightarrow>
     session_request (dq_url request) content request
     \<and> url_origins_match (de_url E) (dq_url request) (gs_api_base_url store)
     \<and> uses_protected_http_transport (de_url E) (dq_url request)"

lemma session_request_url: "session_request url content request \<Longrightarrow> dq_url request = url"
  by (auto simp: session_request_def probe_request_def slice_request_def)

lemma upload_loop_protected:
  assumes "logs_uploads E log" "unat (obj_size (us_object session)) = length content"
    and "url_origins_match (de_url E) (us_url session) (gs_api_base_url store)"
      "uses_protected_http_transport (de_url E) (us_url session)"
  shows "sends_only (protected_slice E store content) log (run_call (upload_loop E store session source content 0 0))"
  unfolding sends_only_def run_call_Some
proof (intro allI impI)
  fix w r w'
  assume "upload_loop E store session source content 0 0 w = (r, w')"
  then obtain sent where sent: "log w' = log w @ sent"
    "\<forall>request \<in> set sent. session_request (us_url session) content request"
    using upload_loop_sends [OF assms(1,2)] by blast
  then have "\<forall>request \<in> set sent. protected_slice E store content request"
    using assms(3,4) session_request_url unfolding protected_slice_def by metis
  then show "\<exists>sent. log w' = log w @ sent \<and> (\<forall>request \<in> set sent. protected_slice E store content request)"
    using sent(1) by blast
qed

lemma upload_verified_object_protected:
  assumes log: "logs_uploads E log" and "length content = unat (obj_size object)"
  shows "sends_only (protected_slice E store content) log (upload_verified_object E store object source content)"
  unfolding upload_verified_object_def
proof (intro sends_only_bind, goal_cases)
  case 1
  show ?case by (rule keeps_log_sends_only) simp
next
  case 2
  show ?case by (rule keeps_log_sends_only) (rule upload_parent_keeps_log [OF log])
next
  case 3
  show ?case by (rule keeps_log_sends_only) (simp add: keeps_log_call initiate_upload_log [OF log])
next
  case (4 key w w1 parent w2 w3 url w4 w5)
  then show ?case using assms(2) by (intro upload_loop_protected [OF log]) (auto dest: initiate_upload_url)
qed

lemma open_verified_Inr:
  "open_verified_staged_upload_file sha provider object source f = Inr content \<longleftrightarrow>
     f = Inr content \<and> sha content = as_hex (obj_oid object) \<and> length content = unat (obj_size object)"
  by (auto simp: open_verified_staged_upload_file_def split: sum.splits)

text \<open>
  C12: Whatever the service answers, an upload to Google Drive puts nothing but slices of the
  staged file to its session: it sends none unless the file has the SHA-256 and the size of the
  object; every slice lies within the file, is at most 256 KiB long and is declared by a
  \<open>Content-Range\<close> that names exactly its first and last byte and the size of the file; the rest
  are probes without bytes; and each of them goes to a URL of the configured API's origin over
  protected transport.
\<close>

theorem upload_sends_only_file_slices:
  assumes "logs_uploads E log" "upload_object_idempotent E store object source f w = Some (r, w')"
  shows "\<exists>sent. log w' = log w @ sent
     \<and> (sent \<noteq> [] \<longrightarrow> (\<exists>content. f = Inr content \<and> de_sha E content = as_hex (obj_oid object)
          \<and> length content = unat (obj_size object)
          \<and> (\<forall>request \<in> set sent. session_request (dq_url request) content request
               \<and> url_origins_match (de_url E) (dq_url request) (gs_api_base_url store)
               \<and> uses_protected_http_transport (de_url E) (dq_url request))))"
proof (cases "open_verified_staged_upload_file (de_sha E) (gs_provider store) object source f")
  case (Inl err)
  then have "w' = w" using assms(2) by (auto simp: upload_object_idempotent_def bind_run_def run_call_def)
  then show ?thesis by (intro exI [of _ "[]"]) simp
next
  case (Inr content)
  then have run: "upload_verified_object_idempotent E store object source content w = Some (r, w')"
    and verified: "f = Inr content" "de_sha E content = as_hex (obj_oid object)" "length content = unat (obj_size object)"
    using assms(2) Inr Inr [unfolded open_verified_Inr] by (simp_all add: upload_object_idempotent_def bind_run_def run_call_def)
  have "sends_only (protected_slice E store content) log (upload_verified_object_idempotent E store object source content)"
    unfolding upload_verified_object_idempotent_def
  proof (rule sends_only_bind)
    show "sends_only (protected_slice E store content) log (drive_lookup_object E store object)"
      by (intro keeps_log_sends_only drive_lookup_object_keeps_log assms(1))
    show "sends_only (protected_slice E store content) log (case found of Some stored \<Rightarrow> run_call (ret_sr stored)
        | None \<Rightarrow> upload_verified_object E store object source content)" for found
      using upload_verified_object_protected [OF assms(1) verified(3)]
      by (cases found) (auto intro: keeps_log_sends_only)
  qed
  then obtain sent where "log w' = log w @ sent" "\<forall>request \<in> set sent. protected_slice E store content request"
    using run unfolding sends_only_def by blast
  then show ?thesis using verified unfolding protected_slice_def by blast
qed

end
