(* ===== verification/Drive_Resume.thy ===== *)
theory Drive_Resume
  imports Drive_Integrity
begin

text \<open>
  Resumption of uploads: a service that follows the resumable protocol but may lose the response
  to any chunk ends up with the whole file, in as many requests as it takes.
\<close>

section \<open>A service that follows the protocol\<close>

text \<open>
  The answer to a request after which \<open>n\<close> bytes of the file are committed: a 308 with the
  committed range, or, once the file is complete, its metadata.
\<close>

definition acknowledges ::
  "('u, 'w) drive_env \<Rightarrow> 'u upload_session \<Rightarrow> string \<Rightarrow> nat \<Rightarrow> drive_response \<Rightarrow> bool" where
  "acknowledges E session content n response \<longleftrightarrow>
     (if n < length content
      then ds_status response = 308 \<and> response_header ''range'' response = Some (''bytes=0-'' @ nat_dec (n - 1))
      else (ds_status response = 200 \<or> ds_status response = 201)
        \<and> (\<exists>text f i. ds_chunks response = [Inr text] \<and> ds_stall response = None
             \<and> length text \<le> MAX_GOOGLE_ERROR_BODY_LEN \<and> de_json_file E (de_utf8_lossy E text) = Some f
             \<and> df_id f = Some i \<and> trim i \<noteq> [] \<and> carries_identity (de_sha E) (us_key session) f))"

text \<open>
  \<open>committed\<close> is the number of bytes that the service holds. A chunk that starts where they end
  adds a nonempty part of itself, and its response may be lost; a probe is answered.
\<close>

definition follows_protocol ::
  "('u, 'w) drive_env \<Rightarrow> 'u upload_session \<Rightarrow> string \<Rightarrow> ('w \<Rightarrow> nat) \<Rightarrow> bool" where
  "follows_protocol E session content committed \<longleftrightarrow>
     (\<forall>n w. committed (de_sleep E n w) = committed w)
     \<and> (\<forall>w n request. slice_request (us_url session) content (committed w) n request \<longrightarrow>
          (\<exists>k. k \<le> n \<and> (k = 0 \<longrightarrow> content = []) \<and> committed (snd (de_send_upload E request w)) = committed w + k
             \<and> (\<forall>response. fst (de_send_upload E request w) = Inr response \<longrightarrow>
                  acknowledges E session content (committed w + k) response)))
     \<and> (\<forall>w request. probe_request (us_url session) content request \<longrightarrow>
          committed (snd (de_send_upload E request w)) = committed w
          \<and> (\<exists>response. fst (de_send_upload E request w) = Inr response
               \<and> acknowledges E session content (committed w) response))"

section \<open>Reading its answers\<close>

lemma range_prefix_solid: "list_all is_solid ''bytes=0-''"
  by code_simp

lemma visible_digit: "is_digit c \<Longrightarrow> visible_ascii c"
  by (simp add: is_digit_def visible_ascii_def)

lemma parse_committed_range:
  assumes "response_header ''range'' response = Some (''bytes=0-'' @ nat_dec (unat c - 1))"
    and "0 < c" "c < total_size" "c \<le> limit"
  shows "parse_drive_resumable_upload_offset provider response total_size limit = Inr c"
proof -
  have one: "unat (c - 1) = unat c - 1" using assms(2) by (simp add: unat_minus_one word_neq_0_conv)
  let ?range = "''bytes=0-'' @ nat_dec (unat c - 1)"
  have digits: "list_all is_digit (nat_dec (unat c - 1))" by (rule nat_dec_digits)
  have "list_all visible_ascii ?range"
    using digits by (auto simp: list_all_iff visible_digit) (simp_all add: visible_ascii_def byte_def)
  moreover have "trim ?range = ?range"
    using digits range_prefix_solid by (intro trim_solid_all) (auto simp: list_all_iff)
  moreover have "strip_prefix ''bytes=0-'' ?range = Some (nat_dec (unat c - 1))"
    by (rule strip_prefix_append)
  moreover have "parse_u64 (nat_dec (unat c - 1)) = Inr (c - 1)"
    using parse_u64_nat_dec [of "c - 1"] one by simp
  moreover have "checked_add_u64 (c - 1) 1 = Some c"
    using assms(2) one by (auto simp: checked_add_u64_iff word_less_nat_alt)
  ultimately show ?thesis
    using assms by (auto simp: parse_drive_resumable_upload_offset_def not_less simp del: strip_prefix_Some)
qed

text \<open>The progress that \<open>n\<close> committed bytes stand for.\<close>

definition stands_for ::
  "'u drive_store \<Rightarrow> 'u upload_session \<Rightarrow> string \<Rightarrow> u64 \<Rightarrow> drive_resumable_upload_progress \<Rightarrow> bool" where
  "stands_for store session content c progress \<longleftrightarrow>
     (if unat c < length content then progress = UploadIncomplete c
      else \<exists>i. progress = UploadComplete (stored_of (gs_storage store) (us_key session) i))"

lemma read_single_chunk:
  "length text \<le> MAX_GOOGLE_ERROR_BODY_LEN \<Longrightarrow>
     read_chunks_with_idle_timeout provider token None [] [Inr text] = Inr text"
  by (auto simp: read_chunks_with_idle_timeout.simps Let_def MAX_GOOGLE_ERROR_BODY_LEN_def)

lemma acknowledged_progress:
  assumes "acknowledges E session content (unat c) response"
    and "unat (obj_size (us_object session)) = length content" "content \<noteq> [] \<longrightarrow> 0 < c" "c \<le> limit"
    and "us_expected_properties session = expected_app_properties (de_sha E) (us_key session)"
  shows "\<exists>progress. parse_drive_resumable_upload_response E store session response limit = Inr progress
    \<and> stands_for store session content c progress"
proof (cases "unat c < length content")
  case True
  then have "0 < c" "c < obj_size (us_object session)" using assms(2,3) by (auto simp: word_less_nat_alt)
  moreover have "ds_status response = 308"
    "response_header ''range'' response = Some (''bytes=0-'' @ nat_dec (unat c - 1))"
    using assms(1) True by (simp_all add: acknowledges_def)
  ultimately show ?thesis
    using parse_committed_range [of response c "obj_size (us_object session)" limit "gs_provider store"] assms(4) True
    by (simp add: parse_drive_resumable_upload_response_def stands_for_def)
next
  case False
  then obtain t f i where response: "ds_status response = 200 \<or> ds_status response = 201"
    "ds_chunks response = [Inr t]" "ds_stall response = None" "length t \<le> MAX_GOOGLE_ERROR_BODY_LEN"
    "de_json_file E (de_utf8_lossy E t) = Some f" "df_id f = Some i" "trim i \<noteq> []"
    "carries_identity (de_sha E) (us_key session) f"
    using assms(1) unfolding acknowledges_def by auto
  have "verify_drive_object_file (gs_storage store) (us_key session) (expected_app_properties (de_sha E) (us_key session))
      (ds_status response) f = Inr (stored_of (gs_storage store) (us_key session) i)"
    unfolding verify_drive_object_file_Inr using response by blast
  then have "parse_drive_resumable_upload_response E store session response limit
      = Inr (UploadComplete (stored_of (gs_storage store) (us_key session) i))"
    using response assms(5)
    by (auto simp: parse_drive_resumable_upload_response_def read_drive_response_body_with_idle_timeout_def
        read_single_chunk parse_drive_upload_success_def)
  then show ?thesis using False by (auto simp: stands_for_def)
qed

lemma session_put_answered:
  assumes "fst (de_send_upload E \<lparr>dq_method = HttpPut, dq_url = us_url session,
          dq_headers = [(''accept'', ''application/json''), (''authorization'', authorization)] @ headers,
          dq_body = body\<rparr> w) = Inr response"
    and "parse_drive_resumable_upload_response E store session response limit = Inr progress"
  shows "session_put E store session authorization headers body limit w
    = (Inr progress, snd (de_send_upload E \<lparr>dq_method = HttpPut, dq_url = us_url session,
          dq_headers = [(''accept'', ''application/json''), (''authorization'', authorization)] @ headers,
          dq_body = body\<rparr> w))"
  using assms
  by (simp add: session_put_def bind_sr_def send_drive_upload_with_idle_timeout_def split_beta)

lemma session_put_lost:
  assumes "fst (de_send_upload E \<lparr>dq_method = HttpPut, dq_url = us_url session,
          dq_headers = [(''accept'', ''application/json''), (''authorization'', authorization)] @ headers,
          dq_body = body\<rparr> w) = Inl failure"
  shows "\<exists>err. session_put E store session authorization headers body limit w
    = (Inl err, snd (de_send_upload E \<lparr>dq_method = HttpPut, dq_url = us_url session,
          dq_headers = [(''accept'', ''application/json''), (''authorization'', authorization)] @ headers,
          dq_body = body\<rparr> w)) \<and> is_retryable_storage_error err"
  using assms
  by (cases failure)
     (simp_all add: session_put_def bind_sr_def send_drive_upload_with_idle_timeout_def split_beta drive_transport_error_def)

lemma follows_protocol_probe:
  assumes "follows_protocol E session content committed" "probe_request (us_url session) content request"
  shows "committed (snd (de_send_upload E request w)) = committed w"
    "\<exists>response. fst (de_send_upload E request w) = Inr response
       \<and> acknowledges E session content (committed w) response"
  using assms by (simp_all add: follows_protocol_def)

lemma follows_protocol_slice:
  assumes "follows_protocol E session content committed"
    "slice_request (us_url session) content (committed w) n request"
  shows "\<exists>k. k \<le> n \<and> (k = 0 \<longrightarrow> content = []) \<and> committed (snd (de_send_upload E request w)) = committed w + k
    \<and> (\<forall>response. fst (de_send_upload E request w) = Inr response \<longrightarrow>
         acknowledges E session content (committed w + k) response)"
  using assms unfolding follows_protocol_def by blast

text \<open>The first probe after a lost response finds what the service holds.\<close>

lemma recover_finds_progress:
  assumes protocol: "follows_protocol E session content committed"
    and size: "unat (obj_size (us_object session)) = length content"
    and auth: "authorization_header_value E (gs_token store) (gs_provider store) = Inr authorization"
    and props: "us_expected_properties session = expected_app_properties (de_sha E) (us_key session)"
    and c: "committed w = unat c" "content \<noteq> [] \<longrightarrow> 0 < c" "unat c \<le> length content"
  shows "\<exists>progress n w'. recover_drive_resumable_upload E store session 0 err w = ((Inr progress, n), w')
    \<and> stands_for store session content c progress \<and> committed w' = unat c"
proof -
  let ?total = "obj_size (us_object session)"
  let ?request = "\<lparr>dq_method = HttpPut, dq_url = us_url session,
    dq_headers = [(''accept'', ''application/json''), (''authorization'', authorization)]
      @ [(''content-length'', ''0''), (''content-range'', ''bytes */'' @ nat_dec (unat ?total))],
    dq_body = EmptyRequest\<rparr>"
  define slept where "slept = sleep_drive_upload_backoff E store 0 w"
  have held: "committed slept = unat c"
    using protocol c(1) by (simp add: follows_protocol_def slept_def sleep_drive_upload_backoff_def)
  have probe: "probe_request (us_url session) content ?request"
    using size by (simp add: probe_request_def)
  then obtain response where answer: "fst (de_send_upload E ?request slept) = Inr response"
    "acknowledges E session content (unat c) response" "committed (snd (de_send_upload E ?request slept)) = unat c"
    using follows_protocol_probe [OF protocol probe, of slept] held by auto
  obtain progress where progress: "parse_drive_resumable_upload_response E store session response ?total = Inr progress"
    "stands_for store session content c progress"
    using acknowledged_progress [OF answer(2) size c(2) _ props, of ?total store] c(3) size
    by (auto simp: word_le_nat_alt)
  have "recover_drive_resumable_upload E store session 0 err w = ((Inr progress, 1), snd (de_send_upload E ?request slept))"
    using session_put_answered [OF answer(1) progress(1)] auth
    by (subst recover_drive_resumable_upload.simps)
       (simp add: Let_def slept_def GOOGLE_DRIVE_RESUMABLE_UPLOAD_MAX_RECOVERY_ATTEMPTS_def)
  then show ?thesis using progress(2) answer(3) by blast
qed

lemma upload_progress_advances:
  assumes protocol: "follows_protocol E session content committed"
    and size: "unat (obj_size (us_object session)) = length content"
    and auth: "authorization_header_value E (gs_token store) (gs_provider store) = Inr authorization"
    and props: "us_expected_properties session = expected_app_properties (de_sha E) (us_key session)"
    and c: "committed w = unat c" "c = 0 \<or> unat c < length content"
  shows "\<exists>c' progress n w'. upload_progress E store session source content c 0 w = ((Inr progress, n), w')
    \<and> stands_for store session content c' progress \<and> committed w' = unat c'
    \<and> unat c' \<le> length content \<and> (content \<noteq> [] \<longrightarrow> c < c')"
proof -
  let ?total = "obj_size (us_object session)"
  have within: "unat c \<le> length content" using c(2) by auto
  define chunk where "chunk = take (min (length content - unat c) GOOGLE_DRIVE_RESUMABLE_UPLOAD_CHUNK_SIZE)
    (drop (unat c) content)"
  have chunk: "read_drive_upload_chunk (gs_provider store) source content c ?total = Inr chunk"
    using size within by (simp add: read_drive_upload_chunk_def chunk_def Let_def)
  let ?e = "upload_chunk_end c chunk"
  let ?limit = "case ?e of None \<Rightarrow> 0 | Some last_byte \<Rightarrow> last_byte + 1"
  let ?headers = "(''content-type'', GOOGLE_DRIVE_OBJECT_CONTENT_TYPE) # chunk_range_headers c ?e ?total"
  let ?request = "\<lparr>dq_method = HttpPut, dq_url = us_url session,
    dq_headers = [(''accept'', ''application/json''), (''authorization'', authorization)] @ ?headers,
    dq_body = StreamRequest chunk\<rparr>"
  have slice: "slice_request (us_url session) content (unat c) (length chunk) ?request"
    using c(2) size by (intro chunk_is_slice [OF chunk]) (auto simp: word_less_nat_alt)
  obtain k where k: "k \<le> length chunk" "k = 0 \<longrightarrow> content = []"
    "committed (snd (de_send_upload E ?request w)) = unat c + k"
    "\<forall>response. fst (de_send_upload E ?request w) = Inr response \<longrightarrow> acknowledges E session content (unat c + k) response"
    using follows_protocol_slice [OF protocol, of w "length chunk" ?request] slice c(1) by auto
  have fits: "unat c + length chunk \<le> length content" using within by (simp add: chunk_def)
  then have wide: "unat c + length chunk < 2 ^ 64"
    using size unat_u64_bound [of ?total] by linarith
  define c' where "c' = c + of_nat k"
  have small: "k < 2 ^ 64" using k(1) wide by linarith
  have c': "unat c' = unat c + k"
    using k(1) wide small by (simp add: c'_def unat_word_ariths unsigned_of_nat take_bit_nat_eq_self)
  have advance: "unat c' \<le> length content" "content \<noteq> [] \<longrightarrow> c < c'" "content \<noteq> [] \<longrightarrow> 0 < c'"
    using k(1,2) fits c' by (auto simp: word_less_nat_alt)
  have limit: "c' \<le> ?limit"
  proof (cases "chunk = []")
    case True
    then have "k = 0" using k(1) by simp
    moreover have "c = 0" using k(2) \<open>k = 0\<close> c(2) by auto
    ultimately show ?thesis by (simp add: c'_def)
  next
    case False
    then show ?thesis
      using upload_chunk_end_Some [OF wide False] k(1) c' by (auto simp: word_le_nat_alt)
  qed
  let ?sent = "snd (de_send_upload E ?request w)"
  show ?thesis
  proof (cases "fst (de_send_upload E ?request w)")
    case (Inr response)
    have acknowledged: "acknowledges E session content (unat c') response" using k(4) Inr c' by simp
    obtain progress where progress: "parse_drive_resumable_upload_response E store session response ?limit = Inr progress"
      "stands_for store session content c' progress"
      using acknowledged_progress [OF acknowledged size advance(3) limit props] by blast
    have "upload_progress E store session source content c 0 w = ((Inr progress, 0), ?sent)"
      using session_put_answered [of E session authorization ?headers "StreamRequest chunk" w response store ?limit progress,
          OF Inr progress(1)] chunk auth
      by (simp add: upload_progress_def Let_def)
    then show ?thesis using progress(2) k(3) c' advance by auto
  next
    case (Inl failure)
    obtain err where lost: "session_put E store session authorization ?headers (StreamRequest chunk) ?limit w = (Inl err, ?sent)"
      "is_retryable_storage_error err"
      using session_put_lost [of E session authorization ?headers "StreamRequest chunk" w failure store ?limit, OF Inl]
      by blast
    have held: "committed ?sent = unat c'" using k(3) c' by simp
    obtain progress n w' where recovered:
      "recover_drive_resumable_upload E store session 0 err ?sent = ((Inr progress, n), w')"
      "stands_for store session content c' progress" "committed w' = unat c'"
      using recover_finds_progress [where committed = committed and w = ?sent and c = c', OF protocol size auth props held advance(3,1)] by blast
    have "upload_progress E store session source content c 0 w = ((Inr progress, n), w')"
      using lost recovered(1) chunk auth by (simp add: upload_progress_def Let_def)
    then show ?thesis using recovered(2,3) advance by auto
  qed
qed

section \<open>The whole upload\<close>

lemma upload_loop_completes:
  assumes protocol: "follows_protocol E session content committed"
    and size: "unat (obj_size (us_object session)) = length content"
    and auth: "authorization_header_value E (gs_token store) (gs_provider store) = Inr authorization"
    and props: "us_expected_properties session = expected_app_properties (de_sha E) (us_key session)"
  shows "committed w = unat c \<Longrightarrow> c = 0 \<or> unat c < length content \<Longrightarrow>
    \<exists>i w'. upload_loop E store session source content c 0 w
        = (Inr (stored_of (gs_storage store) (us_key session) i), w') \<and> committed w' = length content"
proof (induction "length content - unat c" arbitrary: c w rule: less_induct)
  case less
  obtain c' progress n w' where step:
    "upload_progress E store session source content c 0 w = ((Inr progress, n), w')"
    "stands_for store session content c' progress" "committed w' = unat c'" "unat c' \<le> length content"
    "content \<noteq> [] \<longrightarrow> c < c'"
    using upload_progress_advances [where committed = committed and w = w and c = c, OF protocol size auth props less(2,3)]
    by blast
  show ?case
  proof (cases "unat c' < length content")
    case True
    then have grows: "c < c'" "progress = UploadIncomplete c'"
      using step(2,5) by (auto simp: stands_for_def)
    then have "\<not> c' < c" "length content - unat c' < length content - unat c"
      using True by (auto simp: word_less_nat_alt)
    then show ?thesis
      using less(1) [OF _ step(3)] True step(1) grows by (subst upload_loop.simps) simp
  next
    case False
    then obtain i where "progress = UploadComplete (stored_of (gs_storage store) (us_key session) i)"
      using step(2) by (auto simp: stands_for_def)
    then show ?thesis
      using step(1,3,4) False by (subst upload_loop.simps) auto
  qed
qed


end
