(* ===== verification/Drive_Samples.thy ===== *)
theory Drive_Samples
  imports Drive_Resume Metadata
begin

text \<open>
  A small Drive service used by the witnesses: it commits at most three bytes of a chunk and loses
  the response to the first one.
\<close>

section \<open>A service for the witnesses\<close>

definition sample_drive_urls :: "string url_lib" where
  "sample_drive_urls = \<lparr>url_parse = Some, url_scheme = (\<lambda>_. ''https''), url_host = (\<lambda>_. Some (HostDomain ''d'')),
     url_host_str = (\<lambda>_. Some ''d''), url_port_or_known_default = (\<lambda>_. Some 443), url_username = (\<lambda>_. []),
     url_password = (\<lambda>_. None), url_query = (\<lambda>_. None), url_fragment = (\<lambda>_. None), url_path = id, url_set_path = (\<lambda>_ path. path),
     url_clear_query = id, url_clear_fragment = id,
     url_is_base = (\<lambda>_. True), url_path_segments = (\<lambda>_. None), url_pop = id, url_pop_if_empty = id,
     url_push = (\<lambda>u _. u),
     url_append_pair = (\<lambda>u name value. if name = ''pageSize'' \<or> name = ''alt'' \<or> name = ''uploadType'' then value else u),
     url_print = id\<rparr>"

definition sample_digest :: "string \<Rightarrow> string" where
  "sample_digest _ = EMPTY_SHA256_HEX"

definition sample_key :: google_drive_object_key where
  "sample_key = \<lparr>ok_repo_namespace = ''ns'', ok_object = sample_object\<rparr>"

definition sample_folder :: drive_file where
  "sample_folder = \<lparr>df_id = Some ''folder'', df_name = Some (shard_folder_name sample_key),
     df_mime_type = Some GOOGLE_DRIVE_FOLDER_MIME_TYPE, df_size = None, df_parents = [''root''], df_trashed = False,
     df_app_properties = [(GOOGLE_DRIVE_SHARD_KIND_PROPERTY, GOOGLE_DRIVE_SHARD_KIND),
       (GOOGLE_DRIVE_SHARD_PREFIX_PROPERTY, shard_prefix sample_key)]\<rparr>"

definition sample_file :: "string \<Rightarrow> drive_file" where
  "sample_file file_id = uploaded_file sample_digest ''folder'' sample_key file_id"

definition sample_page :: "drive_file list \<Rightarrow> drive_file_list" where
  "sample_page files = \<lparr>dl_files = files, dl_next_page_token = None, dl_incomplete_search = False\<rparr>"

definition text_response :: "nat \<Rightarrow> (string \<times> string) list \<Rightarrow> string \<Rightarrow> drive_response" where
  "text_response status headers body =
     \<lparr>ds_status = status, ds_headers = headers, ds_content_length = Some (of_nat (length body)),
      ds_chunks = [Inr body], ds_stall = None\<rparr>"

definition sample_content :: string where
  "sample_content = ''abcdefg''"

type_synonym sample_service = "nat \<times> string drive_request list"

definition sample_answer :: "nat \<Rightarrow> drive_response" where
  "sample_answer n =
     (if n < 7 then text_response 308 [(''range'', ''bytes=0-'' @ nat_dec (n - 1))] [] else text_response 200 [] ''file'')"

definition sample_send :: "bool \<Rightarrow> string drive_request \<Rightarrow> sample_service \<Rightarrow> (string + drive_response) \<times> sample_service" where
  "sample_send stored request w =
     (Inr (if dq_url request = ''2'' then text_response 200 [] (if stored then ''page'' else ''none'')
           else if dq_url request = ''100'' then text_response 200 [] ''folders''
           else if dq_url request = ''media'' then text_response 200 [] sample_content
           else text_response 200 [(''location'', ''session'')] []), w)"

definition sample_put :: "string drive_request \<Rightarrow> sample_service \<Rightarrow> (upload_failure + drive_response) \<times> sample_service" where
  "sample_put request w =
     (case dq_body request of
        StreamRequest chunk \<Rightarrow>
          let n = fst w + min 3 (length chunk)
          in (if fst w = 0 then Inl (UploadTransport ''reset'') else Inr (sample_answer n), (n, snd w @ [request]))
      | _ \<Rightarrow> (Inr (sample_answer (fst w)), (fst w, snd w @ [request])))"

definition sample_drive :: "bool \<Rightarrow> (string, sample_service) drive_env" where
  "sample_drive stored = \<lparr>de_url = sample_drive_urls, de_sha = sample_digest, de_utf8_lossy = id,
     de_header_value_ok = (\<lambda>_. True), de_json_error = (\<lambda>_. None),
     de_json_file = (\<lambda>body. Some (sample_file ''new'')),
     de_json_file_list = (\<lambda>body. if body = ''page'' then Some (sample_page [sample_file ''b'', sample_file ''a''])
       else if body = ''folders'' then Some (sample_page [sample_folder]) else Some (sample_page [])),
     de_json_root = (\<lambda>_. None), de_send = sample_send stored, de_send_upload = sample_put, de_sleep = (\<lambda>_ w. w)\<rparr>"

definition sample_drive_config :: google_drive_storage_config where
  "sample_drive_config = \<lparr>gd_id = ''drive'', gd_credentials = \<lparr>gc_config_dir = [], gc_executable = []\<rparr>,
     gd_root_folder_id = ''root'', gd_display_name = None\<rparr>"

definition sample_drive_store :: "string drive_store" where
  "sample_drive_store = \<lparr>gs_storage = sample_drive_config, gs_repo_namespace = ''ns'', gs_token = ''token'',
     gs_api_base_url = GOOGLE_DRIVE_API_BASE_URL, gs_initial_backoff = GOOGLE_DRIVE_RESUMABLE_UPLOAD_INITIAL_BACKOFF\<rparr>"

definition sample_session_upload :: "string upload_session" where
  "sample_session_upload = \<lparr>us_object = sample_object, us_key = sample_key,
     us_expected_properties = expected_app_properties sample_digest sample_key, us_url = ''session''\<rparr>"

lemma sample_tokens: "page_tokens (sample_drive stored) = {}"
  by (auto simp: page_tokens_def sample_drive_def sample_page_def)

lemma sample_logs: "logs_uploads (sample_drive stored) snd"
  by (auto simp: logs_uploads_def sample_drive_def sample_put_def sample_send_def Let_def split: drive_body.splits)

lemma sample_content_size: "unat (obj_size sample_object) = length sample_content"
  by (simp add: sample_object_def sample_content_def)

lemma sample_file_identity: "carries_identity sample_digest sample_key (sample_file i)"
  unfolding sample_file_def by (rule uploaded_file_carries_identity)

lemma sample_acknowledges:
  "acknowledges (sample_drive stored) sample_session_upload sample_content n (sample_answer n)"
proof -
  have "trim ''new'' \<noteq> []" by code_simp
  then show ?thesis
    using sample_file_identity
    by (simp add: acknowledges_def sample_answer_def text_response_def response_header_def sample_content_def
        sample_drive_def sample_session_upload_def sample_file_def uploaded_file_def Let_def MAX_GOOGLE_ERROR_BODY_LEN_def)
qed

lemma sample_follows_protocol:
  "follows_protocol (sample_drive stored) sample_session_upload sample_content fst"
  unfolding follows_protocol_def
proof (intro conjI allI impI)
  fix n and w :: sample_service and request
  assume slice: "slice_request (us_url sample_session_upload) sample_content (fst w) n request"
  let ?chunk = "take n (drop (fst w) sample_content)"
  have body: "dq_body request = StreamRequest ?chunk" and n: "fst w + n \<le> length sample_content" "n \<noteq> 0"
    using slice by (auto simp: slice_request_def sample_content_def)
  show "\<exists>k \<le> n. (k = 0 \<longrightarrow> sample_content = [])
      \<and> fst (snd (de_send_upload (sample_drive stored) request w)) = fst w + k
      \<and> (\<forall>response. fst (de_send_upload (sample_drive stored) request w) = Inr response \<longrightarrow>
           acknowledges (sample_drive stored) sample_session_upload sample_content (fst w + k) response)"
    using n body sample_acknowledges
    by (intro exI [of _ "min 3 n"]) (auto simp: sample_drive_def sample_put_def Let_def)
next
  fix w :: sample_service and request
  assume probe: "probe_request (us_url sample_session_upload) sample_content request"
  then show "fst (snd (de_send_upload (sample_drive stored) request w)) = fst w"
    and "\<exists>response. fst (de_send_upload (sample_drive stored) request w) = Inr response
       \<and> acknowledges (sample_drive stored) sample_session_upload sample_content (fst w) response"
    using sample_acknowledges by (simp_all add: probe_request_def sample_drive_def sample_put_def)
qed (simp add: sample_drive_def)

lemma bind_run_step: "m w = Some (Inr x, w1) \<Longrightarrow> bind_run m f w = f x w1"
  by (simp add: bind_run_def)

lemma sample_get:
  assumes "url = Inr u"
  shows "metadata_get (sample_drive stored) ''drive'' ''token'' url w =
    (Inr (200, if u = ''2'' then (if stored then ''page'' else ''none'') else if u = ''100'' then ''folders''
       else if u = ''media'' then sample_content else []), w)"
  using assms
  by (auto simp: metadata_get_def metadata_call_def drive_call_url_def authorization_header_value_def sample_drive_def
      send_request_def sample_send_def bind_sr_def text_response_def read_google_response_body_def
      MAX_GOOGLE_ERROR_BODY_LEN_def sample_content_def Let_def)

lemma sample_lookup_url:
  "trim parent \<noteq> [] \<Longrightarrow>
   drive_object_lookup_url sample_drive_urls base parent key props None = Inr ''2''"
  by (simp add: drive_object_lookup_url_def require_drive_identifier_def drive_files_url_def drive_api_url_def
      append_pairs_def page_token_pair_def sample_drive_urls_def Let_def)

lemma sample_folder_url:
  "drive_shard_folder_lookup_url sample_drive_urls base ''root'' key None = Inr ''100''"
proof -
  have "trim ''root'' \<noteq> []" by code_simp
  then show ?thesis
  by (simp add: drive_shard_folder_lookup_url_def require_drive_identifier_def drive_files_url_def drive_api_url_def
      append_pairs_def page_token_pair_def sample_drive_urls_def Let_def)
qed
lemma sample_store_simps [simp]: "gs_storage sample_drive_store = sample_drive_config" "gs_token sample_drive_store = ''token''"
  "gs_repo_namespace sample_drive_store = ''ns''" "gd_id sample_drive_config = ''drive''" "gd_root_folder_id sample_drive_config = ''root''"
  by (simp_all add: sample_drive_store_def sample_drive_config_def)
lemma sample_env_simps [simp]: "de_url (sample_drive b) = sample_drive_urls" "de_sha (sample_drive b) = sample_digest"
  "de_send (sample_drive b) = sample_send b"
  "de_json_file_list (sample_drive b) ''page'' = Some (sample_page [sample_file ''b'', sample_file ''a''])"
  "de_json_file_list (sample_drive b) ''none'' = Some (sample_page [])"
  "de_json_file_list (sample_drive b) ''folders'' = Some (sample_page [sample_folder])"
  by (simp_all add: sample_drive_def)

lemma sample_parent_lookup:
  assumes "trim parent \<noteq> []"
  shows "lookup_objects_in_parent (sample_drive stored) sample_drive_store parent sample_key
     (expected_app_properties sample_digest sample_key) w
   = Some (Inr (if stored then map (stored_of sample_drive_config sample_key) [''b'', ''a''] else []), w)"
proof -
  have found: "verify_drive_object_file sample_drive_config sample_key (expected_app_properties sample_digest sample_key) 200
      (sample_file i) = Inr (stored_of sample_drive_config sample_key i)" if "trim i \<noteq> []" for i
    using that sample_file_identity unfolding verify_drive_object_file_Inr
    by (simp add: sample_file_def uploaded_file_def Let_def)
  have "trim ''a'' \<noteq> []" "trim ''b'' \<noteq> []" by code_simp+
  then have "objects_page (sample_drive stored) sample_drive_store parent sample_key
     (expected_app_properties sample_digest sample_key) None w
    = (Inr (if stored then map (stored_of sample_drive_config sample_key) [''b'', ''a''] else [], None), w)"
    using found by (simp add: objects_page_def sample_get [OF sample_lookup_url [OF assms]] bind_sr_def is_success_def
      parse_drive_object_lookup_success_def sample_page_def validated_drive_page_token_def)
  then show ?thesis by (simp add: lookup_objects_in_parent_def page_loop.simps)
qed

lemma sample_shard_lookup:
  "lookup_shard_folder_ids (sample_drive stored) sample_drive_store sample_key w = Some (Inr [''folder''], w)"
proof -
  have "trim ''folder'' \<noteq> []" by code_simp
  then have "verify_drive_shard_folder sample_drive_config sample_key 200 sample_folder = Inr ''folder''"
    unfolding verify_drive_shard_folder_Inr
    by (simp add: sample_folder_def GOOGLE_DRIVE_SHARD_KIND_PROPERTY_def GOOGLE_DRIVE_SHARD_PREFIX_PROPERTY_def)
  then have "shard_folders_page (sample_drive stored) sample_drive_store sample_key None w = (Inr ([''folder''], None), w)"
    by (simp add: shard_folders_page_def sample_get [OF sample_folder_url] bind_sr_def is_success_def
      parse_drive_shard_folder_lookup_success_def sample_page_def validated_drive_page_token_def)
  then show ?thesis by (simp add: lookup_shard_folder_ids_def page_loop.simps bind_run_def run_call_def)
qed

lemma sample_object_key: "object_key sample_drive_store sample_object = Inr sample_key"
proof -
  have "trim ''ns'' = ''ns''" "\<not> has_control ''ns''" by code_simp+
  then show ?thesis by (simp add: object_key_def object_key_new_def validate_repo_namespace_def sample_key_def)
qed

lemma sample_drive_lookup:
  "drive_lookup_object (sample_drive stored) sample_drive_store sample_object w
     = Some (Inr (if stored then Some (stored_of sample_drive_config sample_key ''a'') else None), w)"
proof -
  have "trim ''root'' \<noteq> []" "trim ''folder'' \<noteq> []" by code_simp+
  moreover have "sort_key so_backend_id (map (stored_of sample_drive_config sample_key) [''b'', ''a'', ''b'', ''a''])
      = map (stored_of sample_drive_config sample_key) [''a'', ''a'', ''b'', ''b'']"
    by simp
  ultimately show ?thesis
    by (simp add: drive_lookup_object_def bind_run_def run_call_def sample_object_key sample_parent_lookup
        sample_shard_lookup Let_def)
qed

lemma sample_authorization:
  "authorization_header_value (sample_drive stored) ''token'' ''drive'' = Inr ''Bearer token''"
  by (simp add: authorization_header_value_def sample_drive_def)

lemma sample_initiate:
  "initiate_upload (sample_drive stored) sample_drive_store sample_object sample_key parent w = (Inr ''session'', w)"
proof -
  have "drive_resumable_upload_url sample_drive_urls base = Inr ''resumable''" for base
    by (simp add: drive_resumable_upload_url_def drive_api_url_def append_pairs_def sample_drive_urls_def Let_def)
  moreover have "validate_drive_resumable_upload_session_url sample_drive_urls provider base ''session'' = Inr ''session''"
    for provider base
    by (simp add: validate_drive_resumable_upload_session_url_def validate_drive_url_def url_origins_match_def
        sample_drive_urls_def)
  moreover have "list_all visible_ascii ''session''" "trim ''session'' \<noteq> []" by code_simp+
  ultimately show ?thesis
    using sample_authorization [of stored]
    by (simp add: initiate_upload_def drive_call_url_def bind_sr_def send_request_def is_success_def
        response_header_def sample_send_def text_response_def)
qed

lemma sample_upload:
  "\<exists>i w'. upload_object_idempotent (sample_drive False) sample_drive_store sample_object source (Inr sample_content) (0, [])
     = Some (Inr (stored_of sample_drive_config sample_key i), w') \<and> fst w' = 7"
proof -
  have session: "\<lparr>us_object = sample_object, us_key = sample_key,
      us_expected_properties = expected_app_properties sample_digest sample_key, us_url = ''session''\<rparr> = sample_session_upload"
    by (simp add: sample_session_upload_def)
  obtain i w' where looped: "upload_loop (sample_drive False) sample_drive_store sample_session_upload source sample_content 0 0 (0, [])
      = (Inr (stored_of sample_drive_config sample_key i), w')" "fst w' = 7"
    using upload_loop_completes [OF sample_follows_protocol, of False sample_drive_store "''Bearer token''" "(0, [])" 0 source]
      sample_authorization sample_content_size
    by (auto simp: sample_session_upload_def sample_content_def)
  have "open_verified_staged_upload_file sample_digest ''drive'' sample_object source (Inr sample_content) = Inr sample_content"
    unfolding open_verified_Inr using sample_content_size by (simp add: sample_digest_def sample_object_def)
  then have "upload_object_idempotent (sample_drive False) sample_drive_store sample_object source (Inr sample_content) (0, [])
      = Some (upload_loop (sample_drive False) sample_drive_store sample_session_upload source sample_content 0 0 (0, []))"
    by (simp add: upload_object_idempotent_def upload_verified_object_idempotent_def upload_verified_object_def
        bind_run_def run_call_def sample_drive_lookup sample_object_key upload_parent_folder_id_def sample_shard_lookup
        sample_initiate session)
  then show ?thesis using looped by auto
qed

section \<open>Witnesses\<close>


lemma upload_sends_only_file_slices_witness:
  "\<exists>r w' sent. upload_object_idempotent (sample_drive False) sample_drive_store sample_object ''f'' (Inr sample_content)
      ((0, []) :: sample_service) = Some (Inr r, w') \<and> snd w' = sent
    \<and> (sent \<noteq> [] \<longrightarrow> (\<forall>request \<in> set sent. session_request (dq_url request) sample_content request))"
proof -
  obtain i w' where run: "upload_object_idempotent (sample_drive False) sample_drive_store sample_object ''f''
      (Inr sample_content) (0, []) = Some (Inr (stored_of sample_drive_config sample_key i), w')"
    using sample_upload by blast
  show ?thesis using upload_sends_only_file_slices [OF sample_logs run] run by auto
qed


lemma streamed_download_is_verified_witness:
  "\<exists>sd w'. download_object_response_for_stored_object (sample_drive True) sample_drive_store sample_object
      (stored_of sample_drive_config sample_key ''a'') ((0, []) :: sample_service) = (Inr sd, w')
    \<and> sd_items sd = [Inr sample_content] \<and> length (delivered (sd_items sd)) \<le> 7"
proof -
  have "trim ''a'' \<noteq> []" by code_simp
  then have "drive_media_download_url sample_drive_urls base ''a'' = Inr ''media''" for base
    by (simp add: drive_media_download_url_def drive_identified_url_def require_drive_identifier_def
        drive_files_url_def drive_api_url_def append_pairs_def sample_drive_urls_def Let_def)
  then have media: "media_download (sample_drive True) sample_drive_store sample_object ''a'' w
      = (Inr (text_response 200 [] sample_content), w)" for w
    using sample_authorization [of True]
    by (simp add: media_download_def drive_call_url_def bind_sr_def send_request_def sample_send_def text_response_def
        is_success_def sample_object_def sample_content_def)
  obtain sd where run: "download_object_response_for_stored_object (sample_drive True) sample_drive_store sample_object
      (stored_of sample_drive_config sample_key ''a'') ((0, []) :: sample_service) = (Inr sd, (0, []))"
    and items: "sd_items sd = verified_stream sample_digest EMPTY_SHA256_HEX 7 [] 0 [Inr sample_content]"
    using media by (fastforce simp: download_response_Inr sample_key_def text_response_def sample_object_def)
  have "sd_items sd = [Inr sample_content]"
    unfolding items by (simp add: sample_content_def sample_digest_def u64_max_def)
  then show ?thesis
    using streamed_download_is_verified [OF run] run by (auto simp: sample_object_def u64_max_def)
qed


end
