(* ===== verification/Drive_Token.thy ===== *)
theory Drive_Token
  imports Drive_Store
begin

text \<open>
  Access tokens of Google Drive (\<open>src/google_drive/access_token.rs\<close>): the cache that refreshes a
  token before it expires, and the tokens that the Google Cloud CLI prints. An instant is a number
  of nanoseconds; \<open>limit\<close> is the largest one that the platform's clock represents.
\<close>

section \<open>Tokens\<close>

definition GCLOUD_ADC_ACCESS_TOKEN_LIFETIME_SECONDS :: u64 where
  "GCLOUD_ADC_ACCESS_TOKEN_LIFETIME_SECONDS = 3600"

definition MAX_GCLOUD_ADC_TOKEN_BYTES :: nat where
  "MAX_GCLOUD_ADC_TOKEN_BYTES = 4 * 1024"

definition GOOGLE_ACCESS_TOKEN_REFRESH_SKEW :: nat where
  "GOOGLE_ACCESS_TOKEN_REFRESH_SKEW = 60"

definition NANOS_PER_SECOND :: nat where
  "NANOS_PER_SECOND = 1000000000"

record google_drive_access_token =
  at_access_token :: string
  at_token_type :: string
  at_expires_in_seconds :: "u64 option"
  at_scope :: "string list"

section \<open>The cache\<close>

record cached_access_token =
  ca_token :: google_drive_access_token
  ca_refresh_at :: nat

type_synonym token_cache = "string \<Rightarrow> cached_access_token option"

text \<open>
  \<open>get_or_refresh_at\<close>: the slot of the provider is locked for the whole call, so a call is one
  step of the cache. A token that does not outlive the skew is handed out but not kept.
\<close>

definition refresh_instant :: "nat \<Rightarrow> google_drive_access_token \<Rightarrow> nat \<Rightarrow> nat option" where
  "refresh_instant limit token now =
     (case at_expires_in_seconds token of
        None \<Rightarrow> None
      | Some seconds \<Rightarrow>
          if unat seconds < GOOGLE_ACCESS_TOKEN_REFRESH_SKEW then None
          else let refresh_at = now + (unat seconds - GOOGLE_ACCESS_TOKEN_REFRESH_SKEW) * NANOS_PER_SECOND in
            if refresh_at \<le> limit then Some refresh_at else None)"

definition get_or_refresh_at ::
  "nat \<Rightarrow> google_drive_storage_config
     \<Rightarrow> (google_drive_storage_config \<Rightarrow> ('w, google_drive_access_token) drive_call) \<Rightarrow> nat
     \<Rightarrow> (token_cache \<times> 'w, google_drive_access_token) drive_call" where
  "get_or_refresh_at limit storage access_token now = (\<lambda>(cache, w).
     case cache (gd_id storage) of
       Some cached \<Rightarrow>
         if now < ca_refresh_at cached then (Inr (ca_token cached), (cache, w))
         else (case access_token storage w of
             (Inl err, w') \<Rightarrow> (Inl err, (cache, w'))
           | (Inr token, w') \<Rightarrow> (Inr token, (cache(gd_id storage :=
               (case refresh_instant limit token now of
                  Some refresh_at \<Rightarrow> if now < refresh_at
                    then Some \<lparr>ca_token = token, ca_refresh_at = refresh_at\<rparr> else None
                | None \<Rightarrow> None)), w')))
     | None \<Rightarrow> (case access_token storage w of
             (Inl err, w') \<Rightarrow> (Inl err, (cache, w'))
           | (Inr token, w') \<Rightarrow> (Inr token, (cache(gd_id storage :=
               (case refresh_instant limit token now of
                  Some refresh_at \<Rightarrow> if now < refresh_at
                    then Some \<lparr>ca_token = token, ca_refresh_at = refresh_at\<rparr> else None
                | None \<Rightarrow> None)), w'))))"

section \<open>Tokens of the Google Cloud CLI\<close>

definition gcloud_credential_error :: "string \<Rightarrow> string \<Rightarrow> storage_error" where
  "gcloud_credential_error provider_id message = StCredentialLoad provider_id ''gcloud'' message"

datatype file_kind = IsFile | IsDirectory | IsOther

definition validate_gcloud_directory ::
  "(string \<Rightarrow> file_kind option) \<Rightarrow> string \<Rightarrow> string \<Rightarrow> unit storage_result" where
  "validate_gcloud_directory stat provider_id config_dir =
     (case stat config_dir of
        None \<Rightarrow> Inl (gcloud_credential_error provider_id ''gcloud ADC credentials directory is missing or unreadable; run gcloud auth application-default login with the configured CLOUDSDK_CONFIG'')
      | Some kind \<Rightarrow>
          if kind \<noteq> IsDirectory
          then Inl (gcloud_credential_error provider_id ''configured gcloud ADC credentials path is not a directory'')
          else if stat (path_join config_dir ''application_default_credentials.json'') \<noteq> Some IsFile
          then Inl (gcloud_credential_error provider_id ''gcloud ADC credentials directory does not contain application_default_credentials.json; run gcloud auth application-default login with the configured CLOUDSDK_CONFIG'')
          else Inr ())"

definition trim_ascii :: "string \<Rightarrow> string" where
  "trim_ascii s = rev (dropWhile is_ascii_ws (rev (dropWhile is_ascii_ws s)))"

definition parse_gcloud_access_token :: "string \<Rightarrow> string \<Rightarrow> google_drive_access_token storage_result" where
  "parse_gcloud_access_token provider_id stdout =
     (if MAX_GCLOUD_ADC_TOKEN_BYTES < length stdout
      then Inl (gcloud_credential_error provider_id ''gcloud ADC token output exceeded the accepted size'')
      else if \<not> utf8_ok stdout
      then Inl (gcloud_credential_error provider_id ''gcloud ADC token output was not valid UTF-8'')
      else let access_token = trim_ascii stdout in
        if access_token = [] \<or> has_whitespace access_token
        then Inl (gcloud_credential_error provider_id ''gcloud ADC token output did not contain one access token'')
        else Inr \<lparr>at_access_token = access_token, at_token_type = ''Bearer'',
               at_expires_in_seconds = Some GCLOUD_ADC_ACCESS_TOKEN_LIFETIME_SECONDS, at_scope = []\<rparr>)"

definition int_dec :: "int \<Rightarrow> string" where
  "int_dec i = (if i < 0 then ''-'' @ nat_dec (nat (- i)) else nat_dec (nat i))"

text \<open>How running the configured executable ends.\<close>

datatype gcloud_outcome = GcloudTimedOut | GcloudNotExecuted | GcloudExited "int option" string

definition gcloud_environment :: "gcloud_credentials_config \<Rightarrow> (string \<times> string option) list" where
  "gcloud_environment credentials =
     [(''CLOUDSDK_CONFIG'', Some (gc_config_dir credentials)), (''CLOUDSDK_CORE_DISABLE_PROMPTS'', Some ''1''),
      (''GOOGLE_APPLICATION_CREDENTIALS'', None), (''CLOUDSDK_AUTH_ACCESS_TOKEN'', None)]"

definition gcloud_access_token ::
  "(string \<Rightarrow> file_kind option)
     \<Rightarrow> (string \<Rightarrow> string list \<Rightarrow> (string \<times> string option) list \<Rightarrow> 'w \<Rightarrow> gcloud_outcome \<times> 'w) 
     \<Rightarrow> google_drive_storage_config \<Rightarrow> ('w, google_drive_access_token) drive_call" where
  "gcloud_access_token stat run storage =
     bind_sr (lift_sr (validate_gcloud_directory stat (gd_id storage) (gc_config_dir (gd_credentials storage)))) (\<lambda>_ w.
       case run (gc_executable (gd_credentials storage))
              [''auth'', ''application-default'', ''print-access-token'', ''--quiet'']
              (gcloud_environment (gd_credentials storage)) w of
         (outcome, w') \<Rightarrow> (case outcome of
             GcloudTimedOut \<Rightarrow> Inl (gcloud_credential_error (gd_id storage) ''gcloud ADC token command timed out'')
           | GcloudNotExecuted \<Rightarrow> Inl (gcloud_credential_error (gd_id storage) ''configured gcloud CLI could not be executed; install the Google Cloud CLI or correct credentials.executable'')
           | GcloudExited code stdout \<Rightarrow>
               if code \<noteq> Some 0
               then Inl (gcloud_credential_error (gd_id storage) (''gcloud ADC token command failed ''
                      @ (case code of None \<Rightarrow> ''without an exit code'' | Some c \<Rightarrow> ''with exit code '' @ int_dec c)
                      @ ''; rerun gcloud auth application-default login for the configured credentials directory''))
               else parse_gcloud_access_token (gd_id storage) stdout, w'))"

section \<open>What the cache hands out\<close>

text \<open>
  The tokens obtained so far, with the provider and the instant of the call that obtained them.
\<close>

type_synonym token_history = "(string \<times> nat \<times> google_drive_access_token) set"

definition token_cache_inv :: "token_history \<Rightarrow> token_cache \<Rightarrow> bool" where
  "token_cache_inv history cache \<longleftrightarrow>
     (\<forall>provider cached. cache provider = Some cached \<longrightarrow>
        (\<exists>obtained seconds. (provider, obtained, ca_token cached) \<in> history
           \<and> at_expires_in_seconds (ca_token cached) = Some seconds
           \<and> ca_refresh_at cached + GOOGLE_ACCESS_TOKEN_REFRESH_SKEW * NANOS_PER_SECOND = obtained + unat seconds * NANOS_PER_SECOND))"

lemma refresh_instant_Some:
  assumes "refresh_instant limit token now = Some refresh_at"
  shows "\<exists>seconds. at_expires_in_seconds token = Some seconds
    \<and> refresh_at + GOOGLE_ACCESS_TOKEN_REFRESH_SKEW * NANOS_PER_SECOND = now + unat seconds * NANOS_PER_SECOND"
proof -
  obtain seconds where seconds: "at_expires_in_seconds token = Some seconds"
    "GOOGLE_ACCESS_TOKEN_REFRESH_SKEW \<le> unat seconds"
    "refresh_at = now + (unat seconds - GOOGLE_ACCESS_TOKEN_REFRESH_SKEW) * NANOS_PER_SECOND"
    using assms by (auto simp: refresh_instant_def Let_def split: option.splits if_splits)
  then have "refresh_at + GOOGLE_ACCESS_TOKEN_REFRESH_SKEW * NANOS_PER_SECOND = now + unat seconds * NANOS_PER_SECOND"
    using mult_le_mono1 [OF seconds(2), of NANOS_PER_SECOND] unfolding seconds(3) diff_mult_distrib by linarith
  then show ?thesis using seconds(1) by blast
qed

lemma get_or_refresh_cases:
  assumes "get_or_refresh_at limit storage access_token now (cache, w) = (r, (cache', w'))"
  obtains (cached) c where "cache (gd_id storage) = Some c" "now < ca_refresh_at c" "r = Inr (ca_token c)" "cache' = cache"
    | (failed) err where "r = Inl err" "cache' = cache"
    | (refreshed) token where "r = Inr token" "access_token storage w = (Inr token, w')"
        "cache' = cache(gd_id storage := (case refresh_instant limit token now of
           Some refresh_at \<Rightarrow> if now < refresh_at then Some \<lparr>ca_token = token, ca_refresh_at = refresh_at\<rparr> else None
         | None \<Rightarrow> None))"
proof (cases "\<exists>c. cache (gd_id storage) = Some c \<and> now < ca_refresh_at c")
  case True
  then obtain c where c: "cache (gd_id storage) = Some c" "now < ca_refresh_at c" by blast
  show ?thesis by (rule cached [OF c]) (use assms c in \<open>simp_all add: get_or_refresh_at_def\<close>)
next
  case False
  obtain p w1 where obtained: "access_token storage w = (p, w1)" by fastforce
  show ?thesis
  proof (cases p)
    case (Inl err)
    show ?thesis
      by (rule failed) (use assms False obtained Inl in \<open>auto simp: get_or_refresh_at_def split: option.splits if_splits\<close>)
  next
    case (Inr token)
    show ?thesis
      by (rule refreshed [of token])
        (use assms False obtained Inr in \<open>auto simp: get_or_refresh_at_def split: option.splits if_splits\<close>)
  qed
qed

text \<open>
  C22: Tokens are never handed out near their expiry. Over any sequence of calls the cache holds,
  for each provider, only a token obtained for that provider together with an instant sixty
  seconds before its reported end; a call returns either a token it has just obtained, which joins
  the history at that instant, or one from the history of the same provider with more than sixty
  seconds left to live.
\<close>

theorem cached_token_is_alive:
  assumes "token_cache_inv history cache"
    and "get_or_refresh_at limit storage access_token now (cache, w) = (r, (cache', w'))"
  shows "token_cache_inv (history \<union> (case r of Inr token \<Rightarrow> {(gd_id storage, now, token)} | Inl _ \<Rightarrow> {})) cache'
     \<and> (case r of
          Inl _ \<Rightarrow> cache' = cache
        | Inr token \<Rightarrow> access_token storage w = (Inr token, w')
            \<or> (\<exists>obtained seconds. (gd_id storage, obtained, token) \<in> history
                 \<and> at_expires_in_seconds token = Some seconds
                 \<and> now + GOOGLE_ACCESS_TOKEN_REFRESH_SKEW * NANOS_PER_SECOND < obtained + unat seconds * NANOS_PER_SECOND))"
  using assms(2)
proof (cases rule: get_or_refresh_cases)
  case (cached c)
  obtain obtained seconds where c: "(gd_id storage, obtained, ca_token c) \<in> history"
    "at_expires_in_seconds (ca_token c) = Some seconds"
    "ca_refresh_at c + GOOGLE_ACCESS_TOKEN_REFRESH_SKEW * NANOS_PER_SECOND = obtained + unat seconds * NANOS_PER_SECOND"
    using assms(1) cached(1) unfolding token_cache_inv_def by blast
  have "now + GOOGLE_ACCESS_TOKEN_REFRESH_SKEW * NANOS_PER_SECOND < obtained + unat seconds * NANOS_PER_SECOND"
    using c(3) cached(2) by linarith
  moreover have "token_cache_inv (history \<union> {(gd_id storage, now, ca_token c)}) cache"
    using assms(1) unfolding token_cache_inv_def by blast
  ultimately show ?thesis using cached c by auto
next
  case (failed err)
  then show ?thesis using assms(1) by simp
next
  case (refreshed token)
  have "token_cache_inv (history \<union> {(gd_id storage, now, token)}) cache'"
    unfolding token_cache_inv_def
  proof (intro allI impI)
    fix provider c
    assume kept: "cache' provider = Some c"
    show "\<exists>obtained seconds. (provider, obtained, ca_token c) \<in> history \<union> {(gd_id storage, now, token)}
        \<and> at_expires_in_seconds (ca_token c) = Some seconds
        \<and> ca_refresh_at c + GOOGLE_ACCESS_TOKEN_REFRESH_SKEW * NANOS_PER_SECOND = obtained + unat seconds * NANOS_PER_SECOND"
    proof (cases "provider = gd_id storage")
      case True
      then obtain refresh_at where "refresh_instant limit token now = Some refresh_at"
        "c = \<lparr>ca_token = token, ca_refresh_at = refresh_at\<rparr>"
        using kept refreshed(3) by (auto split: option.splits if_splits)
      then show ?thesis using refresh_instant_Some True by fastforce
    next
      case False
      then show ?thesis using assms(1) kept refreshed(3) unfolding token_cache_inv_def by auto
    qed
  qed
  then show ?thesis using refreshed by auto
qed

definition sample_token_config :: google_drive_storage_config where
  "sample_token_config = \<lparr>gd_id = ''drive'', gd_credentials = \<lparr>gc_config_dir = [], gc_executable = []\<rparr>,
     gd_root_folder_id = ''root'', gd_display_name = None\<rparr>"

definition sample_access_token :: google_drive_access_token where
  "sample_access_token = \<lparr>at_access_token = ''t'', at_token_type = ''Bearer'', at_expires_in_seconds = Some 3600, at_scope = []\<rparr>"

definition sample_token_source :: "google_drive_storage_config \<Rightarrow> (nat, google_drive_access_token) drive_call" where
  "sample_token_source _ n = (Inr sample_access_token, Suc n)"

lemma cached_token_is_alive_witness:
  "\<exists>cache. get_or_refresh_at (10 ^ 20) sample_token_config sample_token_source 5 (Map.empty, 0)
       = (Inr sample_access_token, (cache, 1))
     \<and> get_or_refresh_at (10 ^ 20) sample_token_config sample_token_source (5 + 3539 * NANOS_PER_SECOND) (cache, 1)
       = (Inr sample_access_token, (cache, 1))
     \<and> token_cache_inv {(''drive'', 5, sample_access_token)} cache"
proof -
  let ?cache = "[''drive'' \<mapsto> \<lparr>ca_token = sample_access_token, ca_refresh_at = 5 + 3540 * NANOS_PER_SECOND\<rparr>]"
  have run: "get_or_refresh_at (10 ^ 20) sample_token_config sample_token_source 5 (Map.empty, 0)
      = (Inr sample_access_token, (?cache, 1))"
    by (simp add: get_or_refresh_at_def sample_token_config_def sample_token_source_def refresh_instant_def
        sample_access_token_def GOOGLE_ACCESS_TOKEN_REFRESH_SKEW_def NANOS_PER_SECOND_def)
  have again: "get_or_refresh_at (10 ^ 20) sample_token_config sample_token_source (5 + 3539 * NANOS_PER_SECOND) (?cache, 1)
      = (Inr sample_access_token, (?cache, 1))"
    by (simp add: get_or_refresh_at_def sample_token_config_def NANOS_PER_SECOND_def)
  have "token_cache_inv {} Map.empty" by (simp add: token_cache_inv_def)
  then have "token_cache_inv {(''drive'', 5, sample_access_token)} ?cache"
    using cached_token_is_alive [OF _ run, of "{}"] by (simp add: sample_token_config_def)
  then show ?thesis using run again by blast
qed

end
