(* ===== verification/Drive_Root.thy ===== *)
theory Drive_Root
  imports Drive_Lookup
begin

text \<open>
  The root folder of the storage (\<open>src/google_drive/root.rs\<close>): validation of the configured folder
  and provisioning of the default one, which must be the application's own.
\<close>

section \<open>Provisioning the default folder\<close>

definition GOOGLE_DRIVE_DEFAULT_ROOT_FOLDER_NAME :: string where
  "GOOGLE_DRIVE_DEFAULT_ROOT_FOLDER_NAME = ''.lfscloud''"

definition GOOGLE_DRIVE_FOLDER_KIND_PROPERTY :: string where
  "GOOGLE_DRIVE_FOLDER_KIND_PROPERTY = ''lfsCloudFolderKind''"

definition GOOGLE_DRIVE_STORAGE_ROOT_KIND :: string where
  "GOOGLE_DRIVE_STORAGE_ROOT_KIND = ''storageRoot''"

definition GOOGLE_DRIVE_ROOT_PARENT_ALIAS :: string where
  "GOOGLE_DRIVE_ROOT_PARENT_ALIAS = ''root''"

record 'u drive_root_provisioner =
  rp_api_base_url :: 'u

definition root_provisioner_new :: "'u url_lib \<Rightarrow> string \<Rightarrow> 'u drive_root_provisioner storage_result" where
  "root_provisioner_new L api_base_url =
     map_res (\<lambda>url. \<lparr>rp_api_base_url = url\<rparr>) (validate_drive_api_base_url L api_base_url)"

definition drive_default_root_folder_lookup_query :: string where
  "drive_default_root_folder_lookup_query =
     quoted GOOGLE_DRIVE_ROOT_PARENT_ALIAS @ '' in parents and trashed = false and name = ''
     @ quoted (escape_drive_query_string GOOGLE_DRIVE_DEFAULT_ROOT_FOLDER_NAME) @ '' and mimeType = ''
     @ quoted GOOGLE_DRIVE_FOLDER_MIME_TYPE @ '' and appProperties has { key=''
     @ quoted GOOGLE_DRIVE_FOLDER_KIND_PROPERTY @ '' and value='' @ quoted GOOGLE_DRIVE_STORAGE_ROOT_KIND @ '' }''"

definition drive_default_root_folder_lookup_url :: "'u url_lib \<Rightarrow> 'u \<Rightarrow> string option \<Rightarrow> 'u storage_result" where
  "drive_default_root_folder_lookup_url L api_base_url page_token =
     map_res (append_pairs L
       ([(''fields'', ''files(id,name,mimeType,parents,trashed,appProperties),nextPageToken,incompleteSearch''),
         (''pageSize'', ''100''), (''spaces'', ''drive''), (''corpora'', ''user''),
         (''includeItemsFromAllDrives'', ''true''), (''supportsAllDrives'', ''true''),
         (''q'', drive_default_root_folder_lookup_query)] @ page_token_pair page_token))
       (drive_files_url L api_base_url [])"

definition drive_default_root_folder_metadata :: drive_metadata where
  "drive_default_root_folder_metadata =
     \<lparr>dm_name = GOOGLE_DRIVE_DEFAULT_ROOT_FOLDER_NAME, dm_mime_type = Some GOOGLE_DRIVE_FOLDER_MIME_TYPE,
      dm_parents = [GOOGLE_DRIVE_ROOT_PARENT_ALIAS],
      dm_app_properties = [(GOOGLE_DRIVE_FOLDER_KIND_PROPERTY, GOOGLE_DRIVE_STORAGE_ROOT_KIND)]\<rparr>"

definition has_single_drive_parent :: "string list \<Rightarrow> bool" where
  "has_single_drive_parent parents \<longleftrightarrow> (case parents of [parent] \<Rightarrow> trim parent \<noteq> [] | _ \<Rightarrow> False)"

definition verify_drive_default_root_folder ::
  "google_drive_storage_config \<Rightarrow> nat \<Rightarrow> drive_file \<Rightarrow> string storage_result" where
  "verify_drive_default_root_folder storage status f =
     bind_res (reported_id (gd_id storage) status ''Google Drive default root-folder response did not include id'' f)
       (\<lambda>file_id.
          if \<not> (df_name f = Some GOOGLE_DRIVE_DEFAULT_ROOT_FOLDER_NAME
                 \<and> df_mime_type f = Some GOOGLE_DRIVE_FOLDER_MIME_TYPE
                 \<and> \<not> df_trashed f
                 \<and> has_single_drive_parent (df_parents f)
                 \<and> map_of (df_app_properties f) GOOGLE_DRIVE_FOLDER_KIND_PROPERTY = Some GOOGLE_DRIVE_STORAGE_ROOT_KIND)
          then Inl (StUpstream (gd_id storage) (Some status)
                 ''Google Drive default root-folder response did not match its expected identity'')
          else Inr file_id)"

definition parse_drive_default_root_folder_page ::
  "('u, 'w) drive_env \<Rightarrow> google_drive_storage_config \<Rightarrow> nat \<Rightarrow> string \<Rightarrow> (string list \<times> string option) storage_result" where
  "parse_drive_default_root_folder_page E storage status body =
     (case de_json_file_list E body of
        None \<Rightarrow> Inl (StUpstream (gd_id storage) (Some status)
            ''Google Drive default root-folder lookup response was invalid JSON'')
      | Some page \<Rightarrow>
          if dl_incomplete_search page
          then Inl (StRetryable (gd_id storage) ''Google Drive default root-folder lookup returned incomplete results'')
          else bind_res (traverse_res (verify_drive_default_root_folder storage status) (dl_files page)) (\<lambda>folder_ids.
            map_res (\<lambda>next_page_token. (folder_ids, next_page_token))
              (validated_drive_page_token (gd_id storage) status (dl_next_page_token page)
                 ''Google Drive default root-folder lookup'')))"

text \<open>\<open>parse_drive_root_provision_error\<close> is the common classification, as for object lookups.\<close>

definition parse_drive_root_provision_error ::
  "('u, 'w) drive_env \<Rightarrow> string \<Rightarrow> string \<Rightarrow> nat \<Rightarrow> string \<Rightarrow> storage_error" where
  "parse_drive_root_provision_error E provider token status body =
     (let diagnostic = drive_error_message (de_json_error E) token body in
      case classify_common_drive_error provider status diagnostic of
        Some err \<Rightarrow> err
      | None \<Rightarrow> StUpstream provider (Some status) (dg_message diagnostic))"

definition default_root_page ::
  "('u, 'w) drive_env \<Rightarrow> 'u drive_root_provisioner \<Rightarrow> google_drive_storage_config \<Rightarrow> string \<Rightarrow> string option
     \<Rightarrow> ('w, string list \<times> string option) drive_call" where
  "default_root_page E provisioner storage token page_token =
     bind_sr (metadata_call E (gd_id storage) token HttpGet
         (drive_default_root_folder_lookup_url (de_url E) (rp_api_base_url provisioner) page_token)
         [(''accept'', ''application/json'')] [] EmptyRequest)
       (\<lambda>(status, body). lift_sr
          (if \<not> is_success status
           then Inl (parse_drive_root_provision_error E (gd_id storage) token status body)
           else parse_drive_default_root_folder_page E storage status body))"

definition ensure_default_root_folder ::
  "('u, 'w) drive_env \<Rightarrow> 'u drive_root_provisioner \<Rightarrow> google_drive_storage_config \<Rightarrow> string \<Rightarrow> ('w, string) drive_run" where
  "ensure_default_root_folder E provisioner storage token =
     bind_run (page_loop (default_root_page E provisioner storage token)
         (StRetryable (gd_id storage) ''Google Drive default root-folder lookup repeated a page token'') [] None {})
       (\<lambda>folder_ids. case remdups_adj (sort folder_ids) of
          folder_id # _ \<Rightarrow> run_call (ret_sr folder_id)
        | [] \<Rightarrow> run_call
            (bind_sr (metadata_call E (gd_id storage) token HttpPost
                (drive_file_create_url (de_url E) (rp_api_base_url provisioner))
                [(''accept'', ''application/json''), (''content-type'', ''application/json'')] []
                (JsonRequest drive_default_root_folder_metadata))
              (\<lambda>(status, body). lift_sr
                 (if \<not> is_success status
                  then Inl (parse_drive_root_provision_error E (gd_id storage) token status body)
                  else case de_json_file E body of
                      None \<Rightarrow> Inl (StUpstream (gd_id storage) (Some status)
                          ''Google Drive default root-folder creation response was invalid JSON'')
                    | Some f \<Rightarrow> verify_drive_default_root_folder storage status f))))"

section \<open>Validating the configured folder\<close>

record google_drive_root_folder =
  rf_provider_id :: string
  rf_id :: string
  rf_name :: string
  rf_can_add_children :: bool

definition parse_drive_root_success ::
  "('u, 'w) drive_env \<Rightarrow> google_drive_storage_config \<Rightarrow> string \<Rightarrow> nat \<Rightarrow> string
     \<Rightarrow> google_drive_root_folder storage_result" where
  "parse_drive_root_success E storage token status body =
     (let upstream = (\<lambda>message. StUpstream (gd_id storage) (Some status) message);
          root = debug_str (gd_root_folder_id storage) in
      case de_json_root E body of
        None \<Rightarrow> Inl (upstream ''Google Drive root folder response was invalid JSON'')
      | Some metadata \<Rightarrow>
          (case (case rt_meta_id metadata of Some i \<Rightarrow> if trim i \<noteq> [] then Some i else None | None \<Rightarrow> None) of
             None \<Rightarrow> Inl (upstream ''Google Drive root folder response did not include id'')
           | Some i \<Rightarrow>
               let name = (case rt_meta_name metadata of
                     Some value \<Rightarrow> if trim value \<noteq> [] then value else gd_root_folder_id storage
                   | None \<Rightarrow> gd_root_folder_id storage) in
               if i \<noteq> gd_root_folder_id storage
               then Inl (upstream (''Google Drive returned folder id '' @ debug_str i
                      @ '' for configured root_folder_id '' @ root))
               else if rt_meta_mime_type metadata \<noteq> Some GOOGLE_DRIVE_FOLDER_MIME_TYPE
               then Inl (upstream (''Google Drive root_folder_id '' @ root @ '' is not a folder''))
               else if rt_meta_trashed metadata
               then Inl (upstream (''Google Drive root_folder_id '' @ root @ '' is trashed''))
               else (case rt_meta_can_add_children metadata of
                   None \<Rightarrow> Inl (upstream
                       ''Google Drive root folder response did not include capabilities.canAddChildren'')
                 | Some can_add_children \<Rightarrow>
                     if \<not> can_add_children
                     then Inl (upstream (sanitize_drive_diagnostic token
                            (''Google Drive root folder '' @ root @ '' is visible but cannot accept child objects'')))
                     else Inr \<lparr>rf_provider_id = gd_id storage, rf_id = i, rf_name = name,
                            rf_can_add_children = can_add_children\<rparr>)))"

definition parse_drive_root_error ::
  "('u, 'w) drive_env \<Rightarrow> google_drive_storage_config \<Rightarrow> string \<Rightarrow> nat \<Rightarrow> string \<Rightarrow> storage_error" where
  "parse_drive_root_error E storage token status body =
     (let diagnostic = drive_error_message (de_json_error E) token body in
      case classify_common_drive_error (gd_id storage) status diagnostic of
        Some err \<Rightarrow> err
      | None \<Rightarrow>
          if status = 404
          then StUpstream (gd_id storage) (Some status) (''Google Drive root_folder_id ''
                 @ debug_str (gd_root_folder_id storage) @ '' was not found or is not accessible'')
          else StUpstream (gd_id storage) (Some status) (dg_message diagnostic))"

definition validate_root_folder ::
  "('u, 'w) drive_env \<Rightarrow> 'u \<Rightarrow> google_drive_storage_config \<Rightarrow> string \<Rightarrow> ('w, google_drive_root_folder) drive_call" where
  "validate_root_folder E api_base_url storage token =
     bind_sr (metadata_call E (gd_id storage) token HttpGet
         (drive_file_metadata_url (de_url E) api_base_url (gd_root_folder_id storage))
         [(''accept'', ''application/json'')] [] EmptyRequest)
       (\<lambda>(status, body). lift_sr
          (if \<not> is_success status then Inl (parse_drive_root_error E storage token status body)
           else parse_drive_root_success E storage token status body))"

section \<open>The folder that provisioning returns\<close>

definition app_owned_root :: "drive_file \<Rightarrow> bool" where
  "app_owned_root f \<longleftrightarrow> df_name f = Some GOOGLE_DRIVE_DEFAULT_ROOT_FOLDER_NAME
     \<and> df_mime_type f = Some GOOGLE_DRIVE_FOLDER_MIME_TYPE \<and> \<not> df_trashed f
     \<and> has_single_drive_parent (df_parents f)
     \<and> map_of (df_app_properties f) GOOGLE_DRIVE_FOLDER_KIND_PROPERTY = Some GOOGLE_DRIVE_STORAGE_ROOT_KIND"

definition reported_root :: "('u, 'w) drive_env \<Rightarrow> string \<Rightarrow> bool" where
  "reported_root E folder_id \<longleftrightarrow> (\<exists>f. df_id f = Some folder_id \<and> app_owned_root f
     \<and> (\<exists>body. de_json_file E body = Some f
          \<or> (\<exists>page. de_json_file_list E body = Some page \<and> f \<in> set (dl_files page))))"

lemma verify_drive_default_root_folder_Inr:
  "verify_drive_default_root_folder storage status f = Inr i \<Longrightarrow> df_id f = Some i \<and> app_owned_root f"
  by (auto simp: verify_drive_default_root_folder_def app_owned_root_def split: if_splits)

lemma default_root_page_reported:
  "pages_satisfy (reported_root E) (default_root_page E provisioner storage token)"
  unfolding pages_satisfy_def
proof (intro allI impI ballI)
  fix page_token w page w' i
  assume run: "default_root_page E provisioner storage token page_token w = (Inr page, w')" and member: "i \<in> set (fst page)"
  obtain status body listed where page: "de_json_file_list E body = Some listed"
    "traverse_res (verify_drive_default_root_folder storage status) (dl_files listed) = Inr (fst page)"
    using run by (auto simp: default_root_page_def bind_sr_Inr parse_drive_default_root_folder_page_def
        split: if_splits option.splits)
  then show "reported_root E i"
    using traverse_res_member [OF page(2) member] verify_drive_default_root_folder_Inr
    unfolding reported_root_def by blast
qed

text \<open>Provisioning never adopts a folder that is not the application's own.\<close>

lemma ensure_default_root_folder_owned:
  assumes "ensure_default_root_folder E provisioner storage token w = Some (Inr folder_id, w')"
  shows "reported_root E folder_id"
proof -
  obtain folder_ids w1 where pages: "page_loop (default_root_page E provisioner storage token)
         (StRetryable (gd_id storage) ''Google Drive default root-folder lookup repeated a page token'') [] None {} w
       = Some (Inr folder_ids, w1)"
    and rest: "(case remdups_adj (sort folder_ids) of
          folder_id # _ \<Rightarrow> run_call (ret_sr folder_id)
        | [] \<Rightarrow> run_call
            (bind_sr (metadata_call E (gd_id storage) token HttpPost
                (drive_file_create_url (de_url E) (rp_api_base_url provisioner))
                [(''accept'', ''application/json''), (''content-type'', ''application/json'')] []
                (JsonRequest drive_default_root_folder_metadata))
              (\<lambda>(status, body). lift_sr
                 (if \<not> is_success status
                  then Inl (parse_drive_root_provision_error E (gd_id storage) token status body)
                  else case de_json_file E body of
                      None \<Rightarrow> Inl (StUpstream (gd_id storage) (Some status)
                          ''Google Drive default root-folder creation response was invalid JSON'')
                    | Some f \<Rightarrow> verify_drive_default_root_folder storage status f)))) w1 = Some (Inr folder_id, w')"
    using assms unfolding ensure_default_root_folder_def bind_run_Inr by blast
  show ?thesis
  proof (cases "remdups_adj (sort folder_ids)")
    case Nil
    then obtain status f body where "de_json_file E body = Some f"
      "verify_drive_default_root_folder storage status f = Inr folder_id"
      using rest by (auto simp: bind_sr_Inr split: if_splits option.splits)
    then show ?thesis using verify_drive_default_root_folder_Inr unfolding reported_root_def by blast
  next
    case (Cons first others)
    then have "folder_id = first" using rest by simp
    moreover have "first \<in> set folder_ids"
      using arg_cong [OF Cons, of set] by auto
    ultimately show ?thesis
      using page_loop_satisfies [OF pages default_root_page_reported] by simp
  qed
qed

end
