(* ===== verification/Github_Auth.thy ===== *)
theory Github_Auth
  imports Server_State Drive_Key
begin

text \<open>
  The GitHub repository provider and the personal-access-token login (\<open>src/github_auth.rs\<close>).
  A request is the transformation \<open>gh_get\<close> of the outside world; JSON decoding, the URL crate and
  building the HTTP client are fields of \<open>github_env\<close>. The adapter is a \<open>repository_provider\<close> of
  the server state, so a property here is one of the authorization the request handlers run.
\<close>

section \<open>Responses\<close>

definition MAX_GITHUB_ERROR_BODY_LEN :: nat where
  "MAX_GITHUB_ERROR_BODY_LEN = 16 * 1024"

definition GITHUB_USER_FETCH_TIMEOUT :: nat where
  "GITHUB_USER_FETCH_TIMEOUT = 30"

definition GITHUB_PERMISSION_CHECK_TIMEOUT :: nat where
  "GITHUB_PERMISSION_CHECK_TIMEOUT = 30"

text \<open>A decoded JSON value, as the error details of the API contain it.\<close>

datatype json_value =
    JNull | JBool bool | JNumber string | JString string | JArray "json_value list"
  | JObject "(string \<times> json_value) list"

fun json_as_str :: "json_value \<Rightarrow> string option" where
  "json_as_str (JString s) = Some s"
| "json_as_str _ = None"

fun json_as_object :: "json_value \<Rightarrow> (string \<times> json_value) list option" where
  "json_as_object (JObject members) = Some members"
| "json_as_object _ = None"

text \<open>What the code asks of a request error.\<close>

record reqwest_error =
  re_timeout :: bool
  re_connect :: bool
  re_decode :: bool
  re_body :: bool

definition decode_failure :: reqwest_error where
  "decode_failure = \<lparr>re_timeout = False, re_connect = False, re_decode = True, re_body = False\<rparr>"

record github_response =
  gr_status :: nat
  gr_has_sso :: bool
  gr_chunks :: "(reqwest_error + string) list"

record 'u github_request =
  gq_url :: 'u
  gq_headers :: "(string \<times> string) list"
  gq_bearer :: string
  gq_timeout :: nat

record github_user_response =
  gu_login :: "string option"
  gu_id :: "u64 option"

record github_permission_response =
  gp_permission :: "string option"
  gp_user :: "u64 option option"

record github_api_error_response =
  ge_message :: "string option"
  ge_errors :: "json_value list"

record ('u, 'w) github_env =
  gh_url :: "'u url_lib"
  gh_url_error :: "string \<Rightarrow> string"
  gh_utf8_lossy :: "string \<Rightarrow> string"
  gh_json_user :: "string \<Rightarrow> github_user_response option"
  gh_json_permission :: "string \<Rightarrow> github_permission_response option"
  gh_json_identity :: "string \<Rightarrow> u64 option option"
  gh_json_error :: "string \<Rightarrow> github_api_error_response option"
  gh_client_error :: "string option"
  gh_get :: "'u github_request \<Rightarrow> 'w \<Rightarrow> (reqwest_error + github_response) \<times> 'w"

type_synonym ('w, 'a) github_call = "('w, server_error, 'a) sr"

definition github_success :: "nat \<Rightarrow> bool" where
  "github_success status \<longleftrightarrow> 200 \<le> status \<and> status < 300"

text \<open>\<open>response.json()\<close>: the whole body is read, then decoded.\<close>

definition response_json :: "(string \<Rightarrow> 'a option) \<Rightarrow> github_response \<Rightarrow> reqwest_error + 'a" where
  "response_json decode response =
     bind_res (traverse_res (\<lambda>chunk. chunk) (gr_chunks response))
       (\<lambda>chunks. ok_or decode_failure (decode (concat chunks)))"

definition read_github_error_body :: "('u, 'w) github_env \<Rightarrow> github_response \<Rightarrow> reqwest_error + string" where
  "read_github_error_body E response =
     map_res (gh_utf8_lossy E) (read_bounded_response_body MAX_GITHUB_ERROR_BODY_LEN [] (gr_chunks response))"

section \<open>Diagnostics\<close>

text \<open>Every control character becomes a space; those above U+007F take two bytes.\<close>

fun blank_controls :: "string \<Rightarrow> string" where
  "blank_controls (a # b # s) =
     (if is_ascii_control a then CHR '' '' # blank_controls (b # s)
      else if byte a = 194 \<and> 128 \<le> byte b \<and> byte b \<le> 159 then CHR '' '' # blank_controls s
      else a # blank_controls (b # s))"
| "blank_controls [a] = (if is_ascii_control a then '' '' else [a])"
| "blank_controls [] = []"

definition sanitize_github_diagnostic_value :: "string \<Rightarrow> string" where
  "sanitize_github_diagnostic_value value = trim_start (trim_end (take_chars 200 (blank_controls value)))"

definition repository_provider_upstream_error :: "github_provider_config \<Rightarrow> nat option \<Rightarrow> string \<Rightarrow> server_error" where
  "repository_provider_upstream_error provider status message =
     SvRepositoryProvider (RpUpstream (gh_id provider) status (sanitize_github_diagnostic_value message))"

definition nonblank :: "string option \<Rightarrow> string option" where
  "nonblank value = (case value of Some s \<Rightarrow> if is_blank s then None else Some s | None \<Rightarrow> None)"

fun join_with :: "string \<Rightarrow> string list \<Rightarrow> string" where
  "join_with sep [] = []"
| "join_with sep [p] = p"
| "join_with sep (p # q # ps) = p @ sep @ join_with sep (q # ps)"

definition github_api_error_detail :: "json_value \<Rightarrow> string option" where
  "github_api_error_detail err =
     (case nonblank (json_as_str err) of
        Some message \<Rightarrow> Some message
      | None \<Rightarrow> (case json_as_object err of
          None \<Rightarrow> None
        | Some members \<Rightarrow>
            let get = (\<lambda>key. nonblank (Option.bind (map_of members key) json_as_str)) in
            (case get ''message'' of
               Some message \<Rightarrow> Some message
             | None \<Rightarrow>
                 let detail = List.map_filter get [''resource'', ''field'', ''code''] in
                 if detail = [] then None else Some (join_with ''.'' detail))))"

definition github_api_error_diagnostic :: "github_api_error_response \<Rightarrow> string option" where
  "github_api_error_diagnostic err =
     (let parts = (case nonblank (ge_message err) of Some message \<Rightarrow> [message] | None \<Rightarrow> [])
            @ take 3 (List.map_filter github_api_error_detail (ge_errors err))
      in if parts = [] then None else Some (join_with '': '' parts))"

definition GITHUB_REDACTED :: string where
  "GITHUB_REDACTED = ''<redacted>''"

definition redact_github_secret :: "string \<Rightarrow> string \<Rightarrow> string" where
  "redact_github_secret message token =
     (if token = [] then message else replace_str token GITHUB_REDACTED message)"

definition github_api_error_message :: "('u, 'w) github_env \<Rightarrow> string \<Rightarrow> string \<Rightarrow> string option" where
  "github_api_error_message E body token =
     nonblank (map_option (\<lambda>message. redact_github_secret message token)
       (Option.bind (gh_json_error E body) github_api_error_diagnostic))"

definition has_substring :: "string \<Rightarrow> string \<Rightarrow> bool" where
  "has_substring pattern s \<longleftrightarrow> split_once_str pattern s \<noteq> None"

definition github_forbidden_body_indicates_auth :: "('u, 'w) github_env \<Rightarrow> string \<Rightarrow> bool" where
  "github_forbidden_body_indicates_auth E body =
     (case Option.bind (gh_json_error E body) github_api_error_diagnostic of
        None \<Rightarrow> False
      | Some diagnostic \<Rightarrow>
          let message = ascii_lower diagnostic in
          list_ex (\<lambda>pattern. has_substring pattern message)
            [''scope'', ''resource not accessible'', ''bad credentials'', ''requires authentication'',
             ''personal access token''])"

definition github_user_request_error :: "github_provider_config \<Rightarrow> nat option \<Rightarrow> reqwest_error \<Rightarrow> server_error" where
  "github_user_request_error provider status source =
     repository_provider_upstream_error provider status
       (if re_timeout source then ''github authenticated user request timed out''
        else if re_connect source then ''github api connection failed while fetching authenticated user''
        else if re_decode source then ''malformed github authenticated user response''
        else if re_body source then ''github authenticated user response body could not be read''
        else ''github authenticated user request failed'')"

definition github_user_status_error ::
  "('u, 'w) github_env \<Rightarrow> github_provider_config \<Rightarrow> nat \<Rightarrow> string \<Rightarrow> string \<Rightarrow> server_error" where
  "github_user_status_error E provider status body token =
     repository_provider_upstream_error provider (Some status)
       (case github_api_error_message E body token of
          Some message \<Rightarrow> message | None \<Rightarrow> ''github authenticated user request failed'')"

definition github_permission_request_error ::
  "github_provider_config \<Rightarrow> nat option \<Rightarrow> reqwest_error \<Rightarrow> server_error" where
  "github_permission_request_error provider status source =
     repository_provider_upstream_error provider status
       (if re_timeout source then ''github repository permission request timed out''
        else if re_connect source then ''github api connection failed while checking repository permission''
        else if re_decode source then ''malformed github repository permission response''
        else if re_body source then ''github repository permission response body could not be read''
        else ''github repository permission request failed'')"

definition github_permission_status_error ::
  "('u, 'w) github_env \<Rightarrow> github_provider_config \<Rightarrow> nat \<Rightarrow> string \<Rightarrow> string \<Rightarrow> server_error" where
  "github_permission_status_error E provider status body token =
     repository_provider_upstream_error provider (Some status)
       (case github_api_error_message E body token of
          Some message \<Rightarrow> message | None \<Rightarrow> ''github repository permission request failed'')"

definition github_permission_denied ::
  "github_provider_config \<Rightarrow> repository_identity \<Rightarrow> repository_permission \<Rightarrow> server_error" where
  "github_permission_denied provider repository required =
     SvRepositoryProvider (RpPermissionDenied (gh_id provider) (ri_owner repository) (ri_name repository) required)"

definition github_repository_not_found :: "github_provider_config \<Rightarrow> repository_identity \<Rightarrow> server_error" where
  "github_repository_not_found provider repository =
     SvRepositoryProvider (RpRepositoryNotFound (gh_id provider) (ri_owner repository) (ri_name repository))"

definition malformed_github_user_response_error :: "github_provider_config \<Rightarrow> string \<Rightarrow> server_error" where
  "malformed_github_user_response_error provider message =
     repository_provider_upstream_error provider None
       (''malformed github authenticated user response: '' @ message)"

section \<open>Endpoints\<close>

definition invalid_github_url :: "('u, 'w) github_env \<Rightarrow> string \<Rightarrow> string \<Rightarrow> server_error" where
  "invalid_github_url E path value =
     SvInvalidConfiguration (path @ '' must be a valid absolute URL: '' @ gh_url_error E value)"

definition validate_github_transport_url :: "'u url_lib \<Rightarrow> 'u \<Rightarrow> string \<Rightarrow> bool \<Rightarrow> unit server_result" where
  "validate_github_transport_url L url path allow_insecure_http =
     (if allow_insecure_http \<or> uses_protected_http_transport L url then Inr ()
      else Inl (SvInvalidConfiguration (path
        @ '' must use HTTPS unless it targets an exact loopback IP; enable allow_insecure_http only for a trusted development network'')))"

definition github_api_base :: "('u, 'w) github_env \<Rightarrow> github_provider_config \<Rightarrow> 'u server_result" where
  "github_api_base E provider =
     (case url_parse (gh_url E) (gh_api_url provider) of
        None \<Rightarrow> Inl (invalid_github_url E ''github api_url'' (gh_api_url provider))
      | Some endpoint \<Rightarrow> map_res (\<lambda>_. endpoint)
          (validate_github_transport_url (gh_url E) endpoint ''github api_url'' (gh_allow_insecure_http provider)))"

definition github_user_endpoint :: "('u, 'w) github_env \<Rightarrow> github_provider_config \<Rightarrow> 'u server_result" where
  "github_user_endpoint E provider =
     map_res (\<lambda>endpoint. url_clear_fragment (gh_url E) (url_clear_query (gh_url E)
         (url_set_path (gh_url E) endpoint (trim_end_matches CHR ''/'' (url_path (gh_url E) endpoint) @ ''/user''))))
       (github_api_base E provider)"

definition append_github_api_path :: "'u url_lib \<Rightarrow> 'u \<Rightarrow> string list \<Rightarrow> 'u server_result" where
  "append_github_api_path L endpoint segments =
     (if url_is_base L endpoint then Inr (foldl (url_push L) (url_pop_if_empty L endpoint) segments)
      else Inl (SvInvalidConfiguration ''github api_url cannot be used as a base URL''))"

definition github_api_endpoint ::
  "('u, 'w) github_env \<Rightarrow> github_provider_config \<Rightarrow> string list \<Rightarrow> 'u server_result" where
  "github_api_endpoint E provider segments =
     bind_res (github_api_base E provider) (\<lambda>endpoint.
       map_res (\<lambda>url. url_clear_fragment (gh_url E) (url_clear_query (gh_url E) url))
         (append_github_api_path (gh_url E) endpoint segments))"

definition github_repository_permission_endpoint ::
  "('u, 'w) github_env \<Rightarrow> github_provider_config \<Rightarrow> repository_identity \<Rightarrow> repository_user \<Rightarrow> 'u server_result" where
  "github_repository_permission_endpoint E provider repository user =
     github_api_endpoint E provider
       [''repos'', ri_owner repository, ri_name repository, ''collaborators'', ru_login user, ''permission'']"

definition github_repository_identity_endpoint ::
  "('u, 'w) github_env \<Rightarrow> github_provider_config \<Rightarrow> repository_identity \<Rightarrow> 'u server_result" where
  "github_repository_identity_endpoint E provider repository =
     github_api_endpoint E provider [''repos'', ri_owner repository, ri_name repository]"

section \<open>Validation\<close>

definition positive_id :: "string \<Rightarrow> u64 option" where
  "positive_id s = (case parse_u64 s of Inr i \<Rightarrow> if 0 < i then Some i else None | Inl _ \<Rightarrow> None)"

definition validate_github_permission_path_segment :: "string \<Rightarrow> string \<Rightarrow> unit server_result" where
  "validate_github_permission_path_segment value label =
     (if is_blank value then Inl (SvInvalidRequest (''github permission '' @ label @ '' must not be blank''))
      else Inr ())"

definition validate_github_permission_request ::
  "github_provider_config \<Rightarrow> repository_identity \<Rightarrow> repository_user \<Rightarrow> u64 server_result" where
  "validate_github_permission_request provider repository user =
     (if ri_provider_id repository \<noteq> gh_id provider
      then Inl (SvInvalidRequest (''repository provider id '' @ ri_provider_id repository
             @ '' does not match github provider '' @ gh_id provider))
      else if ru_provider_id user \<noteq> gh_id provider
      then Inl (SvInvalidRequest (''user provider id '' @ ru_provider_id user
             @ '' does not match github provider '' @ gh_id provider))
      else
        bind_res (validate_github_permission_path_segment (ri_owner repository) ''repository owner'') (\<lambda>_.
        bind_res (validate_github_permission_path_segment (ri_name repository) ''repository name'') (\<lambda>_.
        bind_res (validate_github_permission_path_segment (ru_login user) ''repository user login'') (\<lambda>_.
          ok_or (SvInvalidRequest (''github repository user '' @ ru_login user
              @ '' is missing a valid stable numeric ID''))
            (Option.bind (ru_stable_id user) positive_id)))))"

definition github_permission_satisfies :: "repository_permission \<Rightarrow> repository_permission \<Rightarrow> bool" where
  "github_permission_satisfies granted required =
     (case required of
        PermRead \<Rightarrow> granted = PermRead \<or> granted = PermWrite \<or> granted = PermAdmin
      | PermWrite \<Rightarrow> granted = PermWrite \<or> granted = PermAdmin
      | PermAdmin \<Rightarrow> granted = PermAdmin)"

datatype github_base_permission = BaseGranted repository_permission | BaseNone | BaseUnknown string

definition base_permission :: "github_permission_response \<Rightarrow> github_base_permission" where
  "base_permission response =
     (case gp_permission response of
        None \<Rightarrow> BaseNone
      | Some permission \<Rightarrow>
          if permission = ''read'' then BaseGranted PermRead
          else if permission = ''write'' then BaseGranted PermWrite
          else if permission = ''admin'' then BaseGranted PermAdmin
          else if permission = ''none'' then BaseNone
          else BaseUnknown permission)"

definition positive_u64 :: "u64 option \<Rightarrow> u64 option" where
  "positive_u64 value = (case value of Some i \<Rightarrow> if 0 < i then Some i else None | None \<Rightarrow> None)"

definition stable_user_id :: "github_permission_response \<Rightarrow> u64 option" where
  "stable_user_id response = Option.bind (gp_user response) positive_u64"

definition show_invalid_request :: "server_error \<Rightarrow> string" where
  "show_invalid_request err = (case err of SvInvalidRequest message \<Rightarrow> ''invalid request: '' @ message | _ \<Rightarrow> [])"

definition into_repository_user ::
  "github_provider_config \<Rightarrow> github_user_response \<Rightarrow> repository_user server_result" where
  "into_repository_user provider response =
     bind_res (ok_or (malformed_github_user_response_error provider ''missing login'') (gu_login response)) (\<lambda>login.
     bind_res (map_err (\<lambda>err. malformed_github_user_response_error provider (''invalid login: '' @ show_invalid_request err))
         (validate_sensitive_github_value login ''github authenticated user login'')) (\<lambda>login.
     bind_res (ok_or (malformed_github_user_response_error provider ''missing id'') (positive_u64 (gu_id response))) (\<lambda>i.
       Inr \<lparr>ru_provider_id = gh_id provider, ru_login = login, ru_stable_id = Some (nat_dec (unat i))\<rparr>)))"

section \<open>Requests\<close>

definition default_github_api_http_client :: "('u, 'w) github_env \<Rightarrow> unit server_result" where
  "default_github_api_http_client E =
     (case gh_client_error E of
        None \<Rightarrow> Inr ()
      | Some message \<Rightarrow> Inl (SvInvalidConfiguration
          (''github api http client could not be built: '' @ sanitize_github_diagnostic_value message)))"

definition github_api_headers :: "(string \<times> string) list" where
  "github_api_headers = [(''accept'', ''application/vnd.github+json''), (''x-github-api-version'', ''2022-11-28'')]"

definition github_request ::
  "('u, 'w) github_env \<Rightarrow> (nat option \<Rightarrow> reqwest_error \<Rightarrow> server_error) \<Rightarrow> string \<Rightarrow> nat \<Rightarrow> 'u
     \<Rightarrow> ('w, github_response) github_call" where
  "github_request E request_error token timeout endpoint w =
     (case gh_get E \<lparr>gq_url = endpoint, gq_headers = github_api_headers, gq_bearer = token, gq_timeout = timeout\<rparr> w of
        (r, w') \<Rightarrow> (map_err (request_error None) r, w'))"

definition fetch_authenticated_user ::
  "('u, 'w) github_env \<Rightarrow> github_provider_config \<Rightarrow> string \<Rightarrow> ('w, repository_user) github_call" where
  "fetch_authenticated_user E provider token =
     bind_sr (lift_sr (github_user_endpoint E provider)) (\<lambda>endpoint.
     bind_sr (github_request E (github_user_request_error provider) token GITHUB_USER_FETCH_TIMEOUT endpoint) (\<lambda>response.
       lift_sr (let status = gr_status response in
         if \<not> github_success status then
           (if status = 401 then Inl (SvRepositoryProvider (RpAuthenticationRequired (gh_id provider)))
            else bind_res (map_err (github_user_request_error provider (Some status)) (read_github_error_body E response))
              (\<lambda>body. if status = 403 \<and> github_forbidden_body_indicates_auth E body
                 then Inl (SvRepositoryProvider (RpAuthenticationRequired (gh_id provider)))
                 else Inl (github_user_status_error E provider status body token)))
         else bind_res (map_err (github_user_request_error provider (Some status)) (response_json (gh_json_user E) response))
           (into_repository_user provider))))"

text \<open>
  The failing statuses of a permission request; only the answer to 404 differs between the identity
  and the permission endpoint.
\<close>

definition github_permission_failure ::
  "('u, 'w) github_env \<Rightarrow> github_provider_config \<Rightarrow> repository_identity \<Rightarrow> string \<Rightarrow> server_error
     \<Rightarrow> github_response \<Rightarrow> 'a server_result" where
  "github_permission_failure E provider repository token not_found response =
     (let status = gr_status response in
      if status = 401 then Inl (SvRepositoryProvider (RpAuthenticationRequired (gh_id provider)))
      else if status = 404 then Inl not_found
      else if status = 403 \<and> gr_has_sso response
      then Inl (SvRepositoryProvider (RpSsoRequired (gh_id provider) (ri_owner repository)))
      else bind_res (map_err (github_permission_request_error provider (Some status)) (read_github_error_body E response))
        (\<lambda>body. if status = 403 \<and> github_forbidden_body_indicates_auth E body
           then Inl (SvRepositoryProvider (RpAuthenticationRequired (gh_id provider)))
           else Inl (github_permission_status_error E provider status body token)))"

definition expected_repository_id :: "repository_identity \<Rightarrow> u64 server_result" where
  "expected_repository_id repository =
     (case ri_stable_id repository of
        None \<Rightarrow> Inl (SvInvalidConfiguration (''github repository '' @ ri_owner repository @ ''/'' @ ri_name repository
            @ '' is missing its stable repository ID''))
      | Some value \<Rightarrow> ok_or (SvInvalidConfiguration (''github repository '' @ ri_owner repository @ ''/'' @ ri_name repository
            @ '' has an invalid stable repository ID'')) (positive_id value))"

definition verify_repository_identity ::
  "('u, 'w) github_env \<Rightarrow> github_provider_config \<Rightarrow> string \<Rightarrow> repository_identity \<Rightarrow> ('w, unit) github_call" where
  "verify_repository_identity E provider token repository =
     bind_sr (lift_sr (expected_repository_id repository)) (\<lambda>expected_id.
     bind_sr (lift_sr (github_repository_identity_endpoint E provider repository)) (\<lambda>endpoint.
     bind_sr (github_request E (github_permission_request_error provider) token GITHUB_PERMISSION_CHECK_TIMEOUT endpoint)
       (\<lambda>response. lift_sr
         (let status = gr_status response in
          if \<not> github_success status
          then github_permission_failure E provider repository token (github_repository_not_found provider repository) response
          else bind_res (map_err (github_permission_request_error provider (Some status))
                   (response_json (gh_json_identity E) response)) (\<lambda>reported.
             bind_res (ok_or (repository_provider_upstream_error provider (Some status)
                   ''malformed github repository identity response'') reported) (\<lambda>actual_id.
               if actual_id \<noteq> expected_id then Inl (github_repository_not_found provider repository)
               else Inr ()))))))"

definition github_check_permission_with_client ::
  "('u, 'w) github_env \<Rightarrow> github_provider_config \<Rightarrow> string \<Rightarrow> repository_identity \<Rightarrow> repository_user
     \<Rightarrow> repository_permission \<Rightarrow> ('w, repository_authorization) github_call" where
  "github_check_permission_with_client E provider token repository user required =
     bind_sr (lift_sr (validate_github_permission_request provider repository user)) (\<lambda>expected_user_id.
     bind_sr (verify_repository_identity E provider token repository) (\<lambda>_.
     bind_sr (lift_sr (github_repository_permission_endpoint E provider repository user)) (\<lambda>endpoint.
     bind_sr (github_request E (github_permission_request_error provider) token GITHUB_PERMISSION_CHECK_TIMEOUT endpoint)
       (\<lambda>response. lift_sr
         (let status = gr_status response; denied = github_permission_denied provider repository required in
          if \<not> github_success status then github_permission_failure E provider repository token denied response
          else bind_res (map_err (github_permission_request_error provider (Some status))
                   (response_json (gh_json_permission E) response)) (\<lambda>reported.
            case base_permission reported of
              BaseNone \<Rightarrow> Inl denied
            | BaseUnknown _ \<Rightarrow> Inl denied
            | BaseGranted granted \<Rightarrow>
                if \<not> github_permission_satisfies granted required then Inl denied
                else bind_res (ok_or (repository_provider_upstream_error provider (Some status)
                       ''malformed github repository permission user identity'') (stable_user_id reported)) (\<lambda>actual_user_id.
                  if actual_user_id \<noteq> expected_user_id then Inl denied
                  else Inr \<lparr>rz_user = user, rz_repository = repository, rz_required = required,
                         rz_granted = granted\<rparr>)))))))"

text \<open>The adapter that the server registers for a GitHub provider.\<close>

definition github_check_permission ::
  "('u, 'w) github_env \<Rightarrow> github_provider_config \<Rightarrow> 'w repository_provider" where
  "github_check_permission E provider repository authentication required =
     bind_sr (lift_sr (github_pat_from_secret (ra_access_token authentication))) (\<lambda>token.
     bind_sr (lift_sr (default_github_api_http_client E)) (\<lambda>_.
       github_check_permission_with_client E provider token repository (ra_user authentication) required))"

section \<open>Login\<close>

definition GITHUB_PERSONAL_ACCESS_TOKEN_LOGIN_PATH :: string where
  "GITHUB_PERSONAL_ACCESS_TOKEN_LOGIN_PATH = ''/auth/github/pat''"

record github_login_route_response =
  gl_provider_id :: string
  gl_login :: string
  gl_stable_id :: "string option"
  gl_lfs_token :: string
  gl_lfs_token_expires_at_unix_seconds :: int

definition github_login_route_response_new ::
  "github_provider_config \<Rightarrow> repository_user \<Rightarrow> issued_lfs_session \<Rightarrow> github_login_route_response" where
  "github_login_route_response_new provider user session =
     \<lparr>gl_provider_id = gh_id provider, gl_login = ru_login user, gl_stable_id = ru_stable_id user,
      gl_lfs_token = is_token session,
      gl_lfs_token_expires_at_unix_seconds = unix_timestamp_seconds (sm_expires_at (is_metadata session))\<rparr>"

datatype github_login_body = LoginAccepted github_login_route_response | LoginFailed string string

record github_login_reply =
  lr_status :: nat
  lr_headers :: "(string \<times> string) list"
  lr_body :: github_login_body

definition protect_github_login_response :: "github_login_reply \<Rightarrow> github_login_reply" where
  "protect_github_login_response reply = reply\<lparr>lr_headers := lr_headers reply
     @ [(''cache-control'', ''no-store, private''), (''pragma'', ''no-cache''), (''referrer-policy'', ''no-referrer'')]\<rparr>"

text \<open>The value of the \<open>Authorization\<close> header, if any; \<open>to_str\<close> accepts visible ASCII only.\<close>

definition github_bearer_token :: "string option \<Rightarrow> string option" where
  "github_bearer_token authorization =
     (case authorization of
        None \<Rightarrow> None
      | Some value \<Rightarrow>
          if \<not> list_all visible_ascii value then None
          else case split_once CHR '' '' value of
              None \<Rightarrow> None
            | Some (scheme, token) \<Rightarrow> if eq_ignore_case scheme ''Bearer'' \<and> token \<noteq> [] then Some token else None)"

definition personal_access_token_denied :: server_error where
  "personal_access_token_denied = SvUnauthorized ''a valid GitHub personal access token is required''"

fun login_failure_status :: "server_error \<Rightarrow> nat \<times> u64 option" where
  "login_failure_status (SvRateLimited seconds) = (429, Some seconds)"
| "login_failure_status (SvUnauthorized _) = (401, None)"
| "login_failure_status (SvRepositoryProvider (RpAuthenticationRequired _)) = (401, None)"
| "login_failure_status (SvRepositoryProvider (RpPermissionDenied _ _ _ _)) = (401, None)"
| "login_failure_status (SvRepositoryProvider (RpSsoRequired _ _)) = (401, None)"
| "login_failure_status _ = (502, None)"

definition login_failure_response :: "server_error \<Rightarrow> github_login_reply" where
  "login_failure_response err = (case login_failure_status err of (status, retry_after_seconds) \<Rightarrow>
     \<lparr>lr_status = status,
      lr_headers = (case retry_after_seconds of
          Some seconds \<Rightarrow> [(''retry-after'', nat_dec (unat seconds))] | None \<Rightarrow> []),
      lr_body = LoginFailed (if status = 401 then ''unauthorized'' else ''github_authentication_failed'')
        ''GitHub personal-access-token login could not be completed.''\<rparr>)"

definition github_personal_access_token_login_route ::
  "('u, 'w) github_env \<Rightarrow> session_crypto \<Rightarrow> int \<Rightarrow> (nat \<Rightarrow> string) \<Rightarrow> string \<Rightarrow> github_provider_config
     \<Rightarrow> string option \<Rightarrow> session_store \<times> 'w \<Rightarrow> github_login_reply \<times> (session_store \<times> 'w)" where
  "github_personal_access_token_login_route E C now gen nonce provider authorization = (\<lambda>(store, w).
     case bind_res (ok_or personal_access_token_denied (github_bearer_token authorization))
            (\<lambda>presented. map_err (\<lambda>_. personal_access_token_denied) (github_pat_from_secret presented)) of
       Inl err \<Rightarrow> (protect_github_login_response (login_failure_response err), (store, w))
     | Inr token \<Rightarrow> (case fetch_authenticated_user E provider token w of
         (Inl err, w') \<Rightarrow> (protect_github_login_response (login_failure_response err), (store, w'))
       | (Inr user, w') \<Rightarrow>
           (case issue_session_with_github_pat C now gen nonce store user [''personal_access_token''] token of
             (Inl err, store') \<Rightarrow> (protect_github_login_response (login_failure_response err), (store', w'))
           | (Inr session, store') \<Rightarrow>
               (protect_github_login_response \<lparr>lr_status = 200, lr_headers = [],
                  lr_body = LoginAccepted (github_login_route_response_new provider user session)\<rparr>, (store', w')))))"

section \<open>Permission checks\<close>

definition allowed_permissions :: "repository_permission \<Rightarrow> string set" where
  "allowed_permissions required = (case required of
       PermRead \<Rightarrow> {''read'', ''write'', ''admin''} | PermWrite \<Rightarrow> {''write'', ''admin''} | PermAdmin \<Rightarrow> {''admin''})"

definition permission_query :: "string \<Rightarrow> 'u \<Rightarrow> 'u github_request" where
  "permission_query token endpoint =
     \<lparr>gq_url = endpoint, gq_headers = github_api_headers, gq_bearer = token, gq_timeout = GITHUB_PERMISSION_CHECK_TIMEOUT\<rparr>"

lemma github_request_Inr:
  "github_request E request_error token timeout endpoint w = (Inr response, w') \<longleftrightarrow>
     gh_get E \<lparr>gq_url = endpoint, gq_headers = github_api_headers, gq_bearer = token, gq_timeout = timeout\<rparr> w
       = (Inr response, w')"
  by (auto simp: github_request_def split: prod.splits)

lemma positive_id_Some: "positive_id s = Some i \<longleftrightarrow> parse_u64 s = Inr i \<and> 0 < i"
  by (auto simp: positive_id_def split: sum.splits if_splits)

lemma positive_u64_Some: "positive_u64 v = Some i \<longleftrightarrow> v = Some i \<and> 0 < i"
  by (auto simp: positive_u64_def split: option.splits if_splits)

lemma github_permission_failure_Inl [simp]:
  "github_permission_failure E provider repository token not_found response \<noteq> Inr x"
  by (auto simp: github_permission_failure_def Let_def split: if_splits)

lemma granted_allowed:
  assumes "base_permission reported = BaseGranted granted" "github_permission_satisfies granted required"
  shows "\<exists>permission. gp_permission reported = Some permission \<and> permission \<in> allowed_permissions required"
  using assms by (cases required)
    (auto simp: base_permission_def github_permission_satisfies_def allowed_permissions_def
      split: option.splits if_splits)

lemma verify_repository_identity_Inr:
  assumes "verify_repository_identity E provider token repository w = (Inr (), w')"
  shows "\<exists>stable repo_id endpoint response. ri_stable_id repository = Some stable \<and> positive_id stable = Some repo_id
    \<and> github_repository_identity_endpoint E provider repository = Inr endpoint
    \<and> gh_get E (permission_query token endpoint) w = (Inr response, w')
    \<and> github_success (gr_status response)
    \<and> response_json (gh_json_identity E) response = Inr (Some repo_id)"
proof -
  obtain repo_id endpoint response where run: "expected_repository_id repository = Inr repo_id"
    "github_repository_identity_endpoint E provider repository = Inr endpoint"
    "gh_get E (permission_query token endpoint) w = (Inr response, w')"
    "github_success (gr_status response)"
    "response_json (gh_json_identity E) response = Inr (Some repo_id)"
    using assms
    by (auto simp: verify_repository_identity_def bind_sr_Inr github_request_Inr permission_query_def Let_def split: if_splits)
  moreover obtain stable where "ri_stable_id repository = Some stable" "positive_id stable = Some repo_id"
    using run(1) by (auto simp: expected_repository_id_def split: option.splits)
  ultimately show ?thesis by blast
qed

lemma github_pat_from_secret_Inr: "github_pat_from_secret secret = Inr token \<Longrightarrow> token = secret"
  by (auto simp: github_pat_from_secret_def validate_sensitive_github_value_def Let_def split: if_splits)

text \<open>The decision on a permission response.\<close>

lemma permission_decision_Inr:
  assumes "(case base_permission reported of
              BaseNone \<Rightarrow> Inl denied
            | BaseUnknown _ \<Rightarrow> Inl denied
            | BaseGranted granted \<Rightarrow>
                if \<not> github_permission_satisfies granted required then Inl denied
                else bind_res (ok_or malformed (stable_user_id reported)) (\<lambda>actual_user_id.
                  if actual_user_id \<noteq> expected_user_id then Inl denied
                  else Inr (authorization granted))) = Inr a"
  shows "\<exists>granted. base_permission reported = BaseGranted granted \<and> github_permission_satisfies granted required
    \<and> stable_user_id reported = Some expected_user_id"
  using assms by (cases "base_permission reported") (auto split: if_splits)

lemma github_check_permission_Inr:
  assumes "github_check_permission E provider repository authentication required w = (Inr authorization, w')"
  obtains user_id w1 endpoint response reported granted where
      "validate_github_permission_request provider repository (ra_user authentication) = Inr user_id"
      "verify_repository_identity E provider (ra_access_token authentication) repository w = (Inr (), w1)"
      "github_repository_permission_endpoint E provider repository (ra_user authentication) = Inr endpoint"
      "gh_get E (permission_query (ra_access_token authentication) endpoint) w1 = (Inr response, w')"
      "github_success (gr_status response)"
      "response_json (gh_json_permission E) response = Inr reported"
      "base_permission reported = BaseGranted granted" "github_permission_satisfies granted required"
      "stable_user_id reported = Some user_id"
proof -
  have "github_check_permission_with_client E provider (ra_access_token authentication) repository
      (ra_user authentication) required w = (Inr authorization, w')"
    using assms github_pat_from_secret_Inr
    by (auto simp: github_check_permission_def bind_sr_Inr)
  then obtain user_id w1 endpoint response w2 where run:
      "validate_github_permission_request provider repository (ra_user authentication) = Inr user_id"
      "verify_repository_identity E provider (ra_access_token authentication) repository w = (Inr (), w1)"
      "github_repository_permission_endpoint E provider repository (ra_user authentication) = Inr endpoint"
      "gh_get E (permission_query (ra_access_token authentication) endpoint) w1 = (Inr response, w')"
    and decision: "(let status = gr_status response; denied = github_permission_denied provider repository required in
          if \<not> github_success status
          then github_permission_failure E provider repository (ra_access_token authentication) denied response
          else bind_res (map_err (github_permission_request_error provider (Some status))
                   (response_json (gh_json_permission E) response)) (\<lambda>reported.
            case base_permission reported of
              BaseNone \<Rightarrow> Inl denied
            | BaseUnknown _ \<Rightarrow> Inl denied
            | BaseGranted granted \<Rightarrow>
                if \<not> github_permission_satisfies granted required then Inl denied
                else bind_res (ok_or (repository_provider_upstream_error provider (Some status)
                       ''malformed github repository permission user identity'') (stable_user_id reported)) (\<lambda>actual_user_id.
                  if actual_user_id \<noteq> user_id then Inl denied
                  else Inr \<lparr>rz_user = ra_user authentication, rz_repository = repository, rz_required = required,
                         rz_granted = granted\<rparr>))) = Inr authorization"
    unfolding github_check_permission_with_client_def bind_sr_Inr lift_sr_simp github_request_Inr permission_query_def
      prod.inject by (elim exE conjE) simp
  have ok: "github_success (gr_status response)"
    using decision github_permission_failure_Inl by (auto simp: Let_def split: if_splits)
  then obtain reported where "response_json (gh_json_permission E) response = Inr reported"
    and "\<exists>granted. base_permission reported = BaseGranted granted \<and> github_permission_satisfies granted required
      \<and> stable_user_id reported = Some user_id"
    using decision by (auto simp only: Let_def bind_res_Inr_iff map_err_Inr_iff not_not if_False if_True simp_thms
        dest!: permission_decision_Inr)
  then show thesis using that run ok by blast
qed

lemma validate_github_permission_request_Inr:
  "validate_github_permission_request provider repository user = Inr user_id \<Longrightarrow>
     ri_provider_id repository = gh_id provider \<and> ru_provider_id user = gh_id provider
     \<and> (\<exists>stable. ru_stable_id user = Some stable \<and> positive_id stable = Some user_id)"
  by (cases "ru_stable_id user")
    (auto simp: validate_github_permission_request_def split: if_splits)

definition mapping_identity :: "repository_mapping \<Rightarrow> repository_identity" where
  "mapping_identity repository =
     \<lparr>ri_provider_id = rm_repo_provider repository, ri_stable_id = Some (rm_provider_repository_id repository),
      ri_host = rm_host repository, ri_owner = rm_owner repository, ri_name = rm_name repository\<rparr>"

lemma provider_authorize_Inr:
  assumes "provider_authorize providers repository session operation w = (Inr (), w')"
    and "map_of providers (rm_repo_provider repository) = Some check_permission"
  shows "\<exists>token authorization. sr_github_pat session = Some token
     \<and> check_permission (mapping_identity repository) \<lparr>ra_user = session_user session, ra_access_token = token\<rparr>
         (permission_required_for_batch_operation operation) w = (Inr authorization, w')"
  using assms
  by (auto simp: provider_authorize_def mapping_identity_def Let_def split: if_splits option.splits prod.splits)

text \<open>
  C19: A batch operation is authorized at GitHub only on GitHub's own word, given for the user's token
  and for this very repository and user. The token is sent only to a protected endpoint (or one the
  configuration exempts); the repository endpoint reports exactly the numeric ID of the configured
  mapping, so a repository that was deleted and recreated under the same name is refused; the
  permission endpoint then reports the user ID of the session and a permission that suffices: one of
  read, write and admin for a download, write or admin for an upload.
\<close>

theorem github_authorization_is_verified:
  assumes "map_of providers (rm_repo_provider repository) = Some (github_check_permission E provider)"
    and "provider_authorize providers repository session operation w = (Inr (), w')"
  shows "\<exists>token base repo_url repo_response repo_id w1 user_url user_response reported user_id stable_id permission.
     sr_github_pat session = Some token
     \<and> url_parse (gh_url E) (gh_api_url provider) = Some base
     \<and> (gh_allow_insecure_http provider \<or> uses_protected_http_transport (gh_url E) base)
     \<and> github_repository_identity_endpoint E provider (mapping_identity repository) = Inr repo_url
     \<and> gh_get E (permission_query token repo_url) w = (Inr repo_response, w1)
     \<and> github_success (gr_status repo_response)
     \<and> response_json (gh_json_identity E) repo_response = Inr (Some repo_id)
     \<and> parse_u64 (rm_provider_repository_id repository) = Inr repo_id \<and> 0 < repo_id
     \<and> github_repository_permission_endpoint E provider (mapping_identity repository) (session_user session) = Inr user_url
     \<and> gh_get E (permission_query token user_url) w1 = (Inr user_response, w')
     \<and> github_success (gr_status user_response)
     \<and> response_json (gh_json_permission E) user_response = Inr reported
     \<and> gp_user reported = Some (Some user_id)
     \<and> sm_stable_id (sr_metadata session) = Some stable_id \<and> parse_u64 stable_id = Inr user_id \<and> 0 < user_id
     \<and> gp_permission reported = Some permission
     \<and> permission \<in> (case operation of Download \<Rightarrow> {''read'', ''write'', ''admin''} | Upload \<Rightarrow> {''write'', ''admin''})"
proof -
  let ?R = "mapping_identity repository" and ?U = "session_user session"
  let ?need = "permission_required_for_batch_operation operation"
  obtain token authorization where token: "sr_github_pat session = Some token"
    and check: "github_check_permission E provider ?R \<lparr>ra_user = ?U, ra_access_token = token\<rparr> ?need w = (Inr authorization, w')"
    using provider_authorize_Inr [OF assms(2,1)] by blast
  obtain user_id w1 user_url user_response reported granted where user:
      "validate_github_permission_request provider ?R ?U = Inr user_id"
      "verify_repository_identity E provider token ?R w = (Inr (), w1)"
      "github_repository_permission_endpoint E provider ?R ?U = Inr user_url"
      "gh_get E (permission_query token user_url) w1 = (Inr user_response, w')"
      "github_success (gr_status user_response)"
      "response_json (gh_json_permission E) user_response = Inr reported"
      "base_permission reported = BaseGranted granted" "github_permission_satisfies granted ?need"
      "stable_user_id reported = Some user_id"
    using check by (rule github_check_permission_Inr) simp
  obtain repo_id repo_url repo_response where repo: "positive_id (rm_provider_repository_id repository) = Some repo_id"
      "github_repository_identity_endpoint E provider ?R = Inr repo_url"
      "gh_get E (permission_query token repo_url) w = (Inr repo_response, w1)"
      "github_success (gr_status repo_response)"
      "response_json (gh_json_identity E) repo_response = Inr (Some repo_id)"
    using verify_repository_identity_Inr [OF user(2)] by (auto simp: mapping_identity_def)
  obtain base where base: "url_parse (gh_url E) (gh_api_url provider) = Some base"
      "gh_allow_insecure_http provider \<or> uses_protected_http_transport (gh_url E) base"
    using repo(2) by (auto simp: github_repository_identity_endpoint_def github_api_endpoint_def github_api_base_def
        validate_github_transport_url_def split: option.splits if_splits)
  obtain stable_id where stable: "sm_stable_id (sr_metadata session) = Some stable_id" "positive_id stable_id = Some user_id"
    using validate_github_permission_request_Inr [OF user(1)] by (auto simp: session_user_def)
  obtain permission where permission: "gp_permission reported = Some permission" "permission \<in> allowed_permissions ?need"
    using granted_allowed [OF user(7,8)] by blast
  have "gp_user reported = Some (Some user_id)"
    using user(9) by (cases "gp_user reported") (auto simp: stable_user_id_def positive_u64_Some)
  moreover have "permission \<in> (case operation of Download \<Rightarrow> {''read'', ''write'', ''admin''} | Upload \<Rightarrow> {''write'', ''admin''})"
    using permission(2)
    by (cases operation) (auto simp: permission_required_for_batch_operation_def allowed_permissions_def)
  ultimately show ?thesis
    using token base repo(2-5) user(3-6) stable permission(1) repo(1)[unfolded positive_id_Some] stable(2)[unfolded positive_id_Some]
    by blast
qed

section \<open>Sessions issued at login\<close>

lemma issue_session_with_pat_Inr:
  assumes "issue_session_with_github_pat C now gen nonce store user scopes pat = (Inr issued, store')" "store_ok store"
  shows "live C store' t (is_token issued) =
       (if t < sm_expires_at (is_metadata issued) then Some \<lparr>sr_metadata = is_metadata issued, sr_github_pat = Some pat\<rparr> else None)
     \<and> sm_provider_id (is_metadata issued) = ru_provider_id user \<and> sm_login (is_metadata issued) = ru_login user
     \<and> sm_stable_id (is_metadata issued) = ru_stable_id user \<and> sm_issued_at (is_metadata issued) = now
     \<and> sm_expires_at (is_metadata issued) = now + int DEFAULT_LFS_SESSION_TTL"
proof -
  obtain expires_at d where issued: "time_checked_add now DEFAULT_LFS_SESSION_TTL = Some expires_at"
    "is_metadata issued = session_metadata_new user scopes now expires_at"
    and store': "st_sessions (ls_state store') = bt_insert (sc_sha256 C (is_token issued))
       \<lparr>sr_metadata = is_metadata issued, sr_github_pat = Some pat\<rparr> (st_sessions (pruned store now))"
    using issue_session_Inr [OF assms(1) [unfolded issue_session_with_github_pat_def]] by (auto simp: Let_def)
  have "bt_ok (st_sessions (pruned store now))" using pruned_ok [OF assms(2)] by blast
  then have "live C store' t (is_token issued) =
      (if t < sm_expires_at (is_metadata issued) then Some \<lparr>sr_metadata = is_metadata issued, sr_github_pat = Some pat\<rparr> else None)"
    by (simp add: live_def store')
  then show ?thesis
    using issued by (auto simp: session_metadata_new_def time_checked_add_def split: if_splits)
qed

lemma issue_session_live:
  assumes "issue_session_record C now gen nonce store user scopes ttl pat = (r, store')" "store_ok store" "now \<le> t"
    and "\<And>issued. r = Inr issued \<Longrightarrow> sc_sha256 C token \<noteq> sc_sha256 C (is_token issued)"
  shows "live C store' t token = live C store t token"
proof -
  have pruned: "(case map_of (st_sessions (pruned store now)) k of
        Some r \<Rightarrow> if t < sm_expires_at (sr_metadata r) then Some r else None | None \<Rightarrow> None)
      = (case map_of (st_sessions (ls_state store)) k of
        Some r \<Rightarrow> if t < sm_expires_at (sr_metadata r) then Some r else None | None \<Rightarrow> None)" for k
    using assms(2,3) by (auto simp: pruned_def map_of_prune store_ok_def split: option.splits)
  show ?thesis
  proof (cases r)
    case (Inl err)
    then show ?thesis
      using issue_session_Inl [of C now gen nonce store user scopes ttl pat err store'] assms(1) pruned
      by (auto simp: live_def)
  next
    case (Inr issued)
    obtain rec where rec: "st_sessions (ls_state store') =
        bt_insert (sc_sha256 C (is_token issued)) rec (st_sessions (pruned store now))"
      using issue_session_Inr [OF assms(1) [unfolded Inr]] by (auto simp: Let_def)
    have "bt_ok (st_sessions (pruned store now))" using pruned_ok [OF assms(2)] by blast
    then show ?thesis
      using assms(4) [OF Inr] pruned by (simp add: live_def rec)
  qed
qed

lemma fetch_authenticated_user_Inr:
  assumes "fetch_authenticated_user E provider token w = (Inr user, w')"
  obtains endpoint response login user_id where
    "github_user_endpoint E provider = Inr endpoint"
    "gh_get E \<lparr>gq_url = endpoint, gq_headers = github_api_headers, gq_bearer = token, gq_timeout = GITHUB_USER_FETCH_TIMEOUT\<rparr> w
       = (Inr response, w')"
    "github_success (gr_status response)"
    "response_json (gh_json_user E) response = Inr \<lparr>gu_login = Some login, gu_id = Some user_id\<rparr>"
    "0 < user_id" "user = \<lparr>ru_provider_id = gh_id provider, ru_login = login, ru_stable_id = Some (nat_dec (unat user_id))\<rparr>"
proof -
  obtain endpoint response where run: "github_user_endpoint E provider = Inr endpoint"
    "gh_get E \<lparr>gq_url = endpoint, gq_headers = github_api_headers, gq_bearer = token, gq_timeout = GITHUB_USER_FETCH_TIMEOUT\<rparr> w
       = (Inr response, w')" "github_success (gr_status response)"
    and json: "bind_res (map_err (github_user_request_error provider (Some (gr_status response)))
          (response_json (gh_json_user E) response)) (into_repository_user provider) = Inr user"
    using assms
    by (auto simp: fetch_authenticated_user_def bind_sr_Inr github_request_Inr Let_def simp del: bind_res_Inr_iff
        split: if_splits elim!: bind_res.elims)
  then obtain reported where reported: "response_json (gh_json_user E) response = Inr reported"
    "into_repository_user provider reported = Inr user" by auto
  obtain login user_id where user: "gu_login reported = Some login" "gu_id reported = Some user_id" "0 < user_id"
    "user = \<lparr>ru_provider_id = gh_id provider, ru_login = login, ru_stable_id = Some (nat_dec (unat user_id))\<rparr>"
    using reported(2)
    by (auto simp: into_repository_user_def positive_u64_Some validate_sensitive_github_value_def Let_def split: if_splits)
  have "reported = \<lparr>gu_login = Some login, gu_id = Some user_id\<rparr>" using user(1,2) by (cases reported) simp
  then show thesis using that run reported(1) user(3,4) by blast
qed

lemma login_failure_status_range: "fst (login_failure_status err) \<in> {401, 429, 502}"
  by (cases err rule: login_failure_status.cases) simp_all

lemma login_failure_reply:
  "lr_status (protect_github_login_response (login_failure_response err)) \<in> {401, 429, 502}"
  using login_failure_status_range [of err]
  by (cases "login_failure_status err") (simp add: login_failure_response_def protect_github_login_response_def)

lemma login_route_cases:
  assumes "github_personal_access_token_login_route E C now gen nonce provider authorization (store, w) = (reply, (store', w'))"
  obtains (refused) "lr_status reply \<in> {401, 429, 502}" "store' = store"
    | (unissued) user token err where "lr_status reply \<in> {401, 429, 502}"
        "issue_session_with_github_pat C now gen nonce store user [''personal_access_token''] token = (Inl err, store')"
    | (accepted) token user session where "github_bearer_token authorization = Some token" "github_pat_from_secret token = Inr token"
        "fetch_authenticated_user E provider token w = (Inr user, w')"
        "issue_session_with_github_pat C now gen nonce store user [''personal_access_token''] token = (Inr session, store')"
        "lr_status reply = 200" "lr_body reply = LoginAccepted (github_login_route_response_new provider user session)"
proof -
  let ?presented = "bind_res (ok_or personal_access_token_denied (github_bearer_token authorization))
            (\<lambda>presented. map_err (\<lambda>_. personal_access_token_denied) (github_pat_from_secret presented))"
  show thesis
  proof (cases ?presented)
    case (Inl err)
    show ?thesis
      by (rule refused) (use assms Inl login_failure_reply in
          \<open>auto simp: github_personal_access_token_login_route_def simp del: bind_res_Inr_iff\<close>)
  next
    case (Inr token)
    have token: "github_bearer_token authorization = Some token" "github_pat_from_secret token = Inr token"
      using Inr github_pat_from_secret_Inr by fastforce+
    obtain user_result w1 where fetch: "fetch_authenticated_user E provider token w = (user_result, w1)" by fastforce
    show ?thesis
    proof (cases user_result)
      case (Inl err)
      show ?thesis
        by (rule refused) (use assms Inr fetch Inl login_failure_reply in
            \<open>auto simp: github_personal_access_token_login_route_def simp del: bind_res_Inr_iff\<close>)
    next
      case user: (Inr user)
      obtain session_result store1 where session:
        "issue_session_with_github_pat C now gen nonce store user [''personal_access_token''] token = (session_result, store1)"
        by fastforce
      show ?thesis
      proof (cases session_result)
        case (Inl err)
        show ?thesis
          by (rule unissued [of user token err]) (use assms Inr fetch user session Inl login_failure_reply in
              \<open>auto simp: github_personal_access_token_login_route_def simp del: bind_res_Inr_iff\<close>)
      next
        case issued: (Inr issued)
        show ?thesis
          by (rule accepted [of token user issued]) (use assms Inr token fetch user session issued in
              \<open>auto simp: github_personal_access_token_login_route_def protect_github_login_response_def simp del: bind_res_Inr_iff\<close>)
      qed
    qed
  qed
qed

text \<open>
  C20: The login exchanges a personal access token for one session and nothing else. An accepted login
  presented a well-formed token to GitHub, which named the user; the answer carries a new session
  token that verifies until its lifetime is over, as that user, with the presented token retained
  for later permission checks. Every other session of the store is as live as before, and a refused
  login, whatever failed, leaves them all so and is answered with 401, 429 or 502.
\<close>

theorem github_login_issues_one_session:
  assumes "store_ok store"
    and "github_personal_access_token_login_route E C now gen nonce provider authorization (store, w) = (reply, (store', w'))"
  shows "(lr_status reply \<in> {401, 429, 502}
       \<and> (\<forall>t token. now \<le> t \<longrightarrow> live C store' t token = live C store t token))
     \<or> (\<exists>pat endpoint response login user_id answer m. lr_status reply = 200
       \<and> github_bearer_token authorization = Some pat \<and> github_pat_from_secret pat = Inr pat
       \<and> github_user_endpoint E provider = Inr endpoint
       \<and> gh_get E \<lparr>gq_url = endpoint, gq_headers = github_api_headers, gq_bearer = pat, gq_timeout = GITHUB_USER_FETCH_TIMEOUT\<rparr> w
           = (Inr response, w')
       \<and> github_success (gr_status response)
       \<and> response_json (gh_json_user E) response = Inr \<lparr>gu_login = Some login, gu_id = Some user_id\<rparr>
       \<and> lr_body reply = LoginAccepted answer
       \<and> gl_login answer = login \<and> gl_stable_id answer = Some (nat_dec (unat user_id)) \<and> 0 < user_id
       \<and> (\<forall>t. live C store' t (gl_lfs_token answer) =
            (if t < now + int DEFAULT_LFS_SESSION_TTL then Some \<lparr>sr_metadata = m, sr_github_pat = Some pat\<rparr> else None))
       \<and> sm_provider_id m = gh_id provider \<and> sm_login m = login \<and> sm_stable_id m = gl_stable_id answer
       \<and> (\<forall>t token. now \<le> t \<longrightarrow> sc_sha256 C token \<noteq> sc_sha256 C (gl_lfs_token answer)
            \<longrightarrow> live C store' t token = live C store t token))"
  using assms(2)
proof (cases rule: login_route_cases)
  case refused
  then show ?thesis by simp
next
  case (unissued user token err)
  then show ?thesis
    using issue_session_live [OF unissued(2) [unfolded issue_session_with_github_pat_def] assms(1)] by simp
next
  case (accepted pat user session)
  obtain endpoint response login user_id where user: "github_user_endpoint E provider = Inr endpoint"
    "gh_get E \<lparr>gq_url = endpoint, gq_headers = github_api_headers, gq_bearer = pat, gq_timeout = GITHUB_USER_FETCH_TIMEOUT\<rparr> w
       = (Inr response, w')"
    "github_success (gr_status response)"
    "response_json (gh_json_user E) response = Inr \<lparr>gu_login = Some login, gu_id = Some user_id\<rparr>"
    "0 < user_id" "user = \<lparr>ru_provider_id = gh_id provider, ru_login = login, ru_stable_id = Some (nat_dec (unat user_id))\<rparr>"
    using fetch_authenticated_user_Inr [OF accepted(3)] by blast
  let ?answer = "github_login_route_response_new provider user session"
  note issued = issue_session_with_pat_Inr [OF accepted(4) assms(1)]
  have answer: "gl_lfs_token ?answer = is_token session" "gl_login ?answer = login"
    "gl_stable_id ?answer = Some (nat_dec (unat user_id))"
    by (simp_all add: github_login_route_response_new_def user(6))
  have others: "\<forall>t token. now \<le> t \<longrightarrow> sc_sha256 C token \<noteq> sc_sha256 C (is_token session)
      \<longrightarrow> live C store' t token = live C store t token"
    using issue_session_live [OF accepted(4) [unfolded issue_session_with_github_pat_def] assms(1)] by blast
  show ?thesis
    by (rule disjI2, rule exI [of _ pat], rule exI [of _ endpoint], rule exI [of _ response], rule exI [of _ login],
        rule exI [of _ user_id], rule exI [of _ ?answer], rule exI [of _ "is_metadata session"])
      (use accepted user answer issued others in simp)
qed

section \<open>Witnesses\<close>

text \<open>A GitHub that answers every path with itself; the decoders know three of them.\<close>

definition sample_github_urls :: "string url_lib" where
  "sample_github_urls = \<lparr>url_parse = Some, url_scheme = (\<lambda>_. ''https''), url_host = (\<lambda>_. Some (HostDomain ''g'')),
     url_host_str = (\<lambda>_. Some ''g''), url_port_or_known_default = (\<lambda>_. Some 443), url_username = (\<lambda>_. []),
     url_password = (\<lambda>_. None), url_query = (\<lambda>_. None), url_fragment = (\<lambda>_. None), url_path = (\<lambda>u. u),
     url_set_path = (\<lambda>_ path. path), url_clear_query = (\<lambda>u. u), url_clear_fragment = (\<lambda>u. u),
     url_is_base = (\<lambda>_. True), url_path_segments = (\<lambda>_. None), url_pop = (\<lambda>u. u), url_pop_if_empty = (\<lambda>u. u),
     url_push = (\<lambda>u s. u @ ''/'' @ s), url_append_pair = (\<lambda>u _ _. u), url_print = (\<lambda>u. u)\<rparr>"

definition sample_github :: "(string, nat) github_env" where
  "sample_github = \<lparr>gh_url = sample_github_urls, gh_url_error = (\<lambda>_. []), gh_utf8_lossy = (\<lambda>s. s),
     gh_json_user = (\<lambda>body. if body = ''g/user'' then Some \<lparr>gu_login = Some ''u'', gu_id = Some 5\<rparr> else None),
     gh_json_permission = (\<lambda>body. if body = ''g/repos/o/n/collaborators/u/permission''
        then Some \<lparr>gp_permission = Some ''write'', gp_user = Some (Some 5)\<rparr> else None),
     gh_json_identity = (\<lambda>body. if body = ''g/repos/o/n'' then Some (Some 7) else None),
     gh_json_error = (\<lambda>_. None), gh_client_error = None,
     gh_get = (\<lambda>q n. (Inr \<lparr>gr_status = 200, gr_has_sso = False, gr_chunks = [Inr (gq_url q)]\<rparr>, Suc n))\<rparr>"

definition sample_github_config :: github_provider_config where
  "sample_github_config = \<lparr>gh_id = ''gh'', gh_api_url = ''g'', gh_token = None, gh_allow_insecure_http = False\<rparr>"

definition sample_github_mapping :: repository_mapping where
  "sample_github_mapping = \<lparr>rm_id = ''r'', rm_repo_provider = ''gh'',
     rm_host = ''g'', rm_owner = ''o'', rm_name = ''n'', rm_provider_repository_id = ''7'', rm_storage_provider = ''s''\<rparr>"

definition sample_github_session :: lfs_session_record where
  "sample_github_session = \<lparr>sr_metadata = \<lparr>sm_provider_id = ''gh'', sm_login = ''u'', sm_stable_id = Some ''5'',
     sm_granted_scopes = [], sm_issued_at = 0, sm_expires_at = 1\<rparr>, sr_github_pat = Some ''pat''\<rparr>"

lemma sample_alnum: "list_all is_alnum ''pat''" "list_all is_alnum ''gh''" "list_all is_alnum ''o''" "list_all is_alnum ''n''"
    "list_all is_alnum ''u''"
  by (simp_all add: is_alnum_def is_lower_def byte_def)

lemma solid_not_blank: "list_all is_alnum s \<Longrightarrow> s \<noteq> [] \<Longrightarrow> \<not> is_blank s"
  by (cases s) (simp_all add: not_blank_solid)

lemma sensitive_value_alnum:
  "list_all is_alnum s \<Longrightarrow> s \<noteq> [] \<Longrightarrow> length s \<le> 1024 \<Longrightarrow> validate_sensitive_github_value s label = Inr s"
  using github_pat_alnum [of s] by (auto simp: github_pat_from_secret_def validate_sensitive_github_value_def Let_def split: if_splits)

lemma sample_pat: "github_pat_from_secret ''pat'' = Inr ''pat''"
  by (rule github_pat_alnum [OF sample_alnum(1)]) simp_all

lemma sample_ids: "positive_id ''7'' = Some 7" "positive_id ''5'' = Some 5"
proof -
  have "nat_dec (unat (7 :: u64)) = ''7''" "nat_dec (unat (5 :: u64)) = ''5''"
    by (simp_all add: nat_dec.simps digit_char_def) code_simp+
  then show "positive_id ''7'' = Some 7" "positive_id ''5'' = Some 5"
    using parse_u64_nat_dec [of 7] parse_u64_nat_dec [of 5] by (simp_all add: positive_id_def)
qed

lemma sample_endpoints:
  "github_repository_identity_endpoint sample_github sample_github_config (mapping_identity sample_github_mapping)
     = Inr ''g/repos/o/n''"
  "github_repository_permission_endpoint sample_github sample_github_config (mapping_identity sample_github_mapping)
     (session_user sample_github_session) = Inr ''g/repos/o/n/collaborators/u/permission''"
  by (simp_all add: github_repository_identity_endpoint_def github_repository_permission_endpoint_def
      github_api_endpoint_def github_api_base_def validate_github_transport_url_def uses_protected_http_transport_def
      append_github_api_path_def sample_github_def sample_github_urls_def sample_github_config_def mapping_identity_def
      sample_github_mapping_def session_user_def sample_github_session_def)

lemma sample_github_authorization:
  "provider_authorize [(''gh'', github_check_permission sample_github sample_github_config)]
     sample_github_mapping sample_github_session Upload 0 = (Inr (), 2)"
proof -
  have request: "validate_github_permission_request sample_github_config (mapping_identity sample_github_mapping)
      (session_user sample_github_session) = Inr 5"
    by (simp add: validate_github_permission_request_def validate_github_permission_path_segment_def
        solid_not_blank [OF sample_alnum(3)] solid_not_blank [OF sample_alnum(4)] solid_not_blank [OF sample_alnum(5)] sample_ids mapping_identity_def sample_github_mapping_def session_user_def
        sample_github_session_def sample_github_config_def)
  have expected: "expected_repository_id (mapping_identity sample_github_mapping) = Inr 7"
    by (simp add: expected_repository_id_def mapping_identity_def sample_github_mapping_def sample_ids)
  have identity: "verify_repository_identity sample_github sample_github_config ''pat'' (mapping_identity sample_github_mapping) 0
      = (Inr (), 1)"
    by (simp add: verify_repository_identity_def bind_sr_def expected sample_endpoints github_request_def response_json_def
        github_success_def) (simp add: sample_github_def response_json_def permission_query_def)
  have client: "default_github_api_http_client sample_github = Inr ()"
    by (simp add: default_github_api_http_client_def sample_github_def)
  have "github_check_permission sample_github sample_github_config (mapping_identity sample_github_mapping)
      \<lparr>ra_user = session_user sample_github_session, ra_access_token = ''pat''\<rparr> PermWrite 0
      = (Inr \<lparr>rz_user = session_user sample_github_session, rz_repository = mapping_identity sample_github_mapping,
           rz_required = PermWrite, rz_granted = PermWrite\<rparr>, Suc (Suc 0))"
    by (simp add: github_check_permission_def github_check_permission_with_client_def bind_sr_def sample_pat
        client request identity sample_endpoints github_request_def response_json_def
        github_success_def) (simp add: sample_github_def base_permission_def github_permission_satisfies_def stable_user_id_def
        positive_u64_def response_json_def)
  then show ?thesis
    by (simp add: provider_authorize_def Let_def sample_github_mapping_def sample_github_session_def mapping_identity_def
        permission_required_for_batch_operation_def session_user_def)
qed

lemma github_authorization_is_verified_witness:
  "provider_authorize [(''gh'', github_check_permission sample_github sample_github_config)]
     sample_github_mapping sample_github_session Upload 0 = (Inr (), 2)
   \<and> (\<exists>user_url user_response reported permission w1.
        gh_get sample_github (permission_query ''pat'' user_url) w1 = (Inr user_response, 2)
      \<and> response_json (gh_json_permission sample_github) user_response = Inr reported
      \<and> gp_permission reported = Some permission \<and> permission \<in> {''write'', ''admin''})"
proof
  have "map_of [(''gh'', github_check_permission sample_github sample_github_config)]
      (rm_repo_provider sample_github_mapping) = Some (github_check_permission sample_github sample_github_config)"
    by (simp add: sample_github_mapping_def)
  note found = github_authorization_is_verified [OF this sample_github_authorization]
  have "sr_github_pat sample_github_session = Some ''pat''" by (simp add: sample_github_session_def)
  then show "\<exists>user_url user_response reported permission w1.
        gh_get sample_github (permission_query ''pat'' user_url) w1 = (Inr user_response, 2)
      \<and> response_json (gh_json_permission sample_github) user_response = Inr reported
      \<and> gp_permission reported = Some permission \<and> permission \<in> {''write'', ''admin''}"
    using found unfolding lfs_batch_operation.case by (elim exE conjE) auto
qed (rule sample_github_authorization)

definition sample_login :: "github_login_reply \<times> (session_store \<times> nat)" where
  "sample_login = github_personal_access_token_login_route sample_github sample_crypto 0 (\<lambda>_. ''new-token'') [] sample_github_config
     (Some ''Bearer pat'') (session_store_new, 0)"

lemma sample_login_status: "lr_status (fst sample_login) = 200" "snd (snd sample_login) = 1"
proof -
  have token: "github_bearer_token (Some ''Bearer pat'') = Some ''pat''" by code_simp
  have endpoint: "github_user_endpoint sample_github sample_github_config = Inr ''g/user''"
    by (simp add: github_user_endpoint_def github_api_base_def validate_github_transport_url_def
        uses_protected_http_transport_def sample_github_def sample_github_urls_def sample_github_config_def
        trim_end_matches_id)
  have login: "validate_sensitive_github_value ''u'' ''github authenticated user login'' = Inr ''u''"
    by (rule sensitive_value_alnum) (simp_all add: is_alnum_def is_lower_def byte_def)
  have user: "fetch_authenticated_user sample_github sample_github_config ''pat'' 0
      = (Inr \<lparr>ru_provider_id = ''gh'', ru_login = ''u'', ru_stable_id = Some (nat_dec 5)\<rparr>, 1)"
    by (simp add: fetch_authenticated_user_def bind_sr_def endpoint github_request_def)
      (simp add: sample_github_def response_json_def github_success_def into_repository_user_def login
        positive_u64_def sample_github_config_def)
  obtain r store' where issued: "issue_session_with_github_pat sample_crypto 0 (\<lambda>_. ''new-token'') [] session_store_new
      \<lparr>ru_provider_id = ''gh'', ru_login = ''u'', ru_stable_id = Some (nat_dec 5)\<rparr>
      [''personal_access_token''] ''pat'' = (r, store')" by fastforce
  then have "is_ok r"
    by (auto simp: issue_session_with_github_pat_def issue_session_record_def time_checked_add_def session_store_new_def
        DEFAULT_LFS_SESSION_TTL_def Let_def NANOS_def i64_max_int_def enforce_session_admission_def production_limits_def
        prune_expired_sessions_def prune_recent_issuances_def bt_retain_def recent_of_def principal_sessions_def
        MAX_LFS_SESSION_TOKEN_GENERATION_ATTEMPTS_def upt_rec is_ok_iff)
  then show "lr_status (fst sample_login) = 200" "snd (snd sample_login) = 1"
    by (auto simp: sample_login_def github_personal_access_token_login_route_def token sample_pat user issued
        is_ok_iff protect_github_login_response_def simp del: bind_res_Inr_iff)
qed

lemma github_login_issues_one_session_witness:
  "lr_status (fst sample_login) = 200
   \<and> (\<exists>answer m. lr_body (fst sample_login) = LoginAccepted answer \<and> gl_login answer = ''u''
        \<and> live sample_crypto (fst (snd sample_login)) 5 (gl_lfs_token answer)
            = Some \<lparr>sr_metadata = m, sr_github_pat = Some ''pat''\<rparr>)"
proof -
  obtain reply store' w' where run: "sample_login = (reply, (store', w'))" by (cases sample_login) auto
  have ok: "store_ok session_store_new" by (simp add: store_ok_def session_store_new_def)
  have status: "lr_status reply = 200" using sample_login_status(1) by (simp add: run)
  have token: "github_bearer_token (Some ''Bearer pat'') = Some ''pat''" by code_simp
  have json: "response_json (gh_json_user sample_github) r = Inr \<lparr>gu_login = Some l, gu_id = Some i\<rparr> \<Longrightarrow> l = ''u''" for r l i
    by (auto simp: response_json_def sample_github_def split: if_splits)
  have ttl: "5 < 0 + int DEFAULT_LFS_SESSION_TTL" by (simp add: DEFAULT_LFS_SESSION_TTL_def NANOS_def)
  obtain pat response login user_id answer m where issued: "github_bearer_token (Some ''Bearer pat'') = Some pat"
    "response_json (gh_json_user sample_github) response = Inr \<lparr>gu_login = Some login, gu_id = Some user_id\<rparr>"
    "lr_body reply = LoginAccepted answer" "gl_login answer = login"
    "\<forall>t. live sample_crypto store' t (gl_lfs_token answer) =
            (if t < 0 + int DEFAULT_LFS_SESSION_TTL then Some \<lparr>sr_metadata = m, sr_github_pat = Some pat\<rparr> else None)"
    using github_login_issues_one_session [OF ok run [unfolded sample_login_def]] status
    by (elim disjE exE conjE) (simp, rule that)
  then show ?thesis
    using json [OF issued(2)] token ttl status by (simp add: run)
qed

end
