(* ===== verification/Drive_Provider.thy ===== *)
theory Drive_Provider
  imports Drive_Token Drive_Root Drive_Samples Transfer_Store
begin

text \<open>
  The Google Drive storage provider that the server composes for a repository
  (\<open>GoogleDriveStorageProvider\<close> of \<open>src/provider_factory.rs\<close>): every operation is pinned to the
  repository namespace, takes a token from the cache and builds the object store for it. The state
  is the token cache with the outside world.
\<close>

section \<open>The adapter\<close>

record ('u, 'w) drive_dependencies =
  dd_env :: "('u, 'w) drive_env"
  dd_instant_limit :: nat
  dd_token_source :: "google_drive_storage_config \<Rightarrow> ('w, google_drive_access_token) drive_call"
  dd_upload_lock :: "string \<Rightarrow> string \<Rightarrow> lfs_object \<Rightarrow> 'w \<Rightarrow> (string + unit) \<times> 'w"
  dd_persist :: "string \<Rightarrow> string \<Rightarrow> 'w \<Rightarrow> (string + unit) \<times> 'w"

record drive_provider =
  dv_storage :: google_drive_storage_config
  dv_repository_namespace :: string
  dv_acquire_upload_lock :: bool

definition drive_provider_new :: "google_drive_storage_config \<Rightarrow> string \<Rightarrow> drive_provider" where
  "drive_provider_new storage repository_namespace =
     \<lparr>dv_storage = storage, dv_repository_namespace = repository_namespace, dv_acquire_upload_lock = True\<rparr>"

definition without_provider_upload_lock :: "drive_provider \<Rightarrow> drive_provider" where
  "without_provider_upload_lock provider = provider\<lparr>dv_acquire_upload_lock := False\<rparr>"

text \<open>An operation of the store leaves the token cache alone.\<close>

definition on_drive :: "('w, 'a) drive_run \<Rightarrow> (token_cache \<times> 'w, 'a) drive_run" where
  "on_drive m = (\<lambda>(cache, w). map_option (\<lambda>(r, w'). (r, (cache, w'))) (m w))"

definition provider_object_store ::
  "('u, 'w) drive_dependencies \<Rightarrow> nat \<Rightarrow> drive_provider \<Rightarrow> (token_cache \<times> 'w, 'u drive_store) drive_call" where
  "provider_object_store D now provider =
     bind_sr (get_or_refresh_at (dd_instant_limit D) (dv_storage provider) (dd_token_source D) now)
       (\<lambda>token. lift_sr (drive_store_new (de_url (dd_env D)) (dv_storage provider) (dv_repository_namespace provider)
          (at_access_token token) GOOGLE_DRIVE_API_BASE_URL))"

definition validate_repository_namespace :: "drive_provider \<Rightarrow> string \<Rightarrow> unit storage_result" where
  "validate_repository_namespace provider repository_namespace =
     (if repository_namespace = dv_repository_namespace provider then Inr ()
      else Inl (StRepositoryNamespaceMismatch (gd_id (dv_storage provider))))"

text \<open>The common start of the operations: the namespace, then the store with a token.\<close>

definition with_object_store ::
  "('u, 'w) drive_dependencies \<Rightarrow> nat \<Rightarrow> drive_provider \<Rightarrow> string \<Rightarrow> ('u drive_store \<Rightarrow> ('w, 'a) drive_run)
     \<Rightarrow> (token_cache \<times> 'w, 'a) drive_run" where
  "with_object_store D now provider repository_namespace operation =
     bind_run (run_call (lift_sr (validate_repository_namespace provider repository_namespace))) (\<lambda>_.
     bind_run (run_call (provider_object_store D now provider)) (\<lambda>store. on_drive (operation store)))"

definition provider_lookup_object ::
  "('u, 'w) drive_dependencies \<Rightarrow> nat \<Rightarrow> drive_provider \<Rightarrow> string \<Rightarrow> lfs_object
     \<Rightarrow> (token_cache \<times> 'w, stored_object option) drive_run" where
  "provider_lookup_object D now provider repository_namespace object =
     with_object_store D now provider repository_namespace (\<lambda>store. drive_lookup_object (dd_env D) store object)"

definition acquire_provider_upload_lock ::
  "('u, 'w) drive_dependencies \<Rightarrow> drive_provider \<Rightarrow> string \<Rightarrow> lfs_object \<Rightarrow> (token_cache \<times> 'w, unit) drive_call" where
  "acquire_provider_upload_lock D provider repository_namespace object = (\<lambda>(cache, w).
     if dv_acquire_upload_lock provider
     then (case dd_upload_lock D repository_namespace (gd_id (dv_storage provider)) object w of
         (r, w') \<Rightarrow> (map_err (\<lambda>message. StRetryable (gd_id (dv_storage provider))
             (''provider upload lock failed: '' @ message)) r, (cache, w')))
     else (Inr (), (cache, w)))"

definition provider_upload_object ::
  "('u, 'w) drive_dependencies \<Rightarrow> nat \<Rightarrow> drive_provider \<Rightarrow> string \<Rightarrow> lfs_object \<Rightarrow> string \<Rightarrow> string + string
     \<Rightarrow> (token_cache \<times> 'w, stored_object) drive_run" where
  "provider_upload_object D now provider repository_namespace object source file =
     bind_run (run_call (lift_sr (validate_repository_namespace provider repository_namespace))) (\<lambda>_.
     bind_run (run_call (lift_sr (open_verified_staged_upload_file (de_sha (dd_env D)) (gd_id (dv_storage provider))
         object source file))) (\<lambda>verified_file.
     bind_run (run_call (acquire_provider_upload_lock D provider repository_namespace object)) (\<lambda>_.
     bind_run (run_call (provider_object_store D now provider)) (\<lambda>store.
       on_drive (upload_verified_object_idempotent (dd_env D) store object source verified_file)))))"

text \<open>\<open>GoogleDriveObjectStore::download_object\<close>: a verified temporary file is published at once.\<close>

definition persist_verified_drive_download_file ::
  "('u, 'w) drive_dependencies \<Rightarrow> google_drive_storage_config \<Rightarrow> string \<Rightarrow> string \<Rightarrow> ('w, unit) drive_call" where
  "persist_verified_drive_download_file D storage content destination w =
     (case dd_persist D destination content w of
        (r, w') \<Rightarrow> (map_err (\<lambda>message. StRetryable (gd_id storage)
            (''Drive download destination file '' @ destination @ '' could not be written: '' @ message)) r, w'))"

definition store_download_object ::
  "('u, 'w) drive_dependencies \<Rightarrow> 'u drive_store \<Rightarrow> lfs_object \<Rightarrow> string \<Rightarrow> ('w, stored_object) drive_run" where
  "store_download_object D store object destination =
     bind_run (download_object_to_verified_file (dd_env D) store object) (\<lambda>(stored, content).
     bind_run (run_call (persist_verified_drive_download_file D (gs_storage store) content destination))
       (\<lambda>_. run_call (ret_sr stored)))"

definition provider_download_object ::
  "('u, 'w) drive_dependencies \<Rightarrow> nat \<Rightarrow> drive_provider \<Rightarrow> string \<Rightarrow> lfs_object \<Rightarrow> string
     \<Rightarrow> (token_cache \<times> 'w, stored_object) drive_run" where
  "provider_download_object D now provider repository_namespace object destination =
     with_object_store D now provider repository_namespace (\<lambda>store.
       bind_run (run_call (lift_sr (ensure_repository_namespace store repository_namespace)))
         (\<lambda>_. store_download_object D store object destination))"

definition provider_delete_or_mark_object ::
  "('u, 'w) drive_dependencies \<Rightarrow> nat \<Rightarrow> drive_provider \<Rightarrow> string
     \<Rightarrow> (token_cache \<times> 'w, storage_delete_outcome) drive_run" where
  "provider_delete_or_mark_object D now provider repository_namespace =
     with_object_store D now provider repository_namespace
       (\<lambda>store. run_call (lift_sr (drive_delete_or_mark_object store repository_namespace)))"

definition provider_lookup_object_by_backend_id ::
  "('u, 'w) drive_dependencies \<Rightarrow> nat \<Rightarrow> drive_provider \<Rightarrow> string \<Rightarrow> lfs_object \<Rightarrow> string
     \<Rightarrow> (token_cache \<times> 'w, stored_object option) drive_run" where
  "provider_lookup_object_by_backend_id D now provider repository_namespace object backend_id =
     with_object_store D now provider repository_namespace
       (\<lambda>store. run_call (drive_lookup_object_by_backend_id (dd_env D) store object backend_id))"

definition provider_download_object_response ::
  "('u, 'w) drive_dependencies \<Rightarrow> nat \<Rightarrow> drive_provider \<Rightarrow> string \<Rightarrow> lfs_object \<Rightarrow> stored_object
     \<Rightarrow> (token_cache \<times> 'w, streamed_download) drive_run" where
  "provider_download_object_response D now provider repository_namespace object stored =
     with_object_store D now provider repository_namespace
       (\<lambda>store. run_call (download_object_response_for_stored_object (dd_env D) store object stored))"

section \<open>Registration\<close>

text \<open>\<open>build_server_provider\<close>: the server holds the upload lock itself.\<close>

definition build_server_provider :: "google_drive_storage_config \<Rightarrow> string \<Rightarrow> drive_provider" where
  "build_server_provider storage repository_namespace =
     without_provider_upload_lock (drive_provider_new storage repository_namespace)"

definition validate_drive_server_readiness ::
  "('u, 'w) drive_dependencies \<Rightarrow> 'u \<Rightarrow> nat \<Rightarrow> google_drive_storage_config \<Rightarrow> (token_cache \<times> 'w, unit) drive_call" where
  "validate_drive_server_readiness D validator_api_base_url now storage =
     bind_sr (get_or_refresh_at (dd_instant_limit D) storage (dd_token_source D) now) (\<lambda>token. \<lambda>(cache, w).
       case validate_root_folder (dd_env D) validator_api_base_url storage (at_access_token token) w of
         (r, w') \<Rightarrow> (map_res (\<lambda>_. ()) r, (cache, w')))"

section \<open>Local readiness\<close>

text \<open>
  \<open>validate_local_readiness\<close> of \<open>access_token.rs\<close>: running \<open>gcloud --version\<close> yields nothing when the
  executable cannot run, else whether it succeeded.
\<close>

definition gcloud_validate_local_readiness ::
  "(string \<Rightarrow> file_kind option) \<Rightarrow> (string \<Rightarrow> string list \<Rightarrow> (string \<times> string option) list \<Rightarrow> bool option)
     \<Rightarrow> google_drive_storage_config \<Rightarrow> unit storage_result" where
  "gcloud_validate_local_readiness stat run_status storage =
     bind_res (validate_gcloud_directory stat (gd_id storage) (gc_config_dir (gd_credentials storage))) (\<lambda>_.
       case run_status (gc_executable (gd_credentials storage)) [''--version'']
              (gcloud_environment (gd_credentials storage)) of
         None \<Rightarrow> Inl (gcloud_credential_error (gd_id storage) ''configured gcloud CLI could not be executed; install the Google Cloud CLI or correct credentials.executable'')
       | Some success \<Rightarrow>
           if \<not> success
           then Inl (gcloud_credential_error (gd_id storage) ''configured gcloud CLI failed its local version check'')
           else Inr ())"

definition drive_validate_local_readiness ::
  "(string \<Rightarrow> file_kind option) \<Rightarrow> (string \<Rightarrow> string list \<Rightarrow> (string \<times> string option) list \<Rightarrow> bool option)
     \<Rightarrow> google_drive_storage_config \<Rightarrow> string + unit" where
  "drive_validate_local_readiness stat run_status storage =
     map_err (\<lambda>_. ''Google Drive credential for '' @ gd_id storage
         @ '' is not usable; check the configured gcloud ADC credentials directory'')
       (gcloud_validate_local_readiness stat run_status storage)"

section \<open>What an upload returns\<close>

text \<open>A completed upload returns the record of the key, under the file id that was reported.\<close>

definition session_of_key :: "('u, 'w) drive_env \<Rightarrow> 'u upload_session \<Rightarrow> bool" where
  "session_of_key E session \<longleftrightarrow> us_expected_properties session = expected_app_properties (de_sha E) (us_key session)"

definition is_stored_of :: "'u drive_store \<Rightarrow> google_drive_object_key \<Rightarrow> stored_object \<Rightarrow> bool" where
  "is_stored_of store key stored \<longleftrightarrow> (\<exists>i. stored = stored_of (gs_storage store) key i)"

lemma session_put_complete:
  assumes "session_of_key E session" "session_put E store session authorization headers body limit w = (Inr (UploadComplete stored), w')"
  shows "is_stored_of store (us_key session) stored"
proof -
  obtain response w1 where "parse_drive_resumable_upload_response E store session response limit = Inr (UploadComplete stored)"
    using assms(2) unfolding session_put_def bind_sr_Inr lift_sr_simp by auto
  then obtain status body where "parse_drive_upload_success E (gs_storage store) (us_key session)
      (us_expected_properties session) status body = Inr stored"
    by (auto simp: parse_drive_resumable_upload_response_def Let_def split: if_splits)
  then show ?thesis
    using assms(1)
    by (auto simp: parse_drive_upload_success_def session_of_key_def verify_drive_object_file_Inr is_stored_of_def split: option.splits)
qed

lemma recover_complete:
  assumes "session_of_key E session"
  shows "recover_drive_resumable_upload E store session attempts err w = ((Inr (UploadComplete stored), n), w') \<Longrightarrow>
     is_stored_of store (us_key session) stored"
proof (induction "GOOGLE_DRIVE_RESUMABLE_UPLOAD_MAX_RECOVERY_ATTEMPTS - attempts" arbitrary: attempts err w rule: less_induct)
  case less
  have again: "is_stored_of store (us_key session) stored"
    if "recover_drive_resumable_upload E store session (Suc attempts) err' w1 = ((Inr (UploadComplete stored), n), w')"
      "\<not> GOOGLE_DRIVE_RESUMABLE_UPLOAD_MAX_RECOVERY_ATTEMPTS \<le> attempts" for err' w1
    using less(1) [OF _ that(1)] that(2) by auto
  show ?case
    using less(2) by (subst (asm) recover_drive_resumable_upload.simps)
      (auto simp: Let_def dest: again session_put_complete [OF assms] split: if_splits sum.splits prod.splits)
qed

lemma upload_progress_complete:
  assumes "session_of_key E session"
    and "upload_progress E store session source content c attempts w = ((Inr (UploadComplete stored), n), w')"
  shows "is_stored_of store (us_key session) stored"
  using assms(2) unfolding upload_progress_def Let_def
  by (auto dest: session_put_complete [OF assms(1)] recover_complete [OF assms(1)] split: sum.splits prod.splits if_splits)

lemma upload_loop_complete:
  assumes "session_of_key E session"
  shows "upload_loop E store session source content c attempts w = (Inr stored, w') \<Longrightarrow>
     is_stored_of store (us_key session) stored"
proof (induction "(2 ^ 64 - unat c, GOOGLE_DRIVE_RESUMABLE_UPLOAD_MAX_RECOVERY_ATTEMPTS - attempts)"
    arbitrary: c attempts w rule: wf_induct_rule [OF wf_lex_prod [OF wf_less_than wf_less_than]])
  case 1
  obtain p n w1 where progress: "upload_progress E store session source content c attempts w = ((p, n), w1)"
    by (metis prod.exhaust)
  have count: "attempts \<le> n" using upload_progress_attempts [OF progress] .
  note unfolded = upload_loop.simps [of E store session source content c attempts w, unfolded progress prod.case]
  show ?case
  proof (cases p)
    case (Inl err)
    then show ?thesis using "1.prems" by (simp add: unfolded)
  next
    case (Inr q)
    show ?thesis
    proof (cases q)
      case (UploadComplete x)
      then show ?thesis
        using "1.prems" progress Inr upload_progress_complete [OF assms] by (simp add: unfolded)
    next
      case (UploadIncomplete next_offset)
      consider "c < next_offset" "upload_loop E store session source content next_offset 0 w1 = (Inr stored, w')"
        | "c = next_offset" "\<not> GOOGLE_DRIVE_RESUMABLE_UPLOAD_MAX_RECOVERY_ATTEMPTS \<le> n"
          "upload_loop E store session source content c (Suc n) (sleep_drive_upload_backoff E store n w1) = (Inr stored, w')"
        using "1.prems" Inr UploadIncomplete by (auto simp: unfolded split: if_splits)
      then show ?thesis
      proof cases
        case 1
        have "((2 ^ 64 - unat next_offset, GOOGLE_DRIVE_RESUMABLE_UPLOAD_MAX_RECOVERY_ATTEMPTS - 0),
            (2 ^ 64 - unat c, GOOGLE_DRIVE_RESUMABLE_UPLOAD_MAX_RECOVERY_ATTEMPTS - attempts)) \<in> less_than <*lex*> less_than"
          using 1(1) unat_u64_bound [of c] by (auto simp: word_less_nat_alt)
        then show ?thesis using "1.hyps" [OF _ 1(2)] by simp
      next
        case 2
        have "((2 ^ 64 - unat c, GOOGLE_DRIVE_RESUMABLE_UPLOAD_MAX_RECOVERY_ATTEMPTS - Suc n),
            (2 ^ 64 - unat c, GOOGLE_DRIVE_RESUMABLE_UPLOAD_MAX_RECOVERY_ATTEMPTS - attempts)) \<in> less_than <*lex*> less_than"
          using 2(2) count by auto
        then show ?thesis using "1.hyps" [OF _ 2(3)] by simp
      qed
    qed
  qed
qed

lemma object_key_Inr:
  "object_key store object = Inr key \<Longrightarrow>
     ok_object key = object \<and> ok_repo_namespace key = trim (gs_repo_namespace store)"
  by (auto simp: object_key_def object_key_new_def validate_repo_namespace_def Let_def split: if_splits)

definition is_record_of :: "'u drive_store \<Rightarrow> lfs_object \<Rightarrow> stored_object \<Rightarrow> bool" where
  "is_record_of store object stored \<longleftrightarrow> so_provider_id stored = gs_provider store
     \<and> so_repository_namespace stored = trim (gs_repo_namespace store) \<and> so_object stored = object"

lemma stored_of_record:
  "object_key store object = Inr key \<Longrightarrow> is_stored_of store key stored \<Longrightarrow> is_record_of store object stored"
  using object_key_Inr [of store object key] by (auto simp: is_stored_of_def is_record_of_def)

lemma upload_verified_record:
  assumes "upload_verified_object E store object source content w = Some (Inr stored, w')"
  shows "is_record_of store object stored"
proof -
  obtain key session w1 where "object_key store object = Inr key"
    and loop: "upload_loop E store session source content 0 0 w1 = (Inr stored, w')"
    and "us_key session = key" "us_expected_properties session = expected_app_properties (de_sha E) key"
    using assms unfolding upload_verified_object_def bind_run_Inr run_call_Some lift_sr_simp prod.inject
    by (elim exE conjE) auto
  then show ?thesis
    using upload_loop_complete [OF _ loop] stored_of_record by (simp add: session_of_key_def)
qed

lemma reported_record:
  "object_key store object = Inr key \<Longrightarrow> reported_object E (gs_storage store) key stored \<Longrightarrow> is_record_of store object stored"
  by (rule stored_of_record) (auto simp: reported_object_def is_stored_of_def)

lemma lookup_record:
  assumes "drive_lookup_object E store object w = Some (Inr (Some stored), w')"
  shows "is_record_of store object stored"
proof -
  obtain key in_root shards found w1 w2 where run: "object_key store object = Inr key"
    "lookup_objects_in_parent E store (gs_root store) key (expected_app_properties (de_sha E) key) w = Some (Inr in_root, w1)"
    "lookup_in_parents E store key (expected_app_properties (de_sha E) key) shards in_root w2 = Some (Inr found, w')"
    and answer: "Some stored = (case sort_key so_backend_id found of stored # _ \<Rightarrow> Some stored | [] \<Rightarrow> None)"
    using drive_lookup_object_Inr [OF assms] by metis
  have "stored \<in> set found"
    using answer sort_key_head(1) [of so_backend_id found] by (cases "sort_key so_backend_id found") auto
  then show ?thesis
    using lookup_in_parents_reported [OF run(3) lookup_objects_in_parent_reported [OF run(2)]] reported_record [OF run(1)]
    by blast
qed

lemma upload_idempotent_record:
  assumes "upload_verified_object_idempotent E store object source content w = Some (Inr stored, w')"
  shows "is_record_of store object stored"
  using assms lookup_record upload_verified_record
  by (auto simp: upload_verified_object_idempotent_def bind_run_Inr split: option.splits)

lemma backend_id_record:
  assumes "drive_lookup_object_by_backend_id E store object backend_id w = (Inr (Some stored), w')"
  shows "is_record_of store object stored \<and> so_backend_id stored = backend_id"
proof -
  obtain key status reported where key: "object_key store object = Inr key"
    and verified: "verify_drive_object_file (gs_storage store) key (expected_app_properties (de_sha E) key) status reported = Inr stored"
    and same: "so_backend_id stored = backend_id"
    using assms
    by (auto simp: drive_lookup_object_by_backend_id_def bind_sr_Inr Let_def
        split: if_splits option.splits sum.splits storage_error.splits list.splits)
  show ?thesis
    using verified stored_of_record [OF key] same by (auto simp: verify_drive_object_file_Inr is_stored_of_def)
qed

section \<open>The contract of a storage provider\<close>

text \<open>
  What the transfer store relies on: a provider serves one namespace, refuses every other without
  touching its state, and answers only with records of its own of the object that was asked for;
  resolving a backend id answers with that id.
\<close>

locale storage_contract =
  fixes provider_id :: string
    and served :: string
    and recorded :: string
    and lookup :: "string \<Rightarrow> lfs_object \<Rightarrow> ('s, stored_object option) drive_run"
    and upload :: "string \<Rightarrow> lfs_object \<Rightarrow> 'f \<Rightarrow> ('s, stored_object) drive_run"
    and lookup_id :: "string \<Rightarrow> lfs_object \<Rightarrow> string \<Rightarrow> ('s, stored_object option) drive_run"
  assumes foreign: "ns \<noteq> served \<Longrightarrow> lookup ns object s = Some (Inl (StRepositoryNamespaceMismatch provider_id), s)"
      "ns \<noteq> served \<Longrightarrow> upload ns object f s = Some (Inl (StRepositoryNamespaceMismatch provider_id), s)"
      "ns \<noteq> served \<Longrightarrow> lookup_id ns object i s = Some (Inl (StRepositoryNamespaceMismatch provider_id), s)"
    and found: "lookup ns object s = Some (Inr (Some stored), s') \<Longrightarrow>
      so_provider_id stored = provider_id \<and> so_repository_namespace stored = recorded \<and> so_object stored = object"
    and uploaded: "upload ns object f s = Some (Inr stored, s') \<Longrightarrow>
      so_provider_id stored = provider_id \<and> so_repository_namespace stored = recorded \<and> so_object stored = object"
    and resolved: "lookup_id ns object i s = Some (Inr (Some stored), s') \<Longrightarrow>
      so_provider_id stored = provider_id \<and> so_repository_namespace stored = recorded \<and> so_object stored = object
        \<and> so_backend_id stored = i"
begin

lemma answers_accepted:
  assumes "rm_storage_provider repository = provider_id" "rm_id repository = recorded"
    and "lookup ns object s = Some (Inr (Some stored), s') \<or> upload ns object f s = Some (Inr stored, s')
      \<or> lookup_id ns object i s = Some (Inr (Some stored), s')"
  shows "ensure_stored_object_namespace repository stored = Inr stored \<and> so_object stored = object \<and> ns = served"
proof -
  have "ns = served" using assms(3) foreign by (metis Inl_Inr_False option.inject prod.inject)
  then show ?thesis
    using assms found uploaded resolved
    by (auto simp: ensure_stored_object_namespace_def validate_stored_object_namespace_def)
qed

end

lemma on_drive_Inr:
  "on_drive m s = Some (Inr y, t) \<longleftrightarrow> (\<exists>w'. m (snd s) = Some (Inr y, w') \<and> t = (fst s, w'))"
  by (cases s) (auto simp: on_drive_def)

lemma provider_object_store_Inr:
  assumes "provider_object_store D now provider s = (Inr store, s')"
  shows "gs_storage store = dv_storage provider \<and> gs_repo_namespace store = trim (dv_repository_namespace provider)
    \<and> trim (gs_repo_namespace store) = gs_repo_namespace store"
  using assms by (auto simp: provider_object_store_def bind_sr_Inr drive_store_new_def validate_repo_namespace_def Let_def
      split: if_splits)

lemma with_object_store_Inr:
  assumes "with_object_store D now provider ns operation s = Some (Inr y, s')"
  obtains store w w' where "gs_storage store = dv_storage provider"
    "gs_repo_namespace store = trim (dv_repository_namespace provider)" "operation store w = Some (Inr y, w')"
  using assms provider_object_store_Inr
  by (fastforce simp: with_object_store_def bind_run_Inr on_drive_Inr)

lemma with_object_store_foreign:
  "ns \<noteq> dv_repository_namespace provider \<Longrightarrow>
     with_object_store D now provider ns operation s = Some (Inl (StRepositoryNamespaceMismatch (gd_id (dv_storage provider))), s)"
  by (simp add: with_object_store_def bind_run_def run_call_def validate_repository_namespace_def)

lemma provider_upload_Inr:
  assumes "provider_upload_object D now provider ns object source content s = Some (Inr stored, s')"
  obtains store w w' verified where "gs_storage store = dv_storage provider"
    "gs_repo_namespace store = trim (dv_repository_namespace provider)"
    "upload_verified_object_idempotent (dd_env D) store object source verified w = Some (Inr stored, w')"
  using assms provider_object_store_Inr
  by (fastforce simp: provider_upload_object_def bind_run_Inr on_drive_Inr)

lemma provider_record:
  assumes "is_record_of store object stored" "gs_storage store = dv_storage provider"
    "gs_repo_namespace store = trim (dv_repository_namespace provider)"
  shows "so_provider_id stored = gd_id (dv_storage provider)
    \<and> so_repository_namespace stored = trim (dv_repository_namespace provider) \<and> so_object stored = object"
  using assms by (simp add: is_record_of_def)

interpretation drive: storage_contract "gd_id (dv_storage provider)" "dv_repository_namespace provider"
    "trim (dv_repository_namespace provider)" "provider_lookup_object D now provider"
    "\<lambda>ns object (source, content). provider_upload_object D now provider ns object source content"
    "provider_lookup_object_by_backend_id D now provider"
  for D :: "('u, 'w) drive_dependencies" and now provider
proof (unfold_locales, goal_cases)
  case (1 ns object s)
  then show ?case by (simp add: provider_lookup_object_def with_object_store_foreign)
next
  case (2 ns object f s)
  then show ?case
    by (simp add: split_beta provider_upload_object_def bind_run_def run_call_def validate_repository_namespace_def)
next
  case (3 ns object i s)
  then show ?case by (simp add: provider_lookup_object_by_backend_id_def with_object_store_foreign)
next
  case (4 ns object s stored s')
  then obtain store w w' where run: "gs_storage store = dv_storage provider"
    "gs_repo_namespace store = trim (dv_repository_namespace provider)"
    "drive_lookup_object (dd_env D) store object w = Some (Inr (Some stored), w')"
    by (auto simp: provider_lookup_object_def elim: with_object_store_Inr)
  show ?case by (rule provider_record [OF lookup_record [OF run(3)] run(1,2)])
next
  case (5 ns object f s stored s')
  obtain source content where f: "f = (source, content)" by fastforce
  obtain store w w' verified where run: "gs_storage store = dv_storage provider"
    "gs_repo_namespace store = trim (dv_repository_namespace provider)"
    "upload_verified_object_idempotent (dd_env D) store object source verified w = Some (Inr stored, w')"
    using 5 unfolding f prod.case by (rule provider_upload_Inr)
  show ?case by (rule provider_record [OF upload_idempotent_record [OF run(3)] run(1,2)])
next
  case (6 ns object i s stored s')
  then obtain store w w' where run: "gs_storage store = dv_storage provider"
    "gs_repo_namespace store = trim (dv_repository_namespace provider)"
    "drive_lookup_object_by_backend_id (dd_env D) store object i w = (Inr (Some stored), w')"
    by (auto simp: provider_lookup_object_by_backend_id_def elim!: with_object_store_Inr)
  show ?case
    using provider_record [OF _ run(1,2)] backend_id_record [OF run(3)] by blast
qed


definition sample_bearer :: google_drive_access_token where
  "sample_bearer = \<lparr>at_access_token = ''token'', at_token_type = ''Bearer'', at_expires_in_seconds = None, at_scope = []\<rparr>"

definition sample_dependencies :: "(string, sample_service) drive_dependencies" where
  "sample_dependencies = \<lparr>dd_env = sample_drive True, dd_instant_limit = 10 ^ 20,
     dd_token_source = (\<lambda>_ w. (Inr sample_bearer, w)), dd_upload_lock = (\<lambda>_ _ _ w. (Inr (), w)),
     dd_persist = (\<lambda>_ _ w. (Inr (), w))\<rparr>"

definition sample_drive_repository :: repository_mapping where
  "sample_drive_repository = \<lparr>rm_id = ''ns'', rm_repo_provider = ''gh'', rm_host = ''g'', rm_owner = ''o'',
     rm_name = ''n'', rm_provider_repository_id = ''7'', rm_storage_provider = ''drive''\<rparr>"

lemma sample_store_built:
  "drive_store_new sample_drive_urls sample_drive_config ''ns'' ''token'' GOOGLE_DRIVE_API_BASE_URL = Inr sample_drive_store"
proof -
  have "trim ''ns'' = ''ns''" "\<not> has_control ''ns''" by code_simp+
  then have "validate_repo_namespace ''ns'' = Inr ''ns''" by (simp add: validate_repo_namespace_def)
  moreover have "validate_drive_api_base_url sample_drive_urls GOOGLE_DRIVE_API_BASE_URL = Inr GOOGLE_DRIVE_API_BASE_URL"
    by (simp add: validate_drive_api_base_url_def sample_drive_urls_def GOOGLE_DRIVE_API_BASE_URL_def) code_simp
  ultimately show ?thesis by (simp add: drive_store_new_def sample_drive_store_def)
qed

lemma sample_provider_lookup:
  "provider_lookup_object sample_dependencies 0 (build_server_provider sample_drive_config ''ns'') ''ns'' sample_object
       (Map.empty, w) = Some (Inr (Some (stored_of sample_drive_config sample_key ''a'')), (Map.empty, w))"
proof -
  have "provider_object_store sample_dependencies 0 (build_server_provider sample_drive_config ''ns'') (Map.empty, w)
      = (Inr sample_drive_store, (Map.empty, w))"
    using sample_store_built
    by (simp add: provider_object_store_def get_or_refresh_at_def bind_sr_def sample_dependencies_def sample_bearer_def
        build_server_provider_def without_provider_upload_lock_def drive_provider_new_def refresh_instant_def)
  then show ?thesis
    by (simp add: provider_lookup_object_def with_object_store_def bind_run_def run_call_def validate_repository_namespace_def
        build_server_provider_def without_provider_upload_lock_def drive_provider_new_def on_drive_def
        sample_dependencies_def sample_drive_lookup)
qed


end
