(* ===== verification/Cache_Fs.thy ===== *)
theory Cache_Fs
  imports Lfs_Object State_Result "HOL-Library.AList"
begin

text \<open>
  The file system under the local cache (\<open>src/local_cache\<close>): paths as component lists, a tree of
  regular files, directories and symbolic links, the calls of \<open>std::fs\<close>, \<open>tempfile\<close> and
  \<open>rustix\<close> that the cache makes, and the errors it reports. Every call may also fail for a
  reason outside the tree, decided by the environment. The directories on the way to a path are
  directories, not symbolic links; the last component may be a link.
\<close>

section \<open>Paths\<close>

text \<open>The components of a path; an absolute path starts with \<open>/\<close>.\<close>

type_synonym path = "string list"

definition fs_path_is_absolute :: "path \<Rightarrow> bool" where
  "fs_path_is_absolute p \<longleftrightarrow> p \<noteq> [] \<and> hd p = ''/''"

definition path_parent :: "path \<Rightarrow> path option" where
  "path_parent p = (if p = [] \<or> p = [''/''] then None else Some (butlast p))"

definition fs_path_join :: "path \<Rightarrow> path \<Rightarrow> path" where
  "fs_path_join p q = (if fs_path_is_absolute q then q else p @ q)"

fun path_display_rest :: "path \<Rightarrow> string" where
  "path_display_rest [] = []"
| "path_display_rest [c] = c"
| "path_display_rest (c # cs) = c @ ''/'' @ path_display_rest cs"

definition path_display :: "path \<Rightarrow> string" where
  "path_display p = (if fs_path_is_absolute p then ''/'' @ path_display_rest (tl p) else path_display_rest p)"

text \<open>The directories a path goes through, outermost first, the path itself last.\<close>

definition path_prefixes :: "path \<Rightarrow> path list" where
  "path_prefixes p = map (\<lambda>n. take (Suc n) p) [0..<length p]"

lemma path_parent_snoc [simp]: "p \<noteq> [] \<Longrightarrow> path_parent (p @ [c]) = Some p"
  by (simp add: path_parent_def)

lemma path_prefixes_snoc: "path_prefixes (p @ [c]) = path_prefixes p @ [p @ [c]]"
  by (simp add: path_prefixes_def)

section \<open>Errors\<close>

datatype io_kind =
    NotFound | AlreadyExists | DirectoryNotEmpty | NotADirectory | IsADirectory
  | InvalidData | InvalidInput | TimedOutKind | OtherKind

datatype fs_error = IoError (io_error_kind: io_kind) string

datatype cache_error =
    MissingCacheObject lfs_oid u64 path
  | MissingSourceObject lfs_oid u64 path
  | IntegrityMismatch path lfs_oid u64 lfs_oid u64
  | CacheIo string path fs_error
  | InvalidWorktreeRegistration string string
  | WorktreeRegistryJson string path string
  | GitCommandFailed string path string
  | GitCommandOutput string path string
  | UnsupportedWorktreeRegistryVersion path u32 u32
  | MaterializationTargetExists lfs_oid u64 path
  | WorktreePathSymlink path
  | PointerParse path lfs_object_error
  | PointerFileTooLarge path u64 u64
  | PointerPathNotRegularFile path
  | PointerFileInvalidUtf8 path
  | PointerObjectMismatch path lfs_oid u64 lfs_oid u64
  | WorktreeReplacementRollback path path fs_error

section \<open>The tree\<close>

datatype fs_node = FileNode string nat | DirNode | SymlinkNode path | OtherNode

type_synonym fs = "(path \<times> fs_node) list"

type_synonym 'a cache_result = "cache_error + 'a"
type_synonym 'a cache_call = "(fs, cache_error, 'a) sr"
type_synonym 'a fs_call = "(fs, fs_error, 'a) sr"

definition fs_put :: "path \<Rightarrow> fs_node \<Rightarrow> fs \<Rightarrow> fs" where
  "fs_put p n fs = AList.update p n fs"

definition fs_delete :: "path \<Rightarrow> fs \<Rightarrow> fs" where
  "fs_delete p fs = AList.delete p fs"

lemma map_of_fs_put [simp]: "map_of (fs_put p n fs) = (map_of fs)(p \<mapsto> n)"
  by (simp add: fs_put_def update_conv')

lemma map_of_fs_delete [simp]: "map_of (fs_delete p fs) = (map_of fs)(p := None)"
  by (simp add: fs_delete_def delete_conv')

text \<open>A missing path: an ancestor that is not a directory is another error.\<close>

definition fs_missing :: "fs \<Rightarrow> path \<Rightarrow> fs_error" where
  "fs_missing fs p =
     IoError (if list_ex (\<lambda>q. map_of fs q \<notin> {None, Some DirNode}) (path_prefixes (butlast p))
              then NotADirectory else NotFound) []"

text \<open>Following symbolic links, with the limit of the system.\<close>

fun fs_follow :: "nat \<Rightarrow> fs \<Rightarrow> path \<Rightarrow> fs_error + path \<times> fs_node" where
  "fs_follow 0 fs p = Inl (IoError OtherKind ''too many levels of symbolic links'')"
| "fs_follow (Suc n) fs p = (case map_of fs p of
       None \<Rightarrow> Inl (fs_missing fs p)
     | Some (SymlinkNode q) \<Rightarrow> fs_follow n fs (fs_path_join (butlast p) q)
     | Some node \<Rightarrow> Inr (p, node))"

definition SYMLINK_LIMIT :: nat where
  "SYMLINK_LIMIT = 40"

text \<open>\<open>fs::metadata\<close> and \<open>File::open\<close> follow links, \<open>fs::symlink_metadata\<close> does not.\<close>

definition fs_metadata :: "path \<Rightarrow> fs_node fs_call" where
  "fs_metadata p fs = (map_res snd (fs_follow SYMLINK_LIMIT fs p), fs)"

definition fs_symlink_metadata :: "path \<Rightarrow> fs_node fs_call" where
  "fs_symlink_metadata p fs = (ok_or (fs_missing fs p) (map_of fs p), fs)"

fun node_is_file :: "fs_node \<Rightarrow> bool" where
  "node_is_file (FileNode _ _) = True"
| "node_is_file _ = False"

fun node_is_dir :: "fs_node \<Rightarrow> bool" where
  "node_is_dir DirNode = True"
| "node_is_dir _ = False"

fun node_is_symlink :: "fs_node \<Rightarrow> bool" where
  "node_is_symlink (SymlinkNode _) = True"
| "node_is_symlink _ = False"

fun node_bytes :: "fs_node \<Rightarrow> string" where
  "node_bytes (FileNode b _) = b"
| "node_bytes _ = []"

fun node_mode :: "fs_node \<Rightarrow> nat" where
  "node_mode (FileNode _ m) = m"
| "node_mode _ = 0"

definition node_len :: "fs_node \<Rightarrow> u64" where
  "node_len n = of_nat (length (node_bytes n))"

text \<open>The bytes behind an open handle.\<close>

definition read_handle :: "fs_node \<Rightarrow> fs_error + string" where
  "read_handle n = (case n of FileNode b _ \<Rightarrow> Inr b | DirNode \<Rightarrow> Inl (IoError IsADirectory [])
     | _ \<Rightarrow> Inl (IoError OtherKind []))"

text \<open>\<open>fs::create_dir_all\<close>.\<close>

fun make_dirs :: "path list \<Rightarrow> unit fs_call" where
  "make_dirs [] fs = (Inr (), fs)"
| "make_dirs (p # ps) fs = (case map_of fs p of
       None \<Rightarrow> make_dirs ps (fs_put p DirNode fs)
     | Some DirNode \<Rightarrow> make_dirs ps fs
     | Some _ \<Rightarrow> (Inl (IoError AlreadyExists []), fs))"

definition fs_create_dir_all :: "path \<Rightarrow> unit fs_call" where
  "fs_create_dir_all p = make_dirs (path_prefixes p)"

text \<open>Opening with \<open>create\<close> and without \<open>truncate\<close>: an existing file is left as it is.\<close>

definition fs_open_create :: "nat \<Rightarrow> path \<Rightarrow> unit fs_call" where
  "fs_open_create mode p fs = (case fs_follow SYMLINK_LIMIT fs p of
       Inr (_, FileNode _ _) \<Rightarrow> (Inr (), fs)
     | Inr _ \<Rightarrow> (Inl (IoError IsADirectory []), fs)
     | Inl e \<Rightarrow> if map_of fs p = None \<and> map_of fs (butlast p) = Some DirNode
         then (Inr (), fs_put p (FileNode [] mode) fs) else (Inl e, fs))"

definition fs_children :: "fs \<Rightarrow> path \<Rightarrow> path list" where
  "fs_children fs p = filter (\<lambda>q. q \<noteq> [] \<and> butlast q = p) (remdups (map fst fs))"

definition fs_read_dir :: "path \<Rightarrow> path list fs_call" where
  "fs_read_dir p fs = (case fs_follow SYMLINK_LIMIT fs p of
       Inl e \<Rightarrow> (Inl e, fs)
     | Inr (q, DirNode) \<Rightarrow> (Inr (map (\<lambda>c. p @ [last c]) (fs_children fs q)), fs)
     | Inr _ \<Rightarrow> (Inl (IoError NotADirectory []), fs))"

definition fs_remove_file :: "path \<Rightarrow> unit fs_call" where
  "fs_remove_file p fs = (case map_of fs p of
       None \<Rightarrow> (Inl (fs_missing fs p), fs)
     | Some DirNode \<Rightarrow> (Inl (IoError IsADirectory []), fs)
     | Some _ \<Rightarrow> (Inr (), fs_delete p fs))"

definition fs_remove_dir :: "path \<Rightarrow> unit fs_call" where
  "fs_remove_dir p fs = (case map_of fs p of
       None \<Rightarrow> (Inl (fs_missing fs p), fs)
     | Some DirNode \<Rightarrow> if fs_children fs p = [] then (Inr (), fs_delete p fs)
         else (Inl (IoError DirectoryNotEmpty []), fs)
     | Some _ \<Rightarrow> (Inl (IoError NotADirectory []), fs))"

text \<open>\<open>rename\<close> over an existing file, \<open>persist_noclobber\<close> and the exchanging rename.\<close>

definition fs_rename :: "path \<Rightarrow> path \<Rightarrow> unit fs_call" where
  "fs_rename a b fs = (case map_of fs a of
       None \<Rightarrow> (Inl (fs_missing fs a), fs)
     | Some n \<Rightarrow> if map_of fs b = Some DirNode then (Inl (IoError IsADirectory []), fs)
         else if map_of fs (butlast b) \<noteq> Some DirNode then (Inl (fs_missing fs b), fs)
         else (Inr (), fs_put b n (fs_delete a fs)))"

definition fs_rename_noclobber :: "path \<Rightarrow> path \<Rightarrow> unit fs_call" where
  "fs_rename_noclobber a b fs = (if map_of fs b \<noteq> None then (Inl (IoError AlreadyExists []), fs)
     else fs_rename a b fs)"

definition fs_exchange :: "path \<Rightarrow> path \<Rightarrow> unit fs_call" where
  "fs_exchange a b fs = (case (map_of fs a, map_of fs b) of
       (Some m, Some n) \<Rightarrow> (Inr (), fs_put b m (fs_put a n fs))
     | (None, _) \<Rightarrow> (Inl (fs_missing fs a), fs)
     | (_, None) \<Rightarrow> (Inl (fs_missing fs b), fs))"

definition fs_set_mode :: "path \<Rightarrow> nat \<Rightarrow> unit fs_call" where
  "fs_set_mode p mode fs = (case map_of fs p of
       Some (FileNode b _) \<Rightarrow> (Inr (), fs_put p (FileNode b mode) fs)
     | Some _ \<Rightarrow> (Inr (), fs)
     | None \<Rightarrow> (Inl (fs_missing fs p), fs))"

definition fs_append :: "path \<Rightarrow> string \<Rightarrow> unit fs_call" where
  "fs_append p chunk fs = (case map_of fs p of
       Some (FileNode b m) \<Rightarrow> (Inr (), fs_put p (FileNode (b @ chunk) m) fs)
     | Some _ \<Rightarrow> (Inl (IoError OtherKind []), fs)
     | None \<Rightarrow> (Inl (fs_missing fs p), fs))"

definition fs_truncate :: "path \<Rightarrow> unit fs_call" where
  "fs_truncate p fs = (case map_of fs p of
       Some (FileNode b m) \<Rightarrow> (Inr (), fs_put p (FileNode [] m) fs)
     | Some _ \<Rightarrow> (Inl (IoError OtherKind []), fs)
     | None \<Rightarrow> (Inl (fs_missing fs p), fs))"

section \<open>The environment\<close>

text \<open>
  SHA-256 as lower case hexadecimal, the failures outside the tree by the step's context and path,
  the random part of temporary names, and \<open>dunce::canonicalize\<close>.
\<close>

record cache_env =
  ce_sha :: "string \<Rightarrow> string"
  ce_fault :: "fs \<Rightarrow> string \<Rightarrow> path \<Rightarrow> string option"
  ce_temp_suffix :: "fs \<Rightarrow> path \<Rightarrow> string"
  ce_canonicalize :: "fs \<Rightarrow> path \<Rightarrow> path option"
  ce_utf8_lossy :: "string \<Rightarrow> string"

definition io_raw :: "cache_env \<Rightarrow> string \<Rightarrow> path \<Rightarrow> 'a fs_call \<Rightarrow> 'a fs_call" where
  "io_raw E context p op fs = (case ce_fault E fs context p of
       Some message \<Rightarrow> (Inl (IoError OtherKind message), fs)
     | None \<Rightarrow> op fs)"

definition map_err_sr :: "('e \<Rightarrow> 'd) \<Rightarrow> ('s, 'e, 'a) sr \<Rightarrow> ('s, 'd, 'a) sr" where
  "map_err_sr f m s = (case m s of (r, s') \<Rightarrow> (map_err f r, s'))"

text \<open>The usual step: a failure is reported with its context and path.\<close>

definition io_step :: "cache_env \<Rightarrow> string \<Rightarrow> path \<Rightarrow> 'a fs_call \<Rightarrow> 'a cache_call" where
  "io_step E context p op = map_err_sr (CacheIo context p) (io_raw E context p op)"

definition lift_io :: "string \<Rightarrow> path \<Rightarrow> fs_error + 'a \<Rightarrow> 'a cache_call" where
  "lift_io context p r = lift_sr (map_err (CacheIo context p) r)"

text \<open>\<open>NamedTempFile::new_in\<close>, and its removal when it is dropped.\<close>

definition TEMP_PREFIX :: string where
  "TEMP_PREFIX = ''.tmp''"

definition fs_create_temp :: "cache_env \<Rightarrow> path \<Rightarrow> path fs_call" where
  "fs_create_temp E parent fs = (if map_of fs parent = Some DirNode
     then (let t = parent @ [TEMP_PREFIX @ ce_temp_suffix E fs parent] in
       (Inr t, fs_put t (FileNode [] 384) fs))
     else (Inl (fs_missing fs (parent @ [TEMP_PREFIX])), fs))"

definition finally_sr :: "('s, 'e, 'a) sr \<Rightarrow> ('s \<Rightarrow> 's) \<Rightarrow> ('s, 'e, 'a) sr" where
  "finally_sr m cleanup s = (case m s of (r, s') \<Rightarrow> (r, cleanup s'))"

definition on_error_sr :: "('s, 'e, 'a) sr \<Rightarrow> ('s \<Rightarrow> 's) \<Rightarrow> ('s, 'e, 'a) sr" where
  "on_error_sr m cleanup s = (case m s of (Inl e, s') \<Rightarrow> (Inl e, cleanup s') | (Inr x, s') \<Rightarrow> (Inr x, s'))"

text \<open>Branching on the outcome of a step, and a step of another process.\<close>

definition try_sr :: "('s, 'e, 'a) sr \<Rightarrow> ('a \<Rightarrow> ('s, 'd, 'b) sr) \<Rightarrow> ('e \<Rightarrow> ('s, 'd, 'b) sr) \<Rightarrow> ('s, 'd, 'b) sr" where
  "try_sr m f g s = (case m s of (Inr x, s') \<Rightarrow> f x s' | (Inl e, s') \<Rightarrow> g e s')"

definition hook_sr :: "('s \<Rightarrow> 's) \<Rightarrow> ('s, 'e, unit) sr" where
  "hook_sr f s = (Inr (), f s)"

lemma try_sr_cases:
  assumes "try_sr m f g s = (r, t)"
  obtains (ok) x s' where "m s = (Inr x, s')" "f x s' = (r, t)"
    | (err) e s' where "m s = (Inl e, s')" "g e s' = (r, t)"
  using assms by (auto simp: try_sr_def split: prod.splits sum.splits)

section \<open>What a step leaves alone\<close>

text \<open>
  Creating and removing directories does not count, nor do the files with temporary names.
\<close>

definition content_at :: "fs \<Rightarrow> path \<Rightarrow> fs_node option" where
  "content_at fs p = (case map_of fs p of Some DirNode \<Rightarrow> None | r \<Rightarrow> r)"

definition is_temp :: "path \<Rightarrow> bool" where
  "is_temp p \<longleftrightarrow> p \<noteq> [] \<and> take 4 (last p) = TEMP_PREFIX"

definition frame :: "path set \<Rightarrow> (fs, 'e, 'a) sr \<Rightarrow> bool" where
  "frame S m \<longleftrightarrow> (\<forall>fs p. p \<notin> S \<longrightarrow> \<not> is_temp p \<longrightarrow> content_at (snd (m fs)) p = content_at fs p)"

named_theorems frame_intros "what the steps on the file system leave alone"

lemma frameD: "frame S m \<Longrightarrow> m fs = (r, fs') \<Longrightarrow> p \<notin> S \<Longrightarrow> \<not> is_temp p \<Longrightarrow> content_at fs' p = content_at fs p"
  unfolding frame_def by (metis snd_conv)

lemma frame_mono: "frame S m \<Longrightarrow> S \<subseteq> T \<Longrightarrow> frame T m"
  by (auto simp: frame_def)

lemma frame_pure: "(\<And>fs. snd (m fs) = fs) \<Longrightarrow> frame S m"
  by (simp add: frame_def)

lemma content_at_simps [simp]:
  "content_at (fs_put p n fs) = (content_at fs)(p := if n = DirNode then None else Some n)"
  "content_at (fs_delete p fs) = (content_at fs)(p := None)"
  by (auto simp: content_at_def fun_eq_iff split: option.splits fs_node.splits)

lemma frame_bind [frame_intros]:
  "frame S m \<Longrightarrow> (\<And>s x s'. m s = (Inr x, s') \<Longrightarrow> frame S (f x)) \<Longrightarrow> frame S (bind_sr m f)"
  unfolding frame_def bind_sr_def by (auto split: prod.splits sum.splits) (metis snd_conv)+

lemma frame_try [frame_intros]:
  "frame S m \<Longrightarrow> (\<And>s x s'. m s = (Inr x, s') \<Longrightarrow> frame S (f x)) \<Longrightarrow> (\<And>e. frame S (g e)) \<Longrightarrow> frame S (try_sr m f g)"
  unfolding frame_def try_sr_def by (auto split: prod.splits sum.splits) (metis snd_conv)+

lemma frame_ret [frame_intros]: "frame S (ret_sr x)" "frame S (lift_sr r)"
  by (simp_all add: frame_def)

lemma frame_map_err [frame_intros]: "frame S m \<Longrightarrow> frame S (map_err_sr f m)"
  by (simp add: frame_def map_err_sr_def split_beta)

lemma frame_finally [frame_intros]:
  "frame S m \<Longrightarrow> is_temp t \<or> t \<in> S \<Longrightarrow> frame S (finally_sr m (fs_delete t))"
  "frame S m \<Longrightarrow> is_temp t \<or> t \<in> S \<Longrightarrow> frame S (on_error_sr m (fs_delete t))"
  by (auto simp: frame_def finally_sr_def on_error_sr_def split: prod.splits sum.splits) (metis snd_conv)+

lemma frame_io_raw [frame_intros]: "frame S m \<Longrightarrow> frame S (io_raw E context p m)"
  by (simp add: frame_def io_raw_def split: option.splits)

lemma frame_io_step [frame_intros]: "frame S m \<Longrightarrow> frame S (io_step E context p m)"
  unfolding io_step_def by (intro frame_intros)

lemma frame_lift_io [frame_intros]: "frame S (lift_io context p r)"
  unfolding lift_io_def by (rule frame_ret)

lemma frame_reads [frame_intros]:
  "frame S (fs_metadata p)" "frame S (fs_symlink_metadata p)" "frame S (fs_read_dir p)"
  by (auto intro!: frame_pure simp: fs_metadata_def fs_symlink_metadata_def fs_read_dir_def
      split: sum.splits fs_node.splits)

lemma content_make_dirs: "content_at (snd (make_dirs ps fs)) = content_at fs"
proof (induction ps fs rule: make_dirs.induct)
  case (2 p ps fs)
  have "content_at fs p = None" if "map_of fs p = None"
    using that by (simp add: content_at_def)
  then show ?case using 2 by (auto simp: fun_eq_iff split: option.splits fs_node.splits)
qed simp

lemma frame_create_dir_all [frame_intros]: "frame S (fs_create_dir_all p)"
  by (simp add: frame_def fs_create_dir_all_def content_make_dirs)

lemma frame_open_create [frame_intros]: "p \<in> S \<Longrightarrow> frame S (fs_open_create mode p)"
  by (auto simp: frame_def fs_open_create_def split: sum.splits fs_node.splits)

lemma frame_remove_file [frame_intros]: "p \<in> S \<or> is_temp p \<Longrightarrow> frame S (fs_remove_file p)"
  by (auto simp: frame_def fs_remove_file_def split: option.splits fs_node.splits)

lemma frame_remove_dir [frame_intros]: "frame S (fs_remove_dir p)"
  by (auto simp: frame_def fs_remove_dir_def content_at_def fs_delete_def delete_conv' split: option.splits fs_node.splits)

lemma frame_rename [frame_intros]:
  "a \<in> S \<or> is_temp a \<Longrightarrow> b \<in> S \<or> is_temp b \<Longrightarrow> frame S (fs_rename a b)"
  "a \<in> S \<or> is_temp a \<Longrightarrow> b \<in> S \<or> is_temp b \<Longrightarrow> frame S (fs_rename_noclobber a b)"
  by (auto simp: frame_def fs_rename_def fs_rename_noclobber_def split: option.splits)

lemma frame_exchange [frame_intros]:
  "a \<in> S \<or> is_temp a \<Longrightarrow> b \<in> S \<or> is_temp b \<Longrightarrow> frame S (fs_exchange a b)"
  by (auto simp: frame_def fs_exchange_def split: option.splits)

lemma frame_edit [frame_intros]:
  "p \<in> S \<or> is_temp p \<Longrightarrow> frame S (fs_set_mode p mode)"
  "p \<in> S \<or> is_temp p \<Longrightarrow> frame S (fs_append p chunk)"
  "p \<in> S \<or> is_temp p \<Longrightarrow> frame S (fs_truncate p)"
  by (auto simp: frame_def fs_set_mode_def fs_append_def fs_truncate_def split: option.splits fs_node.splits)

lemma is_temp_snoc [simp]: "is_temp (p @ [TEMP_PREFIX @ s])"
  by (simp add: is_temp_def TEMP_PREFIX_def)

lemma frame_create_temp [frame_intros]: "frame S (fs_create_temp E parent)"
  by (auto simp: frame_def fs_create_temp_def Let_def)

text \<open>A step of another process that writes at given paths only.\<close>

definition edits :: "path set \<Rightarrow> (fs \<Rightarrow> fs) \<Rightarrow> bool" where
  "edits S h \<longleftrightarrow> (\<forall>fs p. p \<notin> S \<longrightarrow> map_of (h fs) p = map_of fs p)"

lemma frame_hook [frame_intros]: "edits S h \<Longrightarrow> frame S (hook_sr h)"
  by (simp add: edits_def frame_def hook_sr_def content_at_def)

lemma edits_id [simp]: "edits S (\<lambda>fs. fs)"
  by (simp add: edits_def)

section \<open>Outcomes of steps\<close>

lemma io_raw_Inr: "io_raw E c p m fs = (Inr x, fs') \<longleftrightarrow> ce_fault E fs c p = None \<and> m fs = (Inr x, fs')"
  by (simp add: io_raw_def split: option.splits)

lemma map_err_sr_Inr: "map_err_sr f m s = (Inr x, s') \<longleftrightarrow> m s = (Inr x, s')"
  by (simp add: map_err_sr_def split: prod.splits)

lemma io_step_Inr: "io_step E c p m fs = (Inr x, fs') \<longleftrightarrow> ce_fault E fs c p = None \<and> m fs = (Inr x, fs')"
  by (simp add: io_step_def map_err_sr_Inr io_raw_Inr)

lemma lift_io_Inr: "lift_io c p r fs = (Inr x, fs') \<longleftrightarrow> r = Inr x \<and> fs' = fs"
  by (auto simp: lift_io_def)

lemma finally_sr_Inr: "finally_sr m cleanup s = (r, t) \<longleftrightarrow> (\<exists>s'. m s = (r, s') \<and> t = cleanup s')"
  by (auto simp: finally_sr_def split: prod.splits)

lemma on_error_sr_Inr: "on_error_sr m cleanup s = (Inr x, t) \<longleftrightarrow> m s = (Inr x, t)"
  by (auto simp: on_error_sr_def split: prod.splits sum.splits)

lemma hook_sr_eq [simp]: "hook_sr f s = (r, t) \<longleftrightarrow> r = Inr () \<and> t = f s"
  by (auto simp: hook_sr_def)

lemmas sr_Inr = bind_sr_Inr io_raw_Inr map_err_sr_Inr io_step_Inr lift_io_Inr finally_sr_Inr on_error_sr_Inr

lemma fs_create_temp_Inr:
  "fs_create_temp E parent fs = (Inr t, fs') \<longleftrightarrow> map_of fs parent = Some DirNode
     \<and> t = parent @ [TEMP_PREFIX @ ce_temp_suffix E fs parent] \<and> fs' = fs_put t (FileNode [] 384) fs"
  by (auto simp: fs_create_temp_def Let_def)

lemma temp_is_temp: "io_step E c p (fs_create_temp E parent) fs = (Inr t, fs') \<Longrightarrow> is_temp t"
  by (auto simp: io_step_Inr fs_create_temp_Inr)

text \<open>Steps that only look.\<close>

definition looks :: "(fs, 'e, 'a) sr \<Rightarrow> bool" where
  "looks m \<longleftrightarrow> (\<forall>fs. snd (m fs) = fs)"

named_theorems looks_intros "steps that leave the file system as it is"

lemma looksD: "looks m \<Longrightarrow> m fs = (r, fs') \<Longrightarrow> fs' = fs"
  unfolding looks_def by (metis snd_conv)

lemma looks_frame: "looks m \<Longrightarrow> frame S m"
  by (simp add: looks_def frame_def)

lemma looks_bind [looks_intros]: "looks m \<Longrightarrow> (\<And>x. looks (f x)) \<Longrightarrow> looks (bind_sr m f)"
  unfolding looks_def bind_sr_def by (auto split: prod.splits sum.splits) (metis snd_conv)+

lemma looks_try [looks_intros]:
  "looks m \<Longrightarrow> (\<And>x. looks (f x)) \<Longrightarrow> (\<And>e. looks (g e)) \<Longrightarrow> looks (try_sr m f g)"
  unfolding looks_def try_sr_def by (auto split: prod.splits sum.splits) (metis snd_conv)+

lemma looks_basic [looks_intros]:
  "looks (ret_sr x)" "looks (lift_sr r)" "looks (lift_io c p r')" "looks (fs_metadata p)" "looks (fs_symlink_metadata p)"
  by (simp_all add: looks_def lift_io_def fs_metadata_def fs_symlink_metadata_def)

lemma looks_read_dir [looks_intros]: "looks (fs_read_dir p)"
  by (auto simp: looks_def fs_read_dir_def split: sum.splits fs_node.splits)

lemma looks_map_err [looks_intros]: "looks m \<Longrightarrow> looks (map_err_sr f m)"
  by (simp add: looks_def map_err_sr_def split_beta)

lemma looks_io_raw [looks_intros]: "looks m \<Longrightarrow> looks (io_raw E c p m)"
  by (simp add: looks_def io_raw_def split: option.splits)

lemma looks_io_step [looks_intros]: "looks m \<Longrightarrow> looks (io_step E c p m)"
  unfolding io_step_def by (intro looks_intros)

text \<open>A regular file behind a path.\<close>

lemma fs_follow_file: "map_of fs p = Some (FileNode b m) \<Longrightarrow> fs_follow (Suc n) fs p = Inr (p, FileNode b m)"
  by simp

lemma follow_limit_file: "map_of fs p = Some (FileNode b m) \<Longrightarrow> fs_follow SYMLINK_LIMIT fs p = Inr (p, FileNode b m)"
  unfolding SYMLINK_LIMIT_def by (simp add: eval_nat_numeral)

end
