(* ===== verification/Cache_Objects.thy ===== *)
theory Cache_Objects
  imports Cache_Fs
begin

text \<open>
  The shared object cache (\<open>local_cache/layout.rs\<close>, \<open>locking.rs\<close>, \<open>object_io.rs\<close>,
  \<open>ingest.rs\<close>): where objects live, the lock files, hashing and copying in chunks, and publishing
  a verified object without replacing an existing one.
\<close>

section \<open>Layout\<close>

definition DEFAULT_LOCAL_CACHE_HOME_DIR :: string where
  "DEFAULT_LOCAL_CACHE_HOME_DIR = ''.lfscloud''"

definition LOCAL_CACHE_OBJECTS_DIR :: string where
  "LOCAL_CACHE_OBJECTS_DIR = ''objects''"

definition LOCAL_CACHE_WORKTREES_FILE :: string where
  "LOCAL_CACHE_WORKTREES_FILE = ''worktrees.json''"

definition CACHE_OPERATION_LOCK_FILE :: string where
  "CACHE_OPERATION_LOCK_FILE = ''objects.lock''"

definition WORKTREE_PATH_LOCKS_DIR :: string where
  "WORKTREE_PATH_LOCKS_DIR = ''worktree-path-locks''"

definition WORKTREE_REGISTRY_LOCK_FILE :: string where
  "WORKTREE_REGISTRY_LOCK_FILE = ''worktrees.json.lock''"

definition OBJECT_SHARD_WIDTH :: nat where
  "OBJECT_SHARD_WIDTH = 2"

record local_cache_layout =
  cl_root :: path

definition from_home_dir :: "path \<Rightarrow> local_cache_layout" where
  "from_home_dir home_dir = \<lparr>cl_root = fs_path_join home_dir [DEFAULT_LOCAL_CACHE_HOME_DIR]\<rparr>"

definition objects_dir :: "local_cache_layout \<Rightarrow> path" where
  "objects_dir cache = cl_root cache @ [LOCAL_CACHE_OBJECTS_DIR]"

definition worktree_registry_path :: "local_cache_layout \<Rightarrow> path" where
  "worktree_registry_path cache = cl_root cache @ [LOCAL_CACHE_WORKTREES_FILE]"

definition object_shards :: "string \<Rightarrow> string \<times> string" where
  "object_shards hex = (take OBJECT_SHARD_WIDTH hex, take OBJECT_SHARD_WIDTH (drop OBJECT_SHARD_WIDTH hex))"

definition git_lfs_object_path :: "path \<Rightarrow> lfs_oid \<Rightarrow> path" where
  "git_lfs_object_path git_lfs_objects_dir x = (case object_shards (as_hex x) of
     (first_shard, second_shard) \<Rightarrow> git_lfs_objects_dir @ [first_shard, second_shard, as_hex x])"

definition object_path_for_oid :: "local_cache_layout \<Rightarrow> lfs_oid \<Rightarrow> path" where
  "object_path_for_oid cache x = (case object_shards (as_hex x) of
     (first_shard, second_shard) \<Rightarrow> objects_dir cache @ [first_shard, second_shard, as_hex x])"

definition object_path :: "local_cache_layout \<Rightarrow> lfs_object \<Rightarrow> path" where
  "object_path cache object = object_path_for_oid cache (obj_oid object)"

section \<open>Locks\<close>

text \<open>Taking a lock creates its file; waiting for another holder is not a step of this process.\<close>

definition LOCK_FILE_MODE :: nat where
  "LOCK_FILE_MODE = 420"

definition normalized_path_key :: "cache_env \<Rightarrow> fs \<Rightarrow> path \<Rightarrow> path" where
  "normalized_path_key E fs p = (case ce_canonicalize E fs p of Some q \<Rightarrow> q | None \<Rightarrow> p)"

definition worktree_registry_lock_path :: "local_cache_layout \<Rightarrow> path" where
  "worktree_registry_lock_path cache = cl_root cache @ [WORKTREE_REGISTRY_LOCK_FILE]"

definition cache_operation_lock_path :: "local_cache_layout \<Rightarrow> path" where
  "cache_operation_lock_path cache = cl_root cache @ [CACHE_OPERATION_LOCK_FILE]"

definition worktree_path_lock_path :: "cache_env \<Rightarrow> local_cache_layout \<Rightarrow> fs \<Rightarrow> path \<Rightarrow> path" where
  "worktree_path_lock_path E cache fs worktree_path =
     cl_root cache @ [WORKTREE_PATH_LOCKS_DIR,
       take 2 (ce_sha E (ce_utf8_lossy E (path_display (normalized_path_key E fs worktree_path)))) @ ''.lock'']"

definition lock_worktree_path :: "cache_env \<Rightarrow> local_cache_layout \<Rightarrow> path \<Rightarrow> unit cache_call" where
  "lock_worktree_path E cache worktree_path fs =
     (let p = worktree_path_lock_path E cache fs worktree_path; parent = butlast p in
       bind_sr (io_step E ''failed to create local cache worktree lock directory'' parent (fs_create_dir_all parent)) (\<lambda>_.
       bind_sr (io_step E ''failed to open local cache worktree path lock'' p (fs_open_create LOCK_FILE_MODE p)) (\<lambda>_.
         io_step E ''failed to lock local cache worktree path'' p (ret_sr ())))) fs"

definition open_cache_operation_lock :: "cache_env \<Rightarrow> local_cache_layout \<Rightarrow> path cache_call" where
  "open_cache_operation_lock E cache =
     (let p = cache_operation_lock_path cache in
       bind_sr (io_step E ''failed to create local cache root'' (cl_root cache) (fs_create_dir_all (cl_root cache))) (\<lambda>_.
       bind_sr (io_step E ''failed to open local cache operation lock'' p (fs_open_create LOCK_FILE_MODE p)) (\<lambda>_.
         ret_sr p)))"

definition lock_cache_operation_shared :: "cache_env \<Rightarrow> local_cache_layout \<Rightarrow> unit cache_call" where
  "lock_cache_operation_shared E cache =
     bind_sr (open_cache_operation_lock E cache) (\<lambda>p.
       io_step E ''failed to lock local cache operation for shared access'' p (ret_sr ()))"

definition lock_cache_operation_exclusive :: "cache_env \<Rightarrow> local_cache_layout \<Rightarrow> unit cache_call" where
  "lock_cache_operation_exclusive E cache =
     bind_sr (open_cache_operation_lock E cache) (\<lambda>p.
       io_step E ''failed to lock local cache operation for exclusive access'' p (ret_sr ()))"

definition lock_worktree_registry :: "cache_env \<Rightarrow> local_cache_layout \<Rightarrow> unit cache_call" where
  "lock_worktree_registry E cache =
     (let p = worktree_registry_lock_path cache in
       bind_sr (io_step E ''failed to create local cache root'' (cl_root cache) (fs_create_dir_all (cl_root cache))) (\<lambda>_.
       bind_sr (io_step E ''failed to open local cache worktree registry lock'' p (fs_open_create LOCK_FILE_MODE p)) (\<lambda>_.
         io_step E ''failed to lock local cache worktree registry'' p (ret_sr ()))))"

section \<open>Reading and hashing\<close>

definition COPY_BUFFER :: nat where
  "COPY_BUFFER = 64 * 1024"

definition regular_file_exists :: "cache_env \<Rightarrow> path \<Rightarrow> string \<Rightarrow> string \<Rightarrow> bool cache_call" where
  "regular_file_exists E p inspect_context wrong_type_context =
     try_sr (io_raw E inspect_context p (fs_metadata p))
       (\<lambda>metadata. if node_is_file metadata then ret_sr True
          else lift_sr (Inl (CacheIo wrong_type_context p (IoError InvalidData ''expected a regular file''))))
       (\<lambda>err. if io_error_kind err = NotFound then ret_sr False
          else lift_sr (Inl (CacheIo inspect_context p err)))"

definition cache_object_path_exists :: "cache_env \<Rightarrow> path \<Rightarrow> bool cache_call" where
  "cache_object_path_exists E p =
     regular_file_exists E p ''failed to inspect cache object'' ''cache object path is not a file''"

definition ensure_cache_object_file :: "cache_env \<Rightarrow> path \<Rightarrow> lfs_object \<Rightarrow> unit cache_call" where
  "ensure_cache_object_file E p object =
     bind_sr (regular_file_exists E p ''failed to inspect cache object'' ''cache object path is not a file'')
       (\<lambda>found. lift_sr (if found then Inr () else Inl (MissingCacheObject (obj_oid object) (obj_size object) p)))"

definition ensure_source_object_file :: "cache_env \<Rightarrow> path \<Rightarrow> lfs_object \<Rightarrow> unit cache_call" where
  "ensure_source_object_file E p object =
     bind_sr (regular_file_exists E p ''failed to inspect Git LFS source object''
         ''Git LFS source object path is not a file'')
       (\<lambda>found. lift_sr (if found then Inr () else Inl (MissingSourceObject (obj_oid object) (obj_size object) p)))"

text \<open>The copy destination: the temporary file, the path that errors name, and their context.\<close>

type_synonym copy_destination = "path \<times> path \<times> string"

definition write_chunk :: "cache_env \<Rightarrow> copy_destination option \<Rightarrow> string \<Rightarrow> unit cache_call" where
  "write_chunk E destination chunk = (case destination of
       None \<Rightarrow> ret_sr ()
     | Some (writer, p, context) \<Rightarrow> io_step E context p (fs_append writer chunk))"

function copy_loop ::
  "cache_env \<Rightarrow> path \<Rightarrow> string \<Rightarrow> copy_destination option \<Rightarrow> string \<Rightarrow> string \<Rightarrow> u64 \<Rightarrow> (lfs_oid \<times> u64) cache_call" where
  "copy_loop E source_path read_context destination rest hashed total_size fs =
     (case ce_fault E fs read_context source_path of
        Some message \<Rightarrow> (Inl (CacheIo read_context source_path (IoError OtherKind message)), fs)
      | None \<Rightarrow>
        if rest = [] then (Inr (LfsOid (ce_sha E hashed), total_size), fs)
        else (case write_chunk E destination (take COPY_BUFFER rest) fs of
            (Inl err, fs') \<Rightarrow> (Inl err, fs')
          | (Inr _, fs') \<Rightarrow>
            (case checked_add_u64 total_size (of_nat (length (take COPY_BUFFER rest))) of
               None \<Rightarrow> (Inl (CacheIo ''object is too large to measure'' source_path
                          (IoError InvalidData ''object size overflow'')), fs')
             | Some total_size' \<Rightarrow> copy_loop E source_path read_context destination (drop COPY_BUFFER rest)
                 (hashed @ take COPY_BUFFER rest) total_size' fs')))"
  by pat_completeness auto
termination
  by (relation "measure (\<lambda>(E, p, c, d, rest, h, t, fs). length rest)") (auto simp: COPY_BUFFER_def)

declare copy_loop.simps [simp del]

definition hash_and_optionally_copy ::
  "cache_env \<Rightarrow> fs_node \<Rightarrow> path \<Rightarrow> string \<Rightarrow> copy_destination option \<Rightarrow> (lfs_oid \<times> u64) cache_call" where
  "hash_and_optionally_copy E source source_path read_context destination =
     bind_sr (lift_io read_context source_path (read_handle source)) (\<lambda>bytes.
       copy_loop E source_path read_context destination bytes [] 0)"

definition hash_open_file :: "cache_env \<Rightarrow> fs_node \<Rightarrow> path \<Rightarrow> (lfs_oid \<times> u64) cache_call" where
  "hash_open_file E file p = hash_and_optionally_copy E file p ''failed to read object for hashing'' None"

definition hash_file :: "cache_env \<Rightarrow> path \<Rightarrow> (lfs_oid \<times> u64) cache_call" where
  "hash_file E p = bind_sr (io_step E ''failed to open object for hashing'' p (fs_metadata p)) (\<lambda>file. hash_open_file E file p)"

section \<open>Verification\<close>

record verified_local_cache_object =
  vo_object :: lfs_object
  vo_path :: path

definition ensure_object_identity :: "path \<Rightarrow> lfs_object \<Rightarrow> lfs_oid \<times> u64 \<Rightarrow> unit cache_result" where
  "ensure_object_identity p expected actual =
     (if fst actual \<noteq> obj_oid expected \<or> snd actual \<noteq> obj_size expected
      then Inl (IntegrityMismatch p (obj_oid expected) (obj_size expected) (fst actual) (snd actual))
      else Inr ())"

definition verified_object :: "path \<Rightarrow> lfs_object \<Rightarrow> lfs_oid \<times> u64 \<Rightarrow> verified_local_cache_object cache_result" where
  "verified_object p expected actual =
     map_res (\<lambda>_. \<lparr>vo_object = expected, vo_path = p\<rparr>) (ensure_object_identity p expected actual)"

definition verify_file_object :: "cache_env \<Rightarrow> path \<Rightarrow> lfs_object \<Rightarrow> verified_local_cache_object cache_call" where
  "verify_file_object E p expected = bind_sr (hash_file E p) (\<lambda>actual. lift_sr (verified_object p expected actual))"

definition worktree_file_metadata_without_following_symlinks :: "cache_env \<Rightarrow> path \<Rightarrow> fs_node cache_call" where
  "worktree_file_metadata_without_following_symlinks E p =
     bind_sr (io_step E ''failed to inspect worktree path'' p (fs_symlink_metadata p)) (\<lambda>metadata. lift_sr
       (if node_is_symlink metadata then Inl (WorktreePathSymlink p)
        else if \<not> node_is_file metadata
        then Inl (CacheIo ''worktree path is not a file'' p (IoError InvalidData ''expected a regular file''))
        else Inr metadata))"

text \<open>\<open>openat\<close> with \<open>O_NOFOLLOW\<close>.\<close>

definition fs_open_nofollow :: "path \<Rightarrow> fs_node fs_call" where
  "fs_open_nofollow p fs = (case map_of fs p of
       None \<Rightarrow> (Inl (fs_missing fs p), fs)
     | Some (SymlinkNode _) \<Rightarrow> (Inl (IoError OtherKind ''too many levels of symbolic links''), fs)
     | Some node \<Rightarrow> (Inr node, fs))"

definition open_worktree_file_without_following_symlinks :: "cache_env \<Rightarrow> path \<Rightarrow> string \<Rightarrow> fs_node cache_call" where
  "open_worktree_file_without_following_symlinks E p context =
     bind_sr (worktree_file_metadata_without_following_symlinks E p) (\<lambda>_.
     bind_sr (try_sr (io_raw E context p (fs_open_nofollow p)) ret_sr
         (\<lambda>err fs. (Inl (case map_of fs p of
             Some (SymlinkNode _) \<Rightarrow> WorktreePathSymlink p
           | _ \<Rightarrow> CacheIo context p err), fs))) (\<lambda>file.
     bind_sr (io_step E ''failed to inspect opened worktree file'' p (ret_sr ())) (\<lambda>_. lift_sr
       (if node_is_file file then Inr file
        else Inl (CacheIo ''opened worktree path is not a file'' p (IoError InvalidData ''expected a regular file''))))))"

definition verify_worktree_file_object :: "cache_env \<Rightarrow> path \<Rightarrow> lfs_object \<Rightarrow> verified_local_cache_object cache_call" where
  "verify_worktree_file_object E p expected =
     bind_sr (open_worktree_file_without_following_symlinks E p ''failed to open worktree object for hashing'') (\<lambda>file.
     bind_sr (hash_open_file E file p) (\<lambda>actual. lift_sr (verified_object p expected actual)))"

definition verify_object :: "cache_env \<Rightarrow> local_cache_layout \<Rightarrow> lfs_object \<Rightarrow> verified_local_cache_object cache_call" where
  "verify_object E cache object =
     (let p = object_path cache object in
       bind_sr (ensure_cache_object_file E p object) (\<lambda>_. verify_file_object E p object))"

section \<open>Publishing into the cache\<close>

datatype ingest_status = AlreadyCached | CacheCopied
datatype publish_durability = Recoverable | Durable

definition sync_directory :: "cache_env \<Rightarrow> string \<Rightarrow> path \<Rightarrow> unit cache_call" where
  "sync_directory E context p = io_step E context p (ret_sr ())"

definition sync_verified_cache_object :: "cache_env \<Rightarrow> path \<Rightarrow> unit cache_call" where
  "sync_verified_cache_object E cache_path =
     bind_sr (lift_sr (ok_or (CacheIo ''failed to resolve cache object parent'' cache_path
         (IoError InvalidInput ''cache object path has no parent directory'')) (path_parent cache_path))) (\<lambda>cache_parent.
     bind_sr (io_step E ''failed to open verified cache object for sync'' cache_path (fs_metadata cache_path)) (\<lambda>_.
     bind_sr (io_step E ''failed to sync verified cache object'' cache_path (ret_sr ())) (\<lambda>_.
       sync_directory E ''failed to sync cache object directory'' cache_parent)))"

definition copy_and_verify_object ::
  "cache_env \<Rightarrow> fs_node \<Rightarrow> path \<Rightarrow> path \<Rightarrow> path \<Rightarrow> lfs_object \<Rightarrow> string \<Rightarrow> unit cache_call" where
  "copy_and_verify_object E source source_path temp destination_path expected read_context =
     bind_sr (hash_and_optionally_copy E source source_path read_context
         (Some (temp, destination_path, ''failed to write temporary cache object''))) (\<lambda>actual.
       lift_sr (ensure_object_identity source_path expected actual))"

definition publish_cache_object ::
  "cache_env \<Rightarrow> path \<Rightarrow> path \<Rightarrow> path \<Rightarrow> lfs_object \<Rightarrow> publish_durability \<Rightarrow> ingest_status cache_call" where
  "publish_cache_object E temp cache_path cache_parent object durability =
     try_sr (io_raw E ''failed to publish cache object'' cache_path (fs_rename_noclobber temp cache_path))
       (\<lambda>_. bind_sr (if durability = Durable
            then bind_sr (io_step E ''failed to sync published cache object'' cache_path (ret_sr ())) (\<lambda>_.
                sync_directory E ''failed to sync cache object directory'' cache_parent)
            else ret_sr ()) (\<lambda>_. ret_sr CacheCopied))
       (\<lambda>err. if io_error_kind err = AlreadyExists
          then bind_sr (verify_file_object E cache_path object) (\<lambda>_.
               bind_sr (if durability = Durable then sync_verified_cache_object E cache_path else ret_sr ()) (\<lambda>_.
                 ret_sr AlreadyCached))
          else lift_sr (Inl (CacheIo ''failed to publish cache object'' cache_path err)))"

definition copy_verified_file_to_cache ::
  "cache_env \<Rightarrow> fs_node \<Rightarrow> path \<Rightarrow> path \<Rightarrow> lfs_object \<Rightarrow> string \<Rightarrow> publish_durability \<Rightarrow> ingest_status cache_call" where
  "copy_verified_file_to_cache E source source_path cache_path object read_context durability =
     bind_sr (lift_sr (ok_or (CacheIo ''failed to resolve cache object parent'' cache_path
         (IoError InvalidInput ''cache object path has no parent directory'')) (path_parent cache_path))) (\<lambda>cache_parent.
     bind_sr (io_step E ''failed to create cache object directory'' cache_parent (fs_create_dir_all cache_parent)) (\<lambda>_.
     bind_sr (io_step E ''failed to create temporary cache object'' cache_parent (fs_create_temp E cache_parent)) (\<lambda>temp.
       finally_sr
         (bind_sr (copy_and_verify_object E source source_path temp cache_path object read_context) (\<lambda>_.
          bind_sr (io_step E (if durability = Durable then ''failed to sync temporary cache object''
              else ''failed to flush temporary cache object'') cache_path (ret_sr ())) (\<lambda>_.
            publish_cache_object E temp cache_path cache_parent object durability)))
         (fs_delete temp))))"

definition copy_verified_object_to_cache ::
  "cache_env \<Rightarrow> path \<Rightarrow> path \<Rightarrow> lfs_object \<Rightarrow> ingest_status cache_call" where
  "copy_verified_object_to_cache E source_path cache_path object =
     bind_sr (io_step E ''failed to open Git LFS source object'' source_path (fs_metadata source_path)) (\<lambda>source.
       copy_verified_file_to_cache E source source_path cache_path object
         ''failed to read Git LFS source object'' Recoverable)"

definition copy_verified_worktree_object_to_cache ::
  "cache_env \<Rightarrow> path \<Rightarrow> path \<Rightarrow> lfs_object \<Rightarrow> unit cache_call" where
  "copy_verified_worktree_object_to_cache E source_path cache_path object =
     bind_sr (open_worktree_file_without_following_symlinks E source_path ''failed to open hydrated worktree object'') (\<lambda>source.
     bind_sr (copy_verified_file_to_cache E source source_path cache_path object
         ''failed to read hydrated worktree object'' Durable) (\<lambda>_. ret_sr ()))"

section \<open>Ingest\<close>

record local_cache_ingest =
  ig_object :: lfs_object
  ig_source_path :: path
  ig_cache_path :: path
  ig_status :: ingest_status

definition ingest_git_lfs_object ::
  "cache_env \<Rightarrow> local_cache_layout \<Rightarrow> path \<Rightarrow> lfs_object \<Rightarrow> local_cache_ingest cache_call" where
  "ingest_git_lfs_object E cache git_lfs_objects_dir object =
     bind_sr (lock_cache_operation_shared E cache) (\<lambda>_.
       (let source_path = git_lfs_object_path git_lfs_objects_dir (obj_oid object);
            cache_path = object_path cache object;
            ingested = (\<lambda>status. \<lparr>ig_object = object, ig_source_path = source_path, ig_cache_path = cache_path,
              ig_status = status\<rparr>) in
        bind_sr (cache_object_path_exists E cache_path) (\<lambda>found.
          if found then bind_sr (verify_object E cache object) (\<lambda>_. ret_sr (ingested AlreadyCached))
          else bind_sr (ensure_source_object_file E source_path object) (\<lambda>_.
               bind_sr (copy_verified_object_to_cache E source_path cache_path object) (\<lambda>status.
                 ret_sr (ingested status))))))"

section \<open>What verification finds\<close>

definition env_ok :: "cache_env \<Rightarrow> bool" where
  "env_ok E \<longleftrightarrow> (\<forall>bytes. oid_ok (LfsOid (ce_sha E bytes)))
     \<and> (\<forall>fs parent. map_of fs (parent @ [TEMP_PREFIX @ ce_temp_suffix E fs parent]) = None)"

definition is_object_bytes :: "cache_env \<Rightarrow> lfs_object \<Rightarrow> string \<Rightarrow> bool" where
  "is_object_bytes E object bytes \<longleftrightarrow>
     ce_sha E bytes = as_hex (obj_oid object) \<and> length bytes = unat (obj_size object)"

definition holds_object :: "cache_env \<Rightarrow> fs \<Rightarrow> path \<Rightarrow> lfs_object \<Rightarrow> bool" where
  "holds_object E fs p object \<longleftrightarrow>
     (\<exists>q bytes mode. fs_follow SYMLINK_LIMIT fs p = Inr (q, FileNode bytes mode) \<and> is_object_bytes E object bytes)"

lemma write_chunk_Inr:
  assumes "write_chunk E (Some (t, p, c)) chunk fs = (Inr u, fs')"
  shows "\<exists>b m. map_of fs t = Some (FileNode b m) \<and> fs' = fs_put t (FileNode (b @ chunk) m) fs"
  using assms by (auto simp: write_chunk_def io_step_Inr fs_append_def split: option.splits fs_node.splits)

lemma copy_loop_Inr:
  assumes "copy_loop E sp rc dst rest hashed n fs = (Inr (x, k), fs')"
  shows "x = LfsOid (ce_sha E (hashed @ rest)) \<and> unat k = unat n + length rest
     \<and> (dst = None \<longrightarrow> fs' = fs)
     \<and> (\<forall>t p c b m. dst = Some (t, p, c) \<longrightarrow> map_of fs t = Some (FileNode b m)
          \<longrightarrow> map_of fs' = (map_of fs)(t \<mapsto> FileNode (b @ rest) m))"
  using assms
proof (induction E sp rc dst rest hashed n fs rule: copy_loop.induct)
  case (1 E sp rc dst rest hashed n fs)
  have ok: "ce_fault E fs rc sp = None"
    using "1.prems" by (cases "ce_fault E fs rc sp") (simp_all add: copy_loop.simps [of E])
  show ?case
  proof (cases "rest = []")
    case True
    then show ?thesis using "1.prems" ok by (auto simp: copy_loop.simps [of E])
  next
    case False
    obtain u fs1 n1 where w: "write_chunk E dst (take COPY_BUFFER rest) fs = (Inr u, fs1)"
      and n1: "checked_add_u64 n (of_nat (length (take COPY_BUFFER rest))) = Some n1"
      and go: "copy_loop E sp rc dst (drop COPY_BUFFER rest) (hashed @ take COPY_BUFFER rest) n1 fs1 = (Inr (x, k), fs')"
      using "1.prems" ok False by (subst (asm) copy_loop.simps) (auto split: prod.splits sum.splits option.splits)
    note IH = "1.IH" [OF ok False w [symmetric] refl n1 go]
    have small: "unat (of_nat (length (take COPY_BUFFER rest)) :: u64) = length (take COPY_BUFFER rest)"
      by (simp add: unat_of_nat COPY_BUFFER_def take_bit_eq_mod)
    have "unat n1 = unat n + length (take COPY_BUFFER rest)"
      using n1 small by (simp add: checked_add_u64_iff)
    moreover have "length (take COPY_BUFFER rest) + length (drop COPY_BUFFER rest) = length rest" by simp
    moreover have "fs1 = fs" if "dst = None" using w that by (simp add: write_chunk_def)
    moreover have "map_of fs1 = (map_of fs)(t \<mapsto> FileNode (b @ take COPY_BUFFER rest) m)"
      if "dst = Some (t, p, c)" "map_of fs t = Some (FileNode b m)" for t p c b m
      using write_chunk_Inr [OF w [unfolded that(1)]] that(2) by auto
    ultimately show ?thesis using IH by (auto simp del: length_take length_drop)
  qed
qed

lemma frame_copy_loop [frame_intros]:
  assumes "\<And>t p c. dst = Some (t, p, c) \<Longrightarrow> t \<in> S \<or> is_temp t"
  shows "frame S (copy_loop E sp rc dst rest hashed n)"
  unfolding frame_def
proof (intro allI impI)
  fix fs p assume p: "p \<notin> S" "\<not> is_temp p"
  have w: "frame S (write_chunk E dst chunk)" for chunk
    using assms by (auto simp: write_chunk_def intro!: frame_intros split: option.splits prod.splits)
  show "content_at (snd (copy_loop E sp rc dst rest hashed n fs)) p = content_at fs p"
    using assms w
  proof (induction E sp rc dst rest hashed n fs rule: copy_loop.induct)
    case (1 E sp rc dst rest hashed n fs)
    show ?case
      using 1 p frameD [OF "1.prems"(2)]
      by (subst copy_loop.simps) (auto split: option.splits prod.splits sum.splits)
  qed
qed

lemma looks_copy_loop [looks_intros]: "looks (copy_loop E sp rc None rest hashed n)"
  unfolding looks_def
proof
  fix fs
  show "snd (copy_loop E sp rc None rest hashed n fs) = fs"
  proof (induction E sp rc "None :: copy_destination option" rest hashed n fs rule: copy_loop.induct)
    case (1 E sp rc rest hashed n fs)
    then show ?case
      by (subst copy_loop.simps) (auto simp: write_chunk_def split: option.splits prod.splits sum.splits)
  qed
qed

lemma looks_hash [looks_intros]:
  "looks (hash_and_optionally_copy E source sp rc None)" "looks (hash_open_file E source sp)" "looks (hash_file E p)"
  unfolding hash_and_optionally_copy_def hash_open_file_def hash_file_def by (intro looks_intros)+

lemma looks_open_nofollow [looks_intros]: "looks (fs_open_nofollow p)"
  by (simp add: looks_def fs_open_nofollow_def split: option.splits fs_node.splits)

lemma looks_regular_file_exists [looks_intros]: "looks (regular_file_exists E p c1 c2)"
  unfolding regular_file_exists_def by (intro looks_intros) (auto intro: looks_intros)

lemma looks_file_metadata [looks_intros]: "looks (worktree_file_metadata_without_following_symlinks E p)"
  unfolding worktree_file_metadata_without_following_symlinks_def by (intro looks_intros)

lemma looks_open_worktree [looks_intros]: "looks (open_worktree_file_without_following_symlinks E p c)"
  unfolding open_worktree_file_without_following_symlinks_def
  by (intro looks_intros) (simp add: looks_def)

lemma looks_verify [looks_intros]:
  "looks (verify_file_object E p object)" "looks (verify_worktree_file_object E p object)"
  "looks (cache_object_path_exists E p)" "looks (ensure_cache_object_file E p object)"
  "looks (ensure_source_object_file E p object)" "looks (verify_object E cache object)"
  unfolding verify_file_object_def verify_worktree_file_object_def cache_object_path_exists_def
    ensure_cache_object_file_def ensure_source_object_file_def verify_object_def Let_def
  by (intro looks_intros)+

lemma looks_sync [looks_intros]:
  "looks (sync_directory E c p)" "looks (sync_verified_cache_object E p)"
  unfolding sync_directory_def sync_verified_cache_object_def by (intro looks_intros)+

lemma hash_copy_Inr:
  "hash_and_optionally_copy E source sp rc dst fs = (Inr (x, k), fs') \<Longrightarrow>
     \<exists>bytes mode. source = FileNode bytes mode \<and> x = LfsOid (ce_sha E bytes) \<and> unat k = length bytes
       \<and> copy_loop E sp rc dst bytes [] 0 fs = (Inr (x, k), fs')"
  by (auto simp: hash_and_optionally_copy_def sr_Inr read_handle_def dest: copy_loop_Inr split: fs_node.splits)

lemma ensure_object_identity_Inr:
  "ensure_object_identity p object actual = Inr u \<longleftrightarrow> actual = (obj_oid object, obj_size object)"
  by (cases actual) (auto simp: ensure_object_identity_def)

lemma hashed_is_object:
  assumes "hash_and_optionally_copy E source sp rc dst fs = (Inr (obj_oid object, obj_size object), fs')"
  shows "\<exists>bytes mode. source = FileNode bytes mode \<and> is_object_bytes E object bytes"
  using hash_copy_Inr [OF assms] by (metis is_object_bytes_def lfs_oid.sel)

lemma fs_metadata_Inr: "fs_metadata p fs = (Inr n, fs') \<longleftrightarrow> fs' = fs \<and> (\<exists>q. fs_follow SYMLINK_LIMIT fs p = Inr (q, n))"
  by (auto simp: fs_metadata_def)

lemma verify_file_object_Inr:
  assumes "verify_file_object E p object fs = (Inr v, fs')"
  shows "fs' = fs \<and> v = \<lparr>vo_object = object, vo_path = p\<rparr> \<and> holds_object E fs p object"
proof -
  have same: "fs' = fs" using looksD [OF looks_verify(1) assms] .
  obtain actual q n fs1 where "fs_follow SYMLINK_LIMIT fs p = Inr (q, n)"
    and h: "hash_and_optionally_copy E n p ''failed to read object for hashing'' None fs = (Inr actual, fs1)"
    and v: "verified_object p object actual = Inr v"
    using assms by (auto simp: verify_file_object_def hash_file_def hash_open_file_def sr_Inr fs_metadata_Inr)
  moreover have "actual = (obj_oid object, obj_size object)" "v = \<lparr>vo_object = object, vo_path = p\<rparr>"
    using v by (auto simp: verified_object_def ensure_object_identity_Inr)
  ultimately show ?thesis using same hashed_is_object [OF h [unfolded \<open>actual = _\<close>]]
    unfolding holds_object_def by blast
qed

lemma open_worktree_Inr:
  assumes "open_worktree_file_without_following_symlinks E p c fs = (Inr n, fs')"
  shows "fs' = fs \<and> map_of fs p = Some n \<and> node_is_file n"
proof -
  have same: "fs' = fs" using looksD [OF looks_open_worktree assms] .
  moreover have "map_of fs p = Some n \<and> node_is_file n"
    using assms
    by (auto simp: open_worktree_file_without_following_symlinks_def sr_Inr try_sr_def fs_open_nofollow_def io_raw_def
        worktree_file_metadata_without_following_symlinks_def fs_symlink_metadata_def
        split: option.splits prod.splits sum.splits fs_node.splits if_splits)
  ultimately show ?thesis by blast
qed

lemma verify_worktree_file_object_Inr:
  assumes "verify_worktree_file_object E p object fs = (Inr v, fs')"
  shows "fs' = fs \<and> (\<exists>bytes mode. map_of fs p = Some (FileNode bytes mode) \<and> is_object_bytes E object bytes)"
proof -
  obtain n fs1 actual fs2 where o: "open_worktree_file_without_following_symlinks E p
       ''failed to open worktree object for hashing'' fs = (Inr n, fs1)"
    and h: "hash_and_optionally_copy E n p ''failed to read object for hashing'' None fs1 = (Inr actual, fs2)"
    and v: "verified_object p object actual = Inr v"
    using assms by (auto simp: verify_worktree_file_object_def hash_open_file_def bind_sr_Inr)
  have "actual = (obj_oid object, obj_size object)"
    using v by (auto simp: verified_object_def ensure_object_identity_Inr)
  then show ?thesis
    using looksD [OF looks_verify(2) assms] open_worktree_Inr [OF o] hashed_is_object [OF h [unfolded \<open>actual = _\<close>]]
    by auto
qed

lemma verify_object_Inr:
  "verify_object E cache object fs = (Inr v, fs') \<Longrightarrow>
     fs' = fs \<and> v = \<lparr>vo_object = object, vo_path = object_path cache object\<rparr> \<and> holds_object E fs (object_path cache object) object"
  unfolding verify_object_def Let_def bind_sr_Inr
  using looksD [OF looks_verify(4)] verify_file_object_Inr by blast

lemma regular_file_exists_Inr:
  assumes "regular_file_exists E p c1 c2 fs = (Inr found, fs')"
  shows "fs' = fs \<and> (if found then \<exists>q b m. fs_follow SYMLINK_LIMIT fs p = Inr (q, FileNode b m)
     else \<exists>e. fs_follow SYMLINK_LIMIT fs p = Inl e \<and> io_error_kind e = NotFound)"
proof -
  have "fs' = fs" using looksD [OF looks_regular_file_exists assms] .
  moreover have "if found then \<exists>q b m. fs_follow SYMLINK_LIMIT fs p = Inr (q, FileNode b m)
     else \<exists>e. fs_follow SYMLINK_LIMIT fs p = Inl e \<and> io_error_kind e = NotFound"
    using assms by (cases "fs_follow SYMLINK_LIMIT fs p")
      (auto simp: regular_file_exists_def try_sr_def io_raw_def fs_metadata_def
        split: option.splits if_splits elim!: node_is_file.elims)
  ultimately show ?thesis by blast
qed

section \<open>What publication changes\<close>

lemma copy_and_verify_Inr:
  assumes "copy_and_verify_object E source sp t dp object rc fs = (Inr u, fs')"
    and "map_of fs t = Some (FileNode [] m)"
  shows "\<exists>bytes mode. source = FileNode bytes mode \<and> is_object_bytes E object bytes
     \<and> map_of fs' = (map_of fs)(t \<mapsto> FileNode bytes m)"
proof -
  obtain actual where h: "hash_and_optionally_copy E source sp rc (Some (t, dp, ''failed to write temporary cache object'')) fs
       = (Inr actual, fs')" and "ensure_object_identity sp object actual = Inr u"
    using assms(1) by (auto simp: copy_and_verify_object_def sr_Inr)
  then have a: "actual = (obj_oid object, obj_size object)" by (simp add: ensure_object_identity_Inr)
  obtain bytes mode where source: "source = FileNode bytes mode" "is_object_bytes E object bytes"
    using hashed_is_object h a by blast
  then have "copy_loop E sp rc (Some (t, dp, ''failed to write temporary cache object'')) bytes [] 0 fs = (Inr actual, fs')"
    using hash_copy_Inr [of E source] h a by auto
  then show ?thesis using copy_loop_Inr [of E] assms(2) source a by fastforce
qed

lemma frame_hash_copy [frame_intros]:
  "(\<And>t p c. dst = Some (t, p, c) \<Longrightarrow> t \<in> S \<or> is_temp t) \<Longrightarrow> frame S (hash_and_optionally_copy E source sp rc dst)"
  unfolding hash_and_optionally_copy_def by (intro frame_intros)

lemma frame_copy_and_verify [frame_intros]:
  "t \<in> S \<or> is_temp t \<Longrightarrow> frame S (copy_and_verify_object E source sp t dp object rc)"
  unfolding copy_and_verify_object_def by (intro frame_intros) auto

text \<open>A temporary file that holds the bytes becomes the object, unless the path is taken.\<close>

lemma publish_cache_object_effect:
  assumes run: "publish_cache_object E t cp parent object d fs = (r, fs')"
    and held: "map_of fs t = Some (FileNode bytes m)" and "is_object_bytes E object bytes" "t \<noteq> cp"
  shows "(map_of fs' = map_of fs \<or> map_of fs cp = None \<and> map_of fs' = (map_of fs)(t := None, cp \<mapsto> FileNode bytes m))
     \<and> (\<forall>status. r = Inr status \<longrightarrow> holds_object E fs' cp object)"
  using run unfolding publish_cache_object_def
proof (cases rule: try_sr_cases)
  case (ok u fs1)
  then have fs1: "map_of fs cp = None" "map_of fs1 = (map_of fs)(t := None, cp \<mapsto> FileNode bytes m)"
    using held by (auto simp: io_raw_Inr fs_rename_noclobber_def fs_rename_def split: if_splits)
  have "looks (bind_sr (if d = Durable
            then bind_sr (io_step E ''failed to sync published cache object'' cp (ret_sr ())) (\<lambda>_.
                sync_directory E ''failed to sync cache object directory'' parent)
            else ret_sr ()) (\<lambda>_. ret_sr CacheCopied))"
    by (auto intro!: looks_intros)
  then have "fs' = fs1" using looksD ok(2) by blast
  moreover have "holds_object E fs1 cp object"
    unfolding holds_object_def using follow_limit_file [of fs1 cp bytes m] fs1(2) assms(3) by auto
  ultimately show ?thesis using fs1 by auto
next
  case (err e fs1)
  then have "fs1 = fs"
    by (auto simp: io_raw_def fs_rename_noclobber_def fs_rename_def split: option.splits if_splits)
  moreover have "looks (if io_error_kind e = AlreadyExists
          then bind_sr (verify_file_object E cp object) (\<lambda>_.
               bind_sr (if d = Durable then sync_verified_cache_object E cp else ret_sr ()) (\<lambda>_.
                 ret_sr AlreadyCached))
          else lift_sr (Inl (CacheIo ''failed to publish cache object'' cp e)))"
    by (auto intro!: looks_intros)
  ultimately have "fs' = fs" using looksD err(2) by blast
  moreover have "holds_object E fs cp object" if "r = Inr status" for status
    using err(2) that \<open>fs1 = fs\<close> verify_file_object_Inr by (auto simp: bind_sr_Inr split: if_splits)
  ultimately show ?thesis by blast
qed

lemma frame_publish_cache_object [frame_intros]:
  assumes "t \<in> S \<or> is_temp t" "cp \<in> S" shows "frame S (publish_cache_object E t cp parent object d)"
  unfolding publish_cache_object_def using assms
  by (intro frame_intros) (auto intro!: frame_intros looks_frame looks_intros)

lemma frame_copy_verified_file_to_cache [frame_intros]:
  assumes "cp \<in> S" shows "frame S (copy_verified_file_to_cache E source sp cp object rc d)"
  unfolding copy_verified_file_to_cache_def using assms
  by (intro frame_intros) (auto dest: temp_is_temp)

definition cache_unchanged_or_added :: "cache_env \<Rightarrow> path \<Rightarrow> lfs_object \<Rightarrow> fs \<Rightarrow> fs \<Rightarrow> bool" where
  "cache_unchanged_or_added E cp object fs fs' \<longleftrightarrow> content_at fs' cp = content_at fs cp
     \<or> content_at fs cp = None \<and> (\<exists>bytes. content_at fs' cp = Some (FileNode bytes 384) \<and> is_object_bytes E object bytes)"

lemma map_of_content: "map_of fs' p = map_of fs p \<Longrightarrow> content_at fs' p = content_at fs p"
  by (simp add: content_at_def)

text \<open>An object file, not a link to one.\<close>

definition stores_object :: "cache_env \<Rightarrow> fs \<Rightarrow> path \<Rightarrow> lfs_object \<Rightarrow> bool" where
  "stores_object E fs p object \<longleftrightarrow>
     (\<exists>bytes mode. content_at fs p = Some (FileNode bytes mode) \<and> is_object_bytes E object bytes)"

definition no_link_at :: "fs \<Rightarrow> path \<Rightarrow> bool" where
  "no_link_at fs p \<longleftrightarrow> (\<forall>q. content_at fs p \<noteq> Some (SymlinkNode q))"

lemma content_at_file: "content_at fs p = Some n \<longleftrightarrow> map_of fs p = Some n \<and> n \<noteq> DirNode"
  by (auto simp: content_at_def split: option.splits fs_node.splits)

lemma holds_stores: "no_link_at fs p \<Longrightarrow> holds_object E fs p object \<Longrightarrow> stores_object E fs p object"
  unfolding holds_object_def stores_object_def no_link_at_def SYMLINK_LIMIT_def content_at_file
  by (auto simp: eval_nat_numeral split: option.splits fs_node.splits)

lemma stores_holds: "stores_object E fs p object \<Longrightarrow> holds_object E fs p object"
  unfolding holds_object_def stores_object_def content_at_file using follow_limit_file by blast

lemma stores_object_content: "content_at fs' p = content_at fs p \<Longrightarrow> stores_object E fs' p object = stores_object E fs p object"
  by (simp add: stores_object_def)

lemma io_step_ret: "io_step E c p (ret_sr x) fs = (r, fs') \<Longrightarrow> fs' = fs"
  using looksD looks_io_step looks_basic(1) by metis

lemma staged_copy_effect:
  assumes run: "bind_sr (copy_and_verify_object E source sp t cp object rc) (\<lambda>_.
          bind_sr (io_step E c cp (ret_sr ())) (\<lambda>_. publish_cache_object E t cp parent object d)) fs = (r, fs')"
    and t: "map_of fs t = Some (FileNode [] 384)" "is_temp t" and cp: "\<not> is_temp cp" "no_link_at fs cp"
  shows "cache_unchanged_or_added E cp object fs fs' \<and> (\<forall>status. r = Inr status \<longrightarrow> stores_object E fs' cp object)"
  using run
proof (cases rule: bind_sr_cases)
  case (first e)
  then have "content_at fs' cp = content_at fs cp"
    using frameD [OF frame_copy_and_verify [where S = "{}"]] t cp by blast
  then show ?thesis using first by (simp add: cache_unchanged_or_added_def)
next
  case (second u fs1)
  then obtain bytes mode where bytes: "is_object_bytes E object bytes" "map_of fs1 = (map_of fs)(t \<mapsto> FileNode bytes 384)"
    using copy_and_verify_Inr t(1) by blast
  have ne: "t \<noteq> cp" using t cp by auto
  have fs1: "content_at fs1 cp = content_at fs cp" using bytes(2) ne by (simp add: content_at_def)
  from second(2) show ?thesis
  proof (cases rule: bind_sr_cases)
    case (first e)
    then have "fs' = fs1" by (auto dest: io_step_ret)
    then show ?thesis using first fs1 by (simp add: cache_unchanged_or_added_def)
  next
    case (second u fs2)
    then have fs2: "fs2 = fs1" by (auto dest: io_step_ret)
    have held: "map_of fs2 t = Some (FileNode bytes 384)" using bytes fs2 by simp
    note effect = publish_cache_object_effect [OF second(2) held bytes(1) ne]
    then consider "map_of fs' = map_of fs2" | "map_of fs2 cp = None" "map_of fs' = (map_of fs2)(t := None, cp \<mapsto> FileNode bytes 384)"
      by (elim conjE disjE)
    then have "cache_unchanged_or_added E cp object fs fs' \<and> no_link_at fs' cp"
    proof cases
      case 1
      then show ?thesis using fs1 fs2 cp(2) by (simp add: cache_unchanged_or_added_def no_link_at_def content_at_def)
    next
      case 2
      then show ?thesis using fs1 fs2 bytes(1)
        by (auto simp: cache_unchanged_or_added_def no_link_at_def content_at_def)
    qed
    then show ?thesis using effect holds_stores by blast
  qed
qed

lemma copy_verified_file_to_cache_effect:
  assumes run: "copy_verified_file_to_cache E source sp cp object rc d fs = (r, fs')"
    and cp: "\<not> is_temp cp" "no_link_at fs cp"
  shows "cache_unchanged_or_added E cp object fs fs' \<and> (\<forall>status. r = Inr status \<longrightarrow> stores_object E fs' cp object)"
  using run unfolding copy_verified_file_to_cache_def
proof (cases rule: bind_sr_cases)
  case (first e)
  then show ?thesis by (simp add: cache_unchanged_or_added_def)
next
  case (second parent fs0)
  then have "fs0 = fs" by simp
  from second(2)[unfolded this] show ?thesis
  proof (cases rule: bind_sr_cases)
    case (first e)
    then have "content_at fs' cp = content_at fs cp"
      using frameD [OF frame_io_step [OF frame_create_dir_all], where S = "{}"] cp by blast
    then show ?thesis using first by (simp add: cache_unchanged_or_added_def)
  next
    case (second u fs1)
    then have fs1: "content_at fs1 cp = content_at fs cp"
      using frameD [OF frame_io_step [OF frame_create_dir_all], where S = "{}"] cp by blast
    from second(2) show ?thesis
    proof (cases rule: bind_sr_cases)
      case (first e)
      then have "content_at fs' cp = content_at fs1 cp"
        using frameD [OF frame_io_step [OF frame_create_temp], where S = "{}"] cp by blast
      then show ?thesis using first fs1 by (simp add: cache_unchanged_or_added_def)
    next
      case (second t fs2)
      then have t: "is_temp t" "map_of fs2 t = Some (FileNode [] 384)" and fs2: "content_at fs2 cp = content_at fs cp"
        using frameD [OF frame_io_step [OF frame_create_temp], where S = "{}"] cp fs1 temp_is_temp
        by (auto simp: io_step_Inr fs_create_temp_Inr)
      obtain fs3 where body: "bind_sr (copy_and_verify_object E source sp t cp object rc) (\<lambda>_.
          bind_sr (io_step E (if d = Durable then ''failed to sync temporary cache object''
              else ''failed to flush temporary cache object'') cp (ret_sr ())) (\<lambda>_.
            publish_cache_object E t cp parent object d)) fs2 = (r, fs3)" and "fs' = fs_delete t fs3"
        using second(2) unfolding finally_sr_Inr by blast
      have link: "no_link_at fs2 cp" using cp(2) fs2 by (simp add: no_link_at_def)
      have "t \<noteq> cp" using t cp by auto
      then have "content_at fs' cp = content_at fs3 cp" using \<open>fs' = _\<close> by simp
      then show ?thesis
        using staged_copy_effect [OF body t(2,1) cp(1) link] fs2
        by (simp add: cache_unchanged_or_added_def stores_object_def)
    qed
  qed
qed

section \<open>The objects are what their names say\<close>

definition lock_area :: "local_cache_layout \<Rightarrow> path set" where
  "lock_area cache = {cache_operation_lock_path cache, worktree_registry_lock_path cache}
     \<union> {cl_root cache @ [WORKTREE_PATH_LOCKS_DIR, f] |f. True}"

lemma frame_open_operation_lock: "frame (lock_area cache) (open_cache_operation_lock E cache)"
  unfolding open_cache_operation_lock_def Let_def
  by (intro frame_intros) (auto simp: lock_area_def)

lemma frame_operation_locks [frame_intros]:
  "frame (lock_area cache) (lock_cache_operation_shared E cache)"
  "frame (lock_area cache) (lock_cache_operation_exclusive E cache)"
  unfolding lock_cache_operation_shared_def lock_cache_operation_exclusive_def
  by (intro frame_intros frame_open_operation_lock)+

lemma frame_registry_lock [frame_intros]: "frame (lock_area cache) (lock_worktree_registry E cache)"
  unfolding lock_worktree_registry_def Let_def
  by (intro frame_intros) (auto simp: lock_area_def)

lemma frame_worktree_lock [frame_intros]: "frame (lock_area cache) (lock_worktree_path E cache w)"
proof -
  have "frame (lock_area cache) (bind_sr (io_step E ''failed to create local cache worktree lock directory'' (butlast p) (fs_create_dir_all (butlast p))) (\<lambda>_.
       bind_sr (io_step E ''failed to open local cache worktree path lock'' p (fs_open_create LOCK_FILE_MODE p)) (\<lambda>_.
         io_step E ''failed to lock local cache worktree path'' p (ret_sr ()))))"
    if "p \<in> lock_area cache" for p
    using that by (intro frame_intros)
  moreover have "worktree_path_lock_path E cache fs w \<in> lock_area cache" for fs
    by (auto simp: worktree_path_lock_path_def lock_area_def)
  ultimately show ?thesis
    unfolding frame_def lock_worktree_path_def Let_def by blast
qed

definition object_area :: "local_cache_layout \<Rightarrow> path set" where
  "object_area cache = {object_path_for_oid cache x |x. oid_ok x}"

lemma object_path_not_temp: "oid_ok x \<Longrightarrow> \<not> is_temp (object_path_for_oid cache x)"
proof -
  assume ok: "oid_ok x"
  have "take 4 (as_hex x) \<noteq> TEMP_PREFIX"
  proof
    assume "take 4 (as_hex x) = TEMP_PREFIX"
    then have "CHR ''.'' \<in> set (take 4 (as_hex x))" by (simp add: TEMP_PREFIX_def)
    then have "CHR ''.'' \<in> set (as_hex x)" by (meson in_set_takeD)
    then show False using oid_hex_avoids [OF ok] by (auto simp: is_lower_hex_def is_digit_def byte_def)
  qed
  then show ?thesis by (simp add: is_temp_def object_path_for_oid_def object_shards_def)
qed

lemma object_path_inj: "object_path_for_oid cache x = object_path_for_oid cache y \<Longrightarrow> x = y"
  by (simp add: object_path_for_oid_def object_shards_def lfs_oid.expand)

lemma locks_apart: "lock_area cache \<inter> object_area cache = {}"
  by (auto simp: lock_area_def object_area_def object_path_for_oid_def object_shards_def objects_dir_def
      cache_operation_lock_path_def worktree_registry_lock_path_def)

text \<open>An object path holds nothing or a regular file with the bytes it names.\<close>

definition cache_sound :: "cache_env \<Rightarrow> local_cache_layout \<Rightarrow> fs \<Rightarrow> bool" where
  "cache_sound E cache fs \<longleftrightarrow> (\<forall>x. oid_ok x \<longrightarrow> (case content_at fs (object_path_for_oid cache x) of
       None \<Rightarrow> True
     | Some (FileNode bytes _) \<Rightarrow> ce_sha E bytes = as_hex x
     | Some _ \<Rightarrow> False))"

lemma cache_sound_no_link: "cache_sound E cache fs \<Longrightarrow> oid_ok x \<Longrightarrow> no_link_at fs (object_path_for_oid cache x)"
  by (fastforce simp: cache_sound_def no_link_at_def)

lemma keeps_frame: "frame S m \<Longrightarrow> S \<inter> object_area cache = {} \<Longrightarrow> keeps (cache_sound E cache) m"
proof -
  assume f: "frame S m" "S \<inter> object_area cache = {}"
  have "content_at (snd (m fs)) (object_path_for_oid cache x) = content_at fs (object_path_for_oid cache x)" if "oid_ok x" for x fs
    using f that object_path_not_temp unfolding frame_def object_area_def by blast
  then show ?thesis by (auto simp: keeps_def cache_sound_def)
qed

lemma keeps_if: "(c \<Longrightarrow> keeps P m) \<Longrightarrow> (\<not> c \<Longrightarrow> keeps P m') \<Longrightarrow> keeps P (if c then m else m')"
  by simp

lemma keeps_looks: "looks m \<Longrightarrow> keeps P m"
  by (simp add: looks_def keeps_def)

lemma keeps_try: "keeps P m \<Longrightarrow> (\<And>x. keeps P (f x)) \<Longrightarrow> (\<And>e. keeps P (g e)) \<Longrightarrow> keeps P (try_sr m f g)"
  unfolding keeps_def try_sr_def by (auto split: prod.splits sum.splits)

lemma cache_sound_added:
  assumes sound: "cache_sound E cache fs" and ok: "oid_ok (obj_oid object)"
    and frame: "frame {object_path cache object} m" and run: "m fs = (r, fs')"
    and added: "cache_unchanged_or_added E (object_path cache object) object fs fs'"
  shows "cache_sound E cache fs'"
  unfolding cache_sound_def
proof (intro allI impI)
  fix x assume x: "oid_ok x"
  show "case content_at fs' (object_path_for_oid cache x) of None \<Rightarrow> True
     | Some (FileNode bytes _) \<Rightarrow> ce_sha E bytes = as_hex x | Some _ \<Rightarrow> False"
  proof (cases "x = obj_oid object")
    case True
    have at: "object_path cache object = object_path_for_oid cache x" using True by (simp add: object_path_def)
    from added consider "content_at fs' (object_path_for_oid cache x) = content_at fs (object_path_for_oid cache x)"
      | bytes where "content_at fs' (object_path_for_oid cache x) = Some (FileNode bytes 384)" "ce_sha E bytes = as_hex x"
      using True unfolding cache_unchanged_or_added_def is_object_bytes_def at by blast
    then show ?thesis
    proof cases
      case 1
      show ?thesis unfolding 1 using sound x by (simp add: cache_sound_def)
    next
      case 2
      then show ?thesis by simp
    qed
  next
    case False
    then have "object_path_for_oid cache x \<notin> {object_path cache object}"
      using object_path_inj unfolding object_path_def by blast
    note same = frameD [OF frame run this object_path_not_temp [OF x]]
    show ?thesis unfolding same using sound x by (simp add: cache_sound_def)
  qed
qed

lemma keeps_copy_verified_file_to_cache:
  assumes "oid_ok (obj_oid object)"
  shows "keeps (cache_sound E cache) (copy_verified_file_to_cache E source sp (object_path cache object) object rc d)"
  unfolding keeps_def
proof (intro allI impI)
  fix fs assume sound: "cache_sound E cache fs"
  obtain r fs' where run: "copy_verified_file_to_cache E source sp (object_path cache object) object rc d fs = (r, fs')"
    by fastforce
  then have "cache_unchanged_or_added E (object_path cache object) object fs fs'"
    using copy_verified_file_to_cache_effect [OF run] object_path_not_temp cache_sound_no_link [OF sound] assms
    by (simp add: object_path_def)
  then show "cache_sound E cache (snd (copy_verified_file_to_cache E source sp (object_path cache object) object rc d fs))"
    using cache_sound_added [OF sound assms frame_copy_verified_file_to_cache run] run by simp
qed

lemma keeps_operation_lock [intro]:
  "keeps (cache_sound E cache) (lock_cache_operation_shared E cache)"
  "keeps (cache_sound E cache) (lock_cache_operation_exclusive E cache)"
  "keeps (cache_sound E cache) (lock_worktree_registry E cache)"
  "keeps (cache_sound E cache) (lock_worktree_path E cache w)"
  by (rule keeps_frame [OF frame_operation_locks(1) locks_apart] keeps_frame [OF frame_operation_locks(2) locks_apart]
      keeps_frame [OF frame_registry_lock locks_apart] keeps_frame [OF frame_worktree_lock locks_apart])+

lemma ingest_keeps_sound:
  assumes "oid_ok (obj_oid object)"
  shows "keeps (cache_sound E cache) (ingest_git_lfs_object E cache objects object)"
  unfolding ingest_git_lfs_object_def Let_def copy_verified_object_to_cache_def
  by (intro keeps_bind keeps_if keeps_operation_lock keeps_ret keeps_copy_verified_file_to_cache [OF assms];
      intro keeps_looks looks_intros)

text \<open>A successful ingest leaves a verified object behind, whichever way it found it.\<close>

lemma copy_verified_object_to_cache_Inr:
  assumes "copy_verified_object_to_cache E sp (object_path cache object) object fs = (Inr status, fs')"
    and "cache_sound E cache fs" "oid_ok (obj_oid object)"
  shows "stores_object E fs' (object_path cache object) object"
  using assms copy_verified_file_to_cache_effect object_path_not_temp cache_sound_no_link
  by (fastforce simp: copy_verified_object_to_cache_def bind_sr_Inr io_step_Inr fs_metadata_Inr object_path_def)

lemma ingest_stores:
  assumes "ingest_git_lfs_object E cache objects object fs = (Inr ingested, fs')"
    and sound: "cache_sound E cache fs" and ok: "oid_ok (obj_oid object)"
  shows "stores_object E fs' (object_path cache object) object \<and> ig_object ingested = object
     \<and> ig_cache_path ingested = object_path cache object"
proof -
  obtain u fs1 found fs2 where l: "lock_cache_operation_shared E cache fs = (Inr u, fs1)"
    and e: "cache_object_path_exists E (object_path cache object) fs1 = (Inr found, fs2)"
    and rest: "(if found then bind_sr (verify_object E cache object) (\<lambda>_. ret_sr \<lparr>ig_object = object,
              ig_source_path = git_lfs_object_path objects (obj_oid object), ig_cache_path = object_path cache object,
              ig_status = AlreadyCached\<rparr>)
          else bind_sr (ensure_source_object_file E (git_lfs_object_path objects (obj_oid object)) object) (\<lambda>_.
               bind_sr (copy_verified_object_to_cache E (git_lfs_object_path objects (obj_oid object)) (object_path cache object) object)
               (\<lambda>status. ret_sr \<lparr>ig_object = object,
              ig_source_path = git_lfs_object_path objects (obj_oid object), ig_cache_path = object_path cache object,
              ig_status = status\<rparr>))) fs2 = (Inr ingested, fs')"
    using assms(1) unfolding ingest_git_lfs_object_def Let_def bind_sr_Inr by blast
  have sound1: "cache_sound E cache fs2"
    using keeps_operation_lock(1) sound l looksD [OF looks_verify(3) e] unfolding keeps_def by (metis snd_conv)
  show ?thesis
  proof (cases found)
    case True
    then obtain v where v: "verify_object E cache object fs2 = (Inr v, fs')" and "ingested = \<lparr>ig_object = object,
              ig_source_path = git_lfs_object_path objects (obj_oid object), ig_cache_path = object_path cache object,
              ig_status = AlreadyCached\<rparr>"
      using rest by (auto simp: bind_sr_Inr)
    then show ?thesis
      using verify_object_Inr [OF v] holds_stores [of fs2 "object_path cache object"] cache_sound_no_link [OF sound1 ok]
      by (simp add: object_path_def)
  next
    case False
    then obtain fs3 status where "copy_verified_object_to_cache E (git_lfs_object_path objects (obj_oid object))
        (object_path cache object) object fs3 = (Inr status, fs')" "fs3 = fs2" "ig_object ingested = object"
        "ig_cache_path ingested = object_path cache object"
      using rest looksD [OF looks_verify(5)] by (fastforce simp: bind_sr_Inr)
    then show ?thesis using copy_verified_object_to_cache_Inr sound1 ok by blast
  qed
qed

end
