(* ===== verification/Git_Output.thy ===== *)
theory Git_Output
  imports Rust_Str
begin

text \<open>
  Paths in Git's NUL-delimited output (\<open>git_output.rs\<close>): the attribute triples of
  \<open>git check-attr -z\<close> and the boundary that keeps a path inside its worktree.
\<close>

section \<open>Path components\<close>

datatype path_component = RootDir | CurDir | ParentDir | NormalComponent string

text \<open>
  \<open>Path::components\<close> on Unix: empty segments disappear, and so does \<open>.\<close> except at the start of a
  relative path.
\<close>

fun segment_components :: "bool \<Rightarrow> string list \<Rightarrow> path_component list" where
  "segment_components first [] = []"
| "segment_components first (s # segments) =
     (if s = [] then [] else if s = ''.'' then (if first then [CurDir] else [])
      else if s = ''..'' then [ParentDir] else [NormalComponent s])
     @ segment_components False segments"

definition path_components :: "string \<Rightarrow> path_component list" where
  "path_components bytes =
     (if starts_with ''/'' bytes then RootDir # segment_components False (split_on CHR ''/'' bytes)
      else segment_components True (split_on CHR ''/'' bytes))"

fun component_text :: "path_component \<Rightarrow> string" where
  "component_text RootDir = ''/''"
| "component_text CurDir = ''.''"
| "component_text ParentDir = ''..''"
| "component_text (NormalComponent s) = s"

definition path_of_bytes :: "string \<Rightarrow> string list" where
  "path_of_bytes bytes = map component_text (path_components bytes)"

fun is_normal_component :: "path_component \<Rightarrow> bool" where
  "is_normal_component (NormalComponent _) = True"
| "is_normal_component _ = False"

section \<open>Attribute output\<close>

datatype git_path_output_error = MalformedAttributeOutput | PathOutsideWorktree

definition safe_git_relative_path :: "string \<Rightarrow> git_path_output_error + string list" where
  "safe_git_relative_path relative_path =
     (if \<not> starts_with ''/'' relative_path \<and> path_components relative_path \<noteq> []
         \<and> list_all is_normal_component (path_components relative_path)
      then Inr (path_of_bytes relative_path) else Inl PathOutsideWorktree)"

fun parse_attribute_fields :: "string list \<Rightarrow> git_path_output_error + string list list" where
  "parse_attribute_fields [] = Inr []"
| "parse_attribute_fields (relative_path # fields) =
     (if relative_path = [] then (if fields = [] then Inr [] else Inl MalformedAttributeOutput)
      else (case fields of
         attribute # value # rest \<Rightarrow>
           if attribute = ''filter'' \<and> value = ''lfs''
           then bind_res (safe_git_relative_path relative_path) (\<lambda>p. map_res ((#) p) (parse_attribute_fields rest))
           else parse_attribute_fields rest
       | _ \<Rightarrow> Inl MalformedAttributeOutput))"

definition parse_lfs_filter_attribute_paths :: "string \<Rightarrow> git_path_output_error + string list list" where
  "parse_lfs_filter_attribute_paths stdout = parse_attribute_fields (split_on (CHR 0x00) stdout)"

end
