(* ===== verification/Cache_Registry.thy ===== *)
theory Cache_Registry
  imports Cache_Objects Git_Output Request_Auth
begin

text \<open>
  The worktree registry of the cache (\<open>local_cache/registry.rs\<close>, \<open>locking.rs\<close>): validated
  registrations, at most one per canonical root, kept in the order of their roots, in a JSON file
  that is replaced as a whole. Paths are written as Base64 of their bytes; files of the first version
  wrote them as text. JSON itself is the parameter \<open>registry_codec\<close> over the serialized form.
\<close>

section \<open>Registrations\<close>

record worktree_registration =
  wr_repository_id :: string
  wr_worktree_root :: path
  wr_git_dir :: path

definition validate_absolute_path :: "string \<Rightarrow> path \<Rightarrow> unit cache_result" where
  "validate_absolute_path field p =
     (if \<not> fs_path_is_absolute p
      then Inl (InvalidWorktreeRegistration field (''path must be absolute: '' @ path_display p))
      else Inr ())"

definition validate_registration :: "worktree_registration \<Rightarrow> unit cache_result" where
  "validate_registration registration =
     (let trimmed_repository_id = trim (wr_repository_id registration) in
      if trimmed_repository_id = [] then Inl (InvalidWorktreeRegistration ''repository_id'' ''must not be blank'')
      else if trimmed_repository_id \<noteq> wr_repository_id registration
      then Inl (InvalidWorktreeRegistration ''repository_id'' ''must not be padded'')
      else bind_res (validate_absolute_path ''worktree_root'' (wr_worktree_root registration)) (\<lambda>_.
           validate_absolute_path ''git_dir'' (wr_git_dir registration)))"

definition worktree_registration_new :: "string \<Rightarrow> path \<Rightarrow> path \<Rightarrow> worktree_registration cache_result" where
  "worktree_registration_new repository_id worktree_root git_dir =
     (let registration = \<lparr>wr_repository_id = repository_id, wr_worktree_root = worktree_root, wr_git_dir = git_dir\<rparr>
      in map_res (\<lambda>_. registration) (validate_registration registration))"

section \<open>The registry\<close>

definition LEGACY_WORKTREE_REGISTRY_VERSION :: u32 where
  "LEGACY_WORKTREE_REGISTRY_VERSION = 1"

definition WORKTREE_REGISTRY_VERSION :: u32 where
  "WORKTREE_REGISTRY_VERSION = 2"

record worktree_registry =
  rg_version :: u32
  rg_worktrees :: "worktree_registration list"

definition worktree_registry_new :: worktree_registry where
  "worktree_registry_new = \<lparr>rg_version = WORKTREE_REGISTRY_VERSION, rg_worktrees = []\<rparr>"

definition root_key :: "cache_env \<Rightarrow> fs \<Rightarrow> worktree_registration \<Rightarrow> path" where
  "root_key E fs registration = normalized_path_key E fs (wr_worktree_root registration)"

fun validate_worktrees :: "cache_env \<Rightarrow> fs \<Rightarrow> path set \<Rightarrow> worktree_registration list \<Rightarrow> unit cache_result" where
  "validate_worktrees E fs worktree_roots [] = Inr ()"
| "validate_worktrees E fs worktree_roots (registration # registrations) =
     bind_res (validate_registration registration) (\<lambda>_.
       if root_key E fs registration \<in> worktree_roots
       then Inl (InvalidWorktreeRegistration ''worktree_root''
              (''duplicate worktree root in registry: '' @ path_display (wr_worktree_root registration)))
       else validate_worktrees E fs (insert (root_key E fs registration) worktree_roots) registrations)"

definition validate_for_path :: "cache_env \<Rightarrow> fs \<Rightarrow> path \<Rightarrow> worktree_registry \<Rightarrow> unit cache_result" where
  "validate_for_path E fs p registry =
     (if \<not> (LEGACY_WORKTREE_REGISTRY_VERSION \<le> rg_version registry \<and> rg_version registry \<le> WORKTREE_REGISTRY_VERSION)
      then Inl (UnsupportedWorktreeRegistryVersion p (rg_version registry) WORKTREE_REGISTRY_VERSION)
      else validate_worktrees E fs {} (rg_worktrees registry))"

datatype registration_status = RegistrationAdded | RegistrationUpdated | RegistrationUnchanged

definition sort_worktrees :: "cache_env \<Rightarrow> fs \<Rightarrow> worktree_registry \<Rightarrow> worktree_registry" where
  "sort_worktrees E fs registry = registry\<lparr>rg_worktrees := sort_key (root_key E fs) (rg_worktrees registry)\<rparr>"

definition upsert :: "cache_env \<Rightarrow> fs \<Rightarrow> worktree_registration \<Rightarrow> worktree_registry \<Rightarrow> registration_status \<times> worktree_registry" where
  "upsert E fs registration registry =
     (case position (\<lambda>existing. root_key E fs existing = root_key E fs registration) (rg_worktrees registry) of
        Some index \<Rightarrow>
          if rg_worktrees registry ! index = registration then (RegistrationUnchanged, registry)
          else (RegistrationUpdated, sort_worktrees E fs
                 (registry\<lparr>rg_worktrees := (rg_worktrees registry)[index := registration]\<rparr>))
      | None \<Rightarrow> (RegistrationAdded, sort_worktrees E fs
                 (registry\<lparr>rg_worktrees := rg_worktrees registry @ [registration]\<rparr>)))"

definition remove_worktree :: "cache_env \<Rightarrow> fs \<Rightarrow> path \<Rightarrow> worktree_registry \<Rightarrow> worktree_registration option \<times> worktree_registry" where
  "remove_worktree E fs worktree_root registry =
     (case position (\<lambda>registration. root_key E fs registration = normalized_path_key E fs worktree_root)
             (rg_worktrees registry) of
        None \<Rightarrow> (None, registry)
      | Some index \<Rightarrow> (Some (rg_worktrees registry ! index),
          registry\<lparr>rg_worktrees := take index (rg_worktrees registry) @ drop (Suc index) (rg_worktrees registry)\<rparr>))"

section \<open>The registry file\<close>

datatype serialized_path = LegacyPath string | EncodedPath string string

record serialized_registration =
  sz_repository_id :: string
  sz_worktree_root :: serialized_path
  sz_git_dir :: serialized_path

text \<open>\<open>serde_json\<close> and the Base64 alphabet without padding.\<close>

record registry_codec =
  rc_base64 :: base64_lib
  rc_print :: "u32 \<times> serialized_registration list \<Rightarrow> string + string"
  rc_parse :: "string \<Rightarrow> string + (u32 \<times> serialized_registration list)"

definition serialize_worktree_registry_path :: "registry_codec \<Rightarrow> path \<Rightarrow> serialized_path" where
  "serialize_worktree_registry_path C p = EncodedPath ''unix_bytes_base64'' (b64_encode (rc_base64 C) (path_display p))"

definition decode_worktree_registry_path :: "registry_codec \<Rightarrow> string \<Rightarrow> string \<Rightarrow> string + path" where
  "decode_worktree_registry_path C encoding value =
     (if encoding = ''unix_bytes_base64''
      then map_res path_of_bytes (ok_or ''invalid base64 in Unix worktree registry path'' (b64_decode (rc_base64 C) value))
      else if encoding = ''utf8'' then Inr (path_of_bytes value)
      else Inl (''unsupported worktree registry path encoding '' @ [CHR 0x22] @ encoding @ [CHR 0x22] @ '' on this platform''))"

definition deserialize_worktree_registry_path :: "registry_codec \<Rightarrow> serialized_path \<Rightarrow> string + path" where
  "deserialize_worktree_registry_path C serialized = (case serialized of
       LegacyPath p \<Rightarrow> Inr (path_of_bytes p)
     | EncodedPath encoding value \<Rightarrow> decode_worktree_registry_path C encoding value)"

definition serialize_registration :: "registry_codec \<Rightarrow> worktree_registration \<Rightarrow> serialized_registration" where
  "serialize_registration C registration =
     \<lparr>sz_repository_id = wr_repository_id registration,
      sz_worktree_root = serialize_worktree_registry_path C (wr_worktree_root registration),
      sz_git_dir = serialize_worktree_registry_path C (wr_git_dir registration)\<rparr>"

definition deserialize_registration :: "registry_codec \<Rightarrow> serialized_registration \<Rightarrow> string + worktree_registration" where
  "deserialize_registration C serialized =
     bind_res (deserialize_worktree_registry_path C (sz_worktree_root serialized)) (\<lambda>worktree_root.
     bind_res (deserialize_worktree_registry_path C (sz_git_dir serialized)) (\<lambda>git_dir.
       Inr \<lparr>wr_repository_id = sz_repository_id serialized, wr_worktree_root = worktree_root, wr_git_dir = git_dir\<rparr>))"

definition registry_to_json :: "registry_codec \<Rightarrow> worktree_registry \<Rightarrow> string + string" where
  "registry_to_json C registry =
     rc_print C (rg_version registry, map (serialize_registration C) (rg_worktrees registry))"

definition registry_from_json :: "registry_codec \<Rightarrow> string \<Rightarrow> string + worktree_registry" where
  "registry_from_json C text =
     bind_res (rc_parse C text) (\<lambda>(version, serialized).
     map_res (\<lambda>registrations. \<lparr>rg_version = version, rg_worktrees = registrations\<rparr>)
       (traverse_res (deserialize_registration C) serialized))"

definition load_worktree_registry ::
  "cache_env \<Rightarrow> registry_codec \<Rightarrow> local_cache_layout \<Rightarrow> worktree_registry cache_call" where
  "load_worktree_registry E C cache =
     (let p = worktree_registry_path cache in
       try_sr (io_raw E ''failed to open local cache worktree registry'' p (fs_metadata p))
         (\<lambda>file fs.
           (bind_res (case ce_fault E fs ''failed to decode local cache worktree registry'' p of
               Some message \<Rightarrow> Inl (WorktreeRegistryJson ''failed to decode local cache worktree registry'' p message)
             | None \<Rightarrow> (case read_handle file of
                 Inl _ \<Rightarrow> Inl (WorktreeRegistryJson ''failed to decode local cache worktree registry'' p ''io error'')
               | Inr text \<Rightarrow> map_err (WorktreeRegistryJson ''failed to decode local cache worktree registry'' p)
                   (registry_from_json C text))) (\<lambda>registry.
             map_res (\<lambda>_. registry\<lparr>rg_version := WORKTREE_REGISTRY_VERSION\<rparr>) (validate_for_path E fs p registry)), fs))
         (\<lambda>err. if io_error_kind err = NotFound then ret_sr worktree_registry_new
            else lift_sr (Inl (CacheIo ''failed to open local cache worktree registry'' p err))))"

definition write_registry_file ::
  "cache_env \<Rightarrow> registry_codec \<Rightarrow> path \<Rightarrow> path \<Rightarrow> worktree_registry \<Rightarrow> unit cache_call" where
  "write_registry_file E C p temp registry =
     bind_sr (lift_sr (map_err (WorktreeRegistryJson ''failed to encode local cache worktree registry'' p)
         (registry_to_json C registry))) (\<lambda>text.
     bind_sr (map_err_sr (\<lambda>_. WorktreeRegistryJson ''failed to encode local cache worktree registry'' p ''io error'')
         (io_raw E ''failed to encode local cache worktree registry'' p (fs_append temp text))) (\<lambda>_.
     bind_sr (io_step E ''failed to write local cache worktree registry'' p (fs_append temp [LF])) (\<lambda>_.
     bind_sr (io_step E ''failed to flush local cache worktree registry'' p (ret_sr ())) (\<lambda>_.
     bind_sr (io_step E ''failed to sync local cache worktree registry'' p (ret_sr ())) (\<lambda>_.
       io_step E ''failed to publish local cache worktree registry'' p (fs_rename temp p))))))"

definition save_worktree_registry ::
  "cache_env \<Rightarrow> registry_codec \<Rightarrow> local_cache_layout \<Rightarrow> worktree_registry \<Rightarrow> unit cache_call" where
  "save_worktree_registry E C cache registry =
     (let p = worktree_registry_path cache in
     bind_sr (lift_sr (ok_or (CacheIo ''failed to resolve local cache worktree registry parent'' p
         (IoError InvalidInput ''worktree registry path has no parent directory'')) (path_parent p))) (\<lambda>parent.
     bind_sr (io_step E ''failed to create local cache worktree registry directory'' parent (fs_create_dir_all parent)) (\<lambda>_.
     bind_sr (io_step E ''failed to create temporary local cache worktree registry'' parent (fs_create_temp E parent)) (\<lambda>temp.
     bind_sr (finally_sr (write_registry_file E C p temp registry) (fs_delete temp)) (\<lambda>_.
       sync_directory E ''failed to sync local cache worktree registry directory'' parent)))))"

record registration_change =
  rh_registration :: worktree_registration
  rh_status :: registration_status

definition register_worktree ::
  "cache_env \<Rightarrow> registry_codec \<Rightarrow> local_cache_layout \<Rightarrow> worktree_registration \<Rightarrow> registration_change cache_call" where
  "register_worktree E C cache registration =
     bind_sr (lift_sr (validate_registration registration)) (\<lambda>_.
     bind_sr (lock_worktree_registry E cache) (\<lambda>_.
     bind_sr (load_worktree_registry E C cache) (\<lambda>registry fs.
       (case upsert E fs registration registry of (status, registry') \<Rightarrow>
         bind_sr (if status \<noteq> RegistrationUnchanged then save_worktree_registry E C cache registry' else ret_sr ())
           (\<lambda>_. ret_sr \<lparr>rh_registration = registration, rh_status = status\<rparr>)) fs)))"

definition remove_worktree_registration ::
  "cache_env \<Rightarrow> registry_codec \<Rightarrow> local_cache_layout \<Rightarrow> path \<Rightarrow> worktree_registration option cache_call" where
  "remove_worktree_registration E C cache worktree_root =
     bind_sr (lift_sr (validate_absolute_path ''worktree_root'' worktree_root)) (\<lambda>_.
     bind_sr (lock_worktree_registry E cache) (\<lambda>_.
     bind_sr (load_worktree_registry E C cache) (\<lambda>registry fs.
       (case remove_worktree E fs worktree_root registry of (removed, registry') \<Rightarrow>
         bind_sr (if removed \<noteq> None then save_worktree_registry E C cache registry' else ret_sr ())
           (\<lambda>_. ret_sr removed)) fs)))"

end
