(* ===== verification/Cache_Worktree.thy ===== *)
theory Cache_Worktree
  imports Cache_Objects
begin

text \<open>
  Worktree files (\<open>local_cache/materialization.rs\<close>, \<open>dehydration.rs\<close>): reading bounded
  pointer files, placing verified cache bytes at a path, and replacing a clean file by its pointer.
  A replacement exchanges the new file with the old one, verifies what was displaced and exchanges
  back when it is not what was expected. The \<open>before_publish\<close> and \<open>before_read\<close> arguments are the
  hooks of the source: whatever another process does to the tree at that moment. The platform is
  Linux: the exchanging rename exists and a copy-on-write clone is not attempted.
\<close>

section \<open>Pointer files\<close>

datatype bounded_pointer_bytes = Contents string | NotRegularFile | TooLarge u64

definition read_bounded_pointer_bytes ::
  "cache_env \<Rightarrow> fs_node \<Rightarrow> path \<Rightarrow> string \<Rightarrow> string \<Rightarrow> bounded_pointer_bytes cache_call" where
  "read_bounded_pointer_bytes E file p inspect_context read_context =
     bind_sr (io_step E inspect_context p (ret_sr ())) (\<lambda>_.
       if \<not> node_is_file file then ret_sr NotRegularFile
       else if LFS_POINTER_SIZE_CUTOFF \<le> unat (node_len file) then ret_sr (TooLarge (node_len file))
       else bind_sr (io_step E read_context p (ret_sr ())) (\<lambda>_.
         let contents = take LFS_POINTER_SIZE_CUTOFF (node_bytes file) in ret_sr
           (if LFS_POINTER_SIZE_CUTOFF \<le> length contents then TooLarge (of_nat (length contents))
            else Contents contents)))"

definition parse_pointer_bytes :: "path \<Rightarrow> bounded_pointer_bytes \<Rightarrow> lfs_pointer cache_result" where
  "parse_pointer_bytes p bytes = (case bytes of
       TooLarge n \<Rightarrow> Inl (PointerFileTooLarge p n (of_nat LFS_POINTER_SIZE_CUTOFF))
     | NotRegularFile \<Rightarrow> Inl (PointerPathNotRegularFile p)
     | Contents contents \<Rightarrow> if \<not> utf8_ok contents then Inl (PointerFileInvalidUtf8 p)
         else map_err (PointerParse p) (lfs_pointer_parse contents))"

definition read_lfs_pointer_file :: "cache_env \<Rightarrow> path \<Rightarrow> lfs_pointer cache_call" where
  "read_lfs_pointer_file E p =
     bind_sr (open_worktree_file_without_following_symlinks E p ''failed to open Git LFS pointer file'') (\<lambda>file.
     bind_sr (read_bounded_pointer_bytes E file p ''failed to inspect Git LFS pointer file''
         ''failed to read Git LFS pointer file'') (\<lambda>bytes. lift_sr (parse_pointer_bytes p bytes)))"

definition existing_pointer :: "bounded_pointer_bytes \<Rightarrow> lfs_pointer option" where
  "existing_pointer bytes = (case bytes of
       Contents contents \<Rightarrow> if \<not> utf8_ok contents then None
         else (case lfs_pointer_parse contents of Inr pointer \<Rightarrow> Some pointer | Inl _ \<Rightarrow> None)
     | _ \<Rightarrow> None)"

definition read_existing_lfs_pointer_file :: "cache_env \<Rightarrow> path \<Rightarrow> lfs_pointer option cache_call" where
  "read_existing_lfs_pointer_file E p =
     bind_sr (open_worktree_file_without_following_symlinks E p ''failed to open dehydration target'') (\<lambda>file.
     bind_sr (read_bounded_pointer_bytes E file p ''failed to inspect dehydration target''
         ''failed to read dehydration target'') (\<lambda>bytes. ret_sr (existing_pointer bytes)))"

section \<open>Replacing a file\<close>

definition existing_file_mode :: "cache_env \<Rightarrow> path \<Rightarrow> nat cache_call" where
  "existing_file_mode E p =
     bind_sr (worktree_file_metadata_without_following_symlinks E p) (\<lambda>metadata. ret_sr (node_mode metadata mod 512))"

definition set_temporary_file_mode :: "cache_env \<Rightarrow> path \<Rightarrow> path \<Rightarrow> nat \<Rightarrow> unit cache_call" where
  "set_temporary_file_mode E temp_path destination_path mode =
     io_step E ''failed to set temporary file permissions'' destination_path (fs_set_mode temp_path mode)"

definition EXCHANGE_CONTEXT :: string where
  "EXCHANGE_CONTEXT = ''failed to atomically exchange worktree content''"

text \<open>The failure of the exchange that rolls a replacement back.\<close>

definition ROLLBACK_CONTEXT :: string where
  "ROLLBACK_CONTEXT = ''failed to restore worktree content''"

definition replace_retaining_displaced ::
  "cache_env \<Rightarrow> path \<Rightarrow> path \<Rightarrow> (path \<Rightarrow> unit cache_call) \<Rightarrow> unit cache_call" where
  "replace_retaining_displaced E temp destination_path verify_displaced =
     try_sr (io_raw E EXCHANGE_CONTEXT destination_path (fs_exchange temp destination_path))
       (\<lambda>_. try_sr (verify_displaced temp)
          (\<lambda>_. finally_sr (ret_sr ()) (fs_delete temp))
          (\<lambda>err. try_sr (io_raw E ROLLBACK_CONTEXT destination_path (fs_exchange temp destination_path))
             (\<lambda>_. finally_sr (lift_sr (Inl err)) (fs_delete temp))
             (\<lambda>source. lift_sr (Inl (WorktreeReplacementRollback destination_path temp source)))))
       (\<lambda>err. finally_sr (lift_sr (Inl (CacheIo EXCHANGE_CONTEXT destination_path err))) (fs_delete temp))"

fun remap_integrity :: "path \<Rightarrow> cache_error \<Rightarrow> cache_error" where
  "remap_integrity public_path (IntegrityMismatch _ expected_oid expected_size actual_oid actual_size) =
     IntegrityMismatch public_path expected_oid expected_size actual_oid actual_size"
| "remap_integrity public_path err = err"

definition remap_integrity_path :: "path \<Rightarrow> 'a cache_call \<Rightarrow> 'a cache_call" where
  "remap_integrity_path public_path = map_err_sr (remap_integrity public_path)"

definition publish_pointer_file ::
  "cache_env \<Rightarrow> path \<Rightarrow> lfs_object \<Rightarrow> (fs \<Rightarrow> fs) \<Rightarrow> (fs \<Rightarrow> fs) \<Rightarrow> unit cache_call" where
  "publish_pointer_file E p object before_publish before_displaced_verification =
     bind_sr (lift_sr (ok_or (CacheIo ''failed to resolve dehydration target parent'' p
         (IoError InvalidInput ''dehydration target path has no parent directory'')) (path_parent p))) (\<lambda>parent.
     bind_sr (existing_file_mode E p) (\<lambda>mode.
     bind_sr (io_step E ''failed to create temporary Git LFS pointer'' parent (fs_create_temp E parent)) (\<lambda>temp.
     bind_sr (on_error_sr
         (bind_sr (io_step E ''failed to write temporary Git LFS pointer'' p
             (fs_append temp (to_pointer_file (lfs_pointer_new object)))) (\<lambda>_.
          bind_sr (io_step E ''failed to flush temporary Git LFS pointer'' p (ret_sr ())) (\<lambda>_.
            set_temporary_file_mode E temp p mode)))
         (fs_delete temp)) (\<lambda>_.
     bind_sr (hook_sr before_publish) (\<lambda>_.
     bind_sr (replace_retaining_displaced E temp p (\<lambda>displaced_path.
         bind_sr (hook_sr before_displaced_verification) (\<lambda>_.
         bind_sr (remap_integrity_path p (verify_worktree_file_object E displaced_path object)) (\<lambda>_. ret_sr ())))) (\<lambda>_.
     bind_sr (read_lfs_pointer_file E p) (\<lambda>pointer. lift_sr
       (if ptr_object pointer \<noteq> object
        then Inl (PointerParse p (PointerUnexpectedLine ''dehydrated pointer did not round-trip to the expected object''))
        else Inr ()))))))))"

section \<open>Materialization\<close>

datatype materialization_mode = NoReplace | ReplaceMatchingPointer
datatype materialization_status = AlreadyMaterialized | CopyOnWriteCloned | Copied
datatype existing_destination = DestinationMissing | DestinationMaterialized | DestinationDifferent

record local_cache_materialization =
  mz_object :: lfs_object
  mz_cache_path :: path
  mz_destination_path :: path
  mz_status :: materialization_status

definition DEFAULT_MATERIALIZED_FILE_MODE :: nat where
  "DEFAULT_MATERIALIZED_FILE_MODE = 384"

definition different_on_mismatch :: "cache_error \<Rightarrow> existing_destination cache_result" where
  "different_on_mismatch err = (case err of IntegrityMismatch _ _ _ _ _ \<Rightarrow> Inr DestinationDifferent | _ \<Rightarrow> Inl err)"

definition existing_destination_status :: "cache_env \<Rightarrow> path \<Rightarrow> lfs_object \<Rightarrow> existing_destination cache_call" where
  "existing_destination_status E p object =
     try_sr (io_raw E ''failed to inspect materialization destination'' p (fs_symlink_metadata p))
       (\<lambda>metadata. if node_is_symlink metadata then lift_sr (Inl (WorktreePathSymlink p))
          else if node_is_file metadata then
            (if node_len metadata \<noteq> obj_size object then ret_sr DestinationDifferent
             else try_sr (verify_worktree_file_object E p object) (\<lambda>_. ret_sr DestinationMaterialized)
                    (\<lambda>err. lift_sr (different_on_mismatch err)))
          else lift_sr (Inl (CacheIo ''materialization destination is not a file'' p
                 (IoError InvalidData ''expected a regular file''))))
       (\<lambda>err. if io_error_kind err = NotFound then ret_sr DestinationMissing
          else lift_sr (Inl (CacheIo ''failed to inspect materialization destination'' p err)))"

definition copy_cache_object_to_temporary_file :: "cache_env \<Rightarrow> path \<Rightarrow> path \<Rightarrow> lfs_object \<Rightarrow> unit cache_call" where
  "copy_cache_object_to_temporary_file E cache_path temp expected =
     bind_sr (io_step E ''failed to open verified cache object'' cache_path (fs_metadata cache_path)) (\<lambda>source.
     bind_sr (io_step E ''failed to open temporary materialized object'' temp (fs_truncate temp)) (\<lambda>_.
     bind_sr (hash_and_optionally_copy E source cache_path ''failed to read verified cache object''
         (Some (temp, temp, ''failed to write temporary materialized object''))) (\<lambda>actual.
     bind_sr (io_step E ''failed to flush temporary materialized object'' temp (ret_sr ())) (\<lambda>_.
       lift_sr (ensure_object_identity cache_path expected actual)))))"

definition copy_on_write_clone :: "path \<Rightarrow> path \<Rightarrow> path option cache_call" where
  "copy_on_write_clone source_path destination_parent = ret_sr None"

definition materialize_to_temporary_file_with_clone ::
  "cache_env \<Rightarrow> path \<Rightarrow> path \<Rightarrow> lfs_object \<Rightarrow> (path \<Rightarrow> path \<Rightarrow> path option cache_call)
     \<Rightarrow> (path \<times> materialization_status) cache_call" where
  "materialize_to_temporary_file_with_clone E cache_path destination_parent object try_clone =
     bind_sr (try_clone cache_path destination_parent) (\<lambda>cloned. case cloned of
         Some temp \<Rightarrow> bind_sr (on_error_sr (verify_file_object E temp object) (fs_delete temp))
           (\<lambda>_. ret_sr (temp, CopyOnWriteCloned))
       | None \<Rightarrow>
           bind_sr (io_step E ''failed to create temporary materialized object'' destination_parent
               (fs_create_temp E destination_parent)) (\<lambda>temp.
           bind_sr (on_error_sr (copy_cache_object_to_temporary_file E cache_path temp object) (fs_delete temp))
             (\<lambda>_. ret_sr (temp, Copied))))"

definition materialize_to_temporary_file ::
  "cache_env \<Rightarrow> path \<Rightarrow> path \<Rightarrow> lfs_object \<Rightarrow> (path \<times> materialization_status) cache_call" where
  "materialize_to_temporary_file E cache_path destination_parent object =
     materialize_to_temporary_file_with_clone E cache_path destination_parent object copy_on_write_clone"

definition target_exists :: "lfs_object \<Rightarrow> path \<Rightarrow> cache_error" where
  "target_exists object p = MaterializationTargetExists (obj_oid object) (obj_size object) p"

definition pointer_matches :: "lfs_object \<Rightarrow> path \<Rightarrow> lfs_pointer \<Rightarrow> unit cache_result" where
  "pointer_matches object destination_path pointer =
     (if ptr_object pointer \<noteq> object then Inl (target_exists object destination_path) else Inr ())"

definition exists_on_mismatch :: "lfs_object \<Rightarrow> path \<Rightarrow> cache_error \<Rightarrow> cache_error" where
  "exists_on_mismatch object p err =
     (case err of IntegrityMismatch _ _ _ _ _ \<Rightarrow> target_exists object p | _ \<Rightarrow> err)"

definition publish_materialized_file ::
  "cache_env \<Rightarrow> path \<Rightarrow> path \<Rightarrow> materialization_mode \<Rightarrow> lfs_object \<Rightarrow> (fs \<Rightarrow> fs) \<Rightarrow> unit cache_call" where
  "publish_materialized_file E temp destination_path mode object before_publish = (case mode of
       NoReplace \<Rightarrow> finally_sr
         (bind_sr (hook_sr before_publish) (\<lambda>_.
          bind_sr (set_temporary_file_mode E temp destination_path DEFAULT_MATERIALIZED_FILE_MODE) (\<lambda>_.
            try_sr (io_raw E ''failed to publish materialized object'' destination_path
                (fs_rename_noclobber temp destination_path)) (\<lambda>_. ret_sr ())
              (\<lambda>err. if io_error_kind err = AlreadyExists
                 then map_err_sr (exists_on_mismatch object destination_path)
                   (bind_sr (verify_worktree_file_object E destination_path object) (\<lambda>_. ret_sr ()))
                 else lift_sr (Inl (CacheIo ''failed to publish materialized object'' destination_path err))))))
         (fs_delete temp)
     | ReplaceMatchingPointer \<Rightarrow>
         bind_sr (on_error_sr
             (bind_sr (read_lfs_pointer_file E destination_path) (\<lambda>pointer.
              bind_sr (lift_sr (pointer_matches object destination_path pointer)) (\<lambda>_.
              bind_sr (existing_file_mode E destination_path) (\<lambda>replacement_mode.
                set_temporary_file_mode E temp destination_path replacement_mode))))
             (fs_delete temp)) (\<lambda>_.
         bind_sr (hook_sr before_publish) (\<lambda>_.
           replace_retaining_displaced E temp destination_path (\<lambda>displaced_path.
             bind_sr (map_err_sr (\<lambda>_. target_exists object destination_path)
                 (read_lfs_pointer_file E displaced_path)) (\<lambda>pointer.
               lift_sr (pointer_matches object destination_path pointer))))))"

definition materialization_outcome :: "verified_local_cache_object \<Rightarrow> path \<Rightarrow> materialization_status \<Rightarrow> local_cache_materialization" where
  "materialization_outcome verified destination_path status =
     \<lparr>mz_object = vo_object verified, mz_cache_path = vo_path verified, mz_destination_path = destination_path,
      mz_status = status\<rparr>"

text \<open>The part of \<open>materialize_verified_object\<close> after the destination has been inspected.\<close>

definition place_verified_object ::
  "cache_env \<Rightarrow> verified_local_cache_object \<Rightarrow> path \<Rightarrow> materialization_mode \<Rightarrow> (fs \<Rightarrow> fs)
     \<Rightarrow> local_cache_materialization cache_call" where
  "place_verified_object E verified destination_path mode before_publish =
     bind_sr (lift_sr (ok_or (CacheIo ''failed to resolve materialization destination parent'' destination_path
         (IoError InvalidInput ''destination path has no parent directory'')) (path_parent destination_path)))
       (\<lambda>destination_parent.
     bind_sr (io_step E ''failed to create materialization destination directory'' destination_parent
         (fs_create_dir_all destination_parent)) (\<lambda>_.
     bind_sr (materialize_to_temporary_file E (vo_path verified) destination_parent (vo_object verified)) (\<lambda>(temp, status).
     bind_sr (publish_materialized_file E temp destination_path mode (vo_object verified) before_publish) (\<lambda>_.
     bind_sr (verify_worktree_file_object E destination_path (vo_object verified)) (\<lambda>_.
       ret_sr (materialization_outcome verified destination_path status))))))"

definition materialize_verified_object ::
  "cache_env \<Rightarrow> verified_local_cache_object \<Rightarrow> path \<Rightarrow> materialization_mode \<Rightarrow> (fs \<Rightarrow> fs)
     \<Rightarrow> local_cache_materialization cache_call" where
  "materialize_verified_object E verified destination_path mode before_publish =
     (let object = vo_object verified; place = place_verified_object E verified destination_path mode before_publish in
      bind_sr (existing_destination_status E destination_path object) (\<lambda>existing. case existing of
           DestinationMissing \<Rightarrow> place
         | DestinationMaterialized \<Rightarrow> ret_sr (materialization_outcome verified destination_path AlreadyMaterialized)
         | DestinationDifferent \<Rightarrow> (case mode of
             NoReplace \<Rightarrow> lift_sr (Inl (target_exists object destination_path))
           | ReplaceMatchingPointer \<Rightarrow>
               bind_sr (read_lfs_pointer_file E destination_path) (\<lambda>pointer.
               bind_sr (lift_sr (pointer_matches object destination_path pointer)) (\<lambda>_. place)))))"

definition materialize_object ::
  "cache_env \<Rightarrow> local_cache_layout \<Rightarrow> lfs_object \<Rightarrow> path \<Rightarrow> local_cache_materialization cache_call" where
  "materialize_object E cache object destination_path =
     bind_sr (lock_cache_operation_shared E cache) (\<lambda>_.
     bind_sr (lock_worktree_path E cache destination_path) (\<lambda>_.
     bind_sr (verify_object E cache object) (\<lambda>verified.
       materialize_verified_object E verified destination_path NoReplace (\<lambda>fs. fs))))"

definition hydrate_pointer_file ::
  "cache_env \<Rightarrow> local_cache_layout \<Rightarrow> path \<Rightarrow> (fs \<Rightarrow> fs) \<Rightarrow> local_cache_materialization cache_call" where
  "hydrate_pointer_file E cache pointer_path before_publish =
     bind_sr (lock_cache_operation_shared E cache) (\<lambda>_.
     bind_sr (lock_worktree_path E cache pointer_path) (\<lambda>_.
     bind_sr (read_lfs_pointer_file E pointer_path) (\<lambda>pointer.
       if pointer_is_empty pointer
       then ret_sr \<lparr>mz_object = ptr_object pointer, mz_cache_path = object_path cache (ptr_object pointer),
              mz_destination_path = pointer_path, mz_status = AlreadyMaterialized\<rparr>
       else bind_sr (verify_object E cache (ptr_object pointer)) (\<lambda>verified.
         materialize_verified_object E verified pointer_path ReplaceMatchingPointer before_publish))))"

section \<open>Dehydration\<close>

datatype dehydration_status = AlreadyDehydrated | ReplacedWithPointer | CachedAndReplacedWithPointer

record local_cache_dehydration =
  dh_object :: lfs_object
  dh_cache_path :: path
  dh_pointer_path :: path
  dh_status :: dehydration_status

text \<open>Which cached copy the pointer will rely on.\<close>

definition secure_cached_copy ::
  "cache_env \<Rightarrow> local_cache_layout \<Rightarrow> lfs_object \<Rightarrow> path \<Rightarrow> (fs \<Rightarrow> fs) \<Rightarrow> dehydration_status cache_call" where
  "secure_cached_copy E cache object worktree_path before_full_worktree_read =
     (let cache_path = object_path cache object in
       bind_sr (cache_object_path_exists E cache_path) (\<lambda>found.
         if found
         then bind_sr (verify_object E cache object) (\<lambda>_.
              bind_sr (sync_verified_cache_object E cache_path) (\<lambda>_. ret_sr ReplacedWithPointer))
         else bind_sr (hook_sr before_full_worktree_read) (\<lambda>_.
              bind_sr (copy_verified_worktree_object_to_cache E worktree_path cache_path object) (\<lambda>_.
                ret_sr CachedAndReplacedWithPointer))))"

definition dehydration_outcome :: "local_cache_layout \<Rightarrow> lfs_object \<Rightarrow> path \<Rightarrow> dehydration_status \<Rightarrow> local_cache_dehydration" where
  "dehydration_outcome cache object worktree_path status =
     \<lparr>dh_object = object, dh_cache_path = object_path cache object, dh_pointer_path = worktree_path, dh_status = status\<rparr>"

definition replace_with_pointer ::
  "cache_env \<Rightarrow> local_cache_layout \<Rightarrow> lfs_object \<Rightarrow> path \<Rightarrow> (fs \<Rightarrow> fs) \<Rightarrow> (fs \<Rightarrow> fs)
     \<Rightarrow> local_cache_dehydration cache_call" where
  "replace_with_pointer E cache object worktree_path before_pointer_publish before_full_worktree_read =
     bind_sr (secure_cached_copy E cache object worktree_path before_full_worktree_read) (\<lambda>status.
     bind_sr (publish_pointer_file E worktree_path object before_pointer_publish before_full_worktree_read) (\<lambda>_.
       ret_sr (dehydration_outcome cache object worktree_path status)))"

definition dehydrate_file_with_read_observer ::
  "cache_env \<Rightarrow> local_cache_layout \<Rightarrow> lfs_object \<Rightarrow> path \<Rightarrow> (fs \<Rightarrow> fs) \<Rightarrow> (fs \<Rightarrow> fs)
     \<Rightarrow> local_cache_dehydration cache_call" where
  "dehydrate_file_with_read_observer E cache object worktree_path before_pointer_publish before_full_worktree_read =
     (let replace = replace_with_pointer E cache object worktree_path before_pointer_publish before_full_worktree_read in
     bind_sr (lock_cache_operation_shared E cache) (\<lambda>_.
     bind_sr (lock_worktree_path E cache worktree_path) (\<lambda>_.
     bind_sr (read_existing_lfs_pointer_file E worktree_path) (\<lambda>existing. case existing of
         None \<Rightarrow> replace
       | Some pointer \<Rightarrow>
           if ptr_object pointer = object then ret_sr (dehydration_outcome cache object worktree_path AlreadyDehydrated)
           else bind_sr (hook_sr before_full_worktree_read) (\<lambda>_.
             try_sr (verify_worktree_file_object E worktree_path object) (\<lambda>_. replace)
               (\<lambda>_. lift_sr (Inl (PointerObjectMismatch worktree_path (obj_oid object) (obj_size object)
                  (obj_oid (ptr_object pointer)) (obj_size (ptr_object pointer))))))))))"

definition dehydrate_file ::
  "cache_env \<Rightarrow> local_cache_layout \<Rightarrow> lfs_object \<Rightarrow> path \<Rightarrow> local_cache_dehydration cache_call" where
  "dehydrate_file E cache object worktree_path =
     dehydrate_file_with_read_observer E cache object worktree_path (\<lambda>fs. fs) (\<lambda>fs. fs)"

section \<open>What the steps leave alone\<close>

lemma looks_pointer_reads [looks_intros]:
  "looks (read_bounded_pointer_bytes E n p c1 c2)" "looks (read_lfs_pointer_file E p)"
  "looks (read_existing_lfs_pointer_file E p)" "looks (existing_file_mode E p)" "looks (existing_destination_status E p object)"
proof -
  show r: "looks (read_bounded_pointer_bytes E n p c1 c2)" for n p c1 c2
    unfolding read_bounded_pointer_bytes_def Let_def by (auto intro!: looks_intros)
  show "looks (read_lfs_pointer_file E p)" "looks (read_existing_lfs_pointer_file E p)" "looks (existing_file_mode E p)"
    unfolding read_lfs_pointer_file_def read_existing_lfs_pointer_file_def existing_file_mode_def
    by (intro looks_intros r)+
  show "looks (existing_destination_status E p object)"
    unfolding existing_destination_status_def by (auto intro!: looks_intros)
qed

lemma frame_set_temporary_file_mode [frame_intros]: "is_temp t \<or> t \<in> S \<Longrightarrow> frame S (set_temporary_file_mode E t d mode)"
  unfolding set_temporary_file_mode_def by (intro frame_intros) auto

lemma frame_replace_retaining_displaced [frame_intros]:
  assumes "is_temp t" "d \<in> S" "frame S (verify t)"
  shows "frame S (replace_retaining_displaced E t d verify)"
  unfolding replace_retaining_displaced_def using assms
  by (intro frame_intros) auto

lemma frame_read [frame_intros]:
  "frame S (read_lfs_pointer_file E p)" "frame S (existing_file_mode E p)" "frame S (verify_worktree_file_object E p object)"
  "frame S (verify_file_object E p object)"
  by (intro looks_frame looks_intros)+

lemma frame_publish_pointer_file [frame_intros]:
  assumes "p \<in> S" "edits S h" "edits S k"
  shows "frame S (publish_pointer_file E p object h k)"
  unfolding publish_pointer_file_def remap_integrity_path_def using assms
  by (intro frame_intros) (auto dest: temp_is_temp)

lemma frame_copy_to_temporary [frame_intros]: "is_temp t \<Longrightarrow> frame S (copy_cache_object_to_temporary_file E cp t object)"
  unfolding copy_cache_object_to_temporary_file_def by (intro frame_intros) auto

lemma bind_sr_ret: "bind_sr (ret_sr x) f = f x"
  by (simp add: bind_sr_def fun_eq_iff)

lemma frame_materialize_to_temporary [frame_intros]: "frame S (materialize_to_temporary_file E cp parent object)"
  unfolding materialize_to_temporary_file_def materialize_to_temporary_file_with_clone_def copy_on_write_clone_def
  by (simp add: bind_sr_ret) (intro frame_intros; auto dest: temp_is_temp)

lemma materialized_temp: "materialize_to_temporary_file E cp parent object fs = (Inr (t, st), fs') \<Longrightarrow> is_temp t"
  by (auto simp: materialize_to_temporary_file_def materialize_to_temporary_file_with_clone_def copy_on_write_clone_def
      sr_Inr fs_create_temp_Inr)

lemma frame_publish_materialized_file [frame_intros]:
  assumes "is_temp t" "d \<in> S" "edits S h"
  shows "frame S (publish_materialized_file E t d mode object h)"
  unfolding publish_materialized_file_def using assms
  by (cases mode) (auto intro!: frame_intros)

lemma frame_place_verified [frame_intros]:
  assumes "d \<in> S" "edits S h"
  shows "frame S (place_verified_object E v d mode h)"
  unfolding place_verified_object_def using assms
  by (intro frame_bind) (auto intro!: frame_intros dest: materialized_temp split: prod.splits)

lemma frame_materialize_verified [frame_intros]:
  assumes "d \<in> S" "edits S h"
  shows "frame S (materialize_verified_object E v d mode h)"
  unfolding materialize_verified_object_def Let_def
  by (intro frame_bind looks_frame [OF looks_pointer_reads(5)])
    (auto intro!: frame_bind frame_ret frame_read frame_place_verified assms
      split: existing_destination.splits materialization_mode.splits)

lemma frame_secure_cached_copy:
  assumes "object_path cache object \<in> S" "edits S k"
  shows "frame S (secure_cached_copy E cache object w k)"
  unfolding secure_cached_copy_def copy_verified_worktree_object_to_cache_def Let_def using assms
  by (auto intro!: frame_bind frame_ret frame_hook frame_copy_verified_file_to_cache
      looks_frame [OF looks_verify(3)] looks_frame [OF looks_verify(6)] looks_frame [OF looks_sync(2)]
      looks_frame [OF looks_open_worktree])

section \<open>Replacing a file loses nothing\<close>

lemma fs_exchange_cases:
  assumes "fs_exchange a b fs = (r, fs')" "map_of fs a = Some m"
  obtains (done_) n where "r = Inr ()" "map_of fs b = Some n" "fs' = fs_put b m (fs_put a n fs)"
    | (failed) e where "r = Inl e" "fs' = fs" "map_of fs b = None"
  using assms by (auto simp: fs_exchange_def split: option.splits)

lemma io_raw_cases:
  assumes "io_raw E c p m fs = (r, fs')"
  obtains (fault) e where "r = Inl e" "fs' = fs" | (run) "m fs = (r, fs')"
  using assms by (auto simp: io_raw_def split: option.splits)

lemma replace_retaining_displaced_effect:
  assumes run: "replace_retaining_displaced E t d verify fs = (r, fs')" and ne: "t \<noteq> d"
    and held: "map_of fs t = Some n" and verify: "looks (verify t)"
  obtains (replaced) old mid where "r = Inr ()" "map_of fs d = Some old" "map_of mid = (map_of fs)(t \<mapsto> old, d \<mapsto> n)"
      "verify t mid = (Inr (), mid)" "map_of fs' = (map_of fs)(d \<mapsto> n, t := None)"
    | (kept) e where "r = Inl e" "map_of fs' = (map_of fs)(t := None)"
    | (stranded) source old where "r = Inl (WorktreeReplacementRollback d t source)" "map_of fs d = Some old"
      "map_of fs' = (map_of fs)(d \<mapsto> n, t \<mapsto> old)"
  using run unfolding replace_retaining_displaced_def
proof (cases rule: try_sr_cases)
  case (err e mid)
  from err(1) have "mid = fs"
    by (cases rule: io_raw_cases) (use held in \<open>auto elim!: fs_exchange_cases\<close>)
  then show ?thesis using err(2) kept by (auto simp: finally_sr_Inr)
next
  case (ok u mid)
  from ok(1) obtain old where old: "map_of fs d = Some old" "mid = fs_put d n (fs_put t old fs)"
    by (cases rule: io_raw_cases) (use held in \<open>auto elim!: fs_exchange_cases\<close>)
  then have mid: "map_of mid = (map_of fs)(t \<mapsto> old, d \<mapsto> n)" by simp
  from ok(2) show ?thesis
  proof (cases rule: try_sr_cases)
    case (ok v fs2)
    then have "fs2 = mid" using looksD [OF verify] by blast
    then show ?thesis using replaced old(1) mid ok by (auto simp: finally_sr_Inr fun_upd_twist [OF ne])
  next
    case (err e fs2)
    then have same: "fs2 = mid" using looksD [OF verify] by blast
    from err(2) show ?thesis
    proof (cases rule: try_sr_cases)
      case (ok v fs3)
      then have "map_of fs3 = (map_of fs)(d \<mapsto> old, t \<mapsto> n)"
        using same mid ne by (auto simp: io_raw_Inr fs_exchange_def)
      moreover have "(map_of fs)(d \<mapsto> old, t := None) = (map_of fs)(t := None)"
        using old(1) ne by (auto simp: fun_eq_iff)
      ultimately show ?thesis using kept ok(2) by (auto simp: finally_sr_Inr)
    next
      case (err source fs3)
      from err(1) have "fs3 = mid"
        by (cases rule: io_raw_cases) (use same mid held ne in \<open>auto simp: fs_exchange_def\<close>)
      then show ?thesis using stranded old(1) mid err(2) ne by (auto simp: fun_upd_twist)
    qed
  qed
qed

text \<open>What another process leaves at \<open>w\<close> when its step runs: nothing else changes.\<close>

definition interferes :: "path \<Rightarrow> fs_node option option \<Rightarrow> (fs \<Rightarrow> fs) \<Rightarrow> bool" where
  "interferes w edit h \<longleftrightarrow> edits {w} h
     \<and> (\<forall>fs. map_of (h fs) w = (case edit of None \<Rightarrow> map_of fs w | Some after \<Rightarrow> after))"

lemma interferes_none: "interferes w None (\<lambda>fs. fs)"
  by (simp add: interferes_def)

definition edited :: "fs_node option option \<Rightarrow> fs_node option \<Rightarrow> fs_node option" where
  "edited edit before = (case edit of None \<Rightarrow> before | Some after \<Rightarrow> after)"

lemma temp_prepared:
  assumes "io_step E c parent (fs_create_temp E parent) fs = (Inr t, fs1)"
    and "on_error_sr
         (bind_sr (io_step E c1 p (fs_append t text)) (\<lambda>_.
          bind_sr (io_step E c2 p (ret_sr ())) (\<lambda>_. set_temporary_file_mode E t p mode))) (fs_delete t) fs1 = (r, fs2)"
  shows "(\<exists>e. r = Inl e \<and> map_of fs2 = (map_of fs)(t := None))
     \<or> r = Inr () \<and> map_of fs2 = (map_of fs)(t \<mapsto> FileNode text mode)"
proof -
  have fs1: "map_of fs1 = (map_of fs)(t \<mapsto> FileNode [] 384)"
    using assms(1) by (auto simp: io_step_Inr fs_create_temp_Inr)
  show ?thesis
    using assms(2) fs1
    by (auto simp: on_error_sr_def bind_sr_def io_step_def map_err_sr_def io_raw_def fs_append_def set_temporary_file_mode_def
        fs_set_mode_def split: option.splits prod.splits sum.splits)
qed

definition pointer_text :: "lfs_object \<Rightarrow> string" where
  "pointer_text object = to_pointer_file (lfs_pointer_new object)"

text \<open>What a replacement may end with, seen at the path: \<open>before\<close> the step, \<open>final\<close> after the other process.\<close>

definition pointer_published :: "cache_env \<Rightarrow> path \<Rightarrow> lfs_object \<Rightarrow> fs_node option \<Rightarrow> fs_node option \<Rightarrow> fs \<Rightarrow> bool" where
  "pointer_published E w object before final fs' \<longleftrightarrow>
     (\<exists>bytes mode old_mode old. final = Some (FileNode bytes mode) \<and> is_object_bytes E object bytes
        \<and> before = Some (FileNode old old_mode)
        \<and> content_at fs' w = Some (FileNode (pointer_text object) (old_mode mod 512)))"

lemma content_of_map: "map_of fs p = Some n \<Longrightarrow> content_at fs p = (if n = DirNode then None else Some n)"
  by (simp add: content_at_def split: fs_node.splits)

lemma content_cong: "map_of fs' = map_of fs \<Longrightarrow> content_at fs' = content_at fs"
  by (simp add: content_at_def fun_eq_iff)

lemma content_upd: "map_of fs' = (map_of fs)(p := r) \<Longrightarrow> content_at fs' = (content_at fs)(p := (case r of Some DirNode \<Rightarrow> None | _ \<Rightarrow> r))"
  by (auto simp: content_at_def fun_eq_iff split: option.splits fs_node.splits)

lemma existing_file_mode_Inr:
  "existing_file_mode E p fs = (Inr mode, fs') \<Longrightarrow> fs' = fs \<and> (\<exists>bytes m. map_of fs p = Some (FileNode bytes m) \<and> mode = m mod 512)"
  by (auto simp: existing_file_mode_def worktree_file_metadata_without_following_symlinks_def sr_Inr fs_symlink_metadata_def
      split: if_splits elim!: node_is_file.elims)

lemma verify_displaced_Inr:
  assumes "bind_sr (hook_sr (\<lambda>fs. fs)) (\<lambda>_. bind_sr (remap_integrity_path p (verify_worktree_file_object E q object)) (\<lambda>_. ret_sr ())) fs
     = (Inr (), fs')"
  shows "\<exists>bytes mode. map_of fs q = Some (FileNode bytes mode) \<and> is_object_bytes E object bytes"
  using assms verify_worktree_file_object_Inr by (fastforce simp: remap_integrity_path_def sr_Inr)

lemma bind_hook: "bind_sr (hook_sr h) f s = f () (h s)"
  by (simp add: bind_sr_def hook_sr_def)

lemma exchange_pointer_effect:
  assumes run: "bind_sr (hook_sr h) (\<lambda>_.
     bind_sr (replace_retaining_displaced E t w (\<lambda>displaced_path.
         bind_sr (hook_sr (\<lambda>fs. fs)) (\<lambda>_.
         bind_sr (remap_integrity_path w (verify_worktree_file_object E displaced_path object)) (\<lambda>_. ret_sr ())))) (\<lambda>_.
     bind_sr (read_lfs_pointer_file E w) (\<lambda>pointer. lift_sr (check pointer)))) fs = (r, fs')"
    and h: "interferes w edit h" and t: "is_temp t" "t \<noteq> w" "map_of fs t = Some n" "n \<noteq> DirNode"
  defines "final \<equiv> edited edit (map_of fs w)"
  shows "(\<exists>bytes m. final = Some (FileNode bytes m) \<and> is_object_bytes E object bytes \<and> content_at fs' w = Some n)
     \<or> (\<exists>err. r = Inl err \<and> ((final \<noteq> Some DirNode \<longrightarrow> content_at fs' w = final)
           \<or> (\<exists>t source. err = WorktreeReplacementRollback w t source \<and> is_temp t \<and> map_of fs' t = final)))"
proof -
  have after: "map_of (h fs) w = final" "map_of (h fs) t = Some n"
    using h t by (auto simp: interferes_def edits_def final_def edited_def split: option.splits)
  have looks: "looks (bind_sr (hook_sr (\<lambda>fs. fs)) (\<lambda>_.
         bind_sr (remap_integrity_path w (verify_worktree_file_object E t object)) (\<lambda>_. ret_sr ())))"
    unfolding remap_integrity_path_def by (intro looks_intros) (simp add: looks_def hook_sr_def)
  have "bind_sr (replace_retaining_displaced E t w (\<lambda>displaced_path.
         bind_sr (hook_sr (\<lambda>fs. fs)) (\<lambda>_.
         bind_sr (remap_integrity_path w (verify_worktree_file_object E displaced_path object)) (\<lambda>_. ret_sr ())))) (\<lambda>_.
     bind_sr (read_lfs_pointer_file E w) (\<lambda>pointer. lift_sr (check pointer))) (h fs) = (r, fs')"
    using run unfolding bind_hook .
  then show ?thesis
  proof (cases rule: bind_sr_cases)
    case (first e)
    show ?thesis using first(1) t(2) after(2) looks
    proof (cases rule: replace_retaining_displaced_effect)
      case (kept e')
      then have "content_at fs' w = content_at (h fs) w" using t(2) by (simp add: content_upd)
      then show ?thesis using first(2) after(1) by (auto simp: content_at_def split: option.splits fs_node.splits)
    next
      case (stranded source old)
      then show ?thesis using first(2) after(1) t(1) by auto
    qed simp
  next
    case (second u fs2)
    show ?thesis using second(1) t(2) after(2) looks
    proof (cases rule: replace_retaining_displaced_effect)
      case (replaced old mid)
      then obtain bytes mode where "map_of mid t = Some (FileNode bytes mode)" "is_object_bytes E object bytes"
        using verify_displaced_Inr by blast
      then have "old = FileNode bytes mode" using replaced(3) t(2) by simp
      moreover have "fs' = fs2"
        using second(2) looksD [of "bind_sr (read_lfs_pointer_file E w) (\<lambda>pointer. lift_sr (check pointer))"]
        by (auto intro!: looks_intros)
      moreover have "content_at fs2 w = Some n" using replaced(5) t(2,4) by (simp add: content_at_def split: fs_node.splits)
      ultimately show ?thesis using after(1) replaced(2) \<open>is_object_bytes E object bytes\<close> by auto
    qed auto
  qed
qed

lemma publish_pointer_file_effect:
  assumes run: "publish_pointer_file E w object h (\<lambda>fs. fs) fs = (r, fs')" and h: "interferes w edit h" and w: "\<not> is_temp w"
  defines "final \<equiv> edited edit (map_of fs w)"
  shows "pointer_published E w object (map_of fs w) final fs'
     \<or> (\<exists>err. r = Inl err \<and> (content_at fs' w = content_at fs w \<or> (final \<noteq> Some DirNode \<longrightarrow> content_at fs' w = final)
           \<or> (\<exists>t source. err = WorktreeReplacementRollback w t source \<and> is_temp t \<and> map_of fs' t = final)))"
  (is "?published \<or> ?kept")
  using run unfolding publish_pointer_file_def
proof (cases rule: bind_sr_cases)
  case (first e)
  then show ?thesis by simp
next
  case (second parent fs0)
  then have "fs0 = fs" by simp
  from second(2)[unfolded this] show ?thesis
  proof (cases rule: bind_sr_cases)
    case (first e)
    then have "fs' = fs" using looksD [OF looks_pointer_reads(4)] by blast
    then show ?thesis using first by simp
  next
    case (second mode fs1)
    then obtain old old_mode where "fs1 = fs" and old: "map_of fs w = Some (FileNode old old_mode)" "mode = old_mode mod 512"
      using existing_file_mode_Inr by blast
    from second(2)[unfolded \<open>fs1 = fs\<close>] show ?thesis
    proof (cases rule: bind_sr_cases)
      case (first e)
      then have "content_at fs' w = content_at fs w"
        using frameD [OF frame_io_step [OF frame_create_temp], where S = "{}"] w by blast
      then show ?thesis using first by simp
    next
      case (second t fs2)
      then have t: "is_temp t" "t \<noteq> w" using temp_is_temp w by auto
      from second(2) show ?thesis
      proof (cases rule: bind_sr_cases)
        case (first e)
        then have "map_of fs' = (map_of fs)(t := None)" using temp_prepared [OF second(1) first(1)] by simp
        then show ?thesis using first t by (simp add: content_upd)
      next
        case (second u fs3)
        note prepared = this
        have fs3: "map_of fs3 = (map_of fs)(t \<mapsto> FileNode (pointer_text object) mode)"
          using temp_prepared [OF \<open>io_step E _ _ (fs_create_temp E parent) fs = (Inr t, fs2)\<close> prepared(1)]
          by (simp add: pointer_text_def)
        have "edited edit (map_of fs3 w) = final" "map_of fs3 w = map_of fs w" using fs3 t by (simp_all add: final_def)
        then show ?thesis
          using exchange_pointer_effect [OF prepared(2) h t, of "FileNode (pointer_text object) mode"] fs3 old
          unfolding pointer_published_def by fastforce
      qed
    qed
  qed
qed

end
