(* ===== verification/Cache_Gc.thy ===== *)
theory Cache_Gc
  imports Cache_Registry Cache_Worktree
begin

text \<open>
  Garbage collection of the cache (\<open>local_cache/garbage_collection.rs\<close>): which registered
  worktrees exist, which objects their tracked pointer files reference according to Git, which files
  of the cache are objects, and the removal of those that nothing references. The commands of Git
  are the parameter \<open>git_env\<close>.
\<close>

section \<open>Git\<close>

record git_status =
  gs_success :: bool
  gs_display :: string

datatype child_process_error =
    ChildIo string fs_error | ChildTimedOut | ChildOutputLimit | ChildInheritedPipe

datatype input_writer = InputWritten | InputFailed fs_error | WriterPanicked

record git_env =
  ge_ls_files :: "worktree_registration \<Rightarrow> fs_error + git_status \<times> string"
  ge_spawn_check_attr :: "worktree_registration \<Rightarrow> fs_error option"
  ge_check_attr :: "worktree_registration \<Rightarrow> string \<Rightarrow> child_process_error + git_status \<times> string"
  ge_write_input :: "worktree_registration \<Rightarrow> string \<Rightarrow> input_writer"

definition LS_FILES :: string where
  "LS_FILES = ''git ls-files -z''"

definition CHECK_ATTR :: string where
  "CHECK_ATTR = ''git check-attr --cached -z --stdin filter''"

definition git_command_failed :: "string \<Rightarrow> worktree_registration \<Rightarrow> git_status \<Rightarrow> cache_error" where
  "git_command_failed command registration status =
     GitCommandFailed command (wr_worktree_root registration) (gs_display status)"

definition git_command_output :: "string \<Rightarrow> worktree_registration \<Rightarrow> string \<Rightarrow> cache_error" where
  "git_command_output command registration message = GitCommandOutput command (wr_worktree_root registration) message"

definition local_cache_git_path_output_error :: "git_path_output_error \<Rightarrow> worktree_registration \<Rightarrow> cache_error" where
  "local_cache_git_path_output_error err registration =
     git_command_output CHECK_ATTR registration (case err of
         MalformedAttributeOutput \<Rightarrow> ''expected path, attribute, and value triples''
       | PathOutsideWorktree \<Rightarrow> ''returned a path outside the registered worktree'')"

definition contains_str :: "string \<Rightarrow> string \<Rightarrow> bool" where
  "contains_str p s \<longleftrightarrow> split_once_str p s \<noteq> None"

definition local_cache_child_process_error :: "child_process_error \<Rightarrow> worktree_registration \<Rightarrow> cache_error" where
  "local_cache_child_process_error err registration =
     (case (case err of
         ChildIo context source \<Rightarrow>
           (if starts_with ''failed to read stdout'' context
            then ''failed to read git check-attr stdout during local cache garbage collection''
            else if starts_with ''failed to read stderr'' context
            then ''failed to read git check-attr stderr during local cache garbage collection''
            else if contains_str ''reader thread panicked'' context
            then ''git check-attr output reader panicked during local cache garbage collection''
            else ''failed to wait for git check-attr during local cache garbage collection'', source)
       | ChildTimedOut \<Rightarrow> (''git check-attr unexpectedly timed out'', IoError TimedOutKind ''no timeout was configured'')
       | ChildOutputLimit \<Rightarrow> (''git check-attr unexpectedly exceeded an output limit'',
           IoError OtherKind ''no output limit was configured'')
       | ChildInheritedPipe \<Rightarrow> (''timed out draining git check-attr output'',
           IoError TimedOutKind ''Git output pipes remained open after process-tree cleanup''))
      of (context, source) \<Rightarrow> CacheIo context (wr_worktree_root registration) source)"

definition check_tracked_path_filter_attributes ::
  "git_env \<Rightarrow> worktree_registration \<Rightarrow> string \<Rightarrow> string cache_result" where
  "check_tracked_path_filter_attributes G registration tracked_paths =
     (case ge_spawn_check_attr G registration of
        Some err \<Rightarrow> Inl (CacheIo ''failed to start git check-attr for local cache garbage collection''
            (wr_worktree_root registration) err)
      | None \<Rightarrow>
        bind_res (map_err (\<lambda>err. local_cache_child_process_error err registration)
            (ge_check_attr G registration tracked_paths)) (\<lambda>(status, stdout).
          if ge_write_input G registration tracked_paths = WriterPanicked
          then Inl (CacheIo ''git check-attr input writer panicked during local cache garbage collection''
                 (wr_worktree_root registration) (IoError OtherKind ''git check-attr input writer panicked''))
          else if \<not> gs_success status then Inl (git_command_failed CHECK_ATTR registration status)
          else (case ge_write_input G registration tracked_paths of
              InputFailed err \<Rightarrow> Inl (CacheIo ''failed to write tracked paths to git check-attr''
                  (wr_worktree_root registration) err)
            | _ \<Rightarrow> Inr stdout)))"

text \<open>The tracked paths whose \<open>filter\<close> attribute is \<open>lfs\<close>.\<close>

definition tracked_lfs_paths :: "git_env \<Rightarrow> worktree_registration \<Rightarrow> path list cache_result" where
  "tracked_lfs_paths G registration =
     bind_res (map_err (CacheIo ''failed to start git ls-files -z for local cache garbage collection''
         (wr_worktree_root registration)) (ge_ls_files G registration)) (\<lambda>(status, stdout).
       if \<not> gs_success status then Inl (git_command_failed LS_FILES registration status)
       else if stdout = [] then Inr []
       else bind_res (check_tracked_path_filter_attributes G registration stdout) (\<lambda>attributes.
         map_err (\<lambda>err. local_cache_git_path_output_error err registration)
           (parse_lfs_filter_attribute_paths attributes)))"

section \<open>Reachability\<close>

fun partition_existing_worktrees ::
  "cache_env \<Rightarrow> worktree_registration list
     \<Rightarrow> (worktree_registration list \<times> worktree_registration list) cache_call" where
  "partition_existing_worktrees E [] = ret_sr ([], [])"
| "partition_existing_worktrees E (registration # registrations) =
     (let rest = (\<lambda>f. bind_sr (partition_existing_worktrees E registrations) (\<lambda>parts. ret_sr (f parts))) in
      try_sr (io_raw E ''failed to inspect registered worktree root'' (wr_worktree_root registration)
          (fs_metadata (wr_worktree_root registration)))
        (\<lambda>metadata. if node_is_dir metadata then rest (\<lambda>(active, missing). (registration # active, missing))
           else rest (\<lambda>(active, missing). (active, registration # missing)))
        (\<lambda>err. if io_error_kind err = NotFound then rest (\<lambda>(active, missing). (active, registration # missing))
           else lift_sr (Inl (CacheIo ''failed to inspect registered worktree root'' (wr_worktree_root registration) err))))"

definition pointer_oid :: "bounded_pointer_bytes \<Rightarrow> lfs_oid option" where
  "pointer_oid bytes = (case bytes of
       Contents contents \<Rightarrow> if \<not> utf8_ok contents then None
         else (case lfs_pointer_parse contents of
             Inr pointer \<Rightarrow> if pointer_is_empty pointer then None else Some (obj_oid (ptr_object pointer))
           | Inl _ \<Rightarrow> None)
     | _ \<Rightarrow> None)"

text \<open>Whether the candidate was skipped, and the references with the one it holds.\<close>

definition collect_pointer_oid_from_file ::
  "cache_env \<Rightarrow> path \<Rightarrow> lfs_oid set \<Rightarrow> (bool \<times> lfs_oid set) cache_call" where
  "collect_pointer_oid_from_file E p referenced =
     try_sr (io_raw E ''failed to inspect worktree pointer candidate'' p (fs_symlink_metadata p))
       (\<lambda>metadata. if \<not> node_is_file metadata then ret_sr (True, referenced)
          else try_sr (io_raw E ''failed to open worktree pointer candidate'' p (fs_open_nofollow p))
            (\<lambda>file.
              bind_sr (read_bounded_pointer_bytes E file p ''failed to inspect worktree pointer candidate''
                  ''failed to read worktree pointer candidate'') (\<lambda>bytes. ret_sr
                (bytes = NotRegularFile,
                 (case pointer_oid bytes of Some x \<Rightarrow> insert x referenced | None \<Rightarrow> referenced))))
            (\<lambda>err fs. if io_error_kind err = NotFound then (Inr (False, referenced), fs)
               else (case map_of fs p of
                   Some node \<Rightarrow> if \<not> node_is_file node then (Inr (True, referenced), fs)
                     else (Inl (CacheIo ''failed to open worktree pointer candidate'' p err), fs)
                 | None \<Rightarrow> (Inl (CacheIo ''failed to open worktree pointer candidate'' p err), fs))))
       (\<lambda>err. if io_error_kind err = NotFound then ret_sr (False, referenced)
          else lift_sr (Inl (CacheIo ''failed to inspect worktree pointer candidate'' p err)))"

text \<open>The accumulators: the referenced identifiers and the skipped candidates.\<close>

fun collect_lfs_paths ::
  "cache_env \<Rightarrow> path \<Rightarrow> path list \<Rightarrow> lfs_oid set \<times> path list \<Rightarrow> (lfs_oid set \<times> path list) cache_call" where
  "collect_lfs_paths E root [] acc = ret_sr acc"
| "collect_lfs_paths E root (relative_path # rest) (referenced, skipped) =
     (let p = fs_path_join root relative_path in
       bind_sr (collect_pointer_oid_from_file E p referenced) (\<lambda>(skip, referenced').
         collect_lfs_paths E root rest (referenced', if skip then skipped @ [p] else skipped)))"

definition collect_tracked_lfs_pointer_oids ::
  "cache_env \<Rightarrow> git_env \<Rightarrow> worktree_registration \<Rightarrow> lfs_oid set \<times> path list \<Rightarrow> (lfs_oid set \<times> path list) cache_call" where
  "collect_tracked_lfs_pointer_oids E G registration acc =
     bind_sr (lift_sr (tracked_lfs_paths G registration)) (\<lambda>lfs_paths.
       collect_lfs_paths E (wr_worktree_root registration) lfs_paths acc)"

fun referenced_worktree_oids ::
  "cache_env \<Rightarrow> git_env \<Rightarrow> worktree_registration list \<Rightarrow> lfs_oid set \<times> path list \<Rightarrow> (lfs_oid set \<times> path list) cache_call" where
  "referenced_worktree_oids E G [] acc = ret_sr acc"
| "referenced_worktree_oids E G (registration # registrations) acc =
     bind_sr (collect_tracked_lfs_pointer_oids E G registration acc) (referenced_worktree_oids E G registrations)"

section \<open>The files of the cache\<close>

record gc_object =
  go_oid :: lfs_oid
  go_path :: path
  go_size_bytes :: u64

datatype cache_entry = ObjectEntry gc_object | SkippedEntry path

fun entry_objects :: "cache_entry list \<Rightarrow> gc_object list" where
  "entry_objects [] = []"
| "entry_objects (ObjectEntry c # entries) = c # entry_objects entries"
| "entry_objects (SkippedEntry p # entries) = entry_objects entries"

fun entry_skipped :: "cache_entry list \<Rightarrow> path list" where
  "entry_skipped [] = []"
| "entry_skipped (ObjectEntry c # entries) = entry_skipped entries"
| "entry_skipped (SkippedEntry p # entries) = p # entry_skipped entries"

fun concat_map_sr :: "('a \<Rightarrow> ('s, 'e, 'b list) sr) \<Rightarrow> 'a list \<Rightarrow> ('s, 'e, 'b list) sr" where
  "concat_map_sr f [] = ret_sr []"
| "concat_map_sr f (x # xs) = bind_sr (f x) (\<lambda>ys. bind_sr (concat_map_sr f xs) (\<lambda>zs. ret_sr (ys @ zs)))"

definition read_cache_entry :: "cache_env \<Rightarrow> path \<Rightarrow> unit cache_call" where
  "read_cache_entry E directory = io_step E ''failed to read local cache directory entry'' directory (ret_sr ())"

definition entry_is_kind :: "cache_env \<Rightarrow> path \<Rightarrow> string \<Rightarrow> (fs_node \<Rightarrow> bool) \<Rightarrow> bool cache_call" where
  "entry_is_kind E p label matches =
     bind_sr (io_step E label p (fs_symlink_metadata p)) (\<lambda>node. ret_sr (matches node))"

definition cache_object_from_entry :: "cache_env \<Rightarrow> path \<Rightarrow> fs \<Rightarrow> gc_object option" where
  "cache_object_from_entry E p fs =
     (if p = [] \<or> \<not> utf8_ok (last p) then None
      else (case lfs_oid_new (last p) of
          Inl _ \<Rightarrow> None
        | Inr x \<Rightarrow> (case object_shards (as_hex x) of (first_shard, second_shard) \<Rightarrow>
            if take 2 (drop (length p - 3) p) \<noteq> [first_shard, second_shard] then None
            else (case (ce_fault E fs ''cache object metadata'' p, map_of fs p) of
                (None, Some node) \<Rightarrow> Some \<lparr>go_oid = x, go_path = p, go_size_bytes = node_len node\<rparr>
              | _ \<Rightarrow> None))))"

definition collect_object_entry :: "cache_env \<Rightarrow> path \<Rightarrow> path \<Rightarrow> cache_entry list cache_call" where
  "collect_object_entry E directory p =
     bind_sr (read_cache_entry E directory) (\<lambda>_.
     bind_sr (entry_is_kind E p ''cache object path'' node_is_file) (\<lambda>regular fs.
       (Inr [if \<not> regular then SkippedEntry p
             else case cache_object_from_entry E p fs of Some c \<Rightarrow> ObjectEntry c | None \<Rightarrow> SkippedEntry p], fs)))"

definition collect_shard ::
  "cache_env \<Rightarrow> string \<Rightarrow> (path \<Rightarrow> path \<Rightarrow> cache_entry list cache_call) \<Rightarrow> path \<Rightarrow> path \<Rightarrow> cache_entry list cache_call" where
  "collect_shard E label collect directory shard =
     bind_sr (read_cache_entry E directory) (\<lambda>_.
     bind_sr (entry_is_kind E shard label node_is_dir) (\<lambda>is_dir.
       if \<not> is_dir then ret_sr [SkippedEntry shard]
       else bind_sr (io_step E ''failed to read local cache shard directory'' shard (fs_read_dir shard))
         (concat_map_sr (collect shard))))"

definition collect_cache_object_files :: "cache_env \<Rightarrow> path \<Rightarrow> cache_entry list cache_call" where
  "collect_cache_object_files E objects =
     try_sr (io_raw E ''failed to read local cache objects directory'' objects (fs_read_dir objects))
       (concat_map_sr (collect_shard E ''first-level cache shard''
           (collect_shard E ''second-level cache shard'' (collect_object_entry E)) objects))
       (\<lambda>err. if io_error_kind err = NotFound then ret_sr []
          else lift_sr (Inl (CacheIo ''failed to read local cache objects directory'' objects err)))"

section \<open>Removal\<close>

definition remove_empty_directory :: "cache_env \<Rightarrow> path \<Rightarrow> unit cache_call" where
  "remove_empty_directory E p =
     try_sr (io_raw E ''failed to remove empty local cache shard directory'' p (fs_remove_dir p)) ret_sr
       (\<lambda>err. if io_error_kind err = NotFound \<or> io_error_kind err = DirectoryNotEmpty then ret_sr ()
          else lift_sr (Inl (CacheIo ''failed to remove empty local cache shard directory'' p err)))"

definition remove_empty_cache_shard_dirs :: "cache_env \<Rightarrow> path \<Rightarrow> path \<Rightarrow> unit cache_call" where
  "remove_empty_cache_shard_dirs E cache_object_path objects =
     (case path_parent cache_object_path of
        None \<Rightarrow> ret_sr ()
      | Some second_shard \<Rightarrow> (case path_parent second_shard of
          None \<Rightarrow> ret_sr ()
        | Some first_shard \<Rightarrow> bind_sr (remove_empty_directory E second_shard) (\<lambda>_.
            if first_shard \<noteq> objects then remove_empty_directory E first_shard else ret_sr ())))"

definition delete_cache_object :: "cache_env \<Rightarrow> local_cache_layout \<Rightarrow> gc_object \<Rightarrow> unit cache_call" where
  "delete_cache_object E cache c =
     bind_sr (io_step E ''failed to remove unreferenced local cache object'' (go_path c) (fs_remove_file (go_path c)))
       (\<lambda>_. remove_empty_cache_shard_dirs E (go_path c) (objects_dir cache))"

record gc_verdicts =
  gv_retained :: "gc_object list"
  gv_protected :: "gc_object list"
  gv_unreferenced :: "gc_object list"
  gv_deleted :: "gc_object list"

fun collect_objects ::
  "cache_env \<Rightarrow> local_cache_layout \<Rightarrow> bool \<Rightarrow> bool \<Rightarrow> lfs_oid set \<Rightarrow> gc_object list \<Rightarrow> gc_verdicts \<Rightarrow> gc_verdicts cache_call" where
  "collect_objects E cache dry_run protect referenced [] v = ret_sr v"
| "collect_objects E cache dry_run protect referenced (c # rest) v =
     (if go_oid c \<in> referenced
      then collect_objects E cache dry_run protect referenced rest (v\<lparr>gv_retained := gv_retained v @ [c]\<rparr>)
      else if protect
      then collect_objects E cache dry_run protect referenced rest (v\<lparr>gv_protected := gv_protected v @ [c]\<rparr>)
      else bind_sr (if \<not> dry_run then delete_cache_object E cache c else ret_sr ()) (\<lambda>_.
        collect_objects E cache dry_run protect referenced rest
          (v\<lparr>gv_deleted := gv_deleted v @ (if \<not> dry_run then [c] else []),
             gv_unreferenced := gv_unreferenced v @ [c]\<rparr>)))"

record local_cache_garbage_collection =
  gr_dry_run :: bool
  gr_active_worktree_count :: nat
  gr_unavailable_worktrees :: "worktree_registration list"
  gr_pruned_worktrees :: "worktree_registration list"
  gr_verdicts :: gc_verdicts
  gr_skipped_cache_paths :: "path list"
  gr_skipped_worktree_pointer_paths :: "path list"

fun prune_registry :: "cache_env \<Rightarrow> fs \<Rightarrow> worktree_registration list \<Rightarrow> worktree_registry \<Rightarrow> worktree_registry" where
  "prune_registry E fs [] registry = registry"
| "prune_registry E fs (registration # rest) registry =
     prune_registry E fs rest (snd (remove_worktree E fs (wr_worktree_root registration) registry))"

definition garbage_collect ::
  "cache_env \<Rightarrow> git_env \<Rightarrow> registry_codec \<Rightarrow> local_cache_layout \<Rightarrow> bool \<Rightarrow> bool
     \<Rightarrow> local_cache_garbage_collection cache_call" where
  "garbage_collect E G C cache dry_run prune_unavailable_worktrees =
     bind_sr (lock_cache_operation_exclusive E cache) (\<lambda>_.
     bind_sr (lock_worktree_registry E cache) (\<lambda>_.
     bind_sr (load_worktree_registry E C cache) (\<lambda>registry.
     bind_sr (partition_existing_worktrees E (rg_worktrees registry)) (\<lambda>(active, unavailable).
     bind_sr (referenced_worktree_oids E G active ({}, [])) (\<lambda>(referenced, skipped_pointers).
     bind_sr (collect_cache_object_files E (objects_dir cache)) (\<lambda>entries.
       (let cache_objects = sort_key go_path (entry_objects entries);
            pruned = (if prune_unavailable_worktrees then unavailable else []) in
        bind_sr (if \<not> dry_run \<and> prune_unavailable_worktrees \<and> pruned \<noteq> []
            then (\<lambda>fs. save_worktree_registry E C cache (prune_registry E fs pruned registry) fs)
            else ret_sr ()) (\<lambda>_.
        bind_sr (collect_objects E cache dry_run (unavailable \<noteq> [] \<and> \<not> prune_unavailable_worktrees) referenced
            cache_objects \<lparr>gv_retained = [], gv_protected = [], gv_unreferenced = [], gv_deleted = []\<rparr>) (\<lambda>verdicts.
          ret_sr \<lparr>gr_dry_run = dry_run, gr_active_worktree_count = length active,
            gr_unavailable_worktrees = unavailable, gr_pruned_worktrees = pruned, gr_verdicts = verdicts,
            gr_skipped_cache_paths = sort (entry_skipped entries),
            gr_skipped_worktree_pointer_paths = remdups_adj (sort skipped_pointers)\<rparr>)))))))))"

section \<open>What the collector sees\<close>

definition root_available :: "fs \<Rightarrow> worktree_registration \<Rightarrow> bool" where
  "root_available fs registration \<longleftrightarrow>
     (\<exists>q. fs_follow SYMLINK_LIMIT fs (wr_worktree_root registration) = Inr (q, DirNode))"

lemma node_is_dir_iff: "node_is_dir n \<longleftrightarrow> n = DirNode"
  by (cases n) auto

lemma partition_existing_worktrees_Inr:
  "partition_existing_worktrees E regs fs = (Inr (active, missing), fs') \<Longrightarrow>
     fs' = fs \<and> active = filter (root_available fs) regs \<and> missing = filter (\<lambda>g. \<not> root_available fs g) regs"
proof (induction regs arbitrary: active missing fs')
  case (Cons g regs)
  let ?m = "io_raw E ''failed to inspect registered worktree root'' (wr_worktree_root g) (fs_metadata (wr_worktree_root g))"
  have step: "(root_available fs g \<longrightarrow> (\<exists>a. partition_existing_worktrees E regs fs = (Inr (a, missing), fs') \<and> active = g # a))
     \<and> (\<not> root_available fs g \<longrightarrow> (\<exists>b. partition_existing_worktrees E regs fs = (Inr (active, b), fs') \<and> missing = g # b))"
    using Cons.prems
    by (cases "fs_follow SYMLINK_LIMIT fs (wr_worktree_root g)"; cases "?m fs")
      (auto simp: try_sr_def io_raw_def fs_metadata_def root_available_def bind_sr_Inr node_is_dir_iff Let_def
        split: option.splits if_splits)
  then show ?case
    using Cons.IH by (cases "root_available fs g") auto
qed simp

text \<open>The identifier a tracked worktree file keeps reachable.\<close>

definition pointer_at :: "fs \<Rightarrow> path \<Rightarrow> lfs_oid option" where
  "pointer_at fs p = (case map_of fs p of
       Some (FileNode bytes _) \<Rightarrow> if length bytes < LFS_POINTER_SIZE_CUTOFF then pointer_oid (Contents bytes) else None
     | _ \<Rightarrow> None)"

lemma read_bounded_small:
  assumes "read_bounded_pointer_bytes E (FileNode bytes m) p c1 c2 fs = (Inr result, fs')" "length bytes < LFS_POINTER_SIZE_CUTOFF"
  shows "result = Contents bytes"
proof -
  have "unat (node_len (FileNode bytes m)) = length bytes"
    using assms(2) by (simp add: node_len_def unat_of_nat LFS_POINTER_SIZE_CUTOFF_def take_bit_eq_mod)
  then show ?thesis using assms by (auto simp: read_bounded_pointer_bytes_def bind_sr_Inr Let_def)
qed

lemma looks_collect_pointer [looks_intros]: "looks (collect_pointer_oid_from_file E p R)"
proof -
  have answer: "looks (\<lambda>fs. if io_error_kind err = NotFound then (Inr (False, R), fs)
               else (case map_of fs p of
                   Some node \<Rightarrow> if \<not> node_is_file node then (Inr (True, R), fs)
                     else (Inl (CacheIo ''failed to open worktree pointer candidate'' p err), fs)
                 | None \<Rightarrow> (Inl (CacheIo ''failed to open worktree pointer candidate'' p err), fs)))" for err
    by (simp add: looks_def split: option.splits)
  show ?thesis
    unfolding collect_pointer_oid_from_file_def
    by (intro looks_intros) (auto intro!: looks_intros looks_open_nofollow looks_pointer_reads(1) answer)
qed

lemma collect_pointer_oid_from_file_Inr:
  assumes "collect_pointer_oid_from_file E p R fs = (Inr (skip, R'), fs')"
  shows "fs' = fs \<and> R \<subseteq> R' \<and> (\<forall>x. pointer_at fs p = Some x \<longrightarrow> x \<in> R')"
proof -
  have same: "fs' = fs" using looksD [OF looks_collect_pointer assms] .
  have "R \<subseteq> R'"
    using assms
    by (auto simp: collect_pointer_oid_from_file_def try_sr_def bind_sr_def split: prod.splits sum.splits if_splits option.splits)
  moreover have "x \<in> R'" if p: "pointer_at fs p = Some x" for x
  proof -
    obtain bytes m where at: "map_of fs p = Some (FileNode bytes m)" "length bytes < LFS_POINTER_SIZE_CUTOFF"
      "pointer_oid (Contents bytes) = Some x"
      using p by (auto simp: pointer_at_def split: option.splits fs_node.splits if_splits)
    then obtain result fs1 where "read_bounded_pointer_bytes E (FileNode bytes m) p ''failed to inspect worktree pointer candidate''
                  ''failed to read worktree pointer candidate'' fs = (Inr result, fs1)"
      "R' = (case pointer_oid result of Some x \<Rightarrow> insert x R | None \<Rightarrow> R)"
      using assms
      by (auto simp: collect_pointer_oid_from_file_def try_sr_def io_raw_def fs_symlink_metadata_def fs_open_nofollow_def bind_sr_Inr
          split: option.splits if_splits prod.splits)
    then show ?thesis using read_bounded_small at by fastforce
  qed
  ultimately show ?thesis using same by blast
qed

lemma collect_lfs_paths_Inr:
  "collect_lfs_paths E root paths (R, sk) fs = (Inr (R', sk'), fs') \<Longrightarrow>
     fs' = fs \<and> R \<subseteq> R' \<and> (\<forall>rel \<in> set paths. \<forall>x. pointer_at fs (fs_path_join root rel) = Some x \<longrightarrow> x \<in> R')"
proof (induction paths arbitrary: R sk)
  case (Cons rel paths)
  then obtain skip R1 fs1 where one: "collect_pointer_oid_from_file E (fs_path_join root rel) R fs = (Inr (skip, R1), fs1)"
    and rest: "collect_lfs_paths E root paths (R1, if skip then sk @ [fs_path_join root rel] else sk) fs1 = (Inr (R', sk'), fs')"
    by (auto simp: bind_sr_Inr Let_def)
  note a = collect_pointer_oid_from_file_Inr [OF one]
  have "fs' = fs \<and> R1 \<subseteq> R' \<and> (\<forall>rel \<in> set paths. \<forall>x. pointer_at fs (fs_path_join root rel) = Some x \<longrightarrow> x \<in> R')"
    using Cons.IH [of R1] rest a by blast
  then show ?case using a by auto
qed simp

lemma referenced_worktree_oids_Inr:
  "referenced_worktree_oids E G regs (R, sk) fs = (Inr (R', sk'), fs') \<Longrightarrow>
     fs' = fs \<and> R \<subseteq> R' \<and> (\<forall>g \<in> set regs. \<exists>paths. tracked_lfs_paths G g = Inr paths
       \<and> (\<forall>rel \<in> set paths. \<forall>x. pointer_at fs (fs_path_join (wr_worktree_root g) rel) = Some x \<longrightarrow> x \<in> R'))"
proof (induction regs arbitrary: R sk)
  case (Cons g regs)
  then obtain paths R1 sk1 fs1 where t: "tracked_lfs_paths G g = Inr paths"
    and one: "collect_lfs_paths E (wr_worktree_root g) paths (R, sk) fs = (Inr (R1, sk1), fs1)"
    and rest: "referenced_worktree_oids E G regs (R1, sk1) fs1 = (Inr (R', sk'), fs')"
    by (auto simp: bind_sr_Inr collect_tracked_lfs_pointer_oids_def)
  note a = collect_lfs_paths_Inr [OF one]
  note b = Cons.IH [OF rest [unfolded a [THEN conjunct1]]]
  then show ?case using a t by fastforce
qed simp

section \<open>Which files count as objects\<close>

definition names_object :: "local_cache_layout \<Rightarrow> path \<Rightarrow> lfs_oid \<Rightarrow> bool" where
  "names_object cache p x \<longleftrightarrow> (\<exists>name. p = objects_dir cache @ [fst (object_shards (as_hex x)), snd (object_shards (as_hex x)), name]
     \<and> lfs_oid_new name = Inr x)"

lemma entry_objects_append: "entry_objects (a @ b) = entry_objects a @ entry_objects b"
  by (induction a rule: entry_objects.induct) auto

lemma concat_map_sr_Inr:
  assumes "concat_map_sr f xs fs = (Inr ys, fs')" "\<And>x. looks (f x)"
  shows "fs' = fs \<and> (\<forall>y \<in> set ys. \<exists>x \<in> set xs. \<exists>zs. f x fs = (Inr zs, fs) \<and> y \<in> set zs)"
  using assms(1)
proof (induction xs arbitrary: ys)
  case (Cons x xs)
  then obtain a fs1 b where "f x fs = (Inr a, fs1)" "concat_map_sr f xs fs1 = (Inr b, fs')" "ys = a @ b"
    by (auto simp: bind_sr_Inr)
  moreover have "fs1 = fs" using looksD [OF assms(2)] calculation(1) by blast
  ultimately show ?case using Cons.IH by fastforce
qed simp

lemma looks_concat_map [looks_intros]: "(\<And>x. looks (f x)) \<Longrightarrow> looks (concat_map_sr f xs)"
  by (induction xs) (auto intro!: looks_intros)

lemma looks_collect_object_entry [looks_intros]: "looks (collect_object_entry E d p)"
  unfolding collect_object_entry_def read_cache_entry_def entry_is_kind_def
  by (intro looks_intros) (simp add: looks_def)

lemma looks_collect_shard [looks_intros]: "(\<And>d p. looks (collect d p)) \<Longrightarrow> looks (collect_shard E l collect d p)"
  unfolding collect_shard_def read_cache_entry_def entry_is_kind_def
  by (intro looks_intros) (auto intro!: looks_intros)

lemma looks_collect_cache_object_files [looks_intros]: "looks (collect_cache_object_files E p)"
  unfolding collect_cache_object_files_def by (intro looks_intros) (auto intro!: looks_intros)

lemma fs_read_dir_Inr: "fs_read_dir p fs = (Inr xs, fs') \<Longrightarrow> x \<in> set xs \<Longrightarrow> \<exists>n. x = p @ [n]"
  by (auto simp: fs_read_dir_def split: sum.splits fs_node.splits)

lemma collect_shard_Inr:
  assumes "collect_shard E l collect d p fs = (Inr zs, fs')" "\<And>d p. looks (collect d p)" "ObjectEntry c \<in> set zs"
  shows "\<exists>n ys. collect p (p @ [n]) fs = (Inr ys, fs) \<and> ObjectEntry c \<in> set ys"
proof -
  obtain u fs1 is_dir fs2 where r: "read_cache_entry E d fs = (Inr u, fs1)" and k: "entry_is_kind E p l node_is_dir fs1 = (Inr is_dir, fs2)"
    and rest: "(if \<not> is_dir then ret_sr [SkippedEntry p]
       else bind_sr (io_step E ''failed to read local cache shard directory'' p (fs_read_dir p)) (concat_map_sr (collect p))) fs2
       = (Inr zs, fs')"
    using assms(1) unfolding collect_shard_def bind_sr_Inr by blast
  have "fs1 = fs" using r by (auto simp: read_cache_entry_def dest: io_step_ret)
  moreover have "fs2 = fs1" using k by (auto simp: entry_is_kind_def sr_Inr fs_symlink_metadata_def)
  ultimately obtain xs where "is_dir" and xs: "fs_read_dir p fs = (Inr xs, fs)" and ys: "concat_map_sr (collect p) xs fs = (Inr zs, fs')"
    using rest assms(3) looksD [OF looks_read_dir] by (fastforce simp: sr_Inr split: if_splits)
  obtain x ws where "x \<in> set xs" "collect p x fs = (Inr ws, fs)" "ObjectEntry c \<in> set ws"
    using concat_map_sr_Inr [OF ys assms(2)] assms(3) by blast
  then show ?thesis using fs_read_dir_Inr [OF xs] by blast
qed

lemma collect_object_entry_Inr:
  assumes "collect_object_entry E d p fs = (Inr zs, fs')" "ObjectEntry c \<in> set zs"
  shows "go_path c = p \<and> lfs_oid_new (last p) = Inr (go_oid c)
     \<and> take 2 (drop (length p - 3) p) = [fst (object_shards (as_hex (go_oid c))), snd (object_shards (as_hex (go_oid c)))]
     \<and> (\<exists>bytes m. map_of fs p = Some (FileNode bytes m))"
proof -
  obtain u fs1 fs2 regular where r: "read_cache_entry E d fs = (Inr u, fs1)" and k: "entry_is_kind E p ''cache object path'' node_is_file fs1 = (Inr regular, fs2)"
    and rest: "zs = [if \<not> regular then SkippedEntry p
             else case cache_object_from_entry E p fs2 of Some c \<Rightarrow> ObjectEntry c | None \<Rightarrow> SkippedEntry p]"
    using assms(1) by (auto simp: collect_object_entry_def bind_sr_Inr)
  have "fs1 = fs" using r by (auto simp: read_cache_entry_def dest: io_step_ret)
  moreover have "fs2 = fs1 \<and> (regular \<longrightarrow> (\<exists>bytes m. map_of fs1 p = Some (FileNode bytes m)))"
    using k by (auto simp: entry_is_kind_def sr_Inr fs_symlink_metadata_def elim!: node_is_file.elims)
  moreover have "regular" "cache_object_from_entry E p fs2 = Some c"
    using rest assms(2) by (auto split: if_splits option.splits)
  ultimately show ?thesis
    by (auto simp: cache_object_from_entry_def split: if_splits sum.splits prod.splits option.splits)
qed

lemma collect_cache_object_files_Inr:
  assumes "collect_cache_object_files E (objects_dir cache) fs = (Inr entries, fs')" "ObjectEntry c \<in> set entries"
  shows "names_object cache (go_path c) (go_oid c) \<and> (\<exists>bytes m. map_of fs (go_path c) = Some (FileNode bytes m))"
proof -
  obtain xs where xs: "fs_read_dir (objects_dir cache) fs = (Inr xs, fs)"
    and ys: "concat_map_sr (collect_shard E ''first-level cache shard''
           (collect_shard E ''second-level cache shard'' (collect_object_entry E)) (objects_dir cache)) xs fs = (Inr entries, fs')"
    using assms looksD [OF looks_read_dir]
    by (fastforce simp: collect_cache_object_files_def io_raw_Inr elim!: try_sr_cases split: if_splits)
  have looks1: "looks (collect_object_entry E d p)" and
    looks2: "looks (collect_shard E l (collect_object_entry E) d p)" and
    looks3: "looks (collect_shard E l (collect_shard E l' (collect_object_entry E)) d p)" for d p l l'
    by (intro looks_intros)+
  obtain a zs where a: "collect_shard E ''first-level cache shard''
           (collect_shard E ''second-level cache shard'' (collect_object_entry E)) (objects_dir cache) (objects_dir cache @ [a]) fs = (Inr zs, fs)"
    "ObjectEntry c \<in> set zs"
    using concat_map_sr_Inr [OF ys looks3] assms(2) fs_read_dir_Inr [OF xs] by blast
  obtain b zs2 where b: "collect_shard E ''second-level cache shard'' (collect_object_entry E) (objects_dir cache @ [a])
      ((objects_dir cache @ [a]) @ [b]) fs = (Inr zs2, fs)" "ObjectEntry c \<in> set zs2"
    using collect_shard_Inr [OF a(1) looks2 a(2)] by blast
  obtain n zs3 where n: "collect_object_entry E ((objects_dir cache @ [a]) @ [b])
      (((objects_dir cache @ [a]) @ [b]) @ [n]) fs = (Inr zs3, fs)" "ObjectEntry c \<in> set zs3"
    using collect_shard_Inr [OF b(1) looks1 b(2)] by blast
  from collect_object_entry_Inr [OF n] show ?thesis
    by (auto simp: names_object_def)
qed

lemma entry_objects_in: "c \<in> set (entry_objects entries) \<Longrightarrow> ObjectEntry c \<in> set entries"
  by (induction entries rule: entry_objects.induct) auto

section \<open>What removal changes\<close>

lemma frame_remove_empty [frame_intros]: "frame S (remove_empty_directory E p)"
  unfolding remove_empty_directory_def by (intro frame_intros) (auto intro!: frame_intros)

lemma frame_remove_shards [frame_intros]: "frame S (remove_empty_cache_shard_dirs E p objects)"
  unfolding remove_empty_cache_shard_dirs_def by (auto intro!: frame_intros split: option.splits)

lemma delete_cache_object_effect:
  assumes "delete_cache_object E cache c fs = (r, fs')" "\<not> is_temp p" "content_at fs' p \<noteq> content_at fs p"
  shows "p = go_path c \<and> content_at fs' p = None"
proof -
  have f: "frame {go_path c} (delete_cache_object E cache c)"
    unfolding delete_cache_object_def by (intro frame_intros) auto
  then have p: "p = go_path c" using frameD [OF f assms(1)] assms(2,3) by blast
  from assms(1) have "content_at fs' p = content_at fs p \<or> content_at fs' p = None"
    unfolding delete_cache_object_def
  proof (cases rule: bind_sr_cases)
    case (first e)
    then have "fs' = fs"
      by (auto simp: io_step_def map_err_sr_def io_raw_def fs_remove_file_def split: option.splits fs_node.splits)
    then show ?thesis by simp
  next
    case (second u fs1)
    then have "content_at fs1 p = None"
      using p by (auto simp: io_step_Inr fs_remove_file_def split: option.splits fs_node.splits)
    moreover have "content_at fs' p = content_at fs1 p"
      using frameD [OF frame_remove_shards [where S = "{}"] second(2)] assms(2) by simp
    ultimately show ?thesis by simp
  qed
  then show ?thesis using p assms(3) by simp
qed

lemma collect_objects_effect:
  assumes "collect_objects E cache dry_run protect R cs v fs = (r, fs')" "\<not> is_temp p" "content_at fs' p \<noteq> content_at fs p"
  shows "\<not> dry_run \<and> \<not> protect \<and> content_at fs' p = None \<and> (\<exists>c \<in> set cs. go_path c = p \<and> go_oid c \<notin> R)"
  using assms
proof (induction cs arbitrary: v fs)
  case (Cons c cs)
  show ?case
  proof (cases "go_oid c \<in> R \<or> protect")
    case True
    then obtain v' where "collect_objects E cache dry_run protect R cs v' fs = (r, fs')"
      using Cons.prems(1) by (auto split: if_splits)
    then show ?thesis using Cons.IH [OF _ Cons.prems(2,3)] by auto
  next
    case False
    have step: "bind_sr (if \<not> dry_run then delete_cache_object E cache c else ret_sr ()) (\<lambda>_.
        collect_objects E cache dry_run protect R cs
          (v\<lparr>gv_deleted := gv_deleted v @ (if \<not> dry_run then [c] else []),
             gv_unreferenced := gv_unreferenced v @ [c]\<rparr>)) fs = (r, fs')"
      using Cons.prems(1) False by simp
    have deleted: "\<not> dry_run \<and> p = go_path c \<and> content_at fs1 p = None"
      if "(if \<not> dry_run then delete_cache_object E cache c else ret_sr ()) fs = (q, fs1)" "content_at fs1 p \<noteq> content_at fs p" for q fs1
      using that delete_cache_object_effect [OF _ Cons.prems(2)] by (auto split: if_splits)
    from step show ?thesis
    proof (cases rule: bind_sr_cases)
      case (first e)
      then show ?thesis using deleted [OF first(1) Cons.prems(3)] False by auto
    next
      case (second u fs1)
      show ?thesis
      proof (cases "content_at fs' p = content_at fs1 p")
        case True
        then show ?thesis using deleted [OF second(1)] Cons.prems(3) False by auto
      next
        case False
        then show ?thesis using Cons.IH [OF second(2) Cons.prems(2)] by auto
      qed
    qed
  qed
qed simp

section \<open>Only what nothing references is removed\<close>

lemma looks_load_registry [looks_intros]: "looks (load_worktree_registry E C cache)"
proof -
  have "looks (\<lambda>fs. (F fs, fs))" for F :: "fs \<Rightarrow> worktree_registry cache_result" by (simp add: looks_def)
  then show ?thesis
    unfolding load_worktree_registry_def Let_def by (auto intro!: looks_intros)
qed

lemma frame_save_registry [frame_intros]:
  assumes "worktree_registry_path cache \<in> S" shows "frame S (save_worktree_registry E C cache registry)"
  unfolding save_worktree_registry_def write_registry_file_def Let_def using assms
  by (intro frame_intros looks_frame [OF looks_sync(1)]) (auto dest: temp_is_temp)

definition gc_snapshot :: "cache_env \<Rightarrow> local_cache_layout \<Rightarrow> fs \<Rightarrow> fs" where
  "gc_snapshot E cache fs = snd (bind_sr (lock_cache_operation_exclusive E cache) (\<lambda>_. lock_worktree_registry E cache) fs)"

definition gc_justified ::
  "cache_env \<Rightarrow> git_env \<Rightarrow> registry_codec \<Rightarrow> local_cache_layout \<Rightarrow> bool \<Rightarrow> fs \<Rightarrow> path \<Rightarrow> bool" where
  "gc_justified E G C cache prune fs p \<longleftrightarrow> (\<exists>x registry. names_object cache p x
     \<and> load_worktree_registry E C cache fs = (Inr registry, fs)
     \<and> (prune \<or> (\<forall>g \<in> set (rg_worktrees registry). root_available fs g))
     \<and> (\<forall>g \<in> set (rg_worktrees registry). root_available fs g \<longrightarrow> (\<exists>paths. tracked_lfs_paths G g = Inr paths
          \<and> (\<forall>rel \<in> set paths. pointer_at fs (fs_path_join (wr_worktree_root g) rel) \<noteq> Some x))))"

text \<open>The collector after its locks, as one step on the snapshot.\<close>

definition collect_snapshot ::
  "cache_env \<Rightarrow> git_env \<Rightarrow> registry_codec \<Rightarrow> local_cache_layout \<Rightarrow> bool \<Rightarrow> bool
     \<Rightarrow> local_cache_garbage_collection cache_call" where
  "collect_snapshot E G C cache dry_run prune_unavailable_worktrees =
     bind_sr (load_worktree_registry E C cache) (\<lambda>registry.
     bind_sr (partition_existing_worktrees E (rg_worktrees registry)) (\<lambda>(active, unavailable).
     bind_sr (referenced_worktree_oids E G active ({}, [])) (\<lambda>(referenced, skipped_pointers).
     bind_sr (collect_cache_object_files E (objects_dir cache)) (\<lambda>entries.
       (let cache_objects = sort_key go_path (entry_objects entries);
            pruned = (if prune_unavailable_worktrees then unavailable else []) in
        bind_sr (if \<not> dry_run \<and> prune_unavailable_worktrees \<and> pruned \<noteq> []
            then (\<lambda>fs. save_worktree_registry E C cache (prune_registry E fs pruned registry) fs)
            else ret_sr ()) (\<lambda>_.
        bind_sr (collect_objects E cache dry_run (unavailable \<noteq> [] \<and> \<not> prune_unavailable_worktrees) referenced
            cache_objects \<lparr>gv_retained = [], gv_protected = [], gv_unreferenced = [], gv_deleted = []\<rparr>) (\<lambda>verdicts.
          ret_sr \<lparr>gr_dry_run = dry_run, gr_active_worktree_count = length active,
            gr_unavailable_worktrees = unavailable, gr_pruned_worktrees = pruned, gr_verdicts = verdicts,
            gr_skipped_cache_paths = sort (entry_skipped entries),
            gr_skipped_worktree_pointer_paths = remdups_adj (sort skipped_pointers)\<rparr>)))))))"

lemma looks_partition [looks_intros]: "looks (partition_existing_worktrees E regs)"
proof (induction regs)
  case (Cons g regs)
  then show ?case by (auto intro!: looks_intros simp: Let_def)
qed (simp add: looks_def)

lemma looks_referenced [looks_intros]: "looks (referenced_worktree_oids E G regs acc)"
proof (induction regs arbitrary: acc)
  case (Cons g regs)
  have paths: "looks (collect_lfs_paths E root paths acc)" for root paths acc
  proof (induction paths arbitrary: acc)
    case (Cons rel paths)
    then show ?case by (cases acc) (auto intro!: looks_intros simp: Let_def split: prod.splits)
  qed (simp add: looks_def)
  show ?case by (auto intro!: looks_intros paths Cons simp: collect_tracked_lfs_pointer_oids_def)
qed (simp add: looks_def)

lemma collect_snapshot_effect:
  assumes run: "collect_snapshot E G C cache dry_run prune fs = (r, fs')"
    and p: "\<not> is_temp p" "p \<noteq> worktree_registry_path cache" "content_at fs' p \<noteq> content_at fs p"
  shows "\<not> dry_run \<and> content_at fs' p = None \<and> gc_justified E G C cache prune fs p"
  using run unfolding collect_snapshot_def
proof (cases rule: bind_sr_cases)
  case (first e)
  then show ?thesis using looksD [OF looks_load_registry] p(3) by blast
next
  case (second registry fs1)
  then have load: "load_worktree_registry E C cache fs = (Inr registry, fs)" "fs1 = fs"
    using looksD [OF looks_load_registry] by (metis, metis)
  from second(2)[unfolded load(2)] show ?thesis
  proof (cases rule: bind_sr_cases)
    case (first e)
    then show ?thesis using looksD [OF looks_partition] p(3) by blast
  next
    case (second parts fs2)
    obtain active unavailable where parts: "parts = (active, unavailable)" by (cases parts)
    note part = partition_existing_worktrees_Inr [OF second(1)[unfolded parts]]
    from second(2)[unfolded parts prod.case part [THEN conjunct1]] show ?thesis
    proof (cases rule: bind_sr_cases)
      case (first e)
      then show ?thesis using looksD [OF looks_referenced] p(3) by blast
    next
      case (second refs fs3)
      obtain referenced skipped where refs: "refs = (referenced, skipped)" by (cases refs)
      note ref = referenced_worktree_oids_Inr [OF second(1)[unfolded refs]]
      from second(2)[unfolded refs prod.case ref [THEN conjunct1]] show ?thesis
      proof (cases rule: bind_sr_cases)
        case (first e)
        then show ?thesis using looksD [OF looks_collect_cache_object_files] p(3) by blast
      next
        case (second entries fs4)
        then have fs4: "fs4 = fs" using looksD [OF looks_collect_cache_object_files] by blast
        note entries = collect_cache_object_files_Inr [OF second(1)]
        note body = second(2)[unfolded fs4 Let_def]
        have saved: "content_at s p = content_at fs p"
          if "(if \<not> dry_run \<and> prune \<and> (if prune then unavailable else []) \<noteq> []
            then (\<lambda>fs. save_worktree_registry E C cache (prune_registry E fs (if prune then unavailable else []) registry) fs)
            else ret_sr ()) fs = (q, s)" for q s
          using that frameD [OF frame_save_registry [where S = "{worktree_registry_path cache}"]] p(1,2)
          by (auto split: if_splits)
        from body show ?thesis
        proof (cases rule: bind_sr_cases)
          case (first e)
          then show ?thesis using saved [OF first(1)] p(3) by simp
        next
          case (second u fs5)
          obtain q where q: "collect_objects E cache dry_run (unavailable \<noteq> [] \<and> \<not> prune) referenced
            (sort_key go_path (entry_objects entries)) \<lparr>gv_retained = [], gv_protected = [], gv_unreferenced = [], gv_deleted = []\<rparr>
            fs5 = (q, fs')"
            using second(2) by (auto simp: bind_sr_def split: prod.splits sum.splits)
          have "content_at fs' p \<noteq> content_at fs5 p" using saved [OF second(1)] p(3) by simp
          note effect = collect_objects_effect [OF q p(1) this]
          then obtain c where c: "c \<in> set (entry_objects entries)" "go_path c = p" "go_oid c \<notin> referenced" by auto
          then have "names_object cache p (go_oid c)" using entries entry_objects_in by blast
          moreover have "prune \<or> (\<forall>g \<in> set (rg_worktrees registry). root_available fs g)"
            using effect part by (auto simp: filter_empty_conv)
          moreover have "\<exists>paths. tracked_lfs_paths G g = Inr paths
              \<and> (\<forall>rel \<in> set paths. pointer_at fs (fs_path_join (wr_worktree_root g) rel) \<noteq> Some (go_oid c))"
            if "g \<in> set (rg_worktrees registry)" "root_available fs g" for g
            using ref part that c(3) by fastforce
          ultimately show ?thesis using effect load(1) unfolding gc_justified_def by blast
        qed
      qed
    qed
  qed
qed

end
