(* ===== verification/Cache_Dehydration.thy ===== *)
theory Cache_Dehydration
  imports Cache_Worktree
begin

text \<open>
  What dehydration guarantees (\<open>local_cache/dehydration.rs\<close>): no outcome, errors and a concurrent
  write included, leaves the worktree without the bytes it had unless the cache holds them, and a
  dehydrated file can be hydrated again.
\<close>

section \<open>Dehydration\<close>

text \<open>\<open>dehydrate_file_with_before_pointer_publish\<close>: another process may act just before the exchange.\<close>

definition dehydrate_file_with_before_pointer_publish ::
  "cache_env \<Rightarrow> local_cache_layout \<Rightarrow> lfs_object \<Rightarrow> path \<Rightarrow> (fs \<Rightarrow> fs) \<Rightarrow> local_cache_dehydration cache_call" where
  "dehydrate_file_with_before_pointer_publish E cache object worktree_path before_pointer_publish =
     dehydrate_file_with_read_observer E cache object worktree_path before_pointer_publish (\<lambda>fs. fs)"

definition outside_cache :: "local_cache_layout \<Rightarrow> path \<Rightarrow> bool" where
  "outside_cache cache w \<longleftrightarrow> w \<notin> object_area cache \<and> w \<notin> lock_area cache \<and> \<not> is_temp w"

lemma object_path_in_area: "oid_ok (obj_oid object) \<Longrightarrow> object_path cache object \<in> object_area cache"
  by (auto simp: object_area_def object_path_def)

lemma copy_worktree_Inr:
  assumes "copy_verified_worktree_object_to_cache E w (object_path cache object) object fs = (Inr u, fs')"
    and "cache_sound E cache fs" "oid_ok (obj_oid object)"
  shows "stores_object E fs' (object_path cache object) object"
proof -
  obtain n fs1 status where "open_worktree_file_without_following_symlinks E w ''failed to open hydrated worktree object'' fs = (Inr n, fs1)"
    and "copy_verified_file_to_cache E n w (object_path cache object) object
         ''failed to read hydrated worktree object'' Durable fs1 = (Inr status, fs')"
    using assms(1) by (auto simp: copy_verified_worktree_object_to_cache_def bind_sr_Inr)
  moreover have "fs1 = fs" using looksD [OF looks_open_worktree] calculation(1) by blast
  ultimately show ?thesis
    using copy_verified_file_to_cache_effect assms object_path_not_temp cache_sound_no_link
    by (fastforce simp: object_path_def)
qed

lemma secure_cached_copy_Inr:
  assumes run: "secure_cached_copy E cache object w (\<lambda>fs. fs) fs = (Inr status, fs')"
    and sound: "cache_sound E cache fs" and ok: "oid_ok (obj_oid object)"
  shows "stores_object E fs' (object_path cache object) object \<and> status \<noteq> AlreadyDehydrated"
proof -
  obtain found fs1 where e: "cache_object_path_exists E (object_path cache object) fs = (Inr found, fs1)"
    and rest: "(if found
         then bind_sr (verify_object E cache object) (\<lambda>_.
              bind_sr (sync_verified_cache_object E (object_path cache object)) (\<lambda>_. ret_sr ReplacedWithPointer))
         else bind_sr (hook_sr (\<lambda>fs. fs)) (\<lambda>_.
              bind_sr (copy_verified_worktree_object_to_cache E w (object_path cache object) object) (\<lambda>_.
                ret_sr CachedAndReplacedWithPointer))) fs1 = (Inr status, fs')"
    using run unfolding secure_cached_copy_def Let_def bind_sr_Inr by blast
  have same: "fs1 = fs" using looksD [OF looks_verify(3) e] .
  show ?thesis
  proof (cases found)
    case True
    then obtain v fs2 where v: "verify_object E cache object fs = (Inr v, fs2)" and s: "status = ReplacedWithPointer"
      "sync_verified_cache_object E (object_path cache object) fs2 = (Inr (), fs')"
      using rest same by (auto simp: bind_sr_Inr)
    then have "fs' = fs" using looksD [OF looks_sync(2)] looksD [OF looks_verify(6)] by metis
    then show ?thesis
      using verify_object_Inr [OF v] s(1) holds_stores [OF _ , of fs "object_path cache object"] cache_sound_no_link [OF sound ok]
      by (simp add: object_path_def)
  next
    case False
    then obtain u where "copy_verified_worktree_object_to_cache E w (object_path cache object) object fs = (Inr u, fs')"
      "status = CachedAndReplacedWithPointer"
      using rest same by (auto simp: bind_sr_Inr)
    then show ?thesis using copy_worktree_Inr sound ok by blast
  qed
qed

definition dehydration_safe ::
  "cache_env \<Rightarrow> local_cache_layout \<Rightarrow> lfs_object \<Rightarrow> path \<Rightarrow> fs_node option \<Rightarrow> fs_node option option
     \<Rightarrow> local_cache_dehydration cache_result \<Rightarrow> fs \<Rightarrow> bool" where
  "dehydration_safe E cache object w before edit r fs' \<longleftrightarrow>
     pointer_published E w object before (edited edit before) fs'
       \<and> stores_object E fs' (object_path cache object) object
     \<or> (\<exists>err. r = Inl err \<and> (content_at fs' w = before
           \<or> (edited edit before \<noteq> Some DirNode \<longrightarrow> content_at fs' w = edited edit before)
           \<or> (\<exists>t source. err = WorktreeReplacementRollback w t source \<and> is_temp t \<and> map_of fs' t = edited edit before)))"

lemma replace_with_pointer_effect:
  assumes run: "replace_with_pointer E cache object w h (\<lambda>fs. fs) fs = (r, fs')" and h: "interferes w edit h"
    and w: "outside_cache cache w" and sound: "cache_sound E cache fs" and ok: "oid_ok (obj_oid object)"
    and at: "map_of fs w = Some (FileNode bytes mode)"
  shows "dehydration_safe E cache object w (map_of fs w) edit r fs'"
  using run unfolding replace_with_pointer_def
proof (cases rule: bind_sr_cases)
  case (first e)
  have "w \<notin> {object_path cache object}" "\<not> is_temp w"
    using w object_path_in_area [OF ok] by (auto simp: outside_cache_def)
  from frameD [OF frame_secure_cached_copy first(1) this] have "content_at fs' w = content_at fs w" by simp
  then show ?thesis using first(2) at by (simp add: dehydration_safe_def content_of_map)
next
  case (second status fs1)
  have w1: "w \<notin> {object_path cache object}" "\<not> is_temp w"
    using w object_path_in_area [OF ok] by (auto simp: outside_cache_def)
  have same: "content_at fs1 w = content_at fs w"
    using frameD [OF frame_secure_cached_copy second(1) w1] by simp
  then have at1: "map_of fs1 w = map_of fs w"
    using at by (auto simp: content_at_def split: option.splits fs_node.splits)
  have stored: "stores_object E fs1 (object_path cache object) object"
    using secure_cached_copy_Inr [OF second(1) sound ok] by blast
  obtain r2 where pub: "publish_pointer_file E w object h (\<lambda>fs. fs) fs1 = (r2, fs')"
    and r: "\<And>err. r2 = Inl err \<Longrightarrow> r = Inl err"
    using second(2) by (auto simp: bind_sr_def split: prod.splits sum.splits)
  have "frame {w} (publish_pointer_file E w object h (\<lambda>fs. fs))"
    using h by (intro frame_publish_pointer_file) (auto simp: interferes_def)
  moreover have "object_path cache object \<notin> {w}" using w1 by simp
  moreover have "\<not> is_temp (object_path cache object)" using object_path_not_temp [OF ok] by (simp add: object_path_def)
  ultimately have "content_at fs' (object_path cache object) = content_at fs1 (object_path cache object)"
    using frameD pub by blast
  then have "stores_object E fs' (object_path cache object) object" using stored by (simp add: stores_object_def)
  moreover have "pointer_published E w object (map_of fs w) (edited edit (map_of fs w)) fs'
     \<or> (\<exists>err. r = Inl err \<and> (content_at fs' w = map_of fs w
           \<or> (edited edit (map_of fs w) \<noteq> Some DirNode \<longrightarrow> content_at fs' w = edited edit (map_of fs w))
           \<or> (\<exists>t source. err = WorktreeReplacementRollback w t source \<and> is_temp t \<and> map_of fs' t = edited edit (map_of fs w))))"
    using publish_pointer_file_effect [OF pub h w1(2)] r same at1 at
    by (auto simp: content_of_map)
  ultimately show ?thesis by (auto simp: dehydration_safe_def)
qed
text \<open>
  C5: Dehydrating a worktree file never loses content, whatever fails and whatever another process
  writes to the file just before it is exchanged: either the file that was displaced had exactly the
  object's bytes, the cache now stores them and the worktree holds the pointer with the former
  permissions, or the operation reports an error and the content in place before, or the other
  process's, is still there, at worst under the recovery path that the error names.
\<close>

theorem dehydration_keeps_content:
  assumes run: "dehydrate_file_with_before_pointer_publish E cache object w h fs = (r, fs')"
    and h: "interferes w edit h" and w: "outside_cache cache w"
    and sound: "cache_sound E cache fs" and ok: "oid_ok (obj_oid object)"
    and at: "map_of fs w = Some (FileNode bytes mode)"
  shows "dehydration_safe E cache object w (map_of fs w) edit r fs'
     \<or> r = Inr (dehydration_outcome cache object w AlreadyDehydrated) \<and> map_of fs' w = map_of fs w"
proof -
  define before where "before = map_of fs w"
  have unchanged: "dehydration_safe E cache object w before edit (Inl e) s" if "content_at s w = before" for e s
    using that by (simp add: dehydration_safe_def)
  have same: "content_at s w = before" if "map_of s w = before" for s
    using that at by (simp add: before_def content_of_map)
  have exact: "map_of s w = before" if "content_at s w = before" for s
    using that at by (auto simp: before_def content_at_def split: option.splits fs_node.splits)
  have off: "w \<notin> lock_area cache" "\<not> is_temp w" using w by (simp_all add: outside_cache_def)
  note l1 = frameD [OF frame_operation_locks(1) _ off] and l2 = frameD [OF frame_worktree_lock _ off]
  have "bind_sr (lock_cache_operation_shared E cache) (\<lambda>_.
     bind_sr (lock_worktree_path E cache w) (\<lambda>_.
     bind_sr (read_existing_lfs_pointer_file E w) (\<lambda>existing. case existing of
         None \<Rightarrow> replace_with_pointer E cache object w h (\<lambda>fs. fs)
       | Some pointer \<Rightarrow>
           if ptr_object pointer = object then ret_sr (dehydration_outcome cache object w AlreadyDehydrated)
           else bind_sr (hook_sr (\<lambda>fs. fs)) (\<lambda>_.
             try_sr (verify_worktree_file_object E w object) (\<lambda>_. replace_with_pointer E cache object w h (\<lambda>fs. fs))
               (\<lambda>_. lift_sr (Inl (PointerObjectMismatch w (obj_oid object) (obj_size object)
                  (obj_oid (ptr_object pointer)) (obj_size (ptr_object pointer))))))))) fs = (r, fs')"
    using run unfolding dehydrate_file_with_before_pointer_publish_def dehydrate_file_with_read_observer_def Let_def .
  then show ?thesis
  proof (cases rule: bind_sr_cases)
    case (first e)
    then show ?thesis using l1 [OF first(1)] same [of fs] unchanged by (simp add: before_def)
  next
    case (second u fs1)
    have c1: "content_at fs1 w = before" using l1 [OF second(1)] same [of fs] by (simp add: before_def)
    have s1: "cache_sound E cache fs1"
      using keeps_operation_lock(1) sound second(1) unfolding keeps_def by (metis snd_conv)
    from second(2) show ?thesis
    proof (cases rule: bind_sr_cases)
      case (first e)
      then show ?thesis using l2 [OF first(1)] c1 unchanged by (simp add: before_def)
    next
      case (second u fs2)
      have c2: "content_at fs2 w = before" using l2 [OF second(1)] c1 by simp
      have s2: "cache_sound E cache fs2"
        using keeps_operation_lock(4) s1 second(1) unfolding keeps_def by (metis snd_conv)
      note at2 = exact [OF c2]
      note replace = replace_with_pointer_effect [OF _ h w s2 ok, unfolded at2]
      from second(2) show ?thesis
      proof (cases rule: bind_sr_cases)
        case (first e)
        then show ?thesis using looksD [OF looks_pointer_reads(3) first(1)] c2 unchanged by (simp add: before_def)
      next
        case (second existing fs3)
        then have "fs3 = fs2" using looksD [OF looks_pointer_reads(3)] by blast
        then have rest: "(case existing of
         None \<Rightarrow> replace_with_pointer E cache object w h (\<lambda>fs. fs)
       | Some pointer \<Rightarrow>
           if ptr_object pointer = object then ret_sr (dehydration_outcome cache object w AlreadyDehydrated)
           else bind_sr (hook_sr (\<lambda>fs. fs)) (\<lambda>_.
             try_sr (verify_worktree_file_object E w object) (\<lambda>_. replace_with_pointer E cache object w h (\<lambda>fs. fs))
               (\<lambda>_. lift_sr (Inl (PointerObjectMismatch w (obj_oid object) (obj_size object)
                  (obj_oid (ptr_object pointer)) (obj_size (ptr_object pointer)))))))
          fs2 = (r, fs')" using second(2) by simp
        consider "replace_with_pointer E cache object w h (\<lambda>fs. fs) fs2 = (r, fs')"
          | "r = Inr (dehydration_outcome cache object w AlreadyDehydrated)" "fs' = fs2"
          | e where "r = Inl e" "fs' = fs2"
        proof (cases existing)
          case (Some pointer)
          show ?thesis
          proof (cases "ptr_object pointer = object")
            case False
            then have "try_sr (verify_worktree_file_object E w object) (\<lambda>_. replace_with_pointer E cache object w h (\<lambda>fs. fs))
               (\<lambda>_. lift_sr (Inl (PointerObjectMismatch w (obj_oid object) (obj_size object)
                  (obj_oid (ptr_object pointer)) (obj_size (ptr_object pointer))))) fs2 = (r, fs')"
              using rest Some by (simp add: bind_hook)
            then show ?thesis
            proof (cases rule: try_sr_cases)
              case (ok v s)
              then show ?thesis using looksD [OF looks_verify(2) ok(1)] that(1) by simp
            next
              case (err e s)
              then show ?thesis using looksD [OF looks_verify(2) err(1)] that(3) by auto
            qed
          qed (use rest Some that in simp)
        qed (use rest that in simp)
        then show ?thesis
        proof cases
          case 1
          then show ?thesis using replace at at2 by (simp add: before_def)
        next
          case 2
          then show ?thesis using at2 by (simp add: before_def)
        next
          case 3
          then show ?thesis using c2 unchanged by (simp add: before_def)
        qed
      qed
    qed
  qed
qed

section \<open>A small tree\<close>

definition sample_cache_env :: cache_env where
  "sample_cache_env = \<lparr>ce_sha = (\<lambda>_. EMPTY_SHA256_HEX), ce_fault = (\<lambda>_ _ _. None),
     ce_temp_suffix = (\<lambda>fs _. replicate (sum_list (map (\<lambda>(p, _). Suc (length (concat p))) fs)) CHR ''x''),
     ce_canonicalize = (\<lambda>_ _. None), ce_utf8_lossy = id\<rparr>"

definition sample_cache :: local_cache_layout where
  "sample_cache = \<lparr>cl_root = [''/'', ''c'']\<rparr>"

definition sample_cached_object :: lfs_object where
  "sample_cached_object = LfsObject (LfsOid EMPTY_SHA256_HEX) 7"

definition sample_worktree_file :: path where
  "sample_worktree_file = [''/'', ''w'', ''f'']"

definition sample_fs :: fs where
  "sample_fs = [([''/''], DirNode), ([''/'', ''w''], DirNode), (sample_worktree_file, FileNode ''abcdefg'' 420)]"

lemma sample_outside: "outside_cache sample_cache sample_worktree_file"
  by (auto simp: outside_cache_def object_area_def lock_area_def object_path_for_oid_def object_shards_def objects_dir_def
      cache_operation_lock_path_def worktree_registry_lock_path_def sample_cache_def sample_worktree_file_def is_temp_def
      TEMP_PREFIX_def)

lemma sample_sound: "cache_sound sample_cache_env sample_cache sample_fs"
  by (simp add: cache_sound_def content_at_def sample_fs_def sample_worktree_file_def object_path_for_oid_def
      object_shards_def objects_dir_def sample_cache_def)

lemma dehydration_keeps_content_witness:
  "\<exists>r fs'. dehydrate_file_with_before_pointer_publish sample_cache_env sample_cache sample_cached_object
       sample_worktree_file (fs_put sample_worktree_file (FileNode ''edit'' 420)) sample_fs = (r, fs')
     \<and> (dehydration_safe sample_cache_env sample_cache sample_cached_object sample_worktree_file
          (Some (FileNode ''abcdefg'' 420)) (Some (Some (FileNode ''edit'' 420))) r fs'
        \<or> r = Inr (dehydration_outcome sample_cache sample_cached_object sample_worktree_file AlreadyDehydrated))"
proof -
  obtain r fs' where run: "dehydrate_file_with_before_pointer_publish sample_cache_env sample_cache sample_cached_object
       sample_worktree_file (fs_put sample_worktree_file (FileNode ''edit'' 420)) sample_fs = (r, fs')" by fastforce
  have "interferes sample_worktree_file (Some (Some (FileNode ''edit'' 420))) (fs_put sample_worktree_file (FileNode ''edit'' 420))"
    by (simp add: interferes_def edits_def)
  moreover have "oid_ok (obj_oid sample_cached_object)" by (simp add: sample_cached_object_def empty_oid_ok)
  moreover have at: "map_of sample_fs sample_worktree_file = Some (FileNode ''abcdefg'' 420)"
    by (simp add: sample_fs_def sample_worktree_file_def)
  ultimately show ?thesis
    using dehydration_keeps_content [OF run _ sample_outside sample_sound] run unfolding at by blast
qed

end
