(* ===== verification/Registry_Laws.thy ===== *)
theory Registry_Laws
  imports Cache_Registry Cache_Dehydration
begin

text \<open>
  What the collector reads from Git and from the registry file: the attribute report, the registry as
  a map from canonical worktree roots, and the file as a faithful copy of the registry.
\<close>

section \<open>Git's attribute output\<close>

text \<open>A well-formed report: one NUL-terminated path, attribute and value for every queried path.\<close>

fun attribute_report :: "(string \<times> string \<times> string) list \<Rightarrow> string" where
  "attribute_report [] = []"
| "attribute_report ((p, attribute, value) # triples) =
     p @ [CHR 0x00] @ attribute @ [CHR 0x00] @ value @ [CHR 0x00] @ attribute_report triples"

definition reports_lfs :: "string \<times> string \<times> string \<Rightarrow> bool" where
  "reports_lfs triple \<longleftrightarrow> snd triple = (''filter'', ''lfs'')"

definition nul_free :: "string \<times> string \<times> string \<Rightarrow> bool" where
  "nul_free triple \<longleftrightarrow> fst triple \<noteq> [] \<and> CHR 0x00 \<notin> set (fst triple) \<and> CHR 0x00 \<notin> set (fst (snd triple))
     \<and> CHR 0x00 \<notin> set (snd (snd triple))"

lemma parse_attribute_fields_report:
  assumes "\<forall>t \<in> set triples. nul_free t"
  shows "parse_attribute_fields (split_on (CHR 0x00) (attribute_report triples)) =
    traverse_res safe_git_relative_path (map fst (filter reports_lfs triples))"
  using assms
proof (induction triples rule: attribute_report.induct)
  case (2 p attribute v triples)
  then show ?case
    by (auto simp: split_on_append nul_free_def reports_lfs_def split: sum.splits)
qed simp

lemma segment_components_normal:
  "list_all is_normal_component (segment_components first segments) \<Longrightarrow> x \<in> set (segment_components first segments) \<Longrightarrow>
     \<exists>s \<in> set segments. x = NormalComponent s \<and> s \<noteq> [] \<and> s \<noteq> ''.'' \<and> s \<noteq> ''..''"
  by (induction first segments rule: segment_components.induct) (auto split: if_splits)

lemma safe_git_relative_path_contained:
  assumes "safe_git_relative_path bytes = Inr p"
  shows "p \<noteq> [] \<and> \<not> fs_path_is_absolute p \<and> (\<forall>c \<in> set p. c \<noteq> ''..'' \<and> c \<noteq> ''.'' \<and> c \<noteq> [] \<and> CHR ''/'' \<notin> set c)"
proof -
  let ?cs = "segment_components True (split_on CHR ''/'' bytes)"
  have cs: "path_components bytes = ?cs" "?cs \<noteq> []" "list_all is_normal_component ?cs" "p = map component_text ?cs"
    using assms by (auto simp: safe_git_relative_path_def path_components_def path_of_bytes_def split: if_splits)
  have inside: "c \<noteq> ''..'' \<and> c \<noteq> ''.'' \<and> c \<noteq> [] \<and> CHR ''/'' \<notin> set c" if c: "c \<in> set p" for c
  proof -
    obtain x where "x \<in> set ?cs" "c = component_text x" using c cs(4) by auto
    then show ?thesis using segment_components_normal [OF cs(3)] split_on_sep_free by fastforce
  qed
  moreover have "p \<noteq> []" using cs by simp
  ultimately show ?thesis by (cases p) (fastforce simp: fs_path_is_absolute_def)+
qed


lemma traverse_res_from: "traverse_res f xs = Inr ys \<Longrightarrow> y \<in> set ys \<Longrightarrow> \<exists>x \<in> set xs. f x = Inr y"
  by (induction xs arbitrary: ys) auto



section \<open>A store with one entry per key\<close>

text \<open>What the registry promises its callers, whatever holds it.\<close>

locale keyed_store =
  fixes ok :: "'s \<Rightarrow> bool"
    and key :: "'r \<Rightarrow> 'k"
    and look :: "'s \<Rightarrow> 'k \<Rightarrow> 'v option"
    and put :: "'r \<Rightarrow> 'v \<Rightarrow> 's \<Rightarrow> 's"
    and forget :: "'r \<Rightarrow> 's \<Rightarrow> 's"
    and valid :: "'r \<Rightarrow> 'v \<Rightarrow> bool"
  assumes put_ok: "ok s \<Longrightarrow> valid r v \<Longrightarrow> ok (put r v s)"
    and forget_ok: "ok s \<Longrightarrow> ok (forget r s)"
    and look_put: "ok s \<Longrightarrow> valid r v \<Longrightarrow> look (put r v s) = (look s)(key r \<mapsto> v)"
    and look_forget: "ok s \<Longrightarrow> look (forget r s) = (look s)(key r := None)"
begin

primrec apply_change :: "'r \<times> 'v option \<Rightarrow> 's \<Rightarrow> 's" where
  "apply_change (r, change) = (case change of Some v \<Rightarrow> put r v | None \<Rightarrow> forget r)"

text \<open>Any sequence of changes is the same sequence of updates of a map.\<close>

lemma changes_refine:
  assumes "ok s" "\<forall>(r, change) \<in> set changes. \<forall>v. change = Some v \<longrightarrow> valid r v"
  shows "ok (fold apply_change changes s) \<and>
    look (fold apply_change changes s) = fold (\<lambda>(r, change) m. m(key r := change)) changes (look s)"
  using assms
proof (induction changes arbitrary: s)
  case (Cons c changes)
  obtain r change where c: "c = (r, change)" by (cases c)
  have "ok (apply_change c s) \<and> look (apply_change c s) = (look s)(key r := change)"
    using Cons.prems c by (cases change) (auto simp: put_ok forget_ok look_put look_forget)
  then show ?case using Cons.IH [of "apply_change c s"] Cons.prems c by simp
qed simp

end

section \<open>The registry as a map from roots\<close>

definition registry_keys :: "cache_env \<Rightarrow> fs \<Rightarrow> worktree_registry \<Rightarrow> path list" where
  "registry_keys E fs registry = map (root_key E fs) (rg_worktrees registry)"

definition registry_ok :: "cache_env \<Rightarrow> fs \<Rightarrow> worktree_registry \<Rightarrow> bool" where
  "registry_ok E fs registry \<longleftrightarrow> distinct (registry_keys E fs registry)"

definition registry_look :: "cache_env \<Rightarrow> fs \<Rightarrow> worktree_registry \<Rightarrow> path \<rightharpoonup> worktree_registration" where
  "registry_look E fs registry = map_of (map (\<lambda>g. (root_key E fs g, g)) (rg_worktrees registry))"

lemma registry_look_Some:
  assumes "registry_ok E fs registry"
  shows "registry_look E fs registry k = Some g \<longleftrightarrow> g \<in> set (rg_worktrees registry) \<and> root_key E fs g = k"
proof -
  have "distinct (map fst (map (\<lambda>g. (root_key E fs g, g)) (rg_worktrees registry)))"
    using assms by (simp add: registry_ok_def registry_keys_def comp_def)
  from map_of_eq_Some_iff [OF this] show ?thesis by (auto simp: registry_look_def)
qed

lemma registry_look_eqI:
  assumes "registry_ok E fs a" "\<And>k g. m k = Some g \<longleftrightarrow> g \<in> set (rg_worktrees a) \<and> root_key E fs g = k"
  shows "registry_look E fs a = m"
proof
  fix k
  show "registry_look E fs a k = m k"
    using registry_look_Some [OF assms(1), of k] assms(2) [of k] by (cases "m k") (auto, metis not_Some_eq)
qed


lemma root_key_sort [simp]: "set (rg_worktrees (sort_worktrees E fs registry)) = set (rg_worktrees registry)"
  "registry_ok E fs (sort_worktrees E fs registry) = registry_ok E fs registry"
proof -
  show "set (rg_worktrees (sort_worktrees E fs registry)) = set (rg_worktrees registry)"
    by (simp add: sort_worktrees_def)
  show "registry_ok E fs (sort_worktrees E fs registry) = registry_ok E fs registry"
    by (simp add: registry_ok_def registry_keys_def sort_worktrees_def distinct_map)
qed

lemma registry_others:
  assumes ok: "registry_ok E fs registry" and i: "i < length (rg_worktrees registry)" "root_key E fs (rg_worktrees registry ! i) = k"
  shows "h \<in> set (take i (rg_worktrees registry)) \<or> h \<in> set (drop (Suc i) (rg_worktrees registry))
     \<longleftrightarrow> h \<in> set (rg_worktrees registry) \<and> root_key E fs h \<noteq> k"
proof -
  let ?ws = "rg_worktrees registry"
  have ws: "?ws = take i ?ws @ ?ws ! i # drop (Suc i) ?ws" using i(1) by (rule id_take_nth_drop)
  have dist: "distinct (map (root_key E fs) (take i ?ws @ ?ws ! i # drop (Suc i) ?ws))"
    using ok ws by (simp add: registry_ok_def registry_keys_def)
  have "h \<in> set ?ws \<longleftrightarrow> h \<in> set (take i ?ws) \<or> h = ?ws ! i \<or> h \<in> set (drop (Suc i) ?ws)"
    by (subst ws) auto
  then show ?thesis using dist i(2) by (auto simp: image_iff)
qed

text \<open>Replacing the one entry whose key is given, or adding it.\<close>

lemma registry_update:
  assumes ok: "registry_ok E fs registry" and i: "i < length (rg_worktrees registry)"
    and key: "root_key E fs (rg_worktrees registry ! i) = root_key E fs g"
  defines "updated \<equiv> registry\<lparr>rg_worktrees := (rg_worktrees registry)[i := g]\<rparr>"
  shows "registry_ok E fs updated" "registry_look E fs updated = (registry_look E fs registry)(root_key E fs g \<mapsto> g)"
proof -
  have keys: "registry_keys E fs updated = registry_keys E fs registry"
    using list_update_id [of "map (root_key E fs) (rg_worktrees registry)" i] i
    by (simp add: updated_def registry_keys_def map_update flip: key)
  then show ok': "registry_ok E fs updated" using ok by (simp add: registry_ok_def)
  have "set (rg_worktrees updated) = insert g (set (take i (rg_worktrees registry)) \<union> set (drop (Suc i) (rg_worktrees registry)))"
    using i by (simp add: updated_def upd_conv_take_nth_drop)
  then have mem: "h \<in> set (rg_worktrees updated) \<longleftrightarrow> h = g \<or> h \<in> set (rg_worktrees registry) \<and> root_key E fs h \<noteq> root_key E fs g" for h
    using registry_others [OF ok i key] by auto
  show "registry_look E fs updated = (registry_look E fs registry)(root_key E fs g \<mapsto> g)"
    by (rule registry_look_eqI [OF ok']) (use registry_look_Some [OF ok] in \<open>auto simp: mem\<close>)
qed

lemma registry_add:
  assumes ok: "registry_ok E fs registry" and new: "\<forall>h \<in> set (rg_worktrees registry). root_key E fs h \<noteq> root_key E fs g"
  defines "added \<equiv> registry\<lparr>rg_worktrees := rg_worktrees registry @ [g]\<rparr>"
  shows "registry_ok E fs added" "registry_look E fs added = (registry_look E fs registry)(root_key E fs g \<mapsto> g)"
proof -
  show ok': "registry_ok E fs added" using ok new by (auto simp: added_def registry_ok_def registry_keys_def)
  show "registry_look E fs added = (registry_look E fs registry)(root_key E fs g \<mapsto> g)"
    by (rule registry_look_eqI [OF ok']) (use registry_look_Some [OF ok] new in \<open>auto simp: added_def\<close>)
qed

lemma registry_look_sort: "registry_ok E fs registry \<Longrightarrow> registry_look E fs (sort_worktrees E fs registry) = registry_look E fs registry"
  by (rule registry_look_eqI) (simp_all add: registry_look_Some)

lemma upsert_refines:
  assumes ok: "registry_ok E fs registry" and run: "upsert E fs g registry = (status, registry')"
  shows "registry_ok E fs registry'" "registry_look E fs registry' = (registry_look E fs registry)(root_key E fs g \<mapsto> g)"
    "status = (case registry_look E fs registry (root_key E fs g) of None \<Rightarrow> RegistrationAdded
       | Some old \<Rightarrow> if old = g then RegistrationUnchanged else RegistrationUpdated)"
proof -
  let ?P = "\<lambda>h. root_key E fs h = root_key E fs g"
  have "registry_ok E fs registry' \<and> registry_look E fs registry' = (registry_look E fs registry)(root_key E fs g \<mapsto> g)
    \<and> status = (case registry_look E fs registry (root_key E fs g) of None \<Rightarrow> RegistrationAdded
       | Some old \<Rightarrow> if old = g then RegistrationUnchanged else RegistrationUpdated)"
  proof (cases "position ?P (rg_worktrees registry)")
    case None
    then have new: "\<forall>h \<in> set (rg_worktrees registry). \<not> ?P h" by (simp add: list_all_iff)
    then have "registry_look E fs registry (root_key E fs g) = None"
      using registry_look_Some [OF ok, of "root_key E fs g"] by (cases "registry_look E fs registry (root_key E fs g)") auto
    then show ?thesis
      using run None registry_add [OF ok new] by (auto simp: upsert_def registry_look_sort)
  next
    case (Some i)
    have i: "i < length (rg_worktrees registry)" "?P (rg_worktrees registry ! i)" using position_Some [OF Some] by simp_all
    then have old: "registry_look E fs registry (root_key E fs g) = Some (rg_worktrees registry ! i)"
      by (simp add: registry_look_Some [OF ok])
    show ?thesis
    proof (cases "rg_worktrees registry ! i = g")
      case True
      then show ?thesis using run Some old ok by (auto simp: upsert_def)
    next
      case False
      then show ?thesis
        using run Some old registry_update [OF ok i] by (auto simp: upsert_def registry_look_sort)
    qed
  qed
  then show "registry_ok E fs registry'" "registry_look E fs registry' = (registry_look E fs registry)(root_key E fs g \<mapsto> g)"
    "status = (case registry_look E fs registry (root_key E fs g) of None \<Rightarrow> RegistrationAdded
       | Some old \<Rightarrow> if old = g then RegistrationUnchanged else RegistrationUpdated)" by blast+
qed

lemma remove_refines:
  assumes ok: "registry_ok E fs registry" and run: "remove_worktree E fs root registry = (removed, registry')"
  shows "registry_ok E fs registry'"
    "registry_look E fs registry' = (registry_look E fs registry)(normalized_path_key E fs root := None)"
    "removed = registry_look E fs registry (normalized_path_key E fs root)"
proof -
  let ?k = "normalized_path_key E fs root" and ?ws = "rg_worktrees registry"
  have "registry_ok E fs registry' \<and> registry_look E fs registry' = (registry_look E fs registry)(?k := None)
     \<and> removed = registry_look E fs registry ?k"
  proof (cases "position (\<lambda>h. root_key E fs h = ?k) ?ws")
    case None
    then have "registry_look E fs registry ?k = None"
      using registry_look_Some [OF ok, of ?k] by (cases "registry_look E fs registry ?k") (auto simp: list_all_iff)
    then show ?thesis using run None ok by (auto simp: remove_worktree_def)
  next
    case (Some i)
    have i: "i < length ?ws" "root_key E fs (?ws ! i) = ?k" using position_Some [OF Some] by simp_all
    have ws: "?ws = take i ?ws @ ?ws ! i # drop (Suc i) ?ws" using i(1) by (rule id_take_nth_drop)
    have r: "removed = Some (?ws ! i)" "registry' = registry\<lparr>rg_worktrees := take i ?ws @ drop (Suc i) ?ws\<rparr>"
      using run Some by (auto simp: remove_worktree_def)
    have dist: "distinct (map (root_key E fs) (take i ?ws @ ?ws ! i # drop (Suc i) ?ws))"
      using ok ws by (simp add: registry_ok_def registry_keys_def)
    then have ok': "registry_ok E fs registry'" by (simp add: r registry_ok_def registry_keys_def)
    have "h \<in> set (rg_worktrees registry') \<longleftrightarrow> h \<in> set ?ws \<and> root_key E fs h \<noteq> ?k" for h
      using registry_others [OF ok i] by (simp add: r)
    then have "registry_look E fs registry' = (registry_look E fs registry)(?k := None)"
      by (intro registry_look_eqI [OF ok']) (auto simp: registry_look_Some [OF ok])
    moreover have "removed = registry_look E fs registry ?k"
      using registry_look_Some [OF ok, of ?k "?ws ! i"] r i by simp
    ultimately show ?thesis using ok' by blast
  qed
  then show "registry_ok E fs registry'"
    "registry_look E fs registry' = (registry_look E fs registry)(normalized_path_key E fs root := None)"
    "removed = registry_look E fs registry (normalized_path_key E fs root)" by blast+
qed


interpretation registered: keyed_store "registry_ok E fs" "normalized_path_key E fs" "registry_look E fs"
    "\<lambda>_ g registry. snd (upsert E fs g registry)" "\<lambda>root registry. snd (remove_worktree E fs root registry)"
    "\<lambda>root g. wr_worktree_root g = root"
  for E fs
proof unfold_locales
  fix registry root and g :: worktree_registration
  assume ok: "registry_ok E fs registry"
  note up = upsert_refines [OF ok surjective_pairing] and down = remove_refines [OF ok surjective_pairing]
  show "registry_ok E fs (snd (remove_worktree E fs root registry))"
    "registry_look E fs (snd (remove_worktree E fs root registry)) =
       (registry_look E fs registry)(normalized_path_key E fs root := None)"
    using down by blast+
  assume "wr_worktree_root g = root"
  then show "registry_ok E fs (snd (upsert E fs g registry))"
    "registry_look E fs (snd (upsert E fs g registry)) = (registry_look E fs registry)(normalized_path_key E fs root \<mapsto> g)"
    using up by (auto simp: root_key_def)
qed

datatype registry_change = Register worktree_registration | Unregister path

fun change_registry :: "cache_env \<Rightarrow> fs \<Rightarrow> registry_change \<Rightarrow> worktree_registry \<Rightarrow> worktree_registry" where
  "change_registry E fs (Register g) registry = snd (upsert E fs g registry)"
| "change_registry E fs (Unregister root) registry = snd (remove_worktree E fs root registry)"

fun change_key :: "cache_env \<Rightarrow> fs \<Rightarrow> registry_change \<Rightarrow> path" where
  "change_key E fs (Register g) = root_key E fs g"
| "change_key E fs (Unregister root) = normalized_path_key E fs root"

fun change_entry :: "registry_change \<Rightarrow> worktree_registration option" where
  "change_entry (Register g) = Some g"
| "change_entry (Unregister _) = None"

fun change_root :: "registry_change \<Rightarrow> path" where
  "change_root (Register g) = wr_worktree_root g"
| "change_root (Unregister root) = root"

lemma fold_changes_refine:
  assumes "registry_ok E fs registry"
  shows "registry_ok E fs (fold (change_registry E fs) changes registry)
   \<and> registry_look E fs (fold (change_registry E fs) changes registry) =
       fold (\<lambda>c m. m(change_key E fs c := change_entry c)) changes (registry_look E fs registry)"
proof -
  let ?cs = "map (\<lambda>c. (change_root c, change_entry c)) changes"
  have one: "change_registry E fs c = registered.apply_change E fs (change_root c, change_entry c)"
    "normalized_path_key E fs (change_root c) = change_key E fs c" for c
    by (cases c; simp add: fun_eq_iff root_key_def)+
  have "\<forall>(r, change) \<in> set ?cs. \<forall>v. change = Some v \<longrightarrow> wr_worktree_root v = r"
    by (auto elim!: change_entry.elims)
  from registered.changes_refine [OF assms this] show ?thesis
    by (simp only: fold_map comp_def one [symmetric] prod.case)
qed



section \<open>The registry file is the registry\<close>

text \<open>
  \<open>serde_json\<close> prints what it reads back, also with a line feed after it, and the Base64 alphabet is
  decoded to what was encoded.
\<close>

definition codec_ok :: "registry_codec \<Rightarrow> bool" where
  "codec_ok C \<longleftrightarrow> (\<forall>bytes. b64_decode (rc_base64 C) (b64_encode (rc_base64 C) bytes) = Some bytes)
     \<and> (\<forall>v text. rc_print C v = Inr text \<longrightarrow> rc_parse C (text @ [LF]) = Inr v)"

text \<open>A path that is written the way \<open>Path::components\<close> reads it.\<close>

definition plain_path :: "path \<Rightarrow> bool" where
  "plain_path p \<longleftrightarrow> path_of_bytes (path_display p) = p"

definition plain_registration :: "worktree_registration \<Rightarrow> bool" where
  "plain_registration g \<longleftrightarrow> plain_path (wr_worktree_root g) \<and> plain_path (wr_git_dir g)"

lemma registration_round_trip:
  assumes "codec_ok C" "plain_registration g"
  shows "deserialize_registration C (serialize_registration C g) = Inr g"
  using assms
  by (simp add: deserialize_registration_def serialize_registration_def deserialize_worktree_registry_path_def
      serialize_worktree_registry_path_def decode_worktree_registry_path_def codec_ok_def plain_registration_def plain_path_def)

lemma registry_json_round_trip:
  assumes "codec_ok C" "\<forall>g \<in> set (rg_worktrees registry). plain_registration g" "registry_to_json C registry = Inr text"
  shows "registry_from_json C (text @ [LF]) = Inr registry"
proof -
  have "traverse_res (deserialize_registration C) (map (serialize_registration C) gs) = Inr gs"
    if "\<forall>g \<in> set gs. plain_registration g" for gs
    using that by (induction gs) (simp_all add: registration_round_trip [OF assms(1)])
  moreover have "rc_parse C (text @ [LF]) = Inr (rg_version registry, map (serialize_registration C) (rg_worktrees registry))"
    using assms(1,3) by (simp add: codec_ok_def registry_to_json_def)
  ultimately show ?thesis using assms(2) by (simp add: registry_from_json_def)
qed

lemma write_registry_file_Inr:
  assumes "write_registry_file E C p t registry fs = (Inr (), fs')" "map_of fs t = Some (FileNode [] m)" "t \<noteq> p"
  shows "\<exists>text. registry_to_json C registry = Inr text \<and> map_of fs' p = Some (FileNode (text @ [LF]) m)"
  using assms
  by (auto simp: write_registry_file_def sr_Inr fs_append_def fs_rename_def split: option.splits fs_node.splits if_splits)

lemma save_worktree_registry_Inr:
  assumes "save_worktree_registry E C cache registry fs = (Inr (), fs')"
  shows "\<exists>text m. registry_to_json C registry = Inr text
    \<and> map_of fs' (worktree_registry_path cache) = Some (FileNode (text @ [LF]) m)"
proof -
  let ?p = "worktree_registry_path cache"
  have not_temp: "\<not> is_temp ?p" by (simp add: is_temp_def worktree_registry_path_def TEMP_PREFIX_def LOCAL_CACHE_WORKTREES_FILE_def)
  obtain parent fs1 t fs2 fs3 where t: "io_step E ''failed to create temporary local cache worktree registry'' parent
      (fs_create_temp E parent) fs1 = (Inr t, fs2)"
    and w: "write_registry_file E C ?p t registry fs2 = (Inr (), fs3)" and fs': "fs' = fs_delete t fs3"
    using assms unfolding save_worktree_registry_def Let_def sync_directory_def by (auto simp: sr_Inr)
  then have "is_temp t" "map_of fs2 t = Some (FileNode [] 384)"
    using temp_is_temp by (auto simp: io_step_Inr fs_create_temp_Inr)
  moreover from this(1) have "t \<noteq> ?p" using not_temp by auto
  ultimately show ?thesis using write_registry_file_Inr [OF w] fs' by fastforce
qed

text \<open>
  C26: A registry that was saved successfully is the registry that the next load returns, byte paths
  included, as long as reading the file does not fail and its roots are still distinct under the
  canonicalisation of the moment: the collector sees every worktree that was registered.
\<close>

theorem saved_registry_reloads:
  assumes save: "save_worktree_registry E C cache registry fs = (Inr (), fs')"
    and codec: "codec_ok C" and plain: "\<forall>g \<in> set (rg_worktrees registry). plain_registration g"
    and reads: "\<forall>context. ce_fault E fs' context (worktree_registry_path cache) = None"
    and valid: "validate_for_path E fs' (worktree_registry_path cache) registry = Inr ()"
    and current: "rg_version registry = WORKTREE_REGISTRY_VERSION"
  shows "load_worktree_registry E C cache fs' = (Inr registry, fs')"
proof -
  obtain json m where printed: "registry_to_json C registry = Inr json"
    and at: "map_of fs' (worktree_registry_path cache) = Some (FileNode (json @ [LF]) m)"
    using save_worktree_registry_Inr [OF save] by blast
  have "fs_metadata (worktree_registry_path cache) fs' = (Inr (FileNode (json @ [LF]) m), fs')"
    using at by (simp add: fs_metadata_def SYMLINK_LIMIT_def eval_nat_numeral)
  moreover have "registry\<lparr>rg_version := WORKTREE_REGISTRY_VERSION\<rparr> = registry" using current by simp
  ultimately show ?thesis
    using reads registry_json_round_trip [OF codec plain printed] valid
    by (simp add: load_worktree_registry_def Let_def try_sr_def io_raw_def read_handle_def)
qed


definition sample_registry :: worktree_registry where
  "sample_registry = \<lparr>rg_version = 2, rg_worktrees =
     [\<lparr>wr_repository_id = ''r'', wr_worktree_root = [''/'', ''w''], wr_git_dir = [''/'', ''w'', ''.git'']\<rparr>]\<rparr>"

definition sample_registry_codec :: registry_codec where
  "sample_registry_codec = (let base64 = \<lparr>b64_encode = id, b64_decode = Some\<rparr>;
       serialized = (2, [\<lparr>sz_repository_id = ''r'', sz_worktree_root = EncodedPath ''unix_bytes_base64'' ''/w'',
         sz_git_dir = EncodedPath ''unix_bytes_base64'' ''/w/.git''\<rparr>]) in
     \<lparr>rc_base64 = base64, rc_print = (\<lambda>v. if v = serialized then Inr ''{}'' else Inl ''unknown''),
      rc_parse = (\<lambda>_. Inr serialized)\<rparr>)"

lemma saved_registry_reloads_witness:
  "fst (load_worktree_registry sample_cache_env sample_registry_codec sample_cache
     (snd (save_worktree_registry sample_cache_env sample_registry_codec sample_cache sample_registry sample_fs)))
   = Inr sample_registry"
proof -
  let ?fs = "snd (save_worktree_registry sample_cache_env sample_registry_codec sample_cache sample_registry sample_fs)"
  have "fst (save_worktree_registry sample_cache_env sample_registry_codec sample_cache sample_registry sample_fs) = Inr ()"
    by code_simp
  then have save: "save_worktree_registry sample_cache_env sample_registry_codec sample_cache sample_registry sample_fs = (Inr (), ?fs)"
    by (metis prod.collapse)
  have "codec_ok sample_registry_codec"
    by (auto simp: codec_ok_def sample_registry_codec_def Let_def split: if_splits)
  moreover have "\<forall>g \<in> set (rg_worktrees sample_registry). plain_registration g"
    unfolding plain_registration_def plain_path_def sample_registry_def by code_simp
  moreover have "ce_fault sample_cache_env ?fs step (worktree_registry_path sample_cache) = None" for step
    by (simp add: sample_cache_env_def)
  moreover have "validate_for_path sample_cache_env ?fs (worktree_registry_path sample_cache) sample_registry = Inr ()"
    by code_simp
  moreover have "rg_version sample_registry = WORKTREE_REGISTRY_VERSION"
    by (simp add: sample_registry_def WORKTREE_REGISTRY_VERSION_def)
  ultimately show ?thesis using saved_registry_reloads [OF save] by simp
qed

end
