(* ===== verification/Cache_Claims.thy ===== *)
theory Cache_Claims
  imports Cache_Gc Registry_Laws
begin

text \<open>
  The properties of the local cache as a whole: what a collection may remove, and that every
  operation keeps each object file equal to the bytes its name stands for.
\<close>

section \<open>Collection\<close>

lemma garbage_collect_effect:
  assumes run: "garbage_collect E G C cache dry_run prune fs = (r, fs')"
    and p: "\<not> is_temp p" "p \<notin> lock_area cache" "p \<noteq> worktree_registry_path cache"
    and changed: "content_at fs' p \<noteq> content_at fs p"
  shows "\<not> dry_run \<and> content_at fs' p = None \<and> gc_justified E G C cache prune (gc_snapshot E cache fs) p"
proof -
  let ?locks = "bind_sr (lock_cache_operation_exclusive E cache) (\<lambda>_. lock_worktree_registry E cache)"
  have split: "garbage_collect E G C cache dry_run prune fs = bind_sr ?locks (\<lambda>_. collect_snapshot E G C cache dry_run prune) fs"
    by (simp add: garbage_collect_def collect_snapshot_def bind_sr_def split: prod.splits sum.splits)
  have locks: "content_at s p = content_at fs p" if "?locks fs = (q, s)" for q s
    using frameD [of "lock_area cache" ?locks] that p(1,2) by (auto intro!: frame_intros)
  from run[unfolded split] show ?thesis
  proof (cases rule: bind_sr_cases)
    case (first e)
    then show ?thesis using locks changed by metis
  next
    case (second u fs1)
    then have "gc_snapshot E cache fs = fs1" by (simp add: gc_snapshot_def)
    then show ?thesis
      using collect_snapshot_effect [OF second(2) p(1,3)] locks [OF second(1)] changed by metis
  qed
qed


text \<open>A registered worktree whose tracked file is hydrated with other bytes, and one cached object.\<close>

definition sample_registration :: worktree_registration where
  "sample_registration = \<lparr>wr_repository_id = ''r'', wr_worktree_root = [''/'', ''w''], wr_git_dir = [''/'', ''w'', ''.git'']\<rparr>"

definition sample_git :: git_env where
  "sample_git = \<lparr>ge_ls_files = (\<lambda>_. Inr (\<lparr>gs_success = True, gs_display = []\<rparr>, ''f'' @ [CHR 0x00])),
     ge_spawn_check_attr = (\<lambda>_. None),
     ge_check_attr = (\<lambda>_ _. Inr (\<lparr>gs_success = True, gs_display = []\<rparr>,
        ''f'' @ [CHR 0x00] @ ''filter'' @ [CHR 0x00] @ ''lfs'' @ [CHR 0x00])),
     ge_write_input = (\<lambda>_ _. InputWritten)\<rparr>"

definition sample_codec :: registry_codec where
  "sample_codec = \<lparr>rc_base64 = \<lparr>b64_encode = id, b64_decode = Some\<rparr>, rc_print = (\<lambda>_. Inr []),
     rc_parse = (\<lambda>_. Inr (2, [\<lparr>sz_repository_id = ''r'', sz_worktree_root = LegacyPath ''/w'',
        sz_git_dir = LegacyPath ''/w/.git''\<rparr>]))\<rparr>"

definition sample_object_file :: path where
  "sample_object_file = [''/'', ''c'', ''objects'', ''e3'', ''b0'', EMPTY_SHA256_HEX]"

definition sample_cache_fs :: fs where
  "sample_cache_fs = [([''/''], DirNode), ([''/'', ''c''], DirNode), ([''/'', ''c'', ''objects''], DirNode),
     ([''/'', ''c'', ''worktrees.json''], FileNode ''{}'' 384),
     ([''/'', ''c'', ''objects'', ''e3''], DirNode), ([''/'', ''c'', ''objects'', ''e3'', ''b0''], DirNode),
     (sample_object_file, FileNode ''abcdefg'' 384),
     ([''/'', ''w''], DirNode), (sample_worktree_file, FileNode ''abc'' 420)]"

lemma sample_collected:
  "content_at (snd (garbage_collect sample_cache_env sample_git sample_codec sample_cache False False sample_cache_fs))
     sample_object_file = None"
  by code_simp


section \<open>The cache as a state machine\<close>

text \<open>
  One step per operation of the cache, each at any point, with any outcome, on any object whose
  identifier \<open>LfsOid::new\<close> accepts, plus the edits other processes make to the worktrees. Operations
  on worktree files take paths outside the cache's own files.
\<close>

datatype cache_event = Ingested | Materialized | Hydrated | Dehydrated | Registered | Unregistered | Collected | WorktreeEdited

inductive cache_step ::
  "cache_env \<Rightarrow> git_env \<Rightarrow> registry_codec \<Rightarrow> local_cache_layout \<Rightarrow> cache_event \<Rightarrow> fs \<Rightarrow> fs \<Rightarrow> bool"
  for E G C cache where
  ingested: "oid_ok (obj_oid object) \<Longrightarrow> ingest_git_lfs_object E cache objects object fs = (r, fs')
     \<Longrightarrow> cache_step E G C cache Ingested fs fs'"
| materialized: "outside_cache cache d \<Longrightarrow> materialize_object E cache object d fs = (r, fs')
     \<Longrightarrow> cache_step E G C cache Materialized fs fs'"
| hydrated: "outside_cache cache w \<Longrightarrow> edits {w} h \<Longrightarrow> hydrate_pointer_file E cache w h fs = (r, fs')
     \<Longrightarrow> cache_step E G C cache Hydrated fs fs'"
| dehydrated: "outside_cache cache w \<Longrightarrow> edits {w} h \<Longrightarrow> edits {w} k \<Longrightarrow> oid_ok (obj_oid object)
     \<Longrightarrow> dehydrate_file_with_read_observer E cache object w h k fs = (r, fs')
     \<Longrightarrow> cache_step E G C cache Dehydrated fs fs'"
| registered: "register_worktree E C cache registration fs = (r, fs')
     \<Longrightarrow> cache_step E G C cache Registered fs fs'"
| unregistered: "remove_worktree_registration E C cache root fs = (r, fs')
     \<Longrightarrow> cache_step E G C cache Unregistered fs fs'"
| collected: "garbage_collect E G C cache dry_run prune fs = (r, fs')
     \<Longrightarrow> cache_step E G C cache Collected fs fs'"
| edited: "edits {w} h \<Longrightarrow> outside_cache cache w \<Longrightarrow> cache_step E G C cache WorktreeEdited fs (h fs)"

inductive cache_run ::
  "cache_env \<Rightarrow> git_env \<Rightarrow> registry_codec \<Rightarrow> local_cache_layout \<Rightarrow> cache_event list \<Rightarrow> fs \<Rightarrow> fs \<Rightarrow> bool"
  for E G C cache where
  stay: "cache_run E G C cache [] fs fs"
| more: "cache_run E G C cache events fs fs' \<Longrightarrow> cache_step E G C cache event fs' fs''
     \<Longrightarrow> cache_run E G C cache (events @ [event]) fs fs''"

text \<open>Sound, and no object file present at the start is missing or altered.\<close>

definition cache_grown :: "cache_env \<Rightarrow> local_cache_layout \<Rightarrow> fs \<Rightarrow> fs \<Rightarrow> bool" where
  "cache_grown E cache fs0 fs \<longleftrightarrow> cache_sound E cache fs \<and> (\<forall>p \<in> object_area cache.
     content_at fs0 p \<noteq> None \<longrightarrow> content_at fs p = content_at fs0 p)"

lemma keeps_grown_frame:
  assumes f: "frame S m" "S \<inter> object_area cache = {}"
  shows "keeps (cache_grown E cache fs0) m"
proof -
  have "content_at (snd (m fs)) p = content_at fs p" if "p \<in> object_area cache" for p fs
    using f that object_path_not_temp unfolding frame_def object_area_def by blast
  then show ?thesis
    using keeps_frame [OF f, of E] by (auto simp: keeps_def cache_grown_def)
qed

lemma keeps_grown_looks: "looks m \<Longrightarrow> keeps (cache_grown E cache fs0) m"
  by (rule keeps_looks)

lemma keeps_grown_copy:
  assumes ok: "oid_ok (obj_oid object)"
  shows "keeps (cache_grown E cache fs0) (copy_verified_file_to_cache E source sp (object_path cache object) object rc d)"
  unfolding keeps_def
proof (intro allI impI)
  fix fs assume grown: "cache_grown E cache fs0 fs"
  then have sound: "cache_sound E cache fs" by (simp add: cache_grown_def)
  obtain r fs' where run: "copy_verified_file_to_cache E source sp (object_path cache object) object rc d fs = (r, fs')"
    by fastforce
  have added: "cache_unchanged_or_added E (object_path cache object) object fs fs'"
    using copy_verified_file_to_cache_effect [OF run] object_path_not_temp cache_sound_no_link [OF sound] ok
    by (simp add: object_path_def)
  have "content_at fs' p = content_at fs p" if "p \<in> object_area cache" "content_at fs p \<noteq> None" for p
  proof (cases "p = object_path cache object")
    case True
    then show ?thesis using added that(2) by (auto simp: cache_unchanged_or_added_def)
  next
    case False
    then show ?thesis
      using frameD [OF frame_copy_verified_file_to_cache run] object_path_not_temp that(1) by (auto simp: object_area_def)
  qed
  moreover have "cache_sound E cache fs'"
    by (rule cache_sound_added [OF sound ok frame_copy_verified_file_to_cache run added]) simp
  ultimately show "cache_grown E cache fs0 (snd (copy_verified_file_to_cache E source sp (object_path cache object) object rc d fs))"
    using grown run by (auto simp: cache_grown_def)
qed

lemma worktree_frame_apart: "outside_cache cache w \<Longrightarrow> {w} \<inter> object_area cache = {}"
  by (simp add: outside_cache_def)

named_theorems grown_intros

lemma keeps_grown_locks [grown_intros]:
  "keeps (cache_grown E cache fs0) (lock_cache_operation_shared E cache)"
  "keeps (cache_grown E cache fs0) (lock_worktree_path E cache w)"
  by (rule keeps_grown_frame [OF frame_operation_locks(1) locks_apart] keeps_grown_frame [OF frame_worktree_lock locks_apart])+

lemma keeps_grown_secure [grown_intros]:
  assumes "oid_ok (obj_oid object)" "outside_cache cache w" "edits {w} k"
  shows "keeps (cache_grown E cache fs0) (secure_cached_copy E cache object w k)"
  unfolding secure_cached_copy_def copy_verified_worktree_object_to_cache_def Let_def
  by (intro keeps_bind keeps_if keeps_ret keeps_grown_copy [OF assms(1)]
      keeps_grown_frame [OF frame_hook [OF assms(3)] worktree_frame_apart [OF assms(2)]];
      intro keeps_grown_looks looks_intros looks_open_worktree)

lemma keeps_grown_replace [grown_intros]:
  assumes "oid_ok (obj_oid object)" "outside_cache cache w" "edits {w} h" "edits {w} k"
  shows "keeps (cache_grown E cache fs0) (replace_with_pointer E cache object w h k)"
  unfolding replace_with_pointer_def
  by (intro keeps_bind keeps_ret keeps_grown_secure [OF assms(1,2,4)]
      keeps_grown_frame [OF frame_publish_pointer_file worktree_frame_apart [OF assms(2)]] assms) simp

lemma keeps_grown_dehydrate:
  assumes "oid_ok (obj_oid object)" "outside_cache cache w" "edits {w} h" "edits {w} k"
  shows "keeps (cache_grown E cache fs0) (dehydrate_file_with_read_observer E cache object w h k)"
proof -
  have choice: "keeps (cache_grown E cache fs0) (case existing of None \<Rightarrow> a | Some pointer \<Rightarrow> f pointer)"
    if "keeps (cache_grown E cache fs0) a" "\<And>pointer. keeps (cache_grown E cache fs0) (f pointer)"
    for a :: "local_cache_dehydration cache_call" and f and existing :: "lfs_pointer option"
    using that by (cases existing) auto
  show ?thesis
    unfolding dehydrate_file_with_read_observer_def Let_def
    by (intro keeps_bind choice keeps_if keeps_try keeps_ret keeps_lift keeps_grown_locks keeps_grown_replace [OF assms]
        keeps_grown_frame [OF frame_hook [OF assms(4)] worktree_frame_apart [OF assms(2)]];
        intro keeps_grown_looks looks_intros looks_pointer_reads)
qed

lemma keeps_grown_ingest:
  assumes "oid_ok (obj_oid object)"
  shows "keeps (cache_grown E cache fs0) (ingest_git_lfs_object E cache objects object)"
  unfolding ingest_git_lfs_object_def Let_def copy_verified_object_to_cache_def
  by (intro keeps_bind keeps_if keeps_grown_locks keeps_ret keeps_grown_copy [OF assms];
      intro keeps_grown_looks looks_intros)

lemma keeps_grown_materialize:
  assumes "outside_cache cache d"
  shows "keeps (cache_grown E cache fs0) (materialize_object E cache object d)"
proof -
  have "edits {d} (\<lambda>fs. fs)" by (simp add: edits_def)
  then show ?thesis
    unfolding materialize_object_def
    by (intro keeps_bind keeps_grown_locks keeps_grown_frame [OF frame_materialize_verified worktree_frame_apart [OF assms]]
        keeps_grown_looks looks_intros) auto
qed

lemma keeps_grown_hydrate:
  assumes "outside_cache cache w" "edits {w} h"
  shows "keeps (cache_grown E cache fs0) (hydrate_pointer_file E cache w h)"
  unfolding hydrate_pointer_file_def
  by (intro keeps_bind keeps_if keeps_ret keeps_grown_locks
      keeps_grown_frame [OF frame_materialize_verified worktree_frame_apart [OF assms(1)]]
      keeps_grown_looks looks_intros looks_pointer_reads assms) auto

lemma frame_read_state: "(\<And>fs0. frame S (m fs0)) \<Longrightarrow> frame S (\<lambda>fs. m fs fs)"
  by (simp add: frame_def)

lemma registry_apart: "(lock_area cache \<union> {worktree_registry_path cache}) \<inter> object_area cache = {}"
  using locks_apart
  by (auto simp: object_area_def object_path_for_oid_def object_shards_def objects_dir_def worktree_registry_path_def)

lemma frame_registry_change:
  "frame (lock_area cache \<union> {worktree_registry_path cache}) (register_worktree E C cache registration)"
  "frame (lock_area cache \<union> {worktree_registry_path cache}) (remove_worktree_registration E C cache root)"
proof -
  let ?S = "lock_area cache \<union> {worktree_registry_path cache}"
  have lock: "frame ?S (lock_worktree_registry E cache)" by (rule frame_mono [OF frame_registry_lock]) auto
  have load: "frame ?S (load_worktree_registry E C cache)" by (rule looks_frame [OF looks_load_registry])
  have save: "frame ?S (if c then save_worktree_registry E C cache registry else ret_sr ())" for c registry
    by (cases c) (simp_all add: frame_ret frame_save_registry)
  have up: "frame ?S (\<lambda>fs. (case upsert E fs registration registry of (status, registry') \<Rightarrow>
         bind_sr (if status \<noteq> RegistrationUnchanged then save_worktree_registry E C cache registry' else ret_sr ())
           (\<lambda>_. ret_sr \<lparr>rh_registration = registration, rh_status = status\<rparr>)) fs)" for registry
    by (rule frame_read_state) (simp only: case_prod_unfold, intro frame_bind save frame_ret)
  have down: "frame ?S (\<lambda>fs. (case remove_worktree E fs root registry of (removed, registry') \<Rightarrow>
         bind_sr (if removed \<noteq> None then save_worktree_registry E C cache registry' else ret_sr ())
           (\<lambda>_. ret_sr removed)) fs)" for registry
    by (rule frame_read_state) (simp only: case_prod_unfold, intro frame_bind save frame_ret)
  show "frame ?S (register_worktree E C cache registration)" "frame ?S (remove_worktree_registration E C cache root)"
    unfolding register_worktree_def remove_worktree_registration_def by (intro frame_bind lock load up down frame_ret)+
qed

lemma keeps_sound_collect: "keeps (cache_sound E cache) (garbage_collect E G C cache dry_run prune)"
  unfolding keeps_def
proof (intro allI impI)
  fix fs assume sound: "cache_sound E cache fs"
  obtain r fs' where run: "garbage_collect E G C cache dry_run prune fs = (r, fs')" by fastforce
  have cases: "content_at fs' (object_path_for_oid cache x) = content_at fs (object_path_for_oid cache x)
      \<or> content_at fs' (object_path_for_oid cache x) = None" if "oid_ok x" for x
  proof -
    have "object_path_for_oid cache x \<in> object_area cache" using that by (auto simp: object_area_def)
    then have "object_path_for_oid cache x \<notin> lock_area cache" "object_path_for_oid cache x \<noteq> worktree_registry_path cache"
      using registry_apart [of cache] by auto
    then show ?thesis using garbage_collect_effect [OF run object_path_not_temp [OF that]] by metis
  qed
  have "cache_sound E cache fs'"
    unfolding cache_sound_def
  proof (intro allI impI)
    fix x assume x: "oid_ok x"
    from cases [OF x] show "case content_at fs' (object_path_for_oid cache x) of None \<Rightarrow> True
       | Some (FileNode bytes _) \<Rightarrow> ce_sha E bytes = as_hex x | Some _ \<Rightarrow> False"
    proof
      assume same: "content_at fs' (object_path_for_oid cache x) = content_at fs (object_path_for_oid cache x)"
      show ?thesis unfolding same using sound x by (simp add: cache_sound_def)
    qed simp
  qed
  then show "cache_sound E cache (snd (garbage_collect E G C cache dry_run prune fs))" using run by simp
qed

lemma cache_step_grown:
  assumes "cache_step E G C cache event fs fs'" "event \<noteq> Collected" "cache_grown E cache fs0 fs"
  shows "cache_grown E cache fs0 fs'"
  using assms
proof (cases rule: cache_step.cases)
  case (ingested object objects r)
  then show ?thesis using keeps_grown_ingest assms(3) unfolding keeps_def by (metis snd_conv)
next
  case (materialized d object r)
  then show ?thesis using keeps_grown_materialize assms(3) unfolding keeps_def by (metis snd_conv)
next
  case (hydrated w h r)
  then show ?thesis using keeps_grown_hydrate assms(3) unfolding keeps_def by (metis snd_conv)
next
  case (dehydrated w h k object r)
  then show ?thesis using keeps_grown_dehydrate assms(3) unfolding keeps_def by (metis snd_conv)
next
  case (registered registration r)
  then show ?thesis
    using keeps_grown_frame [OF frame_registry_change(1) registry_apart] assms(3) unfolding keeps_def by (metis snd_conv)
next
  case (unregistered root r)
  then show ?thesis
    using keeps_grown_frame [OF frame_registry_change(2) registry_apart] assms(3) unfolding keeps_def by (metis snd_conv)
next
  case (edited w h)
  then have "keeps (cache_grown E cache fs0) (hook_sr h)"
    using keeps_grown_frame [OF frame_hook worktree_frame_apart] by blast
  then show ?thesis using assms(3) edited by (simp add: keeps_def hook_sr_def)
qed simp

lemma cache_grown_refl: "cache_sound E cache fs \<Longrightarrow> cache_grown E cache fs fs"
  by (simp add: cache_grown_def)

lemma cache_step_sound: "cache_step E G C cache event fs fs' \<Longrightarrow> cache_sound E cache fs \<Longrightarrow> cache_sound E cache fs'"
proof (cases "event = Collected")
  case True
  assume "cache_step E G C cache event fs fs'" "cache_sound E cache fs"
  then show ?thesis using True keeps_sound_collect
    by (auto simp: keeps_def elim!: cache_step.cases) (metis snd_conv)
next
  case False
  assume "cache_step E G C cache event fs fs'" "cache_sound E cache fs"
  then show ?thesis using cache_step_grown [OF _ False] cache_grown_refl cache_grown_def by blast
qed

text \<open>
  C7: In every run of the cache, whatever operations it takes in whatever order, whatever they
  return and whatever other processes write to the worktrees, each object path holds nothing or a
  regular file whose bytes have the digest in its name; and as long as no garbage collection runs,
  every object file that was there stays, unaltered.
\<close>

theorem cache_run_sound:
  assumes run: "cache_run E G C cache events fs fs'" and sound: "cache_sound E cache fs"
  shows "cache_sound E cache fs' \<and> (Collected \<notin> set events \<longrightarrow> cache_grown E cache fs fs')"
  using run sound
proof (induction rule: cache_run.induct)
  case (stay fs)
  then show ?case by (simp add: cache_grown_refl)
next
  case (more events fs fs' event fs'')
  then show ?case using cache_step_sound [OF more.hyps(2)] cache_step_grown [OF more.hyps(2)] by auto
qed

lemma cache_run_sound_witness:
  "\<exists>fs. cache_run sample_cache_env sample_git sample_codec sample_cache [Dehydrated] sample_fs fs
     \<and> cache_grown sample_cache_env sample_cache sample_fs fs"
proof -
  obtain r fs where run: "dehydrate_file_with_read_observer sample_cache_env sample_cache sample_cached_object
      sample_worktree_file (\<lambda>fs. fs) (\<lambda>fs. fs) sample_fs = (r, fs)" by fastforce
  have "cache_step sample_cache_env sample_git sample_codec sample_cache Dehydrated sample_fs fs"
    by (rule cache_step.dehydrated [OF sample_outside _ _ _ run])
      (simp_all add: edits_def sample_cached_object_def empty_oid_ok)
  then have steps: "cache_run sample_cache_env sample_git sample_codec sample_cache ([] @ [Dehydrated]) sample_fs fs"
    by (rule cache_run.more [OF cache_run.stay])
  then show ?thesis using cache_run_sound [OF steps sample_sound] by auto
qed

section \<open>File names that are not canonical\<close>

text \<open>
  The collector parses a file name with \<open>LfsOid::new\<close>, which also accepts a \<open>sha256:\<close> prefix, so a
  file that no lookup would ever address counts as an object of the cache and can be deleted.
\<close>

lemma prefixed_name_counts_as_object:
  "names_object cache (objects_dir cache @ [''e3'', ''b0'', ''sha256:'' @ EMPTY_SHA256_HEX]) (LfsOid EMPTY_SHA256_HEX)
   \<and> objects_dir cache @ [''e3'', ''b0'', ''sha256:'' @ EMPTY_SHA256_HEX] \<notin> object_area cache"
proof
  have "lfs_oid_new (''sha256:'' @ EMPTY_SHA256_HEX) = Inr (LfsOid EMPTY_SHA256_HEX)" by code_simp
  then show "names_object cache (objects_dir cache @ [''e3'', ''b0'', ''sha256:'' @ EMPTY_SHA256_HEX]) (LfsOid EMPTY_SHA256_HEX)"
    by (auto simp: names_object_def object_shards_def OBJECT_SHARD_WIDTH_def EMPTY_SHA256_HEX_def)
  show "objects_dir cache @ [''e3'', ''b0'', ''sha256:'' @ EMPTY_SHA256_HEX] \<notin> object_area cache"
  proof
    assume "objects_dir cache @ [''e3'', ''b0'', ''sha256:'' @ EMPTY_SHA256_HEX] \<in> object_area cache"
    then obtain x where "oid_ok x" "as_hex x = ''sha256:'' @ EMPTY_SHA256_HEX"
      by (auto simp: object_area_def object_path_for_oid_def object_shards_def)
    moreover have "CHR ''s'' \<in> set (as_hex x)" by (simp add: calculation)
    ultimately show False using oid_hex_avoids [of x "CHR ''s''"] by (auto simp: is_lower_hex_def is_digit_def byte_def)
  qed
qed

end
