(* ===== verification/Migration_Process.thy ===== *)
theory Migration_Process
  imports Cache_Fs Errors Git_Output
begin

text \<open>
  The commands of Git that the migration reads from (\<open>src/migration/process.rs\<close>,
  \<open>attributes.rs\<close>) and the rendering of their diagnostics (\<open>src/process_output.rs\<close>): bounded
  output, exit statuses, NUL-delimited attribute reports. Running a command is the parameter
  \<open>migration_env\<close>; what the program does with its output is modelled.
\<close>

section \<open>Migration errors\<close>

datatype migration_error =
    MigNotGitRepository path
  | MigSourceEndpointMissing
  | MigSourceObjectMissing string u64
  | MigGitObjectUnavailable string
  | MigShallowRepository path
  | MigUnsupportedGitVersion string string string
  | MigInvalidInput string
  | MigDryRunWriteAttempt path
  | MigIo string string
  | MigExternalCommand string string string
  | MigExternalCommandOutput string string
  | MigRepositoryProvider repository_provider_error
  | MigStorage storage_error

type_synonym 'a migration_result = "migration_error + 'a"

section \<open>Text of diagnostics\<close>

text \<open>\<open>ExitStatus::code\<close>: none when a signal ended the process.\<close>

definition command_status_text :: "int option \<Rightarrow> string" where
  "command_status_text code = (case code of
       None \<Rightarrow> ''terminated by signal''
     | Some n \<Rightarrow> if n < 0 then ''-'' @ nat_dec (nat (- n)) else nat_dec (nat n))"

text \<open>\<open>Utf8Error\<close>: the length of the valid part and, unless the input merely ends too early, of the invalid sequence.\<close>

function utf8_valid_up_to :: "string \<Rightarrow> nat" where
  "utf8_valid_up_to s = (if s = [] \<or> utf8_first s = 0 then 0 else utf8_first s + utf8_valid_up_to (drop (utf8_first s) s))"
  by pat_completeness auto
termination
  by (relation "measure length") auto

declare utf8_valid_up_to.simps [simp del]

definition utf8_second_ok :: "char \<Rightarrow> char \<Rightarrow> bool" where
  "utf8_second_ok a b \<longleftrightarrow> is_continuation b
     \<and> (byte a = 224 \<longrightarrow> 160 \<le> byte b) \<and> (byte a = 237 \<longrightarrow> byte b \<le> 159)
     \<and> (byte a = 240 \<longrightarrow> 144 \<le> byte b) \<and> (byte a = 244 \<longrightarrow> byte b \<le> 143)"

definition utf8_char_width :: "char \<Rightarrow> nat" where
  "utf8_char_width a = (if byte a < 128 then 1 else if 194 \<le> byte a \<and> byte a \<le> 223 then 2
     else if 224 \<le> byte a \<and> byte a \<le> 239 then 3 else if 240 \<le> byte a \<and> byte a \<le> 244 then 4 else 0)"

definition utf8_error_len :: "string \<Rightarrow> nat option" where
  "utf8_error_len s = (case s of
       [] \<Rightarrow> None
     | a # r1 \<Rightarrow> if utf8_char_width a < 2 then Some 1 else (case r1 of
       [] \<Rightarrow> None
     | b # r2 \<Rightarrow> if \<not> utf8_second_ok a b then Some 1 else (case r2 of
       [] \<Rightarrow> None
     | c # r3 \<Rightarrow> if \<not> is_continuation c then Some 2 else (case r3 of
       [] \<Rightarrow> None
     | d # _ \<Rightarrow> Some 3))))"

lemma utf8_error_len_pos: "utf8_error_len s = Some n \<Longrightarrow> 0 < n"
  by (auto simp: utf8_error_len_def split: list.splits if_splits)

text \<open>The loop of \<open>complete_utf8_prefix_len\<close>: invalid sequences are skipped, a cut one ends the prefix.\<close>

function complete_utf8_from :: "string \<Rightarrow> nat \<Rightarrow> nat" where
  "complete_utf8_from bytes offset =
     (if length bytes \<le> offset then length bytes
      else let rest = drop offset bytes; valid = utf8_valid_up_to rest in
        if valid = length rest then length bytes
        else (case utf8_error_len (drop valid rest) of
            None \<Rightarrow> offset + valid
          | Some invalid \<Rightarrow> complete_utf8_from bytes (offset + valid + invalid)))"
  by pat_completeness auto
termination
  by (relation "measure (\<lambda>(bytes, offset). length bytes - offset)") (auto dest: utf8_error_len_pos)

declare complete_utf8_from.simps [simp del]

definition complete_utf8_prefix_len :: "string \<Rightarrow> nat" where
  "complete_utf8_prefix_len bytes = complete_utf8_from bytes 0"

definition truncated_lossy_message :: "(string \<Rightarrow> string) \<Rightarrow> string \<Rightarrow> nat \<Rightarrow> string" where
  "truncated_lossy_message lossy bytes limit =
     (if length bytes \<le> limit then lossy bytes
      else let prefix = take limit bytes in
        lossy (take (complete_utf8_prefix_len prefix) prefix) @ [LF] @ ''[truncated]'')"

definition truncate_with_ellipsis :: "string \<Rightarrow> nat \<Rightarrow> string" where
  "truncate_with_ellipsis message limit =
     (if length message \<le> limit then message
      else (case find (is_char_boundary message) (rev [0..<Suc limit]) of
          Some boundary \<Rightarrow> take boundary message @ ''...''
        | None \<Rightarrow> message))"

section \<open>Running Git\<close>

record command_output =
  co_code :: "int option"
  co_stdout :: string
  co_stderr :: string

definition co_success :: "command_output \<Rightarrow> bool" where
  "co_success out \<longleftrightarrow> co_code out = Some 0"

datatype child_failure =
    ChildFailureIo string string
  | ChildFailureTimedOut nat string
  | ChildFailureOutputLimit string nat
  | ChildFailureInheritedPipe

text \<open>
  A finished \<open>git check-attr\<close> with piped input: the waiting status, the writer and the two readers
  may each fail.
\<close>

record piped_output =
  po_wait :: "string + int option"
  po_write :: "string option option"
  po_stdout :: "string option + string"
  po_stderr :: "string option + string"

record migration_env =
  mg_run :: "path \<Rightarrow> string list \<Rightarrow> nat \<Rightarrow> child_failure + command_output"
  mg_check_attr :: "path \<Rightarrow> string list \<Rightarrow> string \<Rightarrow> string + piped_output"
  mg_lossy :: "string \<Rightarrow> string"

definition MAX_MIGRATION_GIT_OUTPUT_BYTES :: nat where
  "MAX_MIGRATION_GIT_OUTPUT_BYTES = 256 * 1024"

definition MAX_CURRENT_CHECKOUT_ATTR_OUTPUT_BYTES :: nat where
  "MAX_CURRENT_CHECKOUT_ATTR_OUTPUT_BYTES = 32 * 1024 * 1024"

definition diagnostic :: "migration_env \<Rightarrow> string \<Rightarrow> string" where
  "diagnostic M stderr = truncated_lossy_message (mg_lossy M) stderr MAX_MIGRATION_GIT_OUTPUT_BYTES"

definition child_process_migration_error :: "migration_env \<Rightarrow> child_failure \<Rightarrow> string \<Rightarrow> migration_error" where
  "child_process_migration_error M err command_name = (case err of
       ChildFailureIo context source \<Rightarrow> MigIo context source
     | ChildFailureTimedOut seconds stderr \<Rightarrow>
         MigExternalCommand command_name (''timed out after '' @ nat_dec seconds @ '' seconds'') (diagnostic M stderr)
     | ChildFailureOutputLimit stream limit \<Rightarrow>
         MigExternalCommandOutput command_name (''git '' @ stream @ '' exceeded the '' @ nat_dec limit @ ''-byte limit'')
     | ChildFailureInheritedPipe \<Rightarrow>
         MigIo (''timed out draining output from '' @ command_name) ''git output pipes remained open after process exit'')"

definition run_git_os_with_limit ::
  "migration_env \<Rightarrow> path \<Rightarrow> string list \<Rightarrow> string \<Rightarrow> nat \<Rightarrow> command_output migration_result" where
  "run_git_os_with_limit M current_dir args command_name stdout_limit =
     map_err (\<lambda>err. child_process_migration_error M err command_name) (mg_run M current_dir args stdout_limit)"

definition run_git_os :: "migration_env \<Rightarrow> path \<Rightarrow> string list \<Rightarrow> string \<Rightarrow> command_output migration_result" where
  "run_git_os M current_dir args command_name =
     run_git_os_with_limit M current_dir args command_name MAX_MIGRATION_GIT_OUTPUT_BYTES"

definition run_git :: "migration_env \<Rightarrow> path \<Rightarrow> string list \<Rightarrow> command_output migration_result" where
  "run_git M current_dir args = run_git_os M current_dir args (''git '' @ join_on CHR '' '' args)"

definition command_error :: "migration_env \<Rightarrow> string \<Rightarrow> int option \<Rightarrow> string \<Rightarrow> migration_error" where
  "command_error M command code stderr = MigExternalCommand command (command_status_text code) (diagnostic M stderr)"

definition output_stdout_with_limit :: "command_output \<Rightarrow> string \<Rightarrow> nat \<Rightarrow> string migration_result" where
  "output_stdout_with_limit out command_name limit =
     (if limit < length (co_stdout out) then Inl (MigExternalCommandOutput command_name ''git returned too much output'')
      else if \<not> utf8_ok (co_stdout out) then Inl (MigExternalCommandOutput command_name ''git returned non-UTF-8 output'')
      else Inr (co_stdout out))"

definition output_stdout :: "command_output \<Rightarrow> string \<Rightarrow> string migration_result" where
  "output_stdout out command_name = output_stdout_with_limit out command_name MAX_MIGRATION_GIT_OUTPUT_BYTES"

definition required_success_stdout_with_limit ::
  "migration_env \<Rightarrow> command_output \<Rightarrow> string \<Rightarrow> nat \<Rightarrow> string migration_result" where
  "required_success_stdout_with_limit M out command_name limit =
     (if \<not> co_success out then Inl (command_error M command_name (co_code out) (co_stderr out))
      else output_stdout_with_limit out command_name limit)"

definition required_success_stdout :: "migration_env \<Rightarrow> command_output \<Rightarrow> string \<Rightarrow> string migration_result" where
  "required_success_stdout M out command_name =
     required_success_stdout_with_limit M out command_name MAX_MIGRATION_GIT_OUTPUT_BYTES"

definition trim_newlines :: "string \<Rightarrow> string" where
  "trim_newlines s = rev (dropWhile (\<lambda>c. c = LF \<or> c = CR) (rev s))"

definition optional_stdout :: "migration_env \<Rightarrow> command_output \<Rightarrow> string \<Rightarrow> string option migration_result" where
  "optional_stdout M out command_name =
     (if \<not> co_success out
      then if co_code out = Some 1 \<and> list_all is_ascii_ws (co_stderr out) then Inr None
           else Inl (command_error M command_name (co_code out) (co_stderr out))
      else map_res (\<lambda>stdout. if trim_newlines stdout = [] then None else Some (trim_newlines stdout))
             (output_stdout out command_name))"

definition detect_worktree_root :: "migration_env \<Rightarrow> path \<Rightarrow> path migration_result" where
  "detect_worktree_root M start_dir =
     bind_res (run_git M start_dir [''rev-parse'', ''--show-toplevel'']) (\<lambda>out.
       if \<not> co_success out then Inl (MigNotGitRepository start_dir)
       else map_res (\<lambda>stdout. path_of_bytes (trim_newlines stdout))
              (output_stdout out ''git rev-parse --show-toplevel''))"

definition git_config_get :: "migration_env \<Rightarrow> path \<Rightarrow> string list \<Rightarrow> string option migration_result" where
  "git_config_get M worktree_root args =
     bind_res (run_git M worktree_root args) (\<lambda>out. optional_stdout M out (''git '' @ join_on CHR '' '' args))"

definition git_config_get_os :: "migration_env \<Rightarrow> path \<Rightarrow> string list \<Rightarrow> string \<Rightarrow> string option migration_result" where
  "git_config_get_os M worktree_root args command_name =
     bind_res (run_git_os M worktree_root args command_name) (\<lambda>out. optional_stdout M out command_name)"

definition git_lfs_probe_diagnostic :: "migration_env \<Rightarrow> command_output \<Rightarrow> string" where
  "git_lfs_probe_diagnostic M out =
     (let stderr = diagnostic M (co_stderr out) in
      if trim stderr = [] then ''git lfs version exited with status '' @ command_status_text (co_code out)
      else trim stderr)"

definition first_non_empty_line :: "string \<Rightarrow> string option" where
  "first_non_empty_line s = find (\<lambda>l. trim l \<noteq> []) (str_lines s)"

definition repo_relative_path_from_git_output :: "string \<Rightarrow> path migration_result" where
  "repo_relative_path_from_git_output p =
     (if \<not> starts_with ''/'' p \<and> list_all (\<lambda>c. is_normal_component c \<or> c = CurDir) (path_components p)
      then Inr (path_of_bytes p)
      else Inl (MigExternalCommandOutput ''git ls-files'' ''git returned a path outside the worktree''))"

section \<open>Attributes from Git\<close>

definition git_check_attr_filter_command_name :: "string option \<Rightarrow> string" where
  "git_check_attr_filter_command_name source = (case source of
       None \<Rightarrow> ''git check-attr -z --stdin filter''
     | Some s \<Rightarrow> ''git check-attr -z --stdin --source='' @ s @ '' filter'')"

definition migration_git_path_output_error :: "git_path_output_error \<Rightarrow> string \<Rightarrow> migration_error" where
  "migration_git_path_output_error err command = MigExternalCommandOutput command (case err of
       MalformedAttributeOutput \<Rightarrow> ''git returned malformed attribute output''
     | PathOutsideWorktree \<Rightarrow> ''git returned a path outside the worktree'')"

definition migration_safe_git_relative_path :: "string \<Rightarrow> string \<Rightarrow> path migration_result" where
  "migration_safe_git_relative_path relative_path command =
     map_err (\<lambda>err. migration_git_path_output_error err command) (safe_git_relative_path relative_path)"

definition parse_git_check_attr_filter_stdout :: "string \<Rightarrow> string \<Rightarrow> path list migration_result" where
  "parse_git_check_attr_filter_stdout stdout command_name =
     map_err (\<lambda>err. migration_git_path_output_error err command_name) (parse_lfs_filter_attribute_paths stdout)"

text \<open>\<open>read_pipe_with_limit\<close>: the whole pipe is drained, at most \<open>limit\<close> bytes are kept.\<close>

definition read_pipe_with_limit :: "string \<Rightarrow> nat \<Rightarrow> string \<times> bool" where
  "read_pipe_with_limit stream limit = (take limit stream, limit < length stream)"

definition joined_reader :: "string \<Rightarrow> string option + 'a \<Rightarrow> 'a migration_result" where
  "joined_reader stream r = map_err (\<lambda>failure. case failure of
       None \<Rightarrow> MigIo (''git check-attr '' @ stream @ '' reader panicked'') (''git check-attr '' @ stream @ '' reader panicked'')
     | Some source \<Rightarrow> MigIo (''failed to read git check-attr '' @ stream) source) r"

definition joined_writer :: "string option option \<Rightarrow> unit migration_result" where
  "joined_writer w = (case w of
       Some None \<Rightarrow> Inl (MigIo ''git check-attr input writer panicked'' ''git check-attr input writer panicked'')
     | Some (Some source) \<Rightarrow> Inl (MigIo ''failed to write git check-attr path input'' source)
     | None \<Rightarrow> Inr ())"

definition git_check_attr_filter_with_source ::
  "migration_env \<Rightarrow> path \<Rightarrow> string \<Rightarrow> string option \<Rightarrow> command_output migration_result" where
  "git_check_attr_filter_with_source M worktree_root tracked_paths source =
     (let input = (if ends_with [CHR 0x00] tracked_paths then tracked_paths else tracked_paths @ [CHR 0x00]);
          args = [''check-attr'', ''-z'', ''--stdin''] @ (case source of Some s \<Rightarrow> [''--source='' @ s] | None \<Rightarrow> []) @ [''filter''];
          command_name = git_check_attr_filter_command_name source in
      bind_res (map_err (MigIo (''failed to start '' @ command_name)) (mg_check_attr M worktree_root args input)) (\<lambda>piped.
      bind_res (map_err (MigIo (''failed to wait for '' @ command_name)) (po_wait piped)) (\<lambda>code.
      bind_res (joined_writer (po_write piped)) (\<lambda>_.
      bind_res (joined_reader ''stdout'' (po_stdout piped)) (\<lambda>stdout.
      bind_res (joined_reader ''stderr'' (po_stderr piped)) (\<lambda>stderr.
        let kept = read_pipe_with_limit stdout MAX_CURRENT_CHECKOUT_ATTR_OUTPUT_BYTES;
            diagnostics = fst (read_pipe_with_limit stderr (MAX_MIGRATION_GIT_OUTPUT_BYTES + 1)) in
        if code \<noteq> Some 0 then Inl (command_error M command_name code diagnostics)
        else if snd kept then Inl (MigExternalCommandOutput command_name ''git returned too much attribute output'')
        else Inr \<lparr>co_code = code, co_stdout = fst kept, co_stderr = diagnostics\<rparr>))))))"

definition git_check_attr_filter :: "migration_env \<Rightarrow> path \<Rightarrow> string \<Rightarrow> command_output migration_result" where
  "git_check_attr_filter M worktree_root tracked_paths = git_check_attr_filter_with_source M worktree_root tracked_paths None"

end
