(* ===== verification/Migration_Checkout.thy ===== *)
theory Migration_Checkout
  imports Migration_Process
begin

text \<open>
  What the migration discovers in the current checkout (\<open>src/migration/attributes.rs\<close>,
  \<open>checkout.rs\<close>): the LFS patterns of \<open>.gitattributes\<close> files with their macros expanded, and the
  LFS pointer blobs of the index.
\<close>

section \<open>Attribute files\<close>

text \<open>The characters of a string, each with its bytes.\<close>

function str_chars :: "string \<Rightarrow> string list" where
  "str_chars s = (if s = [] then [] else take (max 1 (utf8_first s)) s # str_chars (drop (max 1 (utf8_first s)) s))"
  by pat_completeness auto
termination
  by (relation "measure length") auto

declare str_chars.simps [simp del]

definition is_ws_char :: "string \<Rightarrow> bool" where
  "is_ws_char c \<longleftrightarrow> c \<noteq> [] \<and> ws_len c = length c"

text \<open>The scanner over the characters of a line: tokens so far, current token, quoted, escaped.\<close>

fun attribute_tokens :: "string list \<Rightarrow> string list \<Rightarrow> string \<Rightarrow> bool \<Rightarrow> bool \<Rightarrow> string list" where
  "attribute_tokens [] tokens token in_quotes escaped =
     (let token = (if escaped then token @ [CHR 0x5C] else token) in if token \<noteq> [] then tokens @ [token] else tokens)"
| "attribute_tokens (ch # chs) tokens token in_quotes escaped =
     (if escaped then attribute_tokens chs tokens (token @ ch) in_quotes False
      else if ch = [CHR 0x5C] then attribute_tokens chs tokens token in_quotes True
      else if ch = [CHR 0x22] then attribute_tokens chs tokens token (\<not> in_quotes) False
      else if is_ws_char ch \<and> \<not> in_quotes
      then (if token \<noteq> [] then attribute_tokens chs (tokens @ [token]) [] in_quotes False
            else attribute_tokens chs tokens token in_quotes False)
      else attribute_tokens chs tokens (token @ ch) in_quotes False)"

definition split_gitattributes_line :: "string \<Rightarrow> string list" where
  "split_gitattributes_line line = attribute_tokens (str_chars line) [] [] False False"

text \<open>
  Macro expansion: a macro that is being expanded is not expanded again. \<open>expanding\<close> is restored
  after each expansion, so it is an argument here.
\<close>

type_synonym attribute_macros = "(string, string list) btree"

function expand_attribute_macro :: "attribute_macros \<Rightarrow> string set \<Rightarrow> string \<Rightarrow> string list" where
  "expand_attribute_macro macros expanding attribute =
     attribute # (case map_of macros attribute of
         None \<Rightarrow> []
       | Some macro_attributes \<Rightarrow>
           if attribute \<in> expanding then []
           else concat (map (expand_attribute_macro macros (insert attribute expanding)) macro_attributes))"
  by pat_completeness auto
termination
proof (relation "measure (\<lambda>(macros, expanding, _). card (fst ` set macros - expanding))")
  fix macros :: attribute_macros and expanding attribute macro_attributes x
  assume "map_of macros attribute = Some macro_attributes" "attribute \<notin> expanding"
  then have "attribute \<in> fst ` set macros" "attribute \<notin> expanding"
    by (auto dest!: map_of_SomeD intro: rev_image_eqI)
  then have "fst ` set macros - insert attribute expanding \<subset> fst ` set macros - expanding" by blast
  then have "card (fst ` set macros - insert attribute expanding) < card (fst ` set macros - expanding)"
    by (intro psubset_card_mono) auto
  then show "((macros, insert attribute expanding, x), macros, expanding, attribute)
      \<in> measure (\<lambda>(macros, expanding, _). card (fst ` set macros - expanding))" by simp
qed simp

declare expand_attribute_macro.simps [simp del]

definition expand_attribute_macros :: "attribute_macros \<Rightarrow> string list \<Rightarrow> string list" where
  "expand_attribute_macros macros attributes = concat (map (expand_attribute_macro macros {}) attributes)"

record lfs_tracked_pattern =
  tp_pattern :: string
  tp_attributes :: "string list"
  tp_source :: path

definition parse_lfs_pattern_line ::
  "string \<Rightarrow> path \<Rightarrow> attribute_macros \<Rightarrow> lfs_tracked_pattern option \<times> attribute_macros" where
  "parse_lfs_pattern_line line source macros =
     (let trimmed = trim_start line in
      if trimmed = [] \<or> starts_with ''#'' trimmed then (None, macros)
      else (case split_gitattributes_line trimmed of
          [] \<Rightarrow> (None, macros)
        | pattern # attributes \<Rightarrow> (case strip_prefix ''[attr]'' pattern of
            Some macro_name \<Rightarrow> (None, if macro_name \<noteq> [] then bt_insert macro_name attributes macros else macros)
          | None \<Rightarrow>
              let expanded = expand_attribute_macros macros attributes in
              if ''filter=lfs'' \<notin> set expanded then (None, macros)
              else (Some \<lparr>tp_pattern = pattern, tp_attributes = expanded, tp_source = source\<rparr>, macros))))"

fun parse_lfs_pattern_lines :: "string list \<Rightarrow> path \<Rightarrow> attribute_macros \<Rightarrow> lfs_tracked_pattern list" where
  "parse_lfs_pattern_lines [] source macros = []"
| "parse_lfs_pattern_lines (line # rest) source macros =
     (case parse_lfs_pattern_line line source macros of (found, macros') \<Rightarrow>
        (case found of Some p \<Rightarrow> [p] | None \<Rightarrow> []) @ parse_lfs_pattern_lines rest source macros')"

definition parse_lfs_patterns_from_attributes :: "string \<Rightarrow> path \<Rightarrow> lfs_tracked_pattern list" where
  "parse_lfs_patterns_from_attributes contents source = parse_lfs_pattern_lines (str_lines contents) source []"

section \<open>Pointer blobs of the index\<close>

text \<open>\<open>git cat-file\<close>, once for the size and once for the blob.\<close>

definition small_pointer :: "string \<Rightarrow> lfs_pointer option" where
  "small_pointer contents =
     (if \<not> utf8_ok contents then None
      else (case lfs_pointer_parse contents of
          Inr pointer \<Rightarrow> if pointer_is_empty pointer then None else Some pointer
        | Inl _ \<Rightarrow> None))"

definition read_history_pointer_blob_candidate ::
  "migration_env \<Rightarrow> path \<Rightarrow> string \<Rightarrow> lfs_pointer option migration_result" where
  "read_history_pointer_blob_candidate M worktree_root object_id =
     (let size_command = ''git cat-file -s '' @ object_id; blob_command = ''git cat-file blob '' @ object_id in
      bind_res (run_git_os M worktree_root [''cat-file'', ''-s'', object_id] size_command) (\<lambda>size_output.
        if \<not> co_success size_output then Inl (MigGitObjectUnavailable object_id)
        else bind_res (output_stdout size_output size_command) (\<lambda>size_stdout.
        bind_res (map_err (\<lambda>_. MigExternalCommandOutput size_command ''git returned an invalid blob size'')
            (parse_u64 (trim_newlines size_stdout))) (\<lambda>size.
          if LFS_POINTER_SIZE_CUTOFF \<le> unat size then Inr None
          else bind_res (run_git_os M worktree_root [''cat-file'', ''blob'', object_id] blob_command) (\<lambda>blob_output.
            if \<not> co_success blob_output then Inl (command_error M blob_command (co_code blob_output) (co_stderr blob_output))
            else if LFS_POINTER_SIZE_CUTOFF \<le> length (co_stdout blob_output) then Inr None
            else Inr (small_pointer (co_stdout blob_output)))))))"

record git_index_blob =
  ib_object_id :: string
  ib_relative_path :: path
  ib_relative_path_bytes :: string

definition index_entry_parse_error :: "string \<Rightarrow> migration_error" where
  "index_entry_parse_error command_name = MigExternalCommandOutput command_name ''git returned malformed index metadata''"

text \<open>One record of \<open>git ls-files --stage\<close>: nothing for entries that are not regular files.\<close>

definition parse_stage_record :: "string \<Rightarrow> string \<Rightarrow> git_index_blob option migration_result" where
  "parse_stage_record command_name entry =
     (case split_once (CHR 0x09) entry of
        None \<Rightarrow> Inl (index_entry_parse_error command_name)
      | Some (metadata, relative_path_bytes) \<Rightarrow>
          (case filter (\<lambda>field. field \<noteq> []) (split_on CHR '' '' metadata) of
             [mode, object_id, stage] \<Rightarrow>
               if stage \<noteq> ''0'' then Inl (MigExternalCommandOutput command_name ''Git index contains an unmerged entry'')
               else if mode \<noteq> ''100644'' \<and> mode \<noteq> ''100755'' then Inr None
               else if \<not> utf8_ok object_id then Inl (index_entry_parse_error command_name)
               else map_res (\<lambda>relative_path. Some \<lparr>ib_object_id = object_id, ib_relative_path = relative_path,
                      ib_relative_path_bytes = relative_path_bytes\<rparr>)
                    (migration_safe_git_relative_path relative_path_bytes command_name)
           | _ \<Rightarrow> Inl (index_entry_parse_error command_name)))"

definition parse_ls_files_stage_blob_output :: "string \<Rightarrow> string \<Rightarrow> git_index_blob list migration_result" where
  "parse_ls_files_stage_blob_output stdout command_name =
     map_res (\<lambda>found. List.map_filter id found)
       (traverse_res (parse_stage_record command_name)
          (filter (\<lambda>entry. entry \<noteq> []) (split_on (CHR 0x00) stdout)))"

definition LS_FILES_STAGE :: string where
  "LS_FILES_STAGE = ''git ls-files -z --cached --stage''"

definition current_checkout_lfs_tracked_blobs :: "migration_env \<Rightarrow> path \<Rightarrow> git_index_blob list migration_result" where
  "current_checkout_lfs_tracked_blobs M worktree_root =
     bind_res (run_git_os_with_limit M worktree_root [''ls-files'', ''-z'', ''--cached'', ''--stage''] LS_FILES_STAGE
         MAX_CURRENT_CHECKOUT_ATTR_OUTPUT_BYTES) (\<lambda>out.
       if \<not> co_success out then Inl (command_error M LS_FILES_STAGE (co_code out) (co_stderr out))
       else if co_stdout out = [] then Inr []
       else bind_res (parse_ls_files_stage_blob_output (co_stdout out) LS_FILES_STAGE) (\<lambda>index_blobs.
         if index_blobs = [] then Inr []
         else bind_res (git_check_attr_filter M worktree_root
                (concat (map (\<lambda>blob. ib_relative_path_bytes blob @ [CHR 0x00]) index_blobs))) (\<lambda>attributes.
              map_res (\<lambda>lfs_tracked_paths. filter (\<lambda>blob. ib_relative_path blob \<in> set lfs_tracked_paths) index_blobs)
                (parse_git_check_attr_filter_stdout (co_stdout attributes) (git_check_attr_filter_command_name None)))))"

record current_checkout_pointer =
  cp_relative_path :: path
  cp_path :: path
  cp_object :: lfs_object

record current_checkout_pointers =
  cc_worktree_root :: path
  cc_tracked_path_count :: nat
  cc_pointers :: "current_checkout_pointer list"

definition read_index_pointer_blob_candidate ::
  "migration_env \<Rightarrow> path \<Rightarrow> string \<Rightarrow> lfs_pointer option migration_result" where
  "read_index_pointer_blob_candidate M worktree_root object_id = read_history_pointer_blob_candidate M worktree_root object_id"

definition checkout_pointer :: "path \<Rightarrow> git_index_blob \<Rightarrow> lfs_pointer option \<Rightarrow> current_checkout_pointer option" where
  "checkout_pointer worktree_root blob candidate =
     map_option (\<lambda>pointer. \<lparr>cp_relative_path = ib_relative_path blob,
       cp_path = fs_path_join worktree_root (ib_relative_path blob), cp_object = ptr_object pointer\<rparr>) candidate"

definition enumerate_current_checkout_lfs_pointers :: "migration_env \<Rightarrow> path \<Rightarrow> current_checkout_pointers migration_result" where
  "enumerate_current_checkout_lfs_pointers M start_dir =
     bind_res (detect_worktree_root M start_dir) (\<lambda>worktree_root.
     bind_res (current_checkout_lfs_tracked_blobs M worktree_root) (\<lambda>lfs_tracked_blobs.
     map_res (\<lambda>found. \<lparr>cc_worktree_root = worktree_root, cc_tracked_path_count = length lfs_tracked_blobs,
         cc_pointers = List.map_filter id found\<rparr>)
       (traverse_res (\<lambda>blob. map_res (checkout_pointer worktree_root blob)
          (read_index_pointer_blob_candidate M worktree_root (ib_object_id blob))) lfs_tracked_blobs)))"

end
