(* ===== verification/Migration_History.thy ===== *)
theory Migration_History
  imports Migration_Checkout State_Result "HOL-Library.Product_Lexorder"
begin

text \<open>
  The scan of Git history for LFS pointers (\<open>src/migration/history.rs\<close>): the version of Git, the
  refs, the object reader over one \<open>git cat-file --batch-command\<close>, raw trees, and the scanner with
  its caches of trees, blobs, attribute answers and commits.
\<close>

section \<open>Prerequisites\<close>

definition MINIMUM_HISTORICAL_SCAN_GIT_VERSION :: "u64 \<times> u64 \<times> u64" where
  "MINIMUM_HISTORICAL_SCAN_GIT_VERSION = (2, 40, 0)"

definition MAX_HISTORY_REF_LIST_BYTES :: nat where
  "MAX_HISTORY_REF_LIST_BYTES = 2 * 1024 * 1024"

definition MAX_HISTORY_COMMIT_LIST_BYTES :: nat where
  "MAX_HISTORY_COMMIT_LIST_BYTES = 32 * 1024 * 1024"

definition MAX_HISTORY_TREE_OUTPUT_BYTES :: nat where
  "MAX_HISTORY_TREE_OUTPUT_BYTES = 32 * 1024 * 1024"

definition MAX_HISTORY_CHECK_ATTR_INPUT_BYTES :: nat where
  "MAX_HISTORY_CHECK_ATTR_INPUT_BYTES = 1024 * 1024"

definition parse_git_version :: "string \<Rightarrow> (u64 \<times> u64 \<times> u64) option" where
  "parse_git_version version = (case split_on CHR ''.'' version of
       major # minor # patch_text # _ \<Rightarrow>
         (case (parse_u64 major, parse_u64 minor, parse_u64 (takeWhile is_digit patch_text)) of
            (Inr a, Inr b, Inr c) \<Rightarrow> Some (a, b, c)
          | _ \<Rightarrow> None)
     | _ \<Rightarrow> None)"

definition git_version_parse_error :: migration_error where
  "git_version_parse_error = MigExternalCommandOutput ''git --version''
     ''could not determine whether Git 2.40.0 or newer is installed; upgrade Git before scanning selected refs or all refs''"

definition first_ascii_word :: "string \<Rightarrow> string option" where
  "first_ascii_word s = (let w = takeWhile (\<lambda>c. \<not> is_ascii_ws c) (dropWhile is_ascii_ws s) in if w = [] then None else Some w)"

definition validate_historical_scan_git_version :: "string \<Rightarrow> unit migration_result" where
  "validate_historical_scan_git_version output =
     bind_res (ok_or git_version_parse_error
        (case strip_prefix ''git version '' (trim output) of Some version \<Rightarrow> first_ascii_word version | None \<Rightarrow> None))
       (\<lambda>version_text.
     bind_res (ok_or git_version_parse_error (parse_git_version version_text)) (\<lambda>version.
       if version < MINIMUM_HISTORICAL_SCAN_GIT_VERSION
       then Inl (MigUnsupportedGitVersion version_text ''2.40.0'' ''historical migration attribute discovery'')
       else Inr ()))"

definition require_historical_scan_git_version :: "migration_env \<Rightarrow> path \<Rightarrow> unit migration_result" where
  "require_historical_scan_git_version M worktree_root =
     bind_res (run_git M worktree_root [''--version'']) (\<lambda>out.
     bind_res (required_success_stdout M out ''git --version'') validate_historical_scan_git_version)"

definition require_complete_history :: "migration_env \<Rightarrow> path \<Rightarrow> unit migration_result" where
  "require_complete_history M worktree_root =
     (let command = ''git rev-parse --is-shallow-repository'' in
      bind_res (run_git M worktree_root [''rev-parse'', ''--is-shallow-repository'']) (\<lambda>out.
      bind_res (required_success_stdout M out command) (\<lambda>stdout.
        if trim stdout = ''false'' then Inr ()
        else if trim stdout = ''true'' then Inl (MigShallowRepository worktree_root)
        else Inl (MigExternalCommandOutput command ''git returned an invalid shallow-repository state''))))"

section \<open>Refs and commits\<close>

record scanned_ref =
  sf_name :: string
  sf_commit :: string

definition is_git_object_id :: "string \<Rightarrow> bool" where
  "is_git_object_id s \<longleftrightarrow> (length s = 40 \<or> length s = 64) \<and> list_all is_hexdigit s"

definition contains_text :: "string \<Rightarrow> string \<Rightarrow> bool" where
  "contains_text p s \<longleftrightarrow> split_once_str p s \<noteq> None"

definition validate_history_ref_name :: "string \<Rightarrow> unit migration_result" where
  "validate_history_ref_name ref_name =
     (let has_invalid_byte = list_ex (\<lambda>c. is_ascii_control c \<or> c \<in> {CHR '' '', CHR ''~'', CHR ''^'', CHR '':'', CHR ''?'',
            CHR ''*'', CHR ''['', CHR 0x5C}) ref_name;
          has_invalid_sequence = contains_text ''..'' ref_name \<or> contains_text [CHR 0x40, CHR 0x7B] ref_name \<or> contains_text ''//'' ref_name;
          has_invalid_boundary = starts_with ''/'' ref_name \<or> ends_with ''/'' ref_name \<or> ends_with ''.'' ref_name
            \<or> ends_with ''.lock'' ref_name in
      if ref_name \<noteq> [] \<and> \<not> has_invalid_byte \<and> \<not> has_invalid_sequence \<and> \<not> has_invalid_boundary
         \<and> ref_name \<noteq> ''@'' \<and> ref_name \<noteq> ''HEAD''
      then Inr () else Inl (MigInvalidInput ''selected ref name is empty or contains invalid ref syntax''))"

definition resolve_ref_commit :: "migration_env \<Rightarrow> path \<Rightarrow> string \<Rightarrow> string migration_result" where
  "resolve_ref_commit M worktree_root ref_name =
     (let revision = ref_name @ ''^{commit}''; command_name = ''git rev-parse --verify --end-of-options '' @ revision in
      bind_res (run_git_os M worktree_root [''rev-parse'', ''--verify'', ''--end-of-options'', revision] command_name) (\<lambda>out.
      bind_res (required_success_stdout M out command_name) (\<lambda>stdout.
        if is_git_object_id (trim_newlines stdout) then Inr (trim_newlines stdout)
        else Inl (MigExternalCommandOutput command_name ''git returned an invalid commit object ID''))))"

definition FOR_EACH_REF :: string where
  "FOR_EACH_REF =
     ''git for-each-ref --format=%(refname)%00%(symref) refs/heads refs/remotes/<source> refs/tags''"

text \<open>Sorted, and consecutive duplicates dropped.\<close>

definition all_fetched_ref_names :: "migration_env \<Rightarrow> path \<Rightarrow> string \<Rightarrow> string list migration_result" where
  "all_fetched_ref_names M worktree_root source_remote =
     bind_res (run_git_os_with_limit M worktree_root [''for-each-ref'', ''--format=%(refname)%00%(symref)'', ''refs/heads'',
         ''refs/remotes/'' @ source_remote, ''refs/tags''] FOR_EACH_REF MAX_HISTORY_REF_LIST_BYTES) (\<lambda>out.
     bind_res (required_success_stdout_with_limit M out FOR_EACH_REF MAX_HISTORY_REF_LIST_BYTES) (\<lambda>stdout.
     map_res (\<lambda>found. remdups_adj (sort (List.map_filter id found)))
       (traverse_res (\<lambda>line. case split_once (CHR 0x00) line of
            None \<Rightarrow> Inl (MigExternalCommandOutput FOR_EACH_REF ''git returned malformed ref output'')
          | Some (ref_name, symref) \<Rightarrow> Inr (if symref = [] then Some ref_name else None))
        (filter (\<lambda>line. line \<noteq> []) (str_lines stdout)))))"

record history_commit =
  hc_object_id :: string
  hc_tree_id :: string

definition parse_commit_line :: "string \<Rightarrow> string \<Rightarrow> history_commit migration_result" where
  "parse_commit_line command_name line = (case split_once CHR '' '' line of
       None \<Rightarrow> Inl (MigExternalCommandOutput command_name ''git returned malformed commit and tree output'')
     | Some (object_id, tree_id) \<Rightarrow>
         if \<not> is_git_object_id object_id \<or> \<not> is_git_object_id tree_id
         then Inl (MigExternalCommandOutput command_name ''git returned an invalid commit or tree object ID'')
         else Inr \<lparr>hc_object_id = object_id, hc_tree_id = tree_id\<rparr>)"

definition rev_list_commits :: "migration_env \<Rightarrow> path \<Rightarrow> string \<Rightarrow> history_commit list migration_result" where
  "rev_list_commits M worktree_root root_commit =
     (let command_name = ''git rev-list --topo-order --format=%H%x20%T --no-commit-header '' @ root_commit in
      bind_res (run_git_os_with_limit M worktree_root [''rev-list'', ''--topo-order'', ''--format=%H %T'', ''--no-commit-header'',
          root_commit] command_name MAX_HISTORY_COMMIT_LIST_BYTES) (\<lambda>out.
      bind_res (required_success_stdout_with_limit M out command_name MAX_HISTORY_COMMIT_LIST_BYTES) (\<lambda>stdout.
        traverse_res (parse_commit_line command_name) (filter (\<lambda>line. line \<noteq> []) (str_lines stdout)))))"

section \<open>Raw trees\<close>

record raw_tree_entry =
  rt_mode :: string
  rt_object_id :: string
  rt_name :: string

definition hex_octet :: "char \<Rightarrow> string" where
  "hex_octet c = [hex_char (byte c div 16), hex_char (byte c mod 16)]"

definition raw_git_tree_parse_error :: "string \<Rightarrow> migration_error" where
  "raw_git_tree_parse_error command_name = MigExternalCommandOutput command_name ''git returned malformed tree object data''"

lemma split_once_length: "split_once c s = Some (a, b) \<Longrightarrow> length b < length s"
  by (auto simp: split_once_Some)

function raw_tree_entries :: "nat \<Rightarrow> string \<Rightarrow> string \<Rightarrow> raw_tree_entry list migration_result" where
  "raw_tree_entries object_id_bytes command_name contents =
     (if contents = [] then Inr []
      else (case split_once CHR '' '' contents of
          None \<Rightarrow> Inl (raw_git_tree_parse_error command_name)
        | Some (mode, after_mode) \<Rightarrow> (case split_once (CHR 0x00) after_mode of
            None \<Rightarrow> Inl (raw_git_tree_parse_error command_name)
          | Some (name, after_name) \<Rightarrow>
              if length after_name < object_id_bytes \<or> mode = [] \<or> name = []
              then Inl (raw_git_tree_parse_error command_name)
              else map_res ((#) \<lparr>rt_mode = mode, rt_object_id = concat (map hex_octet (take object_id_bytes after_name)),
                  rt_name = name\<rparr>)
                (raw_tree_entries object_id_bytes command_name (drop object_id_bytes after_name)))))"
  by pat_completeness auto
termination
  by (relation "measure (\<lambda>(_, _, contents). length contents)") (auto dest!: split_once_length)

declare raw_tree_entries.simps [simp del]

definition parse_raw_git_tree :: "string \<Rightarrow> string \<Rightarrow> string \<Rightarrow> raw_tree_entry list migration_result" where
  "parse_raw_git_tree contents tree_id command_name =
     (let object_id_bytes = length tree_id div 2 in
      if object_id_bytes \<noteq> 20 \<and> object_id_bytes \<noteq> 32
      then Inl (MigExternalCommandOutput command_name ''git returned an invalid tree object ID'')
      else raw_tree_entries object_id_bytes command_name contents)"

section \<open>The scanner\<close>

record tree_blob =
  tb_object_id :: string
  tb_relative_path :: path
  tb_relative_path_bytes :: string

record tree_summary =
  ts_pointer_blobs :: "tree_blob list"
  ts_attribute_blobs :: "(path \<times> string) list"

record pointer_occurrence =
  oc_commit :: string
  oc_relative_path :: path
  oc_object :: lfs_object

record history_pointer =
  hp_ref_name :: string
  hp_commit :: string
  hp_relative_path :: path
  hp_object :: lfs_object

record history_metrics =
  hm_cat_file_processes :: nat
  hm_attribute_processes :: nat
  hm_tree_entries_inspected :: nat
  hm_blobs_inspected :: nat

text \<open>The scanner of one run; \<open>hs_stream\<close> is what \<open>git cat-file\<close> has printed and was not read yet.\<close>

record history_scanner =
  hs_stream :: string
  hs_tree_cache :: "string \<rightharpoonup> tree_summary"
  hs_blob_pointer_cache :: "string \<rightharpoonup> lfs_pointer option"
  hs_attribute_cache :: "(path \<times> string) list \<times> path list \<rightharpoonup> path set"
  hs_commit_cache :: "string \<rightharpoonup> pointer_occurrence list"
  hs_pointers :: "history_pointer list"
  hs_seen :: "(string \<times> path \<times> lfs_object) set"
  hs_metrics :: history_metrics

text \<open>
  \<open>hv_request\<close> is what the process prints in answer to one line of input; the waiting and the two
  pipes may fail at the end.
\<close>

record history_env =
  hv_git :: migration_env
  hv_spawn_reader :: "path \<Rightarrow> string option"
  hv_request :: "string \<Rightarrow> string \<Rightarrow> string + string"
  hv_read_error :: "string \<Rightarrow> string option"
  hv_wait :: "string + int option"
  hv_stderr :: "string option + string"

text \<open>Recursion over trees is as deep as the model's bound allows; running out of it is a stop of its own.\<close>

datatype scan_stop = ScanFailed migration_error | ScanTooDeep

type_synonym 'a scan = "(history_scanner, scan_stop, 'a) sr"

definition scan_lift :: "'a migration_result \<Rightarrow> 'a scan" where
  "scan_lift r = lift_sr (map_err ScanFailed r)"

definition scan_fail :: "string \<Rightarrow> string \<Rightarrow> 'a scan" where
  "scan_fail command message = scan_lift (Inl (MigExternalCommandOutput command message))"

definition scan_get :: "(history_scanner \<Rightarrow> 'a) \<Rightarrow> 'a scan" where
  "scan_get f s = (Inr (f s), s)"

definition scan_modify :: "(history_scanner \<Rightarrow> history_scanner) \<Rightarrow> unit scan" where
  "scan_modify f s = (Inr (), f s)"

section \<open>The object reader\<close>

definition write_request :: "history_env \<Rightarrow> string \<Rightarrow> string \<Rightarrow> string \<Rightarrow> unit scan" where
  "write_request V operation object_id command_name =
     (if \<not> is_git_object_id object_id then scan_fail command_name ''git object request contained an invalid ID''
      else bind_sr (scan_lift (map_err (MigIo (''failed to write '' @ command_name @ '' request'')) (hv_request V operation object_id)))
        (\<lambda>printed. scan_modify (hs_stream_update (\<lambda>stream. stream @ printed))))"

definition read_fault :: "history_env \<Rightarrow> string \<Rightarrow> unit scan" where
  "read_fault V context = scan_lift (case hv_read_error V context of Some source \<Rightarrow> Inl (MigIo context source) | None \<Rightarrow> Inr ())"

text \<open>\<open>read_until\<close> and \<open>read_exact\<close> on the buffered pipe; a pipe that ends early has been closed.\<close>

definition read_line :: "history_env \<Rightarrow> string \<Rightarrow> string option scan" where
  "read_line V context = bind_sr (read_fault V context) (\<lambda>_ s.
     (case split_once LF (hs_stream s) of
        Some (line, rest) \<Rightarrow> (Inr (Some line), s\<lparr>hs_stream := rest\<rparr>)
      | None \<Rightarrow> (Inr None, s\<lparr>hs_stream := []\<rparr>)))"

definition read_exact :: "history_env \<Rightarrow> string \<Rightarrow> nat \<Rightarrow> string scan" where
  "read_exact V context n = bind_sr (read_fault V context) (\<lambda>_ s.
     (if length (hs_stream s) < n
      then (Inl (ScanFailed (MigIo context ''failed to fill whole buffer'')), s\<lparr>hs_stream := []\<rparr>)
      else (Inr (take n (hs_stream s)), s\<lparr>hs_stream := drop n (hs_stream s)\<rparr>)))"

definition parse_object_header :: "string \<Rightarrow> string \<Rightarrow> string \<Rightarrow> (string \<times> u64) migration_result" where
  "parse_object_header requested_object_id command_name header =
     (if ends_with '' missing'' header then Inl (MigGitObjectUnavailable requested_object_id)
      else if \<not> utf8_ok header
      then Inl (MigExternalCommandOutput command_name ''git returned non-UTF-8 batch object metadata'')
      else (case split_on CHR '' '' header of
          [object_id, object_type, size_text] \<Rightarrow>
            if object_id \<noteq> requested_object_id \<or> \<not> is_git_object_id object_id
            then Inl (MigExternalCommandOutput command_name ''git returned a mismatched batch object ID'')
            else map_res (\<lambda>n. (object_type, n))
              (map_err (\<lambda>_. MigExternalCommandOutput command_name ''git returned an invalid batch object size'') (parse_u64 size_text))
        | _ \<Rightarrow> Inl (MigExternalCommandOutput command_name ''git returned malformed batch object metadata'')))"

definition read_header :: "history_env \<Rightarrow> string \<Rightarrow> string \<Rightarrow> (string \<times> u64) scan" where
  "read_header V requested_object_id command_name =
     bind_sr (read_line V (''failed to read '' @ command_name @ '' response'')) (\<lambda>line. case line of
         None \<Rightarrow> scan_fail command_name ''git returned a truncated batch object header''
       | Some header \<Rightarrow> scan_lift (parse_object_header requested_object_id command_name header))"

definition object_info :: "history_env \<Rightarrow> string \<Rightarrow> string \<Rightarrow> (string \<times> u64) scan" where
  "object_info V object_id command_name =
     bind_sr (write_request V ''info'' object_id command_name) (\<lambda>_. read_header V object_id command_name)"

definition object_contents :: "history_env \<Rightarrow> string \<Rightarrow> string \<Rightarrow> nat \<Rightarrow> string \<Rightarrow> string scan" where
  "object_contents V object_id expected_type max_size command_name =
     bind_sr (write_request V ''contents'' object_id command_name) (\<lambda>_.
     bind_sr (read_header V object_id command_name) (\<lambda>(object_type, n).
       if object_type \<noteq> expected_type then scan_fail command_name ''git returned an unexpected object type''
       else if max_size < unat n then scan_fail command_name ''git returned too much object data''
       else bind_sr (read_exact V (''failed to read '' @ command_name @ '' object data'') (unat n)) (\<lambda>contents.
            bind_sr (read_exact V (''failed to read '' @ command_name @ '' object delimiter'') 1) (\<lambda>delimiter.
              if delimiter \<noteq> [LF] then scan_fail command_name ''git returned malformed batch object data''
              else ret_sr contents))))"

definition CAT_FILE :: string where
  "CAT_FILE = ''git cat-file --batch-command''"

definition object_reader_finish :: "history_env \<Rightarrow> unit migration_result" where
  "object_reader_finish V =
     bind_res (map_err (MigIo (''failed to wait for '' @ CAT_FILE)) (hv_wait V)) (\<lambda>code.
     bind_res (map_err (\<lambda>failure. case failure of
           None \<Rightarrow> MigIo (CAT_FILE @ '' stderr reader panicked'') ''git cat-file stderr reader panicked''
         | Some source \<Rightarrow> MigIo (''failed to read '' @ CAT_FILE @ '' stderr'') source) (hv_stderr V)) (\<lambda>stderr.
       (case read_pipe_with_limit stderr (MAX_MIGRATION_GIT_OUTPUT_BYTES + 1) of (bytes, exceeded_limit) \<Rightarrow>
        if code \<noteq> Some 0 then Inl (command_error (hv_git V) CAT_FILE code bytes)
        else if exceeded_limit
        then Inl (MigExternalCommandOutput CAT_FILE ''git returned too much batch diagnostic output'')
        else Inr ())))"

section \<open>Trees and blobs\<close>

definition count_blob :: "history_metrics \<Rightarrow> history_metrics" where
  "count_blob m = m\<lparr>hm_blobs_inspected := Suc (hm_blobs_inspected m)\<rparr>"

definition read_pointer_blob_candidate :: "history_env \<Rightarrow> string \<Rightarrow> lfs_pointer option scan" where
  "read_pointer_blob_candidate V object_id =
     (let command_name = CAT_FILE @ '' info '' @ object_id in
      bind_sr (object_info V object_id command_name) (\<lambda>(object_type, n).
        if object_type \<noteq> ''blob'' then scan_fail command_name ''git tree entry did not resolve to a blob''
        else if LFS_POINTER_SIZE_CUTOFF \<le> unat n then ret_sr None
        else bind_sr (object_contents V object_id ''blob'' LFS_POINTER_SIZE_CUTOFF (CAT_FILE @ '' contents '' @ object_id))
          (\<lambda>contents. ret_sr (small_pointer contents))))"

text \<open>The cached answer for a blob, read first when it is missing.\<close>

definition blob_pointer :: "history_env \<Rightarrow> string \<Rightarrow> lfs_pointer option scan" where
  "blob_pointer V object_id =
     bind_sr (scan_get (\<lambda>s. hs_blob_pointer_cache s object_id)) (\<lambda>cached. case cached of
         Some pointer \<Rightarrow> ret_sr pointer
       | None \<Rightarrow>
           bind_sr (scan_modify (hs_metrics_update count_blob)) (\<lambda>_.
           bind_sr (read_pointer_blob_candidate V object_id) (\<lambda>pointer.
           bind_sr (scan_modify (hs_blob_pointer_cache_update (\<lambda>cache. cache(object_id \<mapsto> pointer)))) (\<lambda>_.
             ret_sr pointer))))"

definition append_prefixed_tree_summary :: "tree_summary \<Rightarrow> path \<Rightarrow> string \<Rightarrow> tree_summary \<Rightarrow> tree_summary" where
  "append_prefixed_tree_summary target prefix prefix_bytes child =
     \<lparr>ts_pointer_blobs = ts_pointer_blobs target @ map (\<lambda>blob.
         \<lparr>tb_object_id = tb_object_id blob, tb_relative_path = fs_path_join prefix (tb_relative_path blob),
          tb_relative_path_bytes = prefix_bytes @ ''/'' @ tb_relative_path_bytes blob\<rparr>) (ts_pointer_blobs child),
      ts_attribute_blobs = ts_attribute_blobs target
         @ map (\<lambda>(p, object_id). (fs_path_join prefix p, object_id)) (ts_attribute_blobs child)\<rparr>"

definition add_pointer_blob :: "raw_tree_entry \<Rightarrow> path \<Rightarrow> lfs_pointer option \<Rightarrow> tree_summary \<Rightarrow> tree_summary" where
  "add_pointer_blob entry relative_path pointer summary = (case pointer of
       None \<Rightarrow> summary
     | Some _ \<Rightarrow> summary\<lparr>ts_pointer_blobs := ts_pointer_blobs summary
         @ [\<lparr>tb_object_id = rt_object_id entry, tb_relative_path = relative_path, tb_relative_path_bytes = rt_name entry\<rparr>]\<rparr>)"

definition add_attribute_blob :: "raw_tree_entry \<Rightarrow> path \<Rightarrow> tree_summary \<Rightarrow> tree_summary" where
  "add_attribute_blob entry relative_path summary =
     (if rt_name entry = ''.gitattributes''
      then summary\<lparr>ts_attribute_blobs := ts_attribute_blobs summary @ [(relative_path, rt_object_id entry)]\<rparr> else summary)"

definition add_tree_entry ::
  "history_env \<Rightarrow> (string \<Rightarrow> tree_summary scan) \<Rightarrow> string \<Rightarrow> raw_tree_entry \<Rightarrow> tree_summary \<Rightarrow> tree_summary scan" where
  "add_tree_entry V subtree command_name entry summary =
     bind_sr (scan_lift (migration_safe_git_relative_path (rt_name entry) command_name)) (\<lambda>relative_path.
       if rt_mode entry = ''40000''
       then bind_sr (subtree (rt_object_id entry)) (\<lambda>child.
              ret_sr (append_prefixed_tree_summary summary relative_path (rt_name entry) child))
       else if rt_mode entry = ''160000'' then ret_sr summary
       else if rt_mode entry \<notin> {''100644'', ''100755'', ''120000''}
       then scan_fail command_name ''git returned an unsupported tree mode''
       else bind_sr (blob_pointer V (rt_object_id entry)) (\<lambda>pointer.
              ret_sr (add_pointer_blob entry relative_path pointer (add_attribute_blob entry relative_path summary))))"

primrec add_tree_entries ::
  "history_env \<Rightarrow> (string \<Rightarrow> tree_summary scan) \<Rightarrow> string \<Rightarrow> raw_tree_entry list \<Rightarrow> tree_summary \<Rightarrow> tree_summary scan" where
  "add_tree_entries V subtree command_name [] summary = ret_sr summary"
| "add_tree_entries V subtree command_name (entry # entries) summary =
     bind_sr (add_tree_entry V subtree command_name entry summary) (add_tree_entries V subtree command_name entries)"

definition empty_summary :: tree_summary where
  "empty_summary = \<lparr>ts_pointer_blobs = [], ts_attribute_blobs = []\<rparr>"

definition sorted_summary :: "tree_summary \<Rightarrow> tree_summary" where
  "sorted_summary summary =
     \<lparr>ts_pointer_blobs = sort_key tb_relative_path (ts_pointer_blobs summary), ts_attribute_blobs = sort (ts_attribute_blobs summary)\<rparr>"

definition count_entries :: "nat \<Rightarrow> history_metrics \<Rightarrow> history_metrics" where
  "count_entries n m = m\<lparr>hm_tree_entries_inspected := hm_tree_entries_inspected m + n\<rparr>"

definition tree_command :: "string \<Rightarrow> string" where
  "tree_command tree_id = CAT_FILE @ '' tree '' @ tree_id"

primrec read_tree_summary :: "history_env \<Rightarrow> nat \<Rightarrow> string \<Rightarrow> tree_summary scan" where
  "read_tree_summary V 0 = (\<lambda>tree_id. lift_sr (Inl ScanTooDeep))"
| "read_tree_summary V (Suc depth) = (\<lambda>tree_id.
     bind_sr (scan_get (\<lambda>s. hs_tree_cache s tree_id)) (\<lambda>cached. case cached of
         Some summary \<Rightarrow> ret_sr summary
       | None \<Rightarrow>
           bind_sr (object_contents V tree_id ''tree'' MAX_HISTORY_TREE_OUTPUT_BYTES (tree_command tree_id)) (\<lambda>contents.
           bind_sr (scan_lift (parse_raw_git_tree contents tree_id (tree_command tree_id))) (\<lambda>entries.
           bind_sr (scan_modify (hs_metrics_update (count_entries (length entries)))) (\<lambda>_.
           bind_sr (add_tree_entries V (read_tree_summary V depth) (tree_command tree_id) entries empty_summary) (\<lambda>summary.
           bind_sr (scan_modify (hs_tree_cache_update (\<lambda>cache. cache(tree_id \<mapsto> sorted_summary summary)))) (\<lambda>_.
             ret_sr (sorted_summary summary))))))))"

section \<open>Attributes of the pointers of a commit\<close>

definition append_git_check_attr_lfs_paths ::
  "history_env \<Rightarrow> path \<Rightarrow> string \<Rightarrow> string \<Rightarrow> path set \<Rightarrow> path set migration_result" where
  "append_git_check_attr_lfs_paths V worktree_root commit path_input lfs_paths =
     bind_res (git_check_attr_filter_with_source (hv_git V) worktree_root path_input (Some commit)) (\<lambda>attributes.
     map_res (\<lambda>paths. lfs_paths \<union> set paths)
       (parse_git_check_attr_filter_stdout (co_stdout attributes) (git_check_attr_filter_command_name (Some commit))))"

text \<open>Batches of at most \<open>MAX_HISTORY_CHECK_ATTR_INPUT_BYTES\<close>.\<close>

fun check_attr_batches ::
  "history_env \<Rightarrow> path \<Rightarrow> string \<Rightarrow> tree_blob list \<Rightarrow> string \<Rightarrow> path set \<times> nat \<Rightarrow> (path set \<times> nat) migration_result" where
  "check_attr_batches V worktree_root commit [] path_input (lfs_paths, process_count) =
     (if path_input = [] then Inr (lfs_paths, process_count)
      else map_res (\<lambda>paths. (paths, Suc process_count))
             (append_git_check_attr_lfs_paths V worktree_root commit path_input lfs_paths))"
| "check_attr_batches V worktree_root commit (blob # blobs) path_input (lfs_paths, process_count) =
     (let entry = tb_relative_path_bytes blob @ [CHR 0x00] in
      if MAX_HISTORY_CHECK_ATTR_INPUT_BYTES < length entry
      then Inl (MigExternalCommandOutput (git_check_attr_filter_command_name (Some commit))
             ''historical pointer path is too large for attribute lookup'')
      else if path_input \<noteq> [] \<and> MAX_HISTORY_CHECK_ATTR_INPUT_BYTES < length path_input + length entry
      then bind_res (append_git_check_attr_lfs_paths V worktree_root commit path_input lfs_paths) (\<lambda>paths.
             check_attr_batches V worktree_root commit blobs entry (paths, Suc process_count))
      else check_attr_batches V worktree_root commit blobs (path_input @ entry) (lfs_paths, process_count))"

definition git_check_attr_lfs_paths_for_tree_blobs ::
  "history_env \<Rightarrow> path \<Rightarrow> tree_blob list \<Rightarrow> string \<Rightarrow> (path set \<times> nat) migration_result" where
  "git_check_attr_lfs_paths_for_tree_blobs V worktree_root blobs commit =
     check_attr_batches V worktree_root commit blobs [] ({}, 0)"

definition count_attributes :: "nat \<Rightarrow> history_metrics \<Rightarrow> history_metrics" where
  "count_attributes n m = m\<lparr>hm_attribute_processes := hm_attribute_processes m + n\<rparr>"

definition attribute_query_key :: "tree_summary \<Rightarrow> (path \<times> string) list \<times> path list" where
  "attribute_query_key summary = (ts_attribute_blobs summary, map tb_relative_path (ts_pointer_blobs summary))"

definition commit_lfs_paths :: "history_env \<Rightarrow> path \<Rightarrow> history_commit \<Rightarrow> tree_summary \<Rightarrow> path set scan" where
  "commit_lfs_paths V worktree_root commit summary =
     bind_sr (scan_get (\<lambda>s. hs_attribute_cache s (attribute_query_key summary))) (\<lambda>cached. case cached of
         Some paths \<Rightarrow> ret_sr paths
       | None \<Rightarrow>
           bind_sr (scan_lift (git_check_attr_lfs_paths_for_tree_blobs V worktree_root (ts_pointer_blobs summary)
               (hc_object_id commit))) (\<lambda>(paths, process_count).
           bind_sr (scan_modify (hs_metrics_update (count_attributes process_count))) (\<lambda>_.
           bind_sr (scan_modify (hs_attribute_cache_update (\<lambda>cache. cache(attribute_query_key summary \<mapsto> paths)))) (\<lambda>_.
             ret_sr paths))))"

section \<open>Commits and refs\<close>

text \<open>
  The pointer of a blob in the tree summary is in the blob cache (the code panics otherwise; the
  model then stops with the same text as an internal failure).
\<close>

primrec pointer_occurrences :: "string \<Rightarrow> tree_blob list \<Rightarrow> pointer_occurrence list scan" where
  "pointer_occurrences commit [] = ret_sr []"
| "pointer_occurrences commit (blob # blobs) =
     bind_sr (scan_get (\<lambda>s. hs_blob_pointer_cache s (tb_object_id blob))) (\<lambda>cached. case cached of
         Some (Some pointer) \<Rightarrow> bind_sr (pointer_occurrences commit blobs) (\<lambda>rest.
             ret_sr (\<lparr>oc_commit = commit, oc_relative_path = tb_relative_path blob, oc_object = ptr_object pointer\<rparr> # rest))
       | _ \<Rightarrow> scan_fail [] ''tree summaries contain only parsed pointer blobs'')"

definition scan_commit :: "history_env \<Rightarrow> nat \<Rightarrow> path \<Rightarrow> history_commit \<Rightarrow> pointer_occurrence list scan" where
  "scan_commit V depth worktree_root commit =
     bind_sr (read_tree_summary V depth (hc_tree_id commit)) (\<lambda>summary.
       if ts_pointer_blobs summary = [] then ret_sr []
       else bind_sr (commit_lfs_paths V worktree_root commit summary) (\<lambda>lfs_paths.
         pointer_occurrences (hc_object_id commit)
           (filter (\<lambda>blob. tb_relative_path blob \<in> lfs_paths) (ts_pointer_blobs summary))))"

definition occurrence_key :: "pointer_occurrence \<Rightarrow> string \<times> path \<times> lfs_object" where
  "occurrence_key oc = (oc_commit oc, oc_relative_path oc, oc_object oc)"

definition add_occurrence :: "string \<Rightarrow> pointer_occurrence \<Rightarrow> history_scanner \<Rightarrow> history_scanner" where
  "add_occurrence ref_name oc s =
     (if occurrence_key oc \<in> hs_seen s then s
      else s\<lparr>hs_seen := insert (occurrence_key oc) (hs_seen s), hs_pointers := hs_pointers s
        @ [\<lparr>hp_ref_name = ref_name, hp_commit = oc_commit oc, hp_relative_path = oc_relative_path oc, hp_object = oc_object oc\<rparr>]\<rparr>)"

definition commit_occurrences :: "history_env \<Rightarrow> nat \<Rightarrow> path \<Rightarrow> history_commit \<Rightarrow> pointer_occurrence list scan" where
  "commit_occurrences V depth worktree_root commit =
     bind_sr (scan_get (\<lambda>s. hs_commit_cache s (hc_object_id commit))) (\<lambda>cached. case cached of
         Some occurrences \<Rightarrow> ret_sr occurrences
       | None \<Rightarrow>
           bind_sr (scan_commit V depth worktree_root commit) (\<lambda>occurrences.
           bind_sr (scan_modify (hs_commit_cache_update (\<lambda>cache. cache(hc_object_id commit \<mapsto> occurrences)))) (\<lambda>_.
             ret_sr occurrences)))"

primrec scan_commits :: "history_env \<Rightarrow> nat \<Rightarrow> path \<Rightarrow> string \<Rightarrow> history_commit list \<Rightarrow> unit scan" where
  "scan_commits V depth worktree_root ref_name [] = ret_sr ()"
| "scan_commits V depth worktree_root ref_name (commit # commits) =
     bind_sr (commit_occurrences V depth worktree_root commit) (\<lambda>occurrences.
     bind_sr (scan_modify (fold (add_occurrence ref_name) occurrences)) (\<lambda>_.
       scan_commits V depth worktree_root ref_name commits))"

definition scan_ref :: "history_env \<Rightarrow> nat \<Rightarrow> path \<Rightarrow> scanned_ref \<Rightarrow> unit scan" where
  "scan_ref V depth worktree_root scanned_ref =
     bind_sr (scan_lift (rev_list_commits (hv_git V) worktree_root (sf_commit scanned_ref)))
       (scan_commits V depth worktree_root (sf_name scanned_ref))"

primrec scan_refs :: "history_env \<Rightarrow> nat \<Rightarrow> path \<Rightarrow> scanned_ref list \<Rightarrow> unit scan" where
  "scan_refs V depth worktree_root [] = ret_sr ()"
| "scan_refs V depth worktree_root (r # rs) =
     bind_sr (scan_ref V depth worktree_root r) (\<lambda>_. scan_refs V depth worktree_root rs)"

definition no_metrics :: history_metrics where
  "no_metrics = \<lparr>hm_cat_file_processes = 0, hm_attribute_processes = 0, hm_tree_entries_inspected = 0, hm_blobs_inspected = 0\<rparr>"

definition history_scanner_new :: history_scanner where
  "history_scanner_new = \<lparr>hs_stream = [], hs_tree_cache = (\<lambda>_. None), hs_blob_pointer_cache = (\<lambda>_. None),
     hs_attribute_cache = (\<lambda>_. None), hs_commit_cache = (\<lambda>_. None), hs_pointers = [], hs_seen = {},
     hs_metrics = no_metrics\<lparr>hm_cat_file_processes := 1\<rparr>\<rparr>"

record history_pointers =
  hq_worktree_root :: path
  hq_refs :: "scanned_ref list"
  hq_pointers :: "history_pointer list"

definition scan_resolved_history_refs ::
  "history_env \<Rightarrow> nat \<Rightarrow> path \<Rightarrow> scanned_ref list \<Rightarrow> scan_stop + history_pointers \<times> history_metrics" where
  "scan_resolved_history_refs V depth worktree_root scanned_refs =
     (if scanned_refs = [] then Inr (\<lparr>hq_worktree_root = worktree_root, hq_refs = [], hq_pointers = []\<rparr>, no_metrics)
      else (case hv_spawn_reader V worktree_root of
          Some source \<Rightarrow> Inl (ScanFailed (MigIo (''failed to start '' @ CAT_FILE) source))
        | None \<Rightarrow> (case scan_refs V depth worktree_root scanned_refs history_scanner_new of
            (Inl stop, _) \<Rightarrow> Inl stop
          | (Inr _, s) \<Rightarrow> map_res (\<lambda>_. (\<lparr>hq_worktree_root = worktree_root, hq_refs = scanned_refs,
                hq_pointers = hs_pointers s\<rparr>, hs_metrics s))
              (map_err ScanFailed (object_reader_finish V)))))"

definition resolve_named_ref :: "migration_env \<Rightarrow> path \<Rightarrow> string \<Rightarrow> scanned_ref migration_result" where
  "resolve_named_ref M worktree_root ref_name =
     map_res (\<lambda>commit. \<lparr>sf_name = ref_name, sf_commit = commit\<rparr>) (resolve_ref_commit M worktree_root ref_name)"

definition enumerate_selected_ref_lfs_pointers_with_metrics ::
  "history_env \<Rightarrow> nat \<Rightarrow> path \<Rightarrow> string list \<Rightarrow> scan_stop + history_pointers \<times> history_metrics" where
  "enumerate_selected_ref_lfs_pointers_with_metrics V depth start_dir refs =
     bind_res (map_err ScanFailed
       (bind_res (detect_worktree_root (hv_git V) start_dir) (\<lambda>worktree_root.
        bind_res (require_historical_scan_git_version (hv_git V) worktree_root) (\<lambda>_.
        bind_res (require_complete_history (hv_git V) worktree_root) (\<lambda>_.
        map_res (\<lambda>scanned_refs. (worktree_root, scanned_refs))
          (traverse_res (\<lambda>ref_name. bind_res (validate_history_ref_name ref_name) (\<lambda>_.
             resolve_named_ref (hv_git V) worktree_root ref_name)) refs))))))
       (\<lambda>(worktree_root, scanned_refs). scan_resolved_history_refs V depth worktree_root scanned_refs)"

definition enumerate_selected_ref_lfs_pointers ::
  "history_env \<Rightarrow> nat \<Rightarrow> path \<Rightarrow> string list \<Rightarrow> scan_stop + history_pointers" where
  "enumerate_selected_ref_lfs_pointers V depth start_dir refs =
     map_res fst (enumerate_selected_ref_lfs_pointers_with_metrics V depth start_dir refs)"

definition validate_source_remote_name :: "string \<Rightarrow> string migration_result" where
  "validate_source_remote_name source_remote =
     (if trim source_remote = [] \<or> length (trim source_remote) \<noteq> length source_remote
         \<or> has_control source_remote \<or> has_whitespace source_remote
      then Inl (MigInvalidInput
        ''source remote name must not be blank, padded, or contain whitespace or control characters'')
      else Inr source_remote)"

definition enumerate_fetched_ref_lfs_pointers_for_remote ::
  "history_env \<Rightarrow> nat \<Rightarrow> path \<Rightarrow> string \<Rightarrow> scan_stop + history_pointers" where
  "enumerate_fetched_ref_lfs_pointers_for_remote V depth start_dir source_remote =
     bind_res (map_err ScanFailed
       (bind_res (detect_worktree_root (hv_git V) start_dir) (\<lambda>worktree_root.
        bind_res (require_historical_scan_git_version (hv_git V) worktree_root) (\<lambda>_.
        bind_res (require_complete_history (hv_git V) worktree_root) (\<lambda>_.
        bind_res (validate_source_remote_name source_remote) (\<lambda>remote.
        bind_res (all_fetched_ref_names (hv_git V) worktree_root remote) (\<lambda>refs.
        map_res (\<lambda>scanned_refs. (worktree_root, scanned_refs))
          (traverse_res (resolve_named_ref (hv_git V) worktree_root) refs))))))))
       (\<lambda>(worktree_root, scanned_refs). map_res fst (scan_resolved_history_refs V depth worktree_root scanned_refs))"

definition DEFAULT_REMOTE_NAME :: string where
  "DEFAULT_REMOTE_NAME = ''origin''"

definition enumerate_all_fetched_ref_lfs_pointers :: "history_env \<Rightarrow> nat \<Rightarrow> path \<Rightarrow> scan_stop + history_pointers" where
  "enumerate_all_fetched_ref_lfs_pointers V depth start_dir =
     enumerate_fetched_ref_lfs_pointers_for_remote V depth start_dir DEFAULT_REMOTE_NAME"

end
