(* ===== verification/Migration_Scan.thy ===== *)
theory Migration_Scan
  imports Migration_History
begin

text \<open>
  The caches of the history scanner change nothing: over an object store that answers as Git
  documents it, the scan returns what a scan without any cache computes, errors included.
\<close>

section \<open>Scanning without caches\<close>

text \<open>An object store: type and content of each object.\<close>

type_synonym object_store = "string \<Rightarrow> (string \<times> string) option"

definition plain_info :: "object_store \<Rightarrow> string \<Rightarrow> string \<Rightarrow> (string \<times> u64) migration_result" where
  "plain_info G object_id command_name =
     (if \<not> is_git_object_id object_id then Inl (MigExternalCommandOutput command_name ''git object request contained an invalid ID'')
      else case G object_id of
          None \<Rightarrow> Inl (MigGitObjectUnavailable object_id)
        | Some (object_type, bytes) \<Rightarrow> Inr (object_type, of_nat (length bytes)))"

definition plain_contents :: "object_store \<Rightarrow> string \<Rightarrow> string \<Rightarrow> nat \<Rightarrow> string \<Rightarrow> string migration_result" where
  "plain_contents G object_id expected_type max_size command_name =
     bind_res (plain_info G object_id command_name) (\<lambda>(object_type, n).
       if object_type \<noteq> expected_type then Inl (MigExternalCommandOutput command_name ''git returned an unexpected object type'')
       else if max_size < unat n then Inl (MigExternalCommandOutput command_name ''git returned too much object data'')
       else Inr (snd (the (G object_id))))"

definition plain_blob :: "object_store \<Rightarrow> string \<Rightarrow> lfs_pointer option migration_result" where
  "plain_blob G object_id =
     (let command_name = CAT_FILE @ '' info '' @ object_id in
      bind_res (plain_info G object_id command_name) (\<lambda>(object_type, n).
        if object_type \<noteq> ''blob'' then Inl (MigExternalCommandOutput command_name ''git tree entry did not resolve to a blob'')
        else if LFS_POINTER_SIZE_CUTOFF \<le> unat n then Inr None
        else map_res small_pointer
          (plain_contents G object_id ''blob'' LFS_POINTER_SIZE_CUTOFF (CAT_FILE @ '' contents '' @ object_id))))"

type_synonym 'a plain = "scan_stop + 'a"

definition plain_entry ::
  "object_store \<Rightarrow> (string \<Rightarrow> tree_summary plain) \<Rightarrow> string \<Rightarrow> raw_tree_entry \<Rightarrow> tree_summary \<Rightarrow> tree_summary plain" where
  "plain_entry G subtree command_name entry summary =
     bind_res (map_err ScanFailed (migration_safe_git_relative_path (rt_name entry) command_name)) (\<lambda>relative_path.
       if rt_mode entry = ''40000''
       then bind_res (subtree (rt_object_id entry)) (\<lambda>child.
              Inr (append_prefixed_tree_summary summary relative_path (rt_name entry) child))
       else if rt_mode entry = ''160000'' then Inr summary
       else if rt_mode entry \<notin> {''100644'', ''100755'', ''120000''}
       then Inl (ScanFailed (MigExternalCommandOutput command_name ''git returned an unsupported tree mode''))
       else bind_res (map_err ScanFailed (plain_blob G (rt_object_id entry))) (\<lambda>pointer.
              Inr (add_pointer_blob entry relative_path pointer (add_attribute_blob entry relative_path summary))))"

primrec plain_entries ::
  "object_store \<Rightarrow> (string \<Rightarrow> tree_summary plain) \<Rightarrow> string \<Rightarrow> raw_tree_entry list \<Rightarrow> tree_summary \<Rightarrow> tree_summary plain" where
  "plain_entries G subtree command_name [] summary = Inr summary"
| "plain_entries G subtree command_name (entry # entries) summary =
     bind_res (plain_entry G subtree command_name entry summary) (plain_entries G subtree command_name entries)"

primrec plain_tree :: "object_store \<Rightarrow> nat \<Rightarrow> string \<Rightarrow> tree_summary plain" where
  "plain_tree G 0 = (\<lambda>tree_id. Inl ScanTooDeep)"
| "plain_tree G (Suc depth) = (\<lambda>tree_id.
     bind_res (map_err ScanFailed (plain_contents G tree_id ''tree'' MAX_HISTORY_TREE_OUTPUT_BYTES (tree_command tree_id))) (\<lambda>contents.
     bind_res (map_err ScanFailed (parse_raw_git_tree contents tree_id (tree_command tree_id))) (\<lambda>entries.
     bind_res (plain_entries G (plain_tree G depth) (tree_command tree_id) entries empty_summary) (\<lambda>summary.
       Inr (sorted_summary summary)))))"

definition plain_occurrence :: "object_store \<Rightarrow> string \<Rightarrow> tree_blob \<Rightarrow> pointer_occurrence option" where
  "plain_occurrence G commit blob = (case plain_blob G (tb_object_id blob) of
       Inr (Some pointer) \<Rightarrow> Some \<lparr>oc_commit = commit, oc_relative_path = tb_relative_path blob, oc_object = ptr_object pointer\<rparr>
     | _ \<Rightarrow> None)"

definition plain_commit :: "history_env \<Rightarrow> object_store \<Rightarrow> nat \<Rightarrow> path \<Rightarrow> history_commit \<Rightarrow> pointer_occurrence list plain" where
  "plain_commit V G depth worktree_root commit =
     bind_res (plain_tree G depth (hc_tree_id commit)) (\<lambda>summary.
       if ts_pointer_blobs summary = [] then Inr []
       else bind_res (map_err ScanFailed (git_check_attr_lfs_paths_for_tree_blobs V worktree_root
              (ts_pointer_blobs summary) (hc_object_id commit))) (\<lambda>(lfs_paths, _).
         Inr (List.map_filter (plain_occurrence G (hc_object_id commit))
           (filter (\<lambda>blob. tb_relative_path blob \<in> lfs_paths) (ts_pointer_blobs summary)))))"

definition named_pointer :: "string \<Rightarrow> pointer_occurrence \<Rightarrow> history_pointer" where
  "named_pointer ref_name oc = \<lparr>hp_ref_name = ref_name, hp_commit = oc_commit oc, hp_relative_path = oc_relative_path oc,
     hp_object = oc_object oc\<rparr>"

definition plain_ref :: "history_env \<Rightarrow> object_store \<Rightarrow> nat \<Rightarrow> path \<Rightarrow> scanned_ref \<Rightarrow> history_pointer list plain" where
  "plain_ref V G depth worktree_root r =
     bind_res (map_err ScanFailed (rev_list_commits (hv_git V) worktree_root (sf_commit r))) (\<lambda>commits.
     map_res (\<lambda>occurrences. map (named_pointer (sf_name r)) (concat occurrences))
       (traverse_res (plain_commit V G depth worktree_root) commits))"

text \<open>The first pointer of each commit, path and object.\<close>

definition pointer_key :: "history_pointer \<Rightarrow> string \<times> path \<times> lfs_object" where
  "pointer_key hp = (hp_commit hp, hp_relative_path hp, hp_object hp)"

fun first_of_each :: "('a \<Rightarrow> 'k) \<Rightarrow> 'k set \<Rightarrow> 'a list \<Rightarrow> 'a list" where
  "first_of_each key seen [] = []"
| "first_of_each key seen (x # xs) =
     (if key x \<in> seen then first_of_each key seen xs else x # first_of_each key (insert (key x) seen) xs)"

definition plain_scan :: "history_env \<Rightarrow> object_store \<Rightarrow> nat \<Rightarrow> path \<Rightarrow> scanned_ref list \<Rightarrow> history_pointer list plain" where
  "plain_scan V G depth worktree_root refs =
     map_res (\<lambda>found. first_of_each pointer_key {} (concat found)) (traverse_res (plain_ref V G depth worktree_root) refs)"

section \<open>What Git documents\<close>

text \<open>The answers of \<open>git cat-file --batch-command\<close> for the identifiers it prints, in lower case.\<close>

definition object_header :: "string \<Rightarrow> string \<Rightarrow> string \<Rightarrow> string" where
  "object_header object_id object_type bytes =
     object_id @ '' '' @ object_type @ '' '' @ nat_dec (length bytes) @ [LF]"

definition printed_id :: "string \<Rightarrow> bool" where
  "printed_id s \<longleftrightarrow> is_git_object_id s \<and> list_all is_lower_hex s"

definition cat_file_answers :: "history_env \<Rightarrow> object_store \<Rightarrow> bool" where
  "cat_file_answers V G \<longleftrightarrow>
     (\<forall>object_id. printed_id object_id \<longrightarrow> (case G object_id of
          None \<Rightarrow> hv_request V ''info'' object_id = Inr (object_id @ '' missing'' @ [LF])
            \<and> hv_request V ''contents'' object_id = Inr (object_id @ '' missing'' @ [LF])
        | Some (object_type, bytes) \<Rightarrow> object_type \<in> {''blob'', ''tree'', ''commit'', ''tag''} \<and> length bytes < 2 ^ 64
            \<and> hv_request V ''info'' object_id = Inr (object_header object_id object_type bytes)
            \<and> hv_request V ''contents'' object_id = Inr (object_header object_id object_type bytes @ bytes @ [LF])))
     \<and> (\<forall>step. hv_read_error V step = None) \<and> hv_wait V = Inr (Some 0) \<and> hv_stderr V = Inr []"

text \<open>
  The attribute answers for two commits agree when their trees have the same attribute files and the
  same pointer paths, and a commit has one tree.
\<close>

definition attributes_follow_tree :: "history_env \<Rightarrow> object_store \<Rightarrow> path \<Rightarrow> history_commit set \<Rightarrow> bool" where
  "attributes_follow_tree V G worktree_root commits \<longleftrightarrow>
     (\<forall>c \<in> commits. \<forall>c' \<in> commits. \<forall>d d' S S' P n. plain_tree G d (hc_tree_id c) = Inr S \<longrightarrow> plain_tree G d' (hc_tree_id c') = Inr S'
        \<longrightarrow> attribute_query_key S = attribute_query_key S'
        \<longrightarrow> git_check_attr_lfs_paths_for_tree_blobs V worktree_root (ts_pointer_blobs S) (hc_object_id c) = Inr (P, n)
        \<longrightarrow> (\<exists>n'. git_check_attr_lfs_paths_for_tree_blobs V worktree_root (ts_pointer_blobs S') (hc_object_id c') = Inr (P, n')))"

definition commits_listed :: "history_commit set \<Rightarrow> bool" where
  "commits_listed commits \<longleftrightarrow>
     (\<forall>c \<in> commits. printed_id (hc_tree_id c))
     \<and> (\<forall>c \<in> commits. \<forall>c' \<in> commits. hc_object_id c = hc_object_id c' \<longrightarrow> hc_tree_id c = hc_tree_id c')"

section \<open>Steps that compute a plain result\<close>

text \<open>
  From every state in \<open>P\<close> the step returns \<open>p\<close>, and leaves \<open>Q\<close> when that is a value; nothing is said
  where the plain computation runs out of depth.
\<close>

definition computes ::
  "(history_scanner \<Rightarrow> bool) \<Rightarrow> 'a scan \<Rightarrow> 'a plain \<Rightarrow> ('a \<Rightarrow> history_scanner \<Rightarrow> bool) \<Rightarrow> bool" where
  "computes P m p Q \<longleftrightarrow> (\<forall>s. P s \<longrightarrow> p = Inl ScanTooDeep
     \<or> fst (m s) = p \<and> (\<forall>x. p = Inr x \<longrightarrow> Q x (snd (m s))))"

lemma computes_bind:
  assumes "computes P m p Q" "\<And>x. p = Inr x \<Longrightarrow> computes (Q x) (f x) (g x) R"
  shows "computes P (bind_sr m f) (bind_res p g) R"
  unfolding computes_def
proof (intro allI impI)
  fix s assume "P s"
  then have m: "p = Inl ScanTooDeep \<or> fst (m s) = p \<and> (\<forall>x. p = Inr x \<longrightarrow> Q x (snd (m s)))"
    using assms(1) by (simp add: computes_def)
  show "bind_res p g = Inl ScanTooDeep
    \<or> fst (bind_sr m f s) = bind_res p g \<and> (\<forall>x. bind_res p g = Inr x \<longrightarrow> R x (snd (bind_sr m f s)))"
  proof (cases p)
    case (Inl e)
    then show ?thesis using m by (cases "m s") (auto simp: bind_sr_def)
  next
    case (Inr x)
    then have "m s = (Inr x, snd (m s))" "Q x (snd (m s))" using m by (cases "m s"; simp)+
    moreover have "computes (Q x) (f x) (g x) R" using assms(2) Inr by simp
    ultimately show ?thesis using Inr by (auto simp: computes_def bind_sr_def split: prod.splits)
  qed
qed

lemma computes_lift: "(\<And>x s. r = Inr x \<Longrightarrow> P s \<Longrightarrow> Q x s) \<Longrightarrow> computes P (scan_lift r) (map_err ScanFailed r) Q"
  by (auto simp: computes_def scan_lift_def)

lemma computes_fail: "computes P (scan_fail c m) (Inl (ScanFailed (MigExternalCommandOutput c m))) Q"
  by (simp add: computes_def scan_fail_def scan_lift_def)

lemma computes_ret: "(\<And>s. P s \<Longrightarrow> Q x s) \<Longrightarrow> computes P (ret_sr x) (Inr x) Q"
  by (simp add: computes_def)

lemma computes_modify: "(\<And>s. P s \<Longrightarrow> Q () (f s)) \<Longrightarrow> computes P (scan_modify f) (Inr ()) Q"
  by (simp add: computes_def scan_modify_def)

lemma computes_pre: "computes P m p Q \<Longrightarrow> (\<And>s. P' s \<Longrightarrow> P s) \<Longrightarrow> computes P' m p Q"
  by (simp add: computes_def)

lemma computes_post: "computes P m p Q \<Longrightarrow> (\<And>x s. p = Inr x \<Longrightarrow> Q x s \<Longrightarrow> Q' x s) \<Longrightarrow> computes P m p Q'"
  unfolding computes_def by blast

lemma computes_deep: "computes P m (Inl ScanTooDeep) Q"
  by (simp add: computes_def)

lemma computes_if: "(c \<Longrightarrow> computes P m p Q) \<Longrightarrow> (\<not> c \<Longrightarrow> computes P m' p' Q)
  \<Longrightarrow> computes P (if c then m else m') (if c then p else p') Q"
  by simp

lemma computesD: "computes P m p Q \<Longrightarrow> P s \<Longrightarrow> p \<noteq> Inl ScanTooDeep \<Longrightarrow> fst (m s) = p \<and> (p = Inr x \<longrightarrow> Q x (snd (m s)))"
  by (simp add: computes_def)

text \<open>Reading part of the state: the rest is shown for each value it can have.\<close>

lemma computes_get: "(\<And>v. computes (\<lambda>s. P s \<and> g s = v) (f v) p Q) \<Longrightarrow> computes P (bind_sr (scan_get g) f) p Q"
  by (simp add: computes_def bind_sr_def scan_get_def)

section \<open>The object reader\<close>

lemma printed_id_chars:
  assumes "printed_id object_id"
  shows "LF \<notin> set object_id" "CHR '' '' \<notin> set object_id" "list_all is_ascii object_id"
proof -
  have "\<forall>c \<in> set object_id. is_lower_hex c" using assms by (simp add: printed_id_def list_all_iff)
  then show "LF \<notin> set object_id" "CHR '' '' \<notin> set object_id" "list_all is_ascii object_id"
    by (auto simp: list_all_iff is_lower_hex_def is_digit_def byte_def is_ascii_def)
qed

lemma nat_dec_chars: "LF \<notin> set (nat_dec n)" "CHR '' '' \<notin> set (nat_dec n)" "list_all is_ascii (nat_dec n)" "is_digit (last (nat_dec n))"
proof -
  have "\<forall>c \<in> set (nat_dec n). is_digit c" using nat_dec_digits [of n] by (simp add: list_all_iff)
  then show "LF \<notin> set (nat_dec n)" "CHR '' '' \<notin> set (nat_dec n)" "list_all is_ascii (nat_dec n)" "is_digit (last (nat_dec n))"
    by (auto simp: list_all_iff is_digit_def byte_def is_ascii_def)
qed

lemma parse_u64_length: "n < 2 ^ 64 \<Longrightarrow> parse_u64 (nat_dec n) = Inr (of_nat n)"
  using parse_u64_nat_dec [of "of_nat n"] by (simp add: unat_of_nat)

definition header_line :: "string \<Rightarrow> string \<Rightarrow> nat \<Rightarrow> string" where
  "header_line object_id object_type n = object_id @ '' '' @ object_type @ '' '' @ nat_dec n"

lemma header_line_facts:
  assumes id: "printed_id object_id" and ty: "object_type \<in> {''blob'', ''tree'', ''commit'', ''tag''}"
  shows "LF \<notin> set (header_line object_id object_type n)" "utf8_ok (header_line object_id object_type n)"
    "\<not> ends_with '' missing'' (header_line object_id object_type n)"
    "split_on CHR '' '' (header_line object_id object_type n) = [object_id, object_type, nat_dec n]"
proof -
  have t: "LF \<notin> set object_type" "CHR '' '' \<notin> set object_type" "list_all is_ascii object_type"
    using ty by (auto simp: is_ascii_def byte_def)
  note i = printed_id_chars [OF id] and d = nat_dec_chars [of n]
  show "LF \<notin> set (header_line object_id object_type n)" using i t d by (simp add: header_line_def)
  show "utf8_ok (header_line object_id object_type n)"
    by (rule utf8_ok_ascii) (use i t d in \<open>simp add: header_line_def is_ascii_def byte_def\<close>)
  show "\<not> ends_with '' missing'' (header_line object_id object_type n)"
  proof
    assume "ends_with '' missing'' (header_line object_id object_type n)"
    then have "hd (rev (header_line object_id object_type n)) = CHR ''g''"
      by (cases "rev (header_line object_id object_type n)") (auto simp: ends_with_def starts_with_def)
    then have "last (nat_dec n) = CHR ''g''" by (simp add: header_line_def hd_rev)
    then show False using d(4) by (simp add: is_digit_def byte_def)
  qed
  show "split_on CHR '' '' (header_line object_id object_type n) = [object_id, object_type, nat_dec n]"
    using i t d by (simp add: header_line_def split_on_append split_on_no_sep)
qed

lemma parse_object_header_line:
  assumes id: "printed_id object_id" and ty: "object_type \<in> {''blob'', ''tree'', ''commit'', ''tag''}" and n: "n < 2 ^ 64"
  shows "parse_object_header object_id command_name (header_line object_id object_type n) = Inr (object_type, of_nat n)"
  using header_line_facts [OF id ty, of n] id parse_u64_length [OF n]
  by (simp add: parse_object_header_def printed_id_def)

lemma parse_object_header_missing: "parse_object_header object_id command_name (object_id @ '' missing'') = Inl (MigGitObjectUnavailable object_id)"
proof -
  have "ends_with '' missing'' (object_id @ '' missing'')" by (simp add: ends_with_def starts_with_def)
  then show ?thesis by (simp add: parse_object_header_def)
qed

lemma bind_sr_assoc: "bind_sr (bind_sr m f) g = bind_sr m (\<lambda>x. bind_sr (f x) g)"
  by (auto simp: bind_sr_def fun_eq_iff split: prod.splits sum.splits)

text \<open>Reading one header line that was printed in answer to a request.\<close>

lemma header_answer:
  assumes answers: "cat_file_answers V G" and id: "printed_id object_id" and idle: "hs_stream s = []"
    and printed: "hv_request V operation object_id = Inr (line @ LF # rest)" and line: "LF \<notin> set line"
  shows "bind_sr (write_request V operation object_id command_name) (\<lambda>_. read_header V object_id command_name) s
     = (map_err ScanFailed (parse_object_header object_id command_name line), s\<lparr>hs_stream := rest\<rparr>)"
proof -
  have "hv_read_error V step = None" for step using answers by (simp add: cat_file_answers_def)
  moreover have "is_git_object_id object_id" using id by (simp add: printed_id_def)
  ultimately show ?thesis
    using printed idle line
    by (simp add: write_request_def read_header_def read_line_def read_fault_def scan_lift_def scan_modify_def bind_sr_def)
qed

lemma object_info_answer:
  assumes answers: "cat_file_answers V G" and id: "printed_id object_id" and idle: "hs_stream s = []"
  shows "object_info V object_id command_name s = (map_err ScanFailed (plain_info G object_id command_name), s)"
proof (cases "G object_id")
  case None
  then have "hv_request V ''info'' object_id = Inr ((object_id @ '' missing'') @ LF # [])"
    using answers id unfolding cat_file_answers_def by fastforce
  from header_answer [OF answers id idle this] show ?thesis
    using None id idle printed_id_chars(1) [OF id]
    by (simp add: object_info_def plain_info_def printed_id_def parse_object_header_missing)
next
  case (Some object)
  obtain object_type bytes where o: "object = (object_type, bytes)" by (cases object)
  then have ty: "object_type \<in> {''blob'', ''tree'', ''commit'', ''tag''}" "length bytes < 2 ^ 64"
    and "hv_request V ''info'' object_id = Inr (header_line object_id object_type (length bytes) @ LF # [])"
    using answers id Some unfolding cat_file_answers_def header_line_def object_header_def by fastforce+
  from header_answer [OF answers id idle this(3) header_line_facts(1) [OF id ty(1)]] show ?thesis
    using Some o id idle parse_object_header_line [OF id ty]
    by (simp add: object_info_def plain_info_def printed_id_def)
qed

lemma object_contents_answer:
  assumes answers: "cat_file_answers V G" and id: "printed_id object_id" and idle: "hs_stream s = []"
  shows "fst (object_contents V object_id expected_type max_size command_name s) =
       map_err ScanFailed (plain_contents G object_id expected_type max_size command_name)
     \<and> (\<forall>x. plain_contents G object_id expected_type max_size command_name = Inr x \<longrightarrow>
         snd (object_contents V object_id expected_type max_size command_name s) = s)"
proof (cases "G object_id")
  case None
  then have "hv_request V ''contents'' object_id = Inr ((object_id @ '' missing'') @ LF # [])"
    using answers id unfolding cat_file_answers_def by fastforce
  note printed = this
  have line: "LF \<notin> set (object_id @ '' missing'')" using printed_id_chars(1) [OF id] by simp
  have "bind_sr (write_request V ''contents'' object_id command_name) (\<lambda>_. bind_sr (read_header V object_id command_name) f) s
      = (Inl (ScanFailed (MigGitObjectUnavailable object_id)), s\<lparr>hs_stream := []\<rparr>)" for f :: "string \<times> u64 \<Rightarrow> string scan"
    using header_answer [OF answers id idle printed line] unfolding bind_sr_assoc [symmetric]
    by (simp add: parse_object_header_missing)
  then show ?thesis
    using None id unfolding object_contents_def
    by (simp add: plain_contents_def plain_info_def printed_id_def)
next
  case (Some object)
  obtain object_type bytes where o: "object = (object_type, bytes)" by (cases object)
  then have ty: "object_type \<in> {''blob'', ''tree'', ''commit'', ''tag''}" and n: "length bytes < 2 ^ 64"
    and printed: "hv_request V ''contents'' object_id = Inr (header_line object_id object_type (length bytes) @ LF # bytes @ [LF])"
    using answers id Some unfolding cat_file_answers_def header_line_def object_header_def by fastforce+
  have quiet: "hv_read_error V step = None" for step using answers by (simp add: cat_file_answers_def)
  have len: "unat (of_nat (length bytes) :: u64) = length bytes" using n by (simp add: unat_of_nat)
  have head: "bind_sr (write_request V ''contents'' object_id command_name)
      (\<lambda>_. bind_sr (read_header V object_id command_name) f) s
      = f (object_type, of_nat (length bytes)) (s\<lparr>hs_stream := bytes @ [LF]\<rparr>)" for f :: "string \<times> u64 \<Rightarrow> string scan"
    using header_answer [OF answers id idle printed header_line_facts(1) [OF id ty]] parse_object_header_line [OF id ty n]
    unfolding bind_sr_assoc [symmetric] by (simp add: bind_sr_def)
  have "is_git_object_id object_id" using id by (simp add: printed_id_def)
  then show ?thesis
    using Some o len quiet idle unfolding object_contents_def head
    by (simp add: plain_contents_def plain_info_def scan_fail_def scan_lift_def read_exact_def read_fault_def bind_sr_def)
qed

section \<open>Depth does not matter where it suffices\<close>

lemma plain_entries_mono:
  assumes "\<And>t. sub t \<noteq> Inl ScanTooDeep \<Longrightarrow> sub' t = sub t" "plain_entries G sub cmd entries S \<noteq> Inl ScanTooDeep"
  shows "plain_entries G sub' cmd entries S = plain_entries G sub cmd entries S"
  using assms(2)
proof (induction entries arbitrary: S)
  case (Cons entry entries)
  have one: "plain_entry G sub' cmd entry S = plain_entry G sub cmd entry S"
    if "plain_entry G sub cmd entry S \<noteq> Inl ScanTooDeep"
    using that assms(1) [of "rt_object_id entry"] unfolding plain_entry_def
    by (cases "migration_safe_git_relative_path (rt_name entry) cmd"; cases "sub (rt_object_id entry)") auto
  show ?case
  proof (cases "plain_entry G sub cmd entry S")
    case (Inl e)
    then show ?thesis using Cons.prems one by auto
  next
    case (Inr S')
    then show ?thesis using Cons.prems Cons.IH [of S'] one by simp
  qed
qed simp

lemma plain_tree_mono:
  "plain_tree G d t \<noteq> Inl ScanTooDeep \<Longrightarrow> d \<le> D \<Longrightarrow> plain_tree G D t = plain_tree G d t"
proof (induction d arbitrary: t D)
  case (Suc d)
  then obtain D' where D: "D = Suc D'" "d \<le> D'" by (cases D) auto
  have sub: "plain_tree G d t \<noteq> Inl ScanTooDeep \<Longrightarrow> plain_tree G D' t = plain_tree G d t" for t
    using Suc.IH D(2) by blast
  show ?case
  proof (cases "plain_contents G t ''tree'' MAX_HISTORY_TREE_OUTPUT_BYTES (tree_command t)")
    case (Inl e)
    then show ?thesis using D by simp
  next
    case (Inr contents)
    show ?thesis
    proof (cases "parse_raw_git_tree contents t (tree_command t)")
      case (Inl e)
      then show ?thesis using D Inr by simp
    next
      case entries: (Inr entries)
      have "plain_entries G (plain_tree G d) (tree_command t) entries empty_summary \<noteq> Inl ScanTooDeep"
        using Suc.prems(1) Inr entries by auto
      then show ?thesis using D Inr entries plain_entries_mono [OF sub] by simp
    qed
  qed
qed simp

lemma plain_tree_agree:
  assumes "plain_tree G d t = Inr S" "plain_tree G D t \<noteq> Inl ScanTooDeep"
  shows "plain_tree G D t = Inr S"
  using plain_tree_mono [of G d t D] plain_tree_mono [of G D t d] assms by (cases "d \<le> D") auto

lemma plain_commit_agree:
  assumes "plain_commit V G d root c = Inr os" "plain_commit V G D root c \<noteq> Inl ScanTooDeep"
  shows "plain_commit V G D root c = Inr os"
proof -
  obtain S where S: "plain_tree G d (hc_tree_id c) = Inr S"
    using assms(1) unfolding plain_commit_def by (cases "plain_tree G d (hc_tree_id c)") auto
  have "plain_tree G D (hc_tree_id c) \<noteq> Inl ScanTooDeep" using assms(2) unfolding plain_commit_def by auto
  from plain_tree_agree [OF S this] S assms(1) show ?thesis by (simp add: plain_commit_def)
qed

section \<open>What the caches hold\<close>

definition known :: "tree_summary \<Rightarrow> history_scanner \<Rightarrow> bool" where
  "known S s \<longleftrightarrow> (\<forall>b \<in> set (ts_pointer_blobs S). \<exists>p. hs_blob_pointer_cache s (tb_object_id b) = Some (Some p))"

definition caches_ok :: "history_env \<Rightarrow> object_store \<Rightarrow> path \<Rightarrow> history_commit set \<Rightarrow> history_scanner \<Rightarrow> bool" where
  "caches_ok V G root commits s \<longleftrightarrow> hs_stream s = []
     \<and> (\<forall>b p. hs_blob_pointer_cache s b = Some p \<longrightarrow> plain_blob G b = Inr p)
     \<and> (\<forall>t S. hs_tree_cache s t = Some S \<longrightarrow> (\<exists>d. plain_tree G d t = Inr S) \<and> known S s)
     \<and> (\<forall>k P. hs_attribute_cache s k = Some P \<longrightarrow> (\<exists>c \<in> commits. \<exists>d S n. plain_tree G d (hc_tree_id c) = Inr S
          \<and> k = attribute_query_key S
          \<and> git_check_attr_lfs_paths_for_tree_blobs V root (ts_pointer_blobs S) (hc_object_id c) = Inr (P, n)))
     \<and> (\<forall>i os. hs_commit_cache s i = Some os \<longrightarrow> (\<exists>c \<in> commits. hc_object_id c = i \<and> (\<exists>d. plain_commit V G d root c = Inr os)))"

text \<open>What reading more trees and blobs preserves.\<close>

definition stable :: "(history_scanner \<Rightarrow> bool) \<Rightarrow> bool" where
  "stable F \<longleftrightarrow> (\<forall>s s'. F s \<longrightarrow> hs_blob_pointer_cache s \<subseteq>\<^sub>m hs_blob_pointer_cache s'
     \<longrightarrow> hs_pointers s' = hs_pointers s \<longrightarrow> hs_seen s' = hs_seen s \<longrightarrow> F s')"

lemma stableD: "stable F \<Longrightarrow> F s \<Longrightarrow> hs_blob_pointer_cache s \<subseteq>\<^sub>m hs_blob_pointer_cache s'
  \<Longrightarrow> hs_pointers s' = hs_pointers s \<Longrightarrow> hs_seen s' = hs_seen s \<Longrightarrow> F s'"
  unfolding stable_def by blast

lemma known_mono: "known S s \<Longrightarrow> hs_blob_pointer_cache s \<subseteq>\<^sub>m hs_blob_pointer_cache s' \<Longrightarrow> known S s'"
  unfolding known_def map_le_def by (metis domI)

lemma stable_known: "stable (known S)"
  unfolding stable_def using known_mono by blast

lemma stable_conj: "stable F \<Longrightarrow> stable F' \<Longrightarrow> stable (\<lambda>s. F s \<and> F' s)"
  unfolding stable_def by blast

lemma stable_cached: "stable (\<lambda>s. hs_blob_pointer_cache s b = Some p)"
  unfolding stable_def map_le_def by (metis domI)

lemma caches_ok_idle: "caches_ok V G root commits s \<Longrightarrow> hs_stream s = []"
  by (simp add: caches_ok_def)

lemma caches_ok_metrics: "caches_ok V G root commits (hs_metrics_update f s) = caches_ok V G root commits s"
  by (simp add: caches_ok_def known_def)

lemma caches_ok_blob:
  assumes "caches_ok V G root commits s" "plain_blob G b = Inr p" "hs_blob_pointer_cache s b = None"
  shows "caches_ok V G root commits (hs_blob_pointer_cache_update (\<lambda>cache. cache(b \<mapsto> p)) s)"
    "hs_blob_pointer_cache s \<subseteq>\<^sub>m (hs_blob_pointer_cache s)(b \<mapsto> p)"
proof -
  show grow: "hs_blob_pointer_cache s \<subseteq>\<^sub>m (hs_blob_pointer_cache s)(b \<mapsto> p)"
    using assms(3) by (auto simp: map_le_def)
  have "known S (hs_blob_pointer_cache_update (\<lambda>cache. cache(b \<mapsto> p)) s)" if "known S s" for S
    using known_mono [OF that, of "hs_blob_pointer_cache_update (\<lambda>cache. cache(b \<mapsto> p)) s"] grow by simp
  then show "caches_ok V G root commits (hs_blob_pointer_cache_update (\<lambda>cache. cache(b \<mapsto> p)) s)"
    using assms(1,2) by (auto simp: caches_ok_def)
qed

section \<open>Blobs and trees\<close>

lemma computes_info:
  assumes "cat_file_answers V G" "printed_id b"
  shows "computes (\<lambda>s. caches_ok V G root commits s \<and> F s) (object_info V b cmd) (map_err ScanFailed (plain_info G b cmd))
     (\<lambda>_ s. caches_ok V G root commits s \<and> F s)"
  unfolding computes_def
proof (intro allI impI disjI2)
  fix s assume P: "caches_ok V G root commits s \<and> F s"
  then have "hs_stream s = []" by (simp add: caches_ok_def)
  from object_info_answer [OF assms this, of cmd] P
  show "fst (object_info V b cmd s) = map_err ScanFailed (plain_info G b cmd) \<and>
    (\<forall>x. map_err ScanFailed (plain_info G b cmd) = Inr x \<longrightarrow> caches_ok V G root commits (snd (object_info V b cmd s)) \<and> F (snd (object_info V b cmd s)))"
    by simp
qed

lemma computes_contents:
  assumes "cat_file_answers V G" "printed_id b"
  shows "computes (\<lambda>s. caches_ok V G root commits s \<and> F s) (object_contents V b ty n cmd)
     (map_err ScanFailed (plain_contents G b ty n cmd)) (\<lambda>_ s. caches_ok V G root commits s \<and> F s)"
  unfolding computes_def
proof (intro allI impI disjI2)
  fix s assume P: "caches_ok V G root commits s \<and> F s"
  then have "hs_stream s = []" by (simp add: caches_ok_def)
  from object_contents_answer [OF assms this, of ty n cmd] P
  show "fst (object_contents V b ty n cmd s) = map_err ScanFailed (plain_contents G b ty n cmd) \<and>
    (\<forall>x. map_err ScanFailed (plain_contents G b ty n cmd) = Inr x \<longrightarrow>
       caches_ok V G root commits (snd (object_contents V b ty n cmd s)) \<and> F (snd (object_contents V b ty n cmd s)))"
    by auto
qed

lemma map_err_bind: "map_err f (bind_res r g) = bind_res (map_err f r) (\<lambda>x. map_err f (g x))"
  by (cases r) simp_all

lemma computes_candidate:
  assumes "cat_file_answers V G" "printed_id b"
  shows "computes (\<lambda>s. caches_ok V G root commits s \<and> F s) (read_pointer_blob_candidate V b)
     (map_err ScanFailed (plain_blob G b)) (\<lambda>_ s. caches_ok V G root commits s \<and> F s)"
proof -
  have contents: "map_err ScanFailed (map_res small_pointer r) = bind_res (map_err ScanFailed r) (\<lambda>c. Inr (small_pointer c))" for r
    by (cases r) simp_all
  show ?thesis
    unfolding read_pointer_blob_candidate_def plain_blob_def Let_def map_err_bind
  proof (rule computes_bind [OF computes_info [OF assms]])
    fix x assume "map_err ScanFailed (plain_info G b (CAT_FILE @ '' info '' @ b)) = Inr x"
    obtain ty n where x: "x = (ty, n)" by (cases x)
    show "computes (\<lambda>s. caches_ok V G root commits s \<and> F s)
       (case x of (object_type, n) \<Rightarrow>
        if object_type \<noteq> ''blob'' then scan_fail (CAT_FILE @ '' info '' @ b) ''git tree entry did not resolve to a blob''
        else if LFS_POINTER_SIZE_CUTOFF \<le> unat n then ret_sr None
        else bind_sr (object_contents V b ''blob'' LFS_POINTER_SIZE_CUTOFF (CAT_FILE @ '' contents '' @ b))
          (\<lambda>contents. ret_sr (small_pointer contents)))
       (map_err ScanFailed (case x of (object_type, n) \<Rightarrow>
        if object_type \<noteq> ''blob'' then Inl (MigExternalCommandOutput (CAT_FILE @ '' info '' @ b) ''git tree entry did not resolve to a blob'')
        else if LFS_POINTER_SIZE_CUTOFF \<le> unat n then Inr None
        else map_res small_pointer (plain_contents G b ''blob'' LFS_POINTER_SIZE_CUTOFF (CAT_FILE @ '' contents '' @ b))))
       (\<lambda>_ s. caches_ok V G root commits s \<and> F s)"
      unfolding x prod.case
      by (auto simp: contents computes_fail intro!: computes_ret computes_bind [OF computes_contents [OF assms]])
  qed
qed

lemma computes_blob:
  assumes answers: "cat_file_answers V G" and id: "printed_id b" and F: "stable F"
  shows "computes (\<lambda>s. caches_ok V G root commits s \<and> F s) (blob_pointer V b) (map_err ScanFailed (plain_blob G b))
     (\<lambda>p s. caches_ok V G root commits s \<and> F s \<and> hs_blob_pointer_cache s b = Some p)"
  unfolding blob_pointer_def
proof (rule computes_get)
  fix v
  show "computes (\<lambda>s. (caches_ok V G root commits s \<and> F s) \<and> hs_blob_pointer_cache s b = v)
     (case v of Some pointer \<Rightarrow> ret_sr pointer
       | None \<Rightarrow>
           bind_sr (scan_modify (hs_metrics_update count_blob)) (\<lambda>_.
           bind_sr (read_pointer_blob_candidate V b) (\<lambda>pointer.
           bind_sr (scan_modify (hs_blob_pointer_cache_update (\<lambda>cache. cache(b \<mapsto> pointer)))) (\<lambda>_. ret_sr pointer))))
     (map_err ScanFailed (plain_blob G b)) (\<lambda>p s. caches_ok V G root commits s \<and> F s \<and> hs_blob_pointer_cache s b = Some p)"
  proof (cases v)
    case (Some p)
    then show ?thesis by (auto simp: computes_def caches_ok_def)
  next
    case None
    let ?P = "\<lambda>s. caches_ok V G root commits s \<and> F s \<and> hs_blob_pointer_cache s b = None"
    have one: "computes ?P (scan_modify (hs_metrics_update count_blob)) (Inr ()) (\<lambda>_. ?P)"
      by (rule computes_modify) (auto simp: caches_ok_metrics intro: stableD [OF F])
    have two: "computes ?P (read_pointer_blob_candidate V b) (map_err ScanFailed (plain_blob G b)) (\<lambda>_. ?P)"
      using computes_candidate [OF answers id, of root commits "\<lambda>s. F s \<and> hs_blob_pointer_cache s b = None"] by simp
    have three: "computes ?P (bind_sr (scan_modify (hs_blob_pointer_cache_update (\<lambda>cache. cache(b \<mapsto> p)))) (\<lambda>_. ret_sr p)) (Inr p)
        (\<lambda>p s. caches_ok V G root commits s \<and> F s \<and> hs_blob_pointer_cache s b = Some p)"
      if "map_err ScanFailed (plain_blob G b) = Inr p" for p
      using that caches_ok_blob [of V G root commits _ b p] stableD [OF F]
      by (auto simp: computes_def bind_sr_def scan_modify_def)
    have "computes ?P (bind_sr (read_pointer_blob_candidate V b) (\<lambda>pointer.
           bind_sr (scan_modify (hs_blob_pointer_cache_update (\<lambda>cache. cache(b \<mapsto> pointer)))) (\<lambda>_. ret_sr pointer)))
        (bind_res (map_err ScanFailed (plain_blob G b)) Inr)
        (\<lambda>p s. caches_ok V G root commits s \<and> F s \<and> hs_blob_pointer_cache s b = Some p)"
      by (rule computes_bind [OF two three])
    moreover have "bind_res r Inr = r" for r :: "scan_stop + lfs_pointer option" by (cases r) simp_all
    ultimately have rest: "computes ?P (bind_sr (read_pointer_blob_candidate V b) (\<lambda>pointer.
           bind_sr (scan_modify (hs_blob_pointer_cache_update (\<lambda>cache. cache(b \<mapsto> pointer)))) (\<lambda>_. ret_sr pointer)))
        (map_err ScanFailed (plain_blob G b))
        (\<lambda>p s. caches_ok V G root commits s \<and> F s \<and> hs_blob_pointer_cache s b = Some p)" by simp
    have "computes ?P (bind_sr (scan_modify (hs_metrics_update count_blob)) (\<lambda>_. bind_sr (read_pointer_blob_candidate V b) (\<lambda>pointer.
           bind_sr (scan_modify (hs_blob_pointer_cache_update (\<lambda>cache. cache(b \<mapsto> pointer)))) (\<lambda>_. ret_sr pointer))))
        (bind_res (Inr ()) (\<lambda>_. map_err ScanFailed (plain_blob G b)))
        (\<lambda>p s. caches_ok V G root commits s \<and> F s \<and> hs_blob_pointer_cache s b = Some p)"
      by (rule computes_bind [OF one rest])
    then show ?thesis using None by (simp add: computes_def)
  qed
qed

lemma hex_octet_chars: "length (hex_octet c) = 2" "list_all is_lower_hex (hex_octet c)"
proof -
  show "length (hex_octet c) = 2" by (simp add: hex_octet_def)
  have "is_lower_hex (hex_char d)" if "d < 16" for d
    using that by (auto simp: hex_char_def is_lower_hex_def is_digit_def byte_def)
  moreover have "byte c div 16 < 16" "byte c mod 16 < 16" using byte_bound [of c] by (auto simp: less_mult_imp_div_less)
  ultimately show "list_all is_lower_hex (hex_octet c)" by (simp add: hex_octet_def)
qed

lemma hex_octets_printed:
  assumes "length bytes = 20 \<or> length bytes = 32"
  shows "printed_id (concat (map hex_octet bytes))"
proof -
  have "length (concat (map hex_octet bytes)) = 2 * length bytes"
    by (induction bytes) (simp_all add: hex_octet_chars(1))
  moreover have lower: "list_all is_lower_hex (concat (map hex_octet bytes))"
    using hex_octet_chars(2) by (auto simp: list_all_iff)
  moreover have "is_hexdigit c" if "is_lower_hex c" for c using that by (auto simp: is_lower_hex_def is_hexdigit_def)
  ultimately show ?thesis using assms by (auto simp: printed_id_def is_git_object_id_def list_all_iff)
qed

lemma raw_tree_entries_printed:
  assumes "raw_tree_entries n cmd contents = Inr entries" "n = 20 \<or> n = 32" "e \<in> set entries"
  shows "printed_id (rt_object_id e)"
  using assms
proof (induction n cmd contents arbitrary: entries rule: raw_tree_entries.induct)
  case (1 n cmd contents)
  show ?case
  proof (cases "contents = []")
    case True
    then show ?thesis using 1(2,4) by (simp add: raw_tree_entries.simps)
  next
    case False
    then obtain mode after_mode name after_name rest where
      f: "split_once CHR '' '' contents = Some (mode, after_mode)" "split_once (CHR 0x00) after_mode = Some (name, after_name)"
        "n \<le> length after_name" "mode \<noteq> []" "name \<noteq> []"
      and r: "raw_tree_entries n cmd (drop n after_name) = Inr rest"
      and e: "entries = \<lparr>rt_mode = mode, rt_object_id = concat (map hex_octet (take n after_name)), rt_name = name\<rparr> # rest"
      using 1(2) by (subst (asm) raw_tree_entries.simps) (auto split: option.splits if_splits)
    have "length (take n after_name) = n" using f(3) by simp
    then have "printed_id (concat (map hex_octet (take n after_name)))"
      using hex_octets_printed [of "take n after_name"] 1(3) by simp
    moreover have "printed_id (rt_object_id e)" if "e \<in> set rest"
      using 1(1) [OF False f(1) refl f(2) refl _ r 1(3) that] f by simp
    ultimately show ?thesis using 1(4) e by auto
  qed
qed

lemma parse_raw_git_tree_printed:
  "parse_raw_git_tree contents t cmd = Inr entries \<Longrightarrow> e \<in> set entries \<Longrightarrow> printed_id (rt_object_id e)"
  using raw_tree_entries_printed by (auto simp: parse_raw_git_tree_def Let_def split: if_splits)

lemma known_summaries:
  "known target s \<Longrightarrow> known child s \<Longrightarrow> known (append_prefixed_tree_summary target p b child) s"
  "known S s \<Longrightarrow> known (add_attribute_blob e p S) s"
  "known S s \<Longrightarrow> hs_blob_pointer_cache s (rt_object_id e) = Some pointer \<Longrightarrow> known (add_pointer_blob e p pointer S) s"
  "known empty_summary s" "known (sorted_summary S) s = known S s"
  by (auto simp: known_def append_prefixed_tree_summary_def add_attribute_blob_def add_pointer_blob_def empty_summary_def
      sorted_summary_def split: option.splits)

definition reads_tree ::
  "history_env \<Rightarrow> object_store \<Rightarrow> path \<Rightarrow> history_commit set \<Rightarrow> (string \<Rightarrow> tree_summary scan) \<Rightarrow> (string \<Rightarrow> tree_summary plain) \<Rightarrow> bool" where
  "reads_tree V G root commits sub psub \<longleftrightarrow> (\<forall>t F. printed_id t \<longrightarrow> stable F \<longrightarrow>
     computes (\<lambda>s. caches_ok V G root commits s \<and> F s) (sub t) (psub t) (\<lambda>S s. caches_ok V G root commits s \<and> F s \<and> known S s))"

lemma computes_entry:
  assumes answers: "cat_file_answers V G" and sub: "reads_tree V G root commits sub psub"
    and id: "printed_id (rt_object_id e)" and F: "stable F"
  shows "computes (\<lambda>s. caches_ok V G root commits s \<and> F s \<and> known S s) (add_tree_entry V sub cmd e S) (plain_entry G psub cmd e S)
     (\<lambda>S' s. caches_ok V G root commits s \<and> F s \<and> known S' s)"
proof -
  let ?P = "\<lambda>s. caches_ok V G root commits s \<and> F s \<and> known S s"
  have path: "computes ?P (scan_lift r) (map_err ScanFailed r) (\<lambda>_. ?P)" for r :: "path migration_result"
    by (rule computes_lift)
  show ?thesis
    unfolding add_tree_entry_def plain_entry_def
  proof (rule computes_bind [OF path])
  fix relative_path
  have FS: "stable (\<lambda>s. F s \<and> known S s)" by (rule stable_conj [OF F stable_known])
  have tree: "computes ?P (bind_sr (sub (rt_object_id e)) (\<lambda>child. ret_sr (append_prefixed_tree_summary S relative_path (rt_name e) child)))
      (bind_res (psub (rt_object_id e)) (\<lambda>child. Inr (append_prefixed_tree_summary S relative_path (rt_name e) child)))
      (\<lambda>S' s. caches_ok V G root commits s \<and> F s \<and> known S' s)"
    by (rule computes_bind) (use sub id FS in \<open>auto simp: reads_tree_def intro!: computes_ret known_summaries\<close>)
  have blob: "computes ?P (bind_sr (blob_pointer V (rt_object_id e)) (\<lambda>pointer.
        ret_sr (add_pointer_blob e relative_path pointer (add_attribute_blob e relative_path S))))
      (bind_res (map_err ScanFailed (plain_blob G (rt_object_id e))) (\<lambda>pointer.
        Inr (add_pointer_blob e relative_path pointer (add_attribute_blob e relative_path S))))
      (\<lambda>S' s. caches_ok V G root commits s \<and> F s \<and> known S' s)"
    by (rule computes_bind [OF computes_blob [OF answers id FS]]) (auto intro!: computes_ret known_summaries)
  show "computes ?P
     (if rt_mode e = ''40000''
       then bind_sr (sub (rt_object_id e)) (\<lambda>child. ret_sr (append_prefixed_tree_summary S relative_path (rt_name e) child))
       else if rt_mode e = ''160000'' then ret_sr S
       else if rt_mode e \<notin> {''100644'', ''100755'', ''120000''} then scan_fail cmd ''git returned an unsupported tree mode''
       else bind_sr (blob_pointer V (rt_object_id e)) (\<lambda>pointer.
              ret_sr (add_pointer_blob e relative_path pointer (add_attribute_blob e relative_path S))))
     (if rt_mode e = ''40000''
       then bind_res (psub (rt_object_id e)) (\<lambda>child. Inr (append_prefixed_tree_summary S relative_path (rt_name e) child))
       else if rt_mode e = ''160000'' then Inr S
       else if rt_mode e \<notin> {''100644'', ''100755'', ''120000''}
       then Inl (ScanFailed (MigExternalCommandOutput cmd ''git returned an unsupported tree mode''))
       else bind_res (map_err ScanFailed (plain_blob G (rt_object_id e))) (\<lambda>pointer.
              Inr (add_pointer_blob e relative_path pointer (add_attribute_blob e relative_path S))))
     (\<lambda>S' s. caches_ok V G root commits s \<and> F s \<and> known S' s)"
    by (intro computes_if tree blob computes_fail computes_ret)
  qed
qed

lemma computes_entries:
  assumes answers: "cat_file_answers V G" and sub: "reads_tree V G root commits sub psub"
    and ids: "\<forall>e \<in> set entries. printed_id (rt_object_id e)" and F: "stable F"
  shows "computes (\<lambda>s. caches_ok V G root commits s \<and> F s \<and> known S s) (add_tree_entries V sub cmd entries S)
     (plain_entries G psub cmd entries S) (\<lambda>S' s. caches_ok V G root commits s \<and> F s \<and> known S' s)"
  using ids
proof (induction entries arbitrary: S)
  case Nil
  show ?case unfolding add_tree_entries.simps plain_entries.simps by (rule computes_ret)
next
  case (Cons e entries)
  then show ?case
    using computes_bind [OF computes_entry [OF answers sub _ F] Cons.IH] by simp
qed

lemma caches_ok_tree:
  assumes "caches_ok V G root commits s" "plain_tree G d t = Inr S" "known S s"
  shows "caches_ok V G root commits (hs_tree_cache_update (\<lambda>cache. cache(t \<mapsto> S)) s)"
  using assms unfolding caches_ok_def known_def by auto

lemma reads_tree_summary:
  assumes answers: "cat_file_answers V G"
  shows "reads_tree V G root commits (read_tree_summary V d) (plain_tree G d)"
proof (induction d)
  case 0
  then show ?case by (simp add: reads_tree_def computes_deep)
next
  case (Suc d)
  show ?case
    unfolding reads_tree_def
  proof (intro allI impI)
    fix t F assume id: "printed_id t" and F: "stable F"
    let ?I = "caches_ok V G root commits"
    let ?fresh = "bind_sr (object_contents V t ''tree'' MAX_HISTORY_TREE_OUTPUT_BYTES (tree_command t)) (\<lambda>contents.
           bind_sr (scan_lift (parse_raw_git_tree contents t (tree_command t))) (\<lambda>entries.
           bind_sr (scan_modify (hs_metrics_update (count_entries (length entries)))) (\<lambda>_.
           bind_sr (add_tree_entries V (read_tree_summary V d) (tree_command t) entries empty_summary) (\<lambda>summary.
           bind_sr (scan_modify (hs_tree_cache_update (\<lambda>cache. cache(t \<mapsto> sorted_summary summary)))) (\<lambda>_.
             ret_sr (sorted_summary summary))))))"
    let ?Q = "\<lambda>S s. ?I s \<and> F s \<and> known S s"
    have store: "computes (?Q S) (bind_sr (scan_modify (hs_tree_cache_update (\<lambda>cache. cache(t \<mapsto> sorted_summary S)))) (\<lambda>_.
             ret_sr (sorted_summary S))) (Inr (sorted_summary S)) ?Q"
      if "plain_tree G (Suc d) t = Inr (sorted_summary S)" for S
      using caches_ok_tree [OF _ that] stableD [OF F]
      by (auto simp: computes_def bind_sr_def scan_modify_def known_summaries) (simp add: known_def)
    show "computes (\<lambda>s. ?I s \<and> F s) (read_tree_summary V (Suc d) t) (plain_tree G (Suc d) t) ?Q"
      unfolding read_tree_summary.simps
    proof (rule computes_get)
      fix v
      show "computes (\<lambda>s. (?I s \<and> F s) \<and> hs_tree_cache s t = v) (case v of Some summary \<Rightarrow> ret_sr summary | None \<Rightarrow> ?fresh)
         (plain_tree G (Suc d) t) ?Q"
      proof (cases v)
        case (Some S)
        have "plain_tree G (Suc d) t = Inl ScanTooDeep \<or> plain_tree G (Suc d) t = Inr S" if "?I s" "hs_tree_cache s t = Some S" for s
          using that plain_tree_agree [of G _ t S "Suc d"] unfolding caches_ok_def by blast
        then show ?thesis using Some unfolding computes_def caches_ok_def by fastforce
      next
        case None
        let ?P = "\<lambda>s. ?I s \<and> F s"
        have parse: "computes ?P (scan_lift r) (map_err ScanFailed r) (\<lambda>_. ?P)" for r :: "raw_tree_entry list migration_result"
          by (rule computes_lift)
        have count: "computes ?P (scan_modify (hs_metrics_update (count_entries n))) (Inr ()) (\<lambda>_ s. ?I s \<and> F s \<and> known empty_summary s)" for n
          by (rule computes_modify) (auto simp: caches_ok_metrics known_summaries intro: stableD [OF F])
        have "computes ?P ?fresh (bind_res (map_err ScanFailed (plain_contents G t ''tree'' MAX_HISTORY_TREE_OUTPUT_BYTES (tree_command t)))
           (\<lambda>contents. bind_res (map_err ScanFailed (parse_raw_git_tree contents t (tree_command t))) (\<lambda>entries.
            bind_res (Inr ()) (\<lambda>_. bind_res (plain_entries G (plain_tree G d) (tree_command t) entries empty_summary) (\<lambda>S.
              Inr (sorted_summary S)))))) ?Q"
        proof (rule computes_bind [OF computes_contents [OF answers id]], rule computes_bind [OF parse], rule computes_bind [OF count],
            rule computes_bind [OF computes_entries [OF answers Suc.IH _ F]])
          fix contents entries
          assume c: "map_err ScanFailed (plain_contents G t ''tree'' MAX_HISTORY_TREE_OUTPUT_BYTES (tree_command t)) = Inr contents"
            and e: "map_err ScanFailed (parse_raw_git_tree contents t (tree_command t)) = Inr entries"
          then show "\<forall>e \<in> set entries. printed_id (rt_object_id e)" using parse_raw_git_tree_printed by auto
          fix S
          assume "plain_entries G (plain_tree G d) (tree_command t) entries empty_summary = Inr S"
          then have "plain_tree G (Suc d) t = Inr (sorted_summary S)" using c e by auto
          then show "computes (?Q S) (bind_sr (scan_modify (hs_tree_cache_update (\<lambda>cache. cache(t \<mapsto> sorted_summary S)))) (\<lambda>_.
             ret_sr (sorted_summary S))) (Inr (sorted_summary S)) ?Q" by (rule store)
        qed
        then have "computes ?P ?fresh (plain_tree G (Suc d) t) ?Q" by simp
        then show ?thesis using None by (auto intro: computes_pre)
      qed
    qed
  qed
qed

section \<open>Commits\<close>

lemma caches_ok_attributes:
  assumes "caches_ok V G root commits s" "c \<in> commits" "plain_tree G d (hc_tree_id c) = Inr S"
    and "git_check_attr_lfs_paths_for_tree_blobs V root (ts_pointer_blobs S) (hc_object_id c) = Inr (P, n)"
  shows "caches_ok V G root commits (hs_attribute_cache_update (\<lambda>cache. cache(attribute_query_key S \<mapsto> P)) s)"
  using assms unfolding caches_ok_def known_def by auto

lemma computes_lfs_paths:
  assumes follow: "attributes_follow_tree V G root commits" and c: "c \<in> commits"
    and S: "plain_tree G d (hc_tree_id c) = Inr S" and F: "stable F"
  shows "computes (\<lambda>s. caches_ok V G root commits s \<and> F s) (commit_lfs_paths V root c S)
    (bind_res (map_err ScanFailed (git_check_attr_lfs_paths_for_tree_blobs V root (ts_pointer_blobs S) (hc_object_id c)))
       (\<lambda>(P, n). Inr P)) (\<lambda>_ s. caches_ok V G root commits s \<and> F s)"
  unfolding commit_lfs_paths_def
proof (rule computes_get)
  let ?check = "git_check_attr_lfs_paths_for_tree_blobs V root (ts_pointer_blobs S) (hc_object_id c)"
  let ?fresh = "bind_sr (scan_lift ?check) (\<lambda>(paths, process_count).
           bind_sr (scan_modify (hs_metrics_update (count_attributes process_count))) (\<lambda>_.
           bind_sr (scan_modify (hs_attribute_cache_update (\<lambda>cache. cache(attribute_query_key S \<mapsto> paths)))) (\<lambda>_.
             ret_sr paths)))"
  let ?P = "\<lambda>s. caches_ok V G root commits s \<and> F s"
  fix v
  show "computes (\<lambda>s. ?P s \<and> hs_attribute_cache s (attribute_query_key S) = v)
     (case v of Some paths \<Rightarrow> ret_sr paths | None \<Rightarrow> ?fresh) (bind_res (map_err ScanFailed ?check) (\<lambda>(P, n). Inr P)) (\<lambda>_. ?P)"
  proof (cases v)
    case (Some P)
    have "\<exists>n. ?check = Inr (P, n)" if held: "?P s" "hs_attribute_cache s (attribute_query_key S) = Some P" for s
    proof -
      obtain c' d' S' n where "c' \<in> commits" "plain_tree G d' (hc_tree_id c') = Inr S'" "attribute_query_key S = attribute_query_key S'"
        "git_check_attr_lfs_paths_for_tree_blobs V root (ts_pointer_blobs S') (hc_object_id c') = Inr (P, n)"
        using held unfolding caches_ok_def by blast
      then show ?thesis using follow c S unfolding attributes_follow_tree_def by metis
    qed
    then show ?thesis using Some by (fastforce simp: computes_def)
  next
    case None
    have "computes ?P ?fresh (bind_res (map_err ScanFailed ?check) (\<lambda>(P, n). Inr P)) (\<lambda>_. ?P)"
    proof (rule computes_bind [OF computes_lift])
      fix r assume "map_err ScanFailed ?check = Inr r"
      then obtain P n where r: "r = (P, n)" "?check = Inr (P, n)" by (cases r) auto
      show "computes ?P (case r of (paths, process_count) \<Rightarrow>
           bind_sr (scan_modify (hs_metrics_update (count_attributes process_count))) (\<lambda>_.
           bind_sr (scan_modify (hs_attribute_cache_update (\<lambda>cache. cache(attribute_query_key S \<mapsto> paths)))) (\<lambda>_.
             ret_sr paths))) (case r of (P, n) \<Rightarrow> Inr P) (\<lambda>_. ?P)"
        using caches_ok_attributes [OF _ c S r(2)] stableD [OF F]
        by (auto simp: r(1) computes_def bind_sr_def scan_modify_def caches_ok_metrics)
    qed
    then show ?thesis using None by (auto intro: computes_pre)
  qed
qed

lemma pointer_occurrences_known:
  assumes "caches_ok V G root commits s" "known S s" "set blobs \<subseteq> set (ts_pointer_blobs S)"
  shows "pointer_occurrences commit blobs s = (Inr (List.map_filter (plain_occurrence G commit) blobs), s)"
  using assms(3)
proof (induction blobs)
  case (Cons b blobs)
  then obtain p where p: "hs_blob_pointer_cache s (tb_object_id b) = Some (Some p)" using assms(2) by (auto simp: known_def)
  then have "plain_blob G (tb_object_id b) = Inr (Some p)" using assms(1) by (simp add: caches_ok_def)
  then show ?case using Cons p
    by (simp add: bind_sr_def scan_get_def plain_occurrence_def List.map_filter_simps)
qed (simp add: List.map_filter_simps)

lemma computes_commit:
  assumes answers: "cat_file_answers V G" and follow: "attributes_follow_tree V G root commits" and c: "c \<in> commits"
    and listed: "commits_listed commits" and F: "stable F"
  shows "computes (\<lambda>s. caches_ok V G root commits s \<and> F s) (scan_commit V d root c) (plain_commit V G d root c)
     (\<lambda>_ s. caches_ok V G root commits s \<and> F s)"
  unfolding scan_commit_def plain_commit_def
proof (rule computes_bind)
  let ?I = "caches_ok V G root commits"
  have "printed_id (hc_tree_id c)" using c listed unfolding commits_listed_def by blast
  then show "computes (\<lambda>s. ?I s \<and> F s) (read_tree_summary V d (hc_tree_id c)) (plain_tree G d (hc_tree_id c))
      (\<lambda>S s. ?I s \<and> F s \<and> known S s)"
    using reads_tree_summary [OF answers] F unfolding reads_tree_def by blast
  fix S assume S: "plain_tree G d (hc_tree_id c) = Inr S"
  let ?check = "map_err ScanFailed (git_check_attr_lfs_paths_for_tree_blobs V root (ts_pointer_blobs S) (hc_object_id c))"
  let ?occ = "\<lambda>P. List.map_filter (plain_occurrence G (hc_object_id c)) (filter (\<lambda>b. tb_relative_path b \<in> P) (ts_pointer_blobs S))"
  have "computes (\<lambda>s. ?I s \<and> F s \<and> known S s) (bind_sr (commit_lfs_paths V root c S) (\<lambda>P.
       pointer_occurrences (hc_object_id c) (filter (\<lambda>b. tb_relative_path b \<in> P) (ts_pointer_blobs S))))
     (bind_res (bind_res ?check (\<lambda>(P, n). Inr P)) (\<lambda>P. Inr (?occ P))) (\<lambda>_ s. ?I s \<and> F s)"
    by (rule computes_bind [OF computes_lfs_paths [OF follow c S stable_conj [OF F stable_known]]])
      (auto simp: computes_def pointer_occurrences_known)
  moreover have "bind_res (bind_res ?check (\<lambda>(P, n). Inr P)) (\<lambda>P. Inr (?occ P)) = bind_res ?check (\<lambda>(P, _). Inr (?occ P))"
    by (cases ?check) auto
  ultimately show "computes (\<lambda>s. ?I s \<and> F s \<and> known S s)
     (if ts_pointer_blobs S = [] then ret_sr []
      else bind_sr (commit_lfs_paths V root c S) (\<lambda>P.
        pointer_occurrences (hc_object_id c) (filter (\<lambda>b. tb_relative_path b \<in> P) (ts_pointer_blobs S))))
     (if ts_pointer_blobs S = [] then Inr [] else bind_res ?check (\<lambda>(P, _). Inr (?occ P))) (\<lambda>_ s. ?I s \<and> F s)"
    by (intro computes_if computes_ret) auto
qed

lemma computes_cached_commit:
  assumes answers: "cat_file_answers V G" and follow: "attributes_follow_tree V G root commits" and c: "c \<in> commits"
    and listed: "commits_listed commits" and F: "stable F"
  shows "computes (\<lambda>s. caches_ok V G root commits s \<and> F s) (commit_occurrences V d root c) (plain_commit V G d root c)
     (\<lambda>_ s. caches_ok V G root commits s \<and> F s)"
  unfolding commit_occurrences_def
proof (rule computes_get)
  let ?P = "\<lambda>s. caches_ok V G root commits s \<and> F s"
  let ?fresh = "bind_sr (scan_commit V d root c) (\<lambda>occurrences.
       bind_sr (scan_modify (hs_commit_cache_update (\<lambda>cache. cache(hc_object_id c \<mapsto> occurrences)))) (\<lambda>_. ret_sr occurrences))"
  fix v
  show "computes (\<lambda>s. ?P s \<and> hs_commit_cache s (hc_object_id c) = v) (case v of Some os \<Rightarrow> ret_sr os | None \<Rightarrow> ?fresh)
     (plain_commit V G d root c) (\<lambda>_. ?P)"
  proof (cases v)
    case (Some os)
    have "plain_commit V G d root c = Inl ScanTooDeep \<or> plain_commit V G d root c = Inr os"
      if "?P s" "hs_commit_cache s (hc_object_id c) = Some os" for s
    proof -
      obtain c' d' where "c' \<in> commits" "hc_object_id c' = hc_object_id c" "plain_commit V G d' root c' = Inr os"
        using \<open>?P s\<close> \<open>hs_commit_cache s (hc_object_id c) = Some os\<close> unfolding caches_ok_def by blast
      moreover from this have "hc_tree_id c' = hc_tree_id c" using listed c unfolding commits_listed_def by blast
      moreover have "plain_commit V G d' root c = plain_commit V G d' root c'"
        unfolding plain_commit_def using calculation by (simp only:)
      ultimately have "plain_commit V G d' root c = Inr os" by (simp only:)
      then show ?thesis using plain_commit_agree by blast
    qed
    then show ?thesis using Some unfolding computes_def by fastforce
  next
    case None
    have "computes ?P ?fresh (bind_res (plain_commit V G d root c) Inr) (\<lambda>_. ?P)"
    proof (rule computes_bind [OF computes_commit [OF answers follow c listed F]])
      fix os assume os: "plain_commit V G d root c = Inr os"
      have "caches_ok V G root commits (hs_commit_cache_update (\<lambda>cache. cache(hc_object_id c \<mapsto> os)) s)"
        if "caches_ok V G root commits s" for s
        using that os c unfolding caches_ok_def known_def by auto
      then show "computes ?P (bind_sr (scan_modify (hs_commit_cache_update (\<lambda>cache. cache(hc_object_id c \<mapsto> os)))) (\<lambda>_. ret_sr os))
          (Inr os) (\<lambda>_. ?P)"
        using stableD [OF F] by (auto simp: computes_def bind_sr_def scan_modify_def)
    qed
    moreover have "bind_res (plain_commit V G d root c) Inr = plain_commit V G d root c"
      by (cases "plain_commit V G d root c") simp_all
    ultimately show ?thesis using None by (auto intro: computes_pre)
  qed
qed

section \<open>Refs\<close>

lemma first_of_each_append:
  "first_of_each key seen (xs @ ys) = first_of_each key seen xs @ first_of_each key (seen \<union> key ` set xs) ys"
  by (induction xs arbitrary: seen) (auto simp: insert_absorb)

definition progress :: "history_pointer list \<Rightarrow> history_scanner \<Rightarrow> bool" where
  "progress found s \<longleftrightarrow> hs_pointers s = first_of_each pointer_key {} found \<and> hs_seen s = pointer_key ` set found"

lemma stable_progress: "stable (progress found)"
  by (simp add: stable_def progress_def)

lemma progress_fold:
  assumes "progress found s"
  shows "progress (found @ map (named_pointer r) os) (fold (add_occurrence r) os s)"
    "caches_ok V G root commits (fold (add_occurrence r) os s) = caches_ok V G root commits s"
proof -
  show "progress (found @ map (named_pointer r) os) (fold (add_occurrence r) os s)"
    using assms
  proof (induction os arbitrary: found s)
    case (Cons oc os)
    have "progress (found @ [named_pointer r oc]) (add_occurrence r oc s)"
      using Cons.prems
      by (auto simp: progress_def add_occurrence_def first_of_each_append occurrence_key_def pointer_key_def named_pointer_def)
    from Cons.IH [OF this] show ?case by simp
  qed simp
  have "caches_ok V G root commits (add_occurrence r oc s) = caches_ok V G root commits s" for oc s
    by (simp add: add_occurrence_def caches_ok_def known_def)
  then show "caches_ok V G root commits (fold (add_occurrence r) os s) = caches_ok V G root commits s"
    by (induction os arbitrary: s) simp_all
qed

lemma computes_commits:
  assumes answers: "cat_file_answers V G" and follow: "attributes_follow_tree V G root commits" and cs: "set cs \<subseteq> commits"
    and listed: "commits_listed commits"
  shows "computes (\<lambda>s. caches_ok V G root commits s \<and> progress found s) (scan_commits V d root r cs)
     (map_res (\<lambda>_. ()) (traverse_res (plain_commit V G d root) cs))
     (\<lambda>_ s. caches_ok V G root commits s \<and> (\<forall>oss. traverse_res (plain_commit V G d root) cs = Inr oss \<longrightarrow>
        progress (found @ map (named_pointer r) (concat oss)) s))"
  using cs
proof (induction cs arbitrary: found)
  case Nil
  show ?case unfolding scan_commits.simps traverse_res.simps map_res.simps by (rule computes_ret) simp
next
  case (Cons c cs)
  have c: "c \<in> commits" "set cs \<subseteq> commits" using Cons.prems by auto
  let ?I = "caches_ok V G root commits" and ?plain = "traverse_res (plain_commit V G d root)"
  have rest: "computes (\<lambda>s. ?I s \<and> progress found s) (bind_sr (scan_modify (fold (add_occurrence r) os)) (\<lambda>_. scan_commits V d root r cs))
      (map_res (\<lambda>_. ()) (?plain cs))
      (\<lambda>_ s. ?I s \<and> (\<forall>oss. ?plain cs = Inr oss \<longrightarrow> progress (found @ map (named_pointer r) (os @ concat oss)) s))" for os
  proof -
    have "computes (\<lambda>s. ?I s \<and> progress found s) (scan_modify (fold (add_occurrence r) os)) (Inr ())
        (\<lambda>_ s. ?I s \<and> progress (found @ map (named_pointer r) os) s)"
      by (rule computes_modify) (auto simp: progress_fold)
    from computes_bind [OF this Cons.IH [OF c(2)]] show ?thesis by (auto elim: computes_post)
  qed
  have plain: "map_res (\<lambda>_. ()) (?plain (c # cs)) = bind_res (plain_commit V G d root c) (\<lambda>_. map_res (\<lambda>_. ()) (?plain cs))"
    by (cases "plain_commit V G d root c"; cases "?plain cs") auto
  show ?case
    unfolding plain scan_commits.simps
  proof (rule computes_bind [OF computes_cached_commit [OF answers follow c(1) listed stable_progress]])
    fix os assume os: "plain_commit V G d root c = Inr os"
    show "computes (\<lambda>s. ?I s \<and> progress found s) (bind_sr (scan_modify (fold (add_occurrence r) os)) (\<lambda>_. scan_commits V d root r cs))
      (map_res (\<lambda>_. ()) (?plain cs))
      (\<lambda>_ s. ?I s \<and> (\<forall>oss. ?plain (c # cs) = Inr oss \<longrightarrow> progress (found @ map (named_pointer r) (concat oss)) s))"
      by (rule computes_post [OF rest [of os]]) (use os in auto)
  qed
qed

definition listed_commits :: "history_env \<Rightarrow> path \<Rightarrow> scanned_ref list \<Rightarrow> history_commit set" where
  "listed_commits V root refs = {c. \<exists>r \<in> set refs. \<exists>cs. rev_list_commits (hv_git V) root (sf_commit r) = Inr cs \<and> c \<in> set cs}"

lemma computes_refs:
  assumes answers: "cat_file_answers V G" and follow: "attributes_follow_tree V G root commits"
    and listed: "commits_listed commits" and within: "listed_commits V root refs \<subseteq> commits"
  shows "computes (\<lambda>s. caches_ok V G root commits s \<and> progress found s) (scan_refs V d root refs)
     (map_res (\<lambda>_. ()) (traverse_res (plain_ref V G d root) refs))
     (\<lambda>_ s. caches_ok V G root commits s \<and> (\<forall>found'. traverse_res (plain_ref V G d root) refs = Inr found' \<longrightarrow>
        progress (found @ concat found') s))"
  using within
proof (induction refs arbitrary: found)
  case Nil
  show ?case unfolding scan_refs.simps traverse_res.simps map_res.simps by (rule computes_ret) simp
next
  case (Cons r refs)
  let ?I = "caches_ok V G root commits" and ?plain = "traverse_res (plain_ref V G d root)"
  have within: "listed_commits V root refs \<subseteq> commits" using Cons.prems unfolding listed_commits_def by auto
  have list: "computes (\<lambda>s. ?I s \<and> progress found s) (scan_lift (rev_list_commits (hv_git V) root (sf_commit r)))
      (map_err ScanFailed (rev_list_commits (hv_git V) root (sf_commit r))) (\<lambda>_ s. ?I s \<and> progress found s)"
    by (rule computes_lift)
  have one: "computes (\<lambda>s. ?I s \<and> progress found s) (scan_ref V d root r) (map_res (\<lambda>_. ()) (plain_ref V G d root r))
     (\<lambda>_ s. ?I s \<and> (\<forall>new. plain_ref V G d root r = Inr new \<longrightarrow> progress (found @ new) s))"
  proof -
    have "computes (\<lambda>s. ?I s \<and> progress found s) (scan_ref V d root r)
       (bind_res (map_err ScanFailed (rev_list_commits (hv_git V) root (sf_commit r))) (\<lambda>cs.
          map_res (\<lambda>_. ()) (traverse_res (plain_commit V G d root) cs)))
       (\<lambda>_ s. ?I s \<and> (\<forall>new. plain_ref V G d root r = Inr new \<longrightarrow> progress (found @ new) s))"
      unfolding scan_ref_def
    proof (rule computes_bind [OF list])
      fix cs assume cs: "map_err ScanFailed (rev_list_commits (hv_git V) root (sf_commit r)) = Inr cs"
      then have "set cs \<subseteq> commits" using Cons.prems unfolding listed_commits_def by auto
      from computes_commits [OF answers follow this listed]
      show "computes (\<lambda>s. ?I s \<and> progress found s) (scan_commits V d root (sf_name r) cs)
         (map_res (\<lambda>_. ()) (traverse_res (plain_commit V G d root) cs))
         (\<lambda>_ s. ?I s \<and> (\<forall>new. plain_ref V G d root r = Inr new \<longrightarrow> progress (found @ new) s))"
        by (rule computes_post) (use cs in \<open>auto simp: plain_ref_def\<close>)
    qed
    moreover have "bind_res (map_err ScanFailed (rev_list_commits (hv_git V) root (sf_commit r))) (\<lambda>cs.
          map_res (\<lambda>_. ()) (traverse_res (plain_commit V G d root) cs)) = map_res (\<lambda>_. ()) (plain_ref V G d root r)"
    proof (cases "rev_list_commits (hv_git V) root (sf_commit r)")
      case (Inr cs)
      then show ?thesis by (cases "traverse_res (plain_commit V G d root) cs") (auto simp: plain_ref_def)
    qed (simp add: plain_ref_def)
    ultimately show ?thesis by simp
  qed
  have plain: "map_res (\<lambda>_. ()) (?plain (r # refs)) = bind_res (map_res (\<lambda>_. ()) (plain_ref V G d root r)) (\<lambda>_. map_res (\<lambda>_. ()) (?plain refs))"
    by (cases "plain_ref V G d root r"; cases "?plain refs") auto
  show ?case
    unfolding plain scan_refs.simps
  proof (rule computes_bind [OF one])
    fix u assume "map_res (\<lambda>_. ()) (plain_ref V G d root r) = Inr u"
    then obtain new where new: "plain_ref V G d root r = Inr new" by (cases "plain_ref V G d root r") auto
    show "computes (\<lambda>s. ?I s \<and> (\<forall>new. plain_ref V G d root r = Inr new \<longrightarrow> progress (found @ new) s))
       (scan_refs V d root refs) (map_res (\<lambda>_. ()) (?plain refs))
       (\<lambda>_ s. ?I s \<and> (\<forall>found'. ?plain (r # refs) = Inr found' \<longrightarrow> progress (found @ concat found') s))"
      by (rule computes_post [OF computes_pre [OF Cons.IH [OF within, of "found @ new"]]]) (use new in auto)
  qed
qed


end
