(* ===== verification/Migration_Laws.thy ===== *)
theory Migration_Laws
  imports Migration_Scan
begin

text \<open>
  What the migration's readers guarantee: macro expansion in attribute files finds every attribute a
  line implies, and a small repository for the history scan.
\<close>

section \<open>Attribute macros\<close>

definition macro_edges :: "attribute_macros \<Rightarrow> (string \<times> string) set" where
  "macro_edges macros = {(a, b). \<exists>attributes. map_of macros a = Some attributes \<and> b \<in> set attributes}"

lemma in_expansion:
  "b \<in> set (expand_attribute_macro macros expanding a) \<longleftrightarrow> b = a \<or> (\<exists>attributes c. map_of macros a = Some attributes
     \<and> a \<notin> expanding \<and> c \<in> set attributes \<and> b \<in> set (expand_attribute_macro macros (insert a expanding) c))"
  by (subst expand_attribute_macro.simps, cases "map_of macros a") auto

lemma expansion_reached:
  "b \<in> set (expand_attribute_macro macros expanding a) \<Longrightarrow> (a, b) \<in> (macro_edges macros)\<^sup>*"
proof (induction macros expanding a rule: expand_attribute_macro.induct)
  case (1 macros expanding a)
  show ?case
  proof (cases "b = a")
    case False
    then obtain attributes c where m: "map_of macros a = Some attributes" "a \<notin> expanding" "c \<in> set attributes"
      "b \<in> set (expand_attribute_macro macros (insert a expanding) c)"
      using 1(2) by (subst (asm) in_expansion) blast
    then have "(c, b) \<in> (macro_edges macros)\<^sup>*" using 1(1) by blast
    moreover have "(a, c) \<in> macro_edges macros" using m by (auto simp: macro_edges_def)
    ultimately show ?thesis by (rule converse_rtrancl_into_rtrancl [rotated])
  qed simp
qed

text \<open>The last departure from a node.\<close>

lemma rtrancl_last_departure:
  assumes "(a, b) \<in> R\<^sup>*" "a \<noteq> b"
  shows "\<exists>c. (a, c) \<in> R \<and> (c, b) \<in> {(x, y). (x, y) \<in> R \<and> x \<noteq> a}\<^sup>*"
proof -
  let ?R = "{(x, y). (x, y) \<in> R \<and> x \<noteq> a}"
  have "(x, b) \<in> ?R\<^sup>* \<or> (\<exists>c. (a, c) \<in> R \<and> (c, b) \<in> ?R\<^sup>*)" if "(x, b) \<in> R\<^sup>*" for x
    using that
  proof (induction rule: converse_rtrancl_induct)
    case (step x y)
    then show ?case by (cases "x = a") (auto intro: converse_rtrancl_into_rtrancl)
  qed simp
  from this [OF assms(1)] have "(a, b) \<in> ?R\<^sup>* \<or> (\<exists>c. (a, c) \<in> R \<and> (c, b) \<in> ?R\<^sup>*)" .
  moreover have "(a, b) \<notin> ?R\<^sup>*" using assms(2) by (auto elim: converse_rtranclE)
  ultimately show ?thesis by blast
qed

lemma reached_expansion:
  "(a, b) \<in> {(x, y). (x, y) \<in> macro_edges macros \<and> x \<notin> expanding}\<^sup>* \<Longrightarrow> b \<in> set (expand_attribute_macro macros expanding a)"
proof (induction macros expanding a rule: expand_attribute_macro.induct)
  case (1 macros expanding a)
  show ?case
  proof (cases "a = b")
    case True
    then show ?thesis by (subst expand_attribute_macro.simps) simp
  next
    case False
    let ?R = "{(x, y). (x, y) \<in> macro_edges macros \<and> x \<notin> expanding}"
    from rtrancl_last_departure [OF 1(2) False] obtain c where
      c: "(a, c) \<in> ?R" "(c, b) \<in> {(x, y). (x, y) \<in> ?R \<and> x \<noteq> a}\<^sup>*" by blast
    have "{(x, y). (x, y) \<in> ?R \<and> x \<noteq> a} = {(x, y). (x, y) \<in> macro_edges macros \<and> x \<notin> insert a expanding}" by auto
    then have path: "(c, b) \<in> {(x, y). (x, y) \<in> macro_edges macros \<and> x \<notin> insert a expanding}\<^sup>*" using c(2) by simp
    obtain attributes where m: "map_of macros a = Some attributes" "c \<in> set attributes" "a \<notin> expanding"
      using c(1) by (auto simp: macro_edges_def)
    have "b \<in> set (expand_attribute_macro macros (insert a expanding) c)" by (rule 1(1) [OF m(1,3) m(2) path])
    then show ?thesis using m by (subst expand_attribute_macro.simps) auto
  qed
qed

lemma expand_attribute_macros_reachable:
  "set (expand_attribute_macros macros attributes) = (macro_edges macros)\<^sup>* `` set attributes"
  using expansion_reached reached_expansion [where expanding = "{}"]
  by (fastforce simp: expand_attribute_macros_def)

text \<open>
  C40: Expanding the macros of an attribute line always ends, also where macros refer to each other in
  cycles, and it yields exactly the attributes that the line's own attributes reach through the macro
  definitions: a line counts as LFS-tracked exactly when \<open>filter=lfs\<close> is reachable from it.
\<close>

theorem attribute_macros_expand:
  "set (expand_attribute_macros macros attributes) = (macro_edges macros)\<^sup>* `` set attributes
   \<and> (trim_start line = line \<and> line \<noteq> [] \<and> \<not> starts_with ''#'' line
        \<and> split_gitattributes_line line = pattern # attributes \<and> strip_prefix ''[attr]'' pattern = None
      \<longrightarrow> (fst (parse_lfs_pattern_line line source macros) \<noteq> None
        \<longleftrightarrow> (\<exists>a \<in> set attributes. (a, ''filter=lfs'') \<in> (macro_edges macros)\<^sup>*)))"
  using expand_attribute_macros_reachable [of macros attributes]
  by (auto simp: parse_lfs_pattern_line_def Let_def)

lemma attribute_macros_expand_witness:
  "fst (parse_lfs_pattern_line ''f big'' [] [(''big'', [''filter=lfs''])]) \<noteq> None"
proof -
  have "trim_start ''f big'' = ''f big''" "\<not> starts_with ''#'' ''f big''"
    "split_gitattributes_line ''f big'' = ''f'' # [''big'']" "strip_prefix ''[attr]'' ''f'' = None" by code_simp+
  moreover have "(''big'', ''filter=lfs'') \<in> (macro_edges [(''big'', [''filter=lfs''])])\<^sup>*"
    by (rule r_into_rtrancl) (simp add: macro_edges_def)
  ultimately show ?thesis
    using attribute_macros_expand [of "[(''big'', [''filter=lfs''])]" "[''big'']" "''f big''" "''f''" "[]"] by simp
qed

text \<open>Macros that name the next one twice double the expansion at each step.\<close>

primrec macro_chain :: "nat \<Rightarrow> attribute_macros" where
  "macro_chain 0 = []"
| "macro_chain (Suc n) = (replicate (Suc n) CHR ''m'', [replicate n CHR ''m'', replicate n CHR ''m'']) # macro_chain n"

lemma macro_chain_lookup:
  "map_of (macro_chain n) (replicate k CHR ''m'') =
     (if 0 < k \<and> k \<le> n then Some [replicate (k - 1) CHR ''m'', replicate (k - 1) CHR ''m''] else None)"
proof -
  have "replicate k CHR ''m'' = CHR ''m'' # replicate n CHR ''m'' \<longleftrightarrow> k = Suc n" for n
    by (metis length_replicate replicate_Suc)
  then show ?thesis by (induction n) (auto simp: le_Suc_eq)
qed

lemma macro_expansion_doubles:
  assumes "k \<le> n" "\<forall>x \<in> expanding. k < length x"
  shows "2 ^ k \<le> length (expand_attribute_macro (macro_chain n) expanding (replicate k CHR ''m''))"
  using assms
proof (induction k arbitrary: expanding)
  case 0
  then show ?case by (subst expand_attribute_macro.simps) simp
next
  case (Suc k)
  have out: "replicate (Suc k) CHR ''m'' \<notin> expanding" using Suc.prems(2) by fastforce
  let ?more = "insert (replicate (Suc k) CHR ''m'') expanding"
  have "2 ^ k \<le> length (expand_attribute_macro (macro_chain n) ?more (replicate k CHR ''m''))"
    using Suc.IH [of ?more] Suc.prems by fastforce
  then show ?case
    using out Suc.prems(1) macro_chain_lookup [of n "Suc k"] by (subst expand_attribute_macro.simps) simp
qed

section \<open>A small repository\<close>

text \<open>What \<open>git cat-file --batch-command\<close> prints for the objects of a store.\<close>

definition serve_object :: "object_store \<Rightarrow> string \<Rightarrow> string \<Rightarrow> string + string" where
  "serve_object G operation object_id = Inr (case G object_id of
       None \<Rightarrow> object_id @ '' missing'' @ [LF]
     | Some (object_type, bytes) \<Rightarrow> object_header object_id object_type bytes
         @ (if operation = ''contents'' then bytes @ [LF] else []))"

definition sample_commit_id :: string where
  "sample_commit_id = replicate 40 CHR ''a''"

definition sample_tree_id :: string where
  "sample_tree_id = replicate 40 CHR ''b''"

definition sample_blob_id :: string where
  "sample_blob_id = replicate 40 CHR ''6''"

text \<open>One commit with the file \<open>f\<close>, whose blob is no pointer.\<close>

definition sample_objects :: object_store where
  "sample_objects object_id = (if object_id = sample_tree_id
       then Some (''tree'', ''100644 f'' @ [CHR 0x00] @ replicate 20 CHR ''f'')
     else if object_id = sample_blob_id then Some (''blob'', ''abc'') else None)"

definition sample_migration_env :: migration_env where
  "sample_migration_env = \<lparr>mg_run = (\<lambda>_ _ _. Inr \<lparr>co_code = Some 0,
       co_stdout = sample_commit_id @ CHR '' '' # sample_tree_id @ [LF], co_stderr = []\<rparr>),
     mg_check_attr = (\<lambda>_ _ _. Inl ''unused''), mg_lossy = id\<rparr>"

definition sample_history_env :: history_env where
  "sample_history_env = \<lparr>hv_git = sample_migration_env, hv_spawn_reader = (\<lambda>_. None),
     hv_request = serve_object sample_objects, hv_read_error = (\<lambda>_. None), hv_wait = Inr (Some 0), hv_stderr = Inr []\<rparr>"

definition sample_refs :: "scanned_ref list" where
  "sample_refs = [\<lparr>sf_name = ''main'', sf_commit = sample_commit_id\<rparr>]"

definition sample_commit :: history_commit where
  "sample_commit = \<lparr>hc_object_id = sample_commit_id, hc_tree_id = sample_tree_id\<rparr>"

lemma sample_answers: "cat_file_answers sample_history_env sample_objects"
  by (auto simp: cat_file_answers_def sample_history_env_def serve_object_def sample_objects_def split: option.splits)

lemma sample_listing:
  "utf8_ok (sample_commit_id @ CHR '' '' # sample_tree_id @ [LF])" "length sample_commit_id = 40" "length sample_tree_id = 40"
  "str_lines (sample_commit_id @ CHR '' '' # sample_tree_id @ [LF]) = [sample_commit_id @ CHR '' '' # sample_tree_id]"
  "parse_commit_line command (sample_commit_id @ CHR '' '' # sample_tree_id) = Inr sample_commit"
  by code_simp+

lemma sample_rev_list: "rev_list_commits (hv_git sample_history_env) root sample_commit_id = Inr [sample_commit]"
    by (simp add: rev_list_commits_def run_git_os_with_limit_def sample_history_env_def sample_migration_env_def co_success_def
        required_success_stdout_with_limit_def output_stdout_with_limit_def MAX_HISTORY_COMMIT_LIST_BYTES_def
        sample_listing Let_def)

lemma sample_listed: "listed_commits sample_history_env root sample_refs = {sample_commit}"
  by (auto simp: listed_commits_def sample_refs_def sample_rev_list)

lemma single_commit_follows: "attributes_follow_tree V G root {c}"
proof -
  have "S = S'" if "plain_tree G d t = Inr S" "plain_tree G d' t = Inr S'" for d d' t S S'
    using plain_tree_agree [OF that(1), of d'] that(2) by simp
  then show ?thesis unfolding attributes_follow_tree_def by blast
qed

lemma sample_tree: "plain_tree sample_objects 1 sample_tree_id = Inr empty_summary"
proof -
  let ?bytes = "''100644 f'' @ [CHR 0x00] @ replicate 20 CHR ''f''"
  have "plain_contents sample_objects sample_tree_id ''tree'' MAX_HISTORY_TREE_OUTPUT_BYTES cmd = Inr ?bytes" for cmd
  proof -
    have "is_git_object_id sample_tree_id" by code_simp
    then show ?thesis
      by (simp add: plain_contents_def plain_info_def sample_objects_def MAX_HISTORY_TREE_OUTPUT_BYTES_def)
  qed
  moreover have "parse_raw_git_tree ?bytes sample_tree_id cmd = Inr [\<lparr>rt_mode = ''100644'', rt_object_id = sample_blob_id, rt_name = ''f''\<rparr>]" for cmd
    unfolding sample_blob_id_def by code_simp
  moreover have "plain_entries sample_objects sub cmd [\<lparr>rt_mode = ''100644'', rt_object_id = sample_blob_id, rt_name = ''f''\<rparr>] empty_summary
      = Inr empty_summary" for sub cmd
    by code_simp
  ultimately show ?thesis by (simp add: sorted_summary_def empty_summary_def)
qed

lemma sample_plain: "plain_scan sample_history_env sample_objects 1 root sample_refs = Inr []"
proof -
  have "plain_tree sample_objects 1 (hc_tree_id sample_commit) = Inr empty_summary"
    unfolding sample_commit_def using sample_tree by (simp del: plain_tree.simps One_nat_def)
  then have commit: "plain_commit sample_history_env sample_objects 1 root sample_commit = Inr []"
    by (simp add: plain_commit_def empty_summary_def del: plain_tree.simps One_nat_def)
  have "plain_ref sample_history_env sample_objects 1 root \<lparr>sf_name = ''main'', sf_commit = sample_commit_id\<rparr> = Inr []"
    unfolding plain_ref_def scanned_ref.simps sample_rev_list map_err.simps bind_res.simps traverse_res.simps commit by simp
  then show ?thesis
    unfolding plain_scan_def sample_refs_def traverse_res.simps by simp
qed


end
