(* ===== verification/Error_Text.thy ===== *)
theory Error_Text
  imports Migration_Process
begin

text \<open>
  The display texts of the provider and migration errors (\<open>src/error.rs\<close>), which the migration
  keeps as the diagnostics of a failed object.
\<close>

definition show_repository_permission :: "repository_permission \<Rightarrow> string" where
  "show_repository_permission p = (case p of
       PermRead \<Rightarrow> ''read''
     | PermWrite \<Rightarrow> ''write''
     | PermAdmin \<Rightarrow> ''admin'')"

definition status_text :: "nat option \<Rightarrow> string" where
  "status_text status = (case status of Some n \<Rightarrow> '' ('' @ nat_dec n @ '')'' | None \<Rightarrow> [])"

definition show_repository_provider_error :: "repository_provider_error \<Rightarrow> string" where
  "show_repository_provider_error e = (case e of
       RpAuthenticationRequired provider \<Rightarrow> provider @ '' authentication required''
     | RpPermissionDenied provider owner repo required \<Rightarrow>
         provider @ '' denied '' @ show_repository_permission required @ '' access to '' @ owner @ ''/'' @ repo
     | RpRepositoryNotFound provider owner repo \<Rightarrow>
         provider @ '' repository not found: '' @ owner @ ''/'' @ repo
     | RpSsoRequired provider organization \<Rightarrow>
         provider @ '' requires SSO authorization for '' @ organization
     | RpUnsupported provider_type \<Rightarrow> ''unsupported repository provider type: '' @ provider_type
     | RpUpstream provider status message \<Rightarrow>
         provider @ '' upstream failure'' @ status_text status @ '': '' @ message)"

definition show_storage_error :: "storage_error \<Rightarrow> string" where
  "show_storage_error e = (case e of
       StRepositoryNamespaceMismatch provider \<Rightarrow>
         provider @ '' storage provider rejected a mismatched repository namespace''
     | StCredentialLoad provider reference message \<Rightarrow>
         provider @ '' storage credential '' @ debug_str reference @ '' could not be loaded: '' @ message
     | StAuthenticationRequired provider \<Rightarrow> provider @ '' storage authentication required''
     | StPermissionDenied provider message \<Rightarrow> provider @ '' storage permission denied: '' @ message
     | StObjectNotFound provider x n \<Rightarrow>
         provider @ '' object not found: sha256:'' @ x @ '' ('' @ nat_dec (unat n) @ '' bytes)''
     | StConflict provider x \<Rightarrow> provider @ '' object conflict: sha256:'' @ x
     | StQuotaExceeded provider message \<Rightarrow> provider @ '' quota exceeded: '' @ message
     | StIntegrityMismatch expected_oid expected_size actual_oid actual_size \<Rightarrow>
         ''integrity mismatch: expected sha256:'' @ expected_oid @ '' ('' @ nat_dec (unat expected_size)
         @ '' bytes), got sha256:'' @ actual_oid @ '' ('' @ nat_dec (unat actual_size) @ '' bytes)''
     | StStagedFileRead provider p source \<Rightarrow>
         provider @ '' staged upload file '' @ p @ '' could not be read: '' @ source
     | StRetryable provider message \<Rightarrow> provider @ '' retryable storage failure: '' @ message
     | StUnsupported provider_type \<Rightarrow> ''unsupported storage provider type: '' @ provider_type
     | StUpstream provider status message \<Rightarrow>
         provider @ '' upstream failure'' @ status_text status @ '': '' @ message)"

definition show_migration_error :: "migration_error \<Rightarrow> string" where
  "show_migration_error e = (case e of
       MigNotGitRepository p \<Rightarrow> ''not a Git repository: '' @ path_display p
     | MigSourceEndpointMissing \<Rightarrow> ''source Git LFS endpoint is not configured''
     | MigSourceObjectMissing x n \<Rightarrow>
         ''source object missing: sha256:'' @ x @ '' ('' @ nat_dec (unat n) @ '' bytes)''
     | MigGitObjectUnavailable object_id \<Rightarrow>
         ''Git object '' @ object_id @ '' is unavailable locally; fetch partial-clone objects before migration planning''
     | MigShallowRepository p \<Rightarrow>
         ''migration history is incomplete because '' @ path_display p
         @ '' is a shallow repository; run `git fetch --unshallow` before scanning selected refs or all refs''
     | MigUnsupportedGitVersion installed required feature \<Rightarrow>
         ''Git '' @ installed @ '' does not support '' @ feature @ ''; Git '' @ required
         @ '' or newer is required; upgrade Git or use current-checkout migration without `--ref` or `--all-refs`''
     | MigInvalidInput message \<Rightarrow> ''invalid migration input: '' @ message
     | MigDryRunWriteAttempt p \<Rightarrow> ''dry-run attempted to write '' @ path_display p
     | MigIo context source \<Rightarrow> context @ '': '' @ source
     | MigExternalCommand command status stderr \<Rightarrow>
         command @ '' failed with status '' @ status @ '': '' @ stderr
     | MigExternalCommandOutput command message \<Rightarrow> command @ '' returned invalid output: '' @ message
     | MigRepositoryProvider source \<Rightarrow>
         ''repository provider failed during migration: '' @ show_repository_provider_error source
     | MigStorage source \<Rightarrow> ''storage provider failed during migration: '' @ show_storage_error source)"

text \<open>\<open>io::ErrorKind\<close> and \<open>io::Error\<close>: an error of the system is shown by its kind.\<close>

definition show_io_kind :: "io_kind \<Rightarrow> string" where
  "show_io_kind k = (case k of
       NotFound \<Rightarrow> ''entity not found''
     | AlreadyExists \<Rightarrow> ''entity already exists''
     | DirectoryNotEmpty \<Rightarrow> ''directory not empty''
     | NotADirectory \<Rightarrow> ''not a directory''
     | IsADirectory \<Rightarrow> ''is a directory''
     | InvalidData \<Rightarrow> ''invalid data''
     | InvalidInput \<Rightarrow> ''invalid input parameter''
     | TimedOutKind \<Rightarrow> ''timed out''
     | OtherKind \<Rightarrow> ''other error'')"

fun show_io_error :: "fs_error \<Rightarrow> string" where
  "show_io_error (IoError k message) = (if message = [] then show_io_kind k else message)"

end
