(* ===== verification/Migration_Objects.thy ===== *)
theory Migration_Objects
  imports Error_Text Cache_Objects
begin

text \<open>
  The local copies of the objects to migrate (\<open>src/migration/local_objects.rs\<close>): where Git LFS
  keeps its media, the check of one location against the pointer's digest and size, and the
  report over the requested objects. The checks read the tree of files and never write it.
\<close>

section \<open>The report\<close>

datatype location_kind = GitLfsMedia | SharedCache

datatype location_status = LocAvailable | LocMissing | LocInvalid string

record object_location =
  ol_kind :: location_kind
  ol_path :: path
  ol_status :: location_status

record local_object =
  lo_object :: lfs_object
  lo_locations :: "object_location list"

record object_availability =
  oa_worktree_root :: path
  oa_git_lfs_objects_dir :: path
  oa_shared_cache_root :: "path option"
  oa_objects :: "local_object list"

definition is_available :: "local_object \<Rightarrow> bool" where
  "is_available local = list_ex (\<lambda>location. ol_status location = LocAvailable) (lo_locations local)"

definition available_objects :: "object_availability \<Rightarrow> local_object list" where
  "available_objects availability = filter is_available (oa_objects availability)"

definition unavailable_objects :: "object_availability \<Rightarrow> local_object list" where
  "unavailable_objects availability = filter (\<lambda>object. \<not> is_available object) (oa_objects availability)"

section \<open>Where the media are\<close>

definition git_absolute_path :: "migration_env \<Rightarrow> path \<Rightarrow> string list \<Rightarrow> string \<Rightarrow> path migration_result" where
  "git_absolute_path M worktree_root args command_name =
     bind_res (run_git M worktree_root args) (\<lambda>out.
     map_res (\<lambda>stdout. path_of_bytes (trim_newlines stdout)) (required_success_stdout M out command_name))"

definition configured_git_lfs_storage_dir :: "migration_env \<Rightarrow> path \<Rightarrow> path option migration_result" where
  "configured_git_lfs_storage_dir M worktree_root =
     map_res (\<lambda>storage. case storage of
         None \<Rightarrow> None
       | Some s \<Rightarrow> if trim s = [] then None else Some (path_of_bytes (trim s)))
       (git_config_get M worktree_root [''config'', ''--get'', ''lfs.storage''])"

definition migration_git_lfs_objects_dir :: "migration_env \<Rightarrow> path \<Rightarrow> path migration_result" where
  "migration_git_lfs_objects_dir M worktree_root =
     bind_res (git_absolute_path M worktree_root [''rev-parse'', ''--path-format=absolute'', ''--git-common-dir'']
         ''git rev-parse --path-format=absolute --git-common-dir'') (\<lambda>git_common_dir.
     map_res (\<lambda>configured. fs_path_join (case configured of
           Some storage_dir \<Rightarrow> if fs_path_is_absolute storage_dir then storage_dir
             else fs_path_join git_common_dir storage_dir
         | None \<Rightarrow> fs_path_join git_common_dir [''lfs'']) [''objects''])
       (configured_git_lfs_storage_dir M worktree_root))"

text \<open>Object ids have 64 characters, so both shards are there.\<close>

definition migration_git_lfs_object_path :: "path \<Rightarrow> lfs_oid \<Rightarrow> path migration_result" where
  "migration_git_lfs_object_path git_lfs_objects_dir x =
     (let hex = as_hex x in
      if length hex < 4 then Inl (MigInvalidInput ''validated SHA-256 object ID is too short'')
      else Inr (git_lfs_objects_dir @ [take 2 hex, take 2 (drop 2 hex), hex]))"

section \<open>One location\<close>

text \<open>An I/O failure with its context, before it becomes a \<open>MigrationError::Io\<close>.\<close>

type_synonym io_failure = "string \<times> fs_error"

definition io_migration_error :: "io_failure \<Rightarrow> migration_error" where
  "io_migration_error failure = MigIo (fst failure) (show_io_error (snd failure))"

definition local_object_verification_failure_message :: "io_failure \<Rightarrow> string" where
  "local_object_verification_failure_message failure =
     ''failed to verify local object bytes: '' @ show_io_kind (io_error_kind (snd failure))"

definition HASH_BUFFER :: nat where
  "HASH_BUFFER = 64 * 1024"

text \<open>The bytes read so far are \<open>hashed\<close>; every read may fail.\<close>

function hash_migration_loop ::
  "cache_env \<Rightarrow> path \<Rightarrow> string \<Rightarrow> string \<Rightarrow> u64 \<Rightarrow> fs \<Rightarrow> io_failure + (lfs_oid \<times> u64)" where
  "hash_migration_loop E p rest hashed total_size fs =
     (let context = ''failed to read local migration object '' @ path_display p in
      case ce_fault E fs context p of
        Some message \<Rightarrow> Inl (context, IoError OtherKind message)
      | None \<Rightarrow>
        if rest = [] then Inr (LfsOid (ce_sha E hashed), total_size)
        else (case checked_add_u64 total_size (of_nat (length (take HASH_BUFFER rest))) of
            None \<Rightarrow> Inl (''failed to measure local migration object '' @ path_display p,
              IoError OtherKind ''local migration object is too large to measure'')
          | Some total_size' \<Rightarrow>
              hash_migration_loop E p (drop HASH_BUFFER rest) (hashed @ take HASH_BUFFER rest) total_size' fs))"
  by pat_completeness auto
termination
  by (relation "measure (\<lambda>(E, p, rest, h, t, fs). length rest)") (auto simp: HASH_BUFFER_def)

declare hash_migration_loop.simps [simp del]

definition hash_migration_object_file :: "cache_env \<Rightarrow> path \<Rightarrow> fs \<Rightarrow> io_failure + (lfs_oid \<times> u64)" where
  "hash_migration_object_file E p fs =
     (let open_context = ''failed to open local migration object '' @ path_display p in
      bind_res (map_err (Pair open_context) (fst (io_raw E open_context p (fs_metadata p) fs))) (\<lambda>file.
      bind_res (map_err (Pair (''failed to read local migration object '' @ path_display p)) (read_handle file)) (\<lambda>bytes.
        hash_migration_loop E p bytes [] 0 fs)))"

definition show_object :: "lfs_oid \<Rightarrow> u64 \<Rightarrow> string" where
  "show_object x n = ''sha256:'' @ as_hex x @ '' ('' @ nat_dec (unat n) @ '' bytes)''"

definition check_location_file :: "cache_env \<Rightarrow> path \<Rightarrow> lfs_object \<Rightarrow> fs_node \<Rightarrow> fs \<Rightarrow> location_status" where
  "check_location_file E p object metadata fs =
     (if node_len metadata \<noteq> obj_size object
      then LocInvalid (''expected '' @ show_object (obj_oid object) (obj_size object) @ '', got local object with ''
             @ nat_dec (unat (node_len metadata)) @ '' bytes'')
      else (case hash_migration_object_file E p fs of
          Inr (actual_oid, actual_size) \<Rightarrow>
            if actual_oid = obj_oid object \<and> actual_size = obj_size object then LocAvailable
            else LocInvalid (''expected '' @ show_object (obj_oid object) (obj_size object) @ '', got ''
                   @ show_object actual_oid actual_size)
        | Inl failure \<Rightarrow> LocInvalid (local_object_verification_failure_message failure)))"

definition check_local_migration_object_location ::
  "cache_env \<Rightarrow> location_kind \<Rightarrow> path \<Rightarrow> lfs_object \<Rightarrow> fs \<Rightarrow> object_location" where
  "check_local_migration_object_location E kind p object fs =
     \<lparr>ol_kind = kind, ol_path = p, ol_status =
       (case fst (io_raw E ''inspect local object'' p (fs_symlink_metadata p) fs) of
          Inr metadata \<Rightarrow>
            if node_is_symlink metadata then LocInvalid ''local object path is a symbolic link''
            else if node_is_file metadata then check_location_file E p object metadata fs
            else LocInvalid ''local object path is not a regular file''
        | Inl err \<Rightarrow>
            if io_error_kind err = NotFound then LocMissing
            else LocInvalid (''failed to inspect local object path: '' @ show_io_kind (io_error_kind err)))\<rparr>"

section \<open>All requested objects\<close>

fun first_occurrences :: "'a list \<Rightarrow> 'a set \<Rightarrow> 'a list" where
  "first_occurrences [] seen = []"
| "first_occurrences (x # xs) seen =
     (if x \<in> seen then first_occurrences xs seen else x # first_occurrences xs (insert x seen))"

definition check_local_object ::
  "cache_env \<Rightarrow> path \<Rightarrow> local_cache_layout option \<Rightarrow> fs \<Rightarrow> lfs_object \<Rightarrow> local_object migration_result" where
  "check_local_object E git_lfs_objects_dir shared_cache fs object =
     map_res (\<lambda>p.
       let media = check_local_migration_object_location E GitLfsMedia p object fs in
       \<lparr>lo_object = object, lo_locations = media # (case shared_cache of
            Some layout \<Rightarrow> if ol_status media = LocAvailable then []
              else [check_local_migration_object_location E SharedCache (object_path layout object) object fs]
          | None \<Rightarrow> [])\<rparr>)
       (migration_git_lfs_object_path git_lfs_objects_dir (obj_oid object))"

definition check_local_migration_objects ::
  "migration_env \<Rightarrow> cache_env \<Rightarrow> path \<Rightarrow> lfs_object list \<Rightarrow> local_cache_layout option \<Rightarrow> fs
     \<Rightarrow> object_availability migration_result" where
  "check_local_migration_objects M E start_dir objects shared_cache fs =
     bind_res (detect_worktree_root M start_dir) (\<lambda>worktree_root.
     bind_res (migration_git_lfs_objects_dir M worktree_root) (\<lambda>git_lfs_objects_dir.
     map_res (\<lambda>found. \<lparr>oa_worktree_root = worktree_root, oa_git_lfs_objects_dir = git_lfs_objects_dir,
         oa_shared_cache_root = map_option cl_root shared_cache, oa_objects = found\<rparr>)
       (traverse_res (check_local_object E git_lfs_objects_dir shared_cache fs) (first_occurrences objects {}))))"

section \<open>What the report means\<close>

text \<open>A location that is available holds the object's bytes.\<close>

definition location_holds :: "cache_env \<Rightarrow> fs \<Rightarrow> path \<Rightarrow> lfs_object \<Rightarrow> bool" where
  "location_holds E fs p object \<longleftrightarrow> (\<exists>content mode. map_of fs p = Some (FileNode content mode)
     \<and> LfsOid (ce_sha E content) = obj_oid object \<and> length content = unat (obj_size object))"

lemma hash_migration_loop_spec:
  "hash_migration_loop E p rest hashed sum0 fs = Inr (x, n) \<Longrightarrow>
   x = LfsOid (ce_sha E (hashed @ rest)) \<and> unat n = unat sum0 + length rest"
proof (induction E p rest hashed sum0 fs arbitrary: x n rule: hash_migration_loop.induct)
  case (1 E p rest hashed sum0 fs)
  show ?case
  proof (cases "rest = []")
    case True
    then show ?thesis using 1(2)
      by (subst (asm) hash_migration_loop.simps) (auto simp: Let_def split: option.splits)
  next
    case False
    obtain sum0' where add: "checked_add_u64 sum0 (of_nat (length (take HASH_BUFFER rest))) = Some sum0'"
      and fault: "ce_fault E fs (''failed to read local migration object '' @ path_display p) p = None"
      and step: "hash_migration_loop E p (drop HASH_BUFFER rest) (hashed @ take HASH_BUFFER rest) sum0' fs = Inr (x, n)"
      using 1(2) False by (subst (asm) hash_migration_loop.simps) (auto simp: Let_def split: option.splits)
    have "length (take HASH_BUFFER rest) < 2 ^ 64" by (simp add: HASH_BUFFER_def min_def)
    then have "unat (of_nat (length (take HASH_BUFFER rest)) :: u64) = length (take HASH_BUFFER rest)"
      by (simp add: unat_of_nat)
    then have "unat sum0' = unat sum0 + length (take HASH_BUFFER rest)"
      using checked_add_u64_Some [OF add] by simp
    moreover have "x = LfsOid (ce_sha E ((hashed @ take HASH_BUFFER rest) @ drop HASH_BUFFER rest))"
      and "unat n = unat sum0' + length (drop HASH_BUFFER rest)"
      using "1.IH" [OF refl fault False add step] by blast+
    moreover have "length (take HASH_BUFFER rest) + length (drop HASH_BUFFER rest) = length rest"
      by (metis append_take_drop_id length_append)
    ultimately show ?thesis by (metis append.assoc append_take_drop_id add.assoc)
  qed
qed

lemma check_location_available:
  assumes "ol_status (check_local_migration_object_location E kind p object fs) = LocAvailable"
  shows "location_holds E fs p object"
proof -
  obtain content mode where node: "map_of fs p = Some (FileNode content mode)"
    and checked: "check_location_file E p object (FileNode content mode) fs = LocAvailable"
    using assms
    by (auto simp: check_local_migration_object_location_def io_raw_def fs_symlink_metadata_def
        split: option.splits sum.splits if_splits elim!: node_is_file.elims)
  obtain x n where hash: "hash_migration_object_file E p fs = Inr (x, n)"
    and eq: "x = obj_oid object" "n = obj_size object"
    using checked by (auto simp: check_location_file_def split: sum.splits if_splits)
  have "fs_metadata p fs = (Inr (FileNode content mode), fs)"
    using node by (simp add: fs_metadata_def SYMLINK_LIMIT_def eval_nat_numeral)
  then have "hash_migration_loop E p content [] 0 fs = Inr (x, n)"
    using hash by (auto simp: hash_migration_object_file_def Let_def io_raw_def read_handle_def split: option.splits)
  from hash_migration_loop_spec [OF this] show ?thesis
    using node eq by (auto simp: location_holds_def)
qed

end
