(* ===== verification/Git_Remote.thy ===== *)
theory Git_Remote
  imports Error_Text Url_Lib
begin

text \<open>
  Repository discovery for the command line (\<open>src/git.rs\<close>): parsing a Git remote into host, owner
  and repository name, redaction of URLs for display, and the calls of Git that find the worktree
  and read and write the LFS URL. Git's commands and the \<open>url\<close> crate are parameters; a command may
  change the configuration, so the calls pass the state of the repository along.
\<close>

section \<open>Errors of the command line\<close>

datatype cli_error =
    CliInvalidArguments string
  | CliStatusFailed string
  | CliIo string string
  | CliLocalCache cache_error
  | CliMigration migration_error
  | CliServerPrerequisite server_error
  | CliMigrationUploadFailed nat string string
  | CliPullFailed nat path string
  | CliExternalCommand string string string
  | CliExternalCommandOutput string string
  | CliGitCredentialHelperNotConfigured string string
  | CliGitCredentialLookupFailed string string cli_error

type_synonym 'a cli_result = "cli_error + 'a"

section \<open>Redaction\<close>

definition rsplit_once :: "char \<Rightarrow> string \<Rightarrow> (string \<times> string) option" where
  "rsplit_once c s = map_option (\<lambda>(a, b). (rev b, rev a)) (split_once c (rev s))"

text \<open>What the program uses of the \<open>url\<close> crate beyond \<open>url_lib\<close>.\<close>

record 'u url_edit =
  ue_parse_error :: "string \<Rightarrow> string"
  ue_set_username :: "'u \<Rightarrow> string \<Rightarrow> 'u"
  ue_set_password :: "'u \<Rightarrow> string option \<Rightarrow> 'u"

definition URL_REDACTED :: string where
  "URL_REDACTED = ''REDACTED''"

definition redact_scp_like_remote_url :: "string \<Rightarrow> string option" where
  "redact_scp_like_remote_url value =
     (case rsplit_once CHR ''@'' value of
        None \<Rightarrow> None
      | Some (userinfo, rest) \<Rightarrow>
          if userinfo = [] \<or> rest = [] \<or> CHR '':'' \<notin> set rest then None
          else Some (URL_REDACTED @ ''@'' @ rest))"

definition redact_query_fragment_for_display :: "string \<Rightarrow> string" where
  "redact_query_fragment_for_display value =
     (let query_index = position (\<lambda>c. c = CHR ''?'') value;
          fragment_index = position (\<lambda>c. c = CHR ''#'') value in
      case position (\<lambda>c. c = CHR ''?'' \<or> c = CHR ''#'') value of
        None \<Rightarrow> value
      | Some first_sensitive_index \<Rightarrow>
          take first_sensitive_index value
          @ (case query_index of
               Some index \<Rightarrow> (case fragment_index of
                   None \<Rightarrow> ''?'' @ URL_REDACTED
                 | Some fragment \<Rightarrow> if index < fragment then ''?'' @ URL_REDACTED else [])
             | None \<Rightarrow> [])
          @ (if fragment_index \<noteq> None then ''#'' @ URL_REDACTED else []))"

definition redacted_url_for_display :: "'u url_lib \<Rightarrow> 'u url_edit \<Rightarrow> string \<Rightarrow> string" where
  "redacted_url_for_display L W value =
     (let fallback = redact_query_fragment_for_display value;
          scp_like = (case redact_scp_like_remote_url fallback of Some r \<Rightarrow> r | None \<Rightarrow> fallback) in
      case url_parse L fallback of
        None \<Rightarrow> scp_like
      | Some url \<Rightarrow>
          let named = (if url_username L url \<noteq> [] then ue_set_username W url URL_REDACTED else url);
              url' = (if url_password L named \<noteq> None then ue_set_password W named (Some URL_REDACTED) else named) in
          if url_username L url \<noteq> [] \<or> url_password L named \<noteq> None then url_print L url' else scp_like)"

section \<open>Parsing a remote\<close>

record git_remote =
  gr_remote_name :: string
  gr_url :: string
  gr_host :: string
  gr_owner :: string
  gr_name :: string

definition invalid_remote :: "string \<Rightarrow> 'a cli_result" where
  "invalid_remote message = Inl (CliInvalidArguments message)"

definition repository_label :: "git_remote \<Rightarrow> string" where
  "repository_label remote = gr_host remote @ ''/'' @ gr_owner remote @ ''/'' @ gr_name remote"

definition validate_remote_component :: "string \<Rightarrow> string \<Rightarrow> string cli_result" where
  "validate_remote_component label value =
     (if trim value = [] \<or> length (trim value) \<noteq> length value
      then Inl (CliInvalidArguments (label @ '' must not be blank or padded''))
      else if has_control value \<or> has_whitespace value
      then Inl (CliInvalidArguments (label @ '' must not contain whitespace or control characters''))
      else Inr value)"

definition validate_remote_name :: "string \<Rightarrow> string cli_result" where
  "validate_remote_name value = validate_remote_component ''Git remote name'' value"

definition git_host_label_ok :: "string \<Rightarrow> bool" where
  "git_host_label_ok label \<longleftrightarrow> label \<noteq> [] \<and> \<not> starts_with ''-'' label \<and> \<not> ends_with ''-'' label
     \<and> list_all (\<lambda>c. is_alnum c \<or> c = CHR ''-'') label"

definition validate_remote_host :: "string \<Rightarrow> string cli_result" where
  "validate_remote_host value =
     bind_res (validate_remote_component ''Git remote host'' value) (\<lambda>host.
       if list_ex (\<lambda>label. \<not> git_host_label_ok label) (split_on CHR ''.'' host)
       then invalid_remote ''Git remote host must be a route-safe host made of ASCII labels''
       else Inr host)"

definition validate_remote_route_component :: "string \<Rightarrow> string \<Rightarrow> bool \<Rightarrow> string cli_result" where
  "validate_remote_route_component label value allow_leading_dot =
     bind_res (validate_remote_component label value) (\<lambda>component.
       if component = ''.'' \<or> component = ''..''
          \<or> (\<not> allow_leading_dot \<and> starts_with ''.'' component)
          \<or> ends_with ''.'' component
          \<or> split_once_str ''..'' component \<noteq> None
          \<or> \<not> list_all (\<lambda>c. is_alnum c \<or> c = CHR ''-'' \<or> c = CHR ''_'' \<or> c = CHR ''.'') component
       then Inl (CliInvalidArguments (label
         @ '' must be a route-safe repository component without separators, percent escapes, or traversal segments''))
       else Inr component)"

definition validate_scp_like_user :: "string \<Rightarrow> unit cli_result" where
  "validate_scp_like_user value =
     (if value \<noteq> ''git'' then invalid_remote ''Git scp-like remote user must be git when present'' else Inr ())"

definition parse_repository_path :: "string \<Rightarrow> (string \<times> string) cli_result" where
  "parse_repository_path p =
     (case split_on CHR ''/'' (trim_matches CHR ''/'' p) of
        [owner, repo] \<Rightarrow>
          if owner = [] \<or> repo = [] then invalid_remote ''Git remote URL path must have owner/repo form''
          else bind_res (validate_remote_route_component ''Git remote owner'' owner False) (\<lambda>owner.
            bind_res (validate_remote_route_component ''Git remote repository name''
                (case strip_suffix ''.git'' repo of Some name \<Rightarrow> name | None \<Rightarrow> repo) True) (\<lambda>name.
              if ends_with ''.git'' name
              then invalid_remote ''Git remote repository name must not contain a nested .git suffix''
              else Inr (owner, name)))
      | _ \<Rightarrow> invalid_remote ''Git remote URL path must have owner/repo form'')"

definition parse_url_remote :: "'u url_lib \<Rightarrow> 'u url_edit \<Rightarrow> string \<Rightarrow> (string \<times> string) cli_result" where
  "parse_url_remote L W value =
     (case url_parse L value of
        None \<Rightarrow> Inl (CliInvalidArguments (''Git remote URL is not valid: '' @ ue_parse_error W value))
      | Some url \<Rightarrow>
          if url_scheme L url \<notin> {''https'', ''ssh''} then invalid_remote ''Git remote URL must use HTTPS or SSH''
          else if url_username L url \<noteq> [] \<and> url_scheme L url \<noteq> ''ssh''
          then invalid_remote ''Git remote URL must not include credentials''
          else if url_password L url \<noteq> None then invalid_remote ''Git remote URL must not include credentials''
          else if url_query L url \<noteq> None \<or> url_fragment L url \<noteq> None
          then invalid_remote ''Git remote URL must not include a query string or fragment''
          else (case url_host_str L url of
              Some host \<Rightarrow> if trim host = [] then invalid_remote ''Git remote URL must include a host''
                else Inr (ascii_lower host, trim_start_matches CHR ''/'' (url_path L url))
            | None \<Rightarrow> invalid_remote ''Git remote URL must include a host''))"

definition parse_scp_like_remote :: "string \<Rightarrow> (string \<times> string) cli_result" where
  "parse_scp_like_remote value =
     (case split_once CHR '':'' value of
        None \<Rightarrow> invalid_remote ''Git remote URL must be HTTPS, SSH, or scp-like''
      | Some (host_part, p) \<Rightarrow>
          if CHR ''/'' \<in> set host_part \<or> starts_with ''/'' p
          then invalid_remote ''Git remote URL must be a repository remote, not a local path''
          else if CHR ''?'' \<in> set p \<or> CHR ''#'' \<in> set p
          then invalid_remote ''Git remote URL must not include a query string or fragment''
          else bind_res (case rsplit_once CHR ''@'' host_part of
                Some (user, host) \<Rightarrow> map_res (\<lambda>_. host) (validate_scp_like_user user)
              | None \<Rightarrow> Inr host_part) (\<lambda>host.
            if trim host = [] then invalid_remote ''Git remote URL must include a host''
            else Inr (ascii_lower (trim host), p)))"

definition git_remote_parse :: "'u url_lib \<Rightarrow> 'u url_edit \<Rightarrow> string \<Rightarrow> string \<Rightarrow> git_remote cli_result" where
  "git_remote_parse L W remote_name url =
     bind_res (validate_remote_name remote_name) (\<lambda>remote_name.
       if trim url = [] \<or> length (trim url) \<noteq> length url
       then invalid_remote ''Git remote URL must not be blank or padded''
       else bind_res (if split_once_str ''://'' (trim url) \<noteq> None then parse_url_remote L W (trim url)
             else parse_scp_like_remote (trim url)) (\<lambda>(host, p).
         bind_res (validate_remote_host host) (\<lambda>host.
         bind_res (parse_repository_path p) (\<lambda>(owner, name).
           Inr \<lparr>gr_remote_name = remote_name, gr_url = url, gr_host = host, gr_owner = owner, gr_name = name\<rparr>))))"

section \<open>Calling Git\<close>

record 'w cli_git_env =
  gv_run :: "path \<Rightarrow> string list \<Rightarrow> 'w \<Rightarrow> (string + command_output) \<times> 'w"
  gv_canonicalize :: "path \<Rightarrow> path option"
  gv_lossy :: "string \<Rightarrow> string"

type_synonym ('w, 'a) git_call = "('w, cli_error, 'a) sr"

definition MAX_GIT_OUTPUT_BYTES :: nat where
  "MAX_GIT_OUTPUT_BYTES = 64 * 1024"

definition git_output :: "'w cli_git_env \<Rightarrow> path \<Rightarrow> string list \<Rightarrow> string \<Rightarrow> ('w, command_output) git_call" where
  "git_output G current_dir args command_name s =
     (case gv_run G current_dir args s of
        (Inl source, s') \<Rightarrow> (Inl (CliIo (''failed to start '' @ command_name) source), s')
      | (Inr out, s') \<Rightarrow> (Inr out, s'))"

definition git_command_error :: "'w cli_git_env \<Rightarrow> string \<Rightarrow> int option \<Rightarrow> string \<Rightarrow> cli_error" where
  "git_command_error G command code stderr =
     (let stderr = truncated_lossy_message (gv_lossy G) stderr MAX_GIT_OUTPUT_BYTES in
      CliExternalCommand command (command_status_text code)
        (if trim stderr = [] then ''no error output'' else trim stderr))"

definition require_git_success :: "'w cli_git_env \<Rightarrow> command_output \<Rightarrow> string \<Rightarrow> command_output cli_result" where
  "require_git_success G out command_name =
     (if \<not> co_success out then Inl (git_command_error G command_name (co_code out) (co_stderr out)) else Inr out)"

definition decode_git_stdout :: "command_output \<Rightarrow> string \<Rightarrow> string cli_result" where
  "decode_git_stdout out command_name =
     (if MAX_GIT_OUTPUT_BYTES < length (co_stdout out)
      then Inl (CliExternalCommandOutput command_name ''git returned too much output'')
      else if \<not> utf8_ok (co_stdout out)
      then Inl (CliExternalCommandOutput command_name ''git returned non-UTF-8 output'')
      else Inr (co_stdout out))"

definition git_stdout :: "'w cli_git_env \<Rightarrow> path \<Rightarrow> string list \<Rightarrow> string \<Rightarrow> ('w, string) git_call" where
  "git_stdout G current_dir args command_name =
     bind_sr (git_output G current_dir args command_name) (\<lambda>out. lift_sr
       (bind_res (require_git_success G out command_name) (\<lambda>out. decode_git_stdout out command_name)))"

definition cli_git_config_get :: "'w cli_git_env \<Rightarrow> path \<Rightarrow> string list \<Rightarrow> string \<Rightarrow> ('w, string option) git_call" where
  "cli_git_config_get G current_dir args command_name =
     bind_sr (git_output G current_dir args command_name) (\<lambda>out. lift_sr
       (if \<not> co_success out
        then if co_code out = Some 1 \<and> list_all is_ascii_ws (co_stderr out) then Inr None
             else Inl (git_command_error G command_name (co_code out) (co_stderr out))
        else map_res (\<lambda>value. Some (trim_end value)) (decode_git_stdout out command_name)))"

definition run_git_config :: "'w cli_git_env \<Rightarrow> path \<Rightarrow> string list \<Rightarrow> string \<Rightarrow> ('w, unit) git_call" where
  "run_git_config G current_dir args command_name =
     bind_sr (git_output G current_dir args command_name) (\<lambda>out. lift_sr
       (map_res (\<lambda>_. ()) (require_git_success G out command_name)))"

definition canonicalized :: "'w cli_git_env \<Rightarrow> path \<Rightarrow> path" where
  "canonicalized G p = (case gv_canonicalize G p of Some q \<Rightarrow> q | None \<Rightarrow> p)"

definition cli_detect_worktree_root :: "'w cli_git_env \<Rightarrow> path \<Rightarrow> ('w, path) git_call" where
  "cli_detect_worktree_root G start_dir =
     bind_sr (git_stdout G start_dir [''rev-parse'', ''--show-toplevel''] ''git rev-parse --show-toplevel'') (\<lambda>out.
       ret_sr (canonicalized G (path_of_bytes (trim_end out))))"

definition cli_git_absolute_path :: "'w cli_git_env \<Rightarrow> path \<Rightarrow> string list \<Rightarrow> string \<Rightarrow> ('w, path) git_call" where
  "cli_git_absolute_path G current_dir args command_name =
     bind_sr (git_stdout G current_dir args command_name) (\<lambda>out.
       let p = path_of_bytes (trim_end out) in
       ret_sr (canonicalized G (if fs_path_is_absolute p then p else fs_path_join current_dir p)))"

section \<open>The repository\<close>

record git_repository =
  gp_worktree_root :: path
  gp_remote :: git_remote

definition is_local_transport_url :: "'u url_lib \<Rightarrow> string \<Rightarrow> bool" where
  "is_local_transport_url L value \<longleftrightarrow>
     (case url_parse L value of Some url \<Rightarrow> url_scheme L url = ''file'' | None \<Rightarrow> False) \<or> starts_with ''/'' value"

definition discover_with_remote ::
  "'w cli_git_env \<Rightarrow> 'u url_lib \<Rightarrow> 'u url_edit \<Rightarrow> path \<Rightarrow> string \<Rightarrow> ('w, git_repository) git_call" where
  "discover_with_remote G L W start_dir remote_name =
     bind_sr (lift_sr (validate_remote_name remote_name)) (\<lambda>remote_name.
     bind_sr (cli_detect_worktree_root G start_dir) (\<lambda>worktree_root.
     bind_sr (git_stdout G start_dir [''remote'', ''get-url'', remote_name] (''git remote get-url '' @ remote_name)) (\<lambda>out.
     bind_sr (case git_remote_parse L W remote_name (trim_end out) of
           Inr remote \<Rightarrow> ret_sr remote
         | Inl err \<Rightarrow>
             if is_local_transport_url L (trim_end out)
             then let config_key = ''remote.'' @ remote_name @ ''.url'' in
               bind_sr (git_stdout G start_dir [''config'', ''--get'', config_key] (''git config --get '' @ config_key)) (\<lambda>configured_url.
                 lift_sr (git_remote_parse L W remote_name (trim_end configured_url)))
             else lift_sr (Inl err)) (\<lambda>remote.
       ret_sr \<lparr>gp_worktree_root = worktree_root, gp_remote = remote\<rparr>))))"

definition discover :: "'w cli_git_env \<Rightarrow> 'u url_lib \<Rightarrow> 'u url_edit \<Rightarrow> path \<Rightarrow> ('w, git_repository) git_call" where
  "discover G L W start_dir = discover_with_remote G L W start_dir ''origin''"

definition lfsconfig_path :: "git_repository \<Rightarrow> path" where
  "lfsconfig_path repository = fs_path_join (gp_worktree_root repository) [''.lfsconfig'']"

definition local_git_config_path :: "'w cli_git_env \<Rightarrow> git_repository \<Rightarrow> ('w, path) git_call" where
  "local_git_config_path G repository =
     cli_git_absolute_path G (gp_worktree_root repository)
       [''rev-parse'', ''--path-format=absolute'', ''--git-path'', ''config'']
       ''git rev-parse --path-format=absolute --git-path config''"

definition git_dir_path :: "'w cli_git_env \<Rightarrow> git_repository \<Rightarrow> ('w, path) git_call" where
  "git_dir_path G repository =
     cli_git_absolute_path G (gp_worktree_root repository) [''rev-parse'', ''--path-format=absolute'', ''--git-dir'']
       ''git rev-parse --path-format=absolute --git-dir''"

definition git_common_dir_path :: "'w cli_git_env \<Rightarrow> git_repository \<Rightarrow> ('w, path) git_call" where
  "git_common_dir_path G repository =
     cli_git_absolute_path G (gp_worktree_root repository)
       [''rev-parse'', ''--path-format=absolute'', ''--git-common-dir'']
       ''git rev-parse --path-format=absolute --git-common-dir''"

datatype config_target = WorktreeFile | LocalRepository

definition config_target_label :: "config_target \<Rightarrow> string" where
  "config_target_label target = (case target of WorktreeFile \<Rightarrow> ''.lfsconfig'' | LocalRepository \<Rightarrow> ''local Git config'')"

definition config_target_path :: "'w cli_git_env \<Rightarrow> config_target \<Rightarrow> git_repository \<Rightarrow> ('w, path) git_call" where
  "config_target_path G target repository = (case target of
       WorktreeFile \<Rightarrow> ret_sr (lfsconfig_path repository)
     | LocalRepository \<Rightarrow> local_git_config_path G repository)"

record config_change =
  cc_target :: config_target
  cc_path :: path
  cc_previous_url :: "string option"
  cc_new_url :: string

definition read_lfs_url :: "'w cli_git_env \<Rightarrow> git_repository \<Rightarrow> config_target \<Rightarrow> ('w, string option) git_call" where
  "read_lfs_url G repository target = (case target of
       WorktreeFile \<Rightarrow> cli_git_config_get G (gp_worktree_root repository)
         [''config'', ''--file'', path_display (lfsconfig_path repository), ''--get'', ''lfs.url'']
         ''git config --file .lfsconfig --get lfs.url''
     | LocalRepository \<Rightarrow> cli_git_config_get G (gp_worktree_root repository)
         [''config'', ''--local'', ''--get'', ''lfs.url''] ''git config --local --get lfs.url'')"

definition configured_lfs_url :: "'w cli_git_env \<Rightarrow> git_repository \<Rightarrow> ('w, string option) git_call" where
  "configured_lfs_url G repository =
     bind_sr (read_lfs_url G repository LocalRepository) (\<lambda>found. case found of
         Some url \<Rightarrow> ret_sr (Some url)
       | None \<Rightarrow> read_lfs_url G repository WorktreeFile)"

definition write_lfs_url :: "'w cli_git_env \<Rightarrow> git_repository \<Rightarrow> config_target \<Rightarrow> string \<Rightarrow> ('w, config_change) git_call" where
  "write_lfs_url G repository target lfs_url =
     bind_sr (config_target_path G target repository) (\<lambda>p.
     bind_sr (read_lfs_url G repository target) (\<lambda>previous_url.
     bind_sr (case target of
         WorktreeFile \<Rightarrow> run_git_config G (gp_worktree_root repository)
           [''config'', ''--file'', path_display (lfsconfig_path repository), ''lfs.url'', lfs_url]
           ''git config --file .lfsconfig lfs.url''
       | LocalRepository \<Rightarrow> run_git_config G (gp_worktree_root repository)
           [''config'', ''--local'', ''lfs.url'', lfs_url] ''git config --local lfs.url'') (\<lambda>_.
       ret_sr \<lparr>cc_target = target, cc_path = p, cc_previous_url = previous_url, cc_new_url = lfs_url\<rparr>)))"

definition write_worktree_remote_lfs_url ::
  "'w cli_git_env \<Rightarrow> git_repository \<Rightarrow> string \<Rightarrow> string \<Rightarrow> ('w, unit) git_call" where
  "write_worktree_remote_lfs_url G repository remote_name lfs_url =
     run_git_config G (gp_worktree_root repository)
       [''config'', ''--file'', path_display (lfsconfig_path repository), ''remote.'' @ remote_name @ ''.lfsurl'', lfs_url]
       (''git config --file .lfsconfig remote.'' @ remote_name @ ''.lfsurl'')"

end
