(* ===== verification/Lfs_Init.thy ===== *)
theory Lfs_Init
  imports Git_Remote Routing
begin

text \<open>
  \<open>lfscloud init\<close> (\<open>src/init.rs\<close>, \<open>src/cli/init.rs\<close>): the LFS URL of the current repository below
  a server's base URL, its recovery from a configured URL, and writing it to the repository's
  configuration. The last section relates it to the server's routing: the URL that is written
  leads to the repository the server has configured.
\<close>

record lfs_init_route =
  ir_server_url :: string
  ir_remote :: git_remote
  ir_lfs_url :: string

definition validate_server_url :: "'u url_lib \<Rightarrow> string \<Rightarrow> bool \<Rightarrow> 'u cli_result" where
  "validate_server_url L value allow_insecure_http =
     map_err (\<lambda>err. CliInvalidArguments (''server URL '' @ show_http_url_validation_error err
         @ (if err = UrlInsecureTransport then ''; pass --allow-insecure-http only on a trusted development network'' else [])))
       (validate_http_url L value allow_insecure_http)"

definition normalized_server_url :: "'u url_lib \<Rightarrow> 'u \<Rightarrow> string" where
  "normalized_server_url L url = trim_end_matches CHR ''/'' (url_print L url)"

definition lfs_route_segments :: "git_remote \<Rightarrow> string list" where
  "lfs_route_segments remote = [gr_host remote, gr_owner remote, gr_name remote @ ''.git'', ''info'', ''lfs'']"

definition append_lfs_route_segments :: "'u url_lib \<Rightarrow> 'u \<Rightarrow> git_remote \<Rightarrow> 'u cli_result" where
  "append_lfs_route_segments L url remote =
     (if \<not> url_is_base L url then Inl (CliInvalidArguments ''server URL cannot be used as a route base'')
      else Inr (foldl (url_push L) url (lfs_route_segments remote)))"

definition init_resolve_with_insecure_http ::
  "'u url_lib \<Rightarrow> string \<Rightarrow> git_remote \<Rightarrow> bool \<Rightarrow> lfs_init_route cli_result" where
  "init_resolve_with_insecure_http L server_url remote allow_insecure_http =
     bind_res (validate_server_url L server_url allow_insecure_http) (\<lambda>base.
     map_res (\<lambda>lfs_url. \<lparr>ir_server_url = normalized_server_url L base, ir_remote = remote,
         ir_lfs_url = url_print L lfs_url\<rparr>)
       (append_lfs_route_segments L base remote))"

definition init_resolve :: "'u url_lib \<Rightarrow> string \<Rightarrow> git_remote \<Rightarrow> lfs_init_route cli_result" where
  "init_resolve L server_url remote = init_resolve_with_insecure_http L server_url remote False"

definition LFS_ROUTE_SEGMENTS :: nat where
  "LFS_ROUTE_SEGMENTS = 5"

definition resolve_from_lfs_url_with_insecure_http ::
  "'u url_lib \<Rightarrow> string \<Rightarrow> git_remote \<Rightarrow> bool \<Rightarrow> lfs_init_route cli_result" where
  "resolve_from_lfs_url_with_insecure_http L lfs_url remote allow_insecure_http =
     bind_res (validate_server_url L lfs_url allow_insecure_http) (\<lambda>configured_url.
     bind_res (if url_is_base L configured_url
         then Inr (((url_pop L) ^^ LFS_ROUTE_SEGMENTS) (url_pop_if_empty L configured_url))
         else Inl (CliInvalidArguments ''configured lfs.url cannot be used as an LFS Cloud route'')) (\<lambda>server_base.
     bind_res (init_resolve_with_insecure_http L (normalized_server_url L server_base) remote allow_insecure_http) (\<lambda>route.
     bind_res (validate_server_url L (ir_lfs_url route) allow_insecure_http) (\<lambda>resolved_url.
       if url_print L resolved_url \<noteq> url_print L configured_url
       then Inl (CliInvalidArguments (''configured lfs.url does not match the current repository ''
              @ repository_label remote @ ''; pass --server URL to select its LFS Cloud server explicitly''))
       else Inr route))))"

definition resolve_from_lfs_url :: "'u url_lib \<Rightarrow> string \<Rightarrow> git_remote \<Rightarrow> lfs_init_route cli_result" where
  "resolve_from_lfs_url L lfs_url remote = resolve_from_lfs_url_with_insecure_http L lfs_url remote False"

section \<open>The command\<close>

record init_command =
  ic_server :: string
  ic_local :: bool
  ic_allow_insecure_http :: bool

definition init_command_target :: "init_command \<Rightarrow> config_target" where
  "init_command_target command = (if ic_local command then LocalRepository else WorktreeFile)"

definition write_init_change :: "'u url_lib \<Rightarrow> 'u url_edit \<Rightarrow> config_change \<Rightarrow> string list" where
  "write_init_change L W change =
     (let new_url = redacted_url_for_display L W (cc_new_url change) in
      [''configured '' @ config_target_label (cc_target change), ''  path: '' @ path_display (cc_path change)]
      @ (case cc_previous_url change of
           Some previous_url \<Rightarrow>
             if previous_url = cc_new_url change then [''  lfs.url unchanged: '' @ new_url]
             else [''  - lfs.url: '' @ redacted_url_for_display L W previous_url, ''  + lfs.url: '' @ new_url]
         | None \<Rightarrow> [''  - lfs.url: <unset>'', ''  + lfs.url: '' @ new_url]))"

text \<open>The context that is added to an error, then the error.\<close>

definition run_init_from_dir ::
  "'w cli_git_env \<Rightarrow> 'u url_lib \<Rightarrow> 'u url_edit \<Rightarrow> init_command \<Rightarrow> path \<Rightarrow> ('w, string \<times> cli_error, string list) sr" where
  "run_init_from_dir G L W command start_dir =
     bind_sr (map_err_sr (Pair ''failed to inspect current Git repository'') (discover G L W start_dir)) (\<lambda>repository.
     bind_sr (lift_sr (map_err (Pair ''failed to build Git LFS URL'')
         (init_resolve_with_insecure_http L (ic_server command) (gp_remote repository) (ic_allow_insecure_http command)))) (\<lambda>route.
     bind_sr (map_err_sr (Pair ''failed to write Git LFS config'')
         (write_lfs_url G repository (init_command_target command) (ir_lfs_url route))) (\<lambda>change.
       ret_sr (write_init_change L W change))))"

end
