(* ===== verification/Spec2Isabelle.thy ===== *)
theory Spec2Isabelle
  imports Routing Lfs_Batch Sessions Authorization Request_Safety Batch_Answers Drive_Samples Drive_Token Drive_Root Github_Auth Drive_Provider Cache_Claims Migration_Laws Migration_Objects Lfs_Init
begin

text \<open>
  Verification library of lfs-cloud.
\<close>

end
